(* ===== verification/Prelude.thy ===== *)
theory Prelude
  imports Main "HOL-Library.Word" "HOL-Library.Multiset"
begin

unbundle bit_operations_syntax

text \<open>
  Vocabulary shared by every component: the machine integers of the C code, C strings as
  lists of bytes, the string literals and the few functions of the C library that the
  program calls (\<open>isdigit\<close>, \<open>isalnum\<close>, \<open>tolower\<close>, \<open>strncmp\<close>, \<open>snprintf\<close>, \<open>strtol\<close>
  and its kin), and the lemmas on lists and words that several components use.

  A C string is the list of its bytes before the terminating NUL; a buffer that was filled
  by \<open>snprintf(buf, n, ...)\<close> holds the first \<open>n - 1\<close> bytes of the formatted text.
\<close>

section \<open>Machine integers\<close>

type_synonym byte = "8 word"
type_synonym u16 = "16 word"
type_synonym u32 = "32 word"
type_synonym u64 = "64 word"

text \<open>The collections that the component theories feed and the property proofs use.\<close>

named_theorems cstr_simps \<open>evaluation of C strings and of the C library functions\<close>
named_theorems codec_simps \<open>round trips and lengths of the binary encodings\<close>
named_theorems chain_simps \<open>chains, buckets and linked lists\<close>

section \<open>C strings\<close>

type_synonym cstr = "byte list"

text \<open>A string literal of the source.\<close>

fun str :: "string \<Rightarrow> cstr" where
  "str [] = []"
| "str (c # cs) = of_char c # str cs"

definition cstr_ok :: "cstr \<Rightarrow> bool" where
  "cstr_ok s \<longleftrightarrow> 0 \<notin> set s"

text \<open>What \<open>snprintf(buf, n, "%s", s)\<close> leaves in \<open>buf\<close>.\<close>

definition snprintf_s :: "nat \<Rightarrow> cstr \<Rightarrow> cstr" where
  "snprintf_s n s = take (n - 1) s"

text \<open>The size of nearly all of the program's heap buffers.\<close>

abbreviation BUFSZ :: nat where
  "BUFSZ \<equiv> 65535"

fun strncmp_eq :: "cstr \<Rightarrow> cstr \<Rightarrow> nat \<Rightarrow> bool" where
  "strncmp_eq a b 0 = True"
| "strncmp_eq [] [] (Suc n) = True"
| "strncmp_eq (a # as) (b # bs) (Suc n) = (a = b \<and> strncmp_eq as bs n)"
| "strncmp_eq _ _ (Suc n) = False"

text \<open>The classification functions of \<open>ctype.h\<close>, in the C locale.\<close>

definition isdigit :: "byte \<Rightarrow> bool" where
  "isdigit c \<longleftrightarrow> 48 \<le> c \<and> c \<le> 57"

definition isupper :: "byte \<Rightarrow> bool" where
  "isupper c \<longleftrightarrow> 65 \<le> c \<and> c \<le> 90"

definition islower :: "byte \<Rightarrow> bool" where
  "islower c \<longleftrightarrow> 97 \<le> c \<and> c \<le> 122"

definition isalnum :: "byte \<Rightarrow> bool" where
  "isalnum c \<longleftrightarrow> isdigit c \<or> isupper c \<or> islower c"

definition tolower :: "byte \<Rightarrow> byte" where
  "tolower c = (if isupper c then c + 32 else c)"

lemma str_append [simp]: "str (a @ b) = str a @ str b"
  by (induction a) auto

lemma length_str [simp]: "length (str s) = length s"
  by (induction s) auto

lemma strncmp_eq_prefix:
  "strncmp_eq a b (length b) \<longleftrightarrow> take (length b) a = b"
proof (induction b arbitrary: a)
  case Nil
  then show ?case by simp
next
  case (Cons y b)
  then show ?case by (cases a) auto
qed

section \<open>Outcomes of C code\<close>

text \<open>
  A routine that loops as long as its environment asks it to is given fuel: it is \<open>Done\<close> with
  a result, it is \<open>Undefined\<close> (the C code reads or writes outside its objects), or it is
  \<open>OutOfFuel\<close>, still running.
\<close>

datatype 'a outcome = Done 'a | Undefined | OutOfFuel

fun bind :: "'a outcome \<Rightarrow> ('a \<Rightarrow> 'b outcome) \<Rightarrow> 'b outcome" where
  "bind (Done a) f = f a"
| "bind Undefined f = Undefined"
| "bind OutOfFuel f = OutOfFuel"

lemma bind_Done_iff: "bind m f = Done b \<longleftrightarrow> (\<exists>a. m = Done a \<and> f a = Done b)"
  by (cases m) auto

lemma bind_cong [fundef_cong]:
  "m = m' \<Longrightarrow> (\<And>a. m' = Done a \<Longrightarrow> f a = g a) \<Longrightarrow> bind m f = bind m' g"
  by (cases m') auto

section \<open>Lists\<close>

lemma take_Suc_bound: "length (take n xs) \<le> n"
  by simp

lemma snprintf_s_length: "0 < n \<Longrightarrow> length (snprintf_s n s) < n"
  by (simp add: snprintf_s_def)

lemma snprintf_s_id [simp]: "length s < n \<Longrightarrow> snprintf_s n s = s"
  by (simp add: snprintf_s_def)

end
