(* ===== verification/Hashtable.thy ===== *)
theory Hashtable
  imports Prelude
begin

unbundle bit_operations_syntax

text \<open>
  The chained hash table of \<open>src/hashtable/hashtable.c\<close> (with the structures of
  \<open>hashtable_private.h\<close>). The array of chains is a list of lists: the \<open>next\<close> pointers of a
  chain are the order of its list. The hash function and the key equality are the function
  pointers of the table. Every \<open>malloc\<close> and \<open>realloc\<close> is a Boolean argument that says
  whether it succeeds, and an operation whose C code has undefined behaviour on a path
  returns \<open>None\<close> on that path.
\<close>

section \<open>Data\<close>

record ('k, 'v) hentry =
  he_k :: 'k
  he_v :: 'v
  he_h :: u32

record ('k, 'v) hashtable =
  tablelength :: nat
  ht_table :: "('k, 'v) hentry list list"
  entrycount :: u32
  loadlimit :: u32
  primeindex :: nat
  hashfn :: "'k \<Rightarrow> u32"
  eqfn :: "'k \<Rightarrow> 'k \<Rightarrow> bool"

definition primes :: "nat list" where
  "primes =
    [53, 97, 193, 389,
     769, 1543, 3079, 6151,
     12289, 24593, 49157, 98317,
     196613, 393241, 786433, 1572869,
     3145739, 6291469, 12582917, 25165843,
     50331653, 100663319, 201326611, 402653189,
     805306457, 1610612741]"

definition prime_table_length :: nat where
  "prime_table_length = length primes"

text \<open>
  \<open>max_load_factor\<close> is the \<open>float\<close> nearest to 0.65, that is 10905190 / 2^24. The product
  \<open>size * max_load_factor\<close> is computed in \<open>float\<close>: both the conversion of \<open>size\<close> and the
  product are rounded to 24 significant bits, to nearest with ties to even.
\<close>

definition max_load_factor_mantissa :: int where
  "max_load_factor_mantissa = 10905190"

function bit_width :: "int \<Rightarrow> nat" where
  "bit_width n = (if n \<le> 0 then 0 else Suc (bit_width (n div 2)))"
  by pat_completeness auto
termination
  by (relation "measure nat") auto

declare bit_width.simps [simp del]

definition float_round :: "int \<Rightarrow> int" where
  "float_round p =
     (let k = bit_width p - 24; q = p div 2 ^ k; r = p mod 2 ^ k in
      (if 2 * r > 2 ^ k \<or> (2 * r = 2 ^ k \<and> odd q) then q + 1 else q) * 2 ^ k)"

definition load_limit_of :: "nat \<Rightarrow> u32" where
  "load_limit_of sz =
     of_int ((float_round (float_round (int sz) * max_load_factor_mantissa) + (2 ^ 24 - 1)) div 2 ^ 24)"

definition indexFor :: "nat \<Rightarrow> u32 \<Rightarrow> nat" where
  "indexFor tlen hashvalue = unat hashvalue mod tlen"

section \<open>Operations\<close>

text \<open>The search for the first prime above \<open>minsize\<close>; the loop index ends at the table
  length when there is none.\<close>

fun find_prime :: "nat list \<Rightarrow> nat \<Rightarrow> nat \<Rightarrow> nat \<times> nat" where
  "find_prime [] minsize pindex = (primes ! 0, pindex)"
| "find_prime (p # ps) minsize pindex =
     (if p > minsize then (p, pindex) else find_prime ps minsize (Suc pindex))"

definition create_hashtable ::
  "bool \<Rightarrow> bool \<Rightarrow> u32 \<Rightarrow> ('k \<Rightarrow> u32) \<Rightarrow> ('k \<Rightarrow> 'k \<Rightarrow> bool) \<Rightarrow> ('k, 'v) hashtable option" where
  "create_hashtable malloc_h malloc_table minsize hashf eqf =
     (if minsize > push_bit 30 1 then None
      else
        (let (sz, pindex) = find_prime primes (unat minsize) 0 in
         if \<not> malloc_h then None
         else if \<not> malloc_table then None
         else Some \<lparr>tablelength = sz, ht_table = replicate sz [], entrycount = 0,
                    loadlimit = load_limit_of sz, primeindex = pindex,
                    hashfn = hashf, eqfn = eqf\<rparr>))"

definition hash_mix :: "u32 \<Rightarrow> u32" where
  "hash_mix i0 =
     (let i1 = i0 + NOT (push_bit 9 i0);
          i2 = i1 XOR (drop_bit 14 i1 OR push_bit 18 i1);
          i3 = i2 + push_bit 4 i2;
          i4 = i3 XOR (drop_bit 10 i3 OR push_bit 22 i3)
      in i4)"

definition hash :: "('k, 'v) hashtable \<Rightarrow> 'k \<Rightarrow> u32" where
  "hash h k = hash_mix (hashfn h k)"

text \<open>One entry moved to the head of its chain in the new table, and the two loops that move
  every entry of every chain.\<close>

definition push_entry :: "nat \<Rightarrow> ('k, 'v) hentry list list \<Rightarrow> ('k, 'v) hentry \<Rightarrow> ('k, 'v) hentry list list" where
  "push_entry newsize newtable e =
     (let index = indexFor newsize (he_h e) in newtable[index := e # newtable ! index])"

fun move_chain :: "nat \<Rightarrow> ('k, 'v) hentry list \<Rightarrow> ('k, 'v) hentry list list \<Rightarrow> ('k, 'v) hentry list list" where
  "move_chain newsize [] newtable = newtable"
| "move_chain newsize (e # es) newtable = move_chain newsize es (push_entry newsize newtable e)"

fun move_chains :: "nat \<Rightarrow> ('k, 'v) hentry list list \<Rightarrow> ('k, 'v) hentry list list \<Rightarrow> ('k, 'v) hentry list list" where
  "move_chains newsize [] newtable = newtable"
| "move_chains newsize (c # cs) newtable = move_chains newsize cs (move_chain newsize c newtable)"

text \<open>
  When the first allocation fails the code falls back to \<open>realloc\<close> and then calls
  \<open>memset(newtable[h->tablelength], 0, ...)\<close>: it passes the (indeterminate) pointer stored
  behind the old end of the array, not its address. That path has no defined result.
\<close>

definition hashtable_expand ::
  "bool \<Rightarrow> bool \<Rightarrow> ('k, 'v) hashtable \<Rightarrow> (('k, 'v) hashtable \<times> int) option" where
  "hashtable_expand malloc_new realloc_ok h =
     (if primeindex h = prime_table_length - 1 then Some (h, 0)
      else
        (let pi = Suc (primeindex h); newsize = primes ! pi in
         if malloc_new then
           Some (h\<lparr>primeindex := pi,
                    ht_table := move_chains newsize (ht_table h) (replicate newsize []),
                    tablelength := newsize,
                    loadlimit := load_limit_of newsize\<rparr>, -1)
         else if \<not> realloc_ok then Some (h, 0)
         else None))"

definition hashtable_count :: "('k, 'v) hashtable \<Rightarrow> u32" where
  "hashtable_count h = entrycount h"

definition hashtable_insert ::
  "bool \<Rightarrow> bool \<Rightarrow> bool \<Rightarrow> ('k, 'v) hashtable \<Rightarrow> 'k \<Rightarrow> 'v \<Rightarrow> (('k, 'v) hashtable \<times> int) option" where
  "hashtable_insert malloc_new realloc_ok malloc_entry h k v =
     (let h1 = h\<lparr>entrycount := entrycount h + 1\<rparr> in
      case (if entrycount h1 > loadlimit h1 then hashtable_expand malloc_new realloc_ok h1
            else Some (h1, 0)) of
        None \<Rightarrow> None
      | Some (h2, _) \<Rightarrow>
          if \<not> malloc_entry then Some (h2\<lparr>entrycount := entrycount h2 - 1\<rparr>, 0)
          else
            (let hv = hash h2 k; index = indexFor (tablelength h2) hv;
                 e = \<lparr>he_k = k, he_v = v, he_h = hv\<rparr>
             in Some (h2\<lparr>ht_table := (ht_table h2)[index := e # ht_table h2 ! index]\<rparr>, -1)))"

fun chain_search :: "('k \<Rightarrow> 'k \<Rightarrow> bool) \<Rightarrow> u32 \<Rightarrow> 'k \<Rightarrow> ('k, 'v) hentry list \<Rightarrow> 'v option" where
  "chain_search eqf hashvalue k [] = None"
| "chain_search eqf hashvalue k (e # es) =
     (if hashvalue = he_h e \<and> eqf k (he_k e) then Some (he_v e)
      else chain_search eqf hashvalue k es)"

definition hashtable_search :: "('k, 'v) hashtable \<Rightarrow> 'k \<Rightarrow> 'v option" where
  "hashtable_search h k =
     (let hashvalue = hash h k; index = indexFor (tablelength h) hashvalue
      in chain_search (eqfn h) hashvalue k (ht_table h ! index))"

text \<open>The unlinked entry and the rest of the chain.\<close>

fun chain_remove ::
  "('k \<Rightarrow> 'k \<Rightarrow> bool) \<Rightarrow> u32 \<Rightarrow> 'k \<Rightarrow> ('k, 'v) hentry list \<Rightarrow>
   (('k, 'v) hentry \<times> ('k, 'v) hentry list) option" where
  "chain_remove eqf hashvalue k [] = None"
| "chain_remove eqf hashvalue k (e # es) =
     (if hashvalue = he_h e \<and> eqf k (he_k e) then Some (e, es)
      else map_option (\<lambda>(r, es'). (r, e # es')) (chain_remove eqf hashvalue k es))"

text \<open>The result is the table, the returned value and the key that is freed.\<close>

definition hashtable_remove :: "('k, 'v) hashtable \<Rightarrow> 'k \<Rightarrow> ('k, 'v) hashtable \<times> 'v option \<times> 'k list" where
  "hashtable_remove h k =
     (let hashvalue = hash h k; index = indexFor (tablelength h) (hash h k)
      in case chain_remove (eqfn h) hashvalue k (ht_table h ! index) of
           None \<Rightarrow> (h, None, [])
         | Some (e, es) \<Rightarrow>
             (h\<lparr>ht_table := (ht_table h)[index := es], entrycount := entrycount h - 1\<rparr>,
              Some (he_v e), [he_k e]))"

text \<open>\<open>hashtable_destroy\<close>: the keys and the values handed to \<open>free\<close>, in order.\<close>

datatype ('k, 'v) freed = FreeKey 'k | FreeValue 'v

fun destroy_chain :: "bool \<Rightarrow> ('k, 'v) hentry list \<Rightarrow> ('k, 'v) freed list" where
  "destroy_chain free_values [] = []"
| "destroy_chain free_values (f # es) =
     FreeKey (he_k f) # (if free_values then [FreeValue (he_v f)] else []) @ destroy_chain free_values es"

fun destroy_chains :: "bool \<Rightarrow> ('k, 'v) hentry list list \<Rightarrow> ('k, 'v) freed list" where
  "destroy_chains free_values [] = []"
| "destroy_chains free_values (c # cs) = destroy_chain free_values c @ destroy_chains free_values cs"

definition hashtable_destroy :: "('k, 'v) hashtable \<Rightarrow> bool \<Rightarrow> ('k, 'v) freed list" where
  "hashtable_destroy h free_values = destroy_chains free_values (ht_table h)"

section \<open>Moving the entries to a new table\<close>

lemma length_push_entry [simp]: "length (push_entry n nt e) = length nt"
  by (simp add: push_entry_def Let_def)

lemma length_move_chain [simp]: "length (move_chain n c nt) = length nt"
  by (induction n c nt rule: move_chain.induct) auto

lemma length_move_chains [simp]: "length (move_chains n cs nt) = length nt"
  by (induction n cs nt rule: move_chains.induct) auto

lemma indexFor_less [simp]: "0 < n \<Longrightarrow> indexFor n w < n"
  by (simp add: indexFor_def)

lemma move_chain_nth:
  assumes "j < n" "length nt = n"
  shows "move_chain n c nt ! j = rev (filter (\<lambda>e. indexFor n (he_h e) = j) c) @ nt ! j"
  using assms by (induction n c nt rule: move_chain.induct) (auto simp: push_entry_def Let_def)

lemma move_chains_nth [chain_simps]:
  assumes "j < n" "length nt = n"
  shows "move_chains n cs nt ! j = rev (filter (\<lambda>e. indexFor n (he_h e) = j) (concat cs)) @ nt ! j"
  using assms by (induction n cs nt rule: move_chains.induct) (auto simp: move_chain_nth)

lemma mset_push_entry:
  assumes "0 < n" "length nt = n"
  shows "mset (concat (push_entry n nt e)) = add_mset e (mset (concat nt))"
proof -
  let ?i = "indexFor n (he_h e)"
  have i: "?i < length nt" using assms by simp
  have "concat (push_entry n nt e) = concat (take ?i nt) @ (e # nt ! ?i) @ concat (drop (Suc ?i) nt)"
    by (simp add: push_entry_def Let_def upd_conv_take_nth_drop [OF i])
  moreover have "concat nt = concat (take ?i nt) @ nt ! ?i @ concat (drop (Suc ?i) nt)"
    by (subst id_take_nth_drop [OF i]) simp
  ultimately show ?thesis by simp
qed

lemma mset_move_chain:
  "0 < n \<Longrightarrow> length nt = n \<Longrightarrow> mset (concat (move_chain n c nt)) = mset c + mset (concat nt)"
  by (induction n c nt rule: move_chain.induct) (auto simp: mset_push_entry)

lemma mset_move_chains [chain_simps]:
  "0 < n \<Longrightarrow> length nt = n \<Longrightarrow>
     mset (concat (move_chains n cs nt)) = mset (concat cs) + mset (concat nt)"
  by (induction n cs nt rule: move_chains.induct) (auto simp: mset_move_chain)

lemma length_concat_move_chains [chain_simps]:
  assumes "0 < n"
  shows "length (concat (move_chains n cs (replicate n []))) = length (concat cs)"
proof -
  have "size (mset (concat (move_chains n cs (replicate n [])))) = size (mset (concat cs))"
    using assms by (simp add: mset_move_chains concat_replicate_trivial del: size_mset)
  then show ?thesis by simp
qed

lemma filter_concat_one:
  assumes "i < length xs" "\<And>j. j < length xs \<Longrightarrow> j \<noteq> i \<Longrightarrow> filter P (xs ! j) = []"
  shows "filter P (concat xs) = filter P (xs ! i)"
  using assms
proof (induction xs arbitrary: i)
  case Nil
  then show ?case by simp
next
  case (Cons x xs)
  show ?case
  proof (cases i)
    case 0
    have "filter P (concat xs) = []"
      using Cons.prems(2) [of "Suc _"] 0 by (force simp: filter_empty_conv in_set_conv_nth)
    with 0 show ?thesis by simp
  next
    case (Suc i')
    have "filter P x = []" using Cons.prems(2) [of 0] Suc by simp
    moreover have "filter P (concat xs) = filter P (xs ! i')"
      using Cons.prems Suc by (intro Cons.IH) force+
    ultimately show ?thesis using Suc by simp
  qed
qed

section \<open>The chains as filters\<close>

lemma chain_search_find:
  "chain_search eqf hv k c = map_option he_v (find (\<lambda>e. hv = he_h e \<and> eqf k (he_k e)) c)"
  by (induction c) auto

lemma find_filter: "find P c = (case filter P c of [] \<Rightarrow> None | x # _ \<Rightarrow> Some x)"
  by (induction c) auto

lemma chain_remove_None: "chain_remove eqf hv k c = None \<longleftrightarrow> filter (\<lambda>e. hv = he_h e \<and> eqf k (he_k e)) c = []"
  by (induction c) auto

lemma chain_remove_Some:
  assumes "chain_remove eqf hv k c = Some (r, c')"
  shows "\<exists>pre post. c = pre @ r # post \<and> c' = pre @ post \<and>
           hv = he_h r \<and> eqf k (he_k r) \<and> filter (\<lambda>e. hv = he_h e \<and> eqf k (he_k e)) pre = []"
  using assms
proof (induction c arbitrary: c')
  case Nil
  then show ?case by simp
next
  case (Cons e c)
  show ?case
  proof (cases "hv = he_h e \<and> eqf k (he_k e)")
    case True
    with Cons.prems show ?thesis by (intro exI [of _ "[]"] exI [of _ c]) auto
  next
    case False
    with Cons.prems obtain d where "chain_remove eqf hv k c = Some (r, d)" "c' = e # d"
      by (auto split: if_splits)
    with Cons.IH obtain pre post where "c = pre @ r # post" "d = pre @ post"
      "hv = he_h r" "eqf k (he_k r)" "filter (\<lambda>e. hv = he_h e \<and> eqf k (he_k e)) pre = []"
      by blast
    with False \<open>c' = e # d\<close> show ?thesis
      by (intro exI [of _ "e # pre"] exI [of _ post]) auto
  qed
qed

section \<open>The invariant\<close>

text \<open>
  The table has the length of its prime, every entry stores the hash of its key and sits in
  the chain that this hash selects, and \<open>entrycount\<close> is the number of entries.
\<close>

definition ht_placed :: "('k, 'v) hashtable \<Rightarrow> bool" where
  "ht_placed h \<longleftrightarrow>
     (\<forall>i < tablelength h. \<forall>e \<in> set (ht_table h ! i).
        he_h e = hash h (he_k e) \<and> indexFor (tablelength h) (he_h e) = i)"

definition ht_wf :: "('k, 'v) hashtable \<Rightarrow> bool" where
  "ht_wf h \<longleftrightarrow>
     primeindex h < prime_table_length \<and>
     tablelength h = primes ! primeindex h \<and>
     length (ht_table h) = tablelength h \<and>
     loadlimit h = load_limit_of (tablelength h) \<and>
     ht_placed h"

definition ht_inv :: "('k, 'v) hashtable \<Rightarrow> bool" where
  "ht_inv h \<longleftrightarrow> ht_wf h \<and> entrycount h = of_nat (length (concat (ht_table h)))"

text \<open>All entries of a key, in the order in which its chain holds them.\<close>

definition key_entries :: "('k, 'v) hashtable \<Rightarrow> 'k \<Rightarrow> ('k, 'v) hentry list" where
  "key_entries h k =
     filter (\<lambda>e. hash h k = he_h e \<and> eqfn h k (he_k e))
       (ht_table h ! indexFor (tablelength h) (hash h k))"

lemma primes_pos: "i < prime_table_length \<Longrightarrow> 0 < primes ! i"
proof -
  have "\<forall>p \<in> set primes. 0 < p" by (simp add: primes_def)
  then show "i < prime_table_length \<Longrightarrow> 0 < primes ! i"
    by (simp add: prime_table_length_def)
qed

lemma ht_wf_length_pos: "ht_wf h \<Longrightarrow> 0 < tablelength h"
  by (auto simp: ht_wf_def primes_pos)

lemma placedD:
  assumes "ht_placed h" "i < tablelength h" "e \<in> set (ht_table h ! i)"
  shows "he_h e = hash h (he_k e)" "indexFor (tablelength h) (he_h e) = i"
  using assms unfolding ht_placed_def by blast+

lemma wf_stored_hash:
  assumes "ht_wf h" "e \<in> set (concat (ht_table h))"
  shows "he_h e = hash h (he_k e)"
proof -
  from assms(2) obtain i where "i < length (ht_table h)" "e \<in> set (ht_table h ! i)"
    unfolding set_concat by (metis UN_iff in_set_conv_nth)
  with assms(1) show ?thesis by (auto simp: ht_wf_def intro: placedD(1))
qed

lemma hash_cong [simp]:
  "hash (h\<lparr>ht_table := t\<rparr>) k = hash h k"
  "hash (h\<lparr>entrycount := c\<rparr>) k = hash h k"
  "hash (h\<lparr>tablelength := n\<rparr>) k = hash h k"
  "hash (h\<lparr>primeindex := p\<rparr>) k = hash h k"
  "hash (h\<lparr>loadlimit := l\<rparr>) k = hash h k"
  by (simp_all add: hash_def)

lemma hashtable_search_entries:
  "hashtable_search h k =
     (case key_entries h k of [] \<Rightarrow> None | e # _ \<Rightarrow> Some (he_v e))"
  by (simp add: hashtable_search_def key_entries_def chain_search_find find_filter Let_def
      split: list.splits)

lemma placed_filter_concat:
  assumes "ht_placed h" "length (ht_table h) = tablelength h" "i < tablelength h"
    and "\<And>e. P e \<Longrightarrow> indexFor (tablelength h) (he_h e) = i"
  shows "filter P (concat (ht_table h)) = filter P (ht_table h ! i)"
proof (rule filter_concat_one)
  show "i < length (ht_table h)" using assms(2,3) by simp
  show "filter P (ht_table h ! j) = []" if "j < length (ht_table h)" "j \<noteq> i" for j
    using that assms(1,2) assms(4) unfolding ht_placed_def filter_empty_conv by metis
qed

lemma key_entries_concat:
  assumes "ht_wf h"
  shows "key_entries h k =
    filter (\<lambda>e. hash h k = he_h e \<and> eqfn h k (he_k e)) (concat (ht_table h))"
  unfolding key_entries_def
  by (rule placed_filter_concat [symmetric])
    (use assms ht_wf_length_pos [OF assms] in \<open>auto simp: ht_wf_def\<close>)

section \<open>What the operations do to the invariant and to the entries of a key\<close>

lemma find_prime_first:
  assumes "\<exists>p \<in> set ps. m < p" "ps = drop i primes"
  shows "\<exists>p j. find_prime ps m i = (p, j) \<and> i \<le> j \<and> j < length primes \<and> p = primes ! j \<and> m < p"
  using assms
proof (induction ps m i rule: find_prime.induct)
  case (1 m i)
  then show ?case by simp
next
  case (2 p ps m i)
  from 2(3) have i: "i < length primes" by (metis drop_all list.distinct(1) not_le)
  with 2(3) have p: "p = primes ! i" and ps: "ps = drop (Suc i) primes"
    by (metis Cons_nth_drop_Suc list.inject)+
  show ?case
  proof (cases "m < p")
    case True
    with p i show ?thesis by auto
  next
    case False
    moreover from False 2(2) have "\<exists>q \<in> set ps. m < q" by auto
    ultimately have "\<exists>q j. find_prime ps m (Suc i) = (q, j) \<and> Suc i \<le> j \<and> j < length primes \<and>
        q = primes ! j \<and> m < q"
      using 2(1) ps by blast
    with False show ?thesis by (simp only: find_prime.simps if_False) (meson Suc_leD)
  qed
qed

lemma create_hashtable_Some:
  assumes "create_hashtable mh mt minsize hf ef = Some (h :: ('k, 'v) hashtable)"
  shows "ht_inv h" "concat (ht_table h) = []" "hashfn h = hf" "eqfn h = ef"
    "unat minsize < tablelength h"
proof -
  from assms have le: "minsize \<le> 2 ^ 30" by (auto simp: create_hashtable_def split: if_splits)
  then have "unat minsize \<le> 2 ^ 30" by (simp add: word_le_nat_alt)
  then have "\<exists>p \<in> set primes. unat minsize < p" by (simp add: primes_def)
  then obtain p j where fp: "find_prime primes (unat minsize) 0 = (p, j)"
    and j: "j < length primes" "p = primes ! j" "unat minsize < p"
    using find_prime_first [of primes "unat minsize" 0] by auto
  with assms have h: "h = \<lparr>tablelength = p, ht_table = replicate p [], entrycount = 0,
      loadlimit = load_limit_of p, primeindex = j, hashfn = hf, eqfn = ef\<rparr>"
    by (auto simp: create_hashtable_def split: if_splits)
  from h j show "ht_inv h" "concat (ht_table h) = []" "hashfn h = hf" "eqfn h = ef"
    "unat minsize < tablelength h"
    by (auto simp: ht_inv_def ht_wf_def ht_placed_def prime_table_length_def)
qed

lemma create_hashtable_None:
  "create_hashtable mh mt minsize hf ef = None \<longleftrightarrow> \<not> (minsize \<le> push_bit 30 1 \<and> mh \<and> mt)"
  by (auto simp: create_hashtable_def split: prod.splits)

lemma hashtable_expand_wf:
  assumes "ht_wf h" "hashtable_expand m1 m2 h = Some (h', r)"
  shows "ht_wf h'" "mset (concat (ht_table h')) = mset (concat (ht_table h))"
    "hashfn h' = hashfn h" "eqfn h' = eqfn h" "entrycount h' = entrycount h"
proof -
  show "hashfn h' = hashfn h" "eqfn h' = eqfn h" "entrycount h' = entrycount h"
    using assms(2) by (auto simp: hashtable_expand_def Let_def split: if_splits)
  let ?n = "primes ! Suc (primeindex h)"
  have lt: "primeindex h < prime_table_length" using assms(1) by (simp add: ht_wf_def)
  show "ht_wf h'" "mset (concat (ht_table h')) = mset (concat (ht_table h))"
  proof (atomize (full), cases "primeindex h = prime_table_length - 1 \<or> \<not> m1")
    case True
    then have "h' = h" using assms(2) by (auto simp: hashtable_expand_def Let_def split: if_splits)
    then show "ht_wf h' \<and> mset (concat (ht_table h')) = mset (concat (ht_table h))"
      using assms(1) by simp
  next
    case False
    have 2: "Suc (primeindex h) < prime_table_length"
      "h' = h\<lparr>primeindex := Suc (primeindex h),
              ht_table := move_chains ?n (ht_table h) (replicate ?n []),
              tablelength := ?n, loadlimit := load_limit_of ?n\<rparr>"
      using False lt assms(2) by (auto simp: hashtable_expand_def Let_def)
    have n: "0 < ?n" using 2(1) by (rule primes_pos)
    have ms: "mset (concat (ht_table h')) = mset (concat (ht_table h))"
      using n by (simp add: 2(2) mset_move_chains)
    have "he_h e = hash h (he_k e)" if "e \<in> set (concat (ht_table h))" for e
      using assms(1) that by (rule wf_stored_hash)
    then have "ht_placed h'"
      using n unfolding ht_placed_def 2(2) by (simp add: move_chains_nth) metis
    moreover have "length (concat (ht_table h')) = length (concat (ht_table h))"
      using n unfolding 2(2) by (simp add: length_concat_move_chains del: length_concat)
    ultimately have "ht_wf h'"
      using assms(1) 2(1) unfolding ht_wf_def by (simp add: 2(2) del: length_concat)
    with ms show "ht_wf h' \<and> mset (concat (ht_table h')) = mset (concat (ht_table h))"
      by simp
  qed
qed

lemma key_entries_expand:
  assumes "ht_wf h" "hashtable_expand True m2 h = Some (h', r)"
  shows "key_entries h' k = (if primeindex h = prime_table_length - 1 then key_entries h k
                             else rev (key_entries h k))"
proof (cases "primeindex h = prime_table_length - 1")
  case True
  with assms(2) show ?thesis by (simp add: hashtable_expand_def)
next
  case False
  let ?n = "primes ! Suc (primeindex h)"
  from False assms have h': "h' = h\<lparr>primeindex := Suc (primeindex h),
      ht_table := move_chains ?n (ht_table h) (replicate ?n []),
      tablelength := ?n, loadlimit := load_limit_of ?n\<rparr>"
    by (simp add: hashtable_expand_def Let_def)
  have "0 < ?n" using False assms(1) by (intro primes_pos) (auto simp: ht_wf_def)
  then have "key_entries h' k = rev (filter (\<lambda>e. hash h k = he_h e \<and> eqfn h k (he_k e))
      (filter (\<lambda>e. indexFor ?n (he_h e) = indexFor ?n (hash h k)) (concat (ht_table h))))"
    by (simp add: h' key_entries_def move_chains_nth rev_filter del: filter_filter)
  also have "\<dots> = rev (filter (\<lambda>e. hash h k = he_h e \<and> eqfn h k (he_k e)) (concat (ht_table h)))"
    by (simp add: filter_filter) (rule filter_cong, auto)
  finally have "key_entries h' k = \<dots>" .
  with False show ?thesis by (simp add: key_entries_concat [OF assms(1)])
qed

definition ht_grows :: "('k, 'v) hashtable \<Rightarrow> bool" where
  "ht_grows h \<longleftrightarrow> entrycount h + 1 > loadlimit h \<and> primeindex h \<noteq> prime_table_length - 1"

definition new_entry :: "('k, 'v) hashtable \<Rightarrow> 'k \<Rightarrow> 'v \<Rightarrow> ('k, 'v) hentry" where
  "new_entry h k v = \<lparr>he_k = k, he_v = v, he_h = hash h k\<rparr>"

lemma ht_wf_entrycount [simp]: "ht_wf (h\<lparr>entrycount := c\<rparr>) = ht_wf h"
  by (simp add: ht_wf_def ht_placed_def)

lemma key_entries_entrycount [simp]: "key_entries (h\<lparr>entrycount := c\<rparr>) k = key_entries h k"
  by (simp add: key_entries_def)

text \<open>Consing an entry onto the chain its hash selects.\<close>

lemma cons_entry:
  fixes h :: "('k, 'v) hashtable"
  assumes "ht_wf h" "i = indexFor (tablelength h) (hash h k)"
    "h' = h\<lparr>ht_table := (ht_table h)[i := new_entry h k v # ht_table h ! i]\<rparr>"
  shows "ht_wf h'"
    "mset (concat (ht_table h')) = add_mset (new_entry h k v) (mset (concat (ht_table h)))"
    "key_entries h' k' = (if hash h k' = hash h k \<and> eqfn h k' k then [new_entry h k v] else [])
       @ key_entries h k'"
proof -
  have i: "i < length (ht_table h)"
    using assms(1,2) ht_wf_length_pos [OF assms(1)] by (simp add: ht_wf_def)
  have placed: "ht_placed h" using assms(1) by (simp add: ht_wf_def)
  have "ht_placed h'"
    unfolding ht_placed_def
  proof (intro allI impI ballI)
    fix j e
    assume j: "j < tablelength h'" and e: "e \<in> set (ht_table h' ! j)"
    show "he_h e = hash h' (he_k e) \<and> indexFor (tablelength h') (he_h e) = j"
    proof (cases "j = i \<and> e = new_entry h k v")
      case True
      then show ?thesis using assms(2,3) by (simp add: new_entry_def)
    next
      case False
      then have "e \<in> set (ht_table h ! j)" using e i assms(3) by (auto simp: nth_list_update split: if_splits)
      moreover have "j < tablelength h" using j assms(3) by simp
      ultimately show ?thesis using placedD [OF placed] assms(3) by simp
    qed
  qed
  then show "ht_wf h'"
    using assms by (simp add: ht_wf_def)
  have "ht_table h' = push_entry (tablelength h) (ht_table h) (new_entry h k v)"
    using assms(2,3) by (simp add: push_entry_def Let_def new_entry_def)
  then show "mset (concat (ht_table h')) = add_mset (new_entry h k v) (mset (concat (ht_table h)))"
    using assms(1) ht_wf_length_pos [OF assms(1)] by (simp add: mset_push_entry ht_wf_def)
  show "key_entries h' k' = (if hash h k' = hash h k \<and> eqfn h k' k then [new_entry h k v] else [])
       @ key_entries h k'"
    using assms(2,3) i by (auto simp: key_entries_def nth_list_update new_entry_def)
qed

lemma hashtable_insert_steps:
  assumes "hashtable_insert m1 m2 True h k v = Some (h', r)"
  obtains h2 r2 where "(if entrycount h + 1 > loadlimit h
        then hashtable_expand m1 m2 (h\<lparr>entrycount := entrycount h + 1\<rparr>)
        else Some (h\<lparr>entrycount := entrycount h + 1\<rparr>, 0)) = Some (h2, r2)"
    "r = -1"
    "h' = h2\<lparr>ht_table := (ht_table h2)[indexFor (tablelength h2) (hash h2 k) :=
              new_entry h2 k v # ht_table h2 ! indexFor (tablelength h2) (hash h2 k)]\<rparr>"
  using assms by (auto simp: hashtable_insert_def Let_def new_entry_def split: option.splits if_splits)

lemma hashtable_insert_inv:
  assumes "ht_inv h" "hashtable_insert m1 m2 True h k v = Some (h', r)"
  shows "ht_inv h'" "r = -1" "hashfn h' = hashfn h" "eqfn h' = eqfn h"
    "mset (concat (ht_table h')) = add_mset (new_entry h k v) (mset (concat (ht_table h)))"
proof -
  obtain h2 r2 where h2: "(if entrycount h + 1 > loadlimit h
        then hashtable_expand m1 m2 (h\<lparr>entrycount := entrycount h + 1\<rparr>)
        else Some (h\<lparr>entrycount := entrycount h + 1\<rparr>, 0)) = Some (h2, r2)"
    and r: "r = -1"
    and h': "h' = h2\<lparr>ht_table := (ht_table h2)[indexFor (tablelength h2) (hash h2 k) :=
              new_entry h2 k v # ht_table h2 ! indexFor (tablelength h2) (hash h2 k)]\<rparr>"
    using hashtable_insert_steps [OF assms(2)] by blast
  have wf1: "ht_wf (h\<lparr>entrycount := entrycount h + 1\<rparr>)"
    using assms(1) by (simp add: ht_inv_def)
  have 2: "ht_wf h2 \<and> mset (concat (ht_table h2)) = mset (concat (ht_table h)) \<and>
      hashfn h2 = hashfn h \<and> eqfn h2 = eqfn h \<and> entrycount h2 = entrycount h + 1"
    using h2 wf1 hashtable_expand_wf [OF wf1] by (auto split: if_splits)
  then have ne: "new_entry h2 k v = new_entry h k v"
    by (simp add: new_entry_def hash_def)
  note cons = cons_entry [OF conjunct1 [OF 2] refl h']
  show "r = -1" by (rule r)
  show "hashfn h' = hashfn h" "eqfn h' = eqfn h" using 2 h' by simp_all
  show ms: "mset (concat (ht_table h')) = add_mset (new_entry h k v) (mset (concat (ht_table h)))"
    using cons(2) 2 ne by simp
  have "length (concat (ht_table h')) = Suc (length (concat (ht_table h)))"
    using arg_cong [OF ms, of size] by (simp del: length_concat)
  moreover have "entrycount h' = entrycount h + 1" using 2 h' by simp
  ultimately show "ht_inv h'"
    using cons(1) assms(1) by (simp add: ht_inv_def del: length_concat)
qed

lemma key_entries_insert:
  assumes "ht_inv h" "hashtable_insert True m2 True h k v = Some (h', r)"
  shows "key_entries h' k' =
    (if hash h k' = hash h k \<and> eqfn h k' k then [new_entry h k v] else []) @
    (if ht_grows h then rev (key_entries h k') else key_entries h k')"
proof -
  let ?h1 = "h\<lparr>entrycount := entrycount h + 1\<rparr>"
  obtain h2 r2 where h2: "(if entrycount h + 1 > loadlimit h
        then hashtable_expand True m2 ?h1 else Some (?h1, 0)) = Some (h2, r2)"
    and h': "h' = h2\<lparr>ht_table := (ht_table h2)[indexFor (tablelength h2) (hash h2 k) :=
              new_entry h2 k v # ht_table h2 ! indexFor (tablelength h2) (hash h2 k)]\<rparr>"
    using hashtable_insert_steps [OF assms(2)] by blast
  have wf1: "ht_wf ?h1" using assms(1) by (simp add: ht_inv_def)
  have 2: "ht_wf h2" "hashfn h2 = hashfn h" "eqfn h2 = eqfn h"
    "key_entries h2 k' = (if ht_grows h then rev (key_entries h k') else key_entries h k')"
    using h2 wf1 hashtable_expand_wf [OF wf1] key_entries_expand [OF wf1, of m2 h2 r2 k']
    by (auto simp: ht_grows_def split: if_splits)
  show ?thesis
    using cons_entry(3) [OF 2(1) refl h', of k'] 2 by (simp add: new_entry_def hash_def)
qed

lemma hashtable_insert_total: "\<exists>h' r. hashtable_insert True m2 m3 h k v = Some (h', r)"
  by (auto simp: hashtable_insert_def hashtable_expand_def Let_def split: option.splits)

text \<open>Unlinking the first entry of a key.\<close>

lemma hashtable_remove_None:
  assumes "key_entries h k = []"
  shows "hashtable_remove h k = (h, None, [])"
  using assms by (simp add: hashtable_remove_def key_entries_def Let_def chain_remove_None [symmetric])

lemma hashtable_remove_Some:
  assumes "ht_wf h" "key_entries h k = r # rs"
  obtains i pre post where
    "i < length (ht_table h)" "ht_table h ! i = pre @ r # post"
    "hash h k = he_h r" "eqfn h k (he_k r)"
    "filter (\<lambda>e. hash h k = he_h e \<and> eqfn h k (he_k e)) pre = []"
    "i = indexFor (tablelength h) (hash h k)"
    "hashtable_remove h k = (h\<lparr>ht_table := (ht_table h)[i := pre @ post],
        entrycount := entrycount h - 1\<rparr>, Some (he_v r), [he_k r])"
proof -
  let ?i = "indexFor (tablelength h) (hash h k)"
  have i: "?i < length (ht_table h)"
    using assms(1) ht_wf_length_pos [OF assms(1)] by (simp add: ht_wf_def)
  obtain e c' where rm: "chain_remove (eqfn h) (hash h k) k (ht_table h ! ?i) = Some (e, c')"
    using assms(2) chain_remove_None [of "eqfn h" "hash h k" k "ht_table h ! ?i"]
    by (cases "chain_remove (eqfn h) (hash h k) k (ht_table h ! ?i)") (auto simp: key_entries_def)
  from chain_remove_Some [OF rm] obtain pre post where pp: "ht_table h ! ?i = pre @ e # post"
    "c' = pre @ post" "hash h k = he_h e" "eqfn h k (he_k e)"
    "filter (\<lambda>e. hash h k = he_h e \<and> eqfn h k (he_k e)) pre = []"
    by blast
  then have "r = e" using assms(2) by (simp add: key_entries_def)
  with rm pp i that show thesis by (simp add: hashtable_remove_def Let_def)
qed

lemma hashtable_remove_wf:
  assumes "ht_wf h" "key_entries h k = r # rs" "hashtable_remove h k = (h', v, fr)"
  shows "ht_wf h'" "v = Some (he_v r)" "fr = [he_k r]" "hashfn h' = hashfn h" "eqfn h' = eqfn h"
    "entrycount h' = entrycount h - 1"
    "mset (concat (ht_table h)) = add_mset r (mset (concat (ht_table h')))"
proof -
  obtain i pre post where 1: "i < length (ht_table h)" "ht_table h ! i = pre @ r # post"
    "i = indexFor (tablelength h) (hash h k)"
    "hashtable_remove h k = (h\<lparr>ht_table := (ht_table h)[i := pre @ post],
        entrycount := entrycount h - 1\<rparr>, Some (he_v r), [he_k r])"
    by (rule hashtable_remove_Some [OF assms(1,2)]) blast
  then have h': "h' = h\<lparr>ht_table := (ht_table h)[i := pre @ post], entrycount := entrycount h - 1\<rparr>"
    and v: "v = Some (he_v r)" and fr: "fr = [he_k r]"
    using assms(3) by simp_all
  show "v = Some (he_v r)" "fr = [he_k r]" by (rule v, rule fr)
  show "hashfn h' = hashfn h" "eqfn h' = eqfn h" "entrycount h' = entrycount h - 1"
    by (simp_all add: h')
  have placed: "ht_placed h" using assms(1) by (simp add: ht_wf_def)
  have "set (ht_table h' ! j) \<subseteq> set (ht_table h ! j)" for j
    using 1(1,2) by (cases "j = i") (auto simp: h')
  then have "ht_placed h'"
    using placed unfolding ht_placed_def by (simp add: h') blast
  then show "ht_wf h'" using assms(1) by (simp add: ht_wf_def h')
  have "concat (ht_table h) = concat (take i (ht_table h)) @ (pre @ r # post) @ concat (drop (Suc i) (ht_table h))"
    by (subst id_take_nth_drop [OF 1(1)]) (simp add: 1(2))
  moreover have "concat (ht_table h') = concat (take i (ht_table h)) @ (pre @ post) @ concat (drop (Suc i) (ht_table h))"
    by (simp add: h' upd_conv_take_nth_drop [OF 1(1)])
  ultimately show "mset (concat (ht_table h)) = add_mset r (mset (concat (ht_table h')))"
    by simp
qed

lemma hashtable_remove_inv:
  assumes "ht_inv h"
  shows "ht_inv (fst (hashtable_remove h k))"
proof (cases "key_entries h k")
  case Nil
  with assms show ?thesis by (simp add: hashtable_remove_None)
next
  case (Cons r rs)
  obtain h' v fr where rm: "hashtable_remove h k = (h', v, fr)" by (metis prod_cases3)
  note wf = hashtable_remove_wf [OF _ Cons rm]
  have "length (concat (ht_table h)) = Suc (length (concat (ht_table h')))"
    using arg_cong [OF wf(7), of size] assms by (simp add: ht_inv_def del: length_concat)
  with wf(1,6) assms rm show ?thesis by (simp add: ht_inv_def del: length_concat)
qed

section \<open>Destroying the table\<close>

fun freed_keys :: "('k, 'v) freed list \<Rightarrow> 'k list" where
  "freed_keys [] = []"
| "freed_keys (FreeKey k # fs) = k # freed_keys fs"
| "freed_keys (FreeValue v # fs) = freed_keys fs"

fun freed_values :: "('k, 'v) freed list \<Rightarrow> 'v list" where
  "freed_values [] = []"
| "freed_values (FreeKey k # fs) = freed_values fs"
| "freed_values (FreeValue v # fs) = v # freed_values fs"

lemma freed_append [simp]:
  "freed_keys (a @ b) = freed_keys a @ freed_keys b"
  "freed_values (a @ b) = freed_values a @ freed_values b"
  by (induction a rule: freed_keys.induct) auto

lemma destroy_chain_freed [simp]:
  "freed_keys (destroy_chain fv c) = map he_k c"
  "freed_values (destroy_chain fv c) = (if fv then map he_v c else [])"
  by (induction c) auto

lemma destroy_chains_freed [chain_simps]:
  "freed_keys (destroy_chains fv cs) = map he_k (concat cs)"
  "freed_values (destroy_chains fv cs) = (if fv then map he_v (concat cs) else [])"
  by (induction cs) auto

section \<open>The interface of a keyed store\<close>

text \<open>
  What a client may rely on, as long as it follows the advice of the header comment and
  removes a key before inserting it: lookups after an insertion and after a removal. The
  client lemmas about \<open>put\<close> follow from these laws alone.
\<close>

locale keyed_store =
  fixes ins :: "'s \<Rightarrow> 'k \<Rightarrow> 'v \<Rightarrow> 's"
    and srch :: "'s \<Rightarrow> 'k \<Rightarrow> 'v option"
    and del :: "'s \<Rightarrow> 'k \<Rightarrow> 's"
    and inv :: "'s \<Rightarrow> bool"
    and valid :: "'k \<Rightarrow> bool"
    and same :: "'k \<Rightarrow> 'k \<Rightarrow> bool"
  assumes ins_inv: "inv s \<Longrightarrow> valid k \<Longrightarrow> srch s k = None \<Longrightarrow> inv (ins s k v)"
    and del_inv: "inv s \<Longrightarrow> valid k \<Longrightarrow> inv (del s k)"
    and srch_ins: "inv s \<Longrightarrow> valid k \<Longrightarrow> valid k' \<Longrightarrow> srch s k = None \<Longrightarrow>
      srch (ins s k v) k' = (if same k' k then Some v else srch s k')"
    and srch_del: "inv s \<Longrightarrow> valid k \<Longrightarrow> valid k' \<Longrightarrow>
      srch (del s k) k' = (if same k' k then None else srch s k')"
    and same_refl: "valid k \<Longrightarrow> same k k"
begin

definition put :: "'s \<Rightarrow> 'k \<Rightarrow> 'v \<Rightarrow> 's" where
  "put s k v = ins (del s k) k v"

lemma put_inv: "inv s \<Longrightarrow> valid k \<Longrightarrow> inv (put s k v)"
  unfolding put_def by (intro ins_inv del_inv) (simp_all add: srch_del same_refl)

lemma srch_put: "inv s \<Longrightarrow> valid k \<Longrightarrow> valid k' \<Longrightarrow>
    srch (put s k v) k' = (if same k' k then Some v else srch s k')"
  unfolding put_def by (simp add: srch_ins srch_del del_inv same_refl)

lemma put_all_inv: "inv s \<Longrightarrow> \<forall>kv \<in> set kvs. valid (fst kv) \<Longrightarrow>
    inv (fold (\<lambda>kv s. put s (fst kv) (snd kv)) kvs s)"
  by (induction kvs arbitrary: s) (auto simp: put_inv)

text \<open>After any sequence of puts a lookup gives the value put last under an equal key.\<close>

lemma srch_put_all:
  assumes "inv s" "\<forall>kv \<in> set kvs. valid (fst kv)" "valid k'"
  shows "srch (fold (\<lambda>kv s. put s (fst kv) (snd kv)) kvs s) k' =
    (case find (\<lambda>kv. same k' (fst kv)) (rev kvs) of Some kv \<Rightarrow> Some (snd kv) | None \<Rightarrow> srch s k')"
  using assms
proof (induction kvs rule: rev_induct)
  case Nil
  then show ?case by simp
next
  case (snoc kv kvs)
  have "inv (fold (\<lambda>kv s. put s (fst kv) (snd kv)) kvs s)"
    using snoc.prems by (intro put_all_inv) auto
  with snoc show ?case by (simp add: srch_put)
qed

end

text \<open>
  A hash function and a key equality fit together when the equality is an equivalence and
  equal keys hash alike, for the keys the client uses. Then the table is a keyed store.
\<close>

definition ht_store_inv ::
  "('k \<Rightarrow> u32) \<Rightarrow> ('k \<Rightarrow> 'k \<Rightarrow> bool) \<Rightarrow> ('k \<Rightarrow> bool) \<Rightarrow> ('k, 'v) hashtable \<Rightarrow> bool" where
  "ht_store_inv hf ef valid h \<longleftrightarrow>
     ht_inv h \<and> hashfn h = hf \<and> eqfn h = ef \<and>
     (\<forall>e \<in> set (concat (ht_table h)). valid (he_k e)) \<and>
     (\<forall>k. valid k \<longrightarrow> length (key_entries h k) \<le> 1)"

definition ht_put_new :: "('k, 'v) hashtable \<Rightarrow> 'k \<Rightarrow> 'v \<Rightarrow> ('k, 'v) hashtable" where
  "ht_put_new h k v =
     (case hashtable_insert True True True h k v of Some (h', _) \<Rightarrow> h' | None \<Rightarrow> h)"

definition ht_delete :: "('k, 'v) hashtable \<Rightarrow> 'k \<Rightarrow> ('k, 'v) hashtable" where
  "ht_delete h k = fst (hashtable_remove h k)"

lemma ht_put_new_insert: "hashtable_insert True True True h k v = Some (ht_put_new h k v, -1)"
  by (auto simp: ht_put_new_def hashtable_insert_def hashtable_expand_def Let_def split: option.splits)

locale hash_key =
  fixes hf :: "'k \<Rightarrow> u32"
    and ef :: "'k \<Rightarrow> 'k \<Rightarrow> bool"
    and valid :: "'k \<Rightarrow> bool"
  assumes ef_refl: "valid k \<Longrightarrow> ef k k"
    and ef_sym: "valid k \<Longrightarrow> valid k' \<Longrightarrow> ef k k' \<Longrightarrow> ef k' k"
    and ef_trans: "valid a \<Longrightarrow> valid b \<Longrightarrow> valid c \<Longrightarrow> ef a b \<Longrightarrow> ef b c \<Longrightarrow> ef a c"
    and ef_hash: "valid k \<Longrightarrow> valid k' \<Longrightarrow> ef k k' \<Longrightarrow> hf k = hf k'"
begin

lemma same_hash:
  assumes "hashfn h = hf" "valid k" "valid k'" "ef k k'"
  shows "hash h k = hash h k'"
  using assms ef_hash [OF assms(2-4)] by (simp add: hash_def)

text \<open>The entries of a key are those with an equal key; the stored hash adds nothing.\<close>

lemma key_entries_eq:
  assumes "ht_store_inv hf ef valid h" "valid k"
  shows "key_entries h k = filter (\<lambda>e. ef k (he_k e)) (concat (ht_table h))"
proof -
  have inv: "ht_wf h" "hashfn h = hf" "eqfn h = ef" "\<forall>e \<in> set (concat (ht_table h)). valid (he_k e)"
    using assms(1) by (auto simp: ht_store_inv_def ht_inv_def)
  show ?thesis
    unfolding key_entries_concat [OF inv(1)] inv(3)
    by (rule filter_cong [OF refl])
      (use inv assms(2) wf_stored_hash [OF inv(1)] same_hash [OF inv(2)] in metis)
qed

lemma search_find:
  assumes "ht_store_inv hf ef valid h" "valid k"
  shows "hashtable_search h k = map_option he_v (find (\<lambda>e. ef k (he_k e)) (concat (ht_table h)))"
  by (simp add: hashtable_search_entries key_entries_eq [OF assms] find_filter split: list.splits)

lemma search_None:
  assumes "ht_store_inv hf ef valid h" "valid k"
  shows "hashtable_search h k = None \<longleftrightarrow> key_entries h k = []"
  by (simp add: hashtable_search_entries split: list.splits)

lemma store_insert:
  assumes "ht_store_inv hf ef valid h" "valid k" "hashtable_search h k = None"
  shows "ht_store_inv hf ef valid (ht_put_new h k v)"
    and "valid k' \<Longrightarrow> hashtable_search (ht_put_new h k v) k' =
           (if ef k' k then Some v else hashtable_search h k')"
proof -
  let ?h = "ht_put_new h k v"
  note ins = ht_put_new_insert [of h k v]
  have inv: "ht_inv h" "hashfn h = hf" "eqfn h = ef" "\<forall>e \<in> set (concat (ht_table h)). valid (he_k e)"
    "\<And>k. valid k \<Longrightarrow> length (key_entries h k) \<le> 1"
    using assms(1) by (auto simp: ht_store_inv_def)
  note fresh = assms(3) [unfolded search_None [OF assms(1,2)]]
  note ins_inv = hashtable_insert_inv [OF inv(1) ins]
  have entries: "key_entries ?h k' = (if ef k' k then [new_entry h k v] else key_entries h k')"
    if "valid k'" for k'
  proof (cases "ef k' k")
    case True
    then have "hash h k' = hash h k" using same_hash [OF inv(2)] that assms(2) by blast
    moreover have "key_entries h k' = []"
      using fresh that True assms(2) inv(4) ef_trans ef_sym
      unfolding key_entries_eq [OF assms(1) that] key_entries_eq [OF assms(1,2)] filter_empty_conv
      by blast
    ultimately show ?thesis using True key_entries_insert [OF inv(1) ins, of k'] inv(3) by simp
  next
    case False
    have "length (key_entries h k') \<le> 1" using inv(5) that .
    then have "rev (key_entries h k') = key_entries h k'"
      by (cases "key_entries h k'") auto
    then show ?thesis using False key_entries_insert [OF inv(1) ins, of k'] inv(3) by simp
  qed
  have "set (concat (ht_table ?h)) = insert (new_entry h k v) (set (concat (ht_table h)))"
    using arg_cong [OF ins_inv(5), of set_mset] by (simp del: set_concat)
  then show "ht_store_inv hf ef valid ?h"
    using ins_inv(1,3,4) inv assms(2) entries
    unfolding ht_store_inv_def by (auto simp: new_entry_def simp del: set_concat)
  show "hashtable_search ?h k' = (if ef k' k then Some v else hashtable_search h k')"
    if "valid k'" for k'
    using entries [OF that] by (simp add: hashtable_search_entries new_entry_def)
qed

lemma short_list_mset: "mset xs = mset ys \<Longrightarrow> length ys \<le> 1 \<Longrightarrow> xs = ys"
  by (cases ys) auto

lemma store_delete:
  assumes "ht_store_inv hf ef valid h" "valid k"
  shows "ht_store_inv hf ef valid (ht_delete h k)"
    and "valid k' \<Longrightarrow> hashtable_search (ht_delete h k) k' =
           (if ef k' k then None else hashtable_search h k')"
proof (atomize (full), cases "key_entries h k")
  case Nil
  then have "ht_delete h k = h" by (simp add: ht_delete_def hashtable_remove_None)
  moreover have "hashtable_search h k' = None" if "ef k' k" "valid k'"
    using Nil that assms(2) ef_trans ef_sym assms(1)
    unfolding search_None [OF assms(1) that(2)] key_entries_eq [OF assms(1) that(2)]
      key_entries_eq [OF assms] filter_empty_conv ht_store_inv_def by blast
  ultimately show "ht_store_inv hf ef valid (ht_delete h k) \<and>
      (valid k' \<longrightarrow> hashtable_search (ht_delete h k) k' =
        (if ef k' k then None else hashtable_search h k'))"
    using assms(1) by auto
next
  case (Cons r rs)
  let ?h = "ht_delete h k"
  have inv: "ht_inv h" "ht_wf h" "hashfn h = hf" "eqfn h = ef"
    "\<forall>e \<in> set (concat (ht_table h)). valid (he_k e)"
    "\<And>k. valid k \<Longrightarrow> length (key_entries h k) \<le> 1"
    using assms(1) by (auto simp: ht_store_inv_def ht_inv_def)
  obtain v fr where rm: "hashtable_remove h k = (?h, v, fr)"
    unfolding ht_delete_def by (metis fst_conv prod_cases3)
  note wf = hashtable_remove_wf [OF inv(2) Cons rm]
  have rs: "rs = []" using inv(6) [OF assms(2)] Cons by simp
  have "r \<in> set (key_entries h k)" using Cons by simp
  then have r: "r \<in> set (concat (ht_table h))" "ef k (he_k r)"
    unfolding key_entries_eq [OF assms] set_filter by blast+
  have sub: "set (concat (ht_table ?h)) \<subseteq> set (concat (ht_table h))"
    using arg_cong [OF wf(7), of set_mset] by (auto simp del: set_concat)
  have entries: "filter (\<lambda>e. ef k' (he_k e)) (concat (ht_table ?h)) =
      (if ef k' k then [] else key_entries h k')" if "valid k'" for k'
  proof -
    have split: "mset (key_entries h k') = (if ef k' (he_k r) then {#r#} else {#}) +
        mset (filter (\<lambda>e. ef k' (he_k e)) (concat (ht_table ?h)))"
      unfolding key_entries_eq [OF assms(1) that] mset_filter wf(7) by simp
    have eq: "ef k' (he_k r) = ef k' k"
      using r inv(5) that assms(2) ef_trans ef_sym by blast
    show ?thesis
    proof (cases "ef k' k")
      case True
      have "size (mset (key_entries h k')) \<le> 1" using inv(6) [OF that] by simp
      with split True eq show ?thesis by simp
    next
      case False
      with split eq have "mset (filter (\<lambda>e. ef k' (he_k e)) (concat (ht_table ?h))) =
          mset (key_entries h k')" by simp
      from short_list_mset [OF this inv(6) [OF that]] False show ?thesis by simp
    qed
  qed
  have inv': "ht_inv ?h" using hashtable_remove_inv [OF inv(1)] by (simp add: ht_delete_def)
  have eq: "key_entries ?h k' = filter (\<lambda>e. ef k' (he_k e)) (concat (ht_table ?h))" if "valid k'" for k'
    unfolding key_entries_concat [OF wf(1)] wf(5) inv(4)
    by (rule filter_cong [OF refl])
      (use sub inv(3,5) wf(1,4) that wf_stored_hash [of ?h] same_hash [of ?h] inv(2) in \<open>metis subsetD\<close>)
  have "ht_store_inv hf ef valid ?h"
    unfolding ht_store_inv_def
    using inv' wf(4,5) inv(3,4,5,6) sub by (auto simp: eq entries simp del: set_concat)
  moreover have "hashtable_search ?h k' = (if ef k' k then None else hashtable_search h k')"
    if "valid k'"
    using that by (simp add: hashtable_search_entries eq entries)
  ultimately show "ht_store_inv hf ef valid (ht_delete h k) \<and>
      (valid k' \<longrightarrow> hashtable_search (ht_delete h k) k' =
        (if ef k' k then None else hashtable_search h k'))"
    by blast
qed

end

sublocale hash_key \<subseteq> keyed_store ht_put_new hashtable_search ht_delete "ht_store_inv hf ef valid" valid ef
  by unfold_locales (simp_all add: store_insert store_delete ef_refl)

end
