(* ===== verification/HashtableItr.thy ===== *)
theory HashtableItr
  imports Hashtable
begin

text \<open>
  The iterator of \<open>src/hashtable/hashtable_itr.c\<close>. An iterator holds a pointer to an entry,
  a pointer to the entry before it in the chain and the index of the chain. The pointers are
  modelled as positions in the chain \<open>it_index\<close>: \<open>None\<close> is \<open>NULL\<close>, \<open>Some p\<close> points to the
  entry at position \<open>p\<close>. The table the iterator points to is an argument.
\<close>

section \<open>Data and operations\<close>

record hitr =
  it_index :: nat
  it_pos :: "nat option"
  it_parent :: "nat option"

fun first_nonempty :: "'a list list \<Rightarrow> nat \<Rightarrow> nat option" where
  "first_nonempty [] i = None"
| "first_nonempty (c # cs) i = (if c \<noteq> [] then Some i else first_nonempty cs (Suc i))"

definition hashtable_iterator :: "bool \<Rightarrow> ('k, 'v) hashtable \<Rightarrow> hitr option" where
  "hashtable_iterator malloc_itr h =
     (if \<not> malloc_itr then None
      else
        (let itr = \<lparr>it_index = tablelength h, it_pos = None, it_parent = None\<rparr> in
         if entrycount h = 0 then Some itr
         else (case first_nonempty (ht_table h) 0 of
                 Some i \<Rightarrow> Some (itr\<lparr>it_pos := Some 0, it_index := i\<rparr>)
               | None \<Rightarrow> Some itr)))"

definition iterator_entry :: "('k, 'v) hashtable \<Rightarrow> hitr \<Rightarrow> ('k, 'v) hentry option" where
  "iterator_entry h itr =
     (case it_pos itr of
        None \<Rightarrow> None
      | Some p \<Rightarrow> Some (ht_table h ! it_index itr ! p))"

definition hashtable_iterator_key :: "('k, 'v) hashtable \<Rightarrow> hitr \<Rightarrow> 'k option" where
  "hashtable_iterator_key h i = map_option he_k (iterator_entry h i)"

definition hashtable_iterator_value :: "('k, 'v) hashtable \<Rightarrow> hitr \<Rightarrow> 'v option" where
  "hashtable_iterator_value h i = map_option he_v (iterator_entry h i)"

text \<open>The part of \<open>hashtable_iterator_advance\<close> that leaves the current chain.\<close>

definition advance_chain :: "('k, 'v) hashtable \<Rightarrow> hitr \<Rightarrow> hitr \<times> int" where
  "advance_chain h itr0 =
     (let itr = itr0\<lparr>it_parent := None, it_index := Suc (it_index itr0)\<rparr>; j = it_index itr in
      if tablelength h \<le> j then (itr\<lparr>it_pos := None\<rparr>, 0)
      else (case first_nonempty (drop j (ht_table h)) j of
              None \<Rightarrow> (itr\<lparr>it_index := tablelength h, it_pos := None\<rparr>, 0)
            | Some j' \<Rightarrow> (itr\<lparr>it_index := j', it_pos := Some 0\<rparr>, -1)))"

definition hashtable_iterator_advance :: "('k, 'v) hashtable \<Rightarrow> hitr \<Rightarrow> hitr \<times> int" where
  "hashtable_iterator_advance h itr =
     (case it_pos itr of
        None \<Rightarrow> (itr, 0)
      | Some p \<Rightarrow>
          if Suc p < length (ht_table h ! it_index itr)
          then (itr\<lparr>it_parent := Some p, it_pos := Some (Suc p)\<rparr>, -1)
          else advance_chain h itr)"

text \<open>
  Removal at the iterator: with a \<open>NULL\<close> parent the chain continues at the successor of the
  removed entry, otherwise the parent's \<open>next\<close> is redirected. The position of the successor
  in the new chain is the one behind the (unchanged) parent. Without a current entry the C
  code dereferences \<open>NULL\<close>: no result.
\<close>

definition hashtable_iterator_remove ::
  "('k, 'v) hashtable \<Rightarrow> hitr \<Rightarrow> (('k, 'v) hashtable \<times> hitr \<times> int) option" where
  "hashtable_iterator_remove h itr =
     (case it_pos itr of
        None \<Rightarrow> None
      | Some p \<Rightarrow>
          (let c = ht_table h ! it_index itr;
               c' = (case it_parent itr of
                       None \<Rightarrow> drop (Suc p) c
                     | Some q \<Rightarrow> take (Suc q) c @ drop (Suc p) c);
               h' = h\<lparr>ht_table := (ht_table h)[it_index itr := c'], entrycount := entrycount h - 1\<rparr>
           in if Suc p < length c
              then Some (h', itr\<lparr>it_pos := Some (case it_parent itr of None \<Rightarrow> 0 | Some q \<Rightarrow> Suc q)\<rparr>, -1)
              else (let (itr', ret) = advance_chain h' itr in Some (h', itr', ret))))"

fun chain_position :: "('k \<Rightarrow> 'k \<Rightarrow> bool) \<Rightarrow> u32 \<Rightarrow> 'k \<Rightarrow> ('k, 'v) hentry list \<Rightarrow> nat \<Rightarrow> nat option" where
  "chain_position eqf hashvalue k [] p = None"
| "chain_position eqf hashvalue k (e # es) p =
     (if hashvalue = he_h e \<and> eqf k (he_k e) then Some p
      else chain_position eqf hashvalue k es (Suc p))"

definition hashtable_iterator_search :: "hitr \<Rightarrow> ('k, 'v) hashtable \<Rightarrow> 'k \<Rightarrow> hitr \<times> int" where
  "hashtable_iterator_search itr h k =
     (let hashvalue = hash h k; index = indexFor (tablelength h) hashvalue in
      case chain_position (eqfn h) hashvalue k (ht_table h ! index) 0 of
        None \<Rightarrow> (itr, 0)
      | Some p \<Rightarrow>
          (\<lparr>it_index = index, it_pos = Some p,
            it_parent = (if p = 0 then None else Some (p - 1))\<rparr>, -1))"

section \<open>What an iterator has left\<close>

text \<open>
  An iterator is well placed when it is at the end or points into a chain with the right
  parent. The entries before it and from it on split the table's entries.
\<close>

definition itr_ok :: "('k, 'v) hashtable \<Rightarrow> hitr \<Rightarrow> bool" where
  "itr_ok h itr \<longleftrightarrow>
     (case it_pos itr of
        None \<Rightarrow> True
      | Some p \<Rightarrow>
          it_index itr < length (ht_table h) \<and> p < length (ht_table h ! it_index itr) \<and>
          it_parent itr = (if p = 0 then None else Some (p - 1)))"

definition itr_before :: "('k, 'v) hashtable \<Rightarrow> hitr \<Rightarrow> ('k, 'v) hentry list" where
  "itr_before h itr =
     (case it_pos itr of
        None \<Rightarrow> concat (ht_table h)
      | Some p \<Rightarrow> concat (take (it_index itr) (ht_table h)) @ take p (ht_table h ! it_index itr))"

definition itr_rest :: "('k, 'v) hashtable \<Rightarrow> hitr \<Rightarrow> ('k, 'v) hentry list" where
  "itr_rest h itr =
     (case it_pos itr of
        None \<Rightarrow> []
      | Some p \<Rightarrow> drop p (ht_table h ! it_index itr) @ concat (drop (Suc (it_index itr)) (ht_table h)))"

lemma itr_split:
  assumes "itr_ok h itr"
  shows "itr_before h itr @ itr_rest h itr = concat (ht_table h)"
proof (cases "it_pos itr")
  case None
  then show ?thesis by (simp add: itr_before_def itr_rest_def)
next
  case (Some p)
  with assms have "it_index itr < length (ht_table h)" by (simp add: itr_ok_def)
  from id_take_nth_drop [OF this] have
    "concat (ht_table h) = concat (take (it_index itr) (ht_table h)) @ ht_table h ! it_index itr @
       concat (drop (Suc (it_index itr)) (ht_table h))"
    by (metis append.assoc append_Cons append_Nil concat.simps(2) concat_append)
  with Some show ?thesis by (simp add: itr_before_def itr_rest_def)
qed

lemma first_nonempty_None: "first_nonempty cs i = None \<longleftrightarrow> concat cs = []"
  by (induction cs i rule: first_nonempty.induct) auto

lemma first_nonempty_Some:
  "first_nonempty cs i = Some j \<Longrightarrow>
     i \<le> j \<and> j - i < length cs \<and> cs ! (j - i) \<noteq> [] \<and> concat (take (j - i) cs) = []"
proof (induction cs i rule: first_nonempty.induct)
  case (1 i)
  then show ?case by simp
next
  case (2 c cs i)
  show ?case
  proof (cases "c = []")
    case True
    with 2 have "Suc i \<le> j" "j - Suc i < length cs" "cs ! (j - Suc i) \<noteq> []"
      "concat (take (j - Suc i) cs) = []" by auto
    moreover from \<open>Suc i \<le> j\<close> have "j - i = Suc (j - Suc i)" by simp
    ultimately show ?thesis using True by simp
  next
    case False
    with 2 show ?thesis by simp
  qed
qed

lemma skip_to_nonempty:
  assumes "first_nonempty (drop j t) j = Some j'"
  shows "j \<le> j'" "j' < length t" "t ! j' \<noteq> []"
    "concat (drop j t) = t ! j' @ concat (drop (Suc j') t)"
    "concat (take j' t) = concat (take j t)"
proof -
  from first_nonempty_Some [OF assms] have j: "j \<le> j'" "j' - j < length (drop j t)"
    "drop j t ! (j' - j) \<noteq> []" "concat (take (j' - j) (drop j t)) = []" by auto
  show "j \<le> j'" by (rule j(1))
  show lt: "j' < length t" using j(1,2) by simp
  show "t ! j' \<noteq> []" using j(1,3) lt by simp
  have "concat (drop j t) = concat (take (j' - j) (drop j t)) @ concat (drop (j' - j) (drop j t))"
    by (metis append_take_drop_id concat_append)
  also have "\<dots> = concat (drop j' t)" using j(1,4) by simp
  also have "\<dots> = t ! j' @ concat (drop (Suc j') t)"
    using lt by (metis Cons_nth_drop_Suc concat.simps(2))
  finally show "concat (drop j t) = t ! j' @ concat (drop (Suc j') t)" .
  have "take j' t = take j t @ take (j' - j) (drop j t)"
    using j(1) by (metis le_add_diff_inverse take_add)
  then show "concat (take j' t) = concat (take j t)" using j(4) by simp
qed

lemma advance_chain_rest:
  assumes "length (ht_table h) = tablelength h"
  shows "itr_rest h (fst (advance_chain h itr)) = concat (drop (Suc (it_index itr)) (ht_table h))"
    "itr_ok h (fst (advance_chain h itr))"
    "snd (advance_chain h itr) = (if itr_rest h (fst (advance_chain h itr)) = [] then 0 else -1)"
proof (atomize (full), cases "tablelength h \<le> Suc (it_index itr)")
  case True
  with assms show "itr_rest h (fst (advance_chain h itr)) = concat (drop (Suc (it_index itr)) (ht_table h)) \<and>
    itr_ok h (fst (advance_chain h itr)) \<and>
    snd (advance_chain h itr) = (if itr_rest h (fst (advance_chain h itr)) = [] then 0 else -1)"
    by (simp add: advance_chain_def Let_def itr_rest_def itr_ok_def)
next
  case False
  show "itr_rest h (fst (advance_chain h itr)) = concat (drop (Suc (it_index itr)) (ht_table h)) \<and>
    itr_ok h (fst (advance_chain h itr)) \<and>
    snd (advance_chain h itr) = (if itr_rest h (fst (advance_chain h itr)) = [] then 0 else -1)"
  proof (cases "first_nonempty (drop (Suc (it_index itr)) (ht_table h)) (Suc (it_index itr))")
    case None
    moreover from None have "concat (drop (Suc (it_index itr)) (ht_table h)) = []"
      by (simp only: first_nonempty_None)
    ultimately show ?thesis
      using False by (simp add: advance_chain_def Let_def itr_rest_def itr_ok_def del: concat_eq_Nil_conv)
  next
    case (Some j')
    note sk = skip_to_nonempty [OF Some]
    from False Some sk show ?thesis
      by (simp add: advance_chain_def Let_def itr_rest_def itr_ok_def)
  qed
qed

text \<open>One step of the iterator drops exactly the current entry from what is left.\<close>

lemma iterator_advance_rest:
  assumes "length (ht_table h) = tablelength h" "itr_ok h itr" "it_pos itr = Some p"
  shows "itr_rest h itr = ht_table h ! it_index itr ! p # itr_rest h (fst (hashtable_iterator_advance h itr))"
    "itr_ok h (fst (hashtable_iterator_advance h itr))"
    "snd (hashtable_iterator_advance h itr) =
       (if itr_rest h (fst (hashtable_iterator_advance h itr)) = [] then 0 else -1)"
proof (atomize (full), cases "Suc p < length (ht_table h ! it_index itr)")
  case True
  with assms(2,3) show "itr_rest h itr = ht_table h ! it_index itr ! p # itr_rest h (fst (hashtable_iterator_advance h itr)) \<and>
    itr_ok h (fst (hashtable_iterator_advance h itr)) \<and>
    snd (hashtable_iterator_advance h itr) =
       (if itr_rest h (fst (hashtable_iterator_advance h itr)) = [] then 0 else -1)"
    by (simp add: hashtable_iterator_advance_def itr_rest_def itr_ok_def Cons_nth_drop_Suc)
next
  case False
  with assms(2,3) have p: "Suc p = length (ht_table h ! it_index itr)" by (simp add: itr_ok_def)
  then have "drop p (ht_table h ! it_index itr) = [ht_table h ! it_index itr ! p]"
    by (metis Cons_nth_drop_Suc drop_all le_refl lessI)
  with False assms(3) advance_chain_rest [OF assms(1), of itr]
  show "itr_rest h itr = ht_table h ! it_index itr ! p # itr_rest h (fst (hashtable_iterator_advance h itr)) \<and>
    itr_ok h (fst (hashtable_iterator_advance h itr)) \<and>
    snd (hashtable_iterator_advance h itr) =
       (if itr_rest h (fst (hashtable_iterator_advance h itr)) = [] then 0 else -1)"
    by (simp add: hashtable_iterator_advance_def itr_rest_def)
qed

section \<open>A whole traversal\<close>

text \<open>The loop of a client that visits entries until the iterator is at the end.\<close>

fun traverse :: "nat \<Rightarrow> ('k, 'v) hashtable \<Rightarrow> hitr \<Rightarrow> ('k, 'v) hentry list option" where
  "traverse 0 h itr = None"
| "traverse (Suc fuel) h itr =
     (case iterator_entry h itr of
        None \<Rightarrow> Some []
      | Some e \<Rightarrow> map_option ((#) e) (traverse fuel h (fst (hashtable_iterator_advance h itr))))"

lemma traverse_rest:
  assumes "length (ht_table h) = tablelength h" "itr_ok h itr" "length (itr_rest h itr) < fuel"
  shows "traverse fuel h itr = Some (itr_rest h itr)"
  using assms(2,3)
proof (induction fuel arbitrary: itr)
  case 0
  then show ?case by simp
next
  case (Suc fuel)
  show ?case
  proof (cases "it_pos itr")
    case None
    then show ?thesis by (simp add: iterator_entry_def itr_rest_def)
  next
    case (Some p)
    note adv = iterator_advance_rest [OF assms(1) Suc.prems(1) Some]
    have "length (itr_rest h (fst (hashtable_iterator_advance h itr))) < fuel"
      using Suc.prems(2) adv(1) by simp
    from Suc.IH [OF adv(2) this] show ?thesis
      using Some adv(1) by (simp add: iterator_entry_def)
  qed
qed

lemma hashtable_iterator_start:
  assumes "ht_inv h" "length (concat (ht_table h)) < 2 ^ 32"
    "hashtable_iterator True h = Some itr"
  shows "itr_ok h itr" "itr_rest h itr = concat (ht_table h)"
proof (atomize (full), cases "concat (ht_table h) = []")
  case True
  have "first_nonempty (ht_table h) 0 = None" using True by (simp only: first_nonempty_None)
  with True assms show "itr_ok h itr \<and> itr_rest h itr = concat (ht_table h)"
    by (auto simp: hashtable_iterator_def Let_def itr_ok_def itr_rest_def split: if_splits)
next
  case False
  let ?n = "length (concat (ht_table h))"
  have "unat (of_nat ?n :: u32) = ?n" using assms(2) by (simp add: unat_of_nat del: length_concat)
  moreover have "?n \<noteq> 0" using False by (simp del: length_concat)
  ultimately have "(of_nat ?n :: u32) \<noteq> 0" by (metis unat_0)
  then have ec: "entrycount h \<noteq> 0" using assms(1) by (simp add: ht_inv_def del: length_concat)
  obtain j where j: "first_nonempty (ht_table h) 0 = Some j"
    using False first_nonempty_None [of "ht_table h" 0] by (cases "first_nonempty (ht_table h) 0") auto
  have "itr = \<lparr>it_index = j, it_pos = Some 0, it_parent = None\<rparr>"
    using assms(3) ec j by (simp add: hashtable_iterator_def Let_def)
  with skip_to_nonempty [of 0 "ht_table h" j] j
  show "itr_ok h itr \<and> itr_rest h itr = concat (ht_table h)"
    by (simp add: itr_ok_def itr_rest_def)
qed

section \<open>Removal at the iterator\<close>

lemma concat_update:
  "i < length t \<Longrightarrow> concat (t[i := c]) = concat (take i t) @ c @ concat (drop (Suc i) t)"
  by (simp add: upd_conv_take_nth_drop)

lemma iterator_remove:
  assumes "length (ht_table h) = tablelength h" "itr_ok h itr" "it_pos itr = Some p"
    "hashtable_iterator_remove h itr = Some (h', itr', ret)"
  shows "concat (ht_table h') = itr_before h itr @ tl (itr_rest h itr)"
    "itr_rest h' itr' = tl (itr_rest h itr)" "itr_ok h' itr'"
    "ret = (if tl (itr_rest h itr) = [] then 0 else -1)"
    "entrycount h' = entrycount h - 1"
proof -
  let ?i = "it_index itr"
  let ?c = "ht_table h ! ?i"
  from assms(2,3) have i: "?i < length (ht_table h)" and p: "p < length ?c"
    and par: "it_parent itr = (if p = 0 then None else Some (p - 1))"
    by (simp_all add: itr_ok_def)
  let ?c' = "take p ?c @ drop (Suc p) ?c"
  have c': "(case it_parent itr of None \<Rightarrow> drop (Suc p) ?c | Some q \<Rightarrow> take (Suc q) ?c @ drop (Suc p) ?c) = ?c'"
    by (simp add: par)
  define g where "g = h\<lparr>ht_table := (ht_table h)[?i := ?c'], entrycount := entrycount h - 1\<rparr>"
  have rm: "Some (h', itr', ret) =
      (if Suc p < length ?c
       then Some (g, itr\<lparr>it_pos := Some (case it_parent itr of None \<Rightarrow> 0 | Some q \<Rightarrow> Suc q)\<rparr>, -1)
       else (let (itr', ret) = advance_chain g itr in Some (g, itr', ret)))"
    using assms(4) unfolding hashtable_iterator_remove_def Let_def assms(3) option.case(2) c' g_def
    by (rule sym)
  then have h': "h' = g" by (auto split: if_splits prod.splits)
  have dp: "drop p ?c = ?c ! p # drop (Suc p) ?c" using p by (simp add: Cons_nth_drop_Suc)
  have rest: "itr_rest h itr = ?c ! p # drop (Suc p) ?c @ concat (drop (Suc ?i) (ht_table h))"
    using assms(3) dp by (simp add: itr_rest_def)
  show "concat (ht_table h') = itr_before h itr @ tl (itr_rest h itr)"
    using i assms(3) by (simp add: h' g_def concat_update rest itr_before_def)
  show "entrycount h' = entrycount h - 1" by (simp add: h' g_def)
  have lg: "length (ht_table g) = tablelength g" using assms(1) by (simp add: g_def)
  have dg: "drop (Suc ?i) (ht_table g) = drop (Suc ?i) (ht_table h)" by (simp add: g_def)
  show "itr_rest h' itr' = tl (itr_rest h itr)" "itr_ok h' itr'"
    "ret = (if tl (itr_rest h itr) = [] then 0 else -1)"
  proof (atomize (full), cases "Suc p < length ?c")
    case True
    with rm have itr': "itr' = itr\<lparr>it_pos := Some p\<rparr>" and ret: "ret = -1"
      by (auto simp: par)
    have "drop p ?c' = drop (Suc p) ?c" using p by simp
    then have "itr_rest h' itr' = tl (itr_rest h itr)"
      using i by (simp add: rest) (simp add: itr_rest_def h' itr' g_def)
    moreover have "tl (itr_rest h itr) \<noteq> []" using True by (simp add: rest)
    moreover have "itr_ok h' itr'"
      using True i p par by (simp add: itr_ok_def h' itr' g_def)
    ultimately show "itr_rest h' itr' = tl (itr_rest h itr) \<and> itr_ok h' itr' \<and>
        ret = (if tl (itr_rest h itr) = [] then 0 else -1)"
      by (simp add: ret)
  next
    case False
    with rm have "advance_chain g itr = (itr', ret)"
      by (auto split: prod.splits)
    then have "itr' = fst (advance_chain g itr)" "ret = snd (advance_chain g itr)"
      by simp_all
    with False advance_chain_rest [OF lg, of itr] dg
    show "itr_rest h' itr' = tl (itr_rest h itr) \<and> itr_ok h' itr' \<and>
        ret = (if tl (itr_rest h itr) = [] then 0 else -1)"
      by (simp add: h' rest)
  qed
qed

end
