(* ===== verification/TaskTable.thy ===== *)
theory TaskTable
  imports HashtableItr
begin

unbundle bit_operations_syntax

text \<open>
  The task table of \<open>src/zk_cli.c\<close>: the hash table that the server creates to hold the newest
  task of each session, with the string hash \<open>zkUA_hash\<close> and the key equality
  \<open>zkUA_equalKeys\<close>. A key is the memory block that holds it: the bytes of the string, its NUL
  and whatever follows in the block.
\<close>

text \<open>\<open>hash = ((hash << 5) + hash) + c\<close> with \<open>c\<close> the sign-extended character, up to the NUL.\<close>

fun zkUA_hash_loop :: "byte list \<Rightarrow> u32 \<Rightarrow> u32" where
  "zkUA_hash_loop [] hv = hv"
| "zkUA_hash_loop (c # cs) hv =
     (if c = 0 then hv else zkUA_hash_loop cs ((push_bit 5 hv + hv) + scast c))"

definition zkUA_hash :: "byte list \<Rightarrow> u32" where
  "zkUA_hash string = zkUA_hash_loop string 5381"

text \<open>\<open>memcmp\<close> over \<open>sizeof(unsigned long)\<close>, eight bytes.\<close>

definition zkUA_equalKeys :: "byte list \<Rightarrow> byte list \<Rightarrow> bool" where
  "zkUA_equalKeys k1 k2 \<longleftrightarrow> take 8 k1 = take 8 k2"

text \<open>\<open>exit(-1)\<close> when the table cannot be created is the result \<open>None\<close>.\<close>

definition zkUA_initializeTaskHashmap :: "bool \<Rightarrow> bool \<Rightarrow> (byte list, 'v) hashtable option" where
  "zkUA_initializeTaskHashmap malloc_h malloc_table =
     create_hashtable malloc_h malloc_table 16 zkUA_hash zkUA_equalKeys"

definition zkUA_destroyTaskHashtable :: "(byte list, 'v) hashtable \<Rightarrow> (byte list, 'v) freed list" where
  "zkUA_destroyTaskHashtable taskTable = hashtable_destroy taskTable True"

text \<open>The getter returns the global table itself.\<close>

definition zkUA_returnTaskHashtable :: "(byte list, 'v) hashtable \<Rightarrow> (byte list, 'v) hashtable" where
  "zkUA_returnTaskHashtable taskTable = taskTable"

section \<open>For which keys the hash and the equality fit together\<close>

text \<open>
  Blocks of exactly eight bytes that hold a NUL: a string of at most seven characters. For
  them the comparison reads the whole block, so equal keys are equal blocks.
\<close>

definition task_key :: "byte list \<Rightarrow> bool" where
  "task_key k \<longleftrightarrow> length k = 8 \<and> 0 \<in> set k"

interpretation task_store: hash_key zkUA_hash zkUA_equalKeys task_key
  by unfold_locales (auto simp: zkUA_equalKeys_def task_key_def)

lemma task_table_empty:
  assumes "zkUA_initializeTaskHashmap True True = Some (h :: (byte list, 'v) hashtable)"
  shows "ht_store_inv zkUA_hash zkUA_equalKeys task_key h" "hashtable_search h k = None"
    "tablelength h = 53"
proof -
  note c = create_hashtable_Some [OF assms [unfolded zkUA_initializeTaskHashmap_def]]
  show "ht_store_inv zkUA_hash zkUA_equalKeys task_key h"
    using c by (simp add: ht_store_inv_def key_entries_concat [of h] ht_inv_def del: concat_eq_Nil_conv)
  have "ht_wf h" using c(1) by (simp add: ht_inv_def)
  then have "key_entries h k = []" using c(2) by (simp add: key_entries_concat del: concat_eq_Nil_conv)
  then show "hashtable_search h k = None" by (simp add: hashtable_search_entries)
  show "tablelength h = 53"
    using assms by (auto simp: zkUA_initializeTaskHashmap_def create_hashtable_def primes_def
        split: if_splits)
qed

lemma task_table_created:
  "zkUA_initializeTaskHashmap m1 m2 \<noteq> None \<longleftrightarrow> m1 \<and> m2"
  by (auto simp: zkUA_initializeTaskHashmap_def create_hashtable_def split: prod.splits if_splits)

section \<open>Properties of the hash table\<close>

text \<open>
  \<open>create_hashtable\<close> returns a table exactly when the requested size is at most \<open>2^30\<close> and
  both allocations succeed. The table then satisfies the invariant, is empty, has more chains
  than \<open>minsize\<close>, and its length is a prime of the list.
\<close>

theorem create_hashtable_spec:
  "((create_hashtable mh mt minsize hf ef :: ('k, 'v) hashtable option) = None \<longleftrightarrow>
     \<not> (minsize \<le> push_bit 30 1 \<and> mh \<and> mt)) \<and>
   (case create_hashtable mh mt minsize hf ef :: ('k, 'v) hashtable option of
      None \<Rightarrow> True
    | Some h \<Rightarrow> ht_inv h \<and> concat (ht_table h) = [] \<and> hashfn h = hf \<and> eqfn h = ef \<and>
        unat minsize < tablelength h \<and> tablelength h \<in> set primes)"
proof (cases "create_hashtable mh mt minsize hf ef :: ('k, 'v) hashtable option")
  case None
  show ?thesis by (rule conjI, rule create_hashtable_None, simp only: None option.case)
next
  case (Some h)
  note c = create_hashtable_Some [OF Some]
  have "tablelength h \<in> set primes"
    using c(1) by (simp add: ht_inv_def ht_wf_def prime_table_length_def)
  moreover have "minsize \<le> push_bit 30 1 \<and> mh \<and> mt"
    using create_hashtable_None Some by (metis option.distinct(1))
  ultimately show ?thesis using c unfolding Some by simp
qed

text \<open>
  A successful insertion keeps the invariant, returns non-zero and adds exactly one entry;
  the entries with the key of the insertion come back newest first, and when the insertion has
  enlarged the table the older entries of every key come back in reversed order. (The comment
  in \<open>hashtable.h\<close> warns of exactly this.)
\<close>

theorem hashtable_insert_spec:
  assumes "ht_inv h" and "hashtable_insert True m2 True h k v = Some (h', r)"
  shows "ht_inv h' \<and> r = -1 \<and>
    mset (concat (ht_table h')) = add_mset (new_entry h k v) (mset (concat (ht_table h))) \<and>
    key_entries h' k' =
      (if hash h k' = hash h k \<and> eqfn h k' k then [new_entry h k v] else []) @
      (if ht_grows h then rev (key_entries h k') else key_entries h k')"
  using hashtable_insert_inv [OF assms(1) assms(2)] key_entries_insert [OF assms] by simp

definition task_example :: "byte list" where
  "task_example = str ''task-1'' @ [0, 0]"

lemma task_table_exists: "\<exists>h :: (byte list, 'v) hashtable. zkUA_initializeTaskHashmap True True = Some h"
  using task_table_created [of True True] by auto

theorem hashtable_insert_spec_witness:
  "\<exists>h h' :: (byte list, nat) hashtable. ht_inv h \<and> ht_inv h' \<and>
     hashtable_insert True True True h task_example 7 = Some (h', -1) \<and>
     map he_v (key_entries h' task_example) = [7]"
proof -
  obtain h :: "(byte list, nat) hashtable" where h: "zkUA_initializeTaskHashmap True True = Some h"
    using task_table_exists by blast
  note e = task_table_empty [OF h]
  have inv: "ht_inv h" "hashfn h = zkUA_hash" "eqfn h = zkUA_equalKeys"
    using e(1) by (simp_all add: ht_store_inv_def)
  have none: "key_entries h task_example = []"
    using e(2) [of task_example] by (simp add: hashtable_search_entries split: list.splits)
  have ins: "hashtable_insert True True True h task_example 7 = Some (ht_put_new h task_example 7, -1)"
    by (rule ht_put_new_insert)
  from hashtable_insert_spec [OF inv(1) ins, of task_example] none inv ins show ?thesis
    by (auto simp: zkUA_equalKeys_def new_entry_def)
qed

text \<open>
  C20. \<open>hashtable_remove\<close> keeps the invariant. It returns the value that \<open>hashtable_search\<close>
  returns for the key. When there is one, it unlinks exactly one entry, the first of the key,
  and frees the stored key of this entry once; otherwise it changes and frees nothing.
\<close>

theorem hashtable_remove_spec:
  assumes "ht_inv h" and "hashtable_remove h k = (h', v, fr)"
  shows "ht_inv h' \<and> v = hashtable_search h k \<and>
    (case key_entries h k of
       [] \<Rightarrow> h' = h \<and> fr = []
     | e # _ \<Rightarrow> fr = [he_k e] \<and> mset (concat (ht_table h)) = add_mset e (mset (concat (ht_table h'))))"
proof (cases "key_entries h k")
  case Nil
  with assms hashtable_remove_None [OF Nil] show ?thesis
    by (simp add: hashtable_search_entries)
next
  case (Cons e es)
  have wf: "ht_wf h" using assms(1) by (simp add: ht_inv_def)
  from hashtable_remove_wf [OF wf Cons assms(2)] hashtable_remove_inv [OF assms(1), of k] Cons assms(2)
  show ?thesis by (simp add: hashtable_search_entries)
qed

theorem hashtable_remove_spec_witness:
  "\<exists>h h' :: (byte list, nat) hashtable. hashtable_remove h task_example = (h', Some 7, [task_example]) \<and> ht_inv h'"
proof -
  obtain h0 :: "(byte list, nat) hashtable" where h0: "zkUA_initializeTaskHashmap True True = Some h0"
    using task_table_exists by blast
  note e = task_table_empty [OF h0]
  have key: "task_key task_example" by (simp add: task_key_def task_example_def)
  let ?h = "ht_put_new h0 task_example 7"
  have none: "hashtable_search h0 task_example = None" by (rule e(2))
  have inv: "ht_store_inv zkUA_hash zkUA_equalKeys task_key ?h"
    by (rule task_store.store_insert(1) [OF e(1) key none])
  have inv0: "ht_inv h0" "hashfn h0 = zkUA_hash" "eqfn h0 = zkUA_equalKeys"
    using e(1) by (simp_all add: ht_store_inv_def)
  have ins: "hashtable_insert True True True h0 task_example 7 = Some (?h, -1)"
    by (rule ht_put_new_insert)
  have "key_entries ?h task_example = [new_entry h0 task_example 7]"
    using key_entries_insert [OF inv0(1) ins, of task_example] none inv0
    by (auto simp: hashtable_search_entries zkUA_equalKeys_def split: list.splits)
  moreover obtain h' v fr where rm: "hashtable_remove ?h task_example = (h', v, fr)"
    by (metis prod_cases3)
  moreover have "ht_inv ?h" using inv by (simp add: ht_store_inv_def)
  ultimately show ?thesis
    using hashtable_remove_spec [OF _ rm] by (auto simp: new_entry_def hashtable_search_entries)
qed

text \<open>
  C19. The task table implements a finite map on keys of eight bytes with a NUL: starting from
  the table that \<open>zkUA_initializeTaskHashmap\<close> creates, after any sequence of "remove, then
  insert" operations a search returns the value stored last under the same key, and \<open>None\<close> for
  a key that was never stored. This holds across every enlargement of the table.
\<close>

theorem task_table_is_map:
  assumes "zkUA_initializeTaskHashmap True True = Some h"
    and "\<forall>kv \<in> set kvs. task_key (fst kv)" and "task_key k"
  shows "hashtable_search (fold (\<lambda>kv h. ht_put_new (ht_delete h (fst kv)) (fst kv) (snd kv)) kvs h) k =
    map_of (rev kvs) k"
proof -
  have same: "zkUA_equalKeys k k' \<longleftrightarrow> k = k'" if "task_key k'" for k'
    using assms(3) that by (auto simp: zkUA_equalKeys_def task_key_def)
  have "hashtable_search (fold (\<lambda>kv h. ht_put_new (ht_delete h (fst kv)) (fst kv) (snd kv)) kvs h) k =
      (case find (\<lambda>kv. zkUA_equalKeys k (fst kv)) (rev kvs) of Some kv \<Rightarrow> Some (snd kv) | None \<Rightarrow> None)"
    using task_store.srch_put_all [OF task_table_empty(1) [OF assms(1)] assms(2,3)]
    by (simp add: task_store.put_def task_table_empty(2) [OF assms(1)] split: option.splits)
  also have "\<dots> = map_of (rev kvs) k"
    using assms(2) same by (induction kvs rule: rev_induct) auto
  finally show ?thesis .
qed

theorem task_table_is_map_witness:
  "\<exists>h :: (byte list, nat) hashtable. zkUA_initializeTaskHashmap True True = Some h \<and>
     hashtable_search (fold (\<lambda>kv h. ht_put_new (ht_delete h (fst kv)) (fst kv) (snd kv))
       [(task_example, 1), (str ''task-2'' @ [0, 0], 2), (task_example, 3)] h) task_example = Some 3"
proof -
  obtain h :: "(byte list, nat) hashtable" where h: "zkUA_initializeTaskHashmap True True = Some h"
    using task_table_exists by blast
  have "task_key task_example" "\<forall>kv \<in> set [(task_example, 1), (str ''task-2'' @ [0, 0], 2), (task_example, 3 :: nat)].
      task_key (fst kv)"
    by (simp_all add: task_key_def task_example_def)
  from task_table_is_map [OF h this(2,1)] h show ?thesis by simp
qed

lemma task_hashes:
  "zkUA_hash (str ''task-0000000001'' @ [0]) = 1603861670"
  "zkUA_hash (str ''task-0000000002'' @ [0]) = 1603861671"
  "hash_mix 1603861670 = 4249655894"
  "hash_mix 1603861671 = 2440657009"
  by code_simp+

text \<open>
  The hash and the equality of the task table do not fit together on longer keys, such as
  the paths and the task names that the comments in \<open>zk_cli.h\<close> name as keys: the equality
  compares eight bytes only, the hash runs to the NUL. Two tasks of one queue are "equal" keys
  with different hash values, so that equal keys are looked up in different chains.
\<close>

theorem task_keys_equal_but_hash_differs:
  "zkUA_equalKeys (str ''task-0000000001'' @ [0]) (str ''task-0000000002'' @ [0]) \<and>
   zkUA_hash (str ''task-0000000001'' @ [0]) \<noteq> zkUA_hash (str ''task-0000000002'' @ [0]) \<and>
   indexFor 53 (hash_mix (zkUA_hash (str ''task-0000000001'' @ [0]))) \<noteq>
   indexFor 53 (hash_mix (zkUA_hash (str ''task-0000000002'' @ [0])))"
  unfolding task_hashes by (simp add: indexFor_def zkUA_equalKeys_def)

text \<open>
  \<open>hashtable_destroy\<close> hands every stored key to \<open>free\<close> exactly once, and every stored value
  exactly once when \<open>free_values\<close> is set and never otherwise.
\<close>

theorem hashtable_destroy_frees_once:
  "freed_keys (hashtable_destroy h free_values) = map he_k (concat (ht_table h)) \<and>
   freed_values (hashtable_destroy h free_values) =
     (if free_values then map he_v (concat (ht_table h)) else [])"
  by (simp add: hashtable_destroy_def destroy_chains_freed)

text \<open>
  The fallback of \<open>hashtable_expand\<close> never completes: when the first allocation fails and the
  \<open>realloc\<close> succeeds, a table that can still grow always runs into the \<open>memset\<close> through an
  indeterminate pointer, in \<open>hashtable_expand\<close> and in the insertion that called it.
\<close>

theorem hashtable_expand_fallback_undefined:
  assumes "ht_grows h"
  shows "hashtable_expand False True h = None \<and> hashtable_insert False True m h k v = None"
  using assms by (simp add: ht_grows_def hashtable_insert_def hashtable_expand_def Let_def)

theorem hashtable_expand_fallback_undefined_witness:
  "\<exists>h :: (byte list, nat) hashtable. ht_inv h \<and>
     hashtable_insert False True True h task_example 1 = None"
proof -
  let ?e = "\<lparr>he_k = task_example, he_v = 0 :: nat, he_h = hash_mix (zkUA_hash task_example)\<rparr>"
  let ?i = "indexFor 53 (hash_mix (zkUA_hash task_example))"
  let ?h = "\<lparr>tablelength = 53, ht_table = (replicate 53 [])[?i := replicate 35 ?e], entrycount = 35,
     loadlimit = load_limit_of 53, primeindex = 0, hashfn = zkUA_hash, eqfn = zkUA_equalKeys\<rparr>"
  have load: "load_limit_of 53 = 35" by code_simp
  have "length (concat ((replicate 53 [])[?i := replicate 35 ?e])) = 35"
    by (subst upd_conv_take_nth_drop) (simp_all add: sum_list_replicate)
  moreover have "ht_placed ?h"
    unfolding ht_placed_def by (auto simp: nth_list_update hash_def split: if_splits)
  ultimately have "ht_inv ?h"
    by (simp add: ht_inv_def ht_wf_def primes_def prime_table_length_def del: length_concat)
  moreover have "ht_grows ?h" by (simp add: ht_grows_def load prime_table_length_def primes_def)
  from hashtable_expand_fallback_undefined [OF this, of True task_example 1]
  have "hashtable_insert False True True ?h task_example 1 = None" by blast
  ultimately show ?thesis by blast
qed

text \<open>
  Starting from \<open>hashtable_iterator\<close> and advancing until the iterator is at the end visits
  every entry of the table exactly once, in the order of the chains; one step per entry and a
  last one are enough.
\<close>

theorem iterator_visits_all:
  assumes "ht_inv h" and "length (concat (ht_table h)) < 2 ^ 32"
    and "hashtable_iterator True h = Some itr"
  shows "traverse (Suc (length (concat (ht_table h)))) h itr = Some (concat (ht_table h))"
proof -
  note start = hashtable_iterator_start [OF assms]
  have "length (ht_table h) = tablelength h" using assms(1) by (simp add: ht_inv_def ht_wf_def)
  from traverse_rest [OF this start(1), unfolded start(2), OF lessI] show ?thesis .
qed

theorem iterator_visits_all_witness:
  "\<exists>(h :: (byte list, nat) hashtable) itr. hashtable_iterator True h = Some itr \<and>
     map_option (map he_v) (traverse 2 h itr) = Some [7]"
proof -
  obtain h0 :: "(byte list, nat) hashtable" where h0: "zkUA_initializeTaskHashmap True True = Some h0"
    using task_table_exists by blast
  have inv0: "ht_inv h0" using task_table_empty(1) [OF h0] by (simp add: ht_store_inv_def)
  have e0: "concat (ht_table h0) = []"
    using create_hashtable_Some(2) [OF h0 [unfolded zkUA_initializeTaskHashmap_def]] .
  let ?h = "ht_put_new h0 task_example 7"
  have "hashtable_insert True True True h0 task_example 7 = Some (?h, -1)"
    by (rule ht_put_new_insert)
  note ins = hashtable_insert_inv [OF inv0 this]
  have ms: "mset (concat (ht_table ?h)) = {#new_entry h0 task_example 7#}"
    using ins(5) e0 by simp
  then have c: "concat (ht_table ?h) = [new_entry h0 task_example 7]" by simp
  obtain itr where itr: "hashtable_iterator True ?h = Some itr"
    by (cases "hashtable_iterator True ?h") (auto simp: hashtable_iterator_def Let_def split: if_splits option.splits)
  have "length (concat (ht_table ?h)) < 2 ^ 32" unfolding c by simp
  moreover have two: "Suc (length (concat (ht_table ?h))) = 2" unfolding c by simp
  ultimately have "traverse 2 ?h itr = Some [new_entry h0 task_example 7]"
    using iterator_visits_all [OF ins(1) _ itr, unfolded two] c by simp
  with itr show ?thesis
    by (intro exI [of _ ?h] exI [of _ itr]) (simp only: option.map list.map new_entry_def hentry.select_convs)
qed

text \<open>
  Removing at the iterator unlinks exactly the current entry: the entries before it and
  behind it stay in their order, the iterator stands on the next one with a correct parent
  pointer, and the result says whether there is a next one.
\<close>

theorem iterator_remove_spec:
  assumes "length (ht_table h) = tablelength h" and "itr_ok h itr" and "it_pos itr = Some p"
    and "hashtable_iterator_remove h itr = Some (h', itr', ret)"
  shows "concat (ht_table h) = itr_before h itr @ itr_rest h itr \<and>
    concat (ht_table h') = itr_before h itr @ tl (itr_rest h itr) \<and>
    itr_ok h' itr' \<and> itr_rest h' itr' = tl (itr_rest h itr) \<and>
    ret = (if tl (itr_rest h itr) = [] then 0 else -1) \<and> entrycount h' = entrycount h - 1"
  using iterator_remove [OF assms] itr_split [OF assms(2)] by simp

definition itr_example :: "(nat, nat) hashtable" where
  "itr_example = \<lparr>tablelength = 2,
     ht_table = [[\<lparr>he_k = 1, he_v = 10, he_h = 0\<rparr>, \<lparr>he_k = 2, he_v = 20, he_h = 2\<rparr>],
                 [\<lparr>he_k = 3, he_v = 30, he_h = 1\<rparr>]],
     entrycount = 3, loadlimit = 2, primeindex = 0, hashfn = of_nat, eqfn = (=)\<rparr>"

theorem iterator_remove_spec_witness:
  "\<exists>h' itr'. hashtable_iterator_remove itr_example \<lparr>it_index = 0, it_pos = Some 1, it_parent = Some 0\<rparr> =
     Some (h', itr', -1) \<and> map he_v (concat (ht_table h')) = [10, 30] \<and> map he_v (itr_rest h' itr') = [30]"
proof -
  let ?itr = "\<lparr>it_index = 0, it_pos = Some 1, it_parent = Some 0\<rparr>"
  obtain h' itr' where rm: "hashtable_iterator_remove itr_example ?itr = Some (h', itr', -1)"
    by (simp add: hashtable_iterator_remove_def itr_example_def advance_chain_def Let_def)
  have "length (ht_table itr_example) = tablelength itr_example" "itr_ok itr_example ?itr"
    "it_pos ?itr = Some 1"
    by (simp_all add: itr_example_def itr_ok_def)
  from iterator_remove_spec [OF this rm] rm show ?thesis
    by (auto simp: itr_example_def itr_before_def itr_rest_def)
qed

end
