(* ===== verification/UrlCode.thy ===== *)
theory UrlCode
  imports Prelude
begin

unbundle bit_operations_syntax

text \<open>
  The URL codec of \<open>src/zk_urlEncode.c\<close>. ZooKeeper paths are built from the URL of a
  server, so the encoding must keep the slashes and colons of the URL out of the path.
  \<open>char\<close> is signed on the platforms the program is built for; the arithmetic below is
  the arithmetic of \<open>char\<close> kept in its eight bits (the arithmetic right shift of a
  negative \<open>char\<close> is \<open>signed_drop_bit\<close>).
\<close>

definition from_hex :: "byte \<Rightarrow> byte" where
  "from_hex ch = (if isdigit ch then ch - 48 else tolower ch - 97 + 10)"

definition hex :: cstr where
  "hex = [48, 49, 50, 51, 52, 53, 54, 55, 56, 57, 97, 98, 99, 100, 101, 102]"

definition to_hex :: "byte \<Rightarrow> byte" where
  "to_hex code = hex ! unat (code AND 15)"

text \<open>The test of the first branch of the encoder: characters that are copied.\<close>

definition url_plain :: "byte \<Rightarrow> bool" where
  "url_plain c \<longleftrightarrow> isalnum c \<or> c = 45 \<or> c = 95 \<or> c = 46 \<or> c = 126"

fun zkUA_url_encode :: "cstr \<Rightarrow> cstr" where
  "zkUA_url_encode [] = []"
| "zkUA_url_encode (c # cs) =
     (if url_plain c then [c]
      else if c = 32 then [43]
      else [37, to_hex (signed_drop_bit 4 c), to_hex (c AND 15)]) @ zkUA_url_encode cs"

fun zkUA_url_decode :: "cstr \<Rightarrow> cstr" where
  "zkUA_url_decode [] = []"
| "zkUA_url_decode (c # cs) =
     (if c = 37 then
        (case cs of
           a # b # rest \<Rightarrow> (push_bit 4 (from_hex a) OR from_hex b) # zkUA_url_decode rest
         | _ \<Rightarrow> zkUA_url_decode cs)
      else if c = 43 then 32 # zkUA_url_decode cs
      else c # zkUA_url_decode cs)"

section \<open>Hexadecimal digits\<close>

lemma all_nibbles:
  fixes x :: byte
  assumes "list_all P (map of_nat [0..<16])"
  shows "P (x AND 15)"
proof -
  have "x AND 15 \<le> 15" by (rule word_and_le1)
  then have "unat (x AND 15) \<in> set [0..<16]" by (simp add: word_le_nat_alt)
  with assms show ?thesis by (auto simp: list_all_iff dest: bspec)
qed

lemma nibble_digits:
  "list_all (\<lambda>y. from_hex (hex ! unat y) = y \<and> isalnum (hex ! unat y)) (map of_nat [0..<16])"
  by code_simp

lemma from_hex_to_hex: "from_hex (to_hex x) = x AND 15"
  and to_hex_alnum: "isalnum (to_hex x)"
  using all_nibbles [OF nibble_digits, of x] by (simp_all add: to_hex_def)

lemma nibbles_join:
  fixes c :: byte
  shows "push_bit 4 (signed_drop_bit 4 c AND 15) OR ((c AND 15) AND 15) = c"
proof -
  have mask: "(15 :: byte) = mask 4" by (simp add: mask_eq_exp_minus_1)
  show ?thesis
    unfolding mask by (rule bit_word_eqI) (auto simp: bit_simps)
qed

text \<open>Decoding the three bytes of an escaped character gives the character back.\<close>

lemma hex_pair_decode:
  "push_bit 4 (from_hex (to_hex (signed_drop_bit 4 c))) OR from_hex (to_hex (c AND 15)) = c"
  unfolding from_hex_to_hex by (rule nibbles_join)

lemma url_plain_not_special: "url_plain c \<Longrightarrow> c \<noteq> 37 \<and> c \<noteq> 43 \<and> c \<noteq> 47 \<and> c \<noteq> 0"
  by (auto simp: url_plain_def isalnum_def isdigit_def isupper_def islower_def)

lemma decode_encode_char:
  "zkUA_url_decode (zkUA_url_encode (c # s)) = c # zkUA_url_decode (zkUA_url_encode s)"
proof (cases "url_plain c")
  case True
  with url_plain_not_special [OF True] show ?thesis by simp
next
  case False
  with hex_pair_decode [of c] show ?thesis by simp
qed

lemma isalnum_plain: "isalnum c \<Longrightarrow> url_plain c"
  by (simp add: url_plain_def)

lemma encode_length: "length (zkUA_url_encode s) \<le> 3 * length s"
  by (induction s) auto

lemma url_escape_cases [case_names plain short escape]:
  assumes "c \<noteq> 37 \<Longrightarrow> P" "c = 37 \<Longrightarrow> length cs < 2 \<Longrightarrow> P"
    "\<And>a b rest. c = 37 \<Longrightarrow> cs = a # b # rest \<Longrightarrow> P"
  shows P
  using assms by (cases cs; cases "tl cs"; cases "c = 37") auto

lemma decode_length: "length (zkUA_url_decode s) \<le> length s"
proof (induction s rule: length_induct)
  case (1 s)
  show ?case
  proof (cases s)
    case Nil
    then show ?thesis by simp
  next
    case (Cons c cs)
    have "length cs < length s" "length (tl (tl cs)) < length s" using Cons by simp_all
    with 1 have "length (zkUA_url_decode cs) \<le> length cs"
      "length (zkUA_url_decode (tl (tl cs))) \<le> length (tl (tl cs))" by blast+
    then show ?thesis
      unfolding Cons zkUA_url_decode.simps
      by - (rule url_escape_cases [where c = c and cs = cs],
          auto simp del: zkUA_url_decode.simps split: list.split)
  qed
qed

lemma encode_alphabet: "set (zkUA_url_encode s) \<subseteq> {37, 43} \<union> {c. url_plain c}"
  by (induction s) (auto intro!: isalnum_plain to_hex_alnum)

lemma encode_no_slash: "47 \<notin> set (zkUA_url_encode s)" and encode_no_nul: "0 \<notin> set (zkUA_url_encode s)"
  using encode_alphabet [of s] url_plain_not_special [of 47] url_plain_not_special [of 0] by auto

lemma encode_nonempty: "zkUA_url_encode s = [] \<longleftrightarrow> s = []"
  by (cases s) auto

section \<open>Properties\<close>

text \<open>
  C35. Decoding an encoded string gives the string back, for every string of bytes: spaces,
  percent and plus signs, slashes and bytes above 127 included. The path component under which
  a server keeps its queue therefore determines the URL of the server.
\<close>

theorem url_decode_encode: "zkUA_url_decode (zkUA_url_encode s) = s"
  by (induction s) (simp_all only: decode_encode_char zkUA_url_encode.simps(1) zkUA_url_decode.simps(1))

text \<open>
  C36. The encoder emits only letters, digits, the four marks \<open>-_.~\<close>, percent and plus signs, so
  never a slash or a NUL: an encoded URL is one component of a ZooKeeper path. What it writes,
  with the terminating NUL, fits the \<open>3 * strlen(str) + 1\<close> bytes that it allocates, and what
  the decoder writes fits \<open>strlen(str) + 1\<close>.
\<close>

theorem url_encode_component:
  "set (zkUA_url_encode s) \<subseteq> {37, 43} \<union> {c. url_plain c} \<and>
   47 \<notin> set (zkUA_url_encode s) \<and> 0 \<notin> set (zkUA_url_encode s) \<and>
   length (zkUA_url_encode s) + 1 \<le> 3 * length s + 1 \<and>
   length (zkUA_url_decode s) + 1 \<le> length s + 1"
  using encode_alphabet encode_no_slash encode_no_nul encode_length decode_length by simp

end
