(* ===== verification/UaTypes.thy ===== *)
theory UaTypes
  imports Prelude
begin

text \<open>
  The builtin data types of \<open>open62541.c\<close> (section \<open>ua_types.c\<close>): status codes, strings, GUIDs,
  node identifiers and their comparison and hash functions.

  A \<open>UA_String\<close> (also \<open>UA_ByteString\<close> and \<open>UA_XmlElement\<close>) is \<open>None\<close> when its data pointer is
  NULL, \<open>Some []\<close> when it is the empty-array sentinel, and otherwise its bytes.  A \<open>UA_Guid\<close> is
  laid out without padding, so \<open>memcmp\<close> compares its fields.
\<close>

section \<open>Status codes\<close>

type_synonym status = u32

abbreviation GOOD :: status where "GOOD \<equiv> 0"
abbreviation BADUNEXPECTEDERROR :: status where "BADUNEXPECTEDERROR \<equiv> 0x80010000"
abbreviation BADINTERNALERROR :: status where "BADINTERNALERROR \<equiv> 0x80020000"
abbreviation BADOUTOFMEMORY :: status where "BADOUTOFMEMORY \<equiv> 0x80030000"
abbreviation BADCOMMUNICATIONERROR :: status where "BADCOMMUNICATIONERROR \<equiv> 0x80050000"
abbreviation BADENCODINGERROR :: status where "BADENCODINGERROR \<equiv> 0x80060000"
abbreviation BADDECODINGERROR :: status where "BADDECODINGERROR \<equiv> 0x80070000"
abbreviation BADENCODINGLIMITSEXCEEDED :: status where "BADENCODINGLIMITSEXCEEDED \<equiv> 0x80080000"
abbreviation BADSERVICEUNSUPPORTED :: status where "BADSERVICEUNSUPPORTED \<equiv> 0x800b0000"
abbreviation BADSECURITYCHECKSFAILED :: status where "BADSECURITYCHECKSFAILED \<equiv> 0x80130000"
abbreviation BADSECURECHANNELIDINVALID :: status where "BADSECURECHANNELIDINVALID \<equiv> 0x80220000"
abbreviation BADSESSIONIDINVALID :: status where "BADSESSIONIDINVALID \<equiv> 0x80250000"
abbreviation BADSESSIONNOTACTIVATED :: status where "BADSESSIONNOTACTIVATED \<equiv> 0x80270000"
abbreviation BADNODEIDUNKNOWN :: status where "BADNODEIDUNKNOWN \<equiv> 0x80340000"
abbreviation BADATTRIBUTEIDINVALID :: status where "BADATTRIBUTEIDINVALID \<equiv> 0x80350000"
abbreviation BADOUTOFRANGE :: status where "BADOUTOFRANGE \<equiv> 0x803c0000"
abbreviation BADSECURITYMODEREJECTED :: status where "BADSECURITYMODEREJECTED \<equiv> 0x80540000"
abbreviation BADTOOMANYSESSIONS :: status where "BADTOOMANYSESSIONS \<equiv> 0x80560000"
abbreviation BADINVALIDARGUMENT :: status where "BADINVALIDARGUMENT \<equiv> 0x80ab0000"
abbreviation BADCONNECTIONCLOSED :: status where "BADCONNECTIONCLOSED \<equiv> 0x80ae0000"
abbreviation BADREQUESTTOOLARGE :: status where "BADREQUESTTOOLARGE \<equiv> 0x80b80000"
abbreviation BADRESPONSETOOLARGE :: status where "BADRESPONSETOOLARGE \<equiv> 0x80b90000"
abbreviation GOODNONCRITICALTIMEOUT :: status where "GOODNONCRITICALTIMEOUT \<equiv> 0x00aa0000"

text \<open>Statuses that are collected with \<open>|=\<close>.\<close>

lemma or_GOOD: "(a OR b :: status) = GOOD \<longleftrightarrow> a = GOOD \<and> b = GOOD"
  by (rule or_eq_0_iff)

section \<open>Strings\<close>

type_synonym ustring = "byte list option"

definition ubytes :: "ustring \<Rightarrow> byte list" where
  "ubytes s = (case s of None \<Rightarrow> [] | Some bs \<Rightarrow> bs)"

text \<open>\<open>malloc\<close> succeeds; the empty text gives the sentinel.\<close>

definition UA_String_fromChars :: "cstr \<Rightarrow> ustring" where
  "UA_String_fromChars src = Some src"

definition UA_String_equal :: "ustring \<Rightarrow> ustring \<Rightarrow> bool" where
  "UA_String_equal s1 s2 \<longleftrightarrow>
     (if length (ubytes s1) \<noteq> length (ubytes s2) then False else ubytes s1 = ubytes s2)"

lemma UA_String_equal_bytes: "UA_String_equal s1 s2 \<longleftrightarrow> ubytes s1 = ubytes s2"
  by (auto simp: UA_String_equal_def)

section \<open>GUIDs\<close>

record guid =
  gdata1 :: u32
  gdata2 :: u16
  gdata3 :: u16
  gdata4 :: "byte list"

definition guid_ok :: "guid \<Rightarrow> bool" where
  "guid_ok g \<longleftrightarrow> length (gdata4 g) = 8"

definition UA_GUID_NULL :: guid where
  "UA_GUID_NULL = \<lparr> gdata1 = 0, gdata2 = 0, gdata3 = 0, gdata4 = replicate 8 0 \<rparr>"

definition UA_Guid_equal :: "guid \<Rightarrow> guid \<Rightarrow> bool" where
  "UA_Guid_equal g1 g2 \<longleftrightarrow> g1 = g2"

text \<open>
  \<open>UA_Guid_random\<close> draws four numbers from the generator \<open>rng\<close>, each of which also gives the
  generator's next state.
\<close>

definition UA_Guid_random :: "('g \<Rightarrow> u32 \<times> 'g) \<Rightarrow> 'g \<Rightarrow> guid \<times> 'g" where
  "UA_Guid_random rng g0 =
     (let (r1, g1) = rng g0; (r2, g2) = rng g1; (r3, g3) = rng g2; (r4, g4) = rng g3
      in (\<lparr> gdata1 = r1, gdata2 = ucast r2, gdata3 = ucast (drop_bit 16 r2),
            gdata4 = [ucast r3, ucast (drop_bit 4 r3), ucast (drop_bit 8 r3), ucast (drop_bit 12 r3),
                      ucast r4, ucast (drop_bit 4 r4), ucast (drop_bit 8 r4), ucast (drop_bit 12 r4)] \<rparr>,
          g4))"

section \<open>Node identifiers\<close>

text \<open>\<open>BadIdType\<close> stands for an \<open>identifierType\<close> field outside the four defined types, with a zeroed union.\<close>

datatype nodeid_ident =
    Numeric u32
  | StringId ustring
  | GuidId guid
  | ByteStringId ustring
  | BadIdType

record nodeid =
  namespaceIndex :: u16
  ident :: nodeid_ident

definition UA_NODEID_NULL :: nodeid where
  "UA_NODEID_NULL = \<lparr> namespaceIndex = 0, ident = Numeric 0 \<rparr>"

definition UA_NODEID_NUMERIC :: "u16 \<Rightarrow> u32 \<Rightarrow> nodeid" where
  "UA_NODEID_NUMERIC nsIndex i = \<lparr> namespaceIndex = nsIndex, ident = Numeric i \<rparr>"

definition UA_NodeId_isNull :: "nodeid \<Rightarrow> bool" where
  "UA_NodeId_isNull p \<longleftrightarrow>
     (if namespaceIndex p \<noteq> 0 then False
      else case ident p of
             Numeric i \<Rightarrow> i = 0
           | GuidId g \<Rightarrow> gdata1 g = 0 \<and> gdata2 g = 0 \<and> gdata3 g = 0 \<and> (\<forall>b\<in>set (gdata4 g). b = 0)
           | StringId s \<Rightarrow> length (ubytes s) = 0
           | ByteStringId s \<Rightarrow> length (ubytes s) = 0
           | BadIdType \<Rightarrow> True)"

definition UA_NodeId_equal :: "nodeid \<Rightarrow> nodeid \<Rightarrow> bool" where
  "UA_NodeId_equal n1 n2 \<longleftrightarrow>
     (if namespaceIndex n1 \<noteq> namespaceIndex n2 then False
      else case (ident n1, ident n2) of
             (Numeric a, Numeric b) \<Rightarrow> a = b
           | (StringId a, StringId b) \<Rightarrow> UA_String_equal a b
           | (GuidId a, GuidId b) \<Rightarrow> UA_Guid_equal a b
           | (ByteStringId a, ByteStringId b) \<Rightarrow> UA_String_equal a b
           | _ \<Rightarrow> False)"

fun fnv32 :: "u32 \<Rightarrow> byte list \<Rightarrow> u32" where
  "fnv32 fnv [] = fnv"
| "fnv32 fnv (b # bs) = fnv32 ((fnv XOR ucast b) * 16777619) bs"

text \<open>The bytes of a little-endian integer in memory.\<close>

fun UA_encode16 :: "u16 \<Rightarrow> byte list" where
  "UA_encode16 v = [ucast v, ucast (drop_bit 8 v)]"

fun UA_encode32 :: "u32 \<Rightarrow> byte list" where
  "UA_encode32 v = [ucast v, ucast (drop_bit 8 v), ucast (drop_bit 16 v), ucast (drop_bit 24 v)]"

fun UA_encode64 :: "u64 \<Rightarrow> byte list" where
  "UA_encode64 v = [ucast v, ucast (drop_bit 8 v), ucast (drop_bit 16 v), ucast (drop_bit 24 v),
     ucast (drop_bit 32 v), ucast (drop_bit 40 v), ucast (drop_bit 48 v), ucast (drop_bit 56 v)]"

definition guid_bytes :: "guid \<Rightarrow> byte list" where
  "guid_bytes g = UA_encode32 (gdata1 g) @ UA_encode16 (gdata2 g) @ UA_encode16 (gdata3 g) @ gdata4 g"

text \<open>
  The product with \<open>2654435761\<close> is computed in a \<open>long\<close> and cast to 32 bits, so it is taken
  modulo \<open>2 ^ 32\<close>.
\<close>

definition UA_NodeId_hash :: "nodeid \<Rightarrow> u32" where
  "UA_NodeId_hash n = (case ident n of
       Numeric i \<Rightarrow> ucast (namespaceIndex n) + i * 2654435761
     | StringId s \<Rightarrow> fnv32 (ucast (namespaceIndex n)) (ubytes s)
     | ByteStringId s \<Rightarrow> fnv32 (ucast (namespaceIndex n)) (ubytes s)
     | GuidId g \<Rightarrow> fnv32 (ucast (namespaceIndex n)) (guid_bytes g)
     | BadIdType \<Rightarrow> ucast (namespaceIndex n))"

text \<open>Nodes that compare equal hash alike, on identifiers of the defined types.\<close>

lemma UA_NodeId_hash_equal:
  "UA_NodeId_equal n1 n2 \<Longrightarrow> UA_NodeId_hash n1 = UA_NodeId_hash n2"
  by (auto simp: UA_NodeId_equal_def UA_NodeId_hash_def UA_String_equal_bytes UA_Guid_equal_def
      split: if_splits nodeid_ident.splits)

lemma UA_NodeId_equal_refl: "ident n \<noteq> BadIdType \<Longrightarrow> UA_NodeId_equal n n"
  by (auto simp: UA_NodeId_equal_def UA_String_equal_bytes UA_Guid_equal_def
      split: nodeid_ident.splits)

lemma UA_NodeId_equal_sym: "UA_NodeId_equal a b \<Longrightarrow> UA_NodeId_equal b a"
  by (auto simp: UA_NodeId_equal_def UA_String_equal_bytes UA_Guid_equal_def
      split: if_splits nodeid_ident.splits)

lemma UA_NodeId_equal_trans:
  "UA_NodeId_equal a b \<Longrightarrow> UA_NodeId_equal b c \<Longrightarrow> UA_NodeId_equal a c"
  by (auto simp: UA_NodeId_equal_def UA_String_equal_bytes UA_Guid_equal_def
      split: if_splits nodeid_ident.splits)

end
