(* ===== verification/BinPrim.thy ===== *)
theory BinPrim
  imports UaTypes
begin

text \<open>
  The leaves of the binary encoding (\<open>ua_types_encoding_binary.c\<close> in \<open>open62541.c\<close>): integers,
  strings, GUIDs, node identifiers and localized texts, with the buffers they work on.

  The thread-local pointers \<open>pos\<close> and \<open>end\<close> are an encoding context: the bytes written between the
  buffer's start and \<open>pos\<close>, the room of the buffer, a generation number that counts the buffers
  exchanged so far, whether the buffer is still allocated, and the state of the exchange
  callback.  A position is a generation and an offset, so that going back to a position in a buffer
  that was exchanged meanwhile is seen.  For decoding, a context holds the bytes from \<open>pos\<close> to
  \<open>end\<close> and how far \<open>pos\<close> has been moved beyond \<open>end\<close>.  The host is little endian, so that
  \<open>memcpy\<close> of an integer is its \<open>UA_encode\<close> function and a \<open>float\<close> or \<open>double\<close> is its bit pattern.
\<close>

section \<open>The encoding context\<close>

record 's ectx =
  ebuf :: "byte list"
  ecap :: nat
  egen :: nat
  elive :: bool
  ecb :: 's

type_synonym 's exchange = "('s \<Rightarrow> byte list \<Rightarrow> status \<times> nat option \<times> 's) option"
type_synonym 's enc = "'s ectx \<Rightarrow> (status \<times> 's ectx) outcome"

text \<open>
  A write at \<open>pos\<close>; writing into a buffer that was handed over and not replaced is undefined.
\<close>

definition put :: "byte list \<Rightarrow> 's enc" where
  "put bs c =
     (if \<not> elive c then Undefined
      else if length (ebuf c) + length bs > ecap c then Done (BADENCODINGLIMITSEXCEEDED, c)
      else Done (GOOD, c\<lparr>ebuf := ebuf c @ bs\<rparr>))"

text \<open>The callback sends the content and returns the room of the next buffer, or no buffer.\<close>

definition exchangeBuffer :: "'s exchange \<Rightarrow> 's ectx \<Rightarrow> status \<times> 's ectx" where
  "exchangeBuffer xb c = (case xb of
       None \<Rightarrow> (BADENCODINGERROR, c)
     | Some f \<Rightarrow> (case f (ecb c) (ebuf c) of
         (rv, room, s) \<Rightarrow>
           (rv, c\<lparr>ebuf := [], ecap := (case room of None \<Rightarrow> 0 | Some n \<Rightarrow> n), egen := Suc (egen c),
                  elive := (room \<noteq> None), ecb := s\<rparr>)))"

text \<open>\<open>pos = oldpos\<close>, where \<open>oldpos\<close> was the position of the context \<open>old\<close>.\<close>

definition rewind :: "'s ectx \<Rightarrow> 's ectx \<Rightarrow> 's ectx outcome" where
  "rewind old c =
     (if egen old = egen c then Done (c\<lparr>ebuf := take (length (ebuf old)) (ebuf c)\<rparr>) else Undefined)"

text \<open>\<open>retval = f(); retval |= g();\<close>\<close>

definition or_then :: "'s enc \<Rightarrow> 's enc \<Rightarrow> 's enc" where
  "or_then f g c = bind (f c) (\<lambda>(r1, c1). bind (g c1) (\<lambda>(r2, c2). Done (r1 OR r2, c2)))"

definition skip :: "'s enc" where
  "skip c = Done (GOOD, c)"

definition only_if :: "bool \<Rightarrow> 's enc \<Rightarrow> 's enc" where
  "only_if b f = (if b then f else skip)"

section \<open>The decoding context\<close>

record dctx =
  drest :: "byte list"
  dpast :: nat

type_synonym 'a dec = "dctx \<Rightarrow> status \<times> 'a \<times> dctx"

definition take_bytes :: "nat \<Rightarrow> dctx \<Rightarrow> (byte list \<times> dctx) option" where
  "take_bytes n d =
     (if length (drest d) < n then None
      else Some (take n (drest d), d\<lparr>drest := drop n (drest d)\<rparr>))"

text \<open>\<open>pos += n\<close> with no check.\<close>

definition jump :: "nat \<Rightarrow> dctx \<Rightarrow> dctx" where
  "jump n d = d\<lparr>drest := drop n (drest d), dpast := dpast d + (n - length (drest d))\<rparr>"

section \<open>Integers\<close>

fun UA_decode16 :: "byte list \<Rightarrow> u16" where
  "UA_decode16 [a, b] = ucast a + push_bit 8 (ucast b)"
| "UA_decode16 _ = 0"

fun UA_decode32 :: "byte list \<Rightarrow> u32" where
  "UA_decode32 [a, b, c, d] =
     ucast a + push_bit 8 (ucast b) + push_bit 16 (ucast c) + push_bit 24 (ucast d)"
| "UA_decode32 _ = 0"

fun UA_decode64 :: "byte list \<Rightarrow> u64" where
  "UA_decode64 [a, b, c, d, e, f, g, h] =
     ucast a + push_bit 8 (ucast b) + push_bit 16 (ucast c) + push_bit 24 (ucast d) +
     push_bit 32 (ucast e) + push_bit 40 (ucast f) + push_bit 48 (ucast g) + push_bit 56 (ucast h)"
| "UA_decode64 _ = 0"

definition Byte_encodeBinary :: "byte \<Rightarrow> 's enc" where
  "Byte_encodeBinary v = put [v]"

definition UInt16_encodeBinary :: "u16 \<Rightarrow> 's enc" where
  "UInt16_encodeBinary v = put (UA_encode16 v)"

definition UInt32_encodeBinary :: "u32 \<Rightarrow> 's enc" where
  "UInt32_encodeBinary v = put (UA_encode32 v)"

definition UInt64_encodeBinary :: "u64 \<Rightarrow> 's enc" where
  "UInt64_encodeBinary v = put (UA_encode64 v)"

definition Boolean_encodeBinary :: "byte \<Rightarrow> 's enc" where
  "Boolean_encodeBinary v = put [v]"

definition Boolean_decodeBinary :: "byte dec" where
  "Boolean_decodeBinary d = (case take_bytes 1 d of
       None \<Rightarrow> (BADDECODINGERROR, 0, d)
     | Some (bs, d') \<Rightarrow> (GOOD, (if 0 < hd bs then 1 else 0), d'))"

definition Byte_decodeBinary :: "byte dec" where
  "Byte_decodeBinary d = (case take_bytes 1 d of
       None \<Rightarrow> (BADDECODINGERROR, 0, d)
     | Some (bs, d') \<Rightarrow> (GOOD, hd bs, d'))"

definition UInt16_decodeBinary :: "u16 dec" where
  "UInt16_decodeBinary d = (case take_bytes 2 d of
       None \<Rightarrow> (BADDECODINGERROR, 0, d)
     | Some (bs, d') \<Rightarrow> (GOOD, UA_decode16 bs, d'))"

definition UInt32_decodeBinary :: "u32 dec" where
  "UInt32_decodeBinary d = (case take_bytes 4 d of
       None \<Rightarrow> (BADDECODINGERROR, 0, d)
     | Some (bs, d') \<Rightarrow> (GOOD, UA_decode32 bs, d'))"

definition UInt64_decodeBinary :: "u64 dec" where
  "UInt64_decodeBinary d = (case take_bytes 8 d of
       None \<Rightarrow> (BADDECODINGERROR, 0, d)
     | Some (bs, d') \<Rightarrow> (GOOD, UA_decode64 bs, d'))"

section \<open>Arrays of overlayable elements and strings\<close>

text \<open>
  \<open>bs\<close> is the memory from \<open>ptr\<close> on, of elements of \<open>k\<close> bytes.  Every round of the loop sends one
  buffer, which is what the fuel counts.
\<close>

fun Array_encodeBinaryOverlayable :: "nat \<Rightarrow> 's exchange \<Rightarrow> nat \<Rightarrow> byte list \<Rightarrow> 's enc" where
  "Array_encodeBinaryOverlayable fuel xb k bs c =
     (if \<not> elive c then Undefined
      else if ecap c < length (ebuf c) + length bs then
        (case fuel of
           0 \<Rightarrow> OutOfFuel
         | Suc m \<Rightarrow>
             (let possibleMem = (ecap c - length (ebuf c)) div k * k;
                  (rv, c') = exchangeBuffer xb (c\<lparr>ebuf := ebuf c @ take possibleMem bs\<rparr>)
              in if rv \<noteq> GOOD then Done (rv, c')
                 else Array_encodeBinaryOverlayable m xb k (drop possibleMem bs) c'))
      else Done (GOOD, c\<lparr>ebuf := ebuf c @ bs\<rparr>))"

declare Array_encodeBinaryOverlayable.simps [simp del]

text \<open>The length field of an array whose data pointer is NULL, the sentinel, or real.\<close>

definition array_length_field :: "'a list option \<Rightarrow> u32" where
  "array_length_field s = (case s of None \<Rightarrow> - 1 | Some xs \<Rightarrow> of_nat (length xs))"

definition String_encodeBinary :: "nat \<Rightarrow> 's exchange \<Rightarrow> ustring \<Rightarrow> 's enc" where
  "String_encodeBinary fuel xb s c =
     (if length (ubytes s) > 0x7FFFFFFF then Done (BADINTERNALERROR, c)
      else bind (UInt32_encodeBinary (array_length_field s) c)
        (\<lambda>(rv, c'). if rv \<noteq> GOOD \<or> length (ubytes s) = 0 then Done (rv, c')
                    else Array_encodeBinaryOverlayable fuel xb 1 (ubytes s) c'))"

text \<open>
  \<open>Array_decodeBinary\<close> for the type \<open>Byte\<close>: the bound check on \<open>memSize * length / 32\<close> comes
  first and the copy of an overlayable array checks the whole length.
\<close>

definition String_decodeBinary :: "ustring dec" where
  "String_decodeBinary d =
     (let (rv, signed_length, d1) = UInt32_decodeBinary d
      in if rv \<noteq> GOOD then (rv, None, d1)
         else if sint signed_length \<le> 0
         then (GOOD, (if sint signed_length < 0 then None else Some []), d1)
         else let n = unat signed_length
           in if n div 32 > length (drest d1) then (BADDECODINGERROR, None, d1)
              else (case take_bytes n d1 of
                      None \<Rightarrow> (BADDECODINGERROR, None, d1)
                    | Some (bs, d2) \<Rightarrow> (GOOD, Some bs, d2)))"

section \<open>GUIDs and node identifiers\<close>

definition Guid_encodeBinary :: "guid \<Rightarrow> 's enc" where
  "Guid_encodeBinary g c =
     bind (or_then (UInt32_encodeBinary (gdata1 g))
             (or_then (UInt16_encodeBinary (gdata2 g)) (UInt16_encodeBinary (gdata3 g))) c)
       (\<lambda>(rv, c'). bind (put (gdata4 g) c')
          (\<lambda>(rv2, c2). if rv2 = BADENCODINGLIMITSEXCEEDED then Done (rv2, c2) else Done (rv, c2)))"

definition Guid_decodeBinary :: "guid dec" where
  "Guid_decodeBinary d =
     (let (r1, a, d1) = UInt32_decodeBinary d;
          (r2, b, d2) = UInt16_decodeBinary d1;
          (r3, c, d3) = UInt16_decodeBinary d2
      in case take_bytes 8 d3 of
           None \<Rightarrow> (BADDECODINGERROR, UA_GUID_NULL, d3)
         | Some (bs, d4) \<Rightarrow>
             (r1 OR r2 OR r3, \<lparr> gdata1 = a, gdata2 = b, gdata3 = c, gdata4 = bs \<rparr>, d4))"

definition NodeId_encodeBinaryWithEncodingMask ::
  "nat \<Rightarrow> 's exchange \<Rightarrow> nodeid \<Rightarrow> byte \<Rightarrow> 's enc" where
  "NodeId_encodeBinaryWithEncodingMask fuel xb src encoding =
     (case ident src of
        Numeric i \<Rightarrow>
          if i > 0xFFFF \<or> namespaceIndex src > 0xFF then
            or_then (Byte_encodeBinary (encoding OR 2))
              (or_then (UInt16_encodeBinary (namespaceIndex src)) (UInt32_encodeBinary i))
          else if i > 0xFF \<or> namespaceIndex src > 0 then
            or_then (Byte_encodeBinary (encoding OR 1))
              (or_then (Byte_encodeBinary (ucast (namespaceIndex src)))
                       (UInt16_encodeBinary (ucast i)))
          else or_then (Byte_encodeBinary (encoding OR 0)) (Byte_encodeBinary (ucast i))
      | StringId s \<Rightarrow>
          or_then (Byte_encodeBinary (encoding OR 3))
            (or_then (UInt16_encodeBinary (namespaceIndex src)) (String_encodeBinary fuel xb s))
      | GuidId g \<Rightarrow>
          or_then (Byte_encodeBinary (encoding OR 4))
            (or_then (UInt16_encodeBinary (namespaceIndex src)) (Guid_encodeBinary g))
      | ByteStringId s \<Rightarrow>
          or_then (Byte_encodeBinary (encoding OR 5))
            (or_then (UInt16_encodeBinary (namespaceIndex src)) (String_encodeBinary fuel xb s))
      | BadIdType \<Rightarrow> (\<lambda>c. Done (BADINTERNALERROR, c)))"

definition NodeId_encodeBinary :: "nat \<Rightarrow> 's exchange \<Rightarrow> nodeid \<Rightarrow> 's enc" where
  "NodeId_encodeBinary fuel xb src = NodeId_encodeBinaryWithEncodingMask fuel xb src 0"

definition NodeId_decodeBinary :: "nodeid dec" where
  "NodeId_decodeBinary d0 =
     (let (rv, encodingByte, d) = Byte_decodeBinary d0
      in if rv \<noteq> GOOD then (rv, UA_NODEID_NULL, d)
         else if encodingByte = 0 then
           (let (r1, i, d1) = Byte_decodeBinary d
            in (r1, \<lparr> namespaceIndex = 0, ident = Numeric (ucast i) \<rparr>, d1))
         else if encodingByte = 1 then
           (let (r1, nsi, d1) = Byte_decodeBinary d; (r2, i, d2) = UInt16_decodeBinary d1
            in (r1 OR r2, \<lparr> namespaceIndex = ucast nsi, ident = Numeric (ucast i) \<rparr>, d2))
         else if encodingByte = 2 then
           (let (r1, nsi, d1) = UInt16_decodeBinary d; (r2, i, d2) = UInt32_decodeBinary d1
            in (r1 OR r2, \<lparr> namespaceIndex = nsi, ident = Numeric i \<rparr>, d2))
         else if encodingByte = 3 then
           (let (r1, nsi, d1) = UInt16_decodeBinary d; (r2, s, d2) = String_decodeBinary d1
            in (r1 OR r2, \<lparr> namespaceIndex = nsi, ident = StringId s \<rparr>, d2))
         else if encodingByte = 4 then
           (let (r1, nsi, d1) = UInt16_decodeBinary d; (r2, g, d2) = Guid_decodeBinary d1
            in (r1 OR r2, \<lparr> namespaceIndex = nsi, ident = GuidId g \<rparr>, d2))
         else if encodingByte = 5 then
           (let (r1, nsi, d1) = UInt16_decodeBinary d; (r2, s, d2) = String_decodeBinary d1
            in (r1 OR r2, \<lparr> namespaceIndex = nsi, ident = ByteStringId s \<rparr>, d2))
         else (BADINTERNALERROR, UA_NODEID_NULL, d))"

record expandedNodeId =
  enodeId :: nodeid
  namespaceUri :: ustring
  serverIndex :: u32

text \<open>A data pointer above the empty-array sentinel.\<close>

definition real_data :: "ustring \<Rightarrow> bool" where
  "real_data s \<longleftrightarrow> s \<noteq> None \<and> s \<noteq> Some []"

definition ExpandedNodeId_encodeBinary :: "nat \<Rightarrow> 's exchange \<Rightarrow> expandedNodeId \<Rightarrow> 's enc" where
  "ExpandedNodeId_encodeBinary fuel xb src =
     (let encoding = (if real_data (namespaceUri src) then 0x80 else 0)
            OR (if serverIndex src > 0 then 0x40 else 0)
      in or_then (NodeId_encodeBinaryWithEncodingMask fuel xb (enodeId src) encoding)
           (or_then (only_if (real_data (namespaceUri src))
                       (String_encodeBinary fuel xb (namespaceUri src)))
              (only_if (serverIndex src > 0) (UInt32_encodeBinary (serverIndex src)))))"

text \<open>
  The flags are masked out of the encoding byte on the stream, which the node identifier is then
  decoded from.  (The message buffer keeps the masked byte; nothing reads it again.)
\<close>

definition ExpandedNodeId_decodeBinary :: "expandedNodeId dec" where
  "ExpandedNodeId_decodeBinary d =
     (case drest d of
        [] \<Rightarrow> (BADDECODINGERROR, \<lparr> enodeId = UA_NODEID_NULL, namespaceUri = None, serverIndex = 0 \<rparr>, d)
      | encoding # r \<Rightarrow>
          (let (r1, n, d1) = NodeId_decodeBinary (d\<lparr>drest := (encoding AND NOT 0xC0) # r\<rparr>);
               (r2, n', uri, d2) =
                 (if encoding AND 0x80 \<noteq> 0
                  then (let (r2, s, d2) = String_decodeBinary d1
                        in (r2, n\<lparr>namespaceIndex := 0\<rparr>, s, d2))
                  else (GOOD, n, None, d1));
               (r3, si, d3) =
                 (if encoding AND 0x40 \<noteq> 0 then UInt32_decodeBinary d2 else (GOOD, 0, d2))
           in (r1 OR r2 OR r3, \<lparr> enodeId = n', namespaceUri = uri, serverIndex = si \<rparr>, d3)))"

definition LocalizedText_encodeBinary :: "nat \<Rightarrow> 's exchange \<Rightarrow> ustring \<Rightarrow> ustring \<Rightarrow> 's enc" where
  "LocalizedText_encodeBinary fuel xb loc txt =
     (let encoding = (if loc \<noteq> None then 1 else 0) OR (if txt \<noteq> None then 2 else 0)
      in or_then (Byte_encodeBinary encoding)
           (or_then (only_if (encoding AND 1 \<noteq> 0) (String_encodeBinary fuel xb loc))
              (only_if (encoding AND 2 \<noteq> 0) (String_encodeBinary fuel xb txt))))"

definition LocalizedText_decodeBinary :: "(ustring \<times> ustring) dec" where
  "LocalizedText_decodeBinary d =
     (let (r1, encoding, d1) = Byte_decodeBinary d;
          (r2, loc, d2) = (if encoding AND 1 \<noteq> 0 then String_decodeBinary d1 else (GOOD, None, d1));
          (r3, txt, d3) = (if encoding AND 2 \<noteq> 0 then String_decodeBinary d2 else (GOOD, None, d2))
      in (r1 OR r2 OR r3, (loc, txt), d3))"

end
