(* ===== verification/BinLaws.thy ===== *)
theory BinLaws
  imports BinPrim
begin

text \<open>
  The contract of an encoder and decoder pair, as a locale, and its interpretations on the leaf
  codecs of \<open>BinPrim\<close>.  An encoder \<open>writes\<close> some bytes when, in a live buffer with room for
  them, it appends exactly them and reports \<open>GOOD\<close>; a decoder \<open>reads\<close> a value from some bytes
  when it returns it and stops right after them, whatever follows.
\<close>

section \<open>What a codec promises\<close>

definition writes :: "'s enc \<Rightarrow> byte list \<Rightarrow> bool" where
  "writes f bs \<longleftrightarrow>
     (\<forall>c. elive c \<longrightarrow> length (ebuf c) + length bs \<le> ecap c \<longrightarrow>
          f c = Done (GOOD, c\<lparr>ebuf := ebuf c @ bs\<rparr>))"

definition reads :: "'a dec \<Rightarrow> 'a \<Rightarrow> byte list \<Rightarrow> bool" where
  "reads f v bs \<longleftrightarrow>
     (\<forall>suf. f \<lparr> drest = bs @ suf, dpast = 0 \<rparr> = (GOOD, v, \<lparr> drest = suf, dpast = 0 \<rparr>))"

locale codec =
  fixes enc :: "'v \<Rightarrow> 's enc"
    and dec :: "'v dec"
    and bytes :: "'v \<Rightarrow> byte list"
    and ok :: "'v \<Rightarrow> bool"
  assumes enc_writes: "ok v \<Longrightarrow> writes (enc v) (bytes v)"
    and dec_reads: "ok v \<Longrightarrow> reads dec v (bytes v)"
begin

lemma encode_fits:
  "ok v \<Longrightarrow> elive c \<Longrightarrow> length (ebuf c) + length (bytes v) \<le> ecap c \<Longrightarrow>
   enc v c = Done (GOOD, c\<lparr>ebuf := ebuf c @ bytes v\<rparr>)"
  using enc_writes unfolding writes_def by blast

lemma decode_back:
  "ok v \<Longrightarrow> dec \<lparr> drest = bytes v @ suf, dpast = 0 \<rparr> = (GOOD, v, \<lparr> drest = suf, dpast = 0 \<rparr>)"
  using dec_reads unfolding reads_def by blast

lemma roundtrip:
  assumes "ok v" "elive c" "ebuf c = []" "length (bytes v) \<le> ecap c"
    and "enc v c = Done (rv, c')"
  shows "rv = GOOD \<and> dec \<lparr> drest = ebuf c' @ suf, dpast = 0 \<rparr> = (GOOD, v, \<lparr> drest = suf, dpast = 0 \<rparr>)"
proof -
  have "enc v c = Done (GOOD, c\<lparr>ebuf := ebuf c @ bytes v\<rparr>)"
    by (rule encode_fits) (use assms(1-4) in simp_all)
  then have "Done (rv, c') = Done (GOOD, c\<lparr>ebuf := ebuf c @ bytes v\<rparr>)"
    by (simp only: assms(5))
  then have "rv = GOOD" "ebuf c' = bytes v"
    by (simp_all add: assms(3))
  then show ?thesis
    using decode_back[OF assms(1)] by simp
qed

lemma prefix_free:
  assumes "ok v" "ok w" "bytes v @ s = bytes w @ t"
  shows "v = w \<and> s = t"
proof -
  have "dec \<lparr> drest = bytes w @ t, dpast = 0 \<rparr> = (GOOD, v, \<lparr> drest = s, dpast = 0 \<rparr>)"
    using decode_back[OF assms(1), of s] by (simp only: assms(3))
  from trans[OF this[symmetric] decode_back[OF assms(2), of t]]
  show ?thesis by simp
qed

end

section \<open>Composition of writers\<close>

lemma writes_put [codec_simps]: "writes (put bs) bs"
  by (auto simp: writes_def put_def)

lemma writes_skip [codec_simps]: "writes skip []"
  by (auto simp: writes_def skip_def)

lemma writes_or_then [codec_simps]:
  assumes "writes f a" "writes g b"
  shows "writes (or_then f g) (a @ b)"
  unfolding writes_def or_then_def
proof (intro allI impI)
  fix c :: "'a ectx"
  assume live: "elive c" and room: "length (ebuf c) + length (a @ b) \<le> ecap c"
  have "f c = Done (GOOD, c\<lparr>ebuf := ebuf c @ a\<rparr>)"
    using assms(1) live room unfolding writes_def by auto
  moreover have "g (c\<lparr>ebuf := ebuf c @ a\<rparr>) = Done (GOOD, c\<lparr>ebuf := ebuf c @ a @ b\<rparr>)"
    using assms(2) live room unfolding writes_def by auto
  ultimately show "bind (f c) (\<lambda>(r1, c1). bind (g c1) (\<lambda>(r2, c2). Done (r1 OR r2, c2)))
      = Done (GOOD, c\<lparr>ebuf := ebuf c @ a @ b\<rparr>)"
    by simp
qed

lemma writes_only_if [codec_simps]:
  "writes f a \<Longrightarrow> writes (only_if b f) (if b then a else [])"
  by (auto simp: only_if_def writes_skip)

lemma writesD:
  "writes f bs \<Longrightarrow> elive c \<Longrightarrow> length (ebuf c) + length bs \<le> ecap c \<Longrightarrow>
   f c = Done (GOOD, c\<lparr>ebuf := ebuf c @ bs\<rparr>)"
  unfolding writes_def by blast

lemma readsD:
  "reads f v bs \<Longrightarrow> f \<lparr> drest = bs @ suf, dpast = 0 \<rparr> = (GOOD, v, \<lparr> drest = suf, dpast = 0 \<rparr>)"
  unfolding reads_def by blast

section \<open>Integers\<close>

lemma byte_cases:
  "(n::nat) < 8 \<or> 8 \<le> n \<and> n < 16 \<or> 16 \<le> n \<and> n < 24 \<or> 24 \<le> n \<and> n < 32 \<or> 32 \<le> n \<and> n < 40
   \<or> 40 \<le> n \<and> n < 48 \<or> 48 \<le> n \<and> n < 56 \<or> 56 \<le> n"
  by linarith

lemma UA_decode_encode16 [codec_simps]: "UA_decode16 (UA_encode16 v) = v"
proof -
  have "ucast (ucast v :: byte) + push_bit 8 (ucast (ucast (drop_bit 8 v) :: byte)) = (v :: u16)"
    apply (subst disjunctive_add_eq_or, (auto simp: bit_eq_iff bit_simps)[1])
    apply (rule bit_word_eqI)
    apply (auto simp: bit_simps)
    done
  then show ?thesis by simp
qed

lemma UA_decode_encode32 [codec_simps]: "UA_decode32 (UA_encode32 v) = v"
proof -
  have "ucast (ucast v :: byte) + push_bit 8 (ucast (ucast (drop_bit 8 v) :: byte)) +
      push_bit 16 (ucast (ucast (drop_bit 16 v) :: byte)) +
      push_bit 24 (ucast (ucast (drop_bit 24 v) :: byte)) = (v :: u32)"
    apply (subst disjunctive_add_eq_or, (auto simp: bit_eq_iff bit_simps)[1])+
    apply (rule bit_word_eqI)
    subgoal for n using byte_cases[of n]
      by (elim disjE conjE) (simp_all add: bit_simps less_diff_conv2)
    done
  then show ?thesis by simp
qed

lemma UA_decode_encode64 [codec_simps]: "UA_decode64 (UA_encode64 v) = v"
proof -
  have "ucast (ucast v :: byte) + push_bit 8 (ucast (ucast (drop_bit 8 v) :: byte)) +
      push_bit 16 (ucast (ucast (drop_bit 16 v) :: byte)) +
      push_bit 24 (ucast (ucast (drop_bit 24 v) :: byte)) +
      push_bit 32 (ucast (ucast (drop_bit 32 v) :: byte)) +
      push_bit 40 (ucast (ucast (drop_bit 40 v) :: byte)) +
      push_bit 48 (ucast (ucast (drop_bit 48 v) :: byte)) +
      push_bit 56 (ucast (ucast (drop_bit 56 v) :: byte)) = (v :: u64)"
    apply (subst disjunctive_add_eq_or, (auto simp: bit_eq_iff bit_simps)[1])+
    apply (rule bit_word_eqI)
    subgoal for n using byte_cases[of n]
      by (elim disjE conjE) (simp_all add: bit_simps less_diff_conv2)
    done
  then show ?thesis by simp
qed

lemma length_encode [simp]:
  "length (UA_encode16 a) = 2" "length (UA_encode32 b) = 4" "length (UA_encode64 c) = 8"
  by simp_all

declare UA_encode16.simps [simp del] UA_encode32.simps [simp del] UA_encode64.simps [simp del]

lemma take_bytes_append [simp]:
  "length bs = n \<Longrightarrow> take_bytes n \<lparr> drest = bs @ suf, dpast = k \<rparr> = Some (bs, \<lparr> drest = suf, dpast = k \<rparr>)"
  by (simp add: take_bytes_def)

lemma reads_byte [codec_simps]: "reads Byte_decodeBinary v [v]"
  by (simp add: reads_def Byte_decodeBinary_def take_bytes_def)

lemma Byte_decode_Cons [simp]:
  "Byte_decodeBinary \<lparr> drest = v # suf, dpast = 0 \<rparr> = (GOOD, v, \<lparr> drest = suf, dpast = 0 \<rparr>)"
  by (simp add: Byte_decodeBinary_def take_bytes_def)

lemma reads_bool [codec_simps]: "v = 0 \<or> v = 1 \<Longrightarrow> reads Boolean_decodeBinary v [v]"
  by (auto simp: reads_def Boolean_decodeBinary_def take_bytes_def)

lemma reads_u16 [codec_simps]: "reads UInt16_decodeBinary v (UA_encode16 v)"
  by (simp add: reads_def UInt16_decodeBinary_def UA_decode_encode16)

lemma reads_u32 [codec_simps]: "reads UInt32_decodeBinary v (UA_encode32 v)"
  by (simp add: reads_def UInt32_decodeBinary_def UA_decode_encode32)

lemma reads_u64 [codec_simps]: "reads UInt64_decodeBinary v (UA_encode64 v)"
  by (simp add: reads_def UInt64_decodeBinary_def UA_decode_encode64)

lemmas int_reads = reads_byte[THEN readsD] reads_u16[THEN readsD] reads_u32[THEN readsD]
  reads_u64[THEN readsD]

interpretation u16_codec: codec "\<lambda>v. UInt16_encodeBinary v" UInt16_decodeBinary UA_encode16 "\<lambda>_. True"
  by unfold_locales (simp_all add: UInt16_encodeBinary_def codec_simps)

interpretation u32_codec: codec "\<lambda>v. UInt32_encodeBinary v" UInt32_decodeBinary UA_encode32 "\<lambda>_. True"
  by unfold_locales (simp_all add: UInt32_encodeBinary_def codec_simps)

interpretation u64_codec: codec "\<lambda>v. UInt64_encodeBinary v" UInt64_decodeBinary UA_encode64 "\<lambda>_. True"
  by unfold_locales (simp_all add: UInt64_encodeBinary_def codec_simps)

section \<open>Strings\<close>

definition ustring_ok :: "ustring \<Rightarrow> bool" where
  "ustring_ok s \<longleftrightarrow> length (ubytes s) \<le> 0x7FFFFFFF"

definition string_bytes :: "ustring \<Rightarrow> byte list" where
  "string_bytes s = UA_encode32 (array_length_field s) @ ubytes s"

lemma sint_of_nat_u32: "n \<le> 0x7FFFFFFF \<Longrightarrow> sint (of_nat n :: u32) = int n"
  by (simp add: sint_uint unsigned_of_nat take_bit_nat_eq_self signed_take_bit_int_eq_self)

lemma unat_of_nat_u32: "n \<le> 0x7FFFFFFF \<Longrightarrow> unat (of_nat n :: u32) = n"
  by (simp add: unat_of_nat take_bit_nat_eq_self)

lemma overlayable_fits:
  "elive c \<Longrightarrow> length (ebuf c) + length bs \<le> ecap c \<Longrightarrow>
   Array_encodeBinaryOverlayable fuel xb k bs c = Done (GOOD, c\<lparr>ebuf := ebuf c @ bs\<rparr>)"
  by (subst Array_encodeBinaryOverlayable.simps) simp

lemma writes_string [codec_simps]:
  "ustring_ok s \<Longrightarrow> writes (String_encodeBinary fuel xb s) (string_bytes s)"
  unfolding writes_def String_encodeBinary_def
  by (auto simp: ustring_ok_def string_bytes_def UInt32_encodeBinary_def put_def overlayable_fits)

lemma reads_string [codec_simps]:
  assumes "ustring_ok s" shows "reads String_decodeBinary s (string_bytes s)"
proof (cases s)
  case None
  then show ?thesis
    by (simp add: reads_def String_decodeBinary_def string_bytes_def array_length_field_def
        int_reads ubytes_def)
next
  case (Some bs)
  have "length bs \<le> 0x7FFFFFFF"
    using assms Some by (simp add: ustring_ok_def ubytes_def)
  then show ?thesis
    using Some
    by (auto simp: reads_def String_decodeBinary_def string_bytes_def array_length_field_def
        int_reads ubytes_def sint_of_nat_u32 unat_of_nat_u32 Let_def)
qed

interpretation string_codec: codec "\<lambda>s. String_encodeBinary fuel xb s" String_decodeBinary string_bytes ustring_ok
  by unfold_locales (simp_all add: codec_simps)


section \<open>GUIDs\<close>

lemma writes_guid [codec_simps]: "writes (Guid_encodeBinary g) (guid_bytes g)"
proof -
  have w: "writes (or_then (UInt32_encodeBinary (gdata1 g))
      (or_then (UInt16_encodeBinary (gdata2 g)) (UInt16_encodeBinary (gdata3 g))))
      (UA_encode32 (gdata1 g) @ UA_encode16 (gdata2 g) @ UA_encode16 (gdata3 g))"
    by (simp add: UInt32_encodeBinary_def UInt16_encodeBinary_def codec_simps)
  show ?thesis
    unfolding writes_def Guid_encodeBinary_def
  proof (intro allI impI)
    fix c :: "'a ectx"
    assume "elive c" "length (ebuf c) + length (guid_bytes g) \<le> ecap c"
    then show "bind (or_then (UInt32_encodeBinary (gdata1 g))
        (or_then (UInt16_encodeBinary (gdata2 g)) (UInt16_encodeBinary (gdata3 g))) c)
       (\<lambda>(rv, c'). bind (put (gdata4 g) c')
          (\<lambda>(rv2, c2). if rv2 = BADENCODINGLIMITSEXCEEDED then Done (rv2, c2) else Done (rv, c2)))
      = Done (GOOD, c\<lparr>ebuf := ebuf c @ guid_bytes g\<rparr>)"
      by (simp add: writesD[OF w] put_def guid_bytes_def)
  qed
qed

lemma reads_guid [codec_simps]: "guid_ok g \<Longrightarrow> reads Guid_decodeBinary g (guid_bytes g)"
  by (simp add: reads_def Guid_decodeBinary_def guid_bytes_def int_reads guid_ok_def)

interpretation guid_codec: codec "\<lambda>g. Guid_encodeBinary g" Guid_decodeBinary guid_bytes guid_ok
  by unfold_locales (simp_all add: codec_simps)

section \<open>Node identifiers\<close>

definition nodeid_ok :: "nodeid \<Rightarrow> bool" where
  "nodeid_ok n = (case ident n of
       Numeric i \<Rightarrow> True
     | StringId s \<Rightarrow> ustring_ok s
     | GuidId g \<Rightarrow> guid_ok g
     | ByteStringId s \<Rightarrow> ustring_ok s
     | BadIdType \<Rightarrow> False)"

text \<open>The encoding of a node identifier, with the flags \<open>m\<close> in its first byte.\<close>

definition nodeid_kind :: "nodeid \<Rightarrow> byte" where
  "nodeid_kind n = (case ident n of
       Numeric i \<Rightarrow> if i > 0xFFFF \<or> namespaceIndex n > 0xFF then 2
                    else if i > 0xFF \<or> namespaceIndex n > 0 then 1 else 0
     | StringId s \<Rightarrow> 3 | GuidId g \<Rightarrow> 4 | ByteStringId s \<Rightarrow> 5 | BadIdType \<Rightarrow> 0)"

definition nodeid_tail :: "nodeid \<Rightarrow> byte list" where
  "nodeid_tail n = (case ident n of
       Numeric i \<Rightarrow>
         if i > 0xFFFF \<or> namespaceIndex n > 0xFF then UA_encode16 (namespaceIndex n) @ UA_encode32 i
         else if i > 0xFF \<or> namespaceIndex n > 0 then
           [ucast (namespaceIndex n)] @ UA_encode16 (ucast i)
         else [ucast i]
     | StringId s \<Rightarrow> UA_encode16 (namespaceIndex n) @ string_bytes s
     | GuidId g \<Rightarrow> UA_encode16 (namespaceIndex n) @ guid_bytes g
     | ByteStringId s \<Rightarrow> UA_encode16 (namespaceIndex n) @ string_bytes s
     | BadIdType \<Rightarrow> [])"

definition nodeid_bytes :: "byte \<Rightarrow> nodeid \<Rightarrow> byte list" where
  "nodeid_bytes m n = [m OR nodeid_kind n] @ nodeid_tail n"

lemmas nodeid_bytes_defs = nodeid_bytes_def nodeid_kind_def nodeid_tail_def

lemma writes_nodeid_mask [codec_simps]:
  assumes "nodeid_ok n"
  shows "writes (NodeId_encodeBinaryWithEncodingMask fuel xb n m) (nodeid_bytes m n)"
proof (cases "ident n")
  case (Numeric i)
  then show ?thesis
    unfolding NodeId_encodeBinaryWithEncodingMask_def nodeid_bytes_defs Numeric nodeid_ident.case
    by (auto simp only: Byte_encodeBinary_def UInt16_encodeBinary_def UInt32_encodeBinary_def
        codec_simps split: if_splits intro!: writes_or_then writes_put)
next
  case BadIdType
  then show ?thesis using assms by (simp add: nodeid_ok_def)
qed (use assms in \<open>unfold NodeId_encodeBinaryWithEncodingMask_def nodeid_bytes_defs nodeid_ok_def,
    simp only: nodeid_ident.case,
    auto simp only: Byte_encodeBinary_def UInt16_encodeBinary_def nodeid_ident.case
      intro!: writes_or_then writes_put writes_string writes_guid\<close>)

lemma ucast_small:
  "(i :: u32) \<le> 0xFFFF \<Longrightarrow> ucast (ucast i :: u16) = i"
  "(i :: u32) \<le> 0xFF \<Longrightarrow> ucast (ucast i :: byte) = i"
  "(k :: u16) \<le> 0xFF \<Longrightarrow> ucast (ucast k :: byte) = k"
  by (simp_all add: word_le_nat_alt unsigned_ucast_eq unsigned_take_bit_eq take_bit_nat_eq_self
      word_unat_eq_iff)

lemma reads_nodeid [codec_simps]:
  assumes "nodeid_ok n" shows "reads NodeId_decodeBinary n (nodeid_bytes 0 n)"
  using assms
  by (cases n; cases "ident n")
     (auto simp: reads_def NodeId_decodeBinary_def nodeid_bytes_defs nodeid_ok_def int_reads
       not_less ucast_small reads_string[THEN readsD] reads_guid[THEN readsD])

lemma writes_nodeid [codec_simps]:
  "nodeid_ok n \<Longrightarrow> writes (NodeId_encodeBinary fuel xb n) (nodeid_bytes 0 n)"
  by (simp add: NodeId_encodeBinary_def writes_nodeid_mask)

interpretation nodeid_codec:
  codec "\<lambda>n. NodeId_encodeBinary fuel xb n" NodeId_decodeBinary "nodeid_bytes 0" nodeid_ok
  by unfold_locales (simp_all add: codec_simps)


section \<open>Expanded node identifiers and localized texts\<close>

definition expanded_ok :: "expandedNodeId \<Rightarrow> bool" where
  "expanded_ok e \<longleftrightarrow> nodeid_ok (enodeId e) \<and> ustring_ok (namespaceUri e) \<and>
     (if real_data (namespaceUri e) then namespaceIndex (enodeId e) = 0
      else namespaceUri e = None)"

definition expanded_bytes :: "expandedNodeId \<Rightarrow> byte list" where
  "expanded_bytes e =
     nodeid_bytes ((if real_data (namespaceUri e) then 0x80 else 0) OR
                   (if serverIndex e > 0 then 0x40 else 0)) (enodeId e) @
     (if real_data (namespaceUri e) then string_bytes (namespaceUri e) else []) @
     (if serverIndex e > 0 then UA_encode32 (serverIndex e) else [])"

lemma nodeid_kind_range: "nodeid_kind n \<in> {0, 1, 2, 3, 4, 5}"
  by (simp add: nodeid_kind_def split: nodeid_ident.split)

lemma nodeid_ns0 [simp]: "namespaceIndex n = 0 \<Longrightarrow> n\<lparr>namespaceIndex := 0\<rparr> = n"
  by (cases n) simp

lemma expanded_eta [simp]:
  "\<lparr> enodeId = enodeId e, namespaceUri = namespaceUri e, serverIndex = serverIndex e \<rparr> = e"
  by (cases e) simp

lemma writes_expanded [codec_simps]:
  assumes "expanded_ok e"
  shows "writes (ExpandedNodeId_encodeBinary fuel xb e) (expanded_bytes e)"
  using assms unfolding ExpandedNodeId_encodeBinary_def expanded_bytes_def Let_def expanded_ok_def
  by (intro writes_or_then writes_only_if)
     (simp_all add: codec_simps UInt32_encodeBinary_def)

lemma reads_expanded [codec_simps]:
  assumes "expanded_ok e" shows "reads ExpandedNodeId_decodeBinary e (expanded_bytes e)"
proof -
  have ok: "nodeid_ok (enodeId e)" "ustring_ok (namespaceUri e)"
    using assms by (simp_all add: expanded_ok_def)
  let ?k = "nodeid_kind (enodeId e)" and ?r = "nodeid_tail (enodeId e)"
  have dec: "NodeId_decodeBinary \<lparr> drest = ?k # ?r @ suf, dpast = 0 \<rparr> =
      (GOOD, enodeId e, \<lparr> drest = suf, dpast = 0 \<rparr>)" for suf
    using reads_nodeid[OF ok(1), THEN readsD, of suf] by (simp add: nodeid_bytes_def)
  have mask: "(m OR ?k) AND NOT 0xC0 = ?k" if "m \<in> {0, 0x40, 0x80, 0xC0}" for m :: byte
    using nodeid_kind_range[of "enodeId e"] that by auto
  have flag: "(m OR ?k) AND 0x80 = m AND 0x80" "(m OR ?k) AND 0x40 = m AND 0x40" for m :: byte
    using nodeid_kind_range[of "enodeId e"] by (auto simp: bit.conj_disj_distrib2)
  have eta: "\<lparr> enodeId = enodeId e, namespaceUri = u, serverIndex = x \<rparr> = e"
    if "u = namespaceUri e" "x = serverIndex e" for u x
    using that by simp
  show ?thesis
    using assms ok mask[of 0] mask[of "0x40"] mask[of "0x80"] mask[of "0xC0"]
    unfolding reads_def ExpandedNodeId_decodeBinary_def expanded_bytes_def expanded_ok_def nodeid_bytes_def
    by (auto simp: dec flag int_reads reads_string[THEN readsD] word_gt_0 eta)
qed

interpretation expanded_codec:
  codec "\<lambda>e. ExpandedNodeId_encodeBinary fuel xb e" ExpandedNodeId_decodeBinary expanded_bytes expanded_ok
  by unfold_locales (simp_all add: codec_simps)

definition loctext_bytes :: "ustring \<times> ustring \<Rightarrow> byte list" where
  "loctext_bytes lt =
     [(if fst lt \<noteq> None then 1 else 0) OR (if snd lt \<noteq> None then 2 else 0)] @
     (if fst lt \<noteq> None then string_bytes (fst lt) else []) @
     (if snd lt \<noteq> None then string_bytes (snd lt) else [])"

definition loctext_ok :: "ustring \<times> ustring \<Rightarrow> bool" where
  "loctext_ok lt \<longleftrightarrow> ustring_ok (fst lt) \<and> ustring_ok (snd lt)"

lemma writes_loctext [codec_simps]:
  assumes "loctext_ok lt"
  shows "writes (LocalizedText_encodeBinary fuel xb (fst lt) (snd lt)) (loctext_bytes lt)"
proof -
  let ?m = "((if fst lt \<noteq> None then 1 else 0) OR (if snd lt \<noteq> None then 2 else 0)) :: byte"
  have "(?m AND 1 \<noteq> 0) = (fst lt \<noteq> None)" "(?m AND 2 \<noteq> 0) = (snd lt \<noteq> None)"
    by auto
  then show ?thesis
    using assms
    unfolding LocalizedText_encodeBinary_def loctext_bytes_def Let_def loctext_ok_def
    by (intro writes_or_then) (auto intro!: writes_only_if simp: codec_simps Byte_encodeBinary_def
        simp del: if_split)
qed

lemma reads_loctext [codec_simps]:
  "loctext_ok lt \<Longrightarrow> reads LocalizedText_decodeBinary lt (loctext_bytes lt)"
  by (cases lt) (auto simp: reads_def LocalizedText_decodeBinary_def loctext_bytes_def loctext_ok_def
      reads_string[THEN readsD])

interpretation loctext_codec:
  codec "\<lambda>lt. LocalizedText_encodeBinary fuel xb (fst lt) (snd lt)" LocalizedText_decodeBinary
    loctext_bytes loctext_ok
  by unfold_locales (simp_all add: codec_simps)

end
