(* ===== verification/BinCodec.thy ===== *)
theory BinCodec
  imports BinLaws
begin

text \<open>
  The generic, descriptor-driven part of the binary encoding (\<open>ua_types_encoding_binary.c\<close>):
  structures, arrays, extension objects, variants, data values and diagnostic infos, the jump
  tables, and the entry points \<open>UA_encodeBinary\<close>, \<open>UA_decodeBinary\<close> and \<open>UA_calcSizeBinary\<close>.

  A \<open>uval\<close> is the content of a C object of some type.  The type tables \<open>UA_TYPES\<close> and the table
  that a structure type belongs to are parameters; a \<open>UA_DataType\<close> pointer inside an extension
  object or a variant is an index into \<open>UA_TYPES\<close>.  A descriptor and a value that do not fit
  together would make the C code read foreign memory, which is \<open>Undefined\<close>.  Memory allocation
  succeeds.  Nested calls are bounded by one fuel, exchanged buffers by another.
\<close>

section \<open>Types and values\<close>

text \<open>The builtin types in the order of \<open>UA_TYPES\<close>.\<close>

datatype bt =
    KBoolean | KSByte | KByte | KInt16 | KUInt16 | KInt32 | KUInt32 | KInt64 | KUInt64
  | KFloat | KDouble | KString | KDateTime | KGuid | KByteString | KXmlElement | KNodeId
  | KExpandedNodeId | KStatusCode | KQualifiedName | KLocalizedText | KExtensionObject
  | KDataValue | KVariant | KDiagnosticInfo

fun bt_index :: "bt \<Rightarrow> nat" where
  "bt_index KBoolean = 0" | "bt_index KSByte = 1" | "bt_index KByte = 2" | "bt_index KInt16 = 3"
| "bt_index KUInt16 = 4" | "bt_index KInt32 = 5" | "bt_index KUInt32 = 6" | "bt_index KInt64 = 7"
| "bt_index KUInt64 = 8" | "bt_index KFloat = 9" | "bt_index KDouble = 10" | "bt_index KString = 11"
| "bt_index KDateTime = 12" | "bt_index KGuid = 13" | "bt_index KByteString = 14"
| "bt_index KXmlElement = 15" | "bt_index KNodeId = 16" | "bt_index KExpandedNodeId = 17"
| "bt_index KStatusCode = 18" | "bt_index KQualifiedName = 19" | "bt_index KLocalizedText = 20"
| "bt_index KExtensionObject = 21" | "bt_index KDataValue = 22" | "bt_index KVariant = 23"
| "bt_index KDiagnosticInfo = 24"

record member =
  memberTypeIndex :: nat
  namespaceZero :: bool
  isArray :: bool

text \<open>\<open>builtin\<close> joins the fields \<open>builtin\<close> and \<open>typeIndex\<close>: the jump-table index of a builtin type.\<close>

record udesc =
  typeId :: nodeid
  builtin :: "bt option"
  memSize :: nat
  overlayable :: bool
  binaryEncodingId :: u32
  members :: "member list"

type_synonym types = "udesc list"

datatype uval =
    VB byte | V16 u16 | V32 u32 | V64 u64
  | VStr ustring | VGuid guid | VNode nodeid | VExp expandedNodeId | VLoc ustring ustring
  | VExtEnc byte nodeid ustring
  | VExtNull
  | VExtDec nat uval
  | VVarEmpty
  | VVarScalar nat uval
  | VVarArray nat "uval list option" "u32 list"
  | VDataValue "uval option" "u32 option" "u64 option" "u16 option" "u64 option" "u16 option"
  | VDiag "u32 option" "u32 option" "u32 option" "u32 option" "ustring option" "u32 option" "uval option"
  | VStruct "uval list"
  | VArray "uval list option"

definition type_at :: "types \<Rightarrow> nat \<Rightarrow> udesc option" where
  "type_at T i = (if i < length T then Some (T ! i) else None)"

text \<open>\<open>&typelists[!member->namespaceZero][member->memberTypeIndex]\<close>, with the table it lies in.\<close>

definition member_type :: "types \<Rightarrow> types \<Rightarrow> member \<Rightarrow> (types \<times> udesc) option" where
  "member_type T own m =
     (let tab = (if namespaceZero m then T else own)
      in map_option (\<lambda>d. (tab, d)) (type_at tab (memberTypeIndex m)))"

fun find_type :: "(udesc \<Rightarrow> bool) \<Rightarrow> types \<Rightarrow> nat option" where
  "find_type p [] = None"
| "find_type p (d # ds) = (if p d then Some 0 else map_option Suc (find_type p ds))"

text \<open>The namespace of the identifier is not compared.\<close>

definition findDataTypeByBinary :: "types \<Rightarrow> u32 \<Rightarrow> nat option" where
  "findDataTypeByBinary T i = find_type (\<lambda>d. binaryEncodingId d = i) T"

definition is_numeric :: "nodeid \<Rightarrow> bool" where
  "is_numeric n = (case ident n of Numeric i \<Rightarrow> True | _ \<Rightarrow> False)"

definition numeric_of :: "nodeid \<Rightarrow> u32" where
  "numeric_of n = (case ident n of Numeric i \<Rightarrow> i | _ \<Rightarrow> 0)"

text \<open>The identifier under which a structure's binary encoding is announced.\<close>

definition encoding_id :: "udesc \<Rightarrow> nodeid" where
  "encoding_id d = (typeId d)\<lparr>ident := Numeric (binaryEncodingId d)\<rparr>"

text \<open>The memory of a value of an overlayable type, which has no padding.\<close>

fun raw :: "uval \<Rightarrow> byte list" where
  "raw (VB b) = [b]"
| "raw (V16 w) = UA_encode16 w"
| "raw (V32 w) = UA_encode32 w"
| "raw (V64 w) = UA_encode64 w"
| "raw (VGuid g) = guid_bytes g"
| "raw (VStruct vs) = concat (map raw vs)"
| "raw _ = []"

text \<open>The values that an object of a builtin type can hold, which selects the jump-table entry.\<close>

fun fits :: "bt \<Rightarrow> uval \<Rightarrow> bool" where
  "fits k (VB b) = (k \<in> {KBoolean, KSByte, KByte})"
| "fits k (V16 w) = (k \<in> {KInt16, KUInt16})"
| "fits k (V32 w) = (k \<in> {KInt32, KUInt32, KFloat, KStatusCode})"
| "fits k (V64 w) = (k \<in> {KInt64, KUInt64, KDouble, KDateTime})"
| "fits k (VStr s) = (k \<in> {KString, KByteString, KXmlElement})"
| "fits k (VGuid g) = (k = KGuid)"
| "fits k (VNode i) = (k = KNodeId)"
| "fits k (VExp e) = (k = KExpandedNodeId)"
| "fits k (VLoc l t) = (k = KLocalizedText)"
| "fits k (VExtEnc e i b) = (k = KExtensionObject \<and> e \<le> 2)"
| "fits k VExtNull = (k = KExtensionObject)"
| "fits k (VExtDec i w) = (k = KExtensionObject)"
| "fits k VVarEmpty = (k = KVariant)"
| "fits k (VVarScalar i w) = (k = KVariant)"
| "fits k (VVarArray i ws dims) = (k = KVariant)"
| "fits k (VDataValue a b c d e f) = (k = KDataValue)"
| "fits k (VDiag a b c d e f g) = (k = KDiagnosticInfo)"
| "fits k (VStruct vs) = (k = KQualifiedName)"
| "fits k (VArray ws) = False"

section \<open>Sizes\<close>

definition String_calcSizeBinary :: "ustring \<Rightarrow> nat" where
  "String_calcSizeBinary s = 4 + length (ubytes s)"

definition NodeId_calcSizeBinary :: "nodeid \<Rightarrow> nat" where
  "NodeId_calcSizeBinary src = (case ident src of
       Numeric i \<Rightarrow>
         if i > 0xFFFF \<or> namespaceIndex src > 0xFF then 7
         else if i > 0xFF \<or> namespaceIndex src > 0 then 4 else 2
     | StringId s \<Rightarrow> 3 + String_calcSizeBinary s
     | ByteStringId s \<Rightarrow> 3 + String_calcSizeBinary s
     | GuidId g \<Rightarrow> 19
     | BadIdType \<Rightarrow> 0)"

definition ExpandedNodeId_calcSizeBinary :: "expandedNodeId \<Rightarrow> nat" where
  "ExpandedNodeId_calcSizeBinary src =
     NodeId_calcSizeBinary (enodeId src) +
     (if length (ubytes (namespaceUri src)) > 0 then String_calcSizeBinary (namespaceUri src) else 0) +
     (if serverIndex src > 0 then 4 else 0)"

definition LocalizedText_calcSizeBinary :: "ustring \<Rightarrow> ustring \<Rightarrow> nat" where
  "LocalizedText_calcSizeBinary loc txt =
     1 + (if loc \<noteq> None then String_calcSizeBinary loc else 0) +
     (if txt \<noteq> None then String_calcSizeBinary txt else 0)"

fun sum_outcome :: "('a \<Rightarrow> nat outcome) \<Rightarrow> 'a list \<Rightarrow> nat outcome" where
  "sum_outcome f [] = Done 0"
| "sum_outcome f (x # xs) = bind (f x) (\<lambda>a. bind (sum_outcome f xs) (\<lambda>b. Done (a + b)))"

definition Array_calcSizeBinary :: "(uval \<Rightarrow> nat outcome) \<Rightarrow> udesc \<Rightarrow> uval list \<Rightarrow> nat outcome" where
  "Array_calcSizeBinary f d vs =
     (if overlayable d then Done (4 + memSize d * length vs)
      else bind (sum_outcome f vs) (\<lambda>s. Done (4 + s)))"

definition elems :: "'a list option \<Rightarrow> 'a list" where
  "elems vs = (case vs of None \<Rightarrow> [] | Some xs \<Rightarrow> xs)"

lemma elems_simps [simp]: "elems None = []" "elems (Some xs) = xs"
  by (simp_all add: elems_def)

definition opt_size :: "nat \<Rightarrow> 'a option \<Rightarrow> nat" where
  "opt_size k x = (if x = None then 0 else k)"

text \<open>\<open>calcSizeBinaryJumpTable[index](p, type)\<close>, and at the last index \<open>UA_calcSizeBinary\<close>.\<close>

fun calcSize :: "types \<Rightarrow> nat \<Rightarrow> types \<Rightarrow> udesc \<Rightarrow> uval \<Rightarrow> nat outcome" where
  "calcSize T 0 own d v = OutOfFuel"
| "calcSize T (Suc n) own d v =
     (let internal = (\<lambda>vs. if length vs \<noteq> length (members d) then Undefined else sum_outcome (\<lambda>(m, w). case member_type T own m of
            None \<Rightarrow> Undefined
          | Some (tab, d') \<Rightarrow>
              if isArray m then
                (case w of VArray ws \<Rightarrow> Array_calcSizeBinary (calcSize T n tab d') d' (elems ws)
                         | _ \<Rightarrow> Undefined)
              else calcSize T n tab d' w)
          (zip (members d) vs));
          wrapped = (\<lambda>i w. case type_at T i of
            None \<Rightarrow> Undefined
          | Some d' \<Rightarrow> bind (calcSize T n T d' w) (\<lambda>s. Done
              ((if builtin d' = None then NodeId_calcSizeBinary (typeId d') + 1 + 4 else 0) + s)))
      in case builtin d of
        None \<Rightarrow> (case v of VStruct vs \<Rightarrow> internal vs | _ \<Rightarrow> Undefined)
      | Some k \<Rightarrow> if \<not> fits k v then Undefined else (case v of
          VB b \<Rightarrow> Done (memSize d)
        | V16 w \<Rightarrow> Done (memSize d)
        | V32 w \<Rightarrow> Done (memSize d)
        | V64 w \<Rightarrow> Done (memSize d)
        | VStr s \<Rightarrow> Done (String_calcSizeBinary s)
        | VGuid g \<Rightarrow> Done 16
        | VNode i \<Rightarrow> Done (NodeId_calcSizeBinary i)
        | VExp e \<Rightarrow> Done (ExpandedNodeId_calcSizeBinary e)
        | VLoc l t \<Rightarrow> Done (LocalizedText_calcSizeBinary l t)
        | VExtNull \<Rightarrow> Done 0
        | VExtEnc e i body \<Rightarrow> Done (1 + NodeId_calcSizeBinary i +
            (if e = 0 then 0 else String_calcSizeBinary body))
        | VExtDec i w \<Rightarrow> (case type_at T i of
            None \<Rightarrow> Undefined
          | Some d' \<Rightarrow> if \<not> is_numeric (typeId d') then Done 0
              else bind (calcSize T n T d' w)
                (\<lambda>s. Done (1 + NodeId_calcSizeBinary (typeId d') + 4 + s)))
        | VVarEmpty \<Rightarrow> Done 1
        | VVarScalar i w \<Rightarrow> (case type_at T i of
            None \<Rightarrow> Undefined
          | Some d' \<Rightarrow> if builtin d' = None \<and> \<not> is_numeric (typeId d') then Done 0
              else bind (wrapped i w) (\<lambda>s. Done (1 + s)))
        | VVarArray i ws dims \<Rightarrow> (case type_at T i of
            None \<Rightarrow> Undefined
          | Some d' \<Rightarrow> if builtin d' = None \<and> \<not> is_numeric (typeId d') then Done 0
              else bind (sum_outcome (wrapped i) (elems ws)) (\<lambda>s. Done
                (1 + 4 + s + (if dims \<noteq> [] then 4 + 4 * length dims else 0))))
        | VDataValue val st sts sps svts svps \<Rightarrow>
            bind (case val of None \<Rightarrow> Done 0
                  | Some w \<Rightarrow> (case type_at T 23 of None \<Rightarrow> Undefined | Some dv \<Rightarrow> calcSize T n T dv w))
              (\<lambda>s. Done (1 + s + opt_size 4 st + opt_size 8 sts + opt_size 2 sps + opt_size 8 svts
                   + opt_size 2 svps))
        | VDiag sid nsu lt loc info st inner \<Rightarrow>
            bind (case inner of None \<Rightarrow> Done 0 | Some w \<Rightarrow> calcSize T n own d w)
              (\<lambda>s. Done (1 + opt_size 4 sid + opt_size 4 nsu + opt_size 4 lt + opt_size 4 loc +
                   (case info of None \<Rightarrow> 0 | Some t \<Rightarrow> String_calcSizeBinary t) + opt_size 4 st + s))
        | VStruct vs \<Rightarrow> internal vs
        | VArray ws \<Rightarrow> Undefined))"


section \<open>Encoding\<close>

text \<open>
  The loop over the elements: when an element does not fit, \<open>pos\<close> goes back to its start, the
  buffer is exchanged and the same element is encoded again.
\<close>

fun Array_encodeBinaryComplex ::
  "nat \<Rightarrow> 's exchange \<Rightarrow> (uval \<Rightarrow> 's enc) \<Rightarrow> uval list \<Rightarrow> 's enc" where
  "Array_encodeBinaryComplex fuel xb f [] c = Done (GOOD, c)"
| "Array_encodeBinaryComplex fuel xb f (v # vs) c =
     bind (f v c) (\<lambda>(rv, c').
       if rv = GOOD then Array_encodeBinaryComplex fuel xb f vs c'
       else if rv = BADENCODINGLIMITSEXCEEDED then
         (case fuel of
            0 \<Rightarrow> OutOfFuel
          | Suc m \<Rightarrow> bind (rewind c c') (\<lambda>c2.
              let (rv2, c3) = exchangeBuffer xb c2
              in if rv2 = GOOD then Array_encodeBinaryComplex m xb f (v # vs) c3 else Done (rv2, c3)))
       else Done (rv, c'))"

definition Array_encodeBinary ::
  "nat \<Rightarrow> 's exchange \<Rightarrow> (uval \<Rightarrow> 's enc) \<Rightarrow> udesc \<Rightarrow> uval list option \<Rightarrow> 's enc" where
  "Array_encodeBinary fuel xb f d vs c =
     (if length (elems vs) > 0x7FFFFFFF then Done (BADINTERNALERROR, c)
      else bind (UInt32_encodeBinary (array_length_field vs) c)
        (\<lambda>(rv, c'). if rv \<noteq> GOOD \<or> length (elems vs) = 0 then Done (rv, c')
           else if \<not> overlayable d then Array_encodeBinaryComplex fuel xb f (elems vs) c'
           else Array_encodeBinaryOverlayable fuel xb (memSize d) (concat (map raw (elems vs))) c'))"

text \<open>The array of 32-bit dimensions of a variant; no dimensions is a null pointer.\<close>

definition dims_option :: "u32 list \<Rightarrow> uval list option" where
  "dims_option ds = (if ds = [] then None else Some (map V32 ds))"

text \<open>
  \<open>e\<close> encodes a value of a type through the jump table and \<open>sz\<close> computes its length.
\<close>

definition ExtensionObject_encodeBinary ::
  "types \<Rightarrow> nat \<Rightarrow> 's exchange \<Rightarrow> (udesc \<Rightarrow> uval \<Rightarrow> 's enc) \<Rightarrow> (udesc \<Rightarrow> uval \<Rightarrow> nat outcome) \<Rightarrow>
   uval \<Rightarrow> 's enc" where
  "ExtensionObject_encodeBinary T fuel xb e sz v c = (case v of
       VExtEnc encoding i body \<Rightarrow>
         or_then (NodeId_encodeBinary fuel xb i)
           (or_then (Byte_encodeBinary encoding)
              (only_if (encoding \<noteq> 0) (String_encodeBinary fuel xb body))) c
     | VExtNull \<Rightarrow> Done (BADENCODINGERROR, c)
     | VExtDec i w \<Rightarrow> (case type_at T i of
           None \<Rightarrow> Undefined
         | Some d \<Rightarrow>
             if \<not> is_numeric (typeId d) then Done (BADENCODINGERROR, c)
             else bind (or_then (NodeId_encodeBinary fuel xb (encoding_id d)) (Byte_encodeBinary 1) c)
               (\<lambda>(rv, c1). bind (sz d w) (\<lambda>len.
                  if len > 0x7FFFFFFF then Done (BADENCODINGERROR, c1)
                  else bind (or_then (UInt32_encodeBinary (of_nat len)) (e d w) c1)
                    (\<lambda>(rv2, c2). Done (rv OR rv2, c2)))))
     | _ \<Rightarrow> Undefined)"

definition Variant_encodeBinaryWrapExtensionObject ::
  "nat \<Rightarrow> 's exchange \<Rightarrow> (uval \<Rightarrow> 's enc) \<Rightarrow> nat \<Rightarrow> bool \<Rightarrow> uval list \<Rightarrow> 's enc" where
  "Variant_encodeBinaryWrapExtensionObject fuel xb ext i isArr vs c =
     (if isArr \<and> length vs > 0x7FFFFFFF then Done (BADENCODINGERROR, c)
      else bind (only_if isArr (UInt32_encodeBinary (of_nat (length vs))) c)
        (\<lambda>(rv, c'). if rv \<noteq> GOOD then Done (rv, c')
           else Array_encodeBinaryComplex fuel xb ext (map (VExtDec i) vs) c'))"

definition Variant_encodeBinary ::
  "types \<Rightarrow> nat \<Rightarrow> 's exchange \<Rightarrow> (udesc \<Rightarrow> uval \<Rightarrow> 's enc) \<Rightarrow> (uval \<Rightarrow> 's enc) \<Rightarrow> uval \<Rightarrow> 's enc" where
  "Variant_encodeBinary T fuel xb e ext v = (case v of
       VVarEmpty \<Rightarrow> Byte_encodeBinary 0
     | VVarScalar i w \<Rightarrow> (\<lambda>c. case type_at T i of
           None \<Rightarrow> Undefined
         | Some d \<Rightarrow> (case builtin d of
             None \<Rightarrow> or_then (Byte_encodeBinary (0x3F AND 22))
               (Variant_encodeBinaryWrapExtensionObject fuel xb ext i False [w]) c
           | Some k \<Rightarrow> or_then (Byte_encodeBinary (0x3F AND of_nat (bt_index k + 1))) (e d w) c))
     | VVarArray i ws dims \<Rightarrow> (\<lambda>c. case type_at T i of
           None \<Rightarrow> Undefined
         | Some d \<Rightarrow>
             (let mask = (if dims \<noteq> [] then 0x80 OR 0x40 else 0x80);
                  content = (case builtin d of
                      None \<Rightarrow> or_then (Byte_encodeBinary ((0x3F AND 22) OR mask))
                        (Variant_encodeBinaryWrapExtensionObject fuel xb ext i True (elems ws))
                    | Some k \<Rightarrow> or_then (Byte_encodeBinary ((0x3F AND of_nat (bt_index k + 1)) OR mask))
                        (Array_encodeBinary fuel xb (e d) d ws))
              in or_then content
                   (only_if (dims \<noteq> []) (case type_at T 5 of
                       None \<Rightarrow> (\<lambda>c. Undefined)
                     | Some int32 \<Rightarrow> Array_encodeBinary fuel xb (e int32) int32 (dims_option dims))) c))
     | _ \<Rightarrow> (\<lambda>c. Undefined))"

definition bit_if :: "'a option \<Rightarrow> byte \<Rightarrow> byte" where
  "bit_if x m = (if x = None then 0 else m)"

definition opt_enc :: "('a \<Rightarrow> 's enc) \<Rightarrow> 'a option \<Rightarrow> 's enc" where
  "opt_enc f x = (case x of None \<Rightarrow> skip | Some a \<Rightarrow> f a)"

definition DataValue_encodeBinary :: "(uval \<Rightarrow> 's enc) \<Rightarrow> uval \<Rightarrow> 's enc" where
  "DataValue_encodeBinary var v = (case v of
       VDataValue val st sts sps svts svps \<Rightarrow>
         or_then (Byte_encodeBinary (bit_if val 1 OR bit_if st 2 OR bit_if sts 4 OR bit_if svts 8
                    OR bit_if sps 16 OR bit_if svps 32))
         (or_then (opt_enc var val)
         (or_then (opt_enc UInt32_encodeBinary st)
         (or_then (opt_enc UInt64_encodeBinary sts)
         (or_then (opt_enc UInt16_encodeBinary sps)
         (or_then (opt_enc UInt64_encodeBinary svts)
                  (opt_enc UInt16_encodeBinary svps))))))
     | _ \<Rightarrow> (\<lambda>c. Undefined))"

text \<open>The mask has no bit for the inner status code and announces the inner info with bit 5.\<close>

definition DiagnosticInfo_encodeBinary ::
  "nat \<Rightarrow> 's exchange \<Rightarrow> (uval \<Rightarrow> 's enc) \<Rightarrow> uval \<Rightarrow> 's enc" where
  "DiagnosticInfo_encodeBinary fuel xb diag v = (case v of
       VDiag sid nsu lt loc info st inner \<Rightarrow>
         or_then (Byte_encodeBinary (bit_if sid 1 OR bit_if nsu 2 OR bit_if lt 4 OR bit_if loc 8
                    OR bit_if info 16 OR bit_if inner 32))
         (or_then (opt_enc UInt32_encodeBinary sid)
         (or_then (opt_enc UInt32_encodeBinary nsu)
         (or_then (opt_enc UInt32_encodeBinary lt)
         (or_then (opt_enc UInt32_encodeBinary loc)
         (or_then (opt_enc (String_encodeBinary fuel xb) info)
         (or_then (opt_enc UInt32_encodeBinary st)
                  (opt_enc diag inner)))))))
     | _ \<Rightarrow> (\<lambda>c. Undefined))"

text \<open>
  The members of a structure, one after the other while \<open>retval\<close> is good; a member that does not
  fit is encoded again after an exchange, but an array is not.
\<close>

fun encode_members ::
  "nat \<Rightarrow> 's exchange \<Rightarrow> (member \<Rightarrow> uval \<Rightarrow> 's enc) \<Rightarrow> member list \<Rightarrow> uval list \<Rightarrow> 's enc" where
  "encode_members fuel xb f [] [] c = Done (GOOD, c)"
| "encode_members fuel xb f (m # ms) (v # vs) c =
     bind (f m v c) (\<lambda>(rv, c').
       if rv = GOOD then encode_members fuel xb f ms vs c'
       else if rv = BADENCODINGLIMITSEXCEEDED \<and> \<not> isArray m then
         (case fuel of
            0 \<Rightarrow> OutOfFuel
          | Suc k \<Rightarrow> bind (rewind c c') (\<lambda>c2.
              let (rv2, c3) = exchangeBuffer xb c2
              in if rv2 = GOOD then encode_members k xb f (m # ms) (v # vs) c3 else Done (rv2, c3)))
       else Done (rv, c'))"
| "encode_members fuel xb f _ _ c = Undefined"

text \<open>
  \<open>encodeBinaryJumpTable[index](src, type)\<close>, whose last entry is \<open>UA_encodeBinaryInternal\<close>.
\<close>

definition encode_member ::
  "types \<Rightarrow> nat \<Rightarrow> 's exchange \<Rightarrow> (types \<Rightarrow> udesc \<Rightarrow> uval \<Rightarrow> 's enc) \<Rightarrow> types \<Rightarrow> member \<Rightarrow> uval \<Rightarrow> 's enc"
where
  "encode_member T fuel xb e own m w = (case member_type T own m of
       None \<Rightarrow> (\<lambda>c. Undefined)
     | Some (tab, d') \<Rightarrow>
         if isArray m then
           (case w of VArray ws \<Rightarrow> Array_encodeBinary fuel xb (e tab d') d' ws | _ \<Rightarrow> (\<lambda>c. Undefined))
         else e tab d' w)"

fun encode_jump ::
  "types \<Rightarrow> nat \<Rightarrow> 's exchange \<Rightarrow> nat \<Rightarrow> types \<Rightarrow> udesc \<Rightarrow> uval \<Rightarrow> 's enc" where
  "encode_jump T fuel xb 0 own d v c = OutOfFuel"
| "encode_jump T fuel xb (Suc n) own d v c =
     (let e = encode_jump T fuel xb n;
          internal = (\<lambda>vs. encode_members fuel xb (encode_member T fuel xb e own) (members d) vs);
          ext = ExtensionObject_encodeBinary T fuel xb (e T) (calcSize T n T)
      in case builtin d of
           None \<Rightarrow> (case v of VStruct vs \<Rightarrow> internal vs c | _ \<Rightarrow> Undefined)
         | Some k \<Rightarrow> if \<not> fits k v then Undefined else (case v of
             VB b \<Rightarrow> Byte_encodeBinary b c
           | V16 w \<Rightarrow> UInt16_encodeBinary w c
           | V32 w \<Rightarrow> UInt32_encodeBinary w c
           | V64 w \<Rightarrow> UInt64_encodeBinary w c
           | VStr s \<Rightarrow> String_encodeBinary fuel xb s c
           | VGuid g \<Rightarrow> Guid_encodeBinary g c
           | VNode i \<Rightarrow> NodeId_encodeBinary fuel xb i c
           | VExp x \<Rightarrow> ExpandedNodeId_encodeBinary fuel xb x c
           | VLoc l t \<Rightarrow> LocalizedText_encodeBinary fuel xb l t c
           | VExtEnc a i b \<Rightarrow> ext v c
           | VExtNull \<Rightarrow> ext v c
           | VExtDec i w \<Rightarrow> ext v c
           | VVarEmpty \<Rightarrow> Variant_encodeBinary T fuel xb (e T) ext v c
           | VVarScalar i w \<Rightarrow> Variant_encodeBinary T fuel xb (e T) ext v c
           | VVarArray i ws dims \<Rightarrow> Variant_encodeBinary T fuel xb (e T) ext v c
           | VDataValue a1 a2 a3 a4 a5 a6 \<Rightarrow> (case type_at T 23 of
                 None \<Rightarrow> Undefined
               | Some dv \<Rightarrow> DataValue_encodeBinary (e T dv) v c)
           | VDiag a1 a2 a3 a4 a5 a6 a7 \<Rightarrow> DiagnosticInfo_encodeBinary fuel xb (e own d) v c
           | VStruct vs \<Rightarrow> internal vs c
           | VArray ws \<Rightarrow> Undefined))"

definition UA_encodeBinaryInternal ::
  "types \<Rightarrow> nat \<Rightarrow> 's exchange \<Rightarrow> nat \<Rightarrow> types \<Rightarrow> udesc \<Rightarrow> uval list \<Rightarrow> 's enc" where
  "UA_encodeBinaryInternal T fuel xb n own d vs =
     encode_members fuel xb (encode_member T fuel xb (encode_jump T fuel xb n) own) (members d) vs"

text \<open>
  The entry point: a buffer of \<open>room\<close> bytes whose first bytes \<open>written\<close> are in use.  The value of
  a builtin type is the only member of its descriptor.
\<close>

definition UA_encodeBinary ::
  "types \<Rightarrow> nat \<Rightarrow> 's exchange \<Rightarrow> nat \<Rightarrow> types \<Rightarrow> udesc \<Rightarrow> uval \<Rightarrow> byte list \<Rightarrow> nat \<Rightarrow> 's \<Rightarrow>
   (status \<times> 's ectx) outcome" where
  "UA_encodeBinary T fuel xb n own d v written room s =
     UA_encodeBinaryInternal T fuel xb n own d
       (case v of VStruct vs \<Rightarrow> vs | _ \<Rightarrow> [v])
       \<lparr> ebuf = written, ecap = room, egen = 0, elive = True, ecb = s \<rparr>"


section \<open>Decoding\<close>

type_synonym vdec = "dctx \<Rightarrow> (status \<times> uval \<times> dctx) outcome"

fun decode_elems :: "vdec \<Rightarrow> nat \<Rightarrow> dctx \<Rightarrow> (status \<times> uval list \<times> dctx) outcome" where
  "decode_elems f 0 d = Done (GOOD, [], d)"
| "decode_elems f (Suc n) d =
     bind (f d) (\<lambda>(rv, v, d1).
       if rv \<noteq> GOOD then Done (rv, [], d1)
       else bind (decode_elems f n d1) (\<lambda>(rv2, vs, d2). Done (rv2, v # vs, d2)))"

text \<open>
  \<open>f\<close> decodes one element; for an overlayable type, whose elements are copied as they lie in the
  message, \<open>g\<close> reads one element's memory.
\<close>

definition Array_decodeBinary ::
  "vdec \<Rightarrow> vdec \<Rightarrow> udesc \<Rightarrow> dctx \<Rightarrow> (status \<times> uval list option \<times> dctx) outcome" where
  "Array_decodeBinary f g t d =
     (let (rv, signed_length, d1) = UInt32_decodeBinary d
      in if rv \<noteq> GOOD then Done (rv, None, d1)
         else if sint signed_length \<le> 0
         then Done (GOOD, (if sint signed_length < 0 then None else Some []), d1)
         else let n = unat signed_length
           in if memSize t * n div 32 > length (drest d1) then Done (BADDECODINGERROR, None, d1)
              else if overlayable t then
                (if length (drest d1) < memSize t * n then Done (BADDECODINGERROR, None, d1)
                 else bind (decode_elems g n d1) (\<lambda>(rv2, vs, d2). Done (GOOD, Some vs, d2)))
              else bind (decode_elems f n d1) (\<lambda>(rv2, vs, d2).
                Done (rv2, (if rv2 = GOOD then Some vs else None), d2)))"

definition dec_of :: "('a \<Rightarrow> uval) \<Rightarrow> 'a dec \<Rightarrow> vdec" where
  "dec_of con f d = (case f d of (rv, a, d') \<Rightarrow> Done (rv, con a, d'))"

definition opt_dec :: "bool \<Rightarrow> 'a dec \<Rightarrow> 'a option dec" where
  "opt_dec b f d = (if b then (case f d of (rv, a, d') \<Rightarrow> (rv, Some a, d')) else (GOOD, None, d))"

definition opt_vdec :: "bool \<Rightarrow> vdec \<Rightarrow> dctx \<Rightarrow> (status \<times> uval option \<times> dctx) outcome" where
  "opt_vdec b f d =
     (if b then bind (f d) (\<lambda>(rv, a, d'). Done (rv, Some a, d')) else Done (GOOD, None, d))"

text \<open>\<open>e\<close> decodes a value of a type through the jump table.\<close>

definition ExtensionObject_decodeBinaryContent ::
  "types \<Rightarrow> (udesc \<Rightarrow> vdec) \<Rightarrow> nodeid \<Rightarrow> vdec" where
  "ExtensionObject_decodeBinaryContent T e i d = (case findDataTypeByBinary T (numeric_of i) of
       None \<Rightarrow> (case String_decodeBinary d of (rv, body, d') \<Rightarrow> Done (rv, VExtEnc 1 i body, d'))
     | Some k \<Rightarrow> bind (e (T ! k) (jump 4 d)) (\<lambda>(rv, w, d'). Done (rv, VExtDec k w, d')))"

definition ExtensionObject_decodeBinary :: "types \<Rightarrow> (udesc \<Rightarrow> vdec) \<Rightarrow> vdec" where
  "ExtensionObject_decodeBinary T e d0 =
     (let (r1, i, d1) = NodeId_decodeBinary d0;
          (r2, encoding, d) = Byte_decodeBinary d1;
          rv = (if \<not> is_numeric i then BADDECODINGERROR else r1 OR r2)
      in if rv \<noteq> GOOD then Done (rv, VExtNull, d)
         else if encoding = 1 then ExtensionObject_decodeBinaryContent T e i d
         else if encoding = 0 then Done (GOOD, VExtEnc 0 i None, d)
         else if encoding = 2 then
           (case String_decodeBinary d of (rv2, body, d') \<Rightarrow> Done (rv2, VExtEnc 2 i body, d'))
         else Done (BADDECODINGERROR, VExtNull, d))"

definition Variant_decodeBinaryUnwrapExtensionObject :: "types \<Rightarrow> (udesc \<Rightarrow> vdec) \<Rightarrow> vdec" where
  "Variant_decodeBinaryUnwrapExtensionObject T e d0 =
     (let (rv, i, d1) = NodeId_decodeBinary d0
      in if rv \<noteq> GOOD then Done (rv, VVarEmpty, d1)
         else let (rv2, encoding, d2) = Byte_decodeBinary d1
           in if rv2 \<noteq> GOOD then Done (rv2, VVarEmpty, d2)
              else case (if encoding = 1 \<and> is_numeric i \<and> namespaceIndex i = 0
                         then findDataTypeByBinary T (numeric_of i) else None) of
                     Some k \<Rightarrow> bind (e (T ! k) (jump 4 d2)) (\<lambda>(r, w, d'). Done (r, VVarScalar k w, d'))
                   | None \<Rightarrow> (case type_at T 21 of
                       None \<Rightarrow> Undefined
                     | Some x \<Rightarrow> bind (e x d0) (\<lambda>(r, w, d'). Done (r, VVarScalar 21 w, d'))))"

fun u32_of :: "uval \<Rightarrow> u32" where
  "u32_of (V32 w) = w"
| "u32_of _ = 0"

text \<open>\<open>arr t\<close> decodes an array of elements of the type \<open>t\<close>.\<close>

definition Variant_decodeBinary ::
  "types \<Rightarrow> (udesc \<Rightarrow> vdec) \<Rightarrow> (udesc \<Rightarrow> dctx \<Rightarrow> (status \<times> uval list option \<times> dctx) outcome) \<Rightarrow> vdec"
where
  "Variant_decodeBinary T e arr d0 =
     (let (rv, encodingByte, d) = Byte_decodeBinary d0
      in if rv \<noteq> GOOD then Done (rv, VVarEmpty, d)
         else if encodingByte = 0 then Done (GOOD, VVarEmpty, d)
         else let isArr = (encodingByte AND 0x80 \<noteq> 0);
                  ti = unat (encodingByte AND 0x3F)
           in if ti = 0 \<or> ti - 1 > 24 then Done (BADDECODINGERROR, VVarEmpty, d)
              else (case type_at T (ti - 1) of
                None \<Rightarrow> Undefined
              | Some t \<Rightarrow>
                  if isArr then
                    bind (arr t d) (\<lambda>(r1, ws, d1).
                      if encodingByte AND 0x40 \<noteq> 0 then
                        (case type_at T 5 of
                           None \<Rightarrow> Undefined
                         | Some int32 \<Rightarrow> bind (arr int32 d1) (\<lambda>(r2, dims, d2).
                             Done (r1 OR r2, VVarArray (ti - 1) ws (map u32_of (elems dims)), d2)))
                      else Done (r1, VVarArray (ti - 1) ws [], d1))
                  else if ti - 1 \<noteq> 21 then
                    bind (e t d) (\<lambda>(r, w, d'). Done (r, VVarScalar (ti - 1) w, d'))
                  else Variant_decodeBinaryUnwrapExtensionObject T e d))"

definition clamp_pico :: "u16 option \<Rightarrow> u16 option" where
  "clamp_pico = map_option (\<lambda>p. if p > 9999 then 9999 else p)"

definition DataValue_decodeBinary :: "vdec \<Rightarrow> vdec" where
  "DataValue_decodeBinary var d0 =
     (let (rv, m, d) = Byte_decodeBinary d0
      in if rv \<noteq> GOOD then Done (rv, VDataValue None None None None None None, d)
         else bind (opt_vdec (m AND 1 \<noteq> 0) var d) (\<lambda>(r1, val, d1).
           let (r2, st, d2) = opt_dec (m AND 2 \<noteq> 0) UInt32_decodeBinary d1;
               (r3, sts, d3) = opt_dec (m AND 4 \<noteq> 0) UInt64_decodeBinary d2;
               (r4, sps, d4) = opt_dec (m AND 16 \<noteq> 0) UInt16_decodeBinary d3;
               (r5, svts, d5) = opt_dec (m AND 8 \<noteq> 0) UInt64_decodeBinary d4;
               (r6, svps, d6) = opt_dec (m AND 32 \<noteq> 0) UInt16_decodeBinary d5
           in Done (r1 OR r2 OR r3 OR r4 OR r5 OR r6,
                VDataValue val st sts (clamp_pico sps) svts (clamp_pico svps), d6)))"

definition DiagnosticInfo_decodeBinary :: "vdec \<Rightarrow> vdec" where
  "DiagnosticInfo_decodeBinary diag d0 =
     (let (rv, m, d) = Byte_decodeBinary d0
      in if rv \<noteq> GOOD then Done (rv, VDiag None None None None None None None, d)
         else let (r1, sid, d1) = opt_dec (m AND 1 \<noteq> 0) UInt32_decodeBinary d;
                  (r2, nsu, d2) = opt_dec (m AND 2 \<noteq> 0) UInt32_decodeBinary d1;
                  (r3, lt, d3) = opt_dec (m AND 4 \<noteq> 0) UInt32_decodeBinary d2;
                  (r4, loc, d4) = opt_dec (m AND 8 \<noteq> 0) UInt32_decodeBinary d3;
                  (r5, info, d5) = opt_dec (m AND 16 \<noteq> 0) String_decodeBinary d4;
                  (r6, st, d6) = opt_dec (m AND 32 \<noteq> 0) UInt32_decodeBinary d5
           in bind (opt_vdec (m AND 64 \<noteq> 0) diag d6) (\<lambda>(r7, inner, d7).
                Done (r1 OR r2 OR r3 OR r4 OR r5 OR r6 OR r7,
                  VDiag sid nsu lt loc info st inner, d7)))"

text \<open>All members are decoded, whatever the status of the earlier ones.\<close>

fun decode_members ::
  "(member \<Rightarrow> vdec) \<Rightarrow> member list \<Rightarrow> dctx \<Rightarrow> (status \<times> uval list \<times> dctx) outcome" where
  "decode_members f [] d = Done (GOOD, [], d)"
| "decode_members f (m # ms) d =
     bind (f m d) (\<lambda>(r, v, d1). bind (decode_members f ms d1) (\<lambda>(rs, vs, d2).
       Done (r OR rs, v # vs, d2)))"

text \<open>The memory of an element of an overlayable type; only a Boolean is read differently.\<close>

definition raw_dec :: "vdec \<Rightarrow> udesc \<Rightarrow> vdec" where
  "raw_dec f t = (if builtin t = Some KBoolean then dec_of VB Byte_decodeBinary else f)"

definition decode_array ::
  "(udesc \<Rightarrow> vdec) \<Rightarrow> udesc \<Rightarrow> dctx \<Rightarrow> (status \<times> uval list option \<times> dctx) outcome" where
  "decode_array e t = Array_decodeBinary (e t) (raw_dec (e t) t) t"

definition decode_member :: "types \<Rightarrow> (types \<Rightarrow> udesc \<Rightarrow> vdec) \<Rightarrow> types \<Rightarrow> member \<Rightarrow> vdec" where
  "decode_member T e own m d = (case member_type T own m of
       None \<Rightarrow> Undefined
     | Some (tab, t) \<Rightarrow>
         if isArray m then bind (decode_array (e tab) t d) (\<lambda>(rv, ws, d'). Done (rv, VArray ws, d'))
         else e tab t d)"

fun decode_jump :: "types \<Rightarrow> nat \<Rightarrow> types \<Rightarrow> udesc \<Rightarrow> vdec" where
  "decode_jump T 0 own t d = OutOfFuel"
| "decode_jump T (Suc n) own t d =
     (let e = decode_jump T n;
          internal = bind (decode_members (decode_member T e own) (members t) d)
                       (\<lambda>(rv, vs, d'). Done (rv, VStruct vs, d'))
      in case builtin t of
           None \<Rightarrow> internal
         | Some k \<Rightarrow> (case k of
             KBoolean \<Rightarrow> dec_of VB Boolean_decodeBinary d
           | KSByte \<Rightarrow> dec_of VB Byte_decodeBinary d
           | KByte \<Rightarrow> dec_of VB Byte_decodeBinary d
           | KInt16 \<Rightarrow> dec_of V16 UInt16_decodeBinary d
           | KUInt16 \<Rightarrow> dec_of V16 UInt16_decodeBinary d
           | KInt32 \<Rightarrow> dec_of V32 UInt32_decodeBinary d
           | KUInt32 \<Rightarrow> dec_of V32 UInt32_decodeBinary d
           | KInt64 \<Rightarrow> dec_of V64 UInt64_decodeBinary d
           | KUInt64 \<Rightarrow> dec_of V64 UInt64_decodeBinary d
           | KFloat \<Rightarrow> dec_of V32 UInt32_decodeBinary d
           | KDouble \<Rightarrow> dec_of V64 UInt64_decodeBinary d
           | KString \<Rightarrow> dec_of VStr String_decodeBinary d
           | KDateTime \<Rightarrow> dec_of V64 UInt64_decodeBinary d
           | KGuid \<Rightarrow> dec_of VGuid Guid_decodeBinary d
           | KByteString \<Rightarrow> dec_of VStr String_decodeBinary d
           | KXmlElement \<Rightarrow> dec_of VStr String_decodeBinary d
           | KNodeId \<Rightarrow> dec_of VNode NodeId_decodeBinary d
           | KExpandedNodeId \<Rightarrow> dec_of VExp ExpandedNodeId_decodeBinary d
           | KStatusCode \<Rightarrow> dec_of V32 UInt32_decodeBinary d
           | KQualifiedName \<Rightarrow> internal
           | KLocalizedText \<Rightarrow> dec_of (\<lambda>(l, x). VLoc l x) LocalizedText_decodeBinary d
           | KExtensionObject \<Rightarrow> ExtensionObject_decodeBinary T (e T) d
           | KDataValue \<Rightarrow> (case type_at T 23 of
                 None \<Rightarrow> Undefined
               | Some var \<Rightarrow> DataValue_decodeBinary (e T var) d)
           | KVariant \<Rightarrow> Variant_decodeBinary T (e T) (decode_array (e T)) d
           | KDiagnosticInfo \<Rightarrow> DiagnosticInfo_decodeBinary (e own t) d))"

definition UA_decodeBinaryInternal :: "types \<Rightarrow> nat \<Rightarrow> types \<Rightarrow> udesc \<Rightarrow> dctx \<Rightarrow> (status \<times> uval list \<times> dctx) outcome" where
  "UA_decodeBinaryInternal T n own t d = decode_members (decode_member T (decode_jump T n) own) (members t) d"

text \<open>
  The entry point: the members of the value, and the offset behind it, when the status is good.
\<close>

definition UA_decodeBinary ::
  "types \<Rightarrow> nat \<Rightarrow> types \<Rightarrow> udesc \<Rightarrow> byte list \<Rightarrow> nat \<Rightarrow> (status \<times> (uval list \<times> nat) option) outcome" where
  "UA_decodeBinary T n own t src offset =
     bind (UA_decodeBinaryInternal T n own t
         \<lparr> drest = drop offset src, dpast = offset - length src \<rparr>)
       (\<lambda>(rv, vs, d). Done (rv, if rv = GOOD then Some (vs, length src - length (drest d) + dpast d)
                                 else None))"

end
