(* ===== verification/UaTables.thy ===== *)
theory UaTables
  imports BinCodec
begin

text \<open>
  The generated type tables \<open>UA_TYPES\<close> and \<open>UA_TRANSPORT\<close> of \<open>open62541.c\<close> (sections
  \<open>ua_types_generated.c\<close> and \<open>ua_transport_generated.c\<close>), entry by entry.  Member names and the
  padding, which only serve the memory layout, are left out; \<open>sizeof\<close> and the \<open>offsetof\<close> comparisons
  of the overlayable flags are those of a 64-bit little-endian host with 8-byte pointers.
\<close>

section \<open>Entries\<close>

text \<open>A member of a type of \<open>UA_TYPES\<close>, an array of them, and a member of the structure's own table.\<close>

definition one :: "nat \<Rightarrow> member" where
  "one i = \<lparr> memberTypeIndex = i, namespaceZero = True, isArray = False \<rparr>"

definition many :: "nat \<Rightarrow> member" where
  "many i = \<lparr> memberTypeIndex = i, namespaceZero = True, isArray = True \<rparr>"

definition own_one :: "nat \<Rightarrow> member" where
  "own_one i = \<lparr> memberTypeIndex = i, namespaceZero = False, isArray = False \<rparr>"

definition entry :: "u32 \<Rightarrow> bt option \<Rightarrow> nat \<Rightarrow> bool \<Rightarrow> u32 \<Rightarrow> member list \<Rightarrow> udesc" where
  "entry num bti sz ovl be ms = \<lparr> typeId = UA_NODEID_NUMERIC 0 num, builtin = bti, memSize = sz,
     overlayable = ovl, binaryEncodingId = be, members = ms \<rparr>"

section \<open>Type indices\<close>

abbreviation (input) UA_TYPES_BOOLEAN :: nat where "UA_TYPES_BOOLEAN \<equiv> 0"
abbreviation (input) UA_TYPES_SBYTE :: nat where "UA_TYPES_SBYTE \<equiv> 1"
abbreviation (input) UA_TYPES_BYTE :: nat where "UA_TYPES_BYTE \<equiv> 2"
abbreviation (input) UA_TYPES_INT16 :: nat where "UA_TYPES_INT16 \<equiv> 3"
abbreviation (input) UA_TYPES_UINT16 :: nat where "UA_TYPES_UINT16 \<equiv> 4"
abbreviation (input) UA_TYPES_INT32 :: nat where "UA_TYPES_INT32 \<equiv> 5"
abbreviation (input) UA_TYPES_UINT32 :: nat where "UA_TYPES_UINT32 \<equiv> 6"
abbreviation (input) UA_TYPES_INT64 :: nat where "UA_TYPES_INT64 \<equiv> 7"
abbreviation (input) UA_TYPES_UINT64 :: nat where "UA_TYPES_UINT64 \<equiv> 8"
abbreviation (input) UA_TYPES_FLOAT :: nat where "UA_TYPES_FLOAT \<equiv> 9"
abbreviation (input) UA_TYPES_DOUBLE :: nat where "UA_TYPES_DOUBLE \<equiv> 10"
abbreviation (input) UA_TYPES_STRING :: nat where "UA_TYPES_STRING \<equiv> 11"
abbreviation (input) UA_TYPES_DATETIME :: nat where "UA_TYPES_DATETIME \<equiv> 12"
abbreviation (input) UA_TYPES_GUID :: nat where "UA_TYPES_GUID \<equiv> 13"
abbreviation (input) UA_TYPES_BYTESTRING :: nat where "UA_TYPES_BYTESTRING \<equiv> 14"
abbreviation (input) UA_TYPES_XMLELEMENT :: nat where "UA_TYPES_XMLELEMENT \<equiv> 15"
abbreviation (input) UA_TYPES_NODEID :: nat where "UA_TYPES_NODEID \<equiv> 16"
abbreviation (input) UA_TYPES_EXPANDEDNODEID :: nat where "UA_TYPES_EXPANDEDNODEID \<equiv> 17"
abbreviation (input) UA_TYPES_STATUSCODE :: nat where "UA_TYPES_STATUSCODE \<equiv> 18"
abbreviation (input) UA_TYPES_QUALIFIEDNAME :: nat where "UA_TYPES_QUALIFIEDNAME \<equiv> 19"
abbreviation (input) UA_TYPES_LOCALIZEDTEXT :: nat where "UA_TYPES_LOCALIZEDTEXT \<equiv> 20"
abbreviation (input) UA_TYPES_EXTENSIONOBJECT :: nat where "UA_TYPES_EXTENSIONOBJECT \<equiv> 21"
abbreviation (input) UA_TYPES_DATAVALUE :: nat where "UA_TYPES_DATAVALUE \<equiv> 22"
abbreviation (input) UA_TYPES_VARIANT :: nat where "UA_TYPES_VARIANT \<equiv> 23"
abbreviation (input) UA_TYPES_DIAGNOSTICINFO :: nat where "UA_TYPES_DIAGNOSTICINFO \<equiv> 24"
abbreviation (input) UA_TYPES_SIGNEDSOFTWARECERTIFICATE :: nat where "UA_TYPES_SIGNEDSOFTWARECERTIFICATE \<equiv> 25"
abbreviation (input) UA_TYPES_BROWSEPATHTARGET :: nat where "UA_TYPES_BROWSEPATHTARGET \<equiv> 26"
abbreviation (input) UA_TYPES_VIEWATTRIBUTES :: nat where "UA_TYPES_VIEWATTRIBUTES \<equiv> 27"
abbreviation (input) UA_TYPES_BROWSERESULTMASK :: nat where "UA_TYPES_BROWSERESULTMASK \<equiv> 28"
abbreviation (input) UA_TYPES_REQUESTHEADER :: nat where "UA_TYPES_REQUESTHEADER \<equiv> 29"
abbreviation (input) UA_TYPES_MONITOREDITEMMODIFYRESULT :: nat where "UA_TYPES_MONITOREDITEMMODIFYRESULT \<equiv> 30"
abbreviation (input) UA_TYPES_CLOSESECURECHANNELREQUEST :: nat where "UA_TYPES_CLOSESECURECHANNELREQUEST \<equiv> 31"
abbreviation (input) UA_TYPES_ADDNODESRESULT :: nat where "UA_TYPES_ADDNODESRESULT \<equiv> 32"
abbreviation (input) UA_TYPES_VARIABLEATTRIBUTES :: nat where "UA_TYPES_VARIABLEATTRIBUTES \<equiv> 33"
abbreviation (input) UA_TYPES_NOTIFICATIONMESSAGE :: nat where "UA_TYPES_NOTIFICATIONMESSAGE \<equiv> 34"
abbreviation (input) UA_TYPES_NODEATTRIBUTESMASK :: nat where "UA_TYPES_NODEATTRIBUTESMASK \<equiv> 35"
abbreviation (input) UA_TYPES_MONITORINGMODE :: nat where "UA_TYPES_MONITORINGMODE \<equiv> 36"
abbreviation (input) UA_TYPES_CALLMETHODRESULT :: nat where "UA_TYPES_CALLMETHODRESULT \<equiv> 37"
abbreviation (input) UA_TYPES_PARSINGRESULT :: nat where "UA_TYPES_PARSINGRESULT \<equiv> 38"
abbreviation (input) UA_TYPES_RELATIVEPATHELEMENT :: nat where "UA_TYPES_RELATIVEPATHELEMENT \<equiv> 39"
abbreviation (input) UA_TYPES_BROWSEDIRECTION :: nat where "UA_TYPES_BROWSEDIRECTION \<equiv> 40"
abbreviation (input) UA_TYPES_CALLMETHODREQUEST :: nat where "UA_TYPES_CALLMETHODREQUEST \<equiv> 41"
abbreviation (input) UA_TYPES_UNREGISTERNODESREQUEST :: nat where "UA_TYPES_UNREGISTERNODESREQUEST \<equiv> 42"
abbreviation (input) UA_TYPES_CONTENTFILTERELEMENTRESULT :: nat where "UA_TYPES_CONTENTFILTERELEMENTRESULT \<equiv> 43"
abbreviation (input) UA_TYPES_QUERYDATASET :: nat where "UA_TYPES_QUERYDATASET \<equiv> 44"
abbreviation (input) UA_TYPES_ANONYMOUSIDENTITYTOKEN :: nat where "UA_TYPES_ANONYMOUSIDENTITYTOKEN \<equiv> 45"
abbreviation (input) UA_TYPES_SETPUBLISHINGMODEREQUEST :: nat where "UA_TYPES_SETPUBLISHINGMODEREQUEST \<equiv> 46"
abbreviation (input) UA_TYPES_TIMESTAMPSTORETURN :: nat where "UA_TYPES_TIMESTAMPSTORETURN \<equiv> 47"
abbreviation (input) UA_TYPES_CALLREQUEST :: nat where "UA_TYPES_CALLREQUEST \<equiv> 48"
abbreviation (input) UA_TYPES_METHODATTRIBUTES :: nat where "UA_TYPES_METHODATTRIBUTES \<equiv> 49"
abbreviation (input) UA_TYPES_DELETEREFERENCESITEM :: nat where "UA_TYPES_DELETEREFERENCESITEM \<equiv> 50"
abbreviation (input) UA_TYPES_WRITEVALUE :: nat where "UA_TYPES_WRITEVALUE \<equiv> 51"
abbreviation (input) UA_TYPES_MONITOREDITEMCREATERESULT :: nat where "UA_TYPES_MONITOREDITEMCREATERESULT \<equiv> 52"
abbreviation (input) UA_TYPES_MESSAGESECURITYMODE :: nat where "UA_TYPES_MESSAGESECURITYMODE \<equiv> 53"
abbreviation (input) UA_TYPES_MONITORINGPARAMETERS :: nat where "UA_TYPES_MONITORINGPARAMETERS \<equiv> 54"
abbreviation (input) UA_TYPES_SIGNATUREDATA :: nat where "UA_TYPES_SIGNATUREDATA \<equiv> 55"
abbreviation (input) UA_TYPES_REFERENCENODE :: nat where "UA_TYPES_REFERENCENODE \<equiv> 56"
abbreviation (input) UA_TYPES_ARGUMENT :: nat where "UA_TYPES_ARGUMENT \<equiv> 57"
abbreviation (input) UA_TYPES_USERIDENTITYTOKEN :: nat where "UA_TYPES_USERIDENTITYTOKEN \<equiv> 58"
abbreviation (input) UA_TYPES_OBJECTTYPEATTRIBUTES :: nat where "UA_TYPES_OBJECTTYPEATTRIBUTES \<equiv> 59"
abbreviation (input) UA_TYPES_DEADBANDTYPE :: nat where "UA_TYPES_DEADBANDTYPE \<equiv> 60"
abbreviation (input) UA_TYPES_SECURITYTOKENREQUESTTYPE :: nat where "UA_TYPES_SECURITYTOKENREQUESTTYPE \<equiv> 61"
abbreviation (input) UA_TYPES_DATACHANGETRIGGER :: nat where "UA_TYPES_DATACHANGETRIGGER \<equiv> 62"
abbreviation (input) UA_TYPES_BUILDINFO :: nat where "UA_TYPES_BUILDINFO \<equiv> 63"
abbreviation (input) UA_TYPES_NODECLASS :: nat where "UA_TYPES_NODECLASS \<equiv> 64"
abbreviation (input) UA_TYPES_CHANNELSECURITYTOKEN :: nat where "UA_TYPES_CHANNELSECURITYTOKEN \<equiv> 65"
abbreviation (input) UA_TYPES_MONITOREDITEMNOTIFICATION :: nat where "UA_TYPES_MONITOREDITEMNOTIFICATION \<equiv> 66"
abbreviation (input) UA_TYPES_DELETENODESITEM :: nat where "UA_TYPES_DELETENODESITEM \<equiv> 67"
abbreviation (input) UA_TYPES_SUBSCRIPTIONACKNOWLEDGEMENT :: nat where "UA_TYPES_SUBSCRIPTIONACKNOWLEDGEMENT \<equiv> 68"
abbreviation (input) UA_TYPES_READVALUEID :: nat where "UA_TYPES_READVALUEID \<equiv> 69"
abbreviation (input) UA_TYPES_DATATYPEATTRIBUTES :: nat where "UA_TYPES_DATATYPEATTRIBUTES \<equiv> 70"
abbreviation (input) UA_TYPES_RESPONSEHEADER :: nat where "UA_TYPES_RESPONSEHEADER \<equiv> 71"
abbreviation (input) UA_TYPES_DELETESUBSCRIPTIONSREQUEST :: nat where "UA_TYPES_DELETESUBSCRIPTIONSREQUEST \<equiv> 72"
abbreviation (input) UA_TYPES_VIEWDESCRIPTION :: nat where "UA_TYPES_VIEWDESCRIPTION \<equiv> 73"
abbreviation (input) UA_TYPES_DELETEMONITOREDITEMSRESPONSE :: nat where "UA_TYPES_DELETEMONITOREDITEMSRESPONSE \<equiv> 74"
abbreviation (input) UA_TYPES_NODEATTRIBUTES :: nat where "UA_TYPES_NODEATTRIBUTES \<equiv> 75"
abbreviation (input) UA_TYPES_REGISTERNODESREQUEST :: nat where "UA_TYPES_REGISTERNODESREQUEST \<equiv> 76"
abbreviation (input) UA_TYPES_DELETENODESREQUEST :: nat where "UA_TYPES_DELETENODESREQUEST \<equiv> 77"
abbreviation (input) UA_TYPES_PUBLISHRESPONSE :: nat where "UA_TYPES_PUBLISHRESPONSE \<equiv> 78"
abbreviation (input) UA_TYPES_MONITOREDITEMMODIFYREQUEST :: nat where "UA_TYPES_MONITOREDITEMMODIFYREQUEST \<equiv> 79"
abbreviation (input) UA_TYPES_USERNAMEIDENTITYTOKEN :: nat where "UA_TYPES_USERNAMEIDENTITYTOKEN \<equiv> 80"
abbreviation (input) UA_TYPES_IDTYPE :: nat where "UA_TYPES_IDTYPE \<equiv> 81"
abbreviation (input) UA_TYPES_USERTOKENTYPE :: nat where "UA_TYPES_USERTOKENTYPE \<equiv> 82"
abbreviation (input) UA_TYPES_ACTIVATESESSIONREQUEST :: nat where "UA_TYPES_ACTIVATESESSIONREQUEST \<equiv> 83"
abbreviation (input) UA_TYPES_OPENSECURECHANNELRESPONSE :: nat where "UA_TYPES_OPENSECURECHANNELRESPONSE \<equiv> 84"
abbreviation (input) UA_TYPES_APPLICATIONTYPE :: nat where "UA_TYPES_APPLICATIONTYPE \<equiv> 85"
abbreviation (input) UA_TYPES_SERVERSTATE :: nat where "UA_TYPES_SERVERSTATE \<equiv> 86"
abbreviation (input) UA_TYPES_QUERYNEXTRESPONSE :: nat where "UA_TYPES_QUERYNEXTRESPONSE \<equiv> 87"
abbreviation (input) UA_TYPES_ACTIVATESESSIONRESPONSE :: nat where "UA_TYPES_ACTIVATESESSIONRESPONSE \<equiv> 88"
abbreviation (input) UA_TYPES_FILTEROPERATOR :: nat where "UA_TYPES_FILTEROPERATOR \<equiv> 89"
abbreviation (input) UA_TYPES_QUERYNEXTREQUEST :: nat where "UA_TYPES_QUERYNEXTREQUEST \<equiv> 90"
abbreviation (input) UA_TYPES_WRITERESPONSE :: nat where "UA_TYPES_WRITERESPONSE \<equiv> 91"
abbreviation (input) UA_TYPES_BROWSENEXTREQUEST :: nat where "UA_TYPES_BROWSENEXTREQUEST \<equiv> 92"
abbreviation (input) UA_TYPES_CREATESUBSCRIPTIONREQUEST :: nat where "UA_TYPES_CREATESUBSCRIPTIONREQUEST \<equiv> 93"
abbreviation (input) UA_TYPES_VARIABLETYPEATTRIBUTES :: nat where "UA_TYPES_VARIABLETYPEATTRIBUTES \<equiv> 94"
abbreviation (input) UA_TYPES_BROWSEPATHRESULT :: nat where "UA_TYPES_BROWSEPATHRESULT \<equiv> 95"
abbreviation (input) UA_TYPES_MODIFYSUBSCRIPTIONRESPONSE :: nat where "UA_TYPES_MODIFYSUBSCRIPTIONRESPONSE \<equiv> 96"
abbreviation (input) UA_TYPES_OPENSECURECHANNELREQUEST :: nat where "UA_TYPES_OPENSECURECHANNELREQUEST \<equiv> 97"
abbreviation (input) UA_TYPES_REGISTERNODESRESPONSE :: nat where "UA_TYPES_REGISTERNODESRESPONSE \<equiv> 98"
abbreviation (input) UA_TYPES_CLOSESESSIONREQUEST :: nat where "UA_TYPES_CLOSESESSIONREQUEST \<equiv> 99"
abbreviation (input) UA_TYPES_MODIFYSUBSCRIPTIONREQUEST :: nat where "UA_TYPES_MODIFYSUBSCRIPTIONREQUEST \<equiv> 100"
abbreviation (input) UA_TYPES_USERTOKENPOLICY :: nat where "UA_TYPES_USERTOKENPOLICY \<equiv> 101"
abbreviation (input) UA_TYPES_DELETEMONITOREDITEMSREQUEST :: nat where "UA_TYPES_DELETEMONITOREDITEMSREQUEST \<equiv> 102"
abbreviation (input) UA_TYPES_REFERENCETYPEATTRIBUTES :: nat where "UA_TYPES_REFERENCETYPEATTRIBUTES \<equiv> 103"
abbreviation (input) UA_TYPES_SETMONITORINGMODEREQUEST :: nat where "UA_TYPES_SETMONITORINGMODEREQUEST \<equiv> 104"
abbreviation (input) UA_TYPES_UNREGISTERNODESRESPONSE :: nat where "UA_TYPES_UNREGISTERNODESRESPONSE \<equiv> 105"
abbreviation (input) UA_TYPES_WRITEREQUEST :: nat where "UA_TYPES_WRITEREQUEST \<equiv> 106"
abbreviation (input) UA_TYPES_OBJECTATTRIBUTES :: nat where "UA_TYPES_OBJECTATTRIBUTES \<equiv> 107"
abbreviation (input) UA_TYPES_BROWSEDESCRIPTION :: nat where "UA_TYPES_BROWSEDESCRIPTION \<equiv> 108"
abbreviation (input) UA_TYPES_REPUBLISHREQUEST :: nat where "UA_TYPES_REPUBLISHREQUEST \<equiv> 109"
abbreviation (input) UA_TYPES_GETENDPOINTSREQUEST :: nat where "UA_TYPES_GETENDPOINTSREQUEST \<equiv> 110"
abbreviation (input) UA_TYPES_PUBLISHREQUEST :: nat where "UA_TYPES_PUBLISHREQUEST \<equiv> 111"
abbreviation (input) UA_TYPES_ADDNODESRESPONSE :: nat where "UA_TYPES_ADDNODESRESPONSE \<equiv> 112"
abbreviation (input) UA_TYPES_DATACHANGENOTIFICATION :: nat where "UA_TYPES_DATACHANGENOTIFICATION \<equiv> 113"
abbreviation (input) UA_TYPES_CLOSESECURECHANNELRESPONSE :: nat where "UA_TYPES_CLOSESECURECHANNELRESPONSE \<equiv> 114"
abbreviation (input) UA_TYPES_MODIFYMONITOREDITEMSREQUEST :: nat where "UA_TYPES_MODIFYMONITOREDITEMSREQUEST \<equiv> 115"
abbreviation (input) UA_TYPES_SETMONITORINGMODERESPONSE :: nat where "UA_TYPES_SETMONITORINGMODERESPONSE \<equiv> 116"
abbreviation (input) UA_TYPES_FINDSERVERSREQUEST :: nat where "UA_TYPES_FINDSERVERSREQUEST \<equiv> 117"
abbreviation (input) UA_TYPES_REFERENCEDESCRIPTION :: nat where "UA_TYPES_REFERENCEDESCRIPTION \<equiv> 118"
abbreviation (input) UA_TYPES_SETPUBLISHINGMODERESPONSE :: nat where "UA_TYPES_SETPUBLISHINGMODERESPONSE \<equiv> 119"
abbreviation (input) UA_TYPES_CONTENTFILTERRESULT :: nat where "UA_TYPES_CONTENTFILTERRESULT \<equiv> 120"
abbreviation (input) UA_TYPES_ADDREFERENCESITEM :: nat where "UA_TYPES_ADDREFERENCESITEM \<equiv> 121"
abbreviation (input) UA_TYPES_CREATESUBSCRIPTIONRESPONSE :: nat where "UA_TYPES_CREATESUBSCRIPTIONRESPONSE \<equiv> 122"
abbreviation (input) UA_TYPES_DELETESUBSCRIPTIONSRESPONSE :: nat where "UA_TYPES_DELETESUBSCRIPTIONSRESPONSE \<equiv> 123"
abbreviation (input) UA_TYPES_RELATIVEPATH :: nat where "UA_TYPES_RELATIVEPATH \<equiv> 124"
abbreviation (input) UA_TYPES_DELETEREFERENCESRESPONSE :: nat where "UA_TYPES_DELETEREFERENCESRESPONSE \<equiv> 125"
abbreviation (input) UA_TYPES_CREATEMONITOREDITEMSRESPONSE :: nat where "UA_TYPES_CREATEMONITOREDITEMSRESPONSE \<equiv> 126"
abbreviation (input) UA_TYPES_CALLRESPONSE :: nat where "UA_TYPES_CALLRESPONSE \<equiv> 127"
abbreviation (input) UA_TYPES_DELETENODESRESPONSE :: nat where "UA_TYPES_DELETENODESRESPONSE \<equiv> 128"
abbreviation (input) UA_TYPES_REPUBLISHRESPONSE :: nat where "UA_TYPES_REPUBLISHRESPONSE \<equiv> 129"
abbreviation (input) UA_TYPES_MONITOREDITEMCREATEREQUEST :: nat where "UA_TYPES_MONITOREDITEMCREATEREQUEST \<equiv> 130"
abbreviation (input) UA_TYPES_DELETEREFERENCESREQUEST :: nat where "UA_TYPES_DELETEREFERENCESREQUEST \<equiv> 131"
abbreviation (input) UA_TYPES_MODIFYMONITOREDITEMSRESPONSE :: nat where "UA_TYPES_MODIFYMONITOREDITEMSRESPONSE \<equiv> 132"
abbreviation (input) UA_TYPES_READRESPONSE :: nat where "UA_TYPES_READRESPONSE \<equiv> 133"
abbreviation (input) UA_TYPES_ADDREFERENCESREQUEST :: nat where "UA_TYPES_ADDREFERENCESREQUEST \<equiv> 134"
abbreviation (input) UA_TYPES_READREQUEST :: nat where "UA_TYPES_READREQUEST \<equiv> 135"
abbreviation (input) UA_TYPES_ADDNODESITEM :: nat where "UA_TYPES_ADDNODESITEM \<equiv> 136"
abbreviation (input) UA_TYPES_SERVERSTATUSDATATYPE :: nat where "UA_TYPES_SERVERSTATUSDATATYPE \<equiv> 137"
abbreviation (input) UA_TYPES_ADDREFERENCESRESPONSE :: nat where "UA_TYPES_ADDREFERENCESRESPONSE \<equiv> 138"
abbreviation (input) UA_TYPES_TRANSLATEBROWSEPATHSTONODEIDSRESPONSE :: nat where "UA_TYPES_TRANSLATEBROWSEPATHSTONODEIDSRESPONSE \<equiv> 139"
abbreviation (input) UA_TYPES_DATACHANGEFILTER :: nat where "UA_TYPES_DATACHANGEFILTER \<equiv> 140"
abbreviation (input) UA_TYPES_CONTENTFILTERELEMENT :: nat where "UA_TYPES_CONTENTFILTERELEMENT \<equiv> 141"
abbreviation (input) UA_TYPES_CLOSESESSIONRESPONSE :: nat where "UA_TYPES_CLOSESESSIONRESPONSE \<equiv> 142"
abbreviation (input) UA_TYPES_APPLICATIONDESCRIPTION :: nat where "UA_TYPES_APPLICATIONDESCRIPTION \<equiv> 143"
abbreviation (input) UA_TYPES_SERVICEFAULT :: nat where "UA_TYPES_SERVICEFAULT \<equiv> 144"
abbreviation (input) UA_TYPES_FINDSERVERSRESPONSE :: nat where "UA_TYPES_FINDSERVERSRESPONSE \<equiv> 145"
abbreviation (input) UA_TYPES_CREATEMONITOREDITEMSREQUEST :: nat where "UA_TYPES_CREATEMONITOREDITEMSREQUEST \<equiv> 146"
abbreviation (input) UA_TYPES_CONTENTFILTER :: nat where "UA_TYPES_CONTENTFILTER \<equiv> 147"
abbreviation (input) UA_TYPES_QUERYFIRSTRESPONSE :: nat where "UA_TYPES_QUERYFIRSTRESPONSE \<equiv> 148"
abbreviation (input) UA_TYPES_ADDNODESREQUEST :: nat where "UA_TYPES_ADDNODESREQUEST \<equiv> 149"
abbreviation (input) UA_TYPES_BROWSEREQUEST :: nat where "UA_TYPES_BROWSEREQUEST \<equiv> 150"
abbreviation (input) UA_TYPES_BROWSEPATH :: nat where "UA_TYPES_BROWSEPATH \<equiv> 151"
abbreviation (input) UA_TYPES_BROWSERESULT :: nat where "UA_TYPES_BROWSERESULT \<equiv> 152"
abbreviation (input) UA_TYPES_CREATESESSIONREQUEST :: nat where "UA_TYPES_CREATESESSIONREQUEST \<equiv> 153"
abbreviation (input) UA_TYPES_QUERYDATADESCRIPTION :: nat where "UA_TYPES_QUERYDATADESCRIPTION \<equiv> 154"
abbreviation (input) UA_TYPES_ENDPOINTDESCRIPTION :: nat where "UA_TYPES_ENDPOINTDESCRIPTION \<equiv> 155"
abbreviation (input) UA_TYPES_GETENDPOINTSRESPONSE :: nat where "UA_TYPES_GETENDPOINTSRESPONSE \<equiv> 156"
abbreviation (input) UA_TYPES_NODETYPEDESCRIPTION :: nat where "UA_TYPES_NODETYPEDESCRIPTION \<equiv> 157"
abbreviation (input) UA_TYPES_BROWSENEXTRESPONSE :: nat where "UA_TYPES_BROWSENEXTRESPONSE \<equiv> 158"
abbreviation (input) UA_TYPES_TRANSLATEBROWSEPATHSTONODEIDSREQUEST :: nat where "UA_TYPES_TRANSLATEBROWSEPATHSTONODEIDSREQUEST \<equiv> 159"
abbreviation (input) UA_TYPES_BROWSERESPONSE :: nat where "UA_TYPES_BROWSERESPONSE \<equiv> 160"
abbreviation (input) UA_TYPES_CREATESESSIONRESPONSE :: nat where "UA_TYPES_CREATESESSIONRESPONSE \<equiv> 161"
abbreviation (input) UA_TYPES_QUERYFIRSTREQUEST :: nat where "UA_TYPES_QUERYFIRSTREQUEST \<equiv> 162"
abbreviation (input) UA_TRANSPORT_SECURECONVERSATIONMESSAGEABORTBODY :: nat where "UA_TRANSPORT_SECURECONVERSATIONMESSAGEABORTBODY \<equiv> 0"
abbreviation (input) UA_TRANSPORT_SECURECONVERSATIONMESSAGEFOOTER :: nat where "UA_TRANSPORT_SECURECONVERSATIONMESSAGEFOOTER \<equiv> 1"
abbreviation (input) UA_TRANSPORT_TCPHELLOMESSAGE :: nat where "UA_TRANSPORT_TCPHELLOMESSAGE \<equiv> 2"
abbreviation (input) UA_TRANSPORT_TCPERRORMESSAGE :: nat where "UA_TRANSPORT_TCPERRORMESSAGE \<equiv> 3"
abbreviation (input) UA_TRANSPORT_MESSAGETYPE :: nat where "UA_TRANSPORT_MESSAGETYPE \<equiv> 4"
abbreviation (input) UA_TRANSPORT_ASYMMETRICALGORITHMSECURITYHEADER :: nat where "UA_TRANSPORT_ASYMMETRICALGORITHMSECURITYHEADER \<equiv> 5"
abbreviation (input) UA_TRANSPORT_TCPACKNOWLEDGEMESSAGE :: nat where "UA_TRANSPORT_TCPACKNOWLEDGEMESSAGE \<equiv> 6"
abbreviation (input) UA_TRANSPORT_SEQUENCEHEADER :: nat where "UA_TRANSPORT_SEQUENCEHEADER \<equiv> 7"
abbreviation (input) UA_TRANSPORT_TCPMESSAGEHEADER :: nat where "UA_TRANSPORT_TCPMESSAGEHEADER \<equiv> 8"
abbreviation (input) UA_TRANSPORT_CHUNKTYPE :: nat where "UA_TRANSPORT_CHUNKTYPE \<equiv> 9"
abbreviation (input) UA_TRANSPORT_SYMMETRICALGORITHMSECURITYHEADER :: nat where "UA_TRANSPORT_SYMMETRICALGORITHMSECURITYHEADER \<equiv> 10"
abbreviation (input) UA_TRANSPORT_SECURECONVERSATIONMESSAGEHEADER :: nat where "UA_TRANSPORT_SECURECONVERSATIONMESSAGEHEADER \<equiv> 11"

section \<open>Members\<close>

definition Boolean_members :: "member list" where
  "Boolean_members =
    [one UA_TYPES_BOOLEAN]"

definition SByte_members :: "member list" where
  "SByte_members =
    [one UA_TYPES_SBYTE]"

definition Byte_members :: "member list" where
  "Byte_members =
    [one UA_TYPES_BYTE]"

definition Int16_members :: "member list" where
  "Int16_members =
    [one UA_TYPES_INT16]"

definition UInt16_members :: "member list" where
  "UInt16_members =
    [one UA_TYPES_UINT16]"

definition Int32_members :: "member list" where
  "Int32_members =
    [one UA_TYPES_INT32]"

definition UInt32_members :: "member list" where
  "UInt32_members =
    [one UA_TYPES_UINT32]"

definition Int64_members :: "member list" where
  "Int64_members =
    [one UA_TYPES_INT64]"

definition UInt64_members :: "member list" where
  "UInt64_members =
    [one UA_TYPES_UINT64]"

definition Float_members :: "member list" where
  "Float_members =
    [one UA_TYPES_FLOAT]"

definition Double_members :: "member list" where
  "Double_members =
    [one UA_TYPES_DOUBLE]"

definition String_members :: "member list" where
  "String_members =
    [many UA_TYPES_BYTE]"

definition DateTime_members :: "member list" where
  "DateTime_members =
    [one UA_TYPES_DATETIME]"

definition Guid_members :: "member list" where
  "Guid_members =
    [one UA_TYPES_GUID]"

definition ByteString_members :: "member list" where
  "ByteString_members =
    [many UA_TYPES_BYTE]"

definition XmlElement_members :: "member list" where
  "XmlElement_members =
    [many UA_TYPES_BYTE]"

definition NodeId_members :: "member list" where
  "NodeId_members =
    [one UA_TYPES_NODEID]"

definition ExpandedNodeId_members :: "member list" where
  "ExpandedNodeId_members =
    [one UA_TYPES_EXPANDEDNODEID]"

definition StatusCode_members :: "member list" where
  "StatusCode_members =
    [one UA_TYPES_STATUSCODE]"

definition QualifiedName_members :: "member list" where
  "QualifiedName_members =
    [one UA_TYPES_INT16, one UA_TYPES_STRING]"

definition LocalizedText_members :: "member list" where
  "LocalizedText_members =
    [one UA_TYPES_LOCALIZEDTEXT]"

definition ExtensionObject_members :: "member list" where
  "ExtensionObject_members =
    [one UA_TYPES_EXTENSIONOBJECT]"

definition DataValue_members :: "member list" where
  "DataValue_members =
    [one UA_TYPES_DATAVALUE]"

definition Variant_members :: "member list" where
  "Variant_members =
    [one UA_TYPES_VARIANT]"

definition DiagnosticInfo_members :: "member list" where
  "DiagnosticInfo_members =
    [one UA_TYPES_DIAGNOSTICINFO]"

definition SignedSoftwareCertificate_members :: "member list" where
  "SignedSoftwareCertificate_members =
    [one UA_TYPES_BYTESTRING, one UA_TYPES_BYTESTRING]"

definition BrowsePathTarget_members :: "member list" where
  "BrowsePathTarget_members =
    [one UA_TYPES_EXPANDEDNODEID, one UA_TYPES_UINT32]"

definition ViewAttributes_members :: "member list" where
  "ViewAttributes_members =
    [one UA_TYPES_UINT32, one UA_TYPES_LOCALIZEDTEXT, one UA_TYPES_LOCALIZEDTEXT,
      one UA_TYPES_UINT32, one UA_TYPES_UINT32, one UA_TYPES_BOOLEAN, one UA_TYPES_BYTE]"

definition BrowseResultMask_members :: "member list" where
  "BrowseResultMask_members =
    [one UA_TYPES_INT32]"

definition RequestHeader_members :: "member list" where
  "RequestHeader_members =
    [one UA_TYPES_NODEID, one UA_TYPES_DATETIME, one UA_TYPES_UINT32, one UA_TYPES_UINT32,
      one UA_TYPES_STRING, one UA_TYPES_UINT32, one UA_TYPES_EXTENSIONOBJECT]"

definition MonitoredItemModifyResult_members :: "member list" where
  "MonitoredItemModifyResult_members =
    [one UA_TYPES_STATUSCODE, one UA_TYPES_DOUBLE, one UA_TYPES_UINT32,
      one UA_TYPES_EXTENSIONOBJECT]"

definition CloseSecureChannelRequest_members :: "member list" where
  "CloseSecureChannelRequest_members =
    [one UA_TYPES_REQUESTHEADER]"

definition AddNodesResult_members :: "member list" where
  "AddNodesResult_members =
    [one UA_TYPES_STATUSCODE, one UA_TYPES_NODEID]"

definition VariableAttributes_members :: "member list" where
  "VariableAttributes_members =
    [one UA_TYPES_UINT32, one UA_TYPES_LOCALIZEDTEXT, one UA_TYPES_LOCALIZEDTEXT,
      one UA_TYPES_UINT32, one UA_TYPES_UINT32, one UA_TYPES_VARIANT, one UA_TYPES_NODEID,
      one UA_TYPES_INT32, many UA_TYPES_UINT32, one UA_TYPES_BYTE, one UA_TYPES_BYTE,
      one UA_TYPES_DOUBLE, one UA_TYPES_BOOLEAN]"

definition NotificationMessage_members :: "member list" where
  "NotificationMessage_members =
    [one UA_TYPES_UINT32, one UA_TYPES_DATETIME, many UA_TYPES_EXTENSIONOBJECT]"

definition NodeAttributesMask_members :: "member list" where
  "NodeAttributesMask_members =
    [one UA_TYPES_INT32]"

definition MonitoringMode_members :: "member list" where
  "MonitoringMode_members =
    [one UA_TYPES_INT32]"

definition CallMethodResult_members :: "member list" where
  "CallMethodResult_members =
    [one UA_TYPES_STATUSCODE, many UA_TYPES_STATUSCODE, many UA_TYPES_DIAGNOSTICINFO,
      many UA_TYPES_VARIANT]"

definition ParsingResult_members :: "member list" where
  "ParsingResult_members =
    [one UA_TYPES_STATUSCODE, many UA_TYPES_STATUSCODE, many UA_TYPES_DIAGNOSTICINFO]"

definition RelativePathElement_members :: "member list" where
  "RelativePathElement_members =
    [one UA_TYPES_NODEID, one UA_TYPES_BOOLEAN, one UA_TYPES_BOOLEAN, one UA_TYPES_QUALIFIEDNAME]"

definition BrowseDirection_members :: "member list" where
  "BrowseDirection_members =
    [one UA_TYPES_INT32]"

definition CallMethodRequest_members :: "member list" where
  "CallMethodRequest_members =
    [one UA_TYPES_NODEID, one UA_TYPES_NODEID, many UA_TYPES_VARIANT]"

definition UnregisterNodesRequest_members :: "member list" where
  "UnregisterNodesRequest_members =
    [one UA_TYPES_REQUESTHEADER, many UA_TYPES_NODEID]"

definition ContentFilterElementResult_members :: "member list" where
  "ContentFilterElementResult_members =
    [one UA_TYPES_STATUSCODE, many UA_TYPES_STATUSCODE, many UA_TYPES_DIAGNOSTICINFO]"

definition QueryDataSet_members :: "member list" where
  "QueryDataSet_members =
    [one UA_TYPES_EXPANDEDNODEID, one UA_TYPES_EXPANDEDNODEID, many UA_TYPES_VARIANT]"

definition AnonymousIdentityToken_members :: "member list" where
  "AnonymousIdentityToken_members =
    [one UA_TYPES_STRING]"

definition SetPublishingModeRequest_members :: "member list" where
  "SetPublishingModeRequest_members =
    [one UA_TYPES_REQUESTHEADER, one UA_TYPES_BOOLEAN, many UA_TYPES_UINT32]"

definition TimestampsToReturn_members :: "member list" where
  "TimestampsToReturn_members =
    [one UA_TYPES_INT32]"

definition CallRequest_members :: "member list" where
  "CallRequest_members =
    [one UA_TYPES_REQUESTHEADER, many UA_TYPES_CALLMETHODREQUEST]"

definition MethodAttributes_members :: "member list" where
  "MethodAttributes_members =
    [one UA_TYPES_UINT32, one UA_TYPES_LOCALIZEDTEXT, one UA_TYPES_LOCALIZEDTEXT,
      one UA_TYPES_UINT32, one UA_TYPES_UINT32, one UA_TYPES_BOOLEAN, one UA_TYPES_BOOLEAN]"

definition DeleteReferencesItem_members :: "member list" where
  "DeleteReferencesItem_members =
    [one UA_TYPES_NODEID, one UA_TYPES_NODEID, one UA_TYPES_BOOLEAN, one UA_TYPES_EXPANDEDNODEID,
      one UA_TYPES_BOOLEAN]"

definition WriteValue_members :: "member list" where
  "WriteValue_members =
    [one UA_TYPES_NODEID, one UA_TYPES_UINT32, one UA_TYPES_STRING, one UA_TYPES_DATAVALUE]"

definition MonitoredItemCreateResult_members :: "member list" where
  "MonitoredItemCreateResult_members =
    [one UA_TYPES_STATUSCODE, one UA_TYPES_UINT32, one UA_TYPES_DOUBLE, one UA_TYPES_UINT32,
      one UA_TYPES_EXTENSIONOBJECT]"

definition MessageSecurityMode_members :: "member list" where
  "MessageSecurityMode_members =
    [one UA_TYPES_INT32]"

definition MonitoringParameters_members :: "member list" where
  "MonitoringParameters_members =
    [one UA_TYPES_UINT32, one UA_TYPES_DOUBLE, one UA_TYPES_EXTENSIONOBJECT, one UA_TYPES_UINT32,
      one UA_TYPES_BOOLEAN]"

definition SignatureData_members :: "member list" where
  "SignatureData_members =
    [one UA_TYPES_STRING, one UA_TYPES_BYTESTRING]"

definition ReferenceNode_members :: "member list" where
  "ReferenceNode_members =
    [one UA_TYPES_NODEID, one UA_TYPES_BOOLEAN, one UA_TYPES_EXPANDEDNODEID]"

definition Argument_members :: "member list" where
  "Argument_members =
    [one UA_TYPES_STRING, one UA_TYPES_NODEID, one UA_TYPES_INT32, many UA_TYPES_UINT32,
      one UA_TYPES_LOCALIZEDTEXT]"

definition UserIdentityToken_members :: "member list" where
  "UserIdentityToken_members =
    [one UA_TYPES_STRING]"

definition ObjectTypeAttributes_members :: "member list" where
  "ObjectTypeAttributes_members =
    [one UA_TYPES_UINT32, one UA_TYPES_LOCALIZEDTEXT, one UA_TYPES_LOCALIZEDTEXT,
      one UA_TYPES_UINT32, one UA_TYPES_UINT32, one UA_TYPES_BOOLEAN]"

definition DeadbandType_members :: "member list" where
  "DeadbandType_members =
    [one UA_TYPES_INT32]"

definition SecurityTokenRequestType_members :: "member list" where
  "SecurityTokenRequestType_members =
    [one UA_TYPES_INT32]"

definition DataChangeTrigger_members :: "member list" where
  "DataChangeTrigger_members =
    [one UA_TYPES_INT32]"

definition BuildInfo_members :: "member list" where
  "BuildInfo_members =
    [one UA_TYPES_STRING, one UA_TYPES_STRING, one UA_TYPES_STRING, one UA_TYPES_STRING,
      one UA_TYPES_STRING, one UA_TYPES_DATETIME]"

definition NodeClass_members :: "member list" where
  "NodeClass_members =
    [one UA_TYPES_INT32]"

definition ChannelSecurityToken_members :: "member list" where
  "ChannelSecurityToken_members =
    [one UA_TYPES_UINT32, one UA_TYPES_UINT32, one UA_TYPES_DATETIME, one UA_TYPES_UINT32]"

definition MonitoredItemNotification_members :: "member list" where
  "MonitoredItemNotification_members =
    [one UA_TYPES_UINT32, one UA_TYPES_DATAVALUE]"

definition DeleteNodesItem_members :: "member list" where
  "DeleteNodesItem_members =
    [one UA_TYPES_NODEID, one UA_TYPES_BOOLEAN]"

definition SubscriptionAcknowledgement_members :: "member list" where
  "SubscriptionAcknowledgement_members =
    [one UA_TYPES_UINT32, one UA_TYPES_UINT32]"

definition ReadValueId_members :: "member list" where
  "ReadValueId_members =
    [one UA_TYPES_NODEID, one UA_TYPES_UINT32, one UA_TYPES_STRING, one UA_TYPES_QUALIFIEDNAME]"

definition DataTypeAttributes_members :: "member list" where
  "DataTypeAttributes_members =
    [one UA_TYPES_UINT32, one UA_TYPES_LOCALIZEDTEXT, one UA_TYPES_LOCALIZEDTEXT,
      one UA_TYPES_UINT32, one UA_TYPES_UINT32, one UA_TYPES_BOOLEAN]"

definition ResponseHeader_members :: "member list" where
  "ResponseHeader_members =
    [one UA_TYPES_DATETIME, one UA_TYPES_UINT32, one UA_TYPES_STATUSCODE,
      one UA_TYPES_DIAGNOSTICINFO, many UA_TYPES_STRING, one UA_TYPES_EXTENSIONOBJECT]"

definition DeleteSubscriptionsRequest_members :: "member list" where
  "DeleteSubscriptionsRequest_members =
    [one UA_TYPES_REQUESTHEADER, many UA_TYPES_UINT32]"

definition ViewDescription_members :: "member list" where
  "ViewDescription_members =
    [one UA_TYPES_NODEID, one UA_TYPES_DATETIME, one UA_TYPES_UINT32]"

definition DeleteMonitoredItemsResponse_members :: "member list" where
  "DeleteMonitoredItemsResponse_members =
    [one UA_TYPES_RESPONSEHEADER, many UA_TYPES_STATUSCODE, many UA_TYPES_DIAGNOSTICINFO]"

definition NodeAttributes_members :: "member list" where
  "NodeAttributes_members =
    [one UA_TYPES_UINT32, one UA_TYPES_LOCALIZEDTEXT, one UA_TYPES_LOCALIZEDTEXT,
      one UA_TYPES_UINT32, one UA_TYPES_UINT32]"

definition RegisterNodesRequest_members :: "member list" where
  "RegisterNodesRequest_members =
    [one UA_TYPES_REQUESTHEADER, many UA_TYPES_NODEID]"

definition DeleteNodesRequest_members :: "member list" where
  "DeleteNodesRequest_members =
    [one UA_TYPES_REQUESTHEADER, many UA_TYPES_DELETENODESITEM]"

definition PublishResponse_members :: "member list" where
  "PublishResponse_members =
    [one UA_TYPES_RESPONSEHEADER, one UA_TYPES_UINT32, many UA_TYPES_UINT32,
      one UA_TYPES_BOOLEAN, one UA_TYPES_NOTIFICATIONMESSAGE, many UA_TYPES_STATUSCODE,
      many UA_TYPES_DIAGNOSTICINFO]"

definition MonitoredItemModifyRequest_members :: "member list" where
  "MonitoredItemModifyRequest_members =
    [one UA_TYPES_UINT32, one UA_TYPES_MONITORINGPARAMETERS]"

definition UserNameIdentityToken_members :: "member list" where
  "UserNameIdentityToken_members =
    [one UA_TYPES_STRING, one UA_TYPES_STRING, one UA_TYPES_BYTESTRING, one UA_TYPES_STRING]"

definition IdType_members :: "member list" where
  "IdType_members =
    [one UA_TYPES_INT32]"

definition UserTokenType_members :: "member list" where
  "UserTokenType_members =
    [one UA_TYPES_INT32]"

definition ActivateSessionRequest_members :: "member list" where
  "ActivateSessionRequest_members =
    [one UA_TYPES_REQUESTHEADER, one UA_TYPES_SIGNATUREDATA,
      many UA_TYPES_SIGNEDSOFTWARECERTIFICATE, many UA_TYPES_STRING,
      one UA_TYPES_EXTENSIONOBJECT, one UA_TYPES_SIGNATUREDATA]"

definition OpenSecureChannelResponse_members :: "member list" where
  "OpenSecureChannelResponse_members =
    [one UA_TYPES_RESPONSEHEADER, one UA_TYPES_UINT32, one UA_TYPES_CHANNELSECURITYTOKEN,
      one UA_TYPES_BYTESTRING]"

definition ApplicationType_members :: "member list" where
  "ApplicationType_members =
    [one UA_TYPES_INT32]"

definition ServerState_members :: "member list" where
  "ServerState_members =
    [one UA_TYPES_INT32]"

definition QueryNextResponse_members :: "member list" where
  "QueryNextResponse_members =
    [one UA_TYPES_RESPONSEHEADER, many UA_TYPES_QUERYDATASET, one UA_TYPES_BYTESTRING]"

definition ActivateSessionResponse_members :: "member list" where
  "ActivateSessionResponse_members =
    [one UA_TYPES_RESPONSEHEADER, one UA_TYPES_BYTESTRING, many UA_TYPES_STATUSCODE,
      many UA_TYPES_DIAGNOSTICINFO]"

definition FilterOperator_members :: "member list" where
  "FilterOperator_members =
    [one UA_TYPES_INT32]"

definition QueryNextRequest_members :: "member list" where
  "QueryNextRequest_members =
    [one UA_TYPES_REQUESTHEADER, one UA_TYPES_BOOLEAN, one UA_TYPES_BYTESTRING]"

definition WriteResponse_members :: "member list" where
  "WriteResponse_members =
    [one UA_TYPES_RESPONSEHEADER, many UA_TYPES_STATUSCODE, many UA_TYPES_DIAGNOSTICINFO]"

definition BrowseNextRequest_members :: "member list" where
  "BrowseNextRequest_members =
    [one UA_TYPES_REQUESTHEADER, one UA_TYPES_BOOLEAN, many UA_TYPES_BYTESTRING]"

definition CreateSubscriptionRequest_members :: "member list" where
  "CreateSubscriptionRequest_members =
    [one UA_TYPES_REQUESTHEADER, one UA_TYPES_DOUBLE, one UA_TYPES_UINT32, one UA_TYPES_UINT32,
      one UA_TYPES_UINT32, one UA_TYPES_BOOLEAN, one UA_TYPES_BYTE]"

definition VariableTypeAttributes_members :: "member list" where
  "VariableTypeAttributes_members =
    [one UA_TYPES_UINT32, one UA_TYPES_LOCALIZEDTEXT, one UA_TYPES_LOCALIZEDTEXT,
      one UA_TYPES_UINT32, one UA_TYPES_UINT32, one UA_TYPES_VARIANT, one UA_TYPES_NODEID,
      one UA_TYPES_INT32, many UA_TYPES_UINT32, one UA_TYPES_BOOLEAN]"

definition BrowsePathResult_members :: "member list" where
  "BrowsePathResult_members =
    [one UA_TYPES_STATUSCODE, many UA_TYPES_BROWSEPATHTARGET]"

definition ModifySubscriptionResponse_members :: "member list" where
  "ModifySubscriptionResponse_members =
    [one UA_TYPES_RESPONSEHEADER, one UA_TYPES_DOUBLE, one UA_TYPES_UINT32, one UA_TYPES_UINT32]"

definition OpenSecureChannelRequest_members :: "member list" where
  "OpenSecureChannelRequest_members =
    [one UA_TYPES_REQUESTHEADER, one UA_TYPES_UINT32, one UA_TYPES_SECURITYTOKENREQUESTTYPE,
      one UA_TYPES_MESSAGESECURITYMODE, one UA_TYPES_BYTESTRING, one UA_TYPES_UINT32]"

definition RegisterNodesResponse_members :: "member list" where
  "RegisterNodesResponse_members =
    [one UA_TYPES_RESPONSEHEADER, many UA_TYPES_NODEID]"

definition CloseSessionRequest_members :: "member list" where
  "CloseSessionRequest_members =
    [one UA_TYPES_REQUESTHEADER, one UA_TYPES_BOOLEAN]"

definition ModifySubscriptionRequest_members :: "member list" where
  "ModifySubscriptionRequest_members =
    [one UA_TYPES_REQUESTHEADER, one UA_TYPES_UINT32, one UA_TYPES_DOUBLE, one UA_TYPES_UINT32,
      one UA_TYPES_UINT32, one UA_TYPES_UINT32, one UA_TYPES_BYTE]"

definition UserTokenPolicy_members :: "member list" where
  "UserTokenPolicy_members =
    [one UA_TYPES_STRING, one UA_TYPES_USERTOKENTYPE, one UA_TYPES_STRING, one UA_TYPES_STRING,
      one UA_TYPES_STRING]"

definition DeleteMonitoredItemsRequest_members :: "member list" where
  "DeleteMonitoredItemsRequest_members =
    [one UA_TYPES_REQUESTHEADER, one UA_TYPES_UINT32, many UA_TYPES_UINT32]"

definition ReferenceTypeAttributes_members :: "member list" where
  "ReferenceTypeAttributes_members =
    [one UA_TYPES_UINT32, one UA_TYPES_LOCALIZEDTEXT, one UA_TYPES_LOCALIZEDTEXT,
      one UA_TYPES_UINT32, one UA_TYPES_UINT32, one UA_TYPES_BOOLEAN, one UA_TYPES_BOOLEAN,
      one UA_TYPES_LOCALIZEDTEXT]"

definition SetMonitoringModeRequest_members :: "member list" where
  "SetMonitoringModeRequest_members =
    [one UA_TYPES_REQUESTHEADER, one UA_TYPES_UINT32, one UA_TYPES_MONITORINGMODE,
      many UA_TYPES_UINT32]"

definition UnregisterNodesResponse_members :: "member list" where
  "UnregisterNodesResponse_members =
    [one UA_TYPES_RESPONSEHEADER]"

definition WriteRequest_members :: "member list" where
  "WriteRequest_members =
    [one UA_TYPES_REQUESTHEADER, many UA_TYPES_WRITEVALUE]"

definition ObjectAttributes_members :: "member list" where
  "ObjectAttributes_members =
    [one UA_TYPES_UINT32, one UA_TYPES_LOCALIZEDTEXT, one UA_TYPES_LOCALIZEDTEXT,
      one UA_TYPES_UINT32, one UA_TYPES_UINT32, one UA_TYPES_BYTE]"

definition BrowseDescription_members :: "member list" where
  "BrowseDescription_members =
    [one UA_TYPES_NODEID, one UA_TYPES_BROWSEDIRECTION, one UA_TYPES_NODEID,
      one UA_TYPES_BOOLEAN, one UA_TYPES_UINT32, one UA_TYPES_UINT32]"

definition RepublishRequest_members :: "member list" where
  "RepublishRequest_members =
    [one UA_TYPES_REQUESTHEADER, one UA_TYPES_UINT32, one UA_TYPES_UINT32]"

definition GetEndpointsRequest_members :: "member list" where
  "GetEndpointsRequest_members =
    [one UA_TYPES_REQUESTHEADER, one UA_TYPES_STRING, many UA_TYPES_STRING, many UA_TYPES_STRING]"

definition PublishRequest_members :: "member list" where
  "PublishRequest_members =
    [one UA_TYPES_REQUESTHEADER, many UA_TYPES_SUBSCRIPTIONACKNOWLEDGEMENT]"

definition AddNodesResponse_members :: "member list" where
  "AddNodesResponse_members =
    [one UA_TYPES_RESPONSEHEADER, many UA_TYPES_ADDNODESRESULT, many UA_TYPES_DIAGNOSTICINFO]"

definition DataChangeNotification_members :: "member list" where
  "DataChangeNotification_members =
    [many UA_TYPES_MONITOREDITEMNOTIFICATION, many UA_TYPES_DIAGNOSTICINFO]"

definition CloseSecureChannelResponse_members :: "member list" where
  "CloseSecureChannelResponse_members =
    [one UA_TYPES_RESPONSEHEADER]"

definition ModifyMonitoredItemsRequest_members :: "member list" where
  "ModifyMonitoredItemsRequest_members =
    [one UA_TYPES_REQUESTHEADER, one UA_TYPES_UINT32, one UA_TYPES_TIMESTAMPSTORETURN,
      many UA_TYPES_MONITOREDITEMMODIFYREQUEST]"

definition SetMonitoringModeResponse_members :: "member list" where
  "SetMonitoringModeResponse_members =
    [one UA_TYPES_RESPONSEHEADER, many UA_TYPES_STATUSCODE, many UA_TYPES_DIAGNOSTICINFO]"

definition FindServersRequest_members :: "member list" where
  "FindServersRequest_members =
    [one UA_TYPES_REQUESTHEADER, one UA_TYPES_STRING, many UA_TYPES_STRING, many UA_TYPES_STRING]"

definition ReferenceDescription_members :: "member list" where
  "ReferenceDescription_members =
    [one UA_TYPES_NODEID, one UA_TYPES_BOOLEAN, one UA_TYPES_EXPANDEDNODEID,
      one UA_TYPES_QUALIFIEDNAME, one UA_TYPES_LOCALIZEDTEXT, one UA_TYPES_NODECLASS,
      one UA_TYPES_EXPANDEDNODEID]"

definition SetPublishingModeResponse_members :: "member list" where
  "SetPublishingModeResponse_members =
    [one UA_TYPES_RESPONSEHEADER, many UA_TYPES_STATUSCODE, many UA_TYPES_DIAGNOSTICINFO]"

definition ContentFilterResult_members :: "member list" where
  "ContentFilterResult_members =
    [many UA_TYPES_CONTENTFILTERELEMENTRESULT, many UA_TYPES_DIAGNOSTICINFO]"

definition AddReferencesItem_members :: "member list" where
  "AddReferencesItem_members =
    [one UA_TYPES_NODEID, one UA_TYPES_NODEID, one UA_TYPES_BOOLEAN, one UA_TYPES_STRING,
      one UA_TYPES_EXPANDEDNODEID, one UA_TYPES_NODECLASS]"

definition CreateSubscriptionResponse_members :: "member list" where
  "CreateSubscriptionResponse_members =
    [one UA_TYPES_RESPONSEHEADER, one UA_TYPES_UINT32, one UA_TYPES_DOUBLE, one UA_TYPES_UINT32,
      one UA_TYPES_UINT32]"

definition DeleteSubscriptionsResponse_members :: "member list" where
  "DeleteSubscriptionsResponse_members =
    [one UA_TYPES_RESPONSEHEADER, many UA_TYPES_STATUSCODE, many UA_TYPES_DIAGNOSTICINFO]"

definition RelativePath_members :: "member list" where
  "RelativePath_members =
    [many UA_TYPES_RELATIVEPATHELEMENT]"

definition DeleteReferencesResponse_members :: "member list" where
  "DeleteReferencesResponse_members =
    [one UA_TYPES_RESPONSEHEADER, many UA_TYPES_STATUSCODE, many UA_TYPES_DIAGNOSTICINFO]"

definition CreateMonitoredItemsResponse_members :: "member list" where
  "CreateMonitoredItemsResponse_members =
    [one UA_TYPES_RESPONSEHEADER, many UA_TYPES_MONITOREDITEMCREATERESULT,
      many UA_TYPES_DIAGNOSTICINFO]"

definition CallResponse_members :: "member list" where
  "CallResponse_members =
    [one UA_TYPES_RESPONSEHEADER, many UA_TYPES_CALLMETHODRESULT, many UA_TYPES_DIAGNOSTICINFO]"

definition DeleteNodesResponse_members :: "member list" where
  "DeleteNodesResponse_members =
    [one UA_TYPES_RESPONSEHEADER, many UA_TYPES_STATUSCODE, many UA_TYPES_DIAGNOSTICINFO]"

definition RepublishResponse_members :: "member list" where
  "RepublishResponse_members =
    [one UA_TYPES_RESPONSEHEADER, one UA_TYPES_NOTIFICATIONMESSAGE]"

definition MonitoredItemCreateRequest_members :: "member list" where
  "MonitoredItemCreateRequest_members =
    [one UA_TYPES_READVALUEID, one UA_TYPES_MONITORINGMODE, one UA_TYPES_MONITORINGPARAMETERS]"

definition DeleteReferencesRequest_members :: "member list" where
  "DeleteReferencesRequest_members =
    [one UA_TYPES_REQUESTHEADER, many UA_TYPES_DELETEREFERENCESITEM]"

definition ModifyMonitoredItemsResponse_members :: "member list" where
  "ModifyMonitoredItemsResponse_members =
    [one UA_TYPES_RESPONSEHEADER, many UA_TYPES_MONITOREDITEMMODIFYRESULT,
      many UA_TYPES_DIAGNOSTICINFO]"

definition ReadResponse_members :: "member list" where
  "ReadResponse_members =
    [one UA_TYPES_RESPONSEHEADER, many UA_TYPES_DATAVALUE, many UA_TYPES_DIAGNOSTICINFO]"

definition AddReferencesRequest_members :: "member list" where
  "AddReferencesRequest_members =
    [one UA_TYPES_REQUESTHEADER, many UA_TYPES_ADDREFERENCESITEM]"

definition ReadRequest_members :: "member list" where
  "ReadRequest_members =
    [one UA_TYPES_REQUESTHEADER, one UA_TYPES_DOUBLE, one UA_TYPES_TIMESTAMPSTORETURN,
      many UA_TYPES_READVALUEID]"

definition AddNodesItem_members :: "member list" where
  "AddNodesItem_members =
    [one UA_TYPES_EXPANDEDNODEID, one UA_TYPES_NODEID, one UA_TYPES_EXPANDEDNODEID,
      one UA_TYPES_QUALIFIEDNAME, one UA_TYPES_NODECLASS, one UA_TYPES_EXTENSIONOBJECT,
      one UA_TYPES_EXPANDEDNODEID]"

definition ServerStatusDataType_members :: "member list" where
  "ServerStatusDataType_members =
    [one UA_TYPES_DATETIME, one UA_TYPES_DATETIME, one UA_TYPES_SERVERSTATE,
      one UA_TYPES_BUILDINFO, one UA_TYPES_UINT32, one UA_TYPES_LOCALIZEDTEXT]"

definition AddReferencesResponse_members :: "member list" where
  "AddReferencesResponse_members =
    [one UA_TYPES_RESPONSEHEADER, many UA_TYPES_STATUSCODE, many UA_TYPES_DIAGNOSTICINFO]"

definition TranslateBrowsePathsToNodeIdsResponse_members :: "member list" where
  "TranslateBrowsePathsToNodeIdsResponse_members =
    [one UA_TYPES_RESPONSEHEADER, many UA_TYPES_BROWSEPATHRESULT, many UA_TYPES_DIAGNOSTICINFO]"

definition DataChangeFilter_members :: "member list" where
  "DataChangeFilter_members =
    [one UA_TYPES_DATACHANGETRIGGER, one UA_TYPES_UINT32, one UA_TYPES_DOUBLE]"

definition ContentFilterElement_members :: "member list" where
  "ContentFilterElement_members =
    [one UA_TYPES_FILTEROPERATOR, many UA_TYPES_EXTENSIONOBJECT]"

definition CloseSessionResponse_members :: "member list" where
  "CloseSessionResponse_members =
    [one UA_TYPES_RESPONSEHEADER]"

definition ApplicationDescription_members :: "member list" where
  "ApplicationDescription_members =
    [one UA_TYPES_STRING, one UA_TYPES_STRING, one UA_TYPES_LOCALIZEDTEXT,
      one UA_TYPES_APPLICATIONTYPE, one UA_TYPES_STRING, one UA_TYPES_STRING,
      many UA_TYPES_STRING]"

definition ServiceFault_members :: "member list" where
  "ServiceFault_members =
    [one UA_TYPES_RESPONSEHEADER]"

definition FindServersResponse_members :: "member list" where
  "FindServersResponse_members =
    [one UA_TYPES_RESPONSEHEADER, many UA_TYPES_APPLICATIONDESCRIPTION]"

definition CreateMonitoredItemsRequest_members :: "member list" where
  "CreateMonitoredItemsRequest_members =
    [one UA_TYPES_REQUESTHEADER, one UA_TYPES_UINT32, one UA_TYPES_TIMESTAMPSTORETURN,
      many UA_TYPES_MONITOREDITEMCREATEREQUEST]"

definition ContentFilter_members :: "member list" where
  "ContentFilter_members =
    [many UA_TYPES_CONTENTFILTERELEMENT]"

definition QueryFirstResponse_members :: "member list" where
  "QueryFirstResponse_members =
    [one UA_TYPES_RESPONSEHEADER, many UA_TYPES_QUERYDATASET, one UA_TYPES_BYTESTRING,
      many UA_TYPES_PARSINGRESULT, many UA_TYPES_DIAGNOSTICINFO, one UA_TYPES_CONTENTFILTERRESULT]"

definition AddNodesRequest_members :: "member list" where
  "AddNodesRequest_members =
    [one UA_TYPES_REQUESTHEADER, many UA_TYPES_ADDNODESITEM]"

definition BrowseRequest_members :: "member list" where
  "BrowseRequest_members =
    [one UA_TYPES_REQUESTHEADER, one UA_TYPES_VIEWDESCRIPTION, one UA_TYPES_UINT32,
      many UA_TYPES_BROWSEDESCRIPTION]"

definition BrowsePath_members :: "member list" where
  "BrowsePath_members =
    [one UA_TYPES_NODEID, one UA_TYPES_RELATIVEPATH]"

definition BrowseResult_members :: "member list" where
  "BrowseResult_members =
    [one UA_TYPES_STATUSCODE, one UA_TYPES_BYTESTRING, many UA_TYPES_REFERENCEDESCRIPTION]"

definition CreateSessionRequest_members :: "member list" where
  "CreateSessionRequest_members =
    [one UA_TYPES_REQUESTHEADER, one UA_TYPES_APPLICATIONDESCRIPTION, one UA_TYPES_STRING,
      one UA_TYPES_STRING, one UA_TYPES_STRING, one UA_TYPES_BYTESTRING, one UA_TYPES_BYTESTRING,
      one UA_TYPES_DOUBLE, one UA_TYPES_UINT32]"

definition QueryDataDescription_members :: "member list" where
  "QueryDataDescription_members =
    [one UA_TYPES_RELATIVEPATH, one UA_TYPES_UINT32, one UA_TYPES_STRING]"

definition EndpointDescription_members :: "member list" where
  "EndpointDescription_members =
    [one UA_TYPES_STRING, one UA_TYPES_APPLICATIONDESCRIPTION, one UA_TYPES_BYTESTRING,
      one UA_TYPES_MESSAGESECURITYMODE, one UA_TYPES_STRING, many UA_TYPES_USERTOKENPOLICY,
      one UA_TYPES_STRING, one UA_TYPES_BYTE]"

definition GetEndpointsResponse_members :: "member list" where
  "GetEndpointsResponse_members =
    [one UA_TYPES_RESPONSEHEADER, many UA_TYPES_ENDPOINTDESCRIPTION]"

definition NodeTypeDescription_members :: "member list" where
  "NodeTypeDescription_members =
    [one UA_TYPES_EXPANDEDNODEID, one UA_TYPES_BOOLEAN, many UA_TYPES_QUERYDATADESCRIPTION]"

definition BrowseNextResponse_members :: "member list" where
  "BrowseNextResponse_members =
    [one UA_TYPES_RESPONSEHEADER, many UA_TYPES_BROWSERESULT, many UA_TYPES_DIAGNOSTICINFO]"

definition TranslateBrowsePathsToNodeIdsRequest_members :: "member list" where
  "TranslateBrowsePathsToNodeIdsRequest_members =
    [one UA_TYPES_REQUESTHEADER, many UA_TYPES_BROWSEPATH]"

definition BrowseResponse_members :: "member list" where
  "BrowseResponse_members =
    [one UA_TYPES_RESPONSEHEADER, many UA_TYPES_BROWSERESULT, many UA_TYPES_DIAGNOSTICINFO]"

definition CreateSessionResponse_members :: "member list" where
  "CreateSessionResponse_members =
    [one UA_TYPES_RESPONSEHEADER, one UA_TYPES_NODEID, one UA_TYPES_NODEID, one UA_TYPES_DOUBLE,
      one UA_TYPES_BYTESTRING, one UA_TYPES_BYTESTRING, many UA_TYPES_ENDPOINTDESCRIPTION,
      many UA_TYPES_SIGNEDSOFTWARECERTIFICATE, one UA_TYPES_SIGNATUREDATA, one UA_TYPES_UINT32]"

definition QueryFirstRequest_members :: "member list" where
  "QueryFirstRequest_members =
    [one UA_TYPES_REQUESTHEADER, one UA_TYPES_VIEWDESCRIPTION, many UA_TYPES_NODETYPEDESCRIPTION,
      one UA_TYPES_CONTENTFILTER, one UA_TYPES_UINT32, one UA_TYPES_UINT32]"

definition SecureConversationMessageAbortBody_members :: "member list" where
  "SecureConversationMessageAbortBody_members =
    [one UA_TYPES_UINT32, one UA_TYPES_STRING]"

definition SecureConversationMessageFooter_members :: "member list" where
  "SecureConversationMessageFooter_members =
    [many UA_TYPES_BYTE, one UA_TYPES_BYTE]"

definition TcpHelloMessage_members :: "member list" where
  "TcpHelloMessage_members =
    [one UA_TYPES_UINT32, one UA_TYPES_UINT32, one UA_TYPES_UINT32, one UA_TYPES_UINT32,
      one UA_TYPES_UINT32, one UA_TYPES_STRING]"

definition TcpErrorMessage_members :: "member list" where
  "TcpErrorMessage_members =
    [one UA_TYPES_UINT32, one UA_TYPES_STRING]"

definition MessageType_members :: "member list" where
  "MessageType_members =
    [one UA_TYPES_INT32]"

definition AsymmetricAlgorithmSecurityHeader_members :: "member list" where
  "AsymmetricAlgorithmSecurityHeader_members =
    [one UA_TYPES_BYTESTRING, one UA_TYPES_BYTESTRING, one UA_TYPES_BYTESTRING]"

definition TcpAcknowledgeMessage_members :: "member list" where
  "TcpAcknowledgeMessage_members =
    [one UA_TYPES_UINT32, one UA_TYPES_UINT32, one UA_TYPES_UINT32, one UA_TYPES_UINT32,
      one UA_TYPES_UINT32]"

definition SequenceHeader_members :: "member list" where
  "SequenceHeader_members =
    [one UA_TYPES_UINT32, one UA_TYPES_UINT32]"

definition TcpMessageHeader_members :: "member list" where
  "TcpMessageHeader_members =
    [one UA_TYPES_UINT32, one UA_TYPES_UINT32]"

definition ChunkType_members :: "member list" where
  "ChunkType_members =
    [one UA_TYPES_INT32]"

definition SymmetricAlgorithmSecurityHeader_members :: "member list" where
  "SymmetricAlgorithmSecurityHeader_members =
    [one UA_TYPES_UINT32]"

definition SecureConversationMessageHeader_members :: "member list" where
  "SecureConversationMessageHeader_members =
    [own_one UA_TRANSPORT_TCPMESSAGEHEADER, one UA_TYPES_UINT32]"

section \<open>The tables\<close>

definition UA_TYPES :: types where
  "UA_TYPES =
    [entry 1 (Some KBoolean) 1 True 0 Boolean_members,
     entry 2 (Some KSByte) 1 True 0 SByte_members,
     entry 3 (Some KByte) 1 True 0 Byte_members,
     entry 4 (Some KInt16) 2 True 0 Int16_members,
     entry 5 (Some KUInt16) 2 True 0 UInt16_members,
     entry 6 (Some KInt32) 4 True 0 Int32_members,
     entry 7 (Some KUInt32) 4 True 0 UInt32_members,
     entry 8 (Some KInt64) 8 True 0 Int64_members,
     entry 9 (Some KUInt64) 8 True 0 UInt64_members,
     entry 10 (Some KFloat) 4 True 0 Float_members,
     entry 11 (Some KDouble) 8 True 0 Double_members,
     entry 12 (Some KString) 16 False 0 String_members,
     entry 13 (Some KDateTime) 8 True 0 DateTime_members,
     entry 14 (Some KGuid) 16 True 0 Guid_members,
     entry 15 (Some KByteString) 16 False 0 ByteString_members,
     entry 16 (Some KXmlElement) 16 False 0 XmlElement_members,
     entry 17 (Some KNodeId) 24 False 0 NodeId_members,
     entry 18 (Some KExpandedNodeId) 48 False 0 ExpandedNodeId_members,
     entry 19 (Some KStatusCode) 4 True 0 StatusCode_members,
     entry 20 (Some KQualifiedName) 24 False 0 QualifiedName_members,
     entry 21 (Some KLocalizedText) 32 False 0 LocalizedText_members,
     entry 22 (Some KExtensionObject) 48 False 0 ExtensionObject_members,
     entry 23 (Some KDataValue) 96 False 0 DataValue_members,
     entry 24 (Some KVariant) 48 False 0 Variant_members,
     entry 25 (Some KDiagnosticInfo) 56 False 0 DiagnosticInfo_members,
     entry 344 None 32 False 346 SignedSoftwareCertificate_members,
     entry 546 None 56 False 548 BrowsePathTarget_members,
     entry 373 None 88 False 375 ViewAttributes_members,
     entry 6 (Some KInt32) 4 True 0 BrowseResultMask_members,
     entry 389 None 112 False 391 RequestHeader_members,
     entry 758 None 72 False 760 MonitoredItemModifyResult_members,
     entry 450 None 112 False 452 CloseSecureChannelRequest_members,
     entry 483 None 32 False 485 AddNodesResult_members,
     entry 355 None 200 False 357 VariableAttributes_members,
     entry 803 None 32 False 805 NotificationMessage_members,
     entry 6 (Some KInt32) 4 True 0 NodeAttributesMask_members,
     entry 6 (Some KInt32) 4 True 0 MonitoringMode_members,
     entry 707 None 56 False 709 CallMethodResult_members,
     entry 610 None 40 False 612 ParsingResult_members,
     entry 537 None 56 False 539 RelativePathElement_members,
     entry 6 (Some KInt32) 4 True 0 BrowseDirection_members,
     entry 704 None 64 False 706 CallMethodRequest_members,
     entry 564 None 128 False 566 UnregisterNodesRequest_members,
     entry 604 None 40 False 606 ContentFilterElementResult_members,
     entry 577 None 112 False 579 QueryDataSet_members,
     entry 319 None 16 False 321 AnonymousIdentityToken_members,
     entry 797 None 136 False 799 SetPublishingModeRequest_members,
     entry 6 (Some KInt32) 4 True 0 TimestampsToReturn_members,
     entry 710 None 128 False 712 CallRequest_members,
     entry 358 None 88 False 360 MethodAttributes_members,
     entry 385 None 112 False 387 DeleteReferencesItem_members,
     entry 668 None 144 False 670 WriteValue_members,
     entry 746 None 72 False 748 MonitoredItemCreateResult_members,
     entry 6 (Some KInt32) 4 True 0 MessageSecurityMode_members,
     entry 740 None 72 False 742 MonitoringParameters_members,
     entry 456 None 32 False 458 SignatureData_members,
     entry 285 None 80 False 287 ReferenceNode_members,
     entry 296 None 96 False 298 Argument_members,
     entry 316 None 16 False 318 UserIdentityToken_members,
     entry 361 None 88 False 363 ObjectTypeAttributes_members,
     entry 6 (Some KInt32) 4 True 0 DeadbandType_members,
     entry 6 (Some KInt32) 4 True 0 SecurityTokenRequestType_members,
     entry 6 (Some KInt32) 4 True 0 DataChangeTrigger_members,
     entry 338 None 88 False 340 BuildInfo_members,
     entry 6 (Some KInt32) 4 True 0 NodeClass_members,
     entry 441 None 24 True 443 ChannelSecurityToken_members,
     entry 806 None 104 False 808 MonitoredItemNotification_members,
     entry 382 None 32 False 384 DeleteNodesItem_members,
     entry 821 None 8 True 823 SubscriptionAcknowledgement_members,
     entry 626 None 72 False 628 ReadValueId_members,
     entry 370 None 88 False 372 DataTypeAttributes_members,
     entry 392 None 136 False 394 ResponseHeader_members,
     entry 845 None 128 False 847 DeleteSubscriptionsRequest_members,
     entry 511 None 40 False 513 ViewDescription_members,
     entry 782 None 168 False 784 DeleteMonitoredItemsResponse_members,
     entry 349 None 80 False 351 NodeAttributes_members,
     entry 558 None 128 False 560 RegisterNodesRequest_members,
     entry 498 None 128 False 500 DeleteNodesRequest_members,
     entry 827 None 232 False 829 PublishResponse_members,
     entry 755 None 80 False 757 MonitoredItemModifyRequest_members,
     entry 322 None 64 False 324 UserNameIdentityToken_members,
     entry 6 (Some KInt32) 4 True 0 IdType_members,
     entry 6 (Some KInt32) 4 True 0 UserTokenType_members,
     entry 465 None 256 False 467 ActivateSessionRequest_members,
     entry 447 None 184 False 449 OpenSecureChannelResponse_members,
     entry 6 (Some KInt32) 4 True 0 ApplicationType_members,
     entry 6 (Some KInt32) 4 True 0 ServerState_members,
     entry 622 None 168 False 624 QueryNextResponse_members,
     entry 468 None 184 False 470 ActivateSessionResponse_members,
     entry 6 (Some KInt32) 4 True 0 FilterOperator_members,
     entry 619 None 136 False 621 QueryNextRequest_members,
     entry 674 None 168 False 676 WriteResponse_members,
     entry 531 None 136 False 533 BrowseNextRequest_members,
     entry 785 None 136 False 787 CreateSubscriptionRequest_members,
     entry 364 None 184 False 366 VariableTypeAttributes_members,
     entry 549 None 24 False 551 BrowsePathResult_members,
     entry 794 None 152 False 796 ModifySubscriptionResponse_members,
     entry 444 None 152 False 446 OpenSecureChannelRequest_members,
     entry 561 None 152 False 563 RegisterNodesResponse_members,
     entry 471 None 120 False 473 CloseSessionRequest_members,
     entry 791 None 144 False 793 ModifySubscriptionRequest_members,
     entry 304 None 72 False 306 UserTokenPolicy_members,
     entry 779 None 136 False 781 DeleteMonitoredItemsRequest_members,
     entry 367 None 120 False 369 ReferenceTypeAttributes_members,
     entry 767 None 136 False 769 SetMonitoringModeRequest_members,
     entry 567 None 136 False 569 UnregisterNodesResponse_members,
     entry 671 None 128 False 673 WriteRequest_members,
     entry 352 None 88 False 354 ObjectAttributes_members,
     entry 514 None 72 False 516 BrowseDescription_members,
     entry 830 None 120 False 832 RepublishRequest_members,
     entry 426 None 160 False 428 GetEndpointsRequest_members,
     entry 824 None 128 False 826 PublishRequest_members,
     entry 489 None 168 False 491 AddNodesResponse_members,
     entry 809 None 32 False 811 DataChangeNotification_members,
     entry 453 None 136 False 455 CloseSecureChannelResponse_members,
     entry 761 None 136 False 763 ModifyMonitoredItemsRequest_members,
     entry 770 None 168 False 772 SetMonitoringModeResponse_members,
     entry 420 None 160 False 422 FindServersRequest_members,
     entry 518 None 192 False 520 ReferenceDescription_members,
     entry 800 None 168 False 802 SetPublishingModeResponse_members,
     entry 607 None 32 False 609 ContentFilterResult_members,
     entry 379 None 128 False 381 AddReferencesItem_members,
     entry 788 None 160 False 790 CreateSubscriptionResponse_members,
     entry 848 None 168 False 850 DeleteSubscriptionsResponse_members,
     entry 540 None 16 False 542 RelativePath_members,
     entry 507 None 168 False 509 DeleteReferencesResponse_members,
     entry 752 None 168 False 754 CreateMonitoredItemsResponse_members,
     entry 713 None 168 False 715 CallResponse_members,
     entry 501 None 168 False 503 DeleteNodesResponse_members,
     entry 833 None 168 False 835 RepublishResponse_members,
     entry 743 None 152 False 745 MonitoredItemCreateRequest_members,
     entry 504 None 128 False 506 DeleteReferencesRequest_members,
     entry 764 None 168 False 766 ModifyMonitoredItemsResponse_members,
     entry 632 None 168 False 634 ReadResponse_members,
     entry 492 None 128 False 494 AddReferencesRequest_members,
     entry 629 None 144 False 631 ReadRequest_members,
     entry 376 None 248 False 378 AddNodesItem_members,
     entry 862 None 152 False 864 ServerStatusDataType_members,
     entry 495 None 168 False 497 AddReferencesResponse_members,
     entry 555 None 168 False 557 TranslateBrowsePathsToNodeIdsResponse_members,
     entry 722 None 16 True 724 DataChangeFilter_members,
     entry 583 None 24 False 585 ContentFilterElement_members,
     entry 474 None 136 False 476 CloseSessionResponse_members,
     entry 308 None 120 False 310 ApplicationDescription_members,
     entry 395 None 136 False 397 ServiceFault_members,
     entry 423 None 152 False 425 FindServersResponse_members,
     entry 749 None 136 False 751 CreateMonitoredItemsRequest_members,
     entry 586 None 16 False 588 ContentFilter_members,
     entry 616 None 232 False 618 QueryFirstResponse_members,
     entry 486 None 128 False 488 AddNodesRequest_members,
     entry 525 None 176 False 527 BrowseRequest_members,
     entry 543 None 40 False 545 BrowsePath_members,
     entry 522 None 40 False 524 BrowseResult_members,
     entry 459 None 328 False 461 CreateSessionRequest_members,
     entry 570 None 40 False 572 QueryDataDescription_members,
     entry 312 None 216 False 314 EndpointDescription_members,
     entry 429 None 152 False 431 GetEndpointsResponse_members,
     entry 573 None 72 False 575 NodeTypeDescription_members,
     entry 534 None 168 False 536 BrowseNextResponse_members,
     entry 552 None 128 False 554 TranslateBrowsePathsToNodeIdsRequest_members,
     entry 528 None 168 False 530 BrowseResponse_members,
     entry 462 None 296 False 464 CreateSessionResponse_members,
     entry 613 None 192 False 615 QueryFirstRequest_members]"

definition UA_TRANSPORT :: types where
  "UA_TRANSPORT =
    [entry 0 None 24 False 0 SecureConversationMessageAbortBody_members,
     entry 0 None 24 False 0 SecureConversationMessageFooter_members,
     entry 0 None 40 False 0 TcpHelloMessage_members,
     entry 0 None 24 False 0 TcpErrorMessage_members,
     entry 0 (Some KInt32) 4 True 0 MessageType_members,
     entry 0 None 48 False 0 AsymmetricAlgorithmSecurityHeader_members,
     entry 0 None 20 True 0 TcpAcknowledgeMessage_members,
     entry 0 None 8 True 0 SequenceHeader_members,
     entry 0 None 8 True 0 TcpMessageHeader_members,
     entry 0 (Some KInt32) 4 True 0 ChunkType_members,
     entry 0 None 4 True 0 SymmetricAlgorithmSecurityHeader_members,
     entry 0 None 12 True 0 SecureConversationMessageHeader_members]"

lemmas entry_defs = one_def many_def own_one_def entry_def

lemmas member_defs =
  Boolean_members_def SByte_members_def Byte_members_def Int16_members_def UInt16_members_def
  Int32_members_def UInt32_members_def Int64_members_def UInt64_members_def Float_members_def
  Double_members_def String_members_def DateTime_members_def Guid_members_def
  ByteString_members_def XmlElement_members_def NodeId_members_def ExpandedNodeId_members_def
  StatusCode_members_def QualifiedName_members_def LocalizedText_members_def
  ExtensionObject_members_def DataValue_members_def Variant_members_def
  DiagnosticInfo_members_def SignedSoftwareCertificate_members_def BrowsePathTarget_members_def
  ViewAttributes_members_def BrowseResultMask_members_def RequestHeader_members_def
  MonitoredItemModifyResult_members_def CloseSecureChannelRequest_members_def
  AddNodesResult_members_def VariableAttributes_members_def NotificationMessage_members_def
  NodeAttributesMask_members_def MonitoringMode_members_def CallMethodResult_members_def
  ParsingResult_members_def RelativePathElement_members_def BrowseDirection_members_def
  CallMethodRequest_members_def UnregisterNodesRequest_members_def
  ContentFilterElementResult_members_def QueryDataSet_members_def
  AnonymousIdentityToken_members_def SetPublishingModeRequest_members_def
  TimestampsToReturn_members_def CallRequest_members_def MethodAttributes_members_def
  DeleteReferencesItem_members_def WriteValue_members_def MonitoredItemCreateResult_members_def
  MessageSecurityMode_members_def MonitoringParameters_members_def SignatureData_members_def
  ReferenceNode_members_def Argument_members_def UserIdentityToken_members_def
  ObjectTypeAttributes_members_def DeadbandType_members_def SecurityTokenRequestType_members_def
  DataChangeTrigger_members_def BuildInfo_members_def NodeClass_members_def
  ChannelSecurityToken_members_def MonitoredItemNotification_members_def
  DeleteNodesItem_members_def SubscriptionAcknowledgement_members_def ReadValueId_members_def
  DataTypeAttributes_members_def ResponseHeader_members_def
  DeleteSubscriptionsRequest_members_def ViewDescription_members_def
  DeleteMonitoredItemsResponse_members_def NodeAttributes_members_def
  RegisterNodesRequest_members_def DeleteNodesRequest_members_def PublishResponse_members_def
  MonitoredItemModifyRequest_members_def UserNameIdentityToken_members_def IdType_members_def
  UserTokenType_members_def ActivateSessionRequest_members_def
  OpenSecureChannelResponse_members_def ApplicationType_members_def ServerState_members_def
  QueryNextResponse_members_def ActivateSessionResponse_members_def FilterOperator_members_def
  QueryNextRequest_members_def WriteResponse_members_def BrowseNextRequest_members_def
  CreateSubscriptionRequest_members_def VariableTypeAttributes_members_def
  BrowsePathResult_members_def ModifySubscriptionResponse_members_def
  OpenSecureChannelRequest_members_def RegisterNodesResponse_members_def
  CloseSessionRequest_members_def ModifySubscriptionRequest_members_def
  UserTokenPolicy_members_def DeleteMonitoredItemsRequest_members_def
  ReferenceTypeAttributes_members_def SetMonitoringModeRequest_members_def
  UnregisterNodesResponse_members_def WriteRequest_members_def ObjectAttributes_members_def
  BrowseDescription_members_def RepublishRequest_members_def GetEndpointsRequest_members_def
  PublishRequest_members_def AddNodesResponse_members_def DataChangeNotification_members_def
  CloseSecureChannelResponse_members_def ModifyMonitoredItemsRequest_members_def
  SetMonitoringModeResponse_members_def FindServersRequest_members_def
  ReferenceDescription_members_def SetPublishingModeResponse_members_def
  ContentFilterResult_members_def AddReferencesItem_members_def
  CreateSubscriptionResponse_members_def DeleteSubscriptionsResponse_members_def
  RelativePath_members_def DeleteReferencesResponse_members_def
  CreateMonitoredItemsResponse_members_def CallResponse_members_def
  DeleteNodesResponse_members_def RepublishResponse_members_def
  MonitoredItemCreateRequest_members_def DeleteReferencesRequest_members_def
  ModifyMonitoredItemsResponse_members_def ReadResponse_members_def
  AddReferencesRequest_members_def ReadRequest_members_def AddNodesItem_members_def
  ServerStatusDataType_members_def AddReferencesResponse_members_def
  TranslateBrowsePathsToNodeIdsResponse_members_def DataChangeFilter_members_def
  ContentFilterElement_members_def CloseSessionResponse_members_def
  ApplicationDescription_members_def ServiceFault_members_def FindServersResponse_members_def
  CreateMonitoredItemsRequest_members_def ContentFilter_members_def
  QueryFirstResponse_members_def AddNodesRequest_members_def BrowseRequest_members_def
  BrowsePath_members_def BrowseResult_members_def CreateSessionRequest_members_def
  QueryDataDescription_members_def EndpointDescription_members_def
  GetEndpointsResponse_members_def NodeTypeDescription_members_def
  BrowseNextResponse_members_def TranslateBrowsePathsToNodeIdsRequest_members_def
  BrowseResponse_members_def CreateSessionResponse_members_def QueryFirstRequest_members_def
  SecureConversationMessageAbortBody_members_def SecureConversationMessageFooter_members_def
  TcpHelloMessage_members_def TcpErrorMessage_members_def MessageType_members_def
  AsymmetricAlgorithmSecurityHeader_members_def TcpAcknowledgeMessage_members_def
  SequenceHeader_members_def TcpMessageHeader_members_def ChunkType_members_def
  SymmetricAlgorithmSecurityHeader_members_def SecureConversationMessageHeader_members_def

end
