(* ===== verification/BinSpec.thy ===== *)
theory BinSpec
  imports BinCodec
begin

text \<open>
  The wire format as an inductive relation, and the proof that the encoder, the decoder and the
  size computation implement it: \<open>wire T n own d v bs\<close> says that \<open>bs\<close> is the encoding of the
  value \<open>v\<close> of the type \<open>d\<close> of the table \<open>own\<close>, with less than \<open>n\<close> levels of nesting.  It covers the
  values that survive the trip: what is left out (diagnostic infos with an inner part, variants of
  arrays of structures, arrays of elements much smaller on the wire than in memory) does not
  decode to what was encoded.
\<close>

section \<open>The format\<close>

text \<open>The kinds whose values are leaves, with the size their descriptor must give.\<close>

fun leaf_bytes :: "bt \<Rightarrow> uval \<Rightarrow> byte list option" where
  "leaf_bytes k (VB b) = (if k \<in> {KSByte, KByte} \<or> k = KBoolean \<and> (b = 0 \<or> b = 1) then Some [b] else None)"
| "leaf_bytes k (V16 w) = (if fits k (V16 w) then Some (UA_encode16 w) else None)"
| "leaf_bytes k (V32 w) = (if fits k (V32 w) then Some (UA_encode32 w) else None)"
| "leaf_bytes k (V64 w) = (if fits k (V64 w) then Some (UA_encode64 w) else None)"
| "leaf_bytes k (VStr s) = (if fits k (VStr s) \<and> ustring_ok s then Some (string_bytes s) else None)"
| "leaf_bytes k (VGuid g) = (if k = KGuid \<and> guid_ok g then Some (guid_bytes g) else None)"
| "leaf_bytes k (VNode i) = (if k = KNodeId \<and> nodeid_ok i then Some (nodeid_bytes 0 i) else None)"
| "leaf_bytes k (VExp e) = (if k = KExpandedNodeId \<and> expanded_ok e then Some (expanded_bytes e) else None)"
| "leaf_bytes k (VLoc l t) =
     (if k = KLocalizedText \<and> loctext_ok (l, t) then Some (loctext_bytes (l, t)) else None)"
| "leaf_bytes k v = None"

fun fixed_size :: "bt \<Rightarrow> nat option" where
  "fixed_size KBoolean = Some 1" | "fixed_size KSByte = Some 1" | "fixed_size KByte = Some 1"
| "fixed_size KInt16 = Some 2" | "fixed_size KUInt16 = Some 2"
| "fixed_size KInt32 = Some 4" | "fixed_size KUInt32 = Some 4" | "fixed_size KFloat = Some 4"
| "fixed_size KStatusCode = Some 4"
| "fixed_size KInt64 = Some 8" | "fixed_size KUInt64 = Some 8" | "fixed_size KDouble = Some 8"
| "fixed_size KDateTime = Some 8" | "fixed_size KGuid = Some 16"
| "fixed_size _ = None"

text \<open>
  What the generated tables guarantee of a builtin type's descriptor: the memory size of a
  fixed-size type is its size on the wire, and only such types are overlayable.
\<close>

definition desc_ok :: "udesc \<Rightarrow> bool" where
  "desc_ok d = (case builtin d of
       None \<Rightarrow> \<not> overlayable d
     | Some k \<Rightarrow> (case fixed_size k of Some z \<Rightarrow> memSize d = z | None \<Rightarrow> \<not> overlayable d))"

definition opt_bytes :: "('a \<Rightarrow> byte list) \<Rightarrow> 'a option \<Rightarrow> byte list" where
  "opt_bytes f x = (case x of None \<Rightarrow> [] | Some a \<Rightarrow> f a)"

definition is_ext_dec :: "uval \<Rightarrow> bool" where
  "is_ext_dec v = (case v of VExtDec i w \<Rightarrow> True | _ \<Rightarrow> False)"

text \<open>The structure types that may be announced by their binary encoding identifier.\<close>

definition announces :: "types \<Rightarrow> nat \<Rightarrow> udesc \<Rightarrow> bool" where
  "announces T i d \<longleftrightarrow> type_at T i = Some d \<and> is_numeric (typeId d) \<and>
     findDataTypeByBinary T (binaryEncodingId d) = Some i \<and>
     NodeId_calcSizeBinary (typeId d) = NodeId_calcSizeBinary (encoding_id d)"

definition ext_header :: "udesc \<Rightarrow> nat \<Rightarrow> byte list" where
  "ext_header d len = nodeid_bytes 0 (encoding_id d) @ [1] @ UA_encode32 (of_nat len)"

definition pico_ok :: "u16 option \<Rightarrow> bool" where
  "pico_ok p = (case p of None \<Rightarrow> True | Some x \<Rightarrow> x \<le> 9999)"

inductive wire :: "types \<Rightarrow> nat \<Rightarrow> types \<Rightarrow> udesc \<Rightarrow> uval \<Rightarrow> byte list \<Rightarrow> bool"
  and wire_mems :: "types \<Rightarrow> nat \<Rightarrow> types \<Rightarrow> member list \<Rightarrow> uval list \<Rightarrow> byte list \<Rightarrow> bool"
  and wire_list :: "types \<Rightarrow> nat \<Rightarrow> types \<Rightarrow> udesc \<Rightarrow> uval list \<Rightarrow> byte list \<Rightarrow> bool"
  and wire_array :: "types \<Rightarrow> nat \<Rightarrow> types \<Rightarrow> udesc \<Rightarrow> uval list option \<Rightarrow> byte list \<Rightarrow> bool"
  for T :: types where
  leaf: "builtin d = Some k \<Longrightarrow> leaf_bytes k v = Some bs \<Longrightarrow> desc_ok d \<Longrightarrow>
     wire T (Suc n) own d v bs"
| struct: "builtin d = None \<or> builtin d = Some KQualifiedName \<Longrightarrow>
     wire_mems T n own (members d) vs bs \<Longrightarrow> wire T (Suc n) own d (VStruct vs) bs"
| ext_body: "builtin d = Some KExtensionObject \<Longrightarrow> nodeid_ok i \<Longrightarrow> is_numeric i \<Longrightarrow>
     e = 0 \<and> body = None \<or> e = 2 \<or> e = 1 \<and> findDataTypeByBinary T (numeric_of i) = None \<Longrightarrow>
     ustring_ok body \<Longrightarrow>
     wire T (Suc n) own d (VExtEnc e i body)
       (nodeid_bytes 0 i @ [e] @ (if e = 0 then [] else string_bytes body))"
| ext_dec: "builtin d = Some KExtensionObject \<Longrightarrow> announces T i d' \<Longrightarrow>
     wire T n T d' w b \<Longrightarrow> length b \<le> 0x7FFFFFFF \<Longrightarrow>
     wire T (Suc n) own d (VExtDec i w) (ext_header d' (length b) @ b)"
| var_empty: "builtin d = Some KVariant \<Longrightarrow> wire T (Suc n) own d VVarEmpty [0]"
| var_scalar: "builtin d = Some KVariant \<Longrightarrow> type_at T i = Some d' \<Longrightarrow> builtin d' = Some k \<Longrightarrow>
     bt_index k = i \<Longrightarrow> \<not> is_ext_dec w \<Longrightarrow> wire T n T d' w b \<Longrightarrow>
     wire T (Suc n) own d (VVarScalar i w) ([of_nat (i + 1)] @ b)"
| var_struct: "builtin d = Some KVariant \<Longrightarrow> announces T i d' \<Longrightarrow> builtin d' = None \<Longrightarrow>
     namespaceIndex (typeId d') = 0 \<Longrightarrow> wire T n T d' w b \<Longrightarrow> length b \<le> 0x7FFFFFFF \<Longrightarrow>
     21 < length T \<Longrightarrow> wire T (Suc n) own d (VVarScalar i w) ([22] @ ext_header d' (length b) @ b)"
| var_array: "builtin d = Some KVariant \<Longrightarrow> type_at T i = Some d' \<Longrightarrow> builtin d' = Some k \<Longrightarrow>
     bt_index k = i \<Longrightarrow> wire_array T n T d' ws b \<Longrightarrow>
     wire T (Suc n) own d (VVarArray i ws []) ([of_nat (i + 1) OR 0x80] @ b)"
| var_matrix: "builtin d = Some KVariant \<Longrightarrow> type_at T i = Some d' \<Longrightarrow> builtin d' = Some k \<Longrightarrow>
     bt_index k = i \<Longrightarrow> wire_array T n T d' ws b \<Longrightarrow> dims \<noteq> [] \<Longrightarrow>
     type_at T 5 = Some int32 \<Longrightarrow> wire_array T n T int32 (Some (map V32 dims)) b' \<Longrightarrow>
     length b' = 4 + 4 * length dims \<Longrightarrow>
     wire T (Suc n) own d (VVarArray i ws dims) ([of_nat (i + 1) OR 0xC0] @ b @ b')"
| data_value: "builtin d = Some KDataValue \<Longrightarrow> type_at T 23 = Some dv \<Longrightarrow>
     wire T n T dv w b \<Longrightarrow> pico_ok sps \<Longrightarrow> pico_ok svps \<Longrightarrow>
     wire T (Suc n) own d (VDataValue (Some w) st sts sps svts svps)
       ([1 OR bit_if st 2 OR bit_if sts 4 OR bit_if svts 8 OR bit_if sps 16 OR bit_if svps 32] @ b @
        opt_bytes UA_encode32 st @ opt_bytes UA_encode64 sts @ opt_bytes UA_encode16 sps @
        opt_bytes UA_encode64 svts @ opt_bytes UA_encode16 svps)"
| no_value: "builtin d = Some KDataValue \<Longrightarrow> type_at T 23 = Some dv \<Longrightarrow> pico_ok sps \<Longrightarrow> pico_ok svps \<Longrightarrow>
     wire T (Suc n) own d (VDataValue None st sts sps svts svps)
       ([bit_if st 2 OR bit_if sts 4 OR bit_if svts 8 OR bit_if sps 16 OR bit_if svps 32] @
        opt_bytes UA_encode32 st @ opt_bytes UA_encode64 sts @ opt_bytes UA_encode16 sps @
        opt_bytes UA_encode64 svts @ opt_bytes UA_encode16 svps)"
| diag: "builtin d = Some KDiagnosticInfo \<Longrightarrow> (case info of None \<Rightarrow> True | Some t \<Rightarrow> ustring_ok t) \<Longrightarrow>
     wire T (Suc n) own d (VDiag sid nsu lt loc info None None)
       ([bit_if sid 1 OR bit_if nsu 2 OR bit_if lt 4 OR bit_if loc 8 OR bit_if info 16] @
        opt_bytes UA_encode32 sid @ opt_bytes UA_encode32 nsu @ opt_bytes UA_encode32 lt @
        opt_bytes UA_encode32 loc @ opt_bytes string_bytes info)"
| mems_nil: "wire_mems T n own [] [] []"
| mems_one: "\<not> isArray m \<Longrightarrow> member_type T own m = Some (tab, d) \<Longrightarrow> wire T n tab d v b \<Longrightarrow>
     wire_mems T n own ms vs bs \<Longrightarrow> wire_mems T n own (m # ms) (v # vs) (b @ bs)"
| mems_array: "isArray m \<Longrightarrow> member_type T own m = Some (tab, d) \<Longrightarrow> wire_array T n tab d ws b \<Longrightarrow>
     wire_mems T n own ms vs bs \<Longrightarrow> wire_mems T n own (m # ms) (VArray ws # vs) (b @ bs)"
| list_nil: "wire_list T n own d [] []"
| list_cons: "wire T n own d v b \<Longrightarrow> wire_list T n own d vs bs \<Longrightarrow>
     wire_list T n own d (v # vs) (b @ bs)"
| array_null: "wire_array T n own d None (UA_encode32 (- 1))"
| array_some: "wire_list T n own d vs bs \<Longrightarrow> length vs \<le> 0x7FFFFFFF \<Longrightarrow> desc_ok d \<Longrightarrow>
     overlayable d \<or> memSize d * length vs div 32 \<le> length bs \<Longrightarrow>
     wire_array T n own d (Some vs) (UA_encode32 (of_nat (length vs)) @ bs)"


inductive_cases wire_listE: "wire_list T n own d vs bs"
inductive_simps wire_list_simps: "wire_list T n own d [] bs" "wire_list T n own d (v # vs) bs"
inductive_simps wire_mems_simps: "wire_mems T n own [] vs bs"

section \<open>Overlayable types\<close>

lemma leaf_fixed_size:
  assumes "leaf_bytes k v = Some bs" "fixed_size k = Some z"
  shows "length bs = z \<and> raw v = bs"
  using assms by (cases v; cases k) (auto simp: guid_bytes_def guid_ok_def split: if_splits)

lemma wire_overlayable:
  assumes "wire T n own d v bs" "desc_ok d" "overlayable d"
  shows "length bs = memSize d \<and> raw v = bs"
  using assms
  by cases (auto simp: desc_ok_def dest: leaf_fixed_size split: option.splits)

lemma wire_list_overlayable:
  assumes "desc_ok d" "overlayable d" "wire_list T n own d vs bs"
  shows "length bs = memSize d * length vs \<and> concat (map raw vs) = bs"
  using assms(3)
proof (induction vs arbitrary: bs)
  case (Cons v vs)
  then show ?case
    using wire_overlayable[OF _ assms(1,2)] by (auto simp: wire_list_simps)
qed (simp add: wire_list_simps)

section \<open>The computed size is the size on the wire\<close>

lemma length_nodeid_bytes: "nodeid_ok i \<Longrightarrow> length (nodeid_bytes m i) = NodeId_calcSizeBinary i"
  by (auto simp: nodeid_bytes_defs NodeId_calcSizeBinary_def nodeid_ok_def String_calcSizeBinary_def
      string_bytes_def guid_bytes_def guid_ok_def split: nodeid_ident.splits)

lemma length_opt_bytes:
  "length (opt_bytes UA_encode16 a) = opt_size 2 a" "length (opt_bytes UA_encode32 b) = opt_size 4 b"
  "length (opt_bytes UA_encode64 c) = opt_size 8 c"
  by (auto simp: opt_bytes_def opt_size_def split: option.splits)

lemma leaf_calcSize:
  assumes "builtin d = Some k" "leaf_bytes k v = Some bs" "desc_ok d"
  shows "calcSize T (Suc n) own d v = Done (length bs)"
  using assms
  by (cases v; cases k)
     (auto simp: desc_ok_def String_calcSizeBinary_def string_bytes_def length_nodeid_bytes
       guid_bytes_def guid_ok_def ExpandedNodeId_calcSizeBinary_def expanded_bytes_def expanded_ok_def
       LocalizedText_calcSizeBinary_def loctext_bytes_def loctext_ok_def real_data_def ubytes_def
       split: if_splits option.splits)


lemma encoding_id_size:
  "announces T i d \<Longrightarrow> length (nodeid_bytes 0 (encoding_id d)) = NodeId_calcSizeBinary (typeId d)"
  by (simp add: announces_def length_nodeid_bytes nodeid_ok_def encoding_id_def)

lemma array_size:
  assumes "wire_list T n own d vs bs" "desc_ok d"
    and "sum_outcome (calcSize T n own d) vs = Done (length bs)"
  shows "Array_calcSizeBinary (calcSize T n own d) d vs = Done (4 + length bs)"
  using assms wire_list_overlayable[of d T n own vs bs] by (auto simp: Array_calcSizeBinary_def)

lemma bind_Done [simp]: "bind m Done = m"
  by (cases m) simp_all

lemma wire_calcSize:
  shows "wire T n own d v bs \<Longrightarrow> calcSize T n own d v = Done (length bs)"
    and "wire_mems T n own ms vs bs \<Longrightarrow> length vs = length ms \<and>
      sum_outcome (\<lambda>(m, w). case member_type T own m of
            None \<Rightarrow> Undefined
          | Some (tab, d') \<Rightarrow>
              if isArray m then
                (case w of VArray ws \<Rightarrow> Array_calcSizeBinary (calcSize T n tab d') d' (elems ws)
                         | _ \<Rightarrow> Undefined)
              else calcSize T n tab d' w) (zip ms vs) = Done (length bs)"
    and "wire_list T n own d vs bs \<Longrightarrow> sum_outcome (calcSize T n own d) vs = Done (length bs)"
    and "wire_array T n own d ws bs \<Longrightarrow>
      Array_calcSizeBinary (calcSize T n own d) d (elems ws) = Done (length bs) \<and>
      sum_outcome (calcSize T n own d) (elems ws) = Done (length bs - 4) \<and> 4 \<le> length bs"
proof (induction rule: wire_wire_mems_wire_list_wire_array.inducts)
  case (leaf d k v bs n own)
  then show ?case by (rule leaf_calcSize)
next
  case (struct d n own vs bs)
  then show ?case by (elim disjE) simp_all
next
  case (ext_body d i e body n own)
  then show ?case
    by (elim disjE) (simp_all add: length_nodeid_bytes String_calcSizeBinary_def string_bytes_def)
next
  case (ext_dec d i d' n w b own)
  have "announces T i d'" using ext_dec by blast
  from encoding_id_size[OF this] ext_dec show ?case
    by (simp add: announces_def ext_header_def)
next
  case (array_some n own d vs bs)
  then show ?case using array_size[of T n own d vs bs] by (simp add: elems_def)
next
  case (diag d info n own sid nsu lt loc)
  have "length (opt_bytes string_bytes info) = (case info of None \<Rightarrow> 0 | Some t \<Rightarrow> String_calcSizeBinary t)"
    by (cases info) (simp_all add: opt_bytes_def String_calcSizeBinary_def string_bytes_def)
  with diag show ?case
    by (simp add: length_opt_bytes opt_size_def[of _ None])
next
  case (array_null n own d)
  then show ?case by (simp add: elems_def Array_calcSizeBinary_def)
qed (auto simp: length_opt_bytes announces_def ext_header_def encoding_id_size)


section \<open>The encoder writes the wire format\<close>

lemma writes_ext_eq: "(\<And>c. f c = g c) \<Longrightarrow> writes g bs \<Longrightarrow> writes f bs"
  by (simp add: writes_def)

lemma writes_complex_nil: "writes (Array_encodeBinaryComplex fuel xb f []) []"
  by (simp add: writes_def)

lemma writes_complex_cons:
  assumes "writes (f v) a" "writes (Array_encodeBinaryComplex fuel xb f vs) b"
  shows "writes (Array_encodeBinaryComplex fuel xb f (v # vs)) (a @ b)"
  unfolding writes_def using writesD[OF assms(1)] writesD[OF assms(2)] by simp

lemma writes_members_nil: "writes (encode_members fuel xb f [] []) []"
  by (simp add: writes_def)

lemma writes_members_cons:
  assumes "writes (f m v) a" "writes (encode_members fuel xb f ms vs) b"
  shows "writes (encode_members fuel xb f (m # ms) (v # vs)) (a @ b)"
  unfolding writes_def using writesD[OF assms(1)] writesD[OF assms(2)] by simp

lemma writes_u32: "writes (UInt32_encodeBinary w) (UA_encode32 w)"
  by (simp add: UInt32_encodeBinary_def writes_put)

lemma writes_array:
  assumes "length vs \<le> 0x7FFFFFFF"
    and "\<not> overlayable d \<Longrightarrow> writes (Array_encodeBinaryComplex fuel xb f vs) bs"
    and "overlayable d \<Longrightarrow> concat (map raw vs) = bs" and "vs = [] \<Longrightarrow> bs = []"
  shows "writes (Array_encodeBinary fuel xb f d (Some vs)) (UA_encode32 (of_nat (length vs)) @ bs)"
  unfolding writes_def Array_encodeBinary_def
  using assms(1) assms(3,4) writesD[OF assms(2)]
  by (auto simp: elems_def array_length_field_def writesD[OF writes_u32] overlayable_fits)

lemma writes_opt:
  "(\<And>a. x = Some a \<Longrightarrow> writes (f a) (g a)) \<Longrightarrow> writes (opt_enc f x) (opt_bytes g x)"
  by (cases x) (auto simp: opt_enc_def opt_bytes_def writes_skip)

lemma leaf_writes:
  assumes "builtin d = Some k" "leaf_bytes k v = Some bs"
  shows "writes (encode_jump T fuel xb (Suc n) own d v) bs"
  unfolding writes_def using assms
  by (cases v)
     (auto simp: Byte_encodeBinary_def UInt16_encodeBinary_def UInt64_encodeBinary_def
       writesD[OF writes_put] writesD[OF writes_u32] writesD[OF writes_string]
       writesD[OF writes_guid] writesD[OF writes_nodeid] writesD[OF writes_expanded]
       writesD[OF writes_loctext[where lt = "(a, b)" for a b, simplified]] split: if_splits)

lemma writes_ext_dec:
  assumes "announces T i d" "calcSize T n T d w = Done (length b)" "length b \<le> 0x7FFFFFFF"
    and "writes (e d w) b"
  shows "writes (ExtensionObject_encodeBinary T fuel xb e (calcSize T n T) (VExtDec i w))
           (ext_header d (length b) @ b)"
proof -
  have ok: "nodeid_ok (encoding_id d)"
    by (simp add: nodeid_ok_def encoding_id_def)
  have 1: "writes (or_then (NodeId_encodeBinary fuel xb (encoding_id d)) (Byte_encodeBinary 1))
      (nodeid_bytes 0 (encoding_id d) @ [1])"
    by (intro writes_or_then writes_nodeid ok) (simp add: Byte_encodeBinary_def writes_put)
  have 2: "writes (or_then (UInt32_encodeBinary (of_nat (length b))) (e d w))
      (UA_encode32 (of_nat (length b)) @ b)"
    by (intro writes_or_then writes_u32 assms)
  show ?thesis
    unfolding writes_def ExtensionObject_encodeBinary_def
    using assms(1-3) by (auto simp: announces_def ext_header_def writesD[OF 1] writesD[OF 2])
qed


lemma variant_mask:
  "0x3F AND of_nat (bt_index k + 1) = (of_nat (bt_index k + 1) :: byte)"
  by (cases k) simp_all

lemma wire_list_nil: "wire_list T n own d [] bs \<Longrightarrow> bs = []"
  by (simp add: wire_list_simps)

lemma writes_byte: "writes (Byte_encodeBinary b) [b]"
  by (simp add: Byte_encodeBinary_def writes_put)

lemma writes_u16: "writes (UInt16_encodeBinary w) (UA_encode16 w)"
  by (simp add: UInt16_encodeBinary_def writes_put)

lemma writes_u64: "writes (UInt64_encodeBinary w) (UA_encode64 w)"
  by (simp add: UInt64_encodeBinary_def writes_put)

lemma encode_jump_variant:
  "builtin d = Some KVariant \<Longrightarrow> fits KVariant v \<Longrightarrow>
   encode_jump T fuel xb (Suc n) own d v c =
   Variant_encodeBinary T fuel xb (encode_jump T fuel xb n T)
     (ExtensionObject_encodeBinary T fuel xb (encode_jump T fuel xb n T) (calcSize T n T)) v c"
  by (cases v) (simp_all add: Let_def)

lemma encode_jump_ext:
  "builtin d = Some KExtensionObject \<Longrightarrow> fits KExtensionObject v \<Longrightarrow>
   encode_jump T fuel xb (Suc n) own d v c =
   ExtensionObject_encodeBinary T fuel xb (encode_jump T fuel xb n T) (calcSize T n T) v c"
  by (cases v) (simp_all add: Let_def)

lemma wire_writes:
  shows "wire T n own d v bs \<Longrightarrow> writes (encode_jump T fuel xb n own d v) bs"
    and "wire_mems T n own ms vs bs \<Longrightarrow>
      writes (encode_members fuel xb (encode_member T fuel xb (encode_jump T fuel xb n) own) ms vs) bs"
    and "wire_list T n own d vs bs \<Longrightarrow>
      writes (Array_encodeBinaryComplex fuel xb (encode_jump T fuel xb n own d) vs) bs"
    and "wire_array T n own d ws bs \<Longrightarrow>
      writes (Array_encodeBinary fuel xb (encode_jump T fuel xb n own d) d ws) bs"
proof (induction rule: wire_wire_mems_wire_list_wire_array.inducts)
  case (leaf d k v bs n own)
  then show ?case by (intro leaf_writes)
next
  case (struct d n own vs bs)
  then have "writes (encode_members fuel xb (encode_member T fuel xb (encode_jump T fuel xb n) own)
      (members d) vs) bs" by blast
  then show ?case
    using struct(1) by (auto simp: writes_def)
next
  case (ext_body d i e body n own)
  have w: "writes (or_then (NodeId_encodeBinary fuel xb i) (or_then (Byte_encodeBinary e)
      (only_if (e \<noteq> 0) (String_encodeBinary fuel xb body))))
      (nodeid_bytes 0 i @ [e] @ (if e \<noteq> 0 then string_bytes body else []))"
    using ext_body by (intro writes_or_then writes_only_if writes_nodeid writes_byte writes_string)
  have "e \<le> 2" using ext_body by auto
  then show ?case
    using w ext_body(1)
    by (auto simp: writes_def ExtensionObject_encodeBinary_def split: if_splits)
next
  case (ext_dec d i d' n w b own)
  have w: "writes (ExtensionObject_encodeBinary T fuel xb (encode_jump T fuel xb n T)
      (calcSize T n T) (VExtDec i w)) (ext_header d' (length b) @ b)"
    using ext_dec wire_calcSize(1) by (intro writes_ext_dec)
  show ?case
    by (rule writes_ext_eq[OF encode_jump_ext w]) (use ext_dec in simp_all)
next
  case (var_scalar d i d' k w n b own)
  have w: "writes (or_then (Byte_encodeBinary (of_nat (i + 1))) (encode_jump T fuel xb n T d' w))
      ([of_nat (i + 1)] @ b)"
    using var_scalar by (intro writes_or_then writes_byte)
  show ?case
    by (rule writes_ext_eq[OF _ w])
       (use var_scalar variant_mask[of k] in \<open>simp add: encode_jump_variant Variant_encodeBinary_def\<close>)
next
  case (var_struct d i d' n w b own)
  let ?ext = "ExtensionObject_encodeBinary T fuel xb (encode_jump T fuel xb n T) (calcSize T n T)"
  have "writes (?ext (VExtDec i w)) (ext_header d' (length b) @ b)"
    using var_struct wire_calcSize(1) by (intro writes_ext_dec)
  then have "writes (Array_encodeBinaryComplex fuel xb ?ext [VExtDec i w])
      ((ext_header d' (length b) @ b) @ [])"
    by (rule writes_complex_cons) (rule writes_complex_nil)
  then have "writes (Variant_encodeBinaryWrapExtensionObject fuel xb ?ext i False [w])
      (ext_header d' (length b) @ b)"
    by (simp add: writes_def Variant_encodeBinaryWrapExtensionObject_def only_if_def skip_def)
  then have w: "writes (or_then (Byte_encodeBinary 22)
      (Variant_encodeBinaryWrapExtensionObject fuel xb ?ext i False [w]))
      ([22] @ ext_header d' (length b) @ b)"
    by (intro writes_or_then writes_byte)
  show ?case
    by (rule writes_ext_eq[OF _ w])
       (use var_struct in \<open>simp add: encode_jump_variant Variant_encodeBinary_def announces_def\<close>)
next
  case (var_array d i d' k n ws b own)
  have m: "0x3F AND (1 + of_nat (bt_index k)) = (1 + of_nat (bt_index k) :: byte)"
    using variant_mask[of k] by simp
  have w: "writes (or_then (or_then (Byte_encodeBinary (of_nat (i + 1) OR 0x80))
      (Array_encodeBinary fuel xb (encode_jump T fuel xb n T d') d' ws)) skip)
      (([of_nat (i + 1) OR 0x80] @ b) @ [])"
    using var_array by (intro writes_or_then writes_byte writes_skip)
  show ?case
    using w var_array m
    by (simp add: writes_def encode_jump_variant Variant_encodeBinary_def only_if_def)
next
  case (var_matrix d i d' k n ws b dims int32 b' own)
  have m: "0x3F AND (1 + of_nat (bt_index k)) = (1 + of_nat (bt_index k) :: byte)"
    using variant_mask[of k] by simp
  have w: "writes (or_then (or_then (Byte_encodeBinary (of_nat (i + 1) OR 0xC0))
      (Array_encodeBinary fuel xb (encode_jump T fuel xb n T d') d' ws))
      (Array_encodeBinary fuel xb (encode_jump T fuel xb n T int32) int32 (Some (map V32 dims))))
      (([of_nat (i + 1) OR 0xC0] @ b) @ b')"
    using var_matrix by (intro writes_or_then writes_byte)
  show ?case
    using w var_matrix m
    by (simp add: writes_def encode_jump_variant Variant_encodeBinary_def only_if_def dims_option_def)
next
  case (var_empty d n own)
  then show ?case
    by (simp add: writes_def encode_jump_variant Variant_encodeBinary_def writesD[OF writes_byte])
next
  case (data_value d dv n w b sps svps own st sts svts)
  let ?e = "encode_jump T fuel xb n T dv"
  have "writes (opt_enc ?e (Some w)) b"
    using data_value by (simp add: opt_enc_def)
  then have w: "writes (DataValue_encodeBinary ?e (VDataValue (Some w) st sts sps svts svps))
      ([bit_if (Some w) 1 OR bit_if st 2 OR bit_if sts 4 OR bit_if svts 8 OR bit_if sps 16 OR
        bit_if svps 32] @ b @ opt_bytes UA_encode32 st @ opt_bytes UA_encode64 sts @
        opt_bytes UA_encode16 sps @ opt_bytes UA_encode64 svts @ opt_bytes UA_encode16 svps)"
    unfolding DataValue_encodeBinary_def uval.case
    by (intro writes_or_then writes_byte writes_opt writes_u16 writes_u32 writes_u64)
  then show ?case
    using data_value by (simp add: writes_def bit_if_def)
next
  case (no_value d dv sps svps n own st sts svts)
  let ?e = "encode_jump T fuel xb n T dv"
  have "writes (opt_enc ?e None) []"
    by (simp add: opt_enc_def writes_skip)
  then have w: "writes (DataValue_encodeBinary ?e (VDataValue None st sts sps svts svps))
      ([bit_if (None :: uval option) 1 OR bit_if st 2 OR bit_if sts 4 OR bit_if svts 8 OR bit_if sps 16 OR
        bit_if svps 32] @ [] @ opt_bytes UA_encode32 st @ opt_bytes UA_encode64 sts @
        opt_bytes UA_encode16 sps @ opt_bytes UA_encode64 svts @ opt_bytes UA_encode16 svps)"
    unfolding DataValue_encodeBinary_def uval.case
    by (intro writes_or_then writes_byte writes_opt writes_u16 writes_u32 writes_u64)
  then show ?case
    using no_value by (simp add: writes_def bit_if_def)
next
  case (diag d info n own sid nsu lt loc)
  let ?e = "encode_jump T fuel xb n own d"
  have w: "writes (DiagnosticInfo_encodeBinary fuel xb ?e (VDiag sid nsu lt loc info None None))
      ([bit_if sid 1 OR bit_if nsu 2 OR bit_if lt 4 OR bit_if loc 8 OR bit_if info 16 OR
        bit_if (None :: uval option) 32] @
        opt_bytes UA_encode32 sid @ opt_bytes UA_encode32 nsu @ opt_bytes UA_encode32 lt @
        opt_bytes UA_encode32 loc @ opt_bytes string_bytes info @
        opt_bytes UA_encode32 None @ opt_bytes (\<lambda>_. []) (None :: uval option))"
    unfolding DiagnosticInfo_encodeBinary_def uval.case
    by (intro writes_or_then writes_byte writes_opt writes_u32 writes_string) (use diag in simp_all)
  then show ?case
    using diag by (simp add: writes_def bit_if_def opt_bytes_def)
next
  case (mems_nil n own)
  then show ?case by (rule writes_members_nil)
next
  case (mems_one m own tab d n v b ms vs bs)
  show ?case
    by (rule writes_members_cons) (use mems_one in \<open>simp_all add: encode_member_def\<close>)
next
  case (mems_array m own tab d n ws b ms vs bs)
  show ?case
    by (rule writes_members_cons) (use mems_array in \<open>simp_all add: encode_member_def\<close>)
next
  case (list_nil n own d)
  then show ?case by (rule writes_complex_nil)
next
  case (list_cons n own d v b vs bs)
  then show ?case by (intro writes_complex_cons)
next
  case (array_null n own d)
  then show ?case
    by (simp add: writes_def Array_encodeBinary_def elems_def array_length_field_def
        writesD[OF writes_u32])
next
  case (array_some n own d vs bs)
  show ?case
    by (rule writes_array) (use array_some wire_list_overlayable wire_list_nil in blast)+
qed


section \<open>The decoder reads the wire format\<close>

definition oreads :: "(dctx \<Rightarrow> (status \<times> 'a \<times> dctx) outcome) \<Rightarrow> 'a \<Rightarrow> byte list \<Rightarrow> bool" where
  "oreads f v bs \<longleftrightarrow>
     (\<forall>suf. f \<lparr> drest = bs @ suf, dpast = 0 \<rparr> = Done (GOOD, v, \<lparr> drest = suf, dpast = 0 \<rparr>))"

lemma oreadsD:
  "oreads f v bs \<Longrightarrow> f \<lparr> drest = bs @ suf, dpast = 0 \<rparr> = Done (GOOD, v, \<lparr> drest = suf, dpast = 0 \<rparr>)"
  by (simp add: oreads_def)

lemma oreads_dec_of: "reads f a bs \<Longrightarrow> v = con a \<Longrightarrow> oreads (dec_of con f) v bs"
  by (simp add: oreads_def reads_def dec_of_def)

lemma oreads_members_nil: "oreads (decode_members f []) [] []"
  by (simp add: oreads_def)

lemma oreads_members_cons:
  assumes "oreads (f m) v a" "oreads (decode_members f ms) vs b"
  shows "oreads (decode_members f (m # ms)) (v # vs) (a @ b)"
  unfolding oreads_def using oreadsD[OF assms(1)] oreadsD[OF assms(2)] by simp

lemma oreads_elems_cons:
  assumes "oreads f v a" "oreads (decode_elems f (length vs)) vs b"
  shows "oreads (decode_elems f (length (v # vs))) (v # vs) (a @ b)"
  unfolding oreads_def using oreadsD[OF assms(1)] oreadsD[OF assms(2)] by simp

lemma oreads_array:
  assumes "length vs \<le> 0x7FFFFFFF"
    and "oreads (decode_elems f (length vs)) vs bs" "oreads (decode_elems g (length vs)) vs bs"
    and "overlayable d \<Longrightarrow> length bs = memSize d * length vs"
    and "overlayable d \<or> memSize d * length vs div 32 \<le> length bs" "vs = [] \<Longrightarrow> bs = []"
  shows "oreads (Array_decodeBinary f g d) (Some vs) (UA_encode32 (of_nat (length vs)) @ bs)"
proof -
  have "memSize d * length vs div 32 \<le> length bs"
    using assms(4,5) by (cases "overlayable d") simp_all
  then show ?thesis
    unfolding oreads_def Array_decodeBinary_def
    using assms(1,4,6) oreadsD[OF assms(2)] oreadsD[OF assms(3)]
    by (auto simp: int_reads sint_of_nat_u32 unat_of_nat_u32 Let_def)
qed

lemma opt_dec_reads:
  "(\<And>a. x = Some a \<Longrightarrow> reads f a (g a)) \<Longrightarrow>
   opt_dec (x \<noteq> None) f \<lparr> drest = opt_bytes g x @ suf, dpast = 0 \<rparr> = (GOOD, x, \<lparr> drest = suf, dpast = 0 \<rparr>)"
  by (cases x) (simp_all add: opt_dec_def opt_bytes_def reads_def)

lemma opt_dec_simps:
  "opt_dec (a \<noteq> None) UInt16_decodeBinary \<lparr> drest = opt_bytes UA_encode16 a @ suf, dpast = 0 \<rparr>
     = (GOOD, a, \<lparr> drest = suf, dpast = 0 \<rparr>)"
  "opt_dec (b \<noteq> None) UInt32_decodeBinary \<lparr> drest = opt_bytes UA_encode32 b @ suf, dpast = 0 \<rparr>
     = (GOOD, b, \<lparr> drest = suf, dpast = 0 \<rparr>)"
  "opt_dec (c \<noteq> None) UInt64_decodeBinary \<lparr> drest = opt_bytes UA_encode64 c @ suf, dpast = 0 \<rparr>
     = (GOOD, c, \<lparr> drest = suf, dpast = 0 \<rparr>)"
  by (rule opt_dec_reads, simp add: reads_u16 reads_u32 reads_u64)+

lemma bit_if_flags [simp]:
  "bit_if x m AND k = bit_if x (m AND k)" "bit_if x 0 = 0" "bit_if x m = 0 \<longleftrightarrow> x = None \<or> m = 0"
  by (auto simp: bit_if_def)

lemma clamp_pico_ok: "pico_ok p \<Longrightarrow> clamp_pico p = p"
  by (cases p) (auto simp: pico_ok_def clamp_pico_def)

lemma leaf_reads:
  assumes "builtin d = Some k" "leaf_bytes k v = Some bs"
  shows "oreads (decode_jump T (Suc n) own d) v bs"
  using assms
  by (cases v; cases k)
     (auto simp: oreads_def dec_of_def int_reads reads_bool[THEN readsD] reads_string[THEN readsD]
       reads_guid[THEN readsD] reads_nodeid[THEN readsD] reads_expanded[THEN readsD]
       reads_loctext[THEN readsD] simp del: append_Cons split: if_splits)

lemma raw_reads:
  assumes "wire T n own d v bs" "oreads (decode_jump T n own d) v bs"
  shows "oreads (raw_dec (decode_jump T n own d) d) v bs"
proof (cases "builtin d = Some KBoolean")
  case True
  from assms(1) obtain b where "v = VB b" "bs = [b]"
    by cases (use True in \<open>auto elim!: leaf_bytes.elims split: if_splits\<close>)
  then show ?thesis
    using True by (simp add: raw_dec_def oreads_def dec_of_def)
qed (use assms(2) in \<open>simp add: raw_dec_def\<close>)


lemma reads_encoding_id:
  "NodeId_decodeBinary \<lparr> drest = nodeid_bytes 0 (encoding_id d) @ suf, dpast = 0 \<rparr>
     = (GOOD, encoding_id d, \<lparr> drest = suf, dpast = 0 \<rparr>)"
  by (rule reads_nodeid[THEN readsD]) (simp add: nodeid_ok_def encoding_id_def)

lemma jump_length_field [simp]:
  "jump 4 \<lparr> drest = UA_encode32 w @ suf, dpast = 0 \<rparr> = \<lparr> drest = suf, dpast = 0 \<rparr>"
  by (simp add: jump_def)

lemma announces_simps:
  assumes "announces T i d"
  shows "T ! i = d" "findDataTypeByBinary T (numeric_of (encoding_id d)) = Some i"
    "is_numeric (encoding_id d)" "namespaceIndex (encoding_id d) = namespaceIndex (typeId d)"
  using assms by (auto simp: announces_def type_at_def encoding_id_def numeric_of_def is_numeric_def
      split: if_splits)

lemma variant_index:
  fixes k :: bt
  defines "m \<equiv> (of_nat (bt_index k + 1) :: byte)"
  shows "m \<noteq> 0" "m AND 0x80 = 0" "unat (m AND 0x3F) = bt_index k + 1"
    "m OR 0x80 \<noteq> 0" "(m OR 0x80) AND 0x80 \<noteq> 0" "(m OR 0x80) AND 0x40 = 0"
    "unat ((m OR 0x80) AND 0x3F) = bt_index k + 1"
    "m OR 0xC0 \<noteq> 0" "(m OR 0xC0) AND 0x80 \<noteq> 0" "(m OR 0xC0) AND 0x40 \<noteq> 0"
    "unat ((m OR 0xC0) AND 0x3F) = bt_index k + 1" "bt_index k \<le> 24"
  unfolding m_def by (cases k; simp)+

lemma bt_index_21: "bt_index k = 21 \<longleftrightarrow> k = KExtensionObject"
  by (cases k) simp_all

lemma unwrap_reads:
  assumes "wire T n T d w b" "builtin d = Some KExtensionObject" "type_at T 21 = Some d"
    and "\<not> is_ext_dec w" "oreads (decode_jump T n T d) w b"
  shows "oreads (Variant_decodeBinaryUnwrapExtensionObject T (decode_jump T n T)) (VVarScalar 21 w) b"
  using assms(1)
proof cases
  case (leaf k n')
  then have "fits KExtensionObject w"
    using assms(2) by (cases w) auto
  then show ?thesis
    using leaf assms(2) by (cases w) auto
next
  case (ext_body i e body n')
  have found: "(if e = 1 \<and> is_numeric i \<and> namespaceIndex i = 0
      then findDataTypeByBinary T (numeric_of i) else None) = None"
    using ext_body by auto
  show ?thesis
    unfolding oreads_def
    using oreadsD[OF assms(5)] assms(3) ext_body found
    by (simp add: Variant_decodeBinaryUnwrapExtensionObject_def reads_nodeid[THEN readsD])
qed (use assms in \<open>auto simp: is_ext_dec_def\<close>)


lemma wire_reads:
  shows "wire T n own d v bs \<Longrightarrow> oreads (decode_jump T n own d) v bs"
    and "wire_mems T n own ms vs bs \<Longrightarrow>
      oreads (decode_members (decode_member T (decode_jump T n) own) ms) vs bs"
    and "wire_list T n own d vs bs \<Longrightarrow>
      oreads (decode_elems (decode_jump T n own d) (length vs)) vs bs \<and>
      oreads (decode_elems (raw_dec (decode_jump T n own d) d) (length vs)) vs bs"
    and "wire_array T n own d ws bs \<Longrightarrow> oreads (decode_array (decode_jump T n own) d) ws bs"
proof (induction rule: wire_wire_mems_wire_list_wire_array.inducts)
  case (leaf d k v bs n own)
  then show ?case by (intro leaf_reads)
next
  case (struct d n own vs bs)
  then have IH: "oreads (decode_members (decode_member T (decode_jump T n) own) (members d)) vs bs"
    by blast
  show ?case
    using struct(1) unfolding oreads_def by (auto simp: oreadsD[OF IH] Let_def)
next
  case (ext_body d i e body n own)
  then show ?case
    unfolding oreads_def
    by (auto simp: ExtensionObject_decodeBinary_def ExtensionObject_decodeBinaryContent_def Let_def
        reads_nodeid[THEN readsD] reads_string[THEN readsD])
next
  case (ext_dec d i d' n w b own)
  then have IH: "oreads (decode_jump T n T d') w b" and a: "announces T i d'"
    by blast+
  show ?case
    using ext_dec(1) unfolding oreads_def ext_header_def
    by (simp add: ExtensionObject_decodeBinary_def ExtensionObject_decodeBinaryContent_def Let_def
        reads_encoding_id announces_simps[OF a] oreadsD[OF IH])
next
  case (var_empty d n own)
  then show ?case
    unfolding oreads_def by (simp add: Variant_decodeBinary_def)
next
  case (var_scalar d i d' k w n b own)
  then have IH: "oreads (decode_jump T n T d') w b" by blast
  show ?case
  proof (cases "k = KExtensionObject")
    case True
    then have u: "oreads (Variant_decodeBinaryUnwrapExtensionObject T (decode_jump T n T))
        (VVarScalar 21 w) b"
      using var_scalar by (intro unwrap_reads) auto
    show ?thesis
      using True var_scalar unfolding oreads_def
      by (auto simp: Variant_decodeBinary_def oreadsD[OF u])
  next
    case False
    then show ?thesis
      using var_scalar variant_index[of k] bt_index_21[of k] unfolding oreads_def
      by (auto simp: Variant_decodeBinary_def oreadsD[OF IH] Let_def)
  qed
next
  case (var_struct d i d' n w b own)
  then have IH: "oreads (decode_jump T n T d') w b" and a: "announces T i d'"
    by blast+
  have 21: "type_at T 21 = Some (T ! 21)"
    using var_struct by (simp add: type_at_def)
  show ?case
    using var_struct 21 unfolding oreads_def ext_header_def
    by (simp add: Variant_decodeBinary_def Variant_decodeBinaryUnwrapExtensionObject_def Let_def
        reads_encoding_id announces_simps[OF a] oreadsD[OF IH])
next
  case (var_array d i d' k n ws b own)
  then have IH: "oreads (decode_array (decode_jump T n T) d') ws b" by blast
  show ?case
    using var_array variant_index[of k] unfolding oreads_def
    by (auto simp: Variant_decodeBinary_def oreadsD[OF IH] Let_def)
next
  case (var_matrix d i d' k n ws b dims int32 b' own)
  then have IH: "oreads (decode_array (decode_jump T n T) d') ws b"
    and IH2: "oreads (decode_array (decode_jump T n T) int32) (Some (map V32 dims)) b'" by blast+
  have m: "map u32_of (elems (Some (map V32 dims))) = dims"
    by (simp add: elems_def comp_def)
  show ?case
    using var_matrix variant_index[of k] m unfolding oreads_def
    by (auto simp: Variant_decodeBinary_def oreadsD[OF IH] oreadsD[OF IH2] Let_def)
next
  case (data_value d dv n w b sps svps own st sts svts)
  then have IH: "oreads (decode_jump T n T dv) w b" by blast
  show ?case
    using data_value unfolding oreads_def
    by (simp add: DataValue_decodeBinary_def Let_def bit.conj_disj_distrib2 or_eq_0_iff opt_vdec_def
        oreadsD[OF IH] opt_dec_simps clamp_pico_ok del: not_None_eq)
next
  case (no_value d dv sps svps n own st sts svts)
  then show ?case
    unfolding oreads_def
    by (simp add: DataValue_decodeBinary_def Let_def bit.conj_disj_distrib2 or_eq_0_iff opt_vdec_def
        opt_dec_simps clamp_pico_ok del: not_None_eq)
next
  case (diag d info n own sid nsu lt loc)
  have s: "opt_dec (info \<noteq> None) String_decodeBinary \<lparr> drest = opt_bytes string_bytes info @ suf, dpast = 0 \<rparr>
      = (GOOD, info, \<lparr> drest = suf, dpast = 0 \<rparr>)" for suf
    by (rule opt_dec_reads, rule reads_string) (use diag in auto)
  show ?case
    using diag unfolding oreads_def
    by (simp add: DiagnosticInfo_decodeBinary_def Let_def bit.conj_disj_distrib2 or_eq_0_iff
        opt_vdec_def opt_dec_simps s opt_dec_def[of False] del: not_None_eq)
next
  case (mems_nil n own)
  then show ?case by (rule oreads_members_nil)
next
  case (mems_one m own tab d n v b ms vs bs)
  show ?case
    by (rule oreads_members_cons) (use mems_one in \<open>simp_all add: oreads_def decode_member_def\<close>)
next
  case (mems_array m own tab d n ws b ms vs bs)
  show ?case
    by (rule oreads_members_cons) (use mems_array in \<open>simp_all add: oreads_def decode_member_def\<close>)
next
  case (list_nil n own d)
  then show ?case by (simp add: oreads_def)
next
  case (list_cons n own d v b vs bs)
  then show ?case using raw_reads by (blast intro: oreads_elems_cons)
next
  case (array_null n own d)
  then show ?case
    by (simp add: oreads_def decode_array_def Array_decodeBinary_def int_reads)
next
  case (array_some n own d vs bs)
  show ?case
    unfolding decode_array_def
    by (rule oreads_array) (use array_some wire_list_overlayable wire_list_nil in blast)+
qed

end
