(* ===== verification/CodecTotal.thy ===== *)
theory CodecTotal
  imports BinCodec
begin

text \<open>
  Decoding ends, on every input.  A type table is ranked when the members of a structure have a
  smaller rank than the structure itself; the types that can contain a value of any type
  (extension objects, variants, data values, diagnostic infos) read at least one byte first.  So
  the nesting of a value is bounded by the length of the message, a constant factor apart, and a
  decoder with that much fuel always returns, without reading behind its tables.
\<close>

section \<open>Decoders that only go forward\<close>

definition shrinks :: "'a dec \<Rightarrow> bool" where
  "shrinks f \<longleftrightarrow> (\<forall>d rv a d'. f d = (rv, a, d') \<longrightarrow> length (drest d') \<le> length (drest d))"

lemma shrinksD: "shrinks f \<Longrightarrow> f d = (rv, a, d') \<Longrightarrow> length (drest d') \<le> length (drest d)"
  by (auto simp: shrinks_def)

lemma take_bytes_length:
  "take_bytes n d = Some (bs, d') \<Longrightarrow> length (drest d') + n = length (drest d)"
  by (auto simp: take_bytes_def split: if_splits)

lemma shrinks_ints:
  "shrinks Boolean_decodeBinary" "shrinks Byte_decodeBinary" "shrinks UInt16_decodeBinary"
  "shrinks UInt32_decodeBinary" "shrinks UInt64_decodeBinary"
  by (auto simp: shrinks_def Boolean_decodeBinary_def Byte_decodeBinary_def UInt16_decodeBinary_def
      UInt32_decodeBinary_def UInt64_decodeBinary_def dest!: take_bytes_length split: option.splits)

lemma Byte_consumes:
  "Byte_decodeBinary d = (GOOD, b, d') \<Longrightarrow> length (drest d') < length (drest d)"
  by (auto simp: Byte_decodeBinary_def dest!: take_bytes_length split: option.splits)

lemma shrinks_string: "shrinks String_decodeBinary"
  unfolding shrinks_def String_decodeBinary_def Let_def
  by (auto split: prod.splits option.splits if_splits dest!: take_bytes_length
      shrinksD[OF shrinks_ints(4)])

lemma shrinks_guid: "shrinks Guid_decodeBinary"
  unfolding shrinks_def Guid_decodeBinary_def Let_def
  by (auto split: prod.splits option.splits dest!: take_bytes_length
      shrinksD[OF shrinks_ints(4)] shrinksD[OF shrinks_ints(3)])

lemma NodeId_consumes:
  assumes "NodeId_decodeBinary d = (rv, i, d')"
  shows "length (drest d') \<le> length (drest d)"
    and "rv = GOOD \<Longrightarrow> length (drest d') < length (drest d)"
proof -
  obtain r b d1 where b: "Byte_decodeBinary d = (r, b, d1)"
    by (cases "Byte_decodeBinary d")
  have le: "length (drest d1) \<le> length (drest d)"
    using shrinksD[OF shrinks_ints(2) b] .
  have d': "length (drest d') \<le> length (drest d1)"
    using assms b unfolding NodeId_decodeBinary_def
    by (auto simp: Let_def split: prod.splits if_splits dest!: shrinksD[OF shrinks_ints(2)]
        shrinksD[OF shrinks_ints(3)] shrinksD[OF shrinks_ints(4)] shrinksD[OF shrinks_string]
        shrinksD[OF shrinks_guid])
  show "length (drest d') \<le> length (drest d)"
    using le d' by simp
  show "length (drest d') < length (drest d)" if "rv = GOOD"
  proof -
    have "r = GOOD"
      using assms b that unfolding NodeId_decodeBinary_def by (auto simp: Let_def split: if_splits)
    then show ?thesis
      using Byte_consumes b d' by fastforce
  qed
qed

lemma shrinks_nodeid: "shrinks NodeId_decodeBinary"
  using NodeId_consumes(1) by (auto simp: shrinks_def)

lemma shrinks_expanded: "shrinks ExpandedNodeId_decodeBinary"
  unfolding shrinks_def ExpandedNodeId_decodeBinary_def Let_def
  by (auto split: list.splits prod.splits if_splits dest!: shrinksD[OF shrinks_nodeid]
      shrinksD[OF shrinks_string] shrinksD[OF shrinks_ints(4)])

lemma shrinks_loctext: "shrinks LocalizedText_decodeBinary"
  unfolding shrinks_def LocalizedText_decodeBinary_def Let_def
  by (auto split: prod.splits if_splits dest!: shrinksD[OF shrinks_ints(2)]
      shrinksD[OF shrinks_string])

lemma shrinks_opt: "shrinks f \<Longrightarrow> shrinks (opt_dec b f)"
  unfolding shrinks_def opt_dec_def by (auto split: prod.splits)

section \<open>Decoders that return\<close>

text \<open>\<open>f\<close> returns from every position with at most \<open>len\<close> bytes left, and goes forward.\<close>

definition returns :: "nat \<Rightarrow> (dctx \<Rightarrow> (status \<times> 'a \<times> dctx) outcome) \<Rightarrow> bool" where
  "returns len f \<longleftrightarrow> (\<forall>d. length (drest d) \<le> len \<longrightarrow>
     (\<exists>rv a d'. f d = Done (rv, a, d') \<and> length (drest d') \<le> length (drest d)))"

lemma returnsE:
  assumes "returns len f" "length (drest d) \<le> len"
  obtains rv a d' where "f d = Done (rv, a, d')" "length (drest d') \<le> length (drest d)"
  using assms unfolding returns_def by blast

lemma returns_mono: "returns len f \<Longrightarrow> k \<le> len \<Longrightarrow> returns k f"
  unfolding returns_def by simp

lemma returns_dec_of: "shrinks f \<Longrightarrow> returns len (dec_of con f)"
  unfolding returns_def dec_of_def shrinks_def by (auto split: prod.splits)

lemma returns_elems: "returns len f \<Longrightarrow> returns len (decode_elems f n)"
proof (induction n)
  case 0
  then show ?case by (simp add: returns_def)
next
  case (Suc n)
  show ?case
    unfolding returns_def
  proof (intro allI impI)
    fix d :: dctx
    assume "length (drest d) \<le> len"
    with Suc.prems obtain rv v d1 where 1: "f d = Done (rv, v, d1)" "length (drest d1) \<le> length (drest d)"
      by (rule returnsE)
    with \<open>length (drest d) \<le> len\<close> have "length (drest d1) \<le> len" by simp
    with Suc.IH[OF Suc.prems] obtain rv2 vs d2 where
      "decode_elems f n d1 = Done (rv2, vs, d2)" "length (drest d2) \<le> length (drest d1)"
      by (rule returnsE)
    then show "\<exists>rv a d'. decode_elems f (Suc n) d = Done (rv, a, d') \<and> length (drest d') \<le> length (drest d)"
      using 1 by simp
  qed
qed

lemma returns_array:
  assumes "returns len f" "returns len g"
  shows "returns len (Array_decodeBinary f g t)"
  unfolding returns_def
proof (intro allI impI)
  fix d :: dctx
  assume d: "length (drest d) \<le> len"
  obtain rv n d1 where 1: "UInt32_decodeBinary d = (rv, n, d1)"
    by (cases "UInt32_decodeBinary d")
  have l: "length (drest d1) \<le> length (drest d)"
    using shrinksD[OF shrinks_ints(4) 1] .
  then have "length (drest d1) \<le> len" using d by simp
  then obtain r2 v2 d2 r3 v3 d3 where
    "decode_elems f (unat n) d1 = Done (r2, v2, d2)" "length (drest d2) \<le> length (drest d1)"
    "decode_elems g (unat n) d1 = Done (r3, v3, d3)" "length (drest d3) \<le> length (drest d1)"
    using returns_elems[OF assms(1)] returns_elems[OF assms(2)] by (metis returnsE)
  then show "\<exists>rv a d'. Array_decodeBinary f g t d = Done (rv, a, d') \<and> length (drest d') \<le> length (drest d)"
    using 1 l by (simp add: Array_decodeBinary_def Let_def)
qed

lemma returns_decode_array:
  assumes "returns len (e t)"
  shows "returns len (decode_array e t)"
  unfolding decode_array_def
  by (rule returns_array[OF assms])
     (simp add: raw_dec_def assms returns_dec_of shrinks_ints)

lemma returns_members:
  "(\<And>m. m \<in> set ms \<Longrightarrow> returns len (f m)) \<Longrightarrow> returns len (decode_members f ms)"
proof (induction ms)
  case Nil
  then show ?case by (simp add: returns_def)
next
  case (Cons m ms)
  show ?case
    unfolding returns_def
  proof (intro allI impI)
    fix d :: dctx
    assume d: "length (drest d) \<le> len"
    have "returns len (f m)" using Cons.prems by simp
    from this d obtain rv v d1 where 1: "f m d = Done (rv, v, d1)" "length (drest d1) \<le> length (drest d)"
      by (rule returnsE)
    with d have "length (drest d1) \<le> len" by simp
    with Cons obtain rv2 vs d2 where
      "decode_members f ms d1 = Done (rv2, vs, d2)" "length (drest d2) \<le> length (drest d1)"
      by (meson list.set_intros(2) returnsE)
    then show "\<exists>rv a d'. decode_members f (m # ms) d = Done (rv, a, d') \<and> length (drest d') \<le> length (drest d)"
      using 1 by simp
  qed
qed


section \<open>Types that hold values of any type\<close>

lemma jump_length: "length (drest (jump n d)) \<le> length (drest d)"
  by (simp add: jump_def)

lemma find_type_Some: "find_type p T = Some k \<Longrightarrow> k < length T \<and> p (T ! k)"
  by (induction T arbitrary: k) (auto split: if_splits)

lemma found_type: "findDataTypeByBinary T i = Some k \<Longrightarrow> T ! k \<in> set T"
  using find_type_Some unfolding findDataTypeByBinary_def by fastforce

lemma type_at_set: "type_at T i = Some t \<Longrightarrow> t \<in> set T"
  by (auto simp: type_at_def split: if_splits)

lemma returns_content:
  assumes "\<And>t. t \<in> set T \<Longrightarrow> returns len (e t)"
  shows "returns len (ExtensionObject_decodeBinaryContent T e i)"
  unfolding returns_def
proof (intro allI impI)
  fix d :: dctx
  assume d: "length (drest d) \<le> len"
  show "\<exists>rv a d'. ExtensionObject_decodeBinaryContent T e i d = Done (rv, a, d') \<and>
      length (drest d') \<le> length (drest d)"
  proof (cases "findDataTypeByBinary T (numeric_of i)")
    case None
    then show ?thesis
      by (auto simp: ExtensionObject_decodeBinaryContent_def dest: shrinksD[OF shrinks_string]
          split: prod.splits)
  next
    case (Some k)
    have "length (drest (jump 4 d)) \<le> len" using jump_length[of 4 d] d by simp
    with assms[OF found_type[OF Some]] obtain rv a d' where
      "e (T ! k) (jump 4 d) = Done (rv, a, d')" "length (drest d') \<le> length (drest (jump 4 d))"
      by (rule returnsE)
    then show ?thesis
      using Some jump_length[of 4 d] by (simp add: ExtensionObject_decodeBinaryContent_def)
  qed
qed

lemma returns_ext:
  assumes "\<And>k t. k < len \<Longrightarrow> t \<in> set T \<Longrightarrow> returns k (e t)"
  shows "returns len (ExtensionObject_decodeBinary T e)"
  unfolding returns_def
proof (intro allI impI)
  fix d0 :: dctx
  assume d0: "length (drest d0) \<le> len"
  obtain r1 i d1 where 1: "NodeId_decodeBinary d0 = (r1, i, d1)"
    by (cases "NodeId_decodeBinary d0")
  obtain r2 en d where 2: "Byte_decodeBinary d1 = (r2, en, d)"
    by (cases "Byte_decodeBinary d1")
  have le: "length (drest d) \<le> length (drest d0)"
    using NodeId_consumes(1)[OF 1] shrinksD[OF shrinks_ints(2) 2] by simp
  show "\<exists>rv a d'. ExtensionObject_decodeBinary T e d0 = Done (rv, a, d') \<and>
      length (drest d') \<le> length (drest d0)"
  proof (cases "is_numeric i \<and> r1 OR r2 = GOOD \<and> en = 1")
    case True
    then have "r1 = GOOD" by (simp add: or_eq_0_iff)
    then have lt: "length (drest d) < length (drest d0)"
      using NodeId_consumes(2)[OF 1] shrinksD[OF shrinks_ints(2) 2] by simp
    then have "returns (length (drest d)) (ExtensionObject_decodeBinaryContent T e i)"
      using assms d0 by (intro returns_content) simp
    then obtain rv a d' where "ExtensionObject_decodeBinaryContent T e i d = Done (rv, a, d')"
      "length (drest d') \<le> length (drest d)"
      by (rule returnsE[OF _ order_refl])
    then show ?thesis
      using True le 1 2 by (simp add: ExtensionObject_decodeBinary_def Let_def)
  next
    case False
    obtain r3 b d3 where 3: "String_decodeBinary d = (r3, b, d3)"
      by (cases "String_decodeBinary d")
    have "length (drest d3) \<le> length (drest d0)"
      using shrinksD[OF shrinks_string 3] le by simp
    then show ?thesis
      using False le 1 2 3 by (auto simp: ExtensionObject_decodeBinary_def Let_def)
  qed
qed

lemma returns_unwrap:
  assumes "\<And>t. t \<in> set T \<Longrightarrow> returns len (e t)" "21 < length T"
  shows "returns len (Variant_decodeBinaryUnwrapExtensionObject T e)"
  unfolding returns_def
proof (intro allI impI)
  fix d0 :: dctx
  assume d0: "length (drest d0) \<le> len"
  obtain r1 i d1 where 1: "NodeId_decodeBinary d0 = (r1, i, d1)"
    by (cases "NodeId_decodeBinary d0")
  obtain r2 en d2 where 2: "Byte_decodeBinary d1 = (r2, en, d2)"
    by (cases "Byte_decodeBinary d1")
  have le1: "length (drest d1) \<le> length (drest d0)"
    using NodeId_consumes(1)[OF 1] .
  have le2: "length (drest d2) \<le> length (drest d1)"
    using shrinksD[OF shrinks_ints(2) 2] .
  let ?k = "if en = 1 \<and> is_numeric i \<and> namespaceIndex i = 0
            then findDataTypeByBinary T (numeric_of i) else None"
  show "\<exists>rv a d'. Variant_decodeBinaryUnwrapExtensionObject T e d0 = Done (rv, a, d') \<and>
      length (drest d') \<le> length (drest d0)"
  proof (cases ?k)
    case None
    have 21: "type_at T 21 = Some (T ! 21)" using assms(2) by (simp add: type_at_def)
    from assms(1)[OF type_at_set[OF 21]] d0 obtain rv a d' where
      "e (T ! 21) d0 = Done (rv, a, d')" "length (drest d') \<le> length (drest d0)"
      by (rule returnsE)
    then show ?thesis
      using None 1 2 21 le1 le2 by (auto simp: Variant_decodeBinaryUnwrapExtensionObject_def Let_def)
  next
    case (Some k)
    then have "T ! k \<in> set T" using found_type by (auto split: if_splits)
    have "length (drest (jump 4 d2)) \<le> len" using jump_length[of 4 d2] d0 le1 le2 by simp
    with assms(1)[OF \<open>T ! k \<in> set T\<close>] obtain rv a d' where
      "e (T ! k) (jump 4 d2) = Done (rv, a, d')" "length (drest d') \<le> length (drest (jump 4 d2))"
      by (rule returnsE)
    then show ?thesis
      using Some 1 2 le1 le2 jump_length[of 4 d2]
      by (auto simp: Variant_decodeBinaryUnwrapExtensionObject_def Let_def)
  qed
qed

text \<open>A value that starts with an encoding byte: the rest is decoded from a shorter position.\<close>

lemma returns_after_byte:
  assumes "\<And>d. f d = (let (rv, m, d1) = Byte_decodeBinary d in if rv \<noteq> GOOD then Done (rv, z, d1) else g m d1)"
    and "\<And>m k. k < len \<Longrightarrow> returns k (g m)"
  shows "returns len f"
  unfolding returns_def
proof (intro allI impI)
  fix d :: dctx
  assume d: "length (drest d) \<le> len"
  obtain rv m d1 where 1: "Byte_decodeBinary d = (rv, m, d1)"
    by (cases "Byte_decodeBinary d")
  show "\<exists>rv a d'. f d = Done (rv, a, d') \<and> length (drest d') \<le> length (drest d)"
  proof (cases "rv = GOOD")
    case True
    then have lt: "length (drest d1) < length (drest d)"
      using Byte_consumes 1 by blast
    then have "returns (length (drest d1)) (g m)" using assms(2) d by simp
    then obtain r2 a d' where "g m d1 = Done (r2, a, d')" "length (drest d') \<le> length (drest d1)"
      by (rule returnsE[OF _ order_refl])
    then show ?thesis using 1 True lt assms(1) by simp
  next
    case False
    then show ?thesis using 1 assms(1) shrinksD[OF shrinks_ints(2) 1] by simp
  qed
qed


lemma returns_bind:
  assumes "returns len f" "\<And>rv a k. k \<le> len \<Longrightarrow> returns k (\<lambda>d. g rv a d)"
  shows "returns len (\<lambda>d. bind (f d) (\<lambda>(rv, a, d1). g rv a d1))"
  unfolding returns_def
proof (intro allI impI)
  fix d :: dctx
  assume d: "length (drest d) \<le> len"
  from assms(1) d obtain rv a d1 where 1: "f d = Done (rv, a, d1)" "length (drest d1) \<le> length (drest d)"
    by (rule returnsE)
  then have "length (drest d1) \<le> len" using d by simp
  from returnsE[OF assms(2)[OF this] order_refl] obtain r2 b d2 where
    "g rv a d1 = Done (r2, b, d2)" "length (drest d2) \<le> length (drest d1)" by blast
  then show "\<exists>rv a d'. bind (f d) (\<lambda>(rv, a, d1). g rv a d1) = Done (rv, a, d') \<and>
      length (drest d') \<le> length (drest d)"
    using 1 by (intro exI[of _ r2] exI[of _ b] exI[of _ d2]) simp
qed

lemma returns_Done: "returns len (\<lambda>d. Done (rv, a, d))"
  by (simp add: returns_def)

lemma returns_opt_vdec: "returns len f \<Longrightarrow> returns len (opt_vdec b f)"
  unfolding opt_vdec_def[abs_def]
  by (cases b) (auto intro!: returns_bind returns_Done)

text \<open>A forward decoder followed by a decoder that returns.\<close>

lemma returns_then:
  assumes "shrinks f" "\<And>rv a k. k \<le> len \<Longrightarrow> returns k (\<lambda>d. g rv a d)"
  shows "returns len (\<lambda>d. case f d of (rv, a, d1) \<Rightarrow> g rv a d1)"
proof -
  have "returns len (\<lambda>d. bind (Done (f d)) (\<lambda>(rv, a, d1). g rv a d1))"
    by (rule returns_bind[OF _ assms(2)])
       (use assms(1) in \<open>auto simp: returns_def shrinks_def split: prod.splits, metis prod_cases3\<close>)
  then show ?thesis by simp
qed

lemma returns_data_value:
  assumes "\<And>k. k < len \<Longrightarrow> returns k var"
  shows "returns len (DataValue_decodeBinary var)"
proof (rule returns_after_byte)
  show "DataValue_decodeBinary var d = (let (rv, m, d1) = Byte_decodeBinary d in
      if rv \<noteq> GOOD then Done (rv, VDataValue None None None None None None, d1)
      else bind (opt_vdec (m AND 1 \<noteq> 0) var d1) (\<lambda>(r1, val, d1).
           case opt_dec (m AND 2 \<noteq> 0) UInt32_decodeBinary d1 of (r2, st, d2) \<Rightarrow>
           case opt_dec (m AND 4 \<noteq> 0) UInt64_decodeBinary d2 of (r3, sts, d3) \<Rightarrow>
           case opt_dec (m AND 16 \<noteq> 0) UInt16_decodeBinary d3 of (r4, sps, d4) \<Rightarrow>
           case opt_dec (m AND 8 \<noteq> 0) UInt64_decodeBinary d4 of (r5, svts, d5) \<Rightarrow>
           case opt_dec (m AND 32 \<noteq> 0) UInt16_decodeBinary d5 of (r6, svps, d6) \<Rightarrow>
             Done (r1 OR r2 OR r3 OR r4 OR r5 OR r6,
                VDataValue val st sts (clamp_pico sps) svts (clamp_pico svps), d6)))" for d
    unfolding DataValue_decodeBinary_def Let_def by (rule refl)
qed (intro returns_bind returns_opt_vdec returns_then returns_Done shrinks_opt shrinks_ints assms,
     assumption)


lemma returns_diagnostic:
  assumes "\<And>k. k < len \<Longrightarrow> returns k diag"
  shows "returns len (DiagnosticInfo_decodeBinary diag)"
proof (rule returns_after_byte)
  show "DiagnosticInfo_decodeBinary diag d = (let (rv, m, d1) = Byte_decodeBinary d in
      if rv \<noteq> GOOD then Done (rv, VDiag None None None None None None None, d1)
      else case opt_dec (m AND 1 \<noteq> 0) UInt32_decodeBinary d1 of (r1, sid, d1) \<Rightarrow>
           case opt_dec (m AND 2 \<noteq> 0) UInt32_decodeBinary d1 of (r2, nsu, d2) \<Rightarrow>
           case opt_dec (m AND 4 \<noteq> 0) UInt32_decodeBinary d2 of (r3, lt, d3) \<Rightarrow>
           case opt_dec (m AND 8 \<noteq> 0) UInt32_decodeBinary d3 of (r4, loc, d4) \<Rightarrow>
           case opt_dec (m AND 16 \<noteq> 0) String_decodeBinary d4 of (r5, info, d5) \<Rightarrow>
           case opt_dec (m AND 32 \<noteq> 0) UInt32_decodeBinary d5 of (r6, st, d6) \<Rightarrow>
             bind (opt_vdec (m AND 64 \<noteq> 0) diag d6) (\<lambda>(r7, inner, d7).
                Done (r1 OR r2 OR r3 OR r4 OR r5 OR r6 OR r7,
                  VDiag sid nsu lt loc info st inner, d7)))" for d
    unfolding DiagnosticInfo_decodeBinary_def Let_def by (rule refl)
qed (intro returns_bind returns_opt_vdec returns_then returns_Done shrinks_opt shrinks_ints
     shrinks_string assms, simp)

lemma returns_variant:
  assumes "\<And>k t. k < len \<Longrightarrow> t \<in> set T \<Longrightarrow> returns k (e t)" "24 < length T"
  shows "returns len (Variant_decodeBinary T e (decode_array e))"
proof (rule returns_after_byte)
  let ?g = "\<lambda>m d. if m = 0 then Done (GOOD, VVarEmpty, d)
      else if unat (m AND 0x3F) = 0 \<or> unat (m AND 0x3F) - 1 > 24 then Done (BADDECODINGERROR, VVarEmpty, d)
      else (case type_at T (unat (m AND 0x3F) - 1) of
                None \<Rightarrow> Undefined
              | Some t \<Rightarrow>
                  if m AND 0x80 \<noteq> 0 then
                    bind (decode_array e t d) (\<lambda>(r1, ws, d1).
                      if m AND 0x40 \<noteq> 0 then
                        (case type_at T 5 of
                           None \<Rightarrow> Undefined
                         | Some int32 \<Rightarrow> bind (decode_array e int32 d1) (\<lambda>(r2, dims, d2).
                             Done (r1 OR r2, VVarArray (unat (m AND 0x3F) - 1) ws (map u32_of (elems dims)), d2)))
                      else Done (r1, VVarArray (unat (m AND 0x3F) - 1) ws [], d1))
                  else if unat (m AND 0x3F) - 1 \<noteq> 21 then
                    bind (e t d) (\<lambda>(r, w, d'). Done (r, VVarScalar (unat (m AND 0x3F) - 1) w, d'))
                  else Variant_decodeBinaryUnwrapExtensionObject T e d)"
  show "Variant_decodeBinary T e (decode_array e) d = (let (rv, m, d1) = Byte_decodeBinary d in
      if rv \<noteq> GOOD then Done (rv, VVarEmpty, d1) else ?g m d1)" for d
    unfolding Variant_decodeBinary_def Let_def by (rule refl)
  fix m k
  assume k: "k < len"
  show "returns k (?g m)"
  proof (cases "m = 0 \<or> unat (m AND 0x3F) = 0 \<or> unat (m AND 0x3F) - 1 > 24")
    case True
    then show ?thesis by (auto simp: returns_def)
  next
    case False
    let ?i = "unat (m AND 0x3F) - 1"
    have t: "type_at T ?i = Some (T ! ?i)" and 5: "type_at T 5 = Some (T ! 5)"
      using False assms(2) by (simp_all add: type_at_def)
    have arr: "returns j (decode_array e (T ! q))" if "j \<le> k" "type_at T q = Some (T ! q)" for j q
      using that k by (intro returns_decode_array assms(1) type_at_set[OF that(2)]) simp
    have a: "returns k (\<lambda>d. bind (decode_array e (T ! ?i) d) (\<lambda>(r1, ws, d1).
        bind (decode_array e (T ! 5) d1) (\<lambda>(r2, dims, d2).
          Done (r1 OR r2, VVarArray ?i ws (map u32_of (elems dims)), d2))))"
      "returns k (\<lambda>d. bind (decode_array e (T ! ?i) d) (\<lambda>(r1, ws, d1). Done (r1, VVarArray ?i ws [], d1)))"
      by (intro returns_bind returns_Done arr t 5 order_refl; simp)+
    have s: "returns k (\<lambda>d. bind (e (T ! ?i) d) (\<lambda>(r, w, d'). Done (r, VVarScalar ?i w, d')))"
      using k by (intro returns_bind returns_Done assms(1) type_at_set[OF t]) simp
    have u: "returns k (Variant_decodeBinaryUnwrapExtensionObject T e)"
      using k assms by (intro returns_unwrap) auto
    show ?thesis
      using False a s u t 5
      by (cases "m AND 0x80 \<noteq> 0"; cases "m AND 0x40 \<noteq> 0"; cases "?i \<noteq> 21")
         (simp_all del: One_nat_def)
  qed
qed

lemma dec_of_done:
  "shrinks f \<Longrightarrow> \<exists>rv a d'. dec_of con f d = Done (rv, a, d') \<and> length (drest d') \<le> length (drest d)"
  using returns_dec_of[of f "length (drest d)" con] by (simp add: returns_def)

definition ranked :: "types \<Rightarrow> nat list \<Rightarrow> bool" where
  "ranked T ranks \<longleftrightarrow> 24 < length T \<and>
     list_all2 (\<lambda>t r. (builtin t \<noteq> None \<and> builtin t \<noteq> Some KQualifiedName) \<or>
       list_all (\<lambda>m. namespaceZero m \<and> memberTypeIndex m < length T \<and>
         ranks ! memberTypeIndex m < r) (members t)) T ranks"

lemma ranked_member:
  assumes "ranked T ranks" "i < length T" "m \<in> set (members (T ! i))"
    and "builtin (T ! i) = None \<or> builtin (T ! i) = Some KQualifiedName"
  shows "member_type T T m = Some (T, T ! memberTypeIndex m)" "memberTypeIndex m < length T"
    "ranks ! memberTypeIndex m < ranks ! i"
  using assms by (auto simp: ranked_def list_all2_conv_all_nth list_all_iff member_type_def
      type_at_def Let_def)

theorem decode_jump_returns:
  assumes "ranked T ranks" "list_all (\<lambda>r. r < R) ranks"
  shows "i < length T \<Longrightarrow> R * len + ranks ! i < n \<Longrightarrow> returns len (decode_jump T n T (T ! i))"
proof (induction n arbitrary: i len)
  case (Suc n)
  have R: "ranks ! j < R" if "j < length T" for j
    using assms that by (auto simp: ranked_def list_all_iff dest!: list_all2_lengthD)
  have shorter: "returns k (decode_jump T n T t)" if k: "k < len" and t: "t \<in> set T" for k t
  proof -
    obtain j where j: "j < length T" "t = T ! j"
      using t by (auto simp: in_set_conv_nth)
    have "R * k + R \<le> R * len"
      using k by (metis Suc_leI mult_Suc_right mult_le_mono2 add.commute)
    then have "R * k + ranks ! j < n"
      using R[OF j(1)] Suc.prems(2) by linarith
    then show ?thesis
      using Suc.IH j by blast
  qed
  have internal: "returns len (\<lambda>d. bind (decode_members (decode_member T (decode_jump T n) T)
      (members (T ! i)) d) (\<lambda>(rv, vs, d'). Done (rv, VStruct vs, d')))"
    if "builtin (T ! i) = None \<or> builtin (T ! i) = Some KQualifiedName"
  proof (intro returns_bind returns_Done returns_members)
    fix m
    assume m: "m \<in> set (members (T ! i))"
    note r = ranked_member[OF assms(1) Suc.prems(1) m that]
    have e: "returns len (decode_jump T n T (T ! memberTypeIndex m))"
      using Suc.IH[OF r(2)] r(3) Suc.prems(2) by simp
    have "returns len (\<lambda>d. bind (decode_array (decode_jump T n T) (T ! memberTypeIndex m) d)
        (\<lambda>(rv, ws, d'). Done (rv, VArray ws, d')))"
      by (intro returns_bind returns_Done returns_decode_array e)
    then show "returns len (decode_member T (decode_jump T n) T m)"
      unfolding decode_member_def[abs_def] using e r(1) by (cases "isArray m") simp_all
  qed
  have t23: "type_at T 23 = Some (T ! 23)" and len: "24 < length T"
    using assms(1) by (auto simp: ranked_def type_at_def)
  have ti: "T ! i \<in> set T" using Suc.prems(1) by simp
  show ?case
  proof (cases "builtin (T ! i)")
    case None
    then show ?thesis
      using internal unfolding returns_def by (simp add: Let_def)
  next
    case (Some k)
    have ext: "returns len (ExtensionObject_decodeBinary T (decode_jump T n T))"
      by (rule returns_ext) (rule shorter)
    have dv: "returns len (DataValue_decodeBinary (decode_jump T n T (T ! 23)))"
      by (rule returns_data_value, rule shorter) (use type_at_set[OF t23] in simp_all)
    have var: "returns len (Variant_decodeBinary T (decode_jump T n T) (decode_array (decode_jump T n T)))"
      by (rule returns_variant[OF shorter len])
    have diag: "returns len (DiagnosticInfo_decodeBinary (decode_jump T n T (T ! i)))"
      by (rule returns_diagnostic, rule shorter) (use ti in simp_all)
    show ?thesis
    proof (cases "k = KQualifiedName")
      case True
      then show ?thesis
        using internal Some unfolding returns_def by (simp add: Let_def)
    next
      case False
      then show ?thesis
        using Some ext dv var diag t23 unfolding returns_def
        by (cases k)
           (simp_all add: Let_def dec_of_done shrinks_ints shrinks_string shrinks_guid shrinks_nodeid
             shrinks_expanded shrinks_loctext)
    qed
  qed
qed simp

end
