(* ===== verification/CodecProps.thy ===== *)
theory CodecProps
  imports UaTables BinSpec CodecTotal
begin

text \<open>
  The binary codec at work on the program's own tables: they are well formed, every value of the
  wire format survives encoding and decoding, its size is computed exactly, decoding any bytes
  ends, and three cases in which encoding and decoding disagree.
\<close>

section \<open>The tables\<close>

text \<open>The nesting depth of the structures of \<open>UA_TYPES\<close>, index by index.\<close>

definition ua_ranks :: "nat list" where
  "ua_ranks =
    [0, 0, 0, 0, 0, 0, 0, 0, 0, 0, 0, 0, 0, 0, 0, 0, 0, 0, 0, 1, 0, 0, 0, 0, 0, 1, 1, 1, 0,
     1, 1, 2, 1, 1, 1, 0, 0, 1, 1, 2, 0, 1, 2, 1, 1, 1, 2, 0, 2, 1, 1, 1, 1, 0, 1, 1, 1, 1,
     1, 1, 0, 0, 0, 1, 0, 1, 1, 1, 1, 2, 1, 1, 2, 1, 2, 1, 2, 2, 2, 2, 1, 0, 0, 2, 2, 0, 0,
     2, 2, 0, 2, 2, 2, 2, 1, 2, 2, 2, 2, 2, 2, 1, 2, 1, 2, 2, 2, 1, 1, 2, 2, 2, 2, 2, 2, 3,
     2, 2, 2, 2, 2, 1, 2, 2, 3, 2, 2, 2, 2, 2, 3, 2, 2, 2, 2, 3, 2, 2, 2, 3, 1, 1, 2, 1, 2,
     2, 4, 2, 3, 3, 2, 4, 3, 2, 4, 2, 3, 5, 4, 5, 4, 3, 6]"

definition has_body :: "udesc \<Rightarrow> bool" where
  "has_body d \<longleftrightarrow> builtin d = None"

definition builtin_ok :: "udesc \<Rightarrow> bool" where
  "builtin_ok d \<longleftrightarrow> builtin d = None \<or> desc_ok d \<and> binaryEncodingId d = 0"

definition struct_ok :: "udesc \<Rightarrow> bool" where
  "struct_ok d \<longleftrightarrow> builtin d \<noteq> None \<or> is_numeric (typeId d) \<and> namespaceIndex (typeId d) = 0 \<and>
     binaryEncodingId d \<noteq> 0 \<and> NodeId_calcSizeBinary (typeId d) = NodeId_calcSizeBinary (encoding_id d)"

definition members_ok :: "types \<Rightarrow> udesc \<Rightarrow> bool" where
  "members_ok T d \<longleftrightarrow> list_all (\<lambda>m. namespaceZero m \<and> memberTypeIndex m < length T) (members d)"

lemma length_UA_TYPES [simp]: "length UA_TYPES = 163"
  by (simp add: UA_TYPES_def)

lemma ua_builtin_ok: "list_all builtin_ok UA_TYPES"
  unfolding UA_TYPES_def entry_def builtin_ok_def desc_ok_def by simp

lemma ua_struct_ok: "list_all struct_ok UA_TYPES"
  unfolding UA_TYPES_def entry_def struct_ok_def
  by (simp add: is_numeric_def UA_NODEID_NUMERIC_def NodeId_calcSizeBinary_def encoding_id_def)

lemma ua_members_ok: "list_all (members_ok UA_TYPES) UA_TYPES"
  unfolding members_ok_def length_UA_TYPES
  unfolding UA_TYPES_def entry_defs member_defs by simp

lemma ua_distinct: "distinct (map binaryEncodingId (filter has_body UA_TYPES))"
  unfolding UA_TYPES_def entry_def has_body_def by simp

lemma ua_ranked: "ranked UA_TYPES ua_ranks"
  unfolding ranked_def length_UA_TYPES
  by (rule conjI, simp, unfold UA_TYPES_def entry_defs member_defs ua_ranks_def, simp)

lemma ua_ranks_bound: "list_all (\<lambda>r. r < 7) ua_ranks"
  by (simp add: ua_ranks_def)

lemma ua_builtins: "builtin (UA_TYPES ! bt_index k) = Some k"
  unfolding UA_TYPES_def entry_def by (cases k) simp_all


lemma find_type_first:
  "i < length T \<Longrightarrow> p (T ! i) \<Longrightarrow> (\<And>j. j < i \<Longrightarrow> \<not> p (T ! j)) \<Longrightarrow> find_type p T = Some i"
proof (induction T arbitrary: i)
  case (Cons d T)
  show ?case
  proof (cases i)
    case 0
    then show ?thesis using Cons.prems by simp
  next
    case (Suc k)
    then show ?thesis
      using Cons.prems(1,2) Cons.prems(3)[of 0] Cons.prems(3)[of "Suc _"]
      by (auto intro!: Cons.IH)
  qed
qed simp

lemma distinct_filter_nth:
  "distinct (map f (filter P xs)) \<Longrightarrow> i < j \<Longrightarrow> j < length xs \<Longrightarrow> P (xs ! i) \<Longrightarrow> P (xs ! j) \<Longrightarrow>
   f (xs ! i) \<noteq> f (xs ! j)"
proof (induction xs arbitrary: i j)
  case (Cons x xs)
  obtain k where j: "j = Suc k" using Cons.prems(2) by (cases j) auto
  show ?case
  proof (cases i)
    case 0
    have "xs ! k \<in> set (filter P xs)" using Cons.prems(3,5) j by simp
    then have "f (xs ! k) \<in> f ` set (filter P xs)" by (rule imageI)
    then show ?thesis
      using Cons.prems(1,4) j 0 by auto
  next
    case (Suc m)
    then show ?thesis
      using Cons j by (auto split: if_splits)
  qed
qed simp

lemma ua_announces:
  assumes "i < 163" "builtin (UA_TYPES ! i) = None"
  shows "announces UA_TYPES i (UA_TYPES ! i)"
proof -
  let ?d = "UA_TYPES ! i"
  have i: "i < length UA_TYPES" using assms(1) by simp
  have s: "is_numeric (typeId ?d)" "binaryEncodingId ?d \<noteq> 0"
    "NodeId_calcSizeBinary (typeId ?d) = NodeId_calcSizeBinary (encoding_id ?d)"
    using ua_struct_ok i assms(2) by (auto simp: list_all_length struct_ok_def)
  have "binaryEncodingId (UA_TYPES ! j) \<noteq> binaryEncodingId ?d" if j: "j < i" for j
  proof (cases "builtin (UA_TYPES ! j) = None")
    case True
    then show ?thesis
      using distinct_filter_nth[OF ua_distinct j i] assms(2) by (simp add: has_body_def)
  next
    case False
    have "builtin_ok (UA_TYPES ! j)"
      using ua_builtin_ok i j by (simp add: list_all_length)
    then show ?thesis using False s(2) by (auto simp: builtin_ok_def)
  qed
  then show ?thesis
    using s i find_type_first[OF i, of "\<lambda>d. binaryEncodingId d = binaryEncodingId ?d"]
    by (simp add: announces_def type_at_def findDataTypeByBinary_def)
qed

section \<open>Properties\<close>

text \<open>
  The generated table \<open>UA_TYPES\<close> is what the codec relies on: 163 entries; the builtin types
  stand at their jump-table index; a fixed-size type has its wire size in memory and nothing else
  builtin is overlayable; every member index is inside the table; every structure is found under
  its binary encoding identifier, and no structure contains itself (the nesting of members has
  depth at most 6).
\<close>

theorem ua_types_well_formed:
  "length UA_TYPES = 163 \<and> (\<forall>k. builtin (UA_TYPES ! bt_index k) = Some k) \<and>
   list_all builtin_ok UA_TYPES \<and> list_all (members_ok UA_TYPES) UA_TYPES \<and>
   list_all (\<lambda>i. announces UA_TYPES i (UA_TYPES ! i)) (filter (\<lambda>i. builtin (UA_TYPES ! i) = None) [0..<163]) \<and>
   ranked UA_TYPES ua_ranks \<and> list_all (\<lambda>r. r \<le> 6) ua_ranks"
  using ua_builtins ua_builtin_ok ua_members_ok ua_announces ua_ranked ua_ranks_bound
  by (auto simp: list_all_iff simp del: not_None_eq)

text \<open>
  C3. Round trip of the binary encoding.  For every value of the wire format, of every type:
  written into a buffer with room for it, the encoder appends exactly its encoding and reports
  GOOD, and the decoder reads the value back from there, whatever follows, and stops right
  behind it.
\<close>

theorem codec_roundtrip:
  assumes "wire T n own d v bs" and "elive c" and "length (ebuf c) + length bs \<le> ecap c"
  shows "encode_jump T fuel xb n own d v c = Done (GOOD, c\<lparr>ebuf := ebuf c @ bs\<rparr>) \<and>
    decode_jump T n own d \<lparr> drest = bs @ suf, dpast = 0 \<rparr> = Done (GOOD, v, \<lparr> drest = suf, dpast = 0 \<rparr>)"
  using writesD[OF wire_writes(1)[OF assms(1)] assms(2,3)] oreadsD[OF wire_reads(1)[OF assms(1)]]
  by blast

text \<open>
  The item that the client reads: attribute 13 (the value) of node \<open>ns=0;i=2258\<close>, the server's
  current time.
\<close>

definition read_item :: uval where
  "read_item = VStruct [VNode (UA_NODEID_NUMERIC 0 2258), V32 13, VStr None,
     VStruct [V16 0, VStr None]]"

definition read_item_bytes :: "byte list" where
  "read_item_bytes = [1, 0, 0xD2, 8] @ [13, 0, 0, 0] @ [255, 255, 255, 255] @ ([0, 0] @ [255, 255, 255, 255])"

lemma small_bytes:
  "UA_encode32 (- 1) = [255, 255, 255, 255]" "UA_encode32 13 = [13, 0, 0, 0]"
  "UA_encode16 0 = [0, 0]" "UA_encode16 2258 = [0xD2, 8]"
proof -
  have "UA_encode32 0xFFFFFFFF = [255, 255, 255, 255]"
    by (simp add: UA_encode32.simps)
  moreover have "(- 1 :: u32) = 0xFFFFFFFF" by simp
  ultimately show "UA_encode32 (- 1) = [255, 255, 255, 255]" by metis
qed (simp_all add: UA_encode32.simps UA_encode16.simps)

lemma member_one: "i < 163 \<Longrightarrow> member_type UA_TYPES own (one i) = Some (UA_TYPES, UA_TYPES ! i)"
  by (simp add: member_type_def one_def type_at_def)

lemma isArray_one [simp]: "\<not> isArray (one i)"
  by (simp add: one_def)

lemmas wire_rules = wire_wire_mems_wire_list_wire_array.intros

lemma mems_one_ua:
  "i < 163 \<Longrightarrow> wire UA_TYPES n UA_TYPES (UA_TYPES ! i) v b \<Longrightarrow> wire_mems UA_TYPES n own ms vs bs \<Longrightarrow>
   wire_mems UA_TYPES n own (one i # ms) (v # vs) (b @ bs)"
  by (rule mems_one[OF isArray_one member_one])

lemma item_entries:
  "UA_TYPES ! 69 = entry 626 None 72 False 628 ReadValueId_members"
  "UA_TYPES ! 16 = entry 17 (Some KNodeId) 24 False 0 NodeId_members"
  "UA_TYPES ! 6 = entry 7 (Some KUInt32) 4 True 0 UInt32_members"
  "UA_TYPES ! 11 = entry 12 (Some KString) 16 False 0 String_members"
  "UA_TYPES ! 19 = entry 20 (Some KQualifiedName) 24 False 0 QualifiedName_members"
  "UA_TYPES ! 3 = entry 4 (Some KInt16) 2 True 0 Int16_members"
  by (simp_all add: UA_TYPES_def)

lemma item_leaves:
  "wire T (Suc n) own (UA_TYPES ! 16) (VNode (UA_NODEID_NUMERIC 0 2258)) [1, 0, 0xD2, 8]"
  "wire T (Suc n) own (UA_TYPES ! 6) (V32 13) [13, 0, 0, 0]"
  "wire T (Suc n) own (UA_TYPES ! 11) (VStr None) [255, 255, 255, 255]"
  "wire T (Suc n) own (UA_TYPES ! 3) (V16 0) [0, 0]"
proof -
  show "wire T (Suc n) own (UA_TYPES ! 16) (VNode (UA_NODEID_NUMERIC 0 2258)) [1, 0, 0xD2, 8]"
    by (rule leaf[where k = KNodeId]) (simp_all add: item_entries entry_def nodeid_bytes_defs
        nodeid_ok_def UA_NODEID_NUMERIC_def desc_ok_def small_bytes)
  show "wire T (Suc n) own (UA_TYPES ! 6) (V32 13) [13, 0, 0, 0]"
    by (rule leaf[where k = KUInt32]) (simp_all add: item_entries entry_def desc_ok_def small_bytes)
  show "wire T (Suc n) own (UA_TYPES ! 11) (VStr None) [255, 255, 255, 255]"
    by (rule leaf[where k = KString]) (simp_all add: item_entries entry_def desc_ok_def small_bytes
        ustring_ok_def ubytes_def string_bytes_def array_length_field_def)
  show "wire T (Suc n) own (UA_TYPES ! 3) (V16 0) [0, 0]"
    by (rule leaf[where k = KInt16]) (simp_all add: item_entries entry_def desc_ok_def small_bytes)
qed

lemma read_item_wire: "wire UA_TYPES 3 UA_TYPES (UA_TYPES ! 69) read_item read_item_bytes"
proof -
  have m: "members (UA_TYPES ! 19) = [one 3, one 11]"
    "members (UA_TYPES ! 69) = [one 16, one 6, one 11, one 19]"
    by (simp_all add: item_entries(1,5) entry_def QualifiedName_members_def ReadValueId_members_def)
  have q: "wire UA_TYPES (Suc (Suc 0)) UA_TYPES (UA_TYPES ! 19) (VStruct [V16 0, VStr None])
      ([0, 0] @ [255, 255, 255, 255] @ [])"
    by (rule struct, simp add: item_entries(5) entry_def, unfold m,
        intro mems_one_ua mems_nil item_leaves) simp_all
  have "wire UA_TYPES (Suc (Suc (Suc 0))) UA_TYPES (UA_TYPES ! 69) read_item
      ([1, 0, 0xD2, 8] @ [13, 0, 0, 0] @ [255, 255, 255, 255] @ ([0, 0] @ [255, 255, 255, 255] @ []) @ [])"
    unfolding read_item_def
    by (rule struct, simp add: item_entries(1) entry_def, unfold m,
        intro mems_one_ua mems_nil item_leaves q) simp_all
  then show ?thesis
    unfolding read_item_bytes_def by (simp add: numeral_3_eq_3)
qed

theorem codec_roundtrip_witness:
  "\<exists>c'. encode_jump UA_TYPES 0 None 3 UA_TYPES (UA_TYPES ! 69) read_item
      \<lparr> ebuf = [], ecap = 8168, egen = 0, elive = True, ecb = () \<rparr> = Done (GOOD, c') \<and>
    ebuf c' = read_item_bytes \<and>
    decode_jump UA_TYPES 3 UA_TYPES (UA_TYPES ! 69) \<lparr> drest = ebuf c' @ [7], dpast = 0 \<rparr> =
      Done (GOOD, read_item, \<lparr> drest = [7], dpast = 0 \<rparr>)"
  using codec_roundtrip[OF read_item_wire, of "\<lparr> ebuf = [], ecap = 8168, egen = 0, elive = True, ecb = () \<rparr>" 0 None "[7]"]
  by (simp add: read_item_bytes_def)

text \<open>
  C32. \<open>UA_calcSizeBinary\<close> computes the exact length of the encoding: the length field of an
  extension object, which is written before its content, is right.
\<close>

theorem calcSize_exact:
  assumes "wire T n own d v bs"
  shows "calcSize T n own d v = Done (length bs)"
  using assms by (rule wire_calcSize(1))

theorem calcSize_exact_witness:
  "calcSize UA_TYPES 3 UA_TYPES (UA_TYPES ! 69) read_item = Done 18"
  using calcSize_exact[OF read_item_wire] by (simp add: read_item_bytes_def)

text \<open>
  The wire format is unambiguous: if the encodings of two values of one type agree, even only
  as prefixes of two messages, the values are equal and so is what follows.
\<close>

theorem wire_unambiguous:
  assumes "wire T n own d v a" and "wire T n own d w b" and "a @ s = b @ t"
  shows "v = w \<and> s = t"
proof -
  have "decode_jump T n own d \<lparr> drest = b @ t, dpast = 0 \<rparr> = Done (GOOD, v, \<lparr> drest = s, dpast = 0 \<rparr>)"
    using oreadsD[OF wire_reads(1)[OF assms(1)], of s] by (simp only: assms(3))
  from trans[OF this[symmetric] oreadsD[OF wire_reads(1)[OF assms(2)]]]
  show ?thesis by simp
qed

theorem wire_unambiguous_witness:
  "\<exists>v. wire UA_TYPES 3 UA_TYPES (UA_TYPES ! 69) v read_item_bytes \<and>
     (\<forall>s t. (read_item_bytes @ s = read_item_bytes @ t) = (v = read_item \<and> s = t))"
  using wire_unambiguous[OF read_item_wire read_item_wire] read_item_wire
  by (intro exI[of _ read_item]) auto

text \<open>
  C21. Decoding ends on every input, well formed or not: for every type of \<open>UA_TYPES\<close>, every
  message and every offset in it, the decoder returns a status without reading outside its tables,
  if its nesting may reach seven times the length of the message.  (The code itself sets no limit
  to the nesting, so the depth of its recursion is linear in the length of what it is sent.)
\<close>

theorem decode_total:
  assumes "i < 163" and "7 * length src + 7 \<le> n"
  shows "\<exists>r. UA_decodeBinary UA_TYPES n UA_TYPES (UA_TYPES ! i) src offset = Done r"
proof -
  let ?d = "\<lparr> drest = drop offset src, dpast = offset - length src \<rparr>"
  have jump: "returns (length src) (decode_jump UA_TYPES n UA_TYPES (UA_TYPES ! j))" if "j < 163" for j
  proof (rule decode_jump_returns[OF ua_ranked ua_ranks_bound])
    have "length ua_ranks = 163" by (simp add: ua_ranks_def)
    then have "ua_ranks ! j < 7" using ua_ranks_bound that by (simp add: list_all_length)
    then show "7 * length src + ua_ranks ! j < n" using assms(2) by simp
  qed (simp add: that)
  have "returns (length src) (decode_members (decode_member UA_TYPES (decode_jump UA_TYPES n) UA_TYPES)
      (members (UA_TYPES ! i)))"
  proof (rule returns_members)
    fix m
    assume "m \<in> set (members (UA_TYPES ! i))"
    then have m: "namespaceZero m" "memberTypeIndex m < 163"
      using ua_members_ok assms(1) by (auto simp: list_all_length members_ok_def in_set_conv_nth)
    then have mt: "member_type UA_TYPES UA_TYPES m = Some (UA_TYPES, UA_TYPES ! memberTypeIndex m)"
      by (simp add: member_type_def type_at_def)
    have "returns (length src) (\<lambda>d. bind (decode_array (decode_jump UA_TYPES n UA_TYPES)
        (UA_TYPES ! memberTypeIndex m) d) (\<lambda>(rv, ws, d'). Done (rv, VArray ws, d')))"
      by (intro returns_bind returns_Done returns_decode_array jump m)
    then show "returns (length src) (decode_member UA_TYPES (decode_jump UA_TYPES n) UA_TYPES m)"
      unfolding decode_member_def[abs_def] using jump[OF m(2)] mt by (cases "isArray m") simp_all
  qed
  moreover have "length (drest ?d) \<le> length src" by simp
  ultimately obtain rv vs d' where "decode_members (decode_member UA_TYPES (decode_jump UA_TYPES n) UA_TYPES)
      (members (UA_TYPES ! i)) ?d = Done (rv, vs, d')"
    by (rule returnsE)
  then show ?thesis
    by (simp add: UA_decodeBinary_def UA_decodeBinaryInternal_def)
qed

theorem decode_total_witness:
  "\<exists>r. UA_decodeBinary UA_TYPES 28 UA_TYPES (UA_TYPES ! 135) [1, 2, 3] 0 = Done r"
  using decode_total[of 135 "[1, 2, 3]" 28 0] by simp


text \<open>
  Diagnostic infos do not survive the trip.  The encoder's mask has no bit for the inner
  status code, so its four bytes are written but never read, and they are taken for what follows;
  an inner diagnostic info is announced with the bit that the decoder reads as the inner status
  code.
\<close>

lemma diagnostic_entry: "UA_TYPES ! 24 = entry 25 (Some KDiagnosticInfo) 56 False 0 DiagnosticInfo_members"
  by (simp add: UA_TYPES_def)

theorem diagnostic_info_lost:
  "encode_jump UA_TYPES 0 None (Suc n) UA_TYPES (UA_TYPES ! 24) (VDiag None None None None None (Some st) None)
      \<lparr> ebuf = [], ecap = 100, egen = 0, elive = True, ecb = () \<rparr> =
    Done (GOOD, \<lparr> ebuf = 0 # UA_encode32 st, ecap = 100, egen = 0, elive = True, ecb = () \<rparr>) \<and>
   decode_jump UA_TYPES (Suc n) UA_TYPES (UA_TYPES ! 24) \<lparr> drest = 0 # UA_encode32 st @ suf, dpast = 0 \<rparr> =
    Done (GOOD, VDiag None None None None None None None, \<lparr> drest = UA_encode32 st @ suf, dpast = 0 \<rparr>) \<and>
   encode_jump UA_TYPES 0 None (Suc (Suc n)) UA_TYPES (UA_TYPES ! 24)
      (VDiag None None None None None None (Some (VDiag (Some x) None None None None None None)))
      \<lparr> ebuf = [], ecap = 100, egen = 0, elive = True, ecb = () \<rparr> =
    Done (GOOD, \<lparr> ebuf = 32 # 1 # UA_encode32 x, ecap = 100, egen = 0, elive = True, ecb = () \<rparr>) \<and>
   (\<exists>y d'. decode_jump UA_TYPES (Suc (Suc n)) UA_TYPES (UA_TYPES ! 24)
      \<lparr> drest = 32 # 1 # UA_encode32 x, dpast = 0 \<rparr> =
    Done (GOOD, VDiag None None None None None (Some y) None, d'))"
proof -
  have 4: "take_bytes 4 \<lparr> drest = 1 # UA_encode32 x, dpast = 0 \<rparr> =
      Some (take 4 (1 # UA_encode32 x), \<lparr> drest = drop 4 (1 # UA_encode32 x), dpast = 0 \<rparr>)"
    by (simp add: take_bytes_def)
  show ?thesis
    unfolding diagnostic_entry entry_def
    by (simp add: DiagnosticInfo_encodeBinary_def DiagnosticInfo_decodeBinary_def or_then_def opt_enc_def
        skip_def bit_if_def Byte_encodeBinary_def UInt32_encodeBinary_def put_def opt_dec_def
        opt_vdec_def Let_def UInt32_decodeBinary_def 4)
qed

text \<open>
  An array of data values without content is encoded, and refused by the decoder when the
  message ends behind it: the check that is to filter out bogus array lengths compares a
  thirty-second of the array's size in memory, 96 bytes per element, with the bytes left, but such
  an element takes a single byte on the wire.
\<close>

lemma data_value_entry: "UA_TYPES ! 22 = entry 23 (Some KDataValue) 96 False 0 DataValue_members"
  by (simp add: UA_TYPES_def)

lemma variant_entry: "type_at UA_TYPES 23 = Some (UA_TYPES ! 23)"
  by (simp add: UA_TYPES_def type_at_def)

theorem empty_data_values_refused:
  assumes "0 < k" and "k \<le> 0x7FFFFFFF" and "elive c"
    and "length (ebuf c) + 4 + k \<le> ecap c"
  shows "Array_encodeBinary fuel xb (encode_jump UA_TYPES fuel xb (Suc n) UA_TYPES (UA_TYPES ! 22)) (UA_TYPES ! 22)
      (Some (replicate k (VDataValue None None None None None None))) c =
    Done (GOOD, c\<lparr>ebuf := ebuf c @ UA_encode32 (of_nat k) @ replicate k 0\<rparr>) \<and>
    decode_array (decode_jump UA_TYPES n' UA_TYPES) (UA_TYPES ! 22)
      \<lparr> drest = UA_encode32 (of_nat k) @ replicate k 0, dpast = 0 \<rparr> =
    Done (BADDECODINGERROR, None, \<lparr> drest = replicate k 0, dpast = 0 \<rparr>)"
proof -
  let ?v = "VDataValue None None None None None None"
  have "wire UA_TYPES (Suc n) UA_TYPES (UA_TYPES ! 22) ?v [0]"
    using no_value[where d = "UA_TYPES ! 22" and dv = "UA_TYPES ! 23" and own = UA_TYPES and T = UA_TYPES and n = n
      and st = None and sts = None and svts = None and sps = None and svps = None]
    by (simp add: data_value_entry entry_def variant_entry pico_ok_def opt_bytes_def bit_if_def)
  then have "wire_list UA_TYPES (Suc n) UA_TYPES (UA_TYPES ! 22) (replicate j ?v) (replicate j 0)" for j
    by (induction j) (simp_all add: list_nil list_cons[where b = "[0]", simplified])
  note elements = wire_writes(3)[OF this, of fuel xb]
  have "\<not> overlayable (UA_TYPES ! 22)"
    by (simp add: data_value_entry entry_def)
  then have "writes (Array_encodeBinary fuel xb (encode_jump UA_TYPES fuel xb (Suc n) UA_TYPES (UA_TYPES ! 22))
      (UA_TYPES ! 22) (Some (replicate k ?v))) (UA_encode32 (of_nat (length (replicate k ?v))) @ replicate k 0)"
    using assms(2) by (intro writes_array) (simp_all add: elements)
  from writesD[OF this assms(3)] have "Array_encodeBinary fuel xb (encode_jump UA_TYPES fuel xb (Suc n) UA_TYPES (UA_TYPES ! 22))
      (UA_TYPES ! 22) (Some (replicate k ?v)) c =
      Done (GOOD, c\<lparr>ebuf := ebuf c @ UA_encode32 (of_nat k) @ replicate k 0\<rparr>)"
    using assms(4) by simp
  moreover have "k < 96 * k div 32" using assms(1) by simp
  ultimately show ?thesis
    using assms(1,2)
    by (simp add: decode_array_def Array_decodeBinary_def int_reads sint_of_nat_u32 unat_of_nat_u32
        data_value_entry entry_def Let_def)
qed

theorem empty_data_values_refused_witness:
  "decode_array (decode_jump UA_TYPES 5 UA_TYPES) (UA_TYPES ! 22)
      \<lparr> drest = UA_encode32 1 @ [0], dpast = 0 \<rparr> =
    Done (BADDECODINGERROR, None, \<lparr> drest = [0], dpast = 0 \<rparr>)"
  using empty_data_values_refused[of 1 "\<lparr> ebuf = [], ecap = 8, egen = 0, elive = True, ecb = () \<rparr>" 0 None 0 5]
  by simp

end
