(* ===== verification/SecureChannel.thy ===== *)
theory SecureChannel
  imports UaTables BinSpec
begin

text \<open>
  The state of secure channels, connections and sessions (\<open>ua_securechannel.h\<close>, \<open>ua_session.h\<close>,
  \<open>ua_connection.h\<close>), the headers of a chunk with their encodings, and the small operations on the
  lists of a channel.

  Pointers to connections, channels and sessions are addresses; a linked list is the list of its
  entries from the head.
\<close>

section \<open>State\<close>

record connectionConfig =
  protocolVersion :: u32
  sendBufferSize :: u32
  recvBufferSize :: u32
  maxMessageSize :: u32
  maxChunkCount :: u32

definition UA_ConnectionConfig_standard :: connectionConfig where
  "UA_ConnectionConfig_standard = \<lparr> protocolVersion = 0, sendBufferSize = 65535, recvBufferSize = 65535,
     maxMessageSize = 0, maxChunkCount = 0 \<rparr>"

datatype connectionState = UA_CONNECTION_OPENING | UA_CONNECTION_ESTABLISHED | UA_CONNECTION_CLOSED

record connection =
  cstate :: connectionState
  localConf :: connectionConfig
  remoteConf :: connectionConfig
  cchannel :: "nat option"
  incompleteMessage :: "byte list"

record securityToken =
  channelId :: u32
  tokenId :: u32
  createdAt :: int
  revisedLifetime :: u32

record chunkEntry =
  crequestId :: u32
  cbytes :: "byte list"

record secureChannel =
  securityToken :: securityToken
  nextSecurityToken :: securityToken
  policyUri :: ustring
  clientNonce :: ustring
  serverNonce :: ustring
  receiveSequenceNumber :: u32
  sendSequenceNumber :: u32
  cconnection :: "nat option"
  csessions :: "nat list"
  chunks :: "chunkEntry list"

definition token_init :: securityToken where
  "token_init = \<lparr> channelId = 0, tokenId = 0, createdAt = 0, revisedLifetime = 0 \<rparr>"

definition UA_SecureChannel_init :: secureChannel where
  "UA_SecureChannel_init = \<lparr> securityToken = token_init, nextSecurityToken = token_init,
     policyUri = None, clientNonce = None, serverNonce = None, receiveSequenceNumber = 0,
     sendSequenceNumber = 0, cconnection = None, csessions = [], chunks = [] \<rparr>"

definition UA_SecureChannel_generateNonce :: ustring where
  "UA_SecureChannel_generateNonce = Some (str ''a'')"

definition UA_SecureChannel_revolveTokens :: "secureChannel \<Rightarrow> secureChannel" where
  "UA_SecureChannel_revolveTokens c =
     (if tokenId (nextSecurityToken c) = 0 then c
      else c\<lparr>securityToken := nextSecurityToken c, nextSecurityToken := token_init\<rparr>)"

section \<open>Constants of the message format\<close>

abbreviation UA_MESSAGETYPE_ACK :: u32 where "UA_MESSAGETYPE_ACK \<equiv> 0x4B4341"
abbreviation UA_MESSAGETYPE_HEL :: u32 where "UA_MESSAGETYPE_HEL \<equiv> 0x4C4548"
abbreviation UA_MESSAGETYPE_MSG :: u32 where "UA_MESSAGETYPE_MSG \<equiv> 0x47534D"
abbreviation UA_MESSAGETYPE_OPN :: u32 where "UA_MESSAGETYPE_OPN \<equiv> 0x4E504F"
abbreviation UA_MESSAGETYPE_CLO :: u32 where "UA_MESSAGETYPE_CLO \<equiv> 0x4F4C43"
abbreviation UA_MESSAGETYPE_ERR :: u32 where "UA_MESSAGETYPE_ERR \<equiv> 0x525245"
abbreviation UA_CHUNKTYPE_FINAL :: u32 where "UA_CHUNKTYPE_FINAL \<equiv> 0x46000000"
abbreviation UA_CHUNKTYPE_INTERMEDIATE :: u32 where "UA_CHUNKTYPE_INTERMEDIATE \<equiv> 0x43000000"
abbreviation UA_CHUNKTYPE_ABORT :: u32 where "UA_CHUNKTYPE_ABORT \<equiv> 0x41000000"
abbreviation HEADER_LENGTH :: nat where "HEADER_LENGTH \<equiv> 24"

section \<open>Headers\<close>

text \<open>
  \<open>UA_<Type>_encodeBinary(v, dst, &offset)\<close>: encoding behind the bytes \<open>buf\<close> of a buffer of \<open>room\<close>
  bytes, with no exchange of the buffer; the status is not looked at, and the offset follows what
  was written.
\<close>

definition encode_at :: "types \<Rightarrow> nat \<Rightarrow> uval \<Rightarrow> nat \<Rightarrow> byte list \<Rightarrow> byte list" where
  "encode_at own i v room buf = (case UA_encodeBinary UA_TYPES 0 None 5 own (own ! i) v buf room () of
       Done (rv, c) \<Rightarrow> ebuf c
     | _ \<Rightarrow> buf)"

definition message_header :: "u32 \<Rightarrow> u32 \<Rightarrow> u32 \<Rightarrow> uval" where
  "message_header typ sz chanId = VStruct [VStruct [V32 typ, V32 sz], V32 chanId]"

definition sequence_header :: "u32 \<Rightarrow> u32 \<Rightarrow> uval" where
  "sequence_header seqNo reqId = VStruct [V32 seqNo, V32 reqId]"

text \<open>The bytes of the three headers of a chunk.\<close>

definition header_bytes :: "u32 \<Rightarrow> u32 \<Rightarrow> u32 \<Rightarrow> byte list" where
  "header_bytes typ sz chanId = UA_encode32 typ @ UA_encode32 sz @ UA_encode32 chanId"

definition security_bytes :: "u32 \<Rightarrow> u32 \<Rightarrow> u32 \<Rightarrow> byte list" where
  "security_bytes token seqNo reqId = UA_encode32 token @ UA_encode32 seqNo @ UA_encode32 reqId"

lemma transport_entries:
  "UA_TRANSPORT ! 11 = entry 0 None 12 True 0 SecureConversationMessageHeader_members"
  "UA_TRANSPORT ! 10 = entry 0 None 4 True 0 SymmetricAlgorithmSecurityHeader_members"
  "UA_TRANSPORT ! 8 = entry 0 None 8 True 0 TcpMessageHeader_members"
  "UA_TRANSPORT ! 7 = entry 0 None 8 True 0 SequenceHeader_members"
  "UA_TRANSPORT ! 3 = entry 0 None 24 False 0 TcpErrorMessage_members"
  "length UA_TRANSPORT = 12"
  by (simp_all add: UA_TRANSPORT_def)

lemma uint32_entry:
  "UA_TYPES ! 6 = entry 7 (Some KUInt32) 4 True 0 UInt32_members" "length UA_TYPES = 163"
  "UA_TYPES ! 11 = entry 12 (Some KString) 16 False 0 String_members"
  "UA_TYPES ! 2 = entry 3 (Some KByte) 1 True 0 Byte_members"
  by (simp_all add: UA_TYPES_def)

lemma uint32_member: "member_type UA_TYPES own (one 6) = Some (UA_TYPES, UA_TYPES ! 6)"
  by (simp add: member_type_def one_def type_at_def uint32_entry)

lemma uint32_leaf: "wire UA_TYPES (Suc n) own (UA_TYPES ! 6) (V32 w) (UA_encode32 w)"
  by (rule leaf[where k = KUInt32]) (simp_all add: uint32_entry entry_def desc_ok_def)

lemma mems_uint32:
  "wire_mems UA_TYPES (Suc n) own ms vs bs \<Longrightarrow>
   wire_mems UA_TYPES (Suc n) own (one 6 # ms) (V32 w # vs) (UA_encode32 w @ bs)"
  by (rule mems_one[OF _ uint32_member uint32_leaf]) (simp_all add: one_def)

lemma sequence_header_mems:
  "wire_mems UA_TYPES (Suc n) UA_TRANSPORT (members (UA_TRANSPORT ! 7)) [V32 a, V32 b]
     (UA_encode32 a @ UA_encode32 b)"
  using mems_uint32[OF mems_uint32[OF mems_nil], of n UA_TRANSPORT a b]
  by (simp only: transport_entries entry_def udesc.simps SequenceHeader_members_def append_Nil2)

lemma token_mems:
  "wire_mems UA_TYPES (Suc n) UA_TRANSPORT (members (UA_TRANSPORT ! 10)) [V32 a] (UA_encode32 a)"
  using mems_uint32[OF mems_nil, of n UA_TRANSPORT a]
  by (simp only: transport_entries entry_def udesc.simps SymmetricAlgorithmSecurityHeader_members_def
      append_Nil2)

lemma tcp_header_wire:
  "wire UA_TYPES (Suc (Suc n)) UA_TRANSPORT (UA_TRANSPORT ! 8) (VStruct [V32 a, V32 b])
     (UA_encode32 a @ UA_encode32 b)"
proof (rule struct)
  show "wire_mems UA_TYPES (Suc n) UA_TRANSPORT (members (UA_TRANSPORT ! 8)) [V32 a, V32 b]
      (UA_encode32 a @ UA_encode32 b)"
    using mems_uint32[OF mems_uint32[OF mems_nil], of n UA_TRANSPORT a b]
    by (simp only: transport_entries entry_def udesc.simps TcpMessageHeader_members_def append_Nil2)
qed (simp add: transport_entries entry_def)

lemma message_header_mems:
  "wire_mems UA_TYPES (Suc (Suc n)) UA_TRANSPORT (members (UA_TRANSPORT ! 11))
     [VStruct [V32 a, V32 b], V32 c] (header_bytes a b c)"
proof -
  have m: "members (UA_TRANSPORT ! 11) = [own_one 8, one 6]"
    by (simp only: transport_entries entry_def udesc.simps SecureConversationMessageHeader_members_def)
  have t: "member_type UA_TYPES UA_TRANSPORT (own_one 8) = Some (UA_TRANSPORT, UA_TRANSPORT ! 8)"
    by (simp add: member_type_def own_one_def type_at_def transport_entries)
  have "wire_mems UA_TYPES (Suc (Suc n)) UA_TRANSPORT [own_one 8, one 6]
      [VStruct [V32 a, V32 b], V32 c] ((UA_encode32 a @ UA_encode32 b) @ UA_encode32 c @ [])"
    by (rule mems_one[OF _ t tcp_header_wire mems_uint32[OF mems_nil]]) (simp add: own_one_def)
  then show ?thesis
    by (simp only: m header_bytes_def append_assoc append_Nil2)
qed

text \<open>Encoding at an offset appends the wire format, decoding at an offset reads it.\<close>

lemma encode_at_mems:
  assumes "wire_mems UA_TYPES (Suc (Suc (Suc (Suc (Suc 0))))) own (members (own ! i)) vs bs"
    and "length buf + length bs \<le> room"
  shows "encode_at own i (VStruct vs) room buf = buf @ bs"
proof -
  have "wire_mems UA_TYPES 5 own (members (own ! i)) vs bs"
    using assms(1) by (simp add: numeral_eq_Suc)
  note w = wire_writes(2)[OF this, of 0 "None :: unit exchange"]
  show ?thesis
    using assms(2)
    by (simp add: encode_at_def UA_encodeBinary_def UA_encodeBinaryInternal_def writesD[OF w])
qed

end
