(* ===== verification/BinChunk.thy ===== *)
theory BinChunk
  imports BinSpec
begin

text \<open>
  Encoding into a sequence of exchanged buffers.  The locale states what the exchange callback
  promises, that it hands the content over before it reports \<open>GOOD\<close>; inside it, every encoder is
  shown to preserve the stream made of what was handed over and what is in the buffer, so that an
  encoding that ends \<open>GOOD\<close> has produced exactly the wire format, cut into chunks.
\<close>

locale chunk_sink =
  fixes cb :: "'s \<Rightarrow> byte list \<Rightarrow> status \<times> nat option \<times> 's"
    and log :: "'s \<Rightarrow> byte list"
  assumes cb_log: "cb s bs = (GOOD, room, s') \<Longrightarrow> log s' = log s @ bs"
begin

definition stream :: "'s ectx \<Rightarrow> byte list" where
  "stream c = log (ecb c) @ ebuf c"

text \<open>Nothing was sent and bytes were only added behind the old position.\<close>

definition same_buffer :: "'s ectx \<Rightarrow> 's ectx \<Rightarrow> bool" where
  "same_buffer c c' \<longleftrightarrow> (\<exists>x. c' = c\<lparr>ebuf := ebuf c @ x\<rparr>)"

lemma same_buffer_refl [simp]: "same_buffer c c"
  unfolding same_buffer_def by (rule exI[of _ "[]"]) simp

definition streams :: "'s enc \<Rightarrow> byte list \<Rightarrow> bool" where
  "streams f bs \<longleftrightarrow>
     (\<forall>c rv c'. f c = Done (rv, c') \<longrightarrow>
        egen c \<le> egen c' \<and> (egen c' = egen c \<longrightarrow> same_buffer c c') \<and>
        (rv = GOOD \<longrightarrow> stream c' = stream c @ bs))"

lemma streamsI:
  assumes "\<And>c rv c'. f c = Done (rv, c') \<Longrightarrow> egen c \<le> egen c'"
    and "\<And>c rv c'. f c = Done (rv, c') \<Longrightarrow> egen c' = egen c \<Longrightarrow> same_buffer c c'"
    and "\<And>c c'. f c = Done (GOOD, c') \<Longrightarrow> stream c' = stream c @ bs"
  shows "streams f bs"
  using assms unfolding streams_def by blast

lemma streamsD:
  assumes "streams f bs" "f c = Done (rv, c')"
  shows "egen c \<le> egen c'" "egen c' = egen c \<Longrightarrow> same_buffer c c'"
    "rv = GOOD \<Longrightarrow> stream c' = stream c @ bs"
  using assms unfolding streams_def by blast+

lemma same_buffer_trans: "same_buffer a b \<Longrightarrow> same_buffer b c \<Longrightarrow> same_buffer a c"
  by (auto simp: same_buffer_def)

lemma streams_put: "streams (put bs) bs"
proof (rule streamsI)
  fix c :: "'s ectx" and rv c'
  assume p: "put bs c = Done (rv, c')"
  then have "c' = c \<or> c' = c\<lparr>ebuf := ebuf c @ bs\<rparr>"
    by (auto simp: put_def split: if_splits)
  then show "same_buffer c c'"
    by (elim disjE) (simp, unfold same_buffer_def, blast)
qed (auto simp: put_def stream_def split: if_splits)

lemma streams_skip: "streams skip []"
  by (rule streamsI) (auto simp: skip_def)

lemma streams_fail: "rv \<noteq> GOOD \<Longrightarrow> streams (\<lambda>c. Done (rv, c)) bs"
  by (rule streamsI) auto

lemma streams_undefined: "streams (\<lambda>c. Undefined) bs"
  by (rule streamsI) auto

text \<open>Two steps in a row, with the status of the second or of both.\<close>

lemma streams_bind:
  assumes "streams f a"
    and "\<And>c rv c'. f c = Done (rv, c') \<Longrightarrow> streams (g rv) b"
    and "\<And>c rv c' c2. f c = Done (rv, c') \<Longrightarrow> g rv c' = Done (GOOD, c2) \<Longrightarrow> rv = GOOD"
  shows "streams (\<lambda>c. bind (f c) (\<lambda>(rv, c'). g rv c')) (a @ b)"
proof (rule streamsI)
  fix c rv c2
  assume "bind (f c) (\<lambda>(rv, c'). g rv c') = Done (rv, c2)"
  then obtain r1 c1 where 1: "f c = Done (r1, c1)" "g r1 c1 = Done (rv, c2)"
    by (auto simp: bind_Done_iff)
  note A = streamsD[OF assms(1) 1(1)] and B = streamsD[OF assms(2)[OF 1(1)] 1(2)]
  show "egen c \<le> egen c2" using A(1) B(1) by simp
  show "same_buffer c c2" if "egen c2 = egen c"
    using A B that by (auto intro: same_buffer_trans)
next
  fix c c2
  assume "bind (f c) (\<lambda>(rv, c'). g rv c') = Done (GOOD, c2)"
  then obtain r1 c1 where 1: "f c = Done (r1, c1)" "g r1 c1 = Done (GOOD, c2)"
    by (auto simp: bind_Done_iff)
  show "stream c2 = stream c @ a @ b"
    using streamsD(3)[OF assms(1) 1(1)] streamsD(3)[OF assms(2)[OF 1(1)] 1(2)] assms(3)[OF 1] by simp
qed

lemma streams_or_with:
  "streams g b \<Longrightarrow> streams (\<lambda>c. bind (g c) (\<lambda>(r2, c2). Done (r1 OR r2, c2))) b"
  unfolding streams_def by (fastforce simp: bind_Done_iff or_GOOD)

lemma streams_or_then:
  assumes "streams f a" "streams g b"
  shows "streams (or_then f g) (a @ b)"
proof -
  have "streams (\<lambda>c. bind (f c) (\<lambda>(r1, c1). bind (g c1) (\<lambda>(r2, c2). Done (r1 OR r2, c2)))) (a @ b)"
    by (rule streams_bind[OF assms(1) streams_or_with[OF assms(2)]])
       (auto simp: bind_Done_iff or_GOOD)
  then show ?thesis
    by (simp add: or_then_def[abs_def])
qed

lemma streams_only_if: "streams f a \<Longrightarrow> streams (only_if b f) (if b then a else [])"
  by (simp add: only_if_def streams_skip)

lemma streams_opt:
  "(\<And>a. x = Some a \<Longrightarrow> streams (f a) (g a)) \<Longrightarrow> streams (opt_enc f x) (opt_bytes g x)"
  by (cases x) (auto simp: opt_enc_def opt_bytes_def streams_skip)

lemma exchange_stream:
  "exchangeBuffer (Some cb) c = (rv, c') \<Longrightarrow>
   egen c' = Suc (egen c) \<and> (rv = GOOD \<longrightarrow> stream c' = stream c)"
  by (auto simp: exchangeBuffer_def stream_def dest: cb_log split: prod.splits)

lemma rewind_same:
  "rewind c c' = Done c2 \<Longrightarrow> (egen c' = egen c \<Longrightarrow> same_buffer c c') \<Longrightarrow> c2 = c"
  by (auto simp: rewind_def same_buffer_def split: if_splits)

text \<open>One round of a loop over elements or members: go on, retry after an exchange, or stop.\<close>

definition keeps :: "'s ectx \<Rightarrow> status \<Rightarrow> 's ectx \<Rightarrow> byte list \<Rightarrow> bool" where
  "keeps c rv c' bs \<longleftrightarrow> egen c \<le> egen c' \<and> (egen c' = egen c \<longrightarrow> same_buffer c c') \<and>
     (rv = GOOD \<longrightarrow> stream c' = stream c @ bs)"

lemma streams_keeps: "streams f bs \<longleftrightarrow> (\<forall>c rv c'. f c = Done (rv, c') \<longrightarrow> keeps c rv c' bs)"
  by (simp add: streams_def keeps_def)

lemma retry_keeps:
  assumes "streams f a" "f c = Done (rv, c')" "streams r bs"
    and "bind (rewind c c') (\<lambda>c2. let (rv2, c3) = exchangeBuffer (Some cb) c2
           in if rv2 = GOOD then r c3 else Done (rv2, c3)) = Done (rv4, c4)"
  shows "keeps c rv4 c4 bs"
proof -
  obtain c2 where c2: "rewind c c' = Done c2"
    using assms(4) by (auto simp: bind_Done_iff)
  then have [simp]: "c2 = c"
    using rewind_same streamsD(2)[OF assms(1,2)] by blast
  obtain rv3 c3 where c3: "exchangeBuffer (Some cb) c = (rv3, c3)"
    by (cases "exchangeBuffer (Some cb) c")
  note x = exchange_stream[OF c3]
  show ?thesis
  proof (cases "rv3 = GOOD")
    case True
    then have "r c3 = Done (rv4, c4)"
      using assms(4) c2 c3 by simp
    from streamsD[OF assms(3) this] x True show ?thesis
      by (auto simp: keeps_def)
  next
    case False
    then show ?thesis
      using assms(4) c2 c3 x by (auto simp: keeps_def)
  qed
qed

lemma loop_keeps:
  assumes "streams f a" "streams k b"
    and "bind (f c) (\<lambda>(rv, c'). if rv = GOOD then k c' else if Q rv then R c c' else Done (rv, c'))
           = Done (rv, c2)"
    and "\<And>rv1 c1. f c = Done (rv1, c1) \<Longrightarrow> R c c1 = Done (rv, c2) \<Longrightarrow> keeps c rv c2 (a @ b)"
  shows "keeps c rv c2 (a @ b)"
proof -
  obtain r1 c1 where 1: "f c = Done (r1, c1)"
    "(if r1 = GOOD then k c1 else if Q r1 then R c c1 else Done (r1, c1)) = Done (rv, c2)"
    using assms(3) by (auto simp: bind_Done_iff)
  note A = streamsD[OF assms(1) 1(1)]
  show ?thesis
  proof (cases "r1 = GOOD")
    case True
    then have "k c1 = Done (rv, c2)" using 1 by simp
    from streamsD[OF assms(2) this] A True show ?thesis
      by (auto simp: keeps_def intro: same_buffer_trans)
  next
    case False
    then show ?thesis
      using 1 A assms(4)[OF 1(1)] by (auto simp: keeps_def split: if_splits)
  qed
qed

lemma streams_complex_cons:
  assumes "streams (f v) a" "\<And>k. streams (Array_encodeBinaryComplex k (Some cb) f vs) b"
  shows "streams (Array_encodeBinaryComplex k (Some cb) f (v # vs)) (a @ b)"
proof (induction k)
  case 0
  show ?case
    unfolding streams_keeps
    by (intro allI impI, subst (asm) Array_encodeBinaryComplex.simps(2),
        erule loop_keeps[OF assms(1) assms(2)]) simp
next
  case (Suc k)
  show ?case
    unfolding streams_keeps
    by (intro allI impI, subst (asm) Array_encodeBinaryComplex.simps(2),
        erule loop_keeps[OF assms(1) assms(2)], simp only: nat.case,
        rule retry_keeps[OF assms(1) _ Suc])
qed

lemma streams_members_cons:
  assumes "streams (f m v) a" "\<And>k. streams (encode_members k (Some cb) f ms vs) b"
  shows "streams (encode_members k (Some cb) f (m # ms) (v # vs)) (a @ b)"
proof (induction k)
  case 0
  show ?case
    unfolding streams_keeps
    by (intro allI impI, subst (asm) encode_members.simps(2),
        erule loop_keeps[OF assms(1) assms(2)]) simp
next
  case (Suc k)
  show ?case
    unfolding streams_keeps
    by (intro allI impI, subst (asm) encode_members.simps(2),
        erule loop_keeps[OF assms(1) assms(2)], simp only: nat.case,
        rule retry_keeps[OF assms(1) _ Suc])
qed

lemma streams_overlayable: "streams (Array_encodeBinaryOverlayable fuel (Some cb) k bs) bs"
  unfolding streams_keeps
proof (induction fuel arbitrary: bs)
  case 0
  then show ?case
    by (auto simp: Array_encodeBinaryOverlayable.simps[of 0] keeps_def same_buffer_def stream_def
        split: if_splits)
next
  case (Suc m)
  show ?case
  proof (intro allI impI)
    fix c rv c'
    assume r: "Array_encodeBinaryOverlayable (Suc m) (Some cb) k bs c = Done (rv, c')"
    show "keeps c rv c' bs"
    proof (cases "elive c \<and> ecap c < length (ebuf c) + length bs")
      case True
      let ?p = "(ecap c - length (ebuf c)) div k * k"
      let ?c = "c\<lparr>ebuf := ebuf c @ take ?p bs\<rparr>"
      obtain rv3 c3 where x: "exchangeBuffer (Some cb) ?c = (rv3, c3)"
        by (cases "exchangeBuffer (Some cb) ?c")
      have e: "(if rv3 \<noteq> GOOD then Done (rv3, c3)
          else Array_encodeBinaryOverlayable m (Some cb) k (drop ?p bs) c3) = Done (rv, c')"
        using r True x by (simp add: Array_encodeBinaryOverlayable.simps[of "Suc m"] Let_def)
      have g: "egen c3 = Suc (egen c)" "rv3 = GOOD \<longrightarrow> stream c3 = stream c @ take ?p bs"
        using exchange_stream[OF x] by (auto simp: stream_def)
      show ?thesis
      proof (cases "rv3 = GOOD")
        case True
        then have "keeps c3 rv c' (drop ?p bs)"
          using Suc e by simp
        then show ?thesis
          using g True by (auto simp: keeps_def)
      next
        case False
        then show ?thesis using e g by (auto simp: keeps_def)
      qed
    next
      case False
      then show ?thesis
        using r by (auto simp: Array_encodeBinaryOverlayable.simps[of "Suc m"] keeps_def
            same_buffer_def stream_def split: if_splits)
    qed
  qed
qed

lemma streams_ints:
  "streams (Byte_encodeBinary b) [b]" "streams (UInt16_encodeBinary w) (UA_encode16 w)"
  "streams (UInt32_encodeBinary x) (UA_encode32 x)" "streams (UInt64_encodeBinary y) (UA_encode64 y)"
  by (simp_all add: Byte_encodeBinary_def UInt16_encodeBinary_def UInt32_encodeBinary_def
      UInt64_encodeBinary_def streams_put)

lemma streams_array_tail:
  assumes "\<And>rv. rv = GOOD \<Longrightarrow> n \<noteq> 0 \<Longrightarrow> streams g bs" "n = 0 \<Longrightarrow> bs = []"
  shows "streams (\<lambda>c. bind (UInt32_encodeBinary w c)
      (\<lambda>(rv, c'). if rv \<noteq> GOOD \<or> n = (0 :: nat) then Done (rv, c') else g c')) (UA_encode32 w @ bs)"
proof (rule streams_bind[OF streams_ints(3)])
  fix rv
  show "streams (\<lambda>c'. if rv \<noteq> GOOD \<or> n = 0 then Done (rv, c') else g c') bs"
  proof (cases "rv \<noteq> GOOD")
    case True
    then show ?thesis using streams_fail by simp
  next
    case False
    then show ?thesis
      using assms streams_skip by (cases "n = 0") (simp_all add: skip_def[abs_def])
  qed
qed (auto split: if_splits)

lemma streams_string:
  assumes "ustring_ok s"
  shows "streams (String_encodeBinary fuel (Some cb) s) (string_bytes s)"
proof -
  have "String_encodeBinary fuel (Some cb) s = (\<lambda>c. bind (UInt32_encodeBinary (array_length_field s) c)
      (\<lambda>(rv, c'). if rv \<noteq> GOOD \<or> length (ubytes s) = 0 then Done (rv, c')
         else Array_encodeBinaryOverlayable fuel (Some cb) 1 (ubytes s) c'))"
    using assms by (intro ext) (simp add: String_encodeBinary_def ustring_ok_def)
  then show ?thesis
    unfolding string_bytes_def
    using streams_array_tail[of "length (ubytes s)" _ "ubytes s"] streams_overlayable by simp
qed

lemma streams_guid: "streams (Guid_encodeBinary g) (guid_bytes g)"
proof -
  have h: "streams (or_then (UInt32_encodeBinary (gdata1 g))
      (or_then (UInt16_encodeBinary (gdata2 g)) (UInt16_encodeBinary (gdata3 g))))
      (UA_encode32 (gdata1 g) @ UA_encode16 (gdata2 g) @ UA_encode16 (gdata3 g))"
    by (intro streams_or_then streams_ints)
  have t: "streams (\<lambda>c'. bind (put (gdata4 g) c')
      (\<lambda>(rv2, c2). if rv2 = BADENCODINGLIMITSEXCEEDED then Done (rv2, c2) else Done (rv, c2)))
      (gdata4 g)" for rv
    using streams_put[of "gdata4 g"] unfolding streams_def put_def by auto
  have "streams (Guid_encodeBinary g) ((UA_encode32 (gdata1 g) @ UA_encode16 (gdata2 g) @
      UA_encode16 (gdata3 g)) @ gdata4 g)"
    unfolding Guid_encodeBinary_def[abs_def]
    by (rule streams_bind[OF h t]) (auto simp: bind_Done_iff split: if_splits)
  then show ?thesis by (simp add: guid_bytes_def)
qed

lemma streams_nodeid_mask:
  assumes "nodeid_ok n"
  shows "streams (NodeId_encodeBinaryWithEncodingMask fuel (Some cb) n m) (nodeid_bytes m n)"
proof (cases "ident n")
  case (Numeric i)
  then show ?thesis
    unfolding NodeId_encodeBinaryWithEncodingMask_def nodeid_bytes_defs Numeric nodeid_ident.case
    by (auto simp only: split: if_splits intro!: streams_or_then streams_ints)
next
  case BadIdType
  then show ?thesis using assms by (simp add: nodeid_ok_def)
qed (use assms in \<open>unfold NodeId_encodeBinaryWithEncodingMask_def nodeid_bytes_defs nodeid_ok_def,
    simp only: nodeid_ident.case,
    auto simp only: nodeid_ident.case
      intro!: streams_or_then streams_ints streams_string streams_guid\<close>)

lemma streams_nodeid:
  "nodeid_ok n \<Longrightarrow> streams (NodeId_encodeBinary fuel (Some cb) n) (nodeid_bytes 0 n)"
  by (simp add: NodeId_encodeBinary_def streams_nodeid_mask)

lemma streams_expanded:
  assumes "expanded_ok e"
  shows "streams (ExpandedNodeId_encodeBinary fuel (Some cb) e) (expanded_bytes e)"
  using assms unfolding ExpandedNodeId_encodeBinary_def expanded_bytes_def Let_def expanded_ok_def
  by (intro streams_or_then streams_only_if)
     (simp_all add: streams_nodeid_mask streams_string streams_ints)

lemma streams_loctext:
  assumes "loctext_ok lt"
  shows "streams (LocalizedText_encodeBinary fuel (Some cb) (fst lt) (snd lt)) (loctext_bytes lt)"
proof -
  let ?m = "((if fst lt \<noteq> None then 1 else 0) OR (if snd lt \<noteq> None then 2 else 0)) :: byte"
  have "(?m AND 1 \<noteq> 0) = (fst lt \<noteq> None)" "(?m AND 2 \<noteq> 0) = (snd lt \<noteq> None)"
    by auto
  then show ?thesis
    using assms
    unfolding LocalizedText_encodeBinary_def loctext_bytes_def Let_def loctext_ok_def
    by (intro streams_or_then)
       (auto simp: streams_string streams_ints only_if_def streams_skip simp del: if_split)
qed

lemma streams_ext_eq: "(\<And>c. f c = g c) \<Longrightarrow> streams g bs \<Longrightarrow> streams f bs"
  by (simp add: streams_def)

lemma streams_nil:
  "streams (Array_encodeBinaryComplex k xb f []) []" "streams (encode_members k xb g [] []) []"
  by (rule streams_ext_eq[OF _ streams_skip], simp add: skip_def)+

lemma leaf_streams:
  assumes "builtin d = Some k" "leaf_bytes k v = Some bs"
  shows "streams (encode_jump T fuel (Some cb) (Suc n) own d v) bs"
  using assms
  by (cases v)
     (auto intro!: streams_ext_eq[OF _ streams_ints(1)] streams_ext_eq[OF _ streams_ints(2)]
       streams_ext_eq[OF _ streams_ints(3)] streams_ext_eq[OF _ streams_ints(4)]
       streams_ext_eq[OF _ streams_string] streams_ext_eq[OF _ streams_guid]
       streams_ext_eq[OF _ streams_nodeid] streams_ext_eq[OF _ streams_expanded]
       streams_ext_eq[OF _ streams_loctext[where lt = "(a, b)" for a b, simplified]] split: if_splits)

lemma streams_ext_dec:
  assumes "announces T i d" "calcSize T n T d w = Done (length b)" "length b \<le> 0x7FFFFFFF"
    and "streams (e d w) b"
  shows "streams (ExtensionObject_encodeBinary T fuel (Some cb) e (calcSize T n T) (VExtDec i w))
           (ext_header d (length b) @ b)"
proof -
  have ok: "nodeid_ok (encoding_id d)"
    by (simp add: nodeid_ok_def encoding_id_def)
  have 1: "streams (or_then (NodeId_encodeBinary fuel (Some cb) (encoding_id d)) (Byte_encodeBinary 1))
      (nodeid_bytes 0 (encoding_id d) @ [1])"
    by (intro streams_or_then streams_nodeid ok streams_ints)
  have 2: "streams (or_then (UInt32_encodeBinary (of_nat (length b))) (e d w))
      (UA_encode32 (of_nat (length b)) @ b)"
    by (intro streams_or_then streams_ints assms)
  have eq: "ExtensionObject_encodeBinary T fuel (Some cb) e (calcSize T n T) (VExtDec i w) c =
      bind (or_then (NodeId_encodeBinary fuel (Some cb) (encoding_id d)) (Byte_encodeBinary 1) c)
        (\<lambda>(rv, c1). bind (or_then (UInt32_encodeBinary (of_nat (length b))) (e d w) c1)
          (\<lambda>(rv2, c2). Done (rv OR rv2, c2)))" for c
    using assms(1-3) by (simp add: ExtensionObject_encodeBinary_def announces_def)
  have "streams (\<lambda>c. bind (or_then (NodeId_encodeBinary fuel (Some cb) (encoding_id d)) (Byte_encodeBinary 1) c)
        (\<lambda>(rv, c1). bind (or_then (UInt32_encodeBinary (of_nat (length b))) (e d w) c1)
          (\<lambda>(rv2, c2). Done (rv OR rv2, c2))))
      ((nodeid_bytes 0 (encoding_id d) @ [1]) @ (UA_encode32 (of_nat (length b)) @ b))"
    by (rule streams_bind[OF 1 streams_or_with[OF 2]]) (auto simp: bind_Done_iff or_GOOD)
  then show ?thesis
    by (intro streams_ext_eq[OF eq]) (simp add: ext_header_def)
qed

lemma streams_array:
  assumes "length vs \<le> 0x7FFFFFFF"
    and "\<not> overlayable d \<Longrightarrow> streams (Array_encodeBinaryComplex fuel (Some cb) f vs) bs"
    and "overlayable d \<Longrightarrow> concat (map raw vs) = bs" and "vs = [] \<Longrightarrow> bs = []"
  shows "streams (Array_encodeBinary fuel (Some cb) f d (Some vs)) (UA_encode32 (of_nat (length vs)) @ bs)"
proof -
  let ?g = "\<lambda>c'. if \<not> overlayable d then Array_encodeBinaryComplex fuel (Some cb) f vs c'
      else Array_encodeBinaryOverlayable fuel (Some cb) (memSize d) (concat (map raw vs)) c'"
  have eq: "Array_encodeBinary fuel (Some cb) f d (Some vs) c = bind (UInt32_encodeBinary (of_nat (length vs)) c)
      (\<lambda>(rv, c'). if rv \<noteq> GOOD \<or> length vs = 0 then Done (rv, c') else ?g c')" for c
    unfolding Array_encodeBinary_def elems_simps array_length_field_def option.case
    using assms(1) by simp
  have g: "streams ?g bs"
    using assms(2,3) streams_overlayable[of fuel "memSize d" bs] by (cases "overlayable d") simp_all
  show ?thesis
    by (rule streams_ext_eq[OF eq], rule streams_array_tail[OF g]) (use assms(4) in simp)
qed

theorem wire_streams:
  shows "wire T n own d v bs \<Longrightarrow> streams (encode_jump T fuel (Some cb) n own d v) bs"
    and "wire_mems T n own ms vs bs \<Longrightarrow> (\<forall>k. streams (encode_members k (Some cb)
      (encode_member T fuel (Some cb) (encode_jump T fuel (Some cb) n) own) ms vs) bs)"
    and "wire_list T n own d vs bs \<Longrightarrow> (\<forall>k.
      streams (Array_encodeBinaryComplex k (Some cb) (encode_jump T fuel (Some cb) n own d) vs) bs)"
    and "wire_array T n own d ws bs \<Longrightarrow>
      streams (Array_encodeBinary fuel (Some cb) (encode_jump T fuel (Some cb) n own d) d ws) bs"
proof (induction rule: wire_wire_mems_wire_list_wire_array.inducts)
  case (leaf d k v bs n own)
  then show ?case by (intro leaf_streams)
next
  case (struct d n own vs bs)
  then have "streams (encode_members fuel (Some cb)
      (encode_member T fuel (Some cb) (encode_jump T fuel (Some cb) n) own) (members d) vs) bs" by blast
  from streams_ext_eq[OF _ this] show ?case
    using struct(1) by auto
next
  case (ext_body d i e body n own)
  have w: "streams (or_then (NodeId_encodeBinary fuel (Some cb) i) (or_then (Byte_encodeBinary e)
      (only_if (e \<noteq> 0) (String_encodeBinary fuel (Some cb) body))))
      (nodeid_bytes 0 i @ [e] @ (if e \<noteq> 0 then string_bytes body else []))"
    using ext_body by (intro streams_or_then streams_only_if streams_nodeid streams_ints streams_string)
  have "e \<le> 2" using ext_body by auto
  then show ?case
    using w ext_body(1)
    by (cases "e = 0") (simp_all add: streams_def ExtensionObject_encodeBinary_def)
next
  case (ext_dec d i d' n w b own)
  have w: "streams (ExtensionObject_encodeBinary T fuel (Some cb) (encode_jump T fuel (Some cb) n T)
      (calcSize T n T) (VExtDec i w)) (ext_header d' (length b) @ b)"
    using ext_dec wire_calcSize(1) by (intro streams_ext_dec)
  show ?case
    by (rule streams_ext_eq[OF encode_jump_ext w]) (use ext_dec in simp_all)
next
  case (var_empty d n own)
  show ?case
    by (rule streams_ext_eq[OF _ streams_ints(1)])
       (use var_empty in \<open>simp add: encode_jump_variant Variant_encodeBinary_def\<close>)
next
  case (var_scalar d i d' k w n b own)
  have w: "streams (or_then (Byte_encodeBinary (of_nat (i + 1)))
      (encode_jump T fuel (Some cb) n T d' w)) ([of_nat (i + 1)] @ b)"
    using var_scalar by (intro streams_or_then streams_ints)
  show ?case
    by (rule streams_ext_eq[OF _ w])
       (use var_scalar variant_mask[of k] in \<open>simp add: encode_jump_variant Variant_encodeBinary_def\<close>)
next
  case (var_struct d i d' n w b own)
  let ?ext = "ExtensionObject_encodeBinary T fuel (Some cb) (encode_jump T fuel (Some cb) n T)
      (calcSize T n T)"
  have "streams (?ext (VExtDec i w)) (ext_header d' (length b) @ b)"
    using var_struct wire_calcSize(1) by (intro streams_ext_dec)
  then have "streams (Array_encodeBinaryComplex fuel (Some cb) ?ext [VExtDec i w])
      ((ext_header d' (length b) @ b) @ [])"
    by (rule streams_complex_cons) (rule streams_nil)
  then have "streams (Variant_encodeBinaryWrapExtensionObject fuel (Some cb) ?ext i False [w])
      (ext_header d' (length b) @ b)"
    by (simp add: streams_def Variant_encodeBinaryWrapExtensionObject_def only_if_def skip_def)
  then have w: "streams (or_then (Byte_encodeBinary 22)
      (Variant_encodeBinaryWrapExtensionObject fuel (Some cb) ?ext i False [w]))
      ([22] @ ext_header d' (length b) @ b)"
    by (intro streams_or_then streams_ints)
  show ?case
    by (rule streams_ext_eq[OF _ w])
       (use var_struct in \<open>simp add: encode_jump_variant Variant_encodeBinary_def announces_def\<close>)
next
  case (var_array d i d' k n ws b own)
  have m: "0x3F AND (1 + of_nat (bt_index k)) = (1 + of_nat (bt_index k) :: byte)"
    using variant_mask[of k] by simp
  have w: "streams (or_then (or_then (Byte_encodeBinary (of_nat (i + 1) OR 0x80))
      (Array_encodeBinary fuel (Some cb) (encode_jump T fuel (Some cb) n T d') d' ws)) skip)
      (([of_nat (i + 1) OR 0x80] @ b) @ [])"
    using var_array by (intro streams_or_then streams_ints streams_skip)
  show ?case
    using streams_ext_eq[OF _ w, of "encode_jump T fuel (Some cb) (Suc n) own d (VVarArray i ws [])"]
      var_array m w
    by (simp add: encode_jump_variant Variant_encodeBinary_def only_if_def Let_def)
next
  case (var_matrix d i d' k n ws b dims int32 b' own)
  have m: "0x3F AND (1 + of_nat (bt_index k)) = (1 + of_nat (bt_index k) :: byte)"
    using variant_mask[of k] by simp
  have w: "streams (or_then (or_then (Byte_encodeBinary (of_nat (i + 1) OR 0xC0))
      (Array_encodeBinary fuel (Some cb) (encode_jump T fuel (Some cb) n T d') d' ws))
      (Array_encodeBinary fuel (Some cb) (encode_jump T fuel (Some cb) n T int32) int32
        (Some (map V32 dims))))
      (([of_nat (i + 1) OR 0xC0] @ b) @ b')"
    using var_matrix by (intro streams_or_then streams_ints)
  show ?case
    using streams_ext_eq[OF _ w, of "encode_jump T fuel (Some cb) (Suc n) own d (VVarArray i ws dims)"]
      var_matrix m w
    by (simp add: encode_jump_variant Variant_encodeBinary_def only_if_def dims_option_def Let_def)
next
  case (data_value d dv n w b sps svps own st sts svts)
  let ?e = "encode_jump T fuel (Some cb) n T dv"
  have "streams (opt_enc ?e (Some w)) b"
    using data_value by (simp add: opt_enc_def)
  then have w: "streams (DataValue_encodeBinary ?e (VDataValue (Some w) st sts sps svts svps))
      ([bit_if (Some w) 1 OR bit_if st 2 OR bit_if sts 4 OR bit_if svts 8 OR bit_if sps 16 OR
        bit_if svps 32] @ b @ opt_bytes UA_encode32 st @ opt_bytes UA_encode64 sts @
        opt_bytes UA_encode16 sps @ opt_bytes UA_encode64 svts @ opt_bytes UA_encode16 svps)"
    unfolding DataValue_encodeBinary_def uval.case
    by (intro streams_or_then streams_ints streams_opt)
  then show ?case
    using streams_ext_eq[OF _ w, of "encode_jump T fuel (Some cb) (Suc n) own d
      (VDataValue (Some w) st sts sps svts svps)"] data_value by (simp add: bit_if_def)
next
  case (no_value d dv sps svps n own st sts svts)
  let ?e = "encode_jump T fuel (Some cb) n T dv"
  have "streams (opt_enc ?e None) []"
    by (simp add: opt_enc_def streams_skip)
  then have w: "streams (DataValue_encodeBinary ?e (VDataValue None st sts sps svts svps))
      ([bit_if (None :: uval option) 1 OR bit_if st 2 OR bit_if sts 4 OR bit_if svts 8 OR bit_if sps 16 OR
        bit_if svps 32] @ [] @ opt_bytes UA_encode32 st @ opt_bytes UA_encode64 sts @
        opt_bytes UA_encode16 sps @ opt_bytes UA_encode64 svts @ opt_bytes UA_encode16 svps)"
    unfolding DataValue_encodeBinary_def uval.case
    by (intro streams_or_then streams_ints streams_opt)
  then show ?case
    using streams_ext_eq[OF _ w, of "encode_jump T fuel (Some cb) (Suc n) own d
      (VDataValue None st sts sps svts svps)"] no_value by (simp add: bit_if_def)
next
  case (diag d info n own sid nsu lt loc)
  let ?e = "encode_jump T fuel (Some cb) n own d"
  have w: "streams (DiagnosticInfo_encodeBinary fuel (Some cb) ?e (VDiag sid nsu lt loc info None None))
      ([bit_if sid 1 OR bit_if nsu 2 OR bit_if lt 4 OR bit_if loc 8 OR bit_if info 16 OR
        bit_if (None :: uval option) 32] @
        opt_bytes UA_encode32 sid @ opt_bytes UA_encode32 nsu @ opt_bytes UA_encode32 lt @
        opt_bytes UA_encode32 loc @ opt_bytes string_bytes info @
        opt_bytes UA_encode32 None @ opt_bytes (\<lambda>_. []) (None :: uval option))"
    unfolding DiagnosticInfo_encodeBinary_def uval.case
    by (intro streams_or_then streams_ints streams_opt streams_string) (use diag in simp_all)
  then show ?case
    using streams_ext_eq[OF _ w, of "encode_jump T fuel (Some cb) (Suc n) own d
      (VDiag sid nsu lt loc info None None)"] diag by (simp add: bit_if_def opt_bytes_def)
next
  case (mems_nil n own)
  show ?case by (intro allI streams_nil)
next
  case (mems_one m own tab d n v b ms vs bs)
  show ?case
    by (intro allI streams_members_cons) (use mems_one in \<open>simp_all add: encode_member_def\<close>)
next
  case (mems_array m own tab d n ws b ms vs bs)
  show ?case
    by (intro allI streams_members_cons) (use mems_array in \<open>simp_all add: encode_member_def\<close>)
next
  case (list_nil n own d)
  show ?case by (intro allI streams_nil)
next
  case (list_cons n own d v b vs bs)
  then show ?case by (intro allI streams_complex_cons) simp_all
next
  case (array_null n own d)
  have "streams (\<lambda>c. bind (UInt32_encodeBinary (- 1) c)
      (\<lambda>(rv, c'). if rv \<noteq> GOOD \<or> (0 :: nat) = 0 then Done (rv, c') else skip c')) (UA_encode32 (- 1) @ [])"
    by (rule streams_array_tail) simp_all
  then show ?case
    by (simp add: streams_def Array_encodeBinary_def array_length_field_def)
next
  case (array_some n own d vs bs)
  show ?case
    by (rule streams_array) (use array_some wire_list_overlayable wire_list_nil in blast)+
qed

end

end
