(* ===== verification/BinGuard.thy ===== *)
theory BinGuard
  imports BinCodec
begin

text \<open>
  What the encoder does to the state of the exchange callback: nothing but calling it, and never
  again after it has taken the buffer away.  The locale states an invariant \<open>I\<close> of that state, for
  every state, and \<open>L\<close>, for states with a buffer; inside it, every encoder, for every value, is shown
  to preserve both, to keep the buffer as long as it returns \<open>GOOD\<close>, and never to write more than
  \<open>cap\<close> bytes into a buffer.
\<close>

locale chunk_guard =
  fixes cb :: "'s \<Rightarrow> byte list \<Rightarrow> status \<times> nat option \<times> 's"
    and I L :: "'s \<Rightarrow> bool" and cap :: nat
  assumes cb_inv: "I s \<Longrightarrow> L s \<Longrightarrow> length bs \<le> cap \<Longrightarrow> cb s bs = (rv, room, s') \<Longrightarrow>
      I s' \<and> (case room of None \<Rightarrow> rv \<noteq> GOOD | Some r \<Rightarrow> r \<le> cap \<and> L s')"
begin

definition okc :: "'s ectx \<Rightarrow> bool" where
  "okc c \<longleftrightarrow> I (ecb c) \<and> (elive c \<longrightarrow> L (ecb c)) \<and> length (ebuf c) \<le> ecap c \<and> ecap c \<le> cap"

text \<open>What an encoder may still return when the buffer is gone.\<close>

definition fails :: "status set" where
  "fails = {GOOD, BADINTERNALERROR, BADENCODINGERROR}"

lemma fails_or: "a \<in> fails \<Longrightarrow> b \<in> fails \<Longrightarrow> a OR b \<in> fails"
  by (auto simp: fails_def)

lemma fails_simps [simp]:
  "GOOD \<in> fails" "BADINTERNALERROR \<in> fails" "BADENCODINGERROR \<in> fails" "BADENCODINGLIMITSEXCEEDED \<notin> fails"
  by (simp_all add: fails_def)

text \<open>\<open>r0\<close> is the status so far, which the result may include.\<close>

definition kept :: "status \<Rightarrow> 's ectx \<Rightarrow> status \<Rightarrow> 's ectx \<Rightarrow> bool" where
  "kept r0 c rv c' \<longleftrightarrow> okc c' \<and> egen c \<le> egen c' \<and>
     (egen c' = egen c \<longrightarrow> ecb c' = ecb c \<and> elive c' = elive c) \<and>
     (rv = GOOD \<longrightarrow> elive c \<longrightarrow> elive c') \<and>
     (\<not> elive c \<longrightarrow> egen c' = egen c \<and> (r0 \<in> fails \<longrightarrow> rv \<in> fails))"

definition guarded_from :: "status \<Rightarrow> 's enc \<Rightarrow> bool" where
  "guarded_from r0 f \<longleftrightarrow> (\<forall>c rv c'. okc c \<longrightarrow> f c = Done (rv, c') \<longrightarrow> kept r0 c rv c')"

abbreviation guarded :: "'s enc \<Rightarrow> bool" where
  "guarded \<equiv> guarded_from GOOD"

lemma guardedI: "(\<And>c rv c'. okc c \<Longrightarrow> f c = Done (rv, c') \<Longrightarrow> kept r c rv c') \<Longrightarrow> guarded_from r f"
  by (simp add: guarded_from_def)

lemma guardedD: "guarded_from r f \<Longrightarrow> okc c \<Longrightarrow> f c = Done (rv, c') \<Longrightarrow> kept r c rv c'"
  by (simp add: guarded_from_def)

lemma guarded_weaken: "guarded f \<Longrightarrow> guarded_from r f"
  by (rule guardedI, drule (2) guardedD) (simp add: kept_def)

lemma kept_refl: "okc c \<Longrightarrow> (r \<in> fails \<Longrightarrow> rv \<in> fails) \<Longrightarrow> kept r c rv c"
  by (simp add: kept_def)

lemma kept_okc: "kept r c rv c' \<Longrightarrow> okc c'"
  by (simp add: kept_def)

lemma kept_trans:
  assumes "kept r a r1 b" "kept r1 b rv c" "rv = GOOD \<Longrightarrow> r1 = GOOD"
  shows "kept r a rv c"
  using assms unfolding kept_def by (metis le_antisym le_trans)

lemma guarded_done: "guarded_from r (\<lambda>c. Done (r, c))"
  by (auto simp: guarded_from_def kept_refl)

lemma guarded_fail: "rv \<in> fails \<Longrightarrow> guarded_from r (\<lambda>c. Done (rv, c))"
  by (auto simp: guarded_from_def kept_refl)

lemma guarded_fails:
  "guarded_from r (\<lambda>c. Done (BADINTERNALERROR, c))" "guarded_from r (\<lambda>c. Done (BADENCODINGERROR, c))"
  by (simp_all add: guarded_fail)

lemma guarded_undefined: "guarded_from r (\<lambda>c. Undefined)"
  by (simp add: guarded_from_def)

lemma guarded_put: "guarded_from r (put bs)"
  by (auto simp: guarded_from_def put_def kept_def okc_def split: if_splits)

lemma guarded_skip: "guarded_from r skip"
  by (auto simp: guarded_from_def skip_def kept_refl)

text \<open>The second step may depend on the first one's status, which must be good when the whole is.\<close>

lemma guarded_bind:
  assumes "guarded_from r0 f" "\<And>rv. guarded_from rv (g rv)"
    and "\<And>r c r2 c2. g r c = Done (r2, c2) \<Longrightarrow> r2 = GOOD \<Longrightarrow> r = GOOD"
  shows "guarded_from r0 (\<lambda>c. bind (f c) (\<lambda>(rv, c'). g rv c'))"
proof (rule guardedI)
  fix c rv c2
  assume c: "okc c" and "bind (f c) (\<lambda>(rv, c'). g rv c') = Done (rv, c2)"
  then obtain r1 c1 where 1: "f c = Done (r1, c1)" "g r1 c1 = Done (rv, c2)"
    by (auto simp: bind_Done_iff)
  have a: "kept r0 c r1 c1" using assms(1) c 1(1) by (rule guardedD)
  have "kept r1 c1 rv c2" using assms(2) kept_okc[OF a] 1(2) by (rule guardedD)
  with a show "kept r0 c rv c2"
    by (rule kept_trans) (use assms(3) 1(2) in auto)
qed

lemma guarded_or_with:
  assumes "guarded g"
  shows "guarded_from r1 (\<lambda>c. bind (g c) (\<lambda>(r2, c2). Done (r1 OR r2, c2)))"
proof (rule guardedI)
  fix c rv c'
  assume "okc c" and b: "bind (g c) (\<lambda>(r2, c2). Done (r1 OR r2, c2)) = Done (rv, c')"
  then obtain r2 where r2: "g c = Done (r2, c')" "rv = r1 OR r2" by (auto simp: bind_Done_iff)
  from guardedD[OF assms \<open>okc c\<close> r2(1)] show "kept r1 c rv c'"
    by (auto simp: kept_def r2(2) or_GOOD fails_or)
qed

lemma guarded_or_then:
  assumes "guarded f" "guarded g"
  shows "guarded (or_then f g)"
proof -
  have "guarded (\<lambda>c. bind (f c) (\<lambda>(r1, c1). bind (g c1) (\<lambda>(r2, c2). Done (r1 OR r2, c2))))"
    by (rule guarded_bind[OF assms(1) guarded_or_with[OF assms(2)]]) (auto simp: bind_Done_iff or_GOOD)
  then show ?thesis by (simp add: or_then_def[abs_def])
qed

lemma guarded_only_if: "guarded f \<Longrightarrow> guarded (only_if b f)"
  by (simp add: only_if_def guarded_skip)

lemma guarded_opt: "(\<And>a. guarded (f a)) \<Longrightarrow> guarded (opt_enc f x)"
  by (cases x) (simp_all add: opt_enc_def guarded_skip)

text \<open>An exchange, which is tried with a buffer only.\<close>

lemma exchange_kept:
  assumes "okc c" "elive c" "exchangeBuffer (Some cb) c = (rv, c')"
  shows "kept r c rv c'"
proof -
  obtain room s where x: "cb (ecb c) (ebuf c) = (rv, room, s)"
    and c': "c' = c\<lparr>ebuf := [], ecap := (case room of None \<Rightarrow> 0 | Some n \<Rightarrow> n), egen := Suc (egen c),
                   elive := (room \<noteq> None), ecb := s\<rparr>"
    using assms(3) by (auto simp: exchangeBuffer_def split: prod.splits)
  have l: "I (ecb c)" "L (ecb c)" "length (ebuf c) \<le> cap" using assms(1,2) by (auto simp: okc_def)
  show ?thesis
    using cb_inv[OF l x] assms(2) by (auto simp: kept_def okc_def c' split: option.splits)
qed

lemma rewind_kept:
  "rewind c c' = Done c2 \<Longrightarrow> okc c \<Longrightarrow> kept r c rv c' \<Longrightarrow>
   okc c2 \<and> ecb c2 = ecb c \<and> egen c2 = egen c \<and> elive c2 = elive c"
  by (auto simp: rewind_def kept_def okc_def split: if_splits)

lemma retry_kept:
  assumes "okc c" "kept GOOD c BADENCODINGLIMITSEXCEEDED c'" "guarded k"
    and "bind (rewind c c') (\<lambda>c2. let (rv2, c3) = exchangeBuffer (Some cb) c2
           in if rv2 = GOOD then k c3 else Done (rv2, c3)) = Done (rv4, c4)"
  shows "kept GOOD c rv4 c4"
proof -
  obtain c2 where c2: "rewind c c' = Done c2"
    using assms(4) by (auto simp: bind_Done_iff)
  note e = rewind_kept[OF c2 assms(1,2)]
  have live: "elive c" using assms(2) by (auto simp: kept_def)
  obtain rv3 c3 where c3: "exchangeBuffer (Some cb) c2 = (rv3, c3)"
    by (cases "exchangeBuffer (Some cb) c2")
  have x: "kept GOOD c2 rv3 c3" using exchange_kept[OF _ _ c3] e live by blast
  have r: "(if rv3 = GOOD then k c3 else Done (rv3, c3)) = Done (rv4, c4)"
    using assms(4) c2 c3 by simp
  have "kept GOOD c2 rv4 c4"
  proof (cases "rv3 = GOOD")
    case True
    then have "kept rv3 c3 rv4 c4" using guardedD[OF assms(3) kept_okc[OF x]] r by simp
    with x show ?thesis by (rule kept_trans) (simp add: True)
  next
    case False
    then show ?thesis using r x by simp
  qed
  then show ?thesis using e by (simp add: kept_def)
qed

lemma loop_kept:
  assumes "bind (f c) (\<lambda>(rv, c'). if rv = GOOD then k c' else if rv = BADENCODINGLIMITSEXCEEDED \<and> Q then R c c'
           else Done (rv, c')) = Done (rv, c2)"
    and "okc c" "guarded f" "guarded k"
    and "\<And>c1. kept GOOD c BADENCODINGLIMITSEXCEEDED c1 \<Longrightarrow> R c c1 = Done (rv, c2) \<Longrightarrow> kept GOOD c rv c2"
  shows "kept GOOD c rv c2"
proof -
  obtain r1 c1 where 1: "f c = Done (r1, c1)"
    "(if r1 = GOOD then k c1 else if r1 = BADENCODINGLIMITSEXCEEDED \<and> Q then R c c1 else Done (r1, c1)) = Done (rv, c2)"
    using assms(1) by (auto simp: bind_Done_iff)
  have a: "kept GOOD c r1 c1" using assms(3,2) 1(1) by (rule guardedD)
  show ?thesis
  proof (cases "r1 = GOOD")
    case True
    then have "kept r1 c1 rv c2" using guardedD[OF assms(4) kept_okc[OF a]] 1 by simp
    with a show ?thesis by (rule kept_trans) (simp add: True)
  next
    case False
    then show ?thesis using 1 a assms(5) by (auto split: if_splits)
  qed
qed

lemmas loop_kept_always = loop_kept[where Q = True, unfolded simp_thms]

lemma guarded_complex:
  assumes "\<And>v. guarded (f v)"
  shows "guarded (Array_encodeBinaryComplex k (Some cb) f vs)"
proof (induction vs arbitrary: k)
  case Nil
  show ?case by (auto simp: guarded_from_def kept_refl)
next
  case (Cons v vs)
  show ?case
  proof (induction k)
    case 0
    show ?case
      by (rule guardedI, subst (asm) Array_encodeBinaryComplex.simps(2),
          erule loop_kept_always[OF _ _ assms Cons], assumption) simp
  next
    case (Suc k)
    show ?case
      by (rule guardedI, subst (asm) Array_encodeBinaryComplex.simps(2),
          erule loop_kept_always[OF _ _ assms Cons], assumption, simp only: nat.case, rule retry_kept[OF _ _ Suc])
  qed
qed

lemma guarded_members:
  assumes "\<And>m v. guarded (f m v)"
  shows "guarded (encode_members k (Some cb) f ms vs)"
proof (induction ms arbitrary: k vs)
  case Nil
  show ?case by (cases vs) (auto simp: guarded_from_def kept_refl)
next
  case (Cons m ms)
  show ?case
  proof (cases vs)
    case Nil
    then show ?thesis by (simp add: guarded_from_def)
  next
    case v: (Cons v vs')
    show ?thesis
      unfolding v
    proof (induction k)
      case 0
      show ?case
        by (rule guardedI, subst (asm) encode_members.simps(2),
            erule loop_kept[OF _ _ assms Cons], assumption) simp
    next
      case (Suc k)
      show ?case
        by (rule guardedI, subst (asm) encode_members.simps(2),
            erule loop_kept[OF _ _ assms Cons], assumption, simp only: nat.case, rule retry_kept[OF _ _ Suc])
    qed
  qed
qed

lemma guarded_overlayable: "guarded (Array_encodeBinaryOverlayable fuel (Some cb) k bs)"
proof (induction fuel arbitrary: bs)
  case 0
  show ?case
    by (auto simp: guarded_from_def Array_encodeBinaryOverlayable.simps[of 0] kept_def okc_def split: if_splits)
next
  case (Suc m)
  show ?case
  proof (rule guardedI)
    fix c rv c'
    assume c: "okc c" and r: "Array_encodeBinaryOverlayable (Suc m) (Some cb) k bs c = Done (rv, c')"
    show "kept GOOD c rv c'"
    proof (cases "elive c \<and> ecap c < length (ebuf c) + length bs")
      case True
      let ?p = "(ecap c - length (ebuf c)) div k * k"
      let ?c = "c\<lparr>ebuf := ebuf c @ take ?p bs\<rparr>"
      obtain rv3 c3 where x: "exchangeBuffer (Some cb) ?c = (rv3, c3)"
        by (cases "exchangeBuffer (Some cb) ?c")
      have e: "(if rv3 \<noteq> GOOD then Done (rv3, c3)
          else Array_encodeBinaryOverlayable m (Some cb) k (drop ?p bs) c3) = Done (rv, c')"
        using r True x by (simp add: Array_encodeBinaryOverlayable.simps[of "Suc m"] Let_def)
      have "length (take ?p bs) \<le> ecap c - length (ebuf c)"
        by (rule order_trans[OF take_Suc_bound div_times_less_eq_dividend])
      then have "length (ebuf c @ take ?p bs) \<le> ecap c"
        using c unfolding length_append okc_def by linarith
      then have "okc ?c" using c by (simp add: okc_def del: length_take)
      then have "kept GOOD ?c rv3 c3" using _ x by (rule exchange_kept) (use True in simp)
      then have a: "kept GOOD c rv3 c3" by (simp add: kept_def)
      show ?thesis
      proof (cases "rv3 = GOOD")
        case True
        then have "kept rv3 c3 rv c'" using guardedD[OF Suc kept_okc[OF a]] e by simp
        with a show ?thesis by (rule kept_trans) (simp add: True)
      next
        case False
        then show ?thesis using e a by simp
      qed
    next
      case False
      then show ?thesis
        using r c by (auto simp: Array_encodeBinaryOverlayable.simps[of "Suc m"] kept_def okc_def split: if_splits)
    qed
  qed
qed

text \<open>The builtin types.\<close>

lemma guarded_ints:
  "guarded (Byte_encodeBinary b)" "guarded (UInt16_encodeBinary w)"
  "guarded (UInt32_encodeBinary x)" "guarded (UInt64_encodeBinary y)"
  by (simp_all add: Byte_encodeBinary_def UInt16_encodeBinary_def UInt32_encodeBinary_def
      UInt64_encodeBinary_def guarded_put)

text \<open>A length field and the content behind it.\<close>

lemma guarded_field:
  assumes "guarded h" "guarded g"
  shows "guarded (\<lambda>c. bind (h c) (\<lambda>(rv, c'). if rv \<noteq> GOOD \<or> P then Done (rv, c') else g c'))"
proof (rule guarded_bind[OF assms(1)])
  fix rv
  show "guarded_from rv (\<lambda>c'. if rv \<noteq> GOOD \<or> P then Done (rv, c') else g c')"
    using guarded_weaken[OF assms(2)] guarded_done by (cases "rv \<noteq> GOOD \<or> P") simp_all
qed (auto split: if_splits)

lemma guarded_case: "guarded f \<Longrightarrow> guarded g \<Longrightarrow> guarded (\<lambda>c. if b then f c else g c)"
  by (cases b) simp_all

lemma guarded_string: "guarded (String_encodeBinary fuel (Some cb) s)"
  unfolding String_encodeBinary_def[abs_def]
  by (intro guarded_case guarded_fails guarded_field guarded_ints guarded_overlayable)

lemma guarded_guid: "guarded (Guid_encodeBinary g)"
  unfolding Guid_encodeBinary_def[abs_def]
proof (rule guarded_bind)
  fix rv
  have "guarded_from rv (\<lambda>c. bind (put (gdata4 g) c) (\<lambda>(rv2, c2). (\<lambda>r2 c2.
      if r2 = BADENCODINGLIMITSEXCEEDED then Done (r2, c2) else Done (rv, c2)) rv2 c2))"
    unfolding guarded_from_def put_def by (auto simp: kept_def okc_def split: if_splits)
  then show "guarded_from rv (\<lambda>c. bind (put (gdata4 g) c)
      (\<lambda>(rv2, c2). if rv2 = BADENCODINGLIMITSEXCEEDED then Done (rv2, c2) else Done (rv, c2)))"
    by simp
qed (auto simp: bind_Done_iff intro!: guarded_or_then guarded_ints split: if_splits)

lemma guarded_nodeid: "guarded (NodeId_encodeBinaryWithEncodingMask fuel (Some cb) n m)"
  unfolding NodeId_encodeBinaryWithEncodingMask_def
  by (cases "ident n")
     (auto simp del: or.right_idem intro!: guarded_or_then guarded_ints guarded_string guarded_guid guarded_fails)

lemma guarded_expanded: "guarded (ExpandedNodeId_encodeBinary fuel (Some cb) e)"
  unfolding ExpandedNodeId_encodeBinary_def Let_def
  by (intro guarded_or_then guarded_only_if guarded_nodeid guarded_string guarded_ints)

lemma guarded_loctext: "guarded (LocalizedText_encodeBinary fuel (Some cb) l t)"
  unfolding LocalizedText_encodeBinary_def Let_def
  by (intro guarded_or_then guarded_only_if guarded_string guarded_ints)

text \<open>The composite types, given that the values inside them are encoded by guarded routines.\<close>

lemma guarded_array:
  assumes "\<And>v. guarded (f v)"
  shows "guarded (Array_encodeBinary fuel (Some cb) f d vs)"
proof -
  have "guarded (\<lambda>c'. if \<not> overlayable d then Array_encodeBinaryComplex fuel (Some cb) f (elems vs) c'
      else Array_encodeBinaryOverlayable fuel (Some cb) (memSize d) (concat (map raw (elems vs))) c')"
    by (intro guarded_case guarded_complex guarded_overlayable assms)
  from guarded_field[OF guarded_ints(3) this] show ?thesis
    unfolding Array_encodeBinary_def[abs_def] by (intro guarded_case guarded_fails)
qed

lemma guarded_extension:
  assumes "\<And>d v. guarded (e d v)"
  shows "guarded (ExtensionObject_encodeBinary T fuel (Some cb) e sz v)"
proof (cases v)
  case (VExtDec i w)
  show ?thesis
  proof (cases "type_at T i")
    case (Some d)
    let ?h = "or_then (NodeId_encodeBinary fuel (Some cb) (encoding_id d)) (Byte_encodeBinary 1)"
    let ?g = "\<lambda>rv c1. bind (sz d w) (\<lambda>len. if len > 0x7FFFFFFF then Done (BADENCODINGERROR, c1)
        else bind (or_then (UInt32_encodeBinary (of_nat len)) (e d w) c1) (\<lambda>(rv2, c2). Done (rv OR rv2, c2)))"
    have g: "guarded_from rv (?g rv)" for rv
    proof (cases "sz d w")
      case (Done len)
      then show ?thesis
        using guarded_or_with[OF guarded_or_then[OF guarded_ints(3)[of "of_nat len"] assms[of d w]], of rv]
          guarded_fails(2)[of rv]
        by (cases "len > 0x7FFFFFFF") simp_all
    qed (simp_all add: guarded_undefined guarded_from_def)
    have "guarded (\<lambda>c. bind (?h c) (\<lambda>(rv, c'). ?g rv c'))"
      by (rule guarded_bind[OF _ g])
         (auto simp: bind_Done_iff or_GOOD NodeId_encodeBinary_def
           intro!: guarded_or_then guarded_ints guarded_nodeid split: if_splits)
    then show ?thesis
      unfolding ExtensionObject_encodeBinary_def[abs_def] VExtDec uval.case Some option.case
      by (intro guarded_case guarded_fails)
  qed (simp add: ExtensionObject_encodeBinary_def[abs_def] VExtDec guarded_undefined)
qed (simp_all add: ExtensionObject_encodeBinary_def[abs_def] guarded_undefined guarded_fails
    NodeId_encodeBinary_def guarded_or_then guarded_nodeid guarded_ints guarded_only_if guarded_string)

lemma guarded_wrap:
  assumes "\<And>v. guarded (ext v)"
  shows "guarded (Variant_encodeBinaryWrapExtensionObject fuel (Some cb) ext i isArr vs)"
proof -
  let ?h = "only_if isArr (UInt32_encodeBinary (of_nat (length vs)))"
  have "guarded ?h" by (intro guarded_only_if guarded_ints)
  from guarded_field[OF this guarded_complex, of ext False] assms
  have "guarded (\<lambda>c. bind (?h c) (\<lambda>(rv, c'). if rv \<noteq> GOOD then Done (rv, c')
         else Array_encodeBinaryComplex fuel (Some cb) ext (map (VExtDec i) vs) c'))"
    by simp
  then show ?thesis
    unfolding Variant_encodeBinaryWrapExtensionObject_def[abs_def]
    by (intro guarded_case guarded_fails)
qed

lemma guarded_option:
  "(\<And>d. guarded (f d)) \<Longrightarrow> guarded (\<lambda>c. case x of None \<Rightarrow> Undefined | Some d \<Rightarrow> f d c)"
  by (cases x) (simp_all add: guarded_undefined)

lemma guarded_variant:
  assumes "\<And>d v. guarded (e d v)" "\<And>v. guarded (ext v)"
  shows "guarded (Variant_encodeBinary T fuel (Some cb) e ext v)"
proof (cases v)
  case (VVarScalar i w)
  show ?thesis
    unfolding Variant_encodeBinary_def VVarScalar uval.case
  proof (rule guarded_option)
    fix d
    show "guarded (\<lambda>c. case builtin d of
        None \<Rightarrow> or_then (Byte_encodeBinary (0x3F AND 22))
          (Variant_encodeBinaryWrapExtensionObject fuel (Some cb) ext i False [w]) c
      | Some k \<Rightarrow> or_then (Byte_encodeBinary (0x3F AND of_nat (bt_index k + 1))) (e d w) c)"
      by (cases "builtin d")
         (simp_all only: option.case, (intro guarded_or_then guarded_ints guarded_wrap assms)+)
  qed
next
  case (VVarArray i ws dims)
  have dims: "guarded (only_if b (case type_at T 5 of None \<Rightarrow> (\<lambda>c. Undefined)
      | Some int32 \<Rightarrow> Array_encodeBinary fuel (Some cb) (e int32) int32 xs))" for b xs
    by (cases "type_at T 5") (simp_all add: guarded_only_if guarded_undefined guarded_array assms)
  show ?thesis
    unfolding Variant_encodeBinary_def VVarArray uval.case Let_def
  proof (rule guarded_option)
    fix d
    show "guarded (or_then (case builtin d of
        None \<Rightarrow> or_then (Byte_encodeBinary ((0x3F AND 22) OR (if dims \<noteq> [] then 0x80 OR 0x40 else 0x80)))
          (Variant_encodeBinaryWrapExtensionObject fuel (Some cb) ext i True (elems ws))
      | Some k \<Rightarrow> or_then (Byte_encodeBinary ((0x3F AND of_nat (bt_index k + 1)) OR
            (if dims \<noteq> [] then 0x80 OR 0x40 else 0x80)))
          (Array_encodeBinary fuel (Some cb) (e d) d ws))
       (only_if (dims \<noteq> []) (case type_at T 5 of None \<Rightarrow> (\<lambda>c. Undefined)
          | Some int32 \<Rightarrow> Array_encodeBinary fuel (Some cb) (e int32) int32 (dims_option dims))))"
      by (cases "builtin d")
         (simp_all only: option.case,
          (intro guarded_or_then guarded_ints guarded_wrap guarded_array dims assms)+)
  qed
qed (simp_all add: Variant_encodeBinary_def guarded_undefined guarded_ints)

lemma guarded_data_value:
  assumes "\<And>v. guarded (var v)"
  shows "guarded (DataValue_encodeBinary var v)"
  by (cases v)
     (simp_all add: DataValue_encodeBinary_def guarded_undefined guarded_or_then guarded_opt guarded_ints assms)

lemma guarded_diagnostic:
  assumes "\<And>v. guarded (f v)"
  shows "guarded (DiagnosticInfo_encodeBinary fuel (Some cb) f v)"
  by (cases v)
     (simp_all add: DiagnosticInfo_encodeBinary_def guarded_undefined guarded_or_then guarded_opt
       guarded_ints guarded_string assms)

lemma guarded_member:
  assumes "\<And>tab d v. guarded (e tab d v)"
  shows "guarded (encode_member T fuel (Some cb) e own m w)"
proof (cases "member_type T own m")
  case (Some p)
  obtain tab d where p: "p = (tab, d)" by (cases p)
  show ?thesis
    using assms guarded_array[of "e tab d" fuel d]
    by (cases w) (simp_all add: encode_member_def Some p guarded_undefined)
qed (simp add: encode_member_def guarded_undefined)

theorem guarded_encode_jump: "guarded (encode_jump T fuel (Some cb) n own d v)"
proof (induction n arbitrary: own d v)
  case 0
  show ?case by (simp add: guarded_from_def)
next
  case (Suc n)
  note e = Suc guarded_members guarded_member guarded_extension guarded_variant guarded_data_value
    guarded_diagnostic guarded_ints guarded_string guarded_guid guarded_nodeid guarded_expanded
    guarded_loctext guarded_undefined
  have internal: "guarded (encode_members fuel (Some cb)
      (encode_member T fuel (Some cb) (encode_jump T fuel (Some cb) n) own) ms vs)" for ms vs
    by (intro guarded_members guarded_member Suc)
  have ext: "guarded (ExtensionObject_encodeBinary T fuel (Some cb) (encode_jump T fuel (Some cb) n T) sz w)"
    for sz w by (intro guarded_extension Suc)
  have dv: "guarded (\<lambda>c. case type_at T 23 of None \<Rightarrow> Undefined
      | Some dv \<Rightarrow> DataValue_encodeBinary (encode_jump T fuel (Some cb) n T dv) w c)" for w
    by (intro guarded_option guarded_data_value Suc)
  have var: "guarded (Variant_encodeBinary T fuel (Some cb) (encode_jump T fuel (Some cb) n T)
      (ExtensionObject_encodeBinary T fuel (Some cb) (encode_jump T fuel (Some cb) n T) (calcSize T n T)) w)"
    for w by (intro guarded_variant Suc ext)
  show ?case
  proof (cases "builtin d")
    case None
    then show ?thesis
      using internal by (cases v) (simp_all add: guarded_undefined)
  next
    case (Some k)
    show ?thesis
    proof (cases "fits k v")
      case True
      then show ?thesis
        using internal ext dv var Some
        by (cases v) (simp_all add: e NodeId_encodeBinary_def Let_def)
    qed (simp add: Some guarded_undefined)
  qed
qed

corollary guarded_UA_encodeBinary:
  assumes "UA_encodeBinary T fuel (Some cb) n own d v written room s = Done (rv, c)"
    and "I s" "L s" "length written \<le> room" "room \<le> cap"
  shows "I (ecb c) \<and> (elive c \<longrightarrow> L (ecb c)) \<and> length (ebuf c) \<le> cap \<and> (rv = GOOD \<longrightarrow> elive c)"
proof -
  let ?c = "\<lparr> ebuf = written, ecap = room, egen = 0, elive = True, ecb = s \<rparr>"
  have "okc ?c" using assms(2-5) by (simp add: okc_def)
  from guardedD[OF guarded_members[OF guarded_member[OF guarded_encode_jump]] this
      assms(1)[unfolded UA_encodeBinary_def UA_encodeBinaryInternal_def]]
  show ?thesis by (auto simp: kept_def okc_def)
qed

end

end
