(* ===== verification/ChunkSend.thy ===== *)
theory ChunkSend
  imports SecureChannel CodecProps BinChunk BinGuard
begin

text \<open>
  Sending a message in chunks (\<open>UA_SecureChannel_sendChunk\<close>, \<open>UA_SecureChannel_sendBinaryMessage\<close>
  and their ZooKeeper variants \<open>ZUTH_SecureChannel_sendChunk\<close>, \<open>ZUTH_SecureChannel_sendBinaryMessage\<close>).

  The sender and its ZooKeeper variant differ in what they do with a finished chunk only, and both
  ignore whether that succeeded; so a chunk is recorded, in the order of sending, and handed to the
  network or to ZooKeeper from the record.  \<open>getSendBuffer\<close>, which belongs to the network layer, is a
  parameter with a state of its own; when it succeeds, it gives a buffer of the size asked for.
\<close>

section \<open>The sender's state\<close>

record chunkInfo =
  requestId :: u32
  messageType :: u32
  chunksSoFar :: u16
  messageSizeSoFar :: nat
  final :: bool
  errorCode :: status

text \<open>A finished chunk: the part in front that was hidden from the encoder, and the content.\<close>

record sentChunk =
  scChannel :: u32
  scRequest :: u32
  scHead :: "byte list"
  scBody :: "byte list"

record 'p sendState =
  ci :: chunkInfo
  schan :: secureChannel
  sent :: "sentChunk list"
  pool :: 'p

type_synonym 'p getbuf = "u32 \<Rightarrow> 'p \<Rightarrow> status \<times> 'p"

section \<open>Operations\<close>

definition chunk_limits :: "connectionConfig \<Rightarrow> nat \<Rightarrow> chunkInfo \<Rightarrow> chunkInfo" where
  "chunk_limits remote offset i =
     (let i1 = (if unat (maxMessageSize remote) < messageSizeSoFar i + offset \<and> 0 < maxMessageSize remote
                then i\<lparr>errorCode := BADRESPONSETOOLARGE\<rparr> else i);
          i2 = i1\<lparr>chunksSoFar := chunksSoFar i1 + 1\<rparr>
      in if maxChunkCount remote < ucast (chunksSoFar i2) \<and> 0 < maxChunkCount remote
         then i2\<lparr>errorCode := BADRESPONSETOOLARGE\<rparr> else i2)"

text \<open>The error code and an empty text, encoded behind the 24 bytes of the header.\<close>

definition abort_body :: "nat \<Rightarrow> status \<Rightarrow> byte list" where
  "abort_body room code = drop HEADER_LENGTH
     (encode_at UA_TYPES UA_TYPES_STRING (VArray None) room
       (encode_at UA_TYPES UA_TYPES_UINT32 (V32 code) room (replicate HEADER_LENGTH 0)))"

definition chunk_head :: "secureChannel \<Rightarrow> u32 \<Rightarrow> u32 \<Rightarrow> nat \<Rightarrow> u32 \<Rightarrow> nat \<Rightarrow> byte list" where
  "chunk_head c reqId typ offset seqNo room =
     encode_at UA_TRANSPORT UA_TRANSPORT_SEQUENCEHEADER (sequence_header seqNo reqId) room
       (encode_at UA_TRANSPORT UA_TRANSPORT_SYMMETRICALGORITHMSECURITYHEADER
          (VStruct [V32 (tokenId (securityToken c))]) room
         (encode_at UA_TRANSPORT UA_TRANSPORT_SECURECONVERSATIONMESSAGEHEADER
            (message_header typ (of_nat offset) (channelId (securityToken c))) room []))"

definition chunk_message ::
  "connection \<Rightarrow> secureChannel \<Rightarrow> chunkInfo \<Rightarrow> byte list \<Rightarrow> chunkInfo \<times> secureChannel \<times> sentChunk"
where
  "chunk_message conn c i payload =
     (let room = unat (sendBufferSize (localConf conn));
          i1 = chunk_limits (remoteConf conn) (HEADER_LENGTH + length payload) i;
          good = (errorCode i1 = GOOD);
          i2 = (if good then i1 else i1\<lparr>final := True\<rparr>);
          typ = messageType i2 + (if good then (if final i2 then UA_CHUNKTYPE_FINAL
                                                else UA_CHUNKTYPE_INTERMEDIATE) else UA_CHUNKTYPE_ABORT);
          body = (if good then payload else abort_body room (errorCode i2));
          offset = HEADER_LENGTH + length body;
          seqNo = sendSequenceNumber c + 1
      in (i2\<lparr>messageSizeSoFar := messageSizeSoFar i2 + offset\<rparr>,
          c\<lparr>sendSequenceNumber := seqNo\<rparr>,
          \<lparr> scChannel = channelId (securityToken c), scRequest = requestId i2,
            scHead = chunk_head c (requestId i2) typ offset seqNo room, scBody = body \<rparr>))"

text \<open>
  The callback that the encoder calls with the content of a full buffer, and that sends the last
  chunk.  With no connection the buffer stays as it is and the encoder stops.
\<close>

definition sendChunk ::
  "'p getbuf \<Rightarrow> (nat \<Rightarrow> connection) \<Rightarrow> 'p sendState \<Rightarrow> byte list \<Rightarrow> status \<times> nat option \<times> 'p sendState"
where
  "sendChunk getSendBuffer conns s payload = (case cconnection (schan s) of
       None \<Rightarrow> (BADINTERNALERROR, Some 0, s)
     | Some a \<Rightarrow>
         let (i', c', chunk) = chunk_message (conns a) (schan s) (ci s) payload;
             s' = s\<lparr>ci := i', schan := c', sent := sent s @ [chunk]\<rparr>;
             room = sendBufferSize (localConf (conns a))
         in if final i' then (errorCode i', None, s')
            else let (rv, p) = getSendBuffer room (pool s')
              in if rv \<noteq> GOOD then (rv, None, s'\<lparr>pool := p\<rparr>)
                 else (errorCode i', Some (unat room - HEADER_LENGTH), s'\<lparr>pool := p\<rparr>))"

definition message_type_of :: "u32 \<Rightarrow> u32" where
  "message_type_of num =
     (if num = 446 \<or> num = 449 then UA_MESSAGETYPE_OPN
      else if num = 452 \<or> num = 455 then UA_MESSAGETYPE_CLO else UA_MESSAGETYPE_MSG)"

text \<open>
  \<open>fuel\<close> bounds the exchanged buffers and \<open>n\<close> the nesting.  With a send buffer smaller than the
  header the length of the rest wraps around, and when no new buffer could be had, the abort
  message is written into the one that was handed over: both are undefined.
\<close>

definition send_message ::
  "'p getbuf \<Rightarrow> (nat \<Rightarrow> connection) \<Rightarrow> nat \<Rightarrow> nat \<Rightarrow> types \<Rightarrow> udesc \<Rightarrow> uval \<Rightarrow> u32 \<Rightarrow> secureChannel \<Rightarrow> 'p \<Rightarrow>
   (status \<times> 'p sendState) outcome" where
  "send_message getSendBuffer conns fuel n own d v reqId c p0 =
     (let num = binaryEncodingId d;
          info = \<lparr> requestId = reqId, messageType = message_type_of num, chunksSoFar = 0,
                   messageSizeSoFar = 0, final = False, errorCode = GOOD \<rparr>;
          s0 = \<lparr> ci = info, schan = c, sent = [], pool = p0 \<rparr>
      in case cconnection c of
           None \<Rightarrow> Done (BADINTERNALERROR, s0)
         | Some a \<Rightarrow>
             let sz = sendBufferSize (localConf (conns a));
                 (rv, p) = getSendBuffer sz p0
             in if rv \<noteq> GOOD then Done (rv, s0\<lparr>pool := p\<rparr>)
                else if unat sz < HEADER_LENGTH then Undefined
                else let room = unat sz - HEADER_LENGTH;
                         written = encode_at UA_TYPES UA_TYPES_NODEID (VNode (encoding_id d)) room []
                  in bind (UA_encodeBinary UA_TYPES fuel (Some (sendChunk getSendBuffer conns)) n own d v
                             written room (s0\<lparr>pool := p\<rparr>))
                    (\<lambda>(rv, e). let s = ecb e
                      in if rv = GOOD then
                           (case sendChunk getSendBuffer conns (s\<lparr>ci := (ci s)\<lparr>final := True\<rparr>\<rparr>) (ebuf e) of
                              (rv2, room2, s2) \<Rightarrow> Done (rv2, s2))
                         else if final (ci s) then Done (rv, s)
                         else if \<not> elive e then Undefined
                         else (case sendChunk getSendBuffer conns (s\<lparr>ci := (ci s)\<lparr>errorCode := rv\<rparr>\<rparr>) (ebuf e) of
                                 (rv2, room2, s2) \<Rightarrow> Done (rv, s2))))"

text \<open>The buffer that is handed over.\<close>

definition chunk_bytes :: "sentChunk \<Rightarrow> byte list" where
  "chunk_bytes k = scHead k @ scBody k"

text \<open>The status, the channel, and the buffers given to \<open>connection->send\<close>, in order.\<close>

definition UA_SecureChannel_sendBinaryMessage ::
  "'p getbuf \<Rightarrow> (nat \<Rightarrow> connection) \<Rightarrow> nat \<Rightarrow> nat \<Rightarrow> types \<Rightarrow> udesc \<Rightarrow> uval \<Rightarrow> u32 \<Rightarrow> secureChannel \<Rightarrow> 'p \<Rightarrow>
   (status \<times> secureChannel \<times> byte list list \<times> 'p) outcome" where
  "UA_SecureChannel_sendBinaryMessage getSendBuffer conns fuel n own d v reqId c p =
     bind (send_message getSendBuffer conns fuel n own d v reqId c p)
       (\<lambda>(rv, s). Done (rv, schan s, map chunk_bytes (sent s), pool s))"

section \<open>The stream of the contents\<close>

interpretation sender: chunk_sink "sendChunk gb conns" "\<lambda>s. concat (map scBody (sent s))"
  for gb :: "'p getbuf" and conns
  by unfold_locales
     (auto simp: sendChunk_def chunk_message_def Let_def split: option.splits prod.splits if_splits)

section \<open>The chunks of a message\<close>

text \<open>The \<open>i\<close>-th chunk that the channel \<open>c\<close> sends for a request, of type \<open>typ\<close>.\<close>

definition chunk_ok :: "secureChannel \<Rightarrow> u32 \<Rightarrow> nat \<Rightarrow> u32 \<Rightarrow> sentChunk \<Rightarrow> bool" where
  "chunk_ok c req i typ k \<longleftrightarrow>
     scChannel k = channelId (securityToken c) \<and> scRequest k = req \<and>
     scHead k = header_bytes typ (of_nat (HEADER_LENGTH + length (scBody k))) (channelId (securityToken c)) @
       security_bytes (tokenId (securityToken c)) (sendSequenceNumber c + of_nat i + 1) req"

definition chunks_ok :: "secureChannel \<Rightarrow> u32 \<Rightarrow> u32 list \<Rightarrow> sentChunk list \<Rightarrow> bool" where
  "chunks_ok c req ts ks \<longleftrightarrow>
     length ts = length ks \<and> (\<forall>i<length ks. chunk_ok c req i (ts ! i) (ks ! i))"

definition chunk_sizes :: "sentChunk list \<Rightarrow> nat" where
  "chunk_sizes ks = sum_list (map (\<lambda>k. HEADER_LENGTH + length (scBody k)) ks)"

lemma chunk_sizes_simps [simp]:
  "chunk_sizes [] = 0" "chunk_sizes (ks @ ls) = chunk_sizes ks + chunk_sizes ls"
  "chunk_sizes [k] = HEADER_LENGTH + length (scBody k)"
  by (simp_all add: chunk_sizes_def)

lemma chunks_ok_Nil [simp]: "chunks_ok c req [] []"
  by (simp add: chunks_ok_def)

lemma chunks_ok_snoc:
  "chunks_ok c req ts ks \<Longrightarrow> chunk_ok c req (length ks) t k \<Longrightarrow> chunks_ok c req (ts @ [t]) (ks @ [k])"
  by (auto simp: chunks_ok_def nth_append less_Suc_eq)

lemma chunk_head_bytes:
  assumes "HEADER_LENGTH \<le> room"
  shows "chunk_head c req typ offset seqNo room =
    header_bytes typ (of_nat offset) (channelId (securityToken c)) @
    security_bytes (tokenId (securityToken c)) seqNo req"
proof -
  have "encode_at UA_TRANSPORT 11 (message_header typ (of_nat offset) x) room [] = header_bytes typ (of_nat offset) x"
    for x using encode_at_mems[OF message_header_mems, of "[]"] assms
    by (simp add: message_header_def header_bytes_def)
  moreover have "encode_at UA_TRANSPORT 10 (VStruct [V32 x]) room buf = buf @ UA_encode32 x"
    if "length buf = 12" for x buf
    using encode_at_mems[OF token_mems, of buf] assms that by simp
  moreover have "encode_at UA_TRANSPORT 7 (sequence_header x y) room buf = buf @ UA_encode32 x @ UA_encode32 y"
    if "length buf = 16" for x y buf
    using encode_at_mems[OF sequence_header_mems, of buf] assms that
    by (simp add: sequence_header_def)
  ultimately show ?thesis
    by (simp add: chunk_head_def header_bytes_def security_bytes_def)
qed

text \<open>One chunk, sent while no error has been met.\<close>

lemma chunk_message_good:
  assumes "chunk_message conn c i payload = (i', c', k)" and "errorCode i' = GOOD"
    and "HEADER_LENGTH \<le> unat (sendBufferSize (localConf conn))"
  shows "scBody k = payload \<and> final i' = final i \<and>
    chunk_ok c (requestId i) 0 (messageType i + (if final i then UA_CHUNKTYPE_FINAL
      else UA_CHUNKTYPE_INTERMEDIATE)) k \<and>
    (0 < maxMessageSize (remoteConf conn) \<longrightarrow> messageSizeSoFar i' \<le> unat (maxMessageSize (remoteConf conn)))"
  using assms
  by (auto simp: chunk_message_def Let_def chunk_limits_def chunk_ok_def chunk_head_bytes not_less word_less_nat_alt
      split: if_splits)

lemma chunk_message_bad:
  assumes "chunk_message conn c i payload = (i', c', k)" and "errorCode i' \<noteq> GOOD"
    and "HEADER_LENGTH \<le> unat (sendBufferSize (localConf conn))"
  shows "final i' \<and> chunk_ok c (requestId i) 0 (messageType i + UA_CHUNKTYPE_ABORT) k"
  using assms
  by (auto simp: chunk_message_def Let_def chunk_limits_def chunk_ok_def chunk_head_bytes split: if_splits)

lemma chunk_message_state:
  assumes "chunk_message conn c i payload = (i', c', k)"
  shows "c' = c\<lparr>sendSequenceNumber := sendSequenceNumber c + 1\<rparr> \<and> requestId i' = requestId i \<and>
    messageType i' = messageType i \<and> messageSizeSoFar i' = messageSizeSoFar i + HEADER_LENGTH + length (scBody k) \<and>
    (errorCode i \<noteq> GOOD \<longrightarrow> errorCode i' \<noteq> GOOD)"
  using assms by (auto simp: chunk_message_def Let_def chunk_limits_def split: if_splits)

lemma chunk_ok_shift:
  "chunk_ok (c\<lparr>sendSequenceNumber := sendSequenceNumber c + of_nat n\<rparr>) req 0 t k = chunk_ok c req n t k"
  by (simp add: chunk_ok_def)

text \<open>
  The state between two chunks, or after an abort, of a message that the channel \<open>c\<close> with the
  connection \<open>a\<close> began to send.
\<close>

definition send_inv :: "(nat \<Rightarrow> connection) \<Rightarrow> nat \<Rightarrow> secureChannel \<Rightarrow> u32 \<Rightarrow> u32 \<Rightarrow> 'p sendState \<Rightarrow> bool" where
  "send_inv conns a c req mt s \<longleftrightarrow>
     cconnection c = Some a \<and> HEADER_LENGTH \<le> unat (sendBufferSize (localConf (conns a))) \<and>
     schan s = c\<lparr>sendSequenceNumber := sendSequenceNumber c + of_nat (length (sent s))\<rparr> \<and>
     requestId (ci s) = req \<and> messageType (ci s) = mt \<and> messageSizeSoFar (ci s) = chunk_sizes (sent s) \<and>
     (if final (ci s) then \<exists>m. chunks_ok c req (replicate m (mt + UA_CHUNKTYPE_INTERMEDIATE) @
          [mt + UA_CHUNKTYPE_ABORT]) (sent s)
      else errorCode (ci s) = GOOD \<and>
        chunks_ok c req (replicate (length (sent s)) (mt + UA_CHUNKTYPE_INTERMEDIATE)) (sent s) \<and>
        list_all (\<lambda>k. length (scBody k) \<le> unat (sendBufferSize (localConf (conns a))) - HEADER_LENGTH) (sent s))"

lemma send_inv_chunk:
  assumes "send_inv conns a c req mt s" "\<not> final (ci s)"
    and "chunk_message (conns a) (schan s) ((ci s)\<lparr>final := b, errorCode := e\<rparr>) payload = (i', c', k)"
  shows "c' = c\<lparr>sendSequenceNumber := sendSequenceNumber c + of_nat (Suc (length (sent s)))\<rparr>"
    and "chunks_ok c req (replicate (length (sent s)) (mt + UA_CHUNKTYPE_INTERMEDIATE) @
      [mt + (if errorCode i' \<noteq> GOOD then UA_CHUNKTYPE_ABORT else if b then UA_CHUNKTYPE_FINAL
        else UA_CHUNKTYPE_INTERMEDIATE)]) (sent s @ [k])"
    and "requestId i' = req" "messageType i' = mt" "messageSizeSoFar i' = chunk_sizes (sent s @ [k])"
    and "errorCode i' = GOOD \<Longrightarrow> scBody k = payload \<and> final i' = b \<and>
      (0 < maxMessageSize (remoteConf (conns a)) \<longrightarrow>
        chunk_sizes (sent s @ [k]) \<le> unat (maxMessageSize (remoteConf (conns a))))"
    and "errorCode i' \<noteq> GOOD \<Longrightarrow> final i'" and "e \<noteq> GOOD \<Longrightarrow> errorCode i' \<noteq> GOOD"
proof -
  note inv = assms(1)[unfolded send_inv_def]
  note st = chunk_message_state[OF assms(3)]
  have room: "HEADER_LENGTH \<le> unat (sendBufferSize (localConf (conns a)))" using inv by blast
  note good = chunk_message_good[OF assms(3) _ room] and bad = chunk_message_bad[OF assms(3) _ room]
  show "c' = c\<lparr>sendSequenceNumber := sendSequenceNumber c + of_nat (Suc (length (sent s)))\<rparr>"
    using st inv by (simp add: add.assoc)
  show sz: "requestId i' = req" "messageType i' = mt" "messageSizeSoFar i' = chunk_sizes (sent s @ [k])"
    using st inv by auto
  show "errorCode i' \<noteq> GOOD \<Longrightarrow> final i'" and "e \<noteq> GOOD \<Longrightarrow> errorCode i' \<noteq> GOOD"
    using bad st by auto
  show "errorCode i' = GOOD \<Longrightarrow> scBody k = payload \<and> final i' = b \<and>
      (0 < maxMessageSize (remoteConf (conns a)) \<longrightarrow>
        chunk_sizes (sent s @ [k]) \<le> unat (maxMessageSize (remoteConf (conns a))))"
    using good sz(3) by auto
  have "chunk_ok c req (length (sent s)) (mt + (if errorCode i' \<noteq> GOOD then UA_CHUNKTYPE_ABORT
      else if b then UA_CHUNKTYPE_FINAL else UA_CHUNKTYPE_INTERMEDIATE)) k"
    using good bad inv by (auto simp: chunk_ok_shift)
  then show "chunks_ok c req (replicate (length (sent s)) (mt + UA_CHUNKTYPE_INTERMEDIATE) @
      [mt + (if errorCode i' \<noteq> GOOD then UA_CHUNKTYPE_ABORT else if b then UA_CHUNKTYPE_FINAL
        else UA_CHUNKTYPE_INTERMEDIATE)]) (sent s @ [k])"
    using inv assms(2) by (intro chunks_ok_snoc) auto
qed

lemma sendChunk_some:
  assumes "cconnection (schan s) = Some a"
    and "chunk_message (conns a) (schan s) (ci s) payload = (i', c', k)"
    and "sendChunk gb conns s payload = (rv, room, s')"
  shows "ci s' = i' \<and> schan s' = c' \<and> sent s' = sent s @ [k] \<and>
    (final i' \<longrightarrow> rv = errorCode i' \<and> room = None) \<and>
    (\<not> final i' \<longrightarrow> (case room of None \<Rightarrow> rv \<noteq> GOOD
       | Some r \<Rightarrow> rv = errorCode i' \<and> r = unat (sendBufferSize (localConf (conns a))) - HEADER_LENGTH))"
  using assms by (auto simp: sendChunk_def Let_def split: prod.splits if_splits)

lemma send_inv_step:
  assumes "send_inv conns a c req mt s" "\<not> final (ci s)"
    and "length payload \<le> unat (sendBufferSize (localConf (conns a))) - HEADER_LENGTH"
    and "sendChunk gb conns s payload = (rv, room, s')"
  shows "send_inv conns a c req mt s' \<and> (case room of None \<Rightarrow> rv \<noteq> GOOD
    | Some r \<Rightarrow> r \<le> unat (sendBufferSize (localConf (conns a))) - HEADER_LENGTH \<and> \<not> final (ci s'))"
proof -
  obtain i' c' k where m: "chunk_message (conns a) (schan s) (ci s) payload = (i', c', k)"
    by (metis prod_cases3)
  have inv: "cconnection (schan s) = Some a" "errorCode (ci s) = GOOD"
    "HEADER_LENGTH \<le> unat (sendBufferSize (localConf (conns a)))" "cconnection c = Some a"
    "list_all (\<lambda>k. length (scBody k) \<le> unat (sendBufferSize (localConf (conns a))) - HEADER_LENGTH) (sent s)"
    using assms(1,2) by (auto simp: send_inv_def)
  have same: "(ci s)\<lparr>final := False, errorCode := GOOD\<rparr> = ci s" using assms(2) inv(2) by simp
  note step = send_inv_chunk[OF assms(1,2), where b = False and e = GOOD, unfolded same, OF m]
  note fin = sendChunk_some[OF inv(1) m assms(4)]
  have f: "final i' = (errorCode i' \<noteq> GOOD)" using step(6,7) by blast
  have "send_inv conns a c req mt s'"
  proof (cases "errorCode i' = GOOD")
    case True
    have "replicate (length (sent s)) (mt + UA_CHUNKTYPE_INTERMEDIATE) @ [mt + UA_CHUNKTYPE_INTERMEDIATE] =
        replicate (Suc (length (sent s))) (mt + UA_CHUNKTYPE_INTERMEDIATE)"
      by (simp add: replicate_append_same)
    then show ?thesis
      unfolding send_inv_def using True f fin step inv assms(3) by simp
  next
    case False
    then show ?thesis
      unfolding send_inv_def using f fin step(1-5) inv by auto
  qed
  then show ?thesis
    using fin f by (auto split: option.splits)
qed

interpretation guard: chunk_guard "sendChunk gb conns" "send_inv conns a c req mt" "\<lambda>s. \<not> final (ci s)"
    "unat (sendBufferSize (localConf (conns a))) - HEADER_LENGTH"
  for gb :: "'p getbuf" and conns a c req mt
  by unfold_locales (rule send_inv_step)

section \<open>Complete messages and aborts\<close>

text \<open>What \<open>send_message\<close> does once it has its buffer.\<close>

lemma send_message_cases:
  assumes "send_message gb conns fuel n own d v req c p = Done (rv, s)"
    and "cconnection c = Some a" and "sent s \<noteq> [] \<or> rv = GOOD"
  obtains rv1 e st where
    "UA_encodeBinary UA_TYPES fuel (Some (sendChunk gb conns)) n own d v
       (encode_at UA_TYPES UA_TYPES_NODEID (VNode (encoding_id d))
          (unat (sendBufferSize (localConf (conns a))) - HEADER_LENGTH) [])
       (unat (sendBufferSize (localConf (conns a))) - HEADER_LENGTH) st = Done (rv1, e)"
    and "send_inv conns a c req (message_type_of (binaryEncodingId d)) st" "\<not> final (ci st)" "sent st = []"
    and "HEADER_LENGTH \<le> unat (sendBufferSize (localConf (conns a)))"
    and "(if rv1 = GOOD then \<exists>room. sendChunk gb conns ((ecb e)\<lparr>ci := (ci (ecb e))\<lparr>final := True\<rparr>\<rparr>) (ebuf e) =
              (rv, room, s)
          else rv = rv1 \<and> (if final (ci (ecb e)) then s = ecb e
            else elive e \<and> (\<exists>rv2 room. sendChunk gb conns
              ((ecb e)\<lparr>ci := (ci (ecb e))\<lparr>errorCode := rv\<rparr>\<rparr>) (ebuf e) = (rv2, room, s))))"
proof -
  let ?sz = "sendBufferSize (localConf (conns a))" and ?mt = "message_type_of (binaryEncodingId d)"
  let ?i = "\<lparr> requestId = req, messageType = ?mt, chunksSoFar = 0, messageSizeSoFar = 0, final = False,
    errorCode = GOOD \<rparr>"
  obtain rv0 p1 where g: "gb ?sz p = (rv0, p1)" by (cases "gb ?sz p")
  let ?st = "\<lparr> ci = ?i, schan = c, sent = [], pool = p1 \<rparr>"
  have 0: "rv0 = GOOD" "HEADER_LENGTH \<le> unat ?sz"
    using assms g by (auto simp: send_message_def Let_def split: if_splits)
  let ?enc = "UA_encodeBinary UA_TYPES fuel (Some (sendChunk gb conns)) n own d v
       (encode_at UA_TYPES UA_TYPES_NODEID (VNode (encoding_id d)) (unat ?sz - HEADER_LENGTH) [])
       (unat ?sz - HEADER_LENGTH) ?st"
  obtain rv1 e where e: "?enc = Done (rv1, e)"
    using assms(1,2) g 0 by (cases "?enc") (auto simp: send_message_def Let_def)
  have "send_inv conns a c req ?mt ?st"
    using 0 assms(2) by (simp add: send_inv_def)
  moreover have "if rv1 = GOOD then \<exists>room. sendChunk gb conns ((ecb e)\<lparr>ci := (ci (ecb e))\<lparr>final := True\<rparr>\<rparr>) (ebuf e) =
              (rv, room, s)
          else rv = rv1 \<and> (if final (ci (ecb e)) then s = ecb e
            else elive e \<and> (\<exists>rv2 room. sendChunk gb conns
              ((ecb e)\<lparr>ci := (ci (ecb e))\<lparr>errorCode := rv\<rparr>\<rparr>) (ebuf e) = (rv2, room, s)))"
    using assms(1,2) g 0 e by (auto simp: send_message_def Let_def split: if_splits prod.splits)
  ultimately show ?thesis using that e 0(2) by simp
qed

lemma nodeid_numeric_length: "length (nodeid_bytes 0 (encoding_id d)) \<le> 7"
  by (simp add: nodeid_bytes_defs encoding_id_def)

lemma encode_type_id:
  assumes "7 \<le> room"
  shows "encode_at UA_TYPES UA_TYPES_NODEID (VNode (encoding_id d)) room [] = nodeid_bytes 0 (encoding_id d)"
proof -
  have e: "UA_TYPES ! 16 = entry 17 (Some KNodeId) 24 False 0 NodeId_members" by (simp add: UA_TYPES_def)
  have "wire UA_TYPES (Suc (Suc (Suc (Suc (Suc 0))))) UA_TYPES (UA_TYPES ! 16) (VNode (encoding_id d))
      (nodeid_bytes 0 (encoding_id d))"
    by (rule leaf[where k = KNodeId])
       (simp_all add: e entry_def desc_ok_def nodeid_ok_def encoding_id_def)
  then have "wire_mems UA_TYPES (Suc (Suc (Suc (Suc (Suc 0))))) UA_TYPES [one 16] [VNode (encoding_id d)]
      (nodeid_bytes 0 (encoding_id d) @ [])"
    by (intro mems_one[where tab = UA_TYPES and d = "UA_TYPES ! 16"] mems_nil)
       (simp_all add: one_def member_type_def type_at_def uint32_entry)
  then have m: "wire_mems UA_TYPES 5 UA_TYPES [one 16] [VNode (encoding_id d)] (nodeid_bytes 0 (encoding_id d))"
    by (simp add: numeral_eq_Suc)
  have "members (UA_TYPES ! 16) = [one 16]" by (simp add: e entry_def NodeId_members_def)
  then show ?thesis
    using writesD[OF wire_writes(2)[OF m, of 0 "None :: unit exchange"]] nodeid_numeric_length[of d] assms
    by (simp add: encode_at_def UA_encodeBinary_def UA_encodeBinaryInternal_def)
qed

lemma message_ends:
  assumes "send_message gb conns fuel n own d v req c p = Done (rv, s)"
    and "cconnection c = Some a" and "sent s \<noteq> [] \<or> rv = GOOD"
    and "31 \<le> unat (sendBufferSize (localConf (conns a)))"
  shows "\<exists>m. chunks_ok c req (replicate m (message_type_of (binaryEncodingId d) + UA_CHUNKTYPE_INTERMEDIATE) @
      [message_type_of (binaryEncodingId d) + (if rv = GOOD then UA_CHUNKTYPE_FINAL else UA_CHUNKTYPE_ABORT)]) (sent s)"
  using assms(1-3)
proof (rule send_message_cases)
  let ?mt = "message_type_of (binaryEncodingId d)"
  fix rv1 e st
  assume enc: "UA_encodeBinary UA_TYPES fuel (Some (sendChunk gb conns)) n own d v
       (encode_at UA_TYPES UA_TYPES_NODEID (VNode (encoding_id d))
          (unat (sendBufferSize (localConf (conns a))) - HEADER_LENGTH) [])
       (unat (sendBufferSize (localConf (conns a))) - HEADER_LENGTH) st = Done (rv1, e)"
    and st: "send_inv conns a c req ?mt st" "\<not> final (ci st)" "sent st = []"
    and r: "if rv1 = GOOD then \<exists>room. sendChunk gb conns ((ecb e)\<lparr>ci := (ci (ecb e))\<lparr>final := True\<rparr>\<rparr>) (ebuf e) =
              (rv, room, s)
          else rv = rv1 \<and> (if final (ci (ecb e)) then s = ecb e
            else elive e \<and> (\<exists>rv2 room. sendChunk gb conns
              ((ecb e)\<lparr>ci := (ci (ecb e))\<lparr>errorCode := rv\<rparr>\<rparr>) (ebuf e) = (rv2, room, s)))"
  have "length (encode_at UA_TYPES UA_TYPES_NODEID (VNode (encoding_id d))
      (unat (sendBufferSize (localConf (conns a))) - HEADER_LENGTH) []) \<le> 7"
    using assms(4) nodeid_numeric_length by (simp add: encode_type_id)
  from guard.guarded_UA_encodeBinary[OF enc st(1,2) order_trans[OF this]] assms(4)
  have inv: "send_inv conns a c req ?mt (ecb e)" "rv1 = GOOD \<Longrightarrow> \<not> final (ci (ecb e))"
    by auto
  have con: "cconnection (schan (ecb e)) = Some a" using inv(1) by (auto simp: send_inv_def)
  have last: "chunks_ok c req (replicate (length (sent (ecb e))) (?mt + UA_CHUNKTYPE_INTERMEDIATE) @
      [?mt + (if rv = GOOD then UA_CHUNKTYPE_FINAL else UA_CHUNKTYPE_ABORT)]) (sent s)"
    if f: "\<not> final (ci (ecb e))" and b: "x = GOOD \<Longrightarrow> b"
      and sd: "sendChunk gb conns ((ecb e)\<lparr>ci := (ci (ecb e))\<lparr>final := b, errorCode := x\<rparr>\<rparr>) (ebuf e) = (rv2, room, s)"
      and rv: "x = GOOD \<and> rv = rv2 \<or> x \<noteq> GOOD \<and> rv \<noteq> GOOD" for b x rv2 room
  proof -
    obtain i' c' k where m: "chunk_message (conns a) (schan (ecb e)) ((ci (ecb e))\<lparr>final := b, errorCode := x\<rparr>)
        (ebuf e) = (i', c', k)"
      by (metis prod_cases3)
    note step = send_inv_chunk[OF inv(1) f m]
    have fin: "sent s = sent (ecb e) @ [k]" "final i' \<Longrightarrow> rv2 = errorCode i'"
      using sendChunk_some[OF _ _ sd] con m by auto
    have "final i'" using step(6,7,8) b by blast
    then have "(errorCode i' = GOOD) = (rv = GOOD)" "errorCode i' = GOOD \<Longrightarrow> b"
      using fin(2) rv step(8) b by auto
    then show ?thesis
      using step(2) fin(1) by (auto split: if_splits)
  qed
  have same: "(ci (ecb e))\<lparr>final := True, errorCode := GOOD\<rparr> = (ci (ecb e))\<lparr>final := True\<rparr>"
    "(ci (ecb e))\<lparr>final := False, errorCode := rv\<rparr> = (ci (ecb e))\<lparr>errorCode := rv\<rparr>"
    if "\<not> final (ci (ecb e))"
    using inv(1) that by (auto simp: send_inv_def)
  show ?thesis
  proof (cases "rv1 = GOOD")
    case True
    then obtain room where "sendChunk gb conns ((ecb e)\<lparr>ci := (ci (ecb e))\<lparr>final := True\<rparr>\<rparr>) (ebuf e) = (rv, room, s)"
      using r by auto
    then have "sendChunk gb conns ((ecb e)\<lparr>ci := (ci (ecb e))\<lparr>final := True, errorCode := GOOD\<rparr>\<rparr>) (ebuf e) =
        (rv, room, s)"
      by (simp only: same(1)[OF inv(2)[OF True]])
    from last[OF inv(2)[OF True] _ this] show ?thesis by blast
  next
    case False
    show ?thesis
    proof (cases "final (ci (ecb e))")
      case True
      then show ?thesis using r False inv(1) by (auto simp: send_inv_def)
    next
      case nf: False
      then obtain rv2 room where sd: "sendChunk gb conns ((ecb e)\<lparr>ci := (ci (ecb e))\<lparr>errorCode := rv\<rparr>\<rparr>)
          (ebuf e) = (rv2, room, s)"
        using r False by auto
      then have "sendChunk gb conns ((ecb e)\<lparr>ci := (ci (ecb e))\<lparr>final := False, errorCode := rv\<rparr>\<rparr>) (ebuf e) =
          (rv2, room, s)"
        by (simp only: same(2)[OF nf])
      moreover have "rv \<noteq> GOOD" using r False by auto
      ultimately show ?thesis using last[OF nf] by blast
    qed
  qed
qed

lemma chunk_ok_length: "chunk_ok c req i t k \<Longrightarrow> length (chunk_bytes k) = HEADER_LENGTH + length (scBody k)"
  by (simp add: chunk_ok_def chunk_bytes_def header_bytes_def security_bytes_def)

lemma chunks_ok_length:
  "chunks_ok c req ts ks \<Longrightarrow> k \<in> set ks \<Longrightarrow> length (chunk_bytes k) = HEADER_LENGTH + length (scBody k)"
  unfolding chunks_ok_def in_set_conv_nth using chunk_ok_length by blast

lemma chunks_ok_sizes:
  "chunks_ok c req ts ks \<Longrightarrow> length (concat (map chunk_bytes ks)) = chunk_sizes ks"
  using chunks_ok_length[of c req ts ks]
  by (simp add: length_concat chunk_sizes_def comp_def cong: map_cong)

text \<open>The last chunk of a complete message.\<close>

lemma message_last:
  assumes "send_message gb conns fuel n own d v req c p = Done (GOOD, s)"
    and "cconnection c = Some a" and "31 \<le> unat (sendBufferSize (localConf (conns a)))"
  obtains e st k where
    "UA_encodeBinary UA_TYPES fuel (Some (sendChunk gb conns)) n own d v (nodeid_bytes 0 (encoding_id d))
       (unat (sendBufferSize (localConf (conns a))) - HEADER_LENGTH) st = Done (GOOD, e)"
    and "sent st = []" and "sent s = sent (ecb e) @ [k]" and "scBody k = ebuf e"
    and "list_all (\<lambda>k. length (scBody k) \<le> unat (sendBufferSize (localConf (conns a))) - HEADER_LENGTH) (sent s)"
    and "0 < maxMessageSize (remoteConf (conns a)) \<longrightarrow>
        chunk_sizes (sent s) \<le> unat (maxMessageSize (remoteConf (conns a)))"
    and "sendSequenceNumber (schan s) = sendSequenceNumber c + of_nat (length (sent s))"
proof -
  let ?mt = "message_type_of (binaryEncodingId d)"
  let ?cap = "unat (sendBufferSize (localConf (conns a))) - HEADER_LENGTH"
  from assms(1,2) disjI2[OF refl] show ?thesis
  proof (rule send_message_cases)
    fix rv1 e st
    assume enc: "UA_encodeBinary UA_TYPES fuel (Some (sendChunk gb conns)) n own d v
         (encode_at UA_TYPES UA_TYPES_NODEID (VNode (encoding_id d)) ?cap []) ?cap st = Done (rv1, e)"
      and st: "send_inv conns a c req ?mt st" "\<not> final (ci st)" "sent st = []"
      and r: "if rv1 = GOOD then \<exists>room. sendChunk gb conns ((ecb e)\<lparr>ci := (ci (ecb e))\<lparr>final := True\<rparr>\<rparr>) (ebuf e) =
                (GOOD, room, s)
            else GOOD = rv1 \<and> (if final (ci (ecb e)) then s = ecb e
              else elive e \<and> (\<exists>rv2 room. sendChunk gb conns
                ((ecb e)\<lparr>ci := (ci (ecb e))\<lparr>errorCode := GOOD\<rparr>\<rparr>) (ebuf e) = (rv2, room, s)))"
    have rv1: "rv1 = GOOD" using r by (auto split: if_splits)
    have w: "encode_at UA_TYPES UA_TYPES_NODEID (VNode (encoding_id d)) ?cap [] = nodeid_bytes 0 (encoding_id d)"
      using assms(3) by (intro encode_type_id) simp
    have "length (nodeid_bytes 0 (encoding_id d)) \<le> ?cap"
      using assms(3) nodeid_numeric_length[of d] by simp
    from guard.guarded_UA_encodeBinary[OF enc[unfolded w] st(1,2) this order_refl] rv1
    have inv: "send_inv conns a c req ?mt (ecb e)" "\<not> final (ci (ecb e))" "length (ebuf e) \<le> ?cap"
      by auto
    have ecode: "(ci (ecb e))\<lparr>final := True, errorCode := GOOD\<rparr> = (ci (ecb e))\<lparr>final := True\<rparr>"
      using inv by (auto simp: send_inv_def)
    obtain room where sd: "sendChunk gb conns ((ecb e)\<lparr>ci := (ci (ecb e))\<lparr>final := True\<rparr>\<rparr>) (ebuf e) = (GOOD, room, s)"
      using r rv1 by auto
    obtain i' c' k where m: "chunk_message (conns a) (schan (ecb e)) ((ci (ecb e))\<lparr>final := True\<rparr>)
        (ebuf e) = (i', c', k)"
      by (metis prod_cases3)
    note step = send_inv_chunk[OF inv(1,2), where b = True and e = GOOD, unfolded ecode, OF m]
    have fin: "schan s = c'" "sent s = sent (ecb e) @ [k]" "final i' \<Longrightarrow> GOOD = errorCode i'"
      using sendChunk_some[OF _ _ sd] inv(1) m by (auto simp: send_inv_def)
    have g: "errorCode i' = GOOD" using step(7) fin(3) by metis
    note good = step(6)[OF g]
    have "list_all (\<lambda>k. length (scBody k) \<le> ?cap) (sent (ecb e))"
      using inv(1,2) by (simp add: send_inv_def)
    then have sizes: "list_all (\<lambda>k. length (scBody k) \<le> ?cap) (sent s)"
      using good inv(3) fin(2) by simp
    have seqno: "sendSequenceNumber (schan s) = sendSequenceNumber c + of_nat (length (sent s))"
      using step(1) fin(1,2) by simp
    show ?thesis
      by (rule that[OF enc[unfolded w rv1] st(3) fin(2) _ sizes _ seqno]) (use good fin(2) in blast, use good fin(2) in metis)
  qed
qed

section \<open>Messages that fit into one chunk\<close>

lemma send_message_single:
  assumes "cconnection c = Some a" and "gb (sendBufferSize (localConf (conns a))) p = (GOOD, p')"
    and "v = VStruct vs" and "wire_mems UA_TYPES n own (members d) vs bs"
    and "31 + length bs \<le> unat (sendBufferSize (localConf (conns a)))"
    and "maxMessageSize (remoteConf (conns a)) = 0 \<or>
      31 + length bs \<le> unat (maxMessageSize (remoteConf (conns a)))"
  shows "\<exists>s k. send_message gb conns fuel n own d v req c p = Done (GOOD, s) \<and> sent s = [k] \<and>
    scBody k = nodeid_bytes 0 (encoding_id d) @ bs \<and>
    scChannel k = channelId (securityToken c) \<and> scRequest k = req \<and>
    schan s = c\<lparr>sendSequenceNumber := sendSequenceNumber c + 1\<rparr> \<and>
    scHead k = header_bytes (message_type_of (binaryEncodingId d) + UA_CHUNKTYPE_FINAL)
        (of_nat (HEADER_LENGTH + length (scBody k))) (channelId (securityToken c)) @
      security_bytes (tokenId (securityToken c)) (sendSequenceNumber c + 1) req"
proof -
  let ?K = "unat (sendBufferSize (localConf (conns a)))"
  note l = nodeid_numeric_length[of d]
  have w: "encode_at UA_TYPES UA_TYPES_NODEID (VNode (encoding_id d)) (?K - HEADER_LENGTH) [] =
      nodeid_bytes 0 (encoding_id d)"
    using assms(5) by (intro encode_type_id) simp
  have enc: "UA_encodeBinary UA_TYPES fuel (Some (sendChunk gb conns)) n own d v (nodeid_bytes 0 (encoding_id d))
      (?K - HEADER_LENGTH) st = Done (GOOD, \<lparr> ebuf = nodeid_bytes 0 (encoding_id d) @ bs,
        ecap = ?K - HEADER_LENGTH, egen = 0, elive = True, ecb = st \<rparr>)" for st
  proof -
    have "length (nodeid_bytes 0 (encoding_id d)) + length bs \<le> ?K - HEADER_LENGTH"
      using l assms(5) by linarith
    then show ?thesis
      unfolding UA_encodeBinary_def UA_encodeBinaryInternal_def assms(3) uval.case
      by (subst writesD[OF wire_writes(2)[OF assms(4)]]) simp_all
  qed
  have room: "HEADER_LENGTH \<le> ?K" "\<not> ?K < HEADER_LENGTH" using assms(5) by auto
  let ?i = "\<lparr> requestId = req, messageType = message_type_of (binaryEncodingId d), chunksSoFar = 0,
    messageSizeSoFar = 0, final = True, errorCode = GOOD \<rparr>"
  let ?body = "nodeid_bytes 0 (encoding_id d) @ bs"
  have "chunk_limits (remoteConf (conns a)) (HEADER_LENGTH + length ?body) ?i = ?i\<lparr>chunksSoFar := 1\<rparr>"
  proof -
    have "\<not> (unat (maxMessageSize (remoteConf (conns a))) < 0 + (HEADER_LENGTH + length ?body) \<and>
        0 < maxMessageSize (remoteConf (conns a)))"
      using assms(6) l by (auto simp: word_less_nat_alt)
    moreover have "\<not> (maxChunkCount (remoteConf (conns a)) < ucast (1 :: u16) \<and> 0 < maxChunkCount (remoteConf (conns a)))"
      by (auto simp: word_less_nat_alt)
    ultimately show ?thesis
      unfolding chunk_limits_def by (simp only: chunkInfo.simps if_False Let_def add_0)
  qed
  then have "\<exists>i' k. chunk_message (conns a) c ?i ?body = (i', c\<lparr>sendSequenceNumber := sendSequenceNumber c + 1\<rparr>, k) \<and>
      final i' \<and> errorCode i' = GOOD \<and> scBody k = ?body \<and>
      scChannel k = channelId (securityToken c) \<and> scRequest k = req \<and>
      scHead k = header_bytes (message_type_of (binaryEncodingId d) + UA_CHUNKTYPE_FINAL)
        (of_nat (HEADER_LENGTH + length ?body)) (channelId (securityToken c)) @
      security_bytes (tokenId (securityToken c)) (sendSequenceNumber c + 1) req"
    using room(1) unfolding chunk_message_def Let_def by (simp add: chunk_head_bytes)
  then obtain i' k where k: "chunk_message (conns a) c ?i ?body = (i', c\<lparr>sendSequenceNumber := sendSequenceNumber c + 1\<rparr>, k)"
    "final i'" "errorCode i' = GOOD" "scBody k = ?body" "scChannel k = channelId (securityToken c)" "scRequest k = req"
    "scHead k = header_bytes (message_type_of (binaryEncodingId d) + UA_CHUNKTYPE_FINAL)
        (of_nat (HEADER_LENGTH + length ?body)) (channelId (securityToken c)) @
      security_bytes (tokenId (securityToken c)) (sendSequenceNumber c + 1) req"
    by blast
  have "\<exists>s. send_message gb conns fuel n own d v req c p = Done (GOOD, s) \<and> sent s = [k] \<and>
      schan s = c\<lparr>sendSequenceNumber := sendSequenceNumber c + 1\<rparr>"
    by (simp add: send_message_def Let_def assms(1,2) w enc room sendChunk_def k(1-3))
  then show ?thesis
    using k(4-7) by auto
qed

definition plain_connection :: "nat \<Rightarrow> connection" where
  "plain_connection a = \<lparr> cstate = UA_CONNECTION_ESTABLISHED,
     localConf = UA_ConnectionConfig_standard, remoteConf = UA_ConnectionConfig_standard,
     cchannel = None, incompleteMessage = [] \<rparr>"

definition open_channel :: secureChannel where
  "open_channel = UA_SecureChannel_init\<lparr>cconnection := Some 0,
     securityToken := \<lparr> channelId = 1, tokenId = 1, createdAt = 0, revisedLifetime = 3600000 \<rparr>\<rparr>"

lemma read_item_mems:
  "wire_mems UA_TYPES 2 UA_TYPES (members (UA_TYPES ! 69))
     [VNode (UA_NODEID_NUMERIC 0 2258), V32 13, VStr None, VStruct [V16 0, VStr None]] read_item_bytes"
proof -
  have "wire UA_TYPES (Suc (Suc (Suc 0))) UA_TYPES (UA_TYPES ! 69) read_item read_item_bytes"
    using read_item_wire by (simp add: numeral_3_eq_3)
  then show ?thesis
    by (cases rule: wire.cases) (auto simp: read_item_def numeral_2_eq_2)
qed

lemma read_item_sent:
  "\<exists>s k. send_message (\<lambda>_ p. (GOOD, p)) plain_connection 0 2 UA_TYPES (UA_TYPES ! 69) read_item 7 open_channel () =
      Done (GOOD, s) \<and> sent s = [k] \<and> scBody k = nodeid_bytes 0 (encoding_id (UA_TYPES ! 69)) @ read_item_bytes"
proof -
  have "cconnection open_channel = Some 0" by (simp add: open_channel_def)
  moreover have "31 + length read_item_bytes \<le> unat (sendBufferSize (localConf (plain_connection 0)))"
    "maxMessageSize (remoteConf (plain_connection 0)) = 0"
    by (simp_all add: plain_connection_def UA_ConnectionConfig_standard_def read_item_bytes_def)
  ultimately show ?thesis
    using send_message_single[where gb = "\<lambda>_ p. (GOOD, p)" and p' = "()", OF _ refl read_item_def read_item_mems]
    by blast
qed

text \<open>
  C26. Every message that is begun is ended: whatever the value, the limits of the peer and the
  network layer, the chunks handed over are intermediate chunks followed by exactly one last chunk,
  which is final when the sender reports \<open>GOOD\<close> and an abort otherwise; their headers carry the
  channel, the token, the request and consecutive sequence numbers, and the length of the chunk.
\<close>

theorem message_terminated:
  assumes "send_message gb conns fuel n own d v req c p = Done (rv, s)"
    and "cconnection c = Some a" and "sent s \<noteq> []"
    and "31 \<le> unat (sendBufferSize (localConf (conns a)))"
  shows "\<exists>m. chunks_ok c req (replicate m (message_type_of (binaryEncodingId d) + UA_CHUNKTYPE_INTERMEDIATE) @
      [message_type_of (binaryEncodingId d) + (if rv = GOOD then UA_CHUNKTYPE_FINAL else UA_CHUNKTYPE_ABORT)]) (sent s)"
  using assms by (intro message_ends) auto

theorem message_terminated_witness:
  "\<exists>s m. send_message (\<lambda>_ p. (GOOD, p)) plain_connection 0 2 UA_TYPES (UA_TYPES ! 69) read_item 7 open_channel () =
      Done (GOOD, s) \<and>
    chunks_ok open_channel 7 (replicate m (message_type_of (binaryEncodingId (UA_TYPES ! 69)) + UA_CHUNKTYPE_INTERMEDIATE) @
      [message_type_of (binaryEncodingId (UA_TYPES ! 69)) + UA_CHUNKTYPE_FINAL]) (sent s)"
proof -
  obtain s k where s: "send_message (\<lambda>_ p. (GOOD, p)) plain_connection 0 2 UA_TYPES (UA_TYPES ! 69) read_item 7
      open_channel () = Done (GOOD, s)" "sent s = [k]"
    using read_item_sent by blast
  have "cconnection open_channel = Some 0" by (simp add: open_channel_def)
  from message_terminated[OF s(1) this] s show ?thesis
    by (simp add: plain_connection_def UA_ConnectionConfig_standard_def)
qed

text \<open>
  C25. The content arrives whole and in order: when the sender reports \<open>GOOD\<close>, the contents of its
  chunks, put together, are the identifier of the message's type and the wire format of its value;
  no chunk is larger than the send buffer, and the message is not larger than the peer allows.
\<close>

theorem message_complete:
  assumes "send_message gb conns fuel n own d v req c p = Done (GOOD, s)"
    and "cconnection c = Some a" and "31 \<le> unat (sendBufferSize (localConf (conns a)))"
    and "v = VStruct vs" and "wire_mems UA_TYPES n own (members d) vs bs"
  shows "concat (map scBody (sent s)) = nodeid_bytes 0 (encoding_id d) @ bs \<and>
    list_all (\<lambda>k. length (chunk_bytes k) \<le> unat (sendBufferSize (localConf (conns a)))) (sent s) \<and>
    (0 < maxMessageSize (remoteConf (conns a)) \<longrightarrow>
      length (concat (map chunk_bytes (sent s))) \<le> unat (maxMessageSize (remoteConf (conns a))))"
  using assms(1-3)
proof (rule message_last)
  fix e st k
  assume enc: "UA_encodeBinary UA_TYPES fuel (Some (sendChunk gb conns)) n own d v (nodeid_bytes 0 (encoding_id d))
       (unat (sendBufferSize (localConf (conns a))) - HEADER_LENGTH) st = Done (GOOD, e)"
    and k: "sent st = []" "sent s = sent (ecb e) @ [k]" "scBody k = ebuf e"
    and sz: "list_all (\<lambda>k. length (scBody k) \<le> unat (sendBufferSize (localConf (conns a))) - HEADER_LENGTH) (sent s)"
    and mx: "0 < maxMessageSize (remoteConf (conns a)) \<longrightarrow>
        chunk_sizes (sent s) \<le> unat (maxMessageSize (remoteConf (conns a)))"
  obtain ts where ts: "chunks_ok c req ts (sent s)"
    using message_ends[OF assms(1,2) disjI2[OF refl] assms(3)] by blast
  from sender.streamsD(3)[OF sender.wire_streams(2)[OF assms(5), rule_format]
      enc[unfolded UA_encodeBinary_def UA_encodeBinaryInternal_def assms(4) uval.case] refl]
  have "concat (map scBody (sent s)) = nodeid_bytes 0 (encoding_id d) @ bs"
    using k by (simp add: sender.stream_def)
  then show ?thesis
    using sz mx chunks_ok_length[OF ts] chunks_ok_sizes[OF ts] assms(3) by (auto simp: list_all_iff)
qed

theorem message_complete_witness:
  "\<exists>s. send_message (\<lambda>_ p. (GOOD, p)) plain_connection 0 2 UA_TYPES (UA_TYPES ! 69) read_item 7 open_channel () =
      Done (GOOD, s) \<and> concat (map scBody (sent s)) = nodeid_bytes 0 (encoding_id (UA_TYPES ! 69)) @ read_item_bytes"
proof -
  obtain s where s: "send_message (\<lambda>_ p. (GOOD, p)) plain_connection 0 2 UA_TYPES (UA_TYPES ! 69) read_item 7
      open_channel () = Done (GOOD, s)"
    using read_item_sent by blast
  have "cconnection open_channel = Some 0" by (simp add: open_channel_def)
  from message_complete[OF s this _ read_item_def read_item_mems] s show ?thesis
    by (simp add: plain_connection_def UA_ConnectionConfig_standard_def)
qed

end
