(* ===== verification/ChunkRecv.thy ===== *)
theory ChunkRecv
  imports SecureChannel
begin

text \<open>
  Receiving chunks (\<open>UA_SecureChannel_processChunks\<close> and the routines it uses): the checks of the
  headers, the buffers in which the chunks of a message are put together, and the calls of the
  application.  The callback is an argument; it gets the channel and returns it, since closing or
  renewing a channel is one of the things it does.
\<close>

section \<open>Buffered chunks\<close>

fun remove_entry :: "u32 \<Rightarrow> chunkEntry list \<Rightarrow> chunkEntry list" where
  "remove_entry r [] = []"
| "remove_entry r (e # es) = (if crequestId e = r then es else e # remove_entry r es)"

fun find_entry :: "u32 \<Rightarrow> chunkEntry list \<Rightarrow> chunkEntry option" where
  "find_entry r [] = None"
| "find_entry r (e # es) = (if crequestId e = r then Some e else find_entry r es)"

fun append_entry :: "u32 \<Rightarrow> byte list \<Rightarrow> chunkEntry list \<Rightarrow> chunkEntry list" where
  "append_entry r bs [] = []"
| "append_entry r bs (e # es) =
     (if crequestId e = r then e\<lparr>cbytes := cbytes e @ bs\<rparr> # es else e # append_entry r bs es)"

definition UA_SecureChannel_removeChunk :: "secureChannel \<Rightarrow> u32 \<Rightarrow> secureChannel" where
  "UA_SecureChannel_removeChunk c r = c\<lparr>chunks := remove_entry r (chunks c)\<rparr>"

text \<open>
  The length of a chunk's content, computed in a \<open>size_t\<close>: it wraps around when the size in the
  header is smaller than the headers.
\<close>

definition content_length :: "u32 \<Rightarrow> nat \<Rightarrow> nat" where
  "content_length msgSize processed =
     (if processed \<le> unat msgSize then unat msgSize - processed else 2 ^ 64 - (processed - unat msgSize))"

definition UA_SecureChannel_appendChunk ::
  "secureChannel \<Rightarrow> u32 \<Rightarrow> byte list \<Rightarrow> nat \<Rightarrow> nat \<Rightarrow> secureChannel" where
  "UA_SecureChannel_appendChunk c r msg offset len =
     (if length msg - offset < len then UA_SecureChannel_removeChunk c r
      else let es = (if find_entry r (chunks c) = None
                     then \<lparr> crequestId = r, cbytes = [] \<rparr> # chunks c else chunks c)
        in c\<lparr>chunks := append_entry r (take len (drop offset msg)) es\<rparr>)"

text \<open>The bytes of the complete message, none when it cannot be completed.\<close>

definition UA_SecureChannel_finalizeChunk ::
  "secureChannel \<Rightarrow> u32 \<Rightarrow> byte list \<Rightarrow> nat \<Rightarrow> nat \<Rightarrow> byte list \<times> secureChannel" where
  "UA_SecureChannel_finalizeChunk c r msg offset len =
     (if length msg - offset < len then ([], UA_SecureChannel_removeChunk c r)
      else case find_entry r (chunks c) of
             None \<Rightarrow> (take len (drop offset msg), c)
           | Some e \<Rightarrow> (cbytes e @ take len (drop offset msg), UA_SecureChannel_removeChunk c r))"

definition UA_SecureChannel_processSequenceNumber :: "secureChannel \<Rightarrow> u32 \<Rightarrow> status \<times> secureChannel" where
  "UA_SecureChannel_processSequenceNumber c n =
     (if n \<noteq> receiveSequenceNumber c + 1 then
        (if receiveSequenceNumber c + 1 > 4294966271 \<and> n < 1024
         then (GOOD, c\<lparr>receiveSequenceNumber := n - 1 + 1\<rparr>)
         else (BADSECURITYCHECKSFAILED, c))
      else (GOOD, c\<lparr>receiveSequenceNumber := receiveSequenceNumber c + 1\<rparr>))"

section \<open>Processing\<close>

datatype uaMessage =
    ErrorMessage u32 ustring
  | Content "byte list"

type_synonym 'a callback = "'a \<Rightarrow> secureChannel \<Rightarrow> u32 \<Rightarrow> u32 \<Rightarrow> uaMessage \<Rightarrow> 'a \<times> secureChannel"

datatype 'a progress =
    Stop status secureChannel 'a
  | Next nat secureChannel 'a

text \<open>\<open>UA_<Type>_decodeBinary(chunks, &offset, &v)\<close>: the status and, when it is good, the members
  of the value and the offset behind it.\<close>

definition decode_at :: "types \<Rightarrow> nat \<Rightarrow> byte list \<Rightarrow> nat \<Rightarrow> (status \<times> (uval list \<times> nat) option) outcome" where
  "decode_at own i bs off = UA_decodeBinary UA_TYPES 5 own (own ! i) bs off"

text \<open>\<open>data[offset] == 'E' && data[offset+1] == 'R' && data[offset+2] == 'R'\<close>, read in turn.\<close>

fun starts_at :: "byte list \<Rightarrow> byte list \<Rightarrow> nat \<Rightarrow> bool outcome" where
  "starts_at [] bs off = Done True"
| "starts_at (x # xs) bs off =
     (if length bs \<le> off then Undefined
      else if bs ! off \<noteq> x then Done False else starts_at xs bs (Suc off))"

definition is_error_message :: "byte list \<Rightarrow> nat \<Rightarrow> bool outcome" where
  "is_error_message bs off = (if length bs > 3 then starts_at (str ''ERR'') bs off else Done False)"

definition process_error :: "'a callback \<Rightarrow> byte list \<Rightarrow> nat \<Rightarrow> secureChannel \<Rightarrow> 'a \<Rightarrow> 'a progress outcome" where
  "process_error cb bs off c a =
     bind (decode_at UA_TRANSPORT UA_TRANSPORT_TCPMESSAGEHEADER bs off) (\<lambda>(rv, h). case h of
         None \<Rightarrow> Done (Stop rv c a)
       | Some (_, off1) \<Rightarrow>
           bind (decode_at UA_TRANSPORT UA_TRANSPORT_TCPERRORMESSAGE bs off1) (\<lambda>(rv2, e). case e of
               Some ([V32 code, VStr reason], off2) \<Rightarrow>
                 (case cb a c UA_MESSAGETYPE_ERR 0 (ErrorMessage code reason) of
                    (a', c') \<Rightarrow> Done (Next off2 c' a'))
             | _ \<Rightarrow> Done (Stop rv2 c a)))"

text \<open>
  The token identifier and the sequence header of everything but \<open>OPN\<close>, with the channel, whose
  token may have been revolved and whose sequence number goes on; \<open>None\<close> is a failed check.
\<close>

definition check_security ::
  "byte list \<Rightarrow> nat \<Rightarrow> secureChannel \<Rightarrow> (secureChannel \<times> (u32 \<times> nat) option) outcome" where
  "check_security bs off c =
     bind (decode_at UA_TYPES UA_TYPES_UINT32 bs off) (\<lambda>(r1, t). case t of
         Some ([V32 token], off1) \<Rightarrow>
           bind (decode_at UA_TRANSPORT UA_TRANSPORT_SEQUENCEHEADER bs off1) (\<lambda>(r2, h). case h of
               Some ([V32 seqNo, V32 req], off2) \<Rightarrow>
                 if token \<noteq> tokenId (securityToken c) \<and> token \<noteq> tokenId (nextSecurityToken c)
                 then Done (c, None)
                 else let c1 = (if token \<noteq> tokenId (securityToken c) then UA_SecureChannel_revolveTokens c else c);
                          (r3, c2) = UA_SecureChannel_processSequenceNumber c1 seqNo
                   in Done (c2, if r3 \<noteq> GOOD then None else Some (req, off2))
             | _ \<Rightarrow> Done (c, None))
       | _ \<Rightarrow> Done (c, None))"

definition process_content ::
  "'a callback \<Rightarrow> byte list \<Rightarrow> nat \<Rightarrow> nat \<Rightarrow> u32 \<Rightarrow> u32 \<Rightarrow> u32 \<Rightarrow> secureChannel \<Rightarrow> 'a \<Rightarrow> 'a progress" where
  "process_content cb bs initial off typ sz req c a =
     (let len = content_length sz (off - initial);
          next = initial + unat sz
      in if typ AND 0xFF000000 = UA_CHUNKTYPE_INTERMEDIATE then
           Next next (UA_SecureChannel_appendChunk c req bs off len) a
         else if typ AND 0xFF000000 = UA_CHUNKTYPE_FINAL then
           (case UA_SecureChannel_finalizeChunk c req bs off len of
              (message, c1) \<Rightarrow>
                if message = [] then Next next c1 a
                else (case cb a c1 (typ AND 0x00FFFFFF) req (Content message) of
                        (a', c2) \<Rightarrow> Next next c2 a'))
         else if typ AND 0xFF000000 = UA_CHUNKTYPE_ABORT then
           Next next (UA_SecureChannel_removeChunk c req) a
         else Stop BADDECODINGERROR c a)"

text \<open>One round of the loop.\<close>

definition process_chunk ::
  "'a callback \<Rightarrow> byte list \<Rightarrow> nat \<Rightarrow> secureChannel \<Rightarrow> 'a \<Rightarrow> 'a progress outcome" where
  "process_chunk cb bs initial c a =
     bind (is_error_message bs initial) (\<lambda>isErr.
       if isErr then process_error cb bs initial c a
       else bind (decode_at UA_TRANSPORT UA_TRANSPORT_SECURECONVERSATIONMESSAGEHEADER bs initial) (\<lambda>(rv, h).
         case h of
           Some ([VStruct [V32 typ, V32 sz], V32 chan], off) \<Rightarrow>
             if chan \<noteq> channelId (securityToken c) then Done (Stop BADCOMMUNICATIONERROR c a)
             else if typ AND 0x00FFFFFF = UA_MESSAGETYPE_OPN then
               Done (process_content cb bs initial off typ sz 0 c a)
             else bind (check_security bs off c) (\<lambda>(c2, r). case r of
                 None \<Rightarrow> Done (Stop BADCOMMUNICATIONERROR c2 a)
               | Some (req, off2) \<Rightarrow> Done (process_content cb bs initial off2 typ sz req c2 a))
         | _ \<Rightarrow> Done (Stop rv c a)))"

text \<open>The loop, with fuel for its rounds: nothing makes the offset grow from round to round.\<close>

fun processChunks_from ::
  "nat \<Rightarrow> 'a callback \<Rightarrow> byte list \<Rightarrow> nat \<Rightarrow> secureChannel \<Rightarrow> 'a \<Rightarrow> (status \<times> secureChannel \<times> 'a) outcome"
where
  "processChunks_from 0 cb bs off c a = OutOfFuel"
| "processChunks_from (Suc n) cb bs off c a =
     bind (process_chunk cb bs off c a) (\<lambda>p. case p of
         Stop rv c' a' \<Rightarrow> Done (rv, c', a')
       | Next off' c' a' \<Rightarrow>
           if off' < length bs then processChunks_from n cb bs off' c' a' else Done (GOOD, c', a'))"

definition UA_SecureChannel_processChunks ::
  "nat \<Rightarrow> 'a callback \<Rightarrow> byte list \<Rightarrow> secureChannel \<Rightarrow> 'a \<Rightarrow> (status \<times> secureChannel \<times> 'a) outcome" where
  "UA_SecureChannel_processChunks fuel cb bs c a = processChunks_from fuel cb bs 0 c a"

section \<open>Reading the headers of a well-formed chunk\<close>

lemma decode_at_mems:
  assumes "wire_mems UA_TYPES (Suc (Suc (Suc (Suc (Suc 0))))) own (members (own ! i)) vs bs"
    and "drop off src = bs @ suf" and "off \<le> length src"
  shows "decode_at own i src off = Done (GOOD, Some (vs, off + length bs))"
proof -
  have "wire_mems UA_TYPES 5 own (members (own ! i)) vs bs"
    using assms(1) by (simp add: numeral_eq_Suc)
  note r = oreadsD[OF wire_reads(2)[OF this], of suf]
  have "length src = off + length bs + length suf"
    using arg_cong[OF assms(2), of length] assms(3) by simp
  then show ?thesis
    using r assms(2,3) by (simp add: decode_at_def UA_decodeBinary_def UA_decodeBinaryInternal_def)
qed

lemma decode_message_header:
  assumes "drop off src = header_bytes typ sz chan @ suf" "off \<le> length src"
  shows "decode_at UA_TRANSPORT UA_TRANSPORT_SECURECONVERSATIONMESSAGEHEADER src off =
    Done (GOOD, Some ([VStruct [V32 typ, V32 sz], V32 chan], off + 12))"
  using decode_at_mems[OF message_header_mems assms] by (simp add: header_bytes_def)

lemma decode_uint32:
  assumes "drop off src = UA_encode32 w @ suf" "off \<le> length src"
  shows "decode_at UA_TYPES UA_TYPES_UINT32 src off = Done (GOOD, Some ([V32 w], off + 4))"
proof -
  have m: "members (UA_TYPES ! 6) = [one 6]"
    by (simp add: uint32_entry entry_def UInt32_members_def)
  have "wire_mems UA_TYPES (Suc (Suc (Suc (Suc (Suc 0))))) UA_TYPES (members (UA_TYPES ! 6)) [V32 w] (UA_encode32 w)"
    unfolding m using mems_uint32[OF mems_nil] by (simp only: append_Nil2)
  from decode_at_mems[OF this assms] show ?thesis by simp
qed

lemma decode_sequence_header:
  assumes "drop off src = UA_encode32 a @ UA_encode32 b @ suf" "off \<le> length src"
  shows "decode_at UA_TRANSPORT UA_TRANSPORT_SEQUENCEHEADER src off = Done (GOOD, Some ([V32 a, V32 b], off + 8))"
  using decode_at_mems[OF sequence_header_mems, of off src a b suf] assms by simp

lemma drop_bytes:
  "drop off src = xs @ ys \<Longrightarrow> off \<le> length src \<Longrightarrow> length xs = n \<Longrightarrow>
   drop (off + n) src = ys \<and> off + n \<le> length src"
  by (metis add.commute append_eq_conv_conj drop_drop length_append length_drop le_add_diff_inverse
      le_add1 add_le_cancel_left)

text \<open>The token is one the channel knows, and the number is the next one.\<close>

lemma check_security_good:
  assumes "drop off src = security_bytes token seqNo req @ suf" "off \<le> length src"
    and "token = tokenId (securityToken c)" and "seqNo = receiveSequenceNumber c + 1"
  shows "check_security src off c = Done (c\<lparr>receiveSequenceNumber := seqNo\<rparr>, Some (req, off + 12))"
proof -
  have 1: "drop off src = UA_encode32 token @ UA_encode32 seqNo @ UA_encode32 req @ suf"
    using assms(1) by (simp only: security_bytes_def append_assoc)
  note d = drop_bytes[OF this assms(2), of 4]
  show ?thesis
    using d decode_sequence_header[of "off + 4" src seqNo req suf] assms(3,4)
    by (simp add: check_security_def decode_uint32[OF 1 assms(2)] UA_SecureChannel_processSequenceNumber_def)
qed

lemma first_byte:
  fixes w :: u32
  shows "ucast (w AND 0x00FFFFFF) = (ucast w :: byte)"
proof -
  have "w AND 0x00FFFFFF = take_bit 24 w" by (simp add: take_bit_eq_mask mask_eq_exp_minus_1)
  then show ?thesis
    by (simp only:) (intro bit_word_eqI, simp add: bit_simps)
qed

text \<open>A chunk with the headers the channel expects gets to \<open>process_content\<close>.\<close>

lemma process_chunk_headers:
  assumes "drop off src = header_bytes typ sz (channelId (securityToken c)) @
      security_bytes (tokenId (securityToken c)) (receiveSequenceNumber c + 1) req @ suf"
    and "off \<le> length src"
    and "typ AND 0x00FFFFFF = UA_MESSAGETYPE_MSG \<or> typ AND 0x00FFFFFF = UA_MESSAGETYPE_CLO"
  shows "process_chunk cb src off c a =
    Done (process_content cb src off (off + 24) typ sz req
      (c\<lparr>receiveSequenceNumber := receiveSequenceNumber c + 1\<rparr>) a)"
proof -
  let ?chan = "channelId (securityToken c)"
  let ?sec = "security_bytes (tokenId (securityToken c)) (receiveSequenceNumber c + 1) req"
  have l: "length (header_bytes typ sz ?chan) = 12"
    by (simp add: header_bytes_def)
  note d = drop_bytes[OF assms(1,2) l]
  obtain r where "drop off src = ucast typ # r"
    using assms(1) by (simp add: header_bytes_def UA_encode32.simps)
  then have "src ! off = ucast typ" "off < length src"
    by (simp_all add: nth_via_drop) (metis drop_all list.distinct(1) not_less)
  moreover have "(ucast typ :: byte) \<noteq> 69"
    using assms(3) first_byte[of "typ"] by auto
  ultimately have "is_error_message src off = Done False"
    by (simp add: is_error_message_def)
  moreover have "typ AND 0x00FFFFFF \<noteq> UA_MESSAGETYPE_OPN"
    using assms(3) by auto
  ultimately show ?thesis
    using check_security_good[OF d[THEN conjunct1] d[THEN conjunct2] refl refl] decode_message_header[OF assms(1,2)]
    by (simp add: process_chunk_def add.assoc)
qed

end
