(* ===== verification/ChunkTransfer.thy ===== *)
theory ChunkTransfer
  imports ChunkSend ChunkRecv
begin

text \<open>
  The sender and the receiver of chunks together: a message that was sent completely reaches the
  receiver's application exactly once and unchanged, however the chunks are grouped on the way, and
  a message that was aborted never does.
\<close>

section \<open>Receiving the chunks of one message\<close>

text \<open>The received parts are processed one after the other; their statuses are not looked at.\<close>

fun process_all ::
  "nat \<Rightarrow> 'a callback \<Rightarrow> byte list list \<Rightarrow> secureChannel \<Rightarrow> 'a \<Rightarrow> (secureChannel \<times> 'a) outcome" where
  "process_all fuel cb [] c a = Done (c, a)"
| "process_all fuel cb (b # bs) c a =
     bind (UA_SecureChannel_processChunks fuel cb b c a) (\<lambda>(rv, c', a'). process_all fuel cb bs c' a')"

text \<open>The receiver's channel after the first \<open>m\<close> chunks of the message \<open>ks\<close>.\<close>

definition receiving :: "secureChannel \<Rightarrow> u32 \<Rightarrow> sentChunk list \<Rightarrow> nat \<Rightarrow> secureChannel" where
  "receiving c req ks m =
     c\<lparr>receiveSequenceNumber := receiveSequenceNumber c + of_nat m,
       chunks := (if m = 0 then chunks c
                  else \<lparr> crequestId = req, cbytes = concat (map scBody (take m ks)) \<rparr> # chunks c)\<rparr>"

text \<open>What the receiver knows of the sender \<open>cs\<close>, and that no chunk of the request waits already.\<close>

definition expects :: "secureChannel \<Rightarrow> secureChannel \<Rightarrow> u32 \<Rightarrow> bool" where
  "expects c cs req \<longleftrightarrow>
     channelId (securityToken c) = channelId (securityToken cs) \<and>
     tokenId (securityToken c) = tokenId (securityToken cs) \<and>
     receiveSequenceNumber c = sendSequenceNumber cs \<and> find_entry req (chunks c) = None"

lemma receiving_0: "receiving c req ks 0 = c"
  by (simp add: receiving_def)

lemma unat_u32: "n < 2 ^ 32 \<Longrightarrow> unat (of_nat n :: u32) = n"
  by (simp add: unsigned_of_nat take_bit_nat_eq_self)

lemma content_length_chunk:
  "HEADER_LENGTH + n < 2 ^ 32 \<Longrightarrow> content_length (of_nat (HEADER_LENGTH + n)) HEADER_LENGTH = n"
  by (simp add: content_length_def unat_u32 del: of_nat_add)

lemma remove_entry_None: "find_entry r es = None \<Longrightarrow> remove_entry r es = es"
  by (induction es) (auto split: if_splits)

text \<open>One chunk of either kind of message, at its place in the received bytes.\<close>

lemma receive_chunk:
  assumes "chunk_ok cs req m (mt + t) k" "expects c cs req"
    and "drop off src = chunk_bytes k @ suf" "off \<le> length src"
    and "mt = UA_MESSAGETYPE_MSG \<or> mt = UA_MESSAGETYPE_CLO"
    and "t = UA_CHUNKTYPE_INTERMEDIATE \<or> t = UA_CHUNKTYPE_FINAL \<or> t = UA_CHUNKTYPE_ABORT"
  shows "process_chunk cb src off (receiving c req ks m) a =
    Done (process_content cb src off (off + HEADER_LENGTH) (mt + t) (of_nat (HEADER_LENGTH + length (scBody k))) req
      ((receiving c req ks m)\<lparr>receiveSequenceNumber := receiveSequenceNumber c + of_nat (Suc m)\<rparr>) a)"
proof -
  have "(mt + t) AND 0x00FFFFFF = mt" using assms(5,6) by auto
  then have "(mt + t) AND 0x00FFFFFF = UA_MESSAGETYPE_MSG \<or> (mt + t) AND 0x00FFFFFF = UA_MESSAGETYPE_CLO"
    using assms(5) by simp
  moreover have "drop off src = header_bytes (mt + t) (of_nat (HEADER_LENGTH + length (scBody k)))
      (channelId (securityToken (receiving c req ks m))) @
      security_bytes (tokenId (securityToken (receiving c req ks m)))
        (receiveSequenceNumber (receiving c req ks m) + 1) req @ scBody k @ suf"
    using assms(1-3) by (simp add: chunk_ok_def expects_def receiving_def chunk_bytes_def add.assoc)
  moreover have "receiveSequenceNumber (receiving c req ks m) + 1 = receiveSequenceNumber c + of_nat (Suc m)"
    by (simp add: receiving_def)
  ultimately show ?thesis
    using process_chunk_headers[OF _ assms(4)] by metis
qed

lemma chunk_types:
  assumes "mt = UA_MESSAGETYPE_MSG \<or> mt = UA_MESSAGETYPE_CLO"
  shows "(mt + UA_CHUNKTYPE_INTERMEDIATE) AND 0xFF000000 = UA_CHUNKTYPE_INTERMEDIATE"
    "(mt + UA_CHUNKTYPE_FINAL) AND 0xFF000000 = UA_CHUNKTYPE_FINAL"
    "(mt + UA_CHUNKTYPE_ABORT) AND 0xFF000000 = UA_CHUNKTYPE_ABORT"
    "(mt + UA_CHUNKTYPE_FINAL) AND 0x00FFFFFF = mt"
  using assms by auto

lemma chunk_body_at:
  assumes "drop off src = chunk_bytes k @ suf" "off \<le> length src" "chunk_ok cs req m t k"
  shows "take (length (scBody k)) (drop (off + HEADER_LENGTH) src) = scBody k"
    and "length (scBody k) \<le> length src - (off + HEADER_LENGTH)"
proof -
  have "drop off src = scHead k @ (scBody k @ suf)" "length (scHead k) = HEADER_LENGTH"
    using assms(1,3) by (simp_all add: chunk_bytes_def chunk_ok_def header_bytes_def security_bytes_def)
  from drop_bytes[OF this(1) assms(2) this(2)]
  have d: "drop (off + HEADER_LENGTH) src = scBody k @ suf" by blast
  then show "take (length (scBody k)) (drop (off + HEADER_LENGTH) src) = scBody k" by simp
  show "length (scBody k) \<le> length src - (off + HEADER_LENGTH)"
    using arg_cong[OF d, of length] by simp
qed

lemma receive_intermediate:
  assumes "chunk_ok cs req m (mt + UA_CHUNKTYPE_INTERMEDIATE) (ks ! m)" "m < length ks" "expects c cs req"
    and "drop off src = chunk_bytes (ks ! m) @ suf" "off \<le> length src"
    and "mt = UA_MESSAGETYPE_MSG \<or> mt = UA_MESSAGETYPE_CLO"
    and "HEADER_LENGTH + length (scBody (ks ! m)) < 2 ^ 32"
  shows "process_chunk cb src off (receiving c req ks m) a =
    Done (Next (off + length (chunk_bytes (ks ! m))) (receiving c req ks (Suc m)) a)"
proof -
  note body = chunk_body_at[OF assms(4,5,1)]
  have n: "unat (of_nat (HEADER_LENGTH + length (scBody (ks ! m))) :: u32) = HEADER_LENGTH + length (scBody (ks ! m))"
    using assms(7) by (rule unat_u32)
  have t: "take (Suc m) ks = take m ks @ [ks ! m]" using assms(2) by (rule take_Suc_conv_app_nth)
  have app: "UA_SecureChannel_appendChunk ((receiving c req ks m)\<lparr>receiveSequenceNumber :=
        receiveSequenceNumber c + of_nat (Suc m)\<rparr>) req src (off + HEADER_LENGTH) (length (scBody (ks ! m))) =
      receiving c req ks (Suc m)"
    using body assms(3) t
    by (cases "m = 0") (simp_all add: UA_SecureChannel_appendChunk_def receiving_def expects_def)
  show ?thesis
    unfolding receive_chunk[OF assms(1,3,4,5,6) disjI1[OF refl]] process_content_def Let_def
      chunk_types[OF assms(6)] add_diff_cancel_left' content_length_chunk[OF assms(7)] n app
      chunk_ok_length[OF assms(1)]
    by simp
qed

lemma finalize_receiving:
  "find_entry req (chunks c) = None \<Longrightarrow> length bs \<le> length src - off \<Longrightarrow> take (length bs) (drop off src) = bs \<Longrightarrow>
   UA_SecureChannel_finalizeChunk ((receiving c req ks m)\<lparr>receiveSequenceNumber := x\<rparr>) req src off (length bs) =
     (concat (map scBody (take m ks)) @ bs, c\<lparr>receiveSequenceNumber := x\<rparr>)"
  by (cases "m = 0") (simp_all add: UA_SecureChannel_finalizeChunk_def receiving_def UA_SecureChannel_removeChunk_def)

lemma remove_receiving:
  "find_entry req (chunks c) = None \<Longrightarrow>
   UA_SecureChannel_removeChunk ((receiving c req ks m)\<lparr>receiveSequenceNumber := x\<rparr>) req = c\<lparr>receiveSequenceNumber := x\<rparr>"
  by (cases "m = 0") (simp_all add: receiving_def UA_SecureChannel_removeChunk_def remove_entry_None)

lemma receive_final:
  assumes "chunk_ok cs req m (mt + UA_CHUNKTYPE_FINAL) (ks ! m)" "Suc m = length ks" "expects c cs req"
    and "drop off src = chunk_bytes (ks ! m) @ suf" "off \<le> length src"
    and "mt = UA_MESSAGETYPE_MSG \<or> mt = UA_MESSAGETYPE_CLO"
    and "HEADER_LENGTH + length (scBody (ks ! m)) < 2 ^ 32" and "concat (map scBody ks) \<noteq> []"
  shows "process_chunk cb src off (receiving c req ks m) a =
    (case cb a (c\<lparr>receiveSequenceNumber := receiveSequenceNumber c + of_nat (length ks)\<rparr>) mt req
        (Content (concat (map scBody ks))) of
       (a', c') \<Rightarrow> Done (Next (off + length (chunk_bytes (ks ! m))) c' a'))"
proof -
  note body = chunk_body_at[OF assms(4,5,1)]
  have n: "unat (of_nat (HEADER_LENGTH + length (scBody (ks ! m))) :: u32) = HEADER_LENGTH + length (scBody (ks ! m))"
    using assms(7) by (rule unat_u32)
  have "take m ks @ [ks ! m] = ks"
    using assms(2) take_Suc_conv_app_nth[of m ks] by simp
  then have "concat (map scBody (take m ks @ [ks ! m])) = concat (map scBody ks)"
    by (simp only:)
  then have all: "concat (map scBody (take m ks)) @ scBody (ks ! m) = concat (map scBody ks)"
    by simp
  have fin: "UA_SecureChannel_finalizeChunk ((receiving c req ks m)\<lparr>receiveSequenceNumber :=
        receiveSequenceNumber c + of_nat (Suc m)\<rparr>) req src (off + HEADER_LENGTH) (length (scBody (ks ! m))) =
      (concat (map scBody ks), c\<lparr>receiveSequenceNumber := receiveSequenceNumber c + of_nat (length ks)\<rparr>)"
    using finalize_receiving[OF _ body(2,1)] assms(3) all
    by (simp only: expects_def assms(2))
  show ?thesis
    unfolding receive_chunk[OF assms(1,3,4,5,6) disjI2[OF disjI1[OF refl]]] process_content_def Let_def
      chunk_types[OF assms(6)] add_diff_cancel_left' content_length_chunk[OF assms(7)] n fin
      chunk_ok_length[OF assms(1)]
    using assms(8) by (simp del: concat_eq_Nil_conv split: prod.split)
qed

lemma receive_abort:
  assumes "chunk_ok cs req m (mt + UA_CHUNKTYPE_ABORT) (ks ! m)" "Suc m = length ks" "expects c cs req"
    and "drop off src = chunk_bytes (ks ! m) @ suf" "off \<le> length src"
    and "mt = UA_MESSAGETYPE_MSG \<or> mt = UA_MESSAGETYPE_CLO"
    and "HEADER_LENGTH + length (scBody (ks ! m)) < 2 ^ 32"
  shows "process_chunk cb src off (receiving c req ks m) a =
    Done (Next (off + length (chunk_bytes (ks ! m)))
      (c\<lparr>receiveSequenceNumber := receiveSequenceNumber c + of_nat (length ks)\<rparr>) a)"
proof -
  have n: "unat (of_nat (HEADER_LENGTH + length (scBody (ks ! m))) :: u32) = HEADER_LENGTH + length (scBody (ks ! m))"
    using assms(7) by (rule unat_u32)
  have "UA_SecureChannel_removeChunk ((receiving c req ks m)\<lparr>receiveSequenceNumber :=
        receiveSequenceNumber c + of_nat (Suc m)\<rparr>) req =
      c\<lparr>receiveSequenceNumber := receiveSequenceNumber c + of_nat (length ks)\<rparr>"
    using remove_receiving assms(3) by (simp only: expects_def assms(2))
  note rem = this
  show ?thesis
    unfolding receive_chunk[OF assms(1,3,4,5,6) disjI2[OF disjI2[OF refl]]] process_content_def Let_def
      chunk_types[OF assms(6)] n rem chunk_ok_length[OF assms(1)]
    by simp
qed

section \<open>Groups of chunks\<close>

text \<open>The bytes of a group of chunks that arrive together.\<close>

definition group_bytes :: "sentChunk list \<Rightarrow> byte list" where
  "group_bytes ks = concat (map chunk_bytes ks)"

lemma chunk_bytes_nonempty: "chunk_ok cs req m t k \<Longrightarrow> chunk_bytes k \<noteq> []"
  using chunk_ok_length[of cs req m t k] by auto

definition message_chunks :: "secureChannel \<Rightarrow> u32 \<Rightarrow> u32 \<Rightarrow> u32 \<Rightarrow> sentChunk list \<Rightarrow> bool" where
  "message_chunks cs req mt lt ks \<longleftrightarrow>
     (mt = UA_MESSAGETYPE_MSG \<or> mt = UA_MESSAGETYPE_CLO) \<and> ks \<noteq> [] \<and>
     chunks_ok cs req (replicate (length ks - 1) (mt + UA_CHUNKTYPE_INTERMEDIATE) @ [mt + lt]) ks \<and>
     list_all (\<lambda>k. HEADER_LENGTH + length (scBody k) < 2 ^ 32) ks"

lemma message_chunks_nth:
  assumes "message_chunks cs req mt lt ks" "m < length ks"
  shows "chunk_ok cs req m (mt + (if Suc m = length ks then lt else UA_CHUNKTYPE_INTERMEDIATE)) (ks ! m)"
    and "HEADER_LENGTH + length (scBody (ks ! m)) < 2 ^ 32"
proof -
  have "chunk_ok cs req m ((replicate (length ks - 1) (mt + UA_CHUNKTYPE_INTERMEDIATE) @ [mt + lt]) ! m) (ks ! m)"
    using assms unfolding message_chunks_def chunks_ok_def by blast
  moreover have "(replicate (length ks - 1) (mt + UA_CHUNKTYPE_INTERMEDIATE) @ [mt + lt]) ! m =
      mt + (if Suc m = length ks then lt else UA_CHUNKTYPE_INTERMEDIATE)"
  proof -
    have "(m < length ks - Suc 0) = (Suc m \<noteq> length ks)" using assms(2) by auto
    then show ?thesis
      using assms(2) by (cases "Suc m = length ks") (auto simp: nth_append)
  qed
  ultimately show "chunk_ok cs req m (mt + (if Suc m = length ks then lt else UA_CHUNKTYPE_INTERMEDIATE)) (ks ! m)"
    by simp
  show "HEADER_LENGTH + length (scBody (ks ! m)) < 2 ^ 32"
    using assms by (simp add: message_chunks_def list_all_length)
qed

text \<open>All chunks of a group but the last chunk of the message.\<close>

lemma process_prefix:
  assumes "message_chunks cs req mt lt ks" "expects c cs req"
    and "m + length g < length ks" "g = take (length g) (drop m ks)"
    and "drop off src = group_bytes g @ suf" "off \<le> length src" "g \<noteq> []"
  shows "processChunks_from (length g + n) cb src off (receiving c req ks m) a =
    (if suf = [] then Done (GOOD, receiving c req ks (m + length g), a)
     else processChunks_from n cb src (off + length (group_bytes g)) (receiving c req ks (m + length g)) a)"
  using assms(3-)
proof (induction g arbitrary: m off)
  case Nil
  then show ?case by simp
next
  case (Cons k g)
  have m: "m < length ks" "Suc m \<noteq> length ks" using Cons.prems(1) by auto
  have g: "drop m ks = ks ! m # drop (Suc m) ks" using m(1) by (simp add: Cons_nth_drop_Suc)
  then have k: "k = ks ! m" "g = take (length g) (drop (Suc m) ks)"
    using Cons.prems(2) by auto
  have mt: "mt = UA_MESSAGETYPE_MSG \<or> mt = UA_MESSAGETYPE_CLO"
    using assms(1) by (simp add: message_chunks_def)
  have ok: "chunk_ok cs req m (mt + UA_CHUNKTYPE_INTERMEDIATE) (ks ! m)"
    using message_chunks_nth(1)[OF assms(1) m(1)] m(2) by simp
  have d: "drop off src = chunk_bytes (ks ! m) @ (group_bytes g @ suf)"
    using Cons.prems(3) k(1) by (simp add: group_bytes_def)
  note step = receive_intermediate[OF ok m(1) assms(2) d Cons.prems(4) mt message_chunks_nth(2)[OF assms(1) m(1)],
      of cb a]
  note d2 = drop_bytes[OF d Cons.prems(4) refl]
  have more: "(off + length (chunk_bytes (ks ! m)) < length src) = (g \<noteq> [] \<or> suf \<noteq> [])"
  proof -
    have "length (group_bytes g @ suf) = length src - (off + length (chunk_bytes (ks ! m)))"
      using arg_cong[OF d2[THEN conjunct1], of length] by simp
    then have "(off + length (chunk_bytes (ks ! m)) < length src) = (0 < length (group_bytes g @ suf))"
      by (simp only: zero_less_diff)
    moreover have "g \<noteq> [] \<Longrightarrow> group_bytes g \<noteq> []"
    proof -
      assume "g \<noteq> []"
      then have "Suc m < length ks" "hd g = ks ! Suc m"
        using Cons.prems(1) k(2) by (cases g; auto simp: hd_drop_conv_nth hd_conv_nth)+
      then show ?thesis
        using chunk_bytes_nonempty[OF message_chunks_nth(1)[OF assms(1)]] \<open>g \<noteq> []\<close>
        by (cases g) (auto simp: group_bytes_def)
    qed
    ultimately show ?thesis
      by (cases "g = []") (auto simp: group_bytes_def)
  qed
  show ?case
  proof (cases "g = []")
    case True
    then show ?thesis using step more k(1) by (simp add: group_bytes_def)
  next
    case False
    from Cons.IH[OF _ k(2) d2[THEN conjunct1] d2[THEN conjunct2] False] Cons.prems(1) step more False k(1)
    show ?thesis by (simp add: group_bytes_def add.assoc)
  qed
qed

text \<open>What has happened when all chunks were processed.\<close>

definition received ::
  "'a callback \<Rightarrow> secureChannel \<Rightarrow> u32 \<Rightarrow> u32 \<Rightarrow> u32 \<Rightarrow> sentChunk list \<Rightarrow> 'a \<Rightarrow> secureChannel \<times> 'a" where
  "received cb c req mt lt ks a =
     (let c' = c\<lparr>receiveSequenceNumber := receiveSequenceNumber c + of_nat (length ks)\<rparr>
      in if lt = UA_CHUNKTYPE_FINAL
         then (case cb a c' mt req (Content (concat (map scBody ks))) of (a', c2) \<Rightarrow> (c2, a'))
         else (c', a))"

lemma process_last:
  assumes "message_chunks cs req mt lt ks" "expects c cs req" "Suc m = length ks"
    and "lt = UA_CHUNKTYPE_FINAL \<and> concat (map scBody ks) \<noteq> [] \<or> lt = UA_CHUNKTYPE_ABORT"
    and "drop off src = chunk_bytes (ks ! m)" "off \<le> length src"
  shows "processChunks_from (Suc n) cb src off (receiving c req ks m) a =
    (case received cb c req mt lt ks a of (c', a') \<Rightarrow> Done (GOOD, c', a'))"
proof -
  have m: "m < length ks" using assms(3) by simp
  have mt: "mt = UA_MESSAGETYPE_MSG \<or> mt = UA_MESSAGETYPE_CLO"
    using assms(1) by (simp add: message_chunks_def)
  have ok: "chunk_ok cs req m (mt + lt) (ks ! m)"
    using message_chunks_nth(1)[OF assms(1) m] assms(3) by simp
  note sz = message_chunks_nth(2)[OF assms(1) m]
  have d: "drop off src = chunk_bytes (ks ! m) @ []" using assms(5) by simp
  have l: "off + length (chunk_bytes (ks ! m)) = length src"
    using arg_cong[OF assms(5), of length] assms(6) by simp
  show ?thesis
  proof (cases "lt = UA_CHUNKTYPE_FINAL")
    case True
    then have ne: "concat (map scBody ks) \<noteq> []" using assms(4) by auto
    show ?thesis
      using receive_final[OF ok[unfolded True] assms(3,2) d assms(6) mt sz ne, of cb a] l True
      by (simp add: received_def Let_def split: prod.splits)
  next
    case False
    then have lt: "lt = UA_CHUNKTYPE_ABORT" using assms(4) by blast
    show ?thesis
      using receive_abort[OF ok[unfolded lt] assms(3,2) d assms(6) mt sz, of cb a] l lt
      by (simp add: received_def Let_def)
  qed
qed

lemma process_last_group:
  assumes "message_chunks cs req mt lt ks" "expects c cs req" "m < length ks" "g = drop m ks"
    and "lt = UA_CHUNKTYPE_FINAL \<and> concat (map scBody ks) \<noteq> [] \<or> lt = UA_CHUNKTYPE_ABORT"
    and "length g \<le> fuel"
  shows "UA_SecureChannel_processChunks fuel cb (group_bytes g) (receiving c req ks m) a =
    (case received cb c req mt lt ks a of (c', a') \<Rightarrow> Done (GOOD, c', a'))"
proof -
  let ?z = "length ks - 1"
  have z: "Suc ?z = length ks" using assms(3) by simp
  have g: "g = butlast g @ [ks ! ?z]"
    using assms(3,4) by (metis append_butlast_last_id drop_eq_Nil2 last_conv_nth last_drop length_0_conv not_le
        not_less_zero)
  have n: "length g = Suc (length (butlast g))" using g by (metis length_append_singleton)
  then have len: "m + length (butlast g) = ?z" using assms(3,4) by simp
  obtain k where fuel: "fuel = length (butlast g) + Suc k"
    using assms(6) n by (metis add_Suc_right add_Suc le_Suc_ex)
  show ?thesis
  proof (cases "butlast g = []")
    case True
    then have "g = [ks ! ?z]" "m = ?z" using g len by simp_all
    then show ?thesis
      using process_last[OF assms(1,2) z assms(5), of 0 "group_bytes g"] fuel True
      by (simp add: UA_SecureChannel_processChunks_def group_bytes_def)
  next
    case False
    have gb: "group_bytes g = group_bytes (butlast g) @ chunk_bytes (ks ! ?z)"
      by (subst g) (simp add: group_bytes_def)
    have ne: "chunk_bytes (ks ! ?z) \<noteq> []"
      using chunk_bytes_nonempty[OF message_chunks_nth(1)[OF assms(1)]] z by simp
    have take: "butlast g = take (length (butlast g)) (drop m ks)"
      using assms(4) by (simp add: butlast_conv_take)
    have short: "m + length (butlast g) < length ks" using len z by simp
    have "drop 0 (group_bytes g) = group_bytes (butlast g) @ chunk_bytes (ks ! ?z)"
      using gb by simp
    from process_prefix[OF assms(1,2) short take this le0 False, of "Suc k" cb a] ne
    have "UA_SecureChannel_processChunks fuel cb (group_bytes g) (receiving c req ks m) a =
        processChunks_from (Suc k) cb (group_bytes g) (length (group_bytes (butlast g))) (receiving c req ks ?z) a"
      by (simp only: UA_SecureChannel_processChunks_def fuel if_False add_0 len)
    also have "\<dots> = (case received cb c req mt lt ks a of (c', a') \<Rightarrow> Done (GOOD, c', a'))"
      by (rule process_last[OF assms(1,2) z assms(5)]) (simp_all add: gb)
    finally show ?thesis .
  qed
qed

lemma process_middle_group:
  assumes "message_chunks cs req mt lt ks" "expects c cs req"
    and "m + length g < length ks" "g = take (length g) (drop m ks)" "length g \<le> fuel" "g \<noteq> []"
  shows "UA_SecureChannel_processChunks fuel cb (group_bytes g) (receiving c req ks m) a =
    Done (GOOD, receiving c req ks (m + length g), a)"
proof -
  obtain k where "fuel = length g + k" using assms(5) by (metis le_Suc_ex)
  then show ?thesis
    using process_prefix[OF assms(1-4), of 0 "group_bytes g" "[]" k cb a] assms(6)
    by (simp add: UA_SecureChannel_processChunks_def)
qed

lemma process_groups:
  assumes "message_chunks cs req mt lt ks" "expects c cs req"
    and "lt = UA_CHUNKTYPE_FINAL \<and> concat (map scBody ks) \<noteq> [] \<or> lt = UA_CHUNKTYPE_ABORT"
    and "length ks \<le> fuel" "m < length ks" "concat gs = drop m ks" "[] \<notin> set gs"
  shows "process_all fuel cb (map group_bytes gs) (receiving c req ks m) a = Done (received cb c req mt lt ks a)"
  using assms(5-)
proof (induction gs arbitrary: m)
  case Nil
  then show ?case by simp
next
  case (Cons g gs)
  show ?case
  proof (cases "gs = []")
    case True
    then have "g = drop m ks" "length g \<le> fuel" using Cons.prems(2) assms(4) by simp_all
    from process_last_group[OF assms(1,2) Cons.prems(1) this(1) assms(3) this(2), of cb a] True show ?thesis
      by (cases "received cb c req mt lt ks a") simp
  next
    case False
    then have "concat gs \<noteq> []" using Cons.prems(3) by (cases gs) auto
    moreover have split: "drop m ks = g @ concat gs" using Cons.prems(2) by simp
    ultimately have lt: "m + length g < length ks"
      by (metis add.commute drop_drop drop_eq_Nil2 append_eq_conv_conj not_le)
    have "drop (m + length g) ks = drop (length g) (drop m ks)" by (simp add: add.commute)
    then have g: "g = take (length g) (drop m ks)" "concat gs = drop (m + length g) ks"
      using split by simp_all
    have "length g \<le> fuel" using lt assms(4) by simp
    moreover have "g \<noteq> []" using Cons.prems(3) by auto
    ultimately have "UA_SecureChannel_processChunks fuel cb (group_bytes g) (receiving c req ks m) a =
        Done (GOOD, receiving c req ks (m + length g), a)"
      by (rule process_middle_group[OF assms(1,2) lt g(1)])
    with Cons.IH[OF lt g(2)] Cons.prems(3) show ?thesis by simp
  qed
qed

text \<open>
  C4. Sender and receiver agree: whatever becomes of a message on the sender's side, processing what
  was sent, in any grouping of the chunks, calls the receiver's application exactly once with the
  whole content when the sender reports \<open>GOOD\<close>, and not at all otherwise, and leaves no chunk behind.
\<close>

theorem message_delivered:
  assumes "send_message gb conns fuel n own d v req cs p = Done (rv, s)"
    and "cconnection cs = Some a" and "sent s \<noteq> []" and "31 \<le> unat (sendBufferSize (localConf (conns a)))"
    and "message_type_of (binaryEncodingId d) \<noteq> UA_MESSAGETYPE_OPN"
    and "expects c cs req" and "concat gs = sent s" and "[] \<notin> set gs" and "length (sent s) \<le> rounds"
    and "concat (map scBody (sent s)) \<noteq> []"
    and "list_all (\<lambda>k. length (chunk_bytes k) < 2 ^ 32) (sent s)"
  shows "process_all rounds cb (map group_bytes gs) c app = Done
    (let c' = c\<lparr>receiveSequenceNumber := receiveSequenceNumber c + of_nat (length (sent s))\<rparr>
     in if rv = GOOD
        then (case cb app c' (message_type_of (binaryEncodingId d)) req (Content (concat (map scBody (sent s)))) of
                (app', c2) \<Rightarrow> (c2, app'))
        else (c', app))"
proof -
  let ?mt = "message_type_of (binaryEncodingId d)"
  let ?lt = "if rv = GOOD then UA_CHUNKTYPE_FINAL else UA_CHUNKTYPE_ABORT"
  obtain m where m: "chunks_ok cs req (replicate m (?mt + UA_CHUNKTYPE_INTERMEDIATE) @ [?mt + ?lt]) (sent s)"
    using message_ends[OF assms(1,2) disjI1[OF assms(3)] assms(4)] by blast
  then have len: "length (sent s) = Suc m" by (simp add: chunks_ok_def)
  have "message_chunks cs req ?mt ?lt (sent s)"
    using m len assms(3,5,11) chunks_ok_length[OF m]
    by (auto simp: message_chunks_def message_type_of_def list_all_iff split: if_splits)
  from process_groups[OF this assms(6) _ assms(9), of 0 gs cb app] assms(3,7,8,10)
  show ?thesis
    by (auto simp: receiving_0 received_def Let_def split: if_splits)
qed

text \<open>An application that records the messages it gets.\<close>

definition recorder :: "(u32 \<times> u32 \<times> uaMessage) list callback" where
  "recorder app c t r m = ((t, r, m) # app, c)"

theorem message_delivered_witness:
  "\<exists>s. send_message (\<lambda>_ p. (GOOD, p)) plain_connection 0 2 UA_TYPES (UA_TYPES ! 69) read_item 7 open_channel () =
      Done (GOOD, s) \<and>
    process_all 1 recorder (map chunk_bytes (sent s)) open_channel [] =
      Done (open_channel\<lparr>receiveSequenceNumber := 1\<rparr>,
        [(UA_MESSAGETYPE_MSG, 7, Content (nodeid_bytes 0 (encoding_id (UA_TYPES ! 69)) @ read_item_bytes))])"
proof -
  obtain s k where s: "send_message (\<lambda>_ p. (GOOD, p)) plain_connection 0 2 UA_TYPES (UA_TYPES ! 69) read_item 7
      open_channel () = Done (GOOD, s)" "sent s = [k]"
      "scBody k = nodeid_bytes 0 (encoding_id (UA_TYPES ! 69)) @ read_item_bytes"
    using read_item_sent by blast
  have c: "cconnection open_channel = Some 0" by (simp add: open_channel_def)
  have mt: "message_type_of (binaryEncodingId (UA_TYPES ! 69)) = UA_MESSAGETYPE_MSG"
    by (simp add: item_entries entry_def message_type_of_def)
  obtain ts where ts: "chunks_ok open_channel 7 ts (sent s)"
    using message_ends[OF s(1) c] by (auto simp: plain_connection_def UA_ConnectionConfig_standard_def)
  have e: "expects open_channel open_channel 7" "receiveSequenceNumber open_channel = 0"
    by (simp_all add: expects_def open_channel_def UA_SecureChannel_init_def)
  have sz: "length (nodeid_bytes 0 (encoding_id (UA_TYPES ! 69))) \<le> 7" by (rule nodeid_numeric_length)
  have "list_all (\<lambda>k. length (chunk_bytes k) < 2 ^ 32) (sent s)"
    using chunks_ok_length[OF ts, of k] s(2,3) sz by (simp add: read_item_bytes_def)
  moreover have "concat (map scBody (sent s)) \<noteq> []"
    using s(2,3) by (simp add: read_item_bytes_def)
  ultimately have "process_all 1 recorder (map group_bytes [[k]]) open_channel [] = Done
      (let c' = open_channel\<lparr>receiveSequenceNumber := receiveSequenceNumber open_channel + of_nat (length (sent s))\<rparr>
       in if GOOD = GOOD
          then (case recorder [] c' (message_type_of (binaryEncodingId (UA_TYPES ! 69))) 7
                  (Content (concat (map scBody (sent s)))) of (app', c2) \<Rightarrow> (c2, app'))
          else (c', []))"
    using s(2) e(1) mt
    by (intro message_delivered[OF s(1) c]) (simp_all add: plain_connection_def UA_ConnectionConfig_standard_def)
  then show ?thesis
    using s e(2) mt by (simp add: group_bytes_def recorder_def)
qed

section \<open>Checks of the receiver\<close>

text \<open>
  C27. A sequence number is accepted when it is the next one or, near the end of the range, when it
  starts over below 1024; the channel then stands at that number, and a chunk with the same number
  is refused, so that a chunk cannot be replayed.
\<close>

theorem sequence_number_accepted:
  "fst (UA_SecureChannel_processSequenceNumber c n) =
     (if n = receiveSequenceNumber c + 1 \<or> 4294966271 < receiveSequenceNumber c + 1 \<and> n < 1024
      then GOOD else BADSECURITYCHECKSFAILED) \<and>
   snd (UA_SecureChannel_processSequenceNumber c n) =
     (if fst (UA_SecureChannel_processSequenceNumber c n) = GOOD then c\<lparr>receiveSequenceNumber := n\<rparr> else c) \<and>
   UA_SecureChannel_processSequenceNumber (c\<lparr>receiveSequenceNumber := n\<rparr>) n =
     (BADSECURITYCHECKSFAILED, c\<lparr>receiveSequenceNumber := n\<rparr>)"
proof -
  have "\<not> (4294966271 < n + 1 \<and> n < 1024)"
  proof
    assume a: "4294966271 < n + 1 \<and> n < 1024"
    then have "unat n < 1024" by (simp add: word_less_nat_alt)
    then have "unat (n + 1) = unat n + 1" by (simp add: unat_word_ariths)
    with a \<open>unat n < 1024\<close> show False by (simp add: word_less_nat_alt)
  qed
  then show ?thesis
    by (auto simp: UA_SecureChannel_processSequenceNumber_def)
qed

text \<open>
  Token zero always passes: when no new token has been issued, the identifier of the next token
  is zero, and a chunk that names the token zero is accepted on any channel.
\<close>

theorem token_zero_accepted:
  assumes "tokenId (nextSecurityToken c) = 0"
  shows "check_security (security_bytes 0 (receiveSequenceNumber c + 1) req) 0 c =
    Done (c\<lparr>receiveSequenceNumber := receiveSequenceNumber c + 1\<rparr>, Some (req, 12))"
proof -
  have 1: "drop 0 (security_bytes 0 (receiveSequenceNumber c + 1) req) =
      UA_encode32 0 @ UA_encode32 (receiveSequenceNumber c + 1) @ UA_encode32 req @ []"
    by (simp add: security_bytes_def)
  have 2: "drop 4 (security_bytes 0 (receiveSequenceNumber c + 1) req) =
      UA_encode32 (receiveSequenceNumber c + 1) @ UA_encode32 req @ []"
    "4 \<le> length (security_bytes 0 (receiveSequenceNumber c + 1) req)"
    by (simp_all add: security_bytes_def)
  show ?thesis
    using assms
    by (simp add: check_security_def decode_uint32[OF 1] decode_sequence_header[OF 2]
        UA_SecureChannel_revolveTokens_def UA_SecureChannel_processSequenceNumber_def)
qed

theorem token_zero_accepted_witness:
  "tokenId (securityToken open_channel) = 1 \<and>
   check_security (security_bytes 0 1 9) 0 open_channel = Done (open_channel\<lparr>receiveSequenceNumber := 1\<rparr>, Some (9, 12))"
  using token_zero_accepted[of open_channel 9]
  by (simp add: open_channel_def UA_SecureChannel_init_def token_init_def)

lemma size_zero_round:
  assumes "channelId (securityToken c) = i"
  shows "process_chunk cb (header_bytes (UA_MESSAGETYPE_OPN + UA_CHUNKTYPE_FINAL) 0 i) 0 c a =
    Done (Next 0 (UA_SecureChannel_removeChunk c 0) a)"
proof -
  define w where "w = UA_MESSAGETYPE_OPN + UA_CHUNKTYPE_FINAL"
  let ?src = "header_bytes w 0 i"
  have h: "decode_at UA_TRANSPORT UA_TRANSPORT_SECURECONVERSATIONMESSAGEHEADER ?src 0 =
      Done (GOOD, Some ([VStruct [V32 w, V32 0], V32 i], 0 + 12))"
    by (rule decode_message_header[of 0 _ _ _ _ "[]"]) simp_all
  have l: "length ?src = 12" by (simp add: header_bytes_def)
  have w: "w AND 0x00FFFFFF = UA_MESSAGETYPE_OPN" "w AND 0xFF000000 = UA_CHUNKTYPE_FINAL" "ucast w = (0x4F :: byte)"
    by (simp_all add: w_def)
  have "?src ! 0 = 0x4F" using w(3) by (simp add: header_bytes_def UA_encode32.simps)
  then have e: "is_error_message ?src 0 = Done False"
    using l by (simp add: is_error_message_def)
  have "process_chunk cb ?src 0 c a = Done (Next 0 (UA_SecureChannel_removeChunk c 0) a)"
    using assms l
    by (simp add: process_chunk_def e h process_content_def Let_def content_length_def
        UA_SecureChannel_finalizeChunk_def w)
  then show ?thesis by (simp only: w_def)
qed

lemma removeChunk_id: "securityToken (UA_SecureChannel_removeChunk c r) = securityToken c"
  by (simp add: UA_SecureChannel_removeChunk_def)

text \<open>
  A twelve-byte message hangs the receiver: an \<open>OPN\<close> chunk of size zero skips the security
  checks, and after it the offset is where it was, so that no number of rounds is enough.
\<close>

theorem size_zero_loops:
  "UA_SecureChannel_processChunks rounds cb
     (header_bytes (UA_MESSAGETYPE_OPN + UA_CHUNKTYPE_FINAL) 0 (channelId (securityToken c))) c a = OutOfFuel"
proof -
  define src where "src = header_bytes (UA_MESSAGETYPE_OPN + UA_CHUNKTYPE_FINAL) 0 (channelId (securityToken c))"
  have "length src = 12" by (simp add: src_def header_bytes_def)
  moreover have "process_chunk cb src 0 c' a = Done (Next 0 (UA_SecureChannel_removeChunk c' 0) a)"
    if "securityToken c' = securityToken c" for c'
    unfolding src_def using that by (intro size_zero_round) simp
  ultimately have "processChunks_from rounds cb src 0 c' a = OutOfFuel" if "securityToken c' = securityToken c" for c'
    using that by (induction rounds arbitrary: c') (simp_all add: removeChunk_id)
  then show ?thesis by (simp add: UA_SecureChannel_processChunks_def src_def)
qed

end
