(* ===== verification/Managers.thy ===== *)
theory Managers
  imports SecureChannel
begin

text \<open>
  The managers of secure channels and sessions (\<open>ua_securechannel_manager.c\<close>,
  \<open>ua_session_manager.c\<close>), the operations that tie a channel to its connection and to its sessions
  (\<open>ua_connection.c\<close>, \<open>ua_securechannel.c\<close>, \<open>ua_session.c\<close>) and the login
  (\<open>Service_ActivateSession\<close>).

  Connections, channels and sessions are objects in a store: an address that is not in its domain
  is not allocated, or was freed, and an access through it is \<open>Undefined\<close>.  \<open>malloc\<close> is an
  argument: the address it returns, or none.  The clocks are arguments too.
\<close>

section \<open>Configuration and state\<close>

record serverConfig =
  enableAnonymousLogin :: bool
  enableUsernamePasswordLogin :: bool
  usernamePasswordLogins :: "(ustring \<times> ustring) list"
  maxSecureChannels :: u16
  maxSecurityTokenLifetime :: u32
  maxSessions :: u16
  maxSessionTimeout :: u64

text \<open>The maximal session timeout is the double \<open>3600000.0\<close>.\<close>

definition UA_ServerConfig_standard :: serverConfig where
  "UA_ServerConfig_standard = \<lparr> enableAnonymousLogin = True, enableUsernamePasswordLogin = True,
     usernamePasswordLogins = [(Some (str ''user1''), Some (str ''password'')),
                               (Some (str ''user2''), Some (str ''password1''))],
     maxSecureChannels = 40, maxSecurityTokenLifetime = 600000, maxSessions = 100,
     maxSessionTimeout = 0x414B774000000000 \<rparr>"

record session =
  activated :: bool
  authenticationToken :: nodeid
  sessionId :: nodeid
  maxRequestMessageSize :: u32
  maxResponseMessageSize :: u32
  timeout :: u64
  validTill :: int
  schannel :: "nat option"

definition UA_Session_init :: session where
  "UA_Session_init = \<lparr> activated = False, authenticationToken = UA_NODEID_NULL, sessionId = UA_NODEID_NULL,
     maxRequestMessageSize = 0, maxResponseMessageSize = 0, timeout = 0, validTill = 0, schannel = None \<rparr>"

record server =
  conns :: "nat \<Rightarrow> connection option"
  chans :: "nat \<Rightarrow> secureChannel option"
  sess :: "nat \<Rightarrow> session option"
  channels :: "nat list"
  lastChannelId :: u32
  lastTokenId :: u32
  currentChannelCount :: u32
  sessions :: "nat list"
  currentSessionCount :: u32

definition deref :: "(nat \<Rightarrow> 'a option) \<Rightarrow> nat \<Rightarrow> 'a outcome" where
  "deref h a = (case h a of None \<Rightarrow> Undefined | Some x \<Rightarrow> Done x)"

definition put_conn :: "nat \<Rightarrow> connection \<Rightarrow> server \<Rightarrow> server" where
  "put_conn a x s = s\<lparr>conns := (conns s)(a \<mapsto> x)\<rparr>"

definition put_chan :: "nat \<Rightarrow> secureChannel \<Rightarrow> server \<Rightarrow> server" where
  "put_chan a x s = s\<lparr>chans := (chans s)(a \<mapsto> x)\<rparr>"

definition put_sess :: "nat \<Rightarrow> session \<Rightarrow> server \<Rightarrow> server" where
  "put_sess a x s = s\<lparr>sess := (sess s)(a \<mapsto> x)\<rparr>"

text \<open>
  The connection that the network layer makes for an accepted socket (\<open>ServerNetworkLayerTCP_add\<close>),
  its send buffers, and its \<open>close\<close>, which only shuts the socket down.
\<close>

definition ServerNetworkLayerTCP_add :: "connectionConfig \<Rightarrow> connection" where
  "ServerNetworkLayerTCP_add conf = \<lparr> cstate = UA_CONNECTION_OPENING, localConf = conf, remoteConf = conf,
     cchannel = None, incompleteMessage = [] \<rparr>"

definition ServerNetworkLayerGetSendBuffer :: "connection \<Rightarrow> u32 \<Rightarrow> 'p \<Rightarrow> status \<times> 'p" where
  "ServerNetworkLayerGetSendBuffer cn len p =
     (if len > recvBufferSize (remoteConf cn) then (BADCOMMUNICATIONERROR, p) else (GOOD, p))"

definition ServerNetworkLayerTCP_closeConnection :: "connection \<Rightarrow> connection" where
  "ServerNetworkLayerTCP_closeConnection cn =
     (if cstate cn = UA_CONNECTION_CLOSED then cn else cn\<lparr>cstate := UA_CONNECTION_CLOSED\<rparr>)"

section \<open>Random numbers\<close>

text \<open>The state of the generator is its state proper and its increment.\<close>

definition pcg32_random_r :: "u64 \<times> u64 \<Rightarrow> u32 \<times> (u64 \<times> u64)" where
  "pcg32_random_r g = (let (state, inc) = g;
       xorshifted = ucast (drop_bit 27 (drop_bit 18 state XOR state)) :: u32;
       rot = ucast (drop_bit 59 state) :: u32
     in (drop_bit (unat rot) xorshifted OR push_bit (unat ((NOT rot + 1) AND 31)) xorshifted,
         (state * 6364136223846793005 + inc, inc)))"

section \<open>Doubles\<close>

text \<open>
  The timeouts of sessions are doubles, kept as their bits.  \<open>dbl_le\<close> is the comparison, false on
  NaN; \<open>dbl_ticks\<close> multiplies with \<open>UA_MSEC_TO_DATETIME\<close>, rounding to 53 bits (half to even), and
  converts to an \<open>int64\<close>, which is undefined when the value does not fit.
\<close>

definition dbl_exp :: "u64 \<Rightarrow> nat" where
  "dbl_exp w = unat (drop_bit 52 w AND 0x7FF)"

definition dbl_frac :: "u64 \<Rightarrow> nat" where
  "dbl_frac w = unat (w AND 0xFFFFFFFFFFFFF)"

definition dbl_nan :: "u64 \<Rightarrow> bool" where
  "dbl_nan w \<longleftrightarrow> dbl_exp w = 2047 \<and> dbl_frac w \<noteq> 0"

definition dbl_key :: "u64 \<Rightarrow> int" where
  "dbl_key w = (if bit w 63 then - uint (w AND 0x7FFFFFFFFFFFFFFF) else uint w)"

definition dbl_le :: "u64 \<Rightarrow> u64 \<Rightarrow> bool" where
  "dbl_le a b \<longleftrightarrow> \<not> dbl_nan a \<and> \<not> dbl_nan b \<and> dbl_key a \<le> dbl_key b"

fun bitlen :: "nat \<Rightarrow> nat" where
  "bitlen n = (if n = 0 then 0 else Suc (bitlen (n div 2)))"

declare bitlen.simps [simp del]

definition round53 :: "nat \<Rightarrow> nat \<times> nat" where
  "round53 p = (let k = bitlen p - 53; q = p div 2 ^ k; r = p mod 2 ^ k
     in (if 0 < k \<and> (2 * r > 2 ^ k \<or> 2 * r = 2 ^ k \<and> odd q) then q + 1 else q, k))"

definition dbl_ticks :: "u64 \<Rightarrow> int outcome" where
  "dbl_ticks w =
     (if dbl_exp w = 2047 then Undefined
      else let m = (if dbl_exp w = 0 then dbl_frac w else 2 ^ 52 + dbl_frac w);
               (q, k) = round53 (m * 10000);
               up = k + (if dbl_exp w = 0 then 1 else dbl_exp w);
               n = (if 1075 \<le> up then q * 2 ^ (up - 1075) else q div 2 ^ (1075 - up));
               v = (if bit w 63 then - int n else int n)
           in if - (2 ^ 63) \<le> v \<and> v < 2 ^ 63 then Done v else Undefined)"

definition UA_Session_updateLifetime :: "int \<Rightarrow> session \<Rightarrow> session outcome" where
  "UA_Session_updateLifetime nowMono se =
     bind (dbl_ticks (timeout se)) (\<lambda>t. Done (se\<lparr>validTill := nowMono + t\<rparr>))"

section \<open>Connections and channels\<close>

definition UA_Connection_detachSecureChannel :: "nat \<Rightarrow> server \<Rightarrow> server outcome" where
  "UA_Connection_detachSecureChannel a s =
     bind (deref (conns s) a) (\<lambda>cn.
     bind (case cchannel cn of
             None \<Rightarrow> Done s
           | Some c \<Rightarrow> bind (deref (chans s) c) (\<lambda>ch.
               Done (if cconnection ch = Some a then put_chan c (ch\<lparr>cconnection := None\<rparr>) s else s))) (\<lambda>s1.
     Done (put_conn a (cn\<lparr>cchannel := None\<rparr>) s1)))"

definition UA_Connection_attachSecureChannel :: "nat \<Rightarrow> nat \<Rightarrow> server \<Rightarrow> server outcome" where
  "UA_Connection_attachSecureChannel a c s =
     bind (deref (chans s) c) (\<lambda>ch.
       if cconnection ch = None then
         bind (deref (conns s) a) (\<lambda>cn.
           Done (put_conn a (cn\<lparr>cchannel := Some c\<rparr>) (put_chan c (ch\<lparr>cconnection := Some a\<rparr>) s)))
       else Done s)"

section \<open>Channels and sessions\<close>

definition UA_SecureChannel_attachSession :: "bool \<Rightarrow> nat \<Rightarrow> nat \<Rightarrow> server \<Rightarrow> server outcome" where
  "UA_SecureChannel_attachSession malloc c i s =
     (if \<not> malloc then Done s
      else bind (deref (sess s) i) (\<lambda>se.
        if schannel se \<noteq> None then Done s
        else let s1 = put_sess i (se\<lparr>schannel := Some c\<rparr>) s
          in bind (deref (chans s1) c) (\<lambda>ch. Done (put_chan c (ch\<lparr>csessions := i # csessions ch\<rparr>) s1))))"

definition UA_SecureChannel_detachSession :: "nat \<Rightarrow> nat \<Rightarrow> server \<Rightarrow> server outcome" where
  "UA_SecureChannel_detachSession c i s =
     bind (deref (sess s) i) (\<lambda>se.
     bind (deref (chans s) c) (\<lambda>ch.
     Done (put_chan c (ch\<lparr>csessions := remove1 i (csessions ch)\<rparr>) (put_sess i (se\<lparr>schannel := None\<rparr>) s))))"

fun find_session :: "nat list \<Rightarrow> nodeid \<Rightarrow> server \<Rightarrow> nat option outcome" where
  "find_session [] token s = Done None"
| "find_session (i # is) token s =
     bind (deref (sess s) i) (\<lambda>se.
       if UA_NodeId_equal (authenticationToken se) token then Done (Some i) else find_session is token s)"

definition UA_SecureChannel_getSession :: "nat \<Rightarrow> nodeid \<Rightarrow> server \<Rightarrow> nat option outcome" where
  "UA_SecureChannel_getSession c token s =
     bind (deref (chans s) c) (\<lambda>ch. find_session (csessions ch) token s)"

fun forget_channel :: "nat list \<Rightarrow> server \<Rightarrow> server outcome" where
  "forget_channel [] s = Done s"
| "forget_channel (i # is) s =
     bind (deref (sess s) i) (\<lambda>se. forget_channel is (put_sess i (se\<lparr>schannel := None\<rparr>) s))"

definition UA_SecureChannel_deleteMembersCleanup :: "nat \<Rightarrow> server \<Rightarrow> server outcome" where
  "UA_SecureChannel_deleteMembersCleanup c s =
     bind (deref (chans s) c) (\<lambda>ch.
       let s1 = put_chan c (ch\<lparr>policyUri := None, serverNonce := None, clientNonce := None,
                               securityToken := token_init, nextSecurityToken := token_init\<rparr>) s
       in bind (case cconnection ch of
                  None \<Rightarrow> Done s1
                | Some a \<Rightarrow> UA_Connection_detachSecureChannel a s1) (\<lambda>s2.
          bind (forget_channel (csessions ch) s2) (\<lambda>s3.
          bind (deref (chans s3) c) (\<lambda>ch3.
            Done (put_chan c (ch3\<lparr>csessions := [], chunks := []\<rparr>) s3)))))"

definition UA_Session_deleteMembersCleanup :: "nat \<Rightarrow> server \<Rightarrow> server outcome" where
  "UA_Session_deleteMembersCleanup i s =
     bind (deref (sess s) i) (\<lambda>se.
       let s1 = put_sess i (se\<lparr>authenticationToken := UA_NODEID_NULL, sessionId := UA_NODEID_NULL\<rparr>) s
       in case schannel se of
            None \<Rightarrow> Done s1
          | Some c \<Rightarrow> UA_SecureChannel_detachSession c i s1)"

section \<open>The manager of the channels\<close>

text \<open>\<open>STARTCHANNELID\<close> and \<open>STARTTOKENID\<close> are 1.\<close>

definition UA_SecureChannelManager_init :: "server \<Rightarrow> server" where
  "UA_SecureChannelManager_init s =
     s\<lparr>channels := [], lastChannelId := 1, lastTokenId := 1, currentChannelCount := 0\<rparr>"

definition free_chan :: "nat \<Rightarrow> server \<Rightarrow> server" where
  "free_chan c s = s\<lparr>chans := (chans s)(c := None)\<rparr>"

fun delete_channels :: "nat list \<Rightarrow> server \<Rightarrow> server outcome" where
  "delete_channels [] s = Done s"
| "delete_channels (c # cs) s =
     bind (UA_SecureChannel_deleteMembersCleanup c (s\<lparr>channels := remove1 c (channels s)\<rparr>)) (\<lambda>s1.
       delete_channels cs (free_chan c s1))"

definition UA_SecureChannelManager_deleteMembers :: "server \<Rightarrow> server outcome" where
  "UA_SecureChannelManager_deleteMembers s = delete_channels (channels s) s"

definition removeSecureChannel :: "nat \<Rightarrow> server \<Rightarrow> server outcome" where
  "removeSecureChannel c s =
     bind (UA_SecureChannel_deleteMembersCleanup c
             (s\<lparr>channels := remove1 c (channels s), currentChannelCount := currentChannelCount s + (-1)\<rparr>))
       (\<lambda>s1. Done (free_chan c s1))"

definition token_timeout :: "securityToken \<Rightarrow> int" where
  "token_timeout t = createdAt t + int (unat (revisedLifetime t)) * 10000"

fun cleanup_channels :: "int \<Rightarrow> nat list \<Rightarrow> server \<Rightarrow> server outcome" where
  "cleanup_channels nowMono [] s = Done s"
| "cleanup_channels nowMono (c # cs) s =
     bind (deref (chans s) c) (\<lambda>ch.
     bind (if token_timeout (securityToken ch) < nowMono \<or> cconnection ch = None then removeSecureChannel c s
           else if tokenId (nextSecurityToken ch) > 0 then Done (put_chan c (UA_SecureChannel_revolveTokens ch) s)
           else Done s)
       (\<lambda>s1. cleanup_channels nowMono cs s1))"

definition UA_SecureChannelManager_cleanupTimedOut :: "int \<Rightarrow> server \<Rightarrow> server outcome" where
  "UA_SecureChannelManager_cleanupTimedOut nowMono s = cleanup_channels nowMono (channels s) s"

fun first_without_session :: "nat list \<Rightarrow> server \<Rightarrow> nat option outcome" where
  "first_without_session [] s = Done None"
| "first_without_session (c # cs) s =
     bind (deref (chans s) c) (\<lambda>ch. if csessions ch = [] then Done (Some c) else first_without_session cs s)"

definition purgeFirstChannelWithoutSession :: "server \<Rightarrow> (bool \<times> server) outcome" where
  "purgeFirstChannelWithoutSession s =
     bind (first_without_session (channels s) s) (\<lambda>r. case r of
         None \<Rightarrow> Done (False, s)
       | Some c \<Rightarrow> bind (removeSecureChannel c s) (\<lambda>s1. Done (True, s1)))"

text \<open>When the limit is reached, a channel without a session makes room.\<close>

definition make_room :: "serverConfig \<Rightarrow> server \<Rightarrow> (bool \<times> server) outcome" where
  "make_room cfg s =
     (if unat (currentChannelCount s) \<ge> unat (maxSecureChannels cfg)
      then purgeFirstChannelWithoutSession s else Done (True, s))"

definition revised_lifetime :: "serverConfig \<Rightarrow> u32 \<Rightarrow> u32" where
  "revised_lifetime cfg requested =
     (let t = (if requested > maxSecurityTokenLifetime cfg then maxSecurityTokenLifetime cfg else requested)
      in if t = 0 then maxSecurityTokenLifetime cfg else t)"

text \<open>The security mode \<open>None\<close> is 1; a response is the nonce and the token.\<close>

record openRequest =
  securityMode :: u32
  requestedLifetime :: u32
  requestNonce :: ustring

type_synonym openResponse = "(ustring \<times> securityToken) option"

definition UA_SecureChannelManager_open ::
  "serverConfig \<Rightarrow> nat option \<Rightarrow> int \<Rightarrow> int \<Rightarrow> nat \<Rightarrow> openRequest \<Rightarrow> server \<Rightarrow>
   (status \<times> openResponse \<times> server) outcome" where
  "UA_SecureChannelManager_open cfg malloc now nowMono conn r s =
     (if securityMode r \<noteq> 1 then Done (BADSECURITYMODEREJECTED, None, s)
      else bind (make_room cfg s) (\<lambda>(room, s1).
        if \<not> room then Done (BADOUTOFMEMORY, None, s1)
        else case malloc of
            None \<Rightarrow> Done (BADOUTOFMEMORY, None, s1)
          | Some c \<Rightarrow>
              (let token = \<lparr> channelId = lastChannelId s1, tokenId = lastTokenId s1, createdAt = now,
                             revisedLifetime = revised_lifetime cfg (requestedLifetime r) \<rparr>;
                   ch = UA_SecureChannel_init\<lparr>securityToken := token\<lparr>createdAt := nowMono\<rparr>,
                     clientNonce := requestNonce r, serverNonce := UA_SecureChannel_generateNonce,
                     policyUri := Some (str ''http://opcfoundation.org/UA/SecurityPolicy#None'')\<rparr>;
                   s2 = put_chan c ch (s1\<lparr>lastChannelId := lastChannelId s1 + 1,
                                           lastTokenId := lastTokenId s1 + 1\<rparr>)
               in bind (UA_Connection_attachSecureChannel conn c s2) (\<lambda>s3.
                    Done (GOOD, Some (serverNonce ch, token),
                      s3\<lparr>channels := c # channels s3, currentChannelCount := currentChannelCount s3 + 1\<rparr>)))))"

definition UA_SecureChannelManager_renew ::
  "serverConfig \<Rightarrow> int \<Rightarrow> int \<Rightarrow> nat \<Rightarrow> openRequest \<Rightarrow> server \<Rightarrow> (status \<times> openResponse \<times> server) outcome" where
  "UA_SecureChannelManager_renew cfg now nowMono conn r s =
     bind (deref (conns s) conn) (\<lambda>cn. case cchannel cn of
         None \<Rightarrow> Done (BADINTERNALERROR, None, s)
       | Some c \<Rightarrow> bind (deref (chans s) c) (\<lambda>ch.
           let fresh = (tokenId (nextSecurityToken ch) = 0);
               next = (if fresh then \<lparr> channelId = channelId (securityToken ch), tokenId = lastTokenId s,
                         createdAt = now, revisedLifetime = revised_lifetime cfg (requestedLifetime r) \<rparr>
                       else nextSecurityToken ch);
               s1 = (if fresh then s\<lparr>lastTokenId := lastTokenId s + 1\<rparr> else s)
           in Done (GOOD, Some (serverNonce ch, next),
                put_chan c (ch\<lparr>nextSecurityToken := next\<lparr>createdAt := nowMono\<rparr>,
                               clientNonce := requestNonce r\<rparr>) s1)))"

fun find_channel :: "nat list \<Rightarrow> u32 \<Rightarrow> server \<Rightarrow> nat option outcome" where
  "find_channel [] k s = Done None"
| "find_channel (c # cs) k s =
     bind (deref (chans s) c) (\<lambda>ch.
       if channelId (securityToken ch) = k then Done (Some c) else find_channel cs k s)"

definition UA_SecureChannelManager_get :: "u32 \<Rightarrow> server \<Rightarrow> nat option outcome" where
  "UA_SecureChannelManager_get k s = find_channel (channels s) k s"

definition ZUTH_getSecureChannel :: "server \<Rightarrow> u32 \<Rightarrow> nat option outcome" where
  "ZUTH_getSecureChannel s k = UA_SecureChannelManager_get k s"

definition UA_SecureChannelManager_close :: "u32 \<Rightarrow> server \<Rightarrow> (status \<times> server) outcome" where
  "UA_SecureChannelManager_close k s =
     bind (find_channel (channels s) k s) (\<lambda>r. case r of
         None \<Rightarrow> Done (BADINTERNALERROR, s)
       | Some c \<Rightarrow> bind (removeSecureChannel c s) (\<lambda>s1. Done (GOOD, s1)))"

section \<open>The manager of the sessions\<close>

definition UA_SessionManager_init :: "server \<Rightarrow> server" where
  "UA_SessionManager_init s = s\<lparr>sessions := [], currentSessionCount := 0\<rparr>"

definition free_sess :: "nat \<Rightarrow> server \<Rightarrow> server" where
  "free_sess i s = s\<lparr>sess := (sess s)(i := None)\<rparr>"

fun delete_sessions :: "nat list \<Rightarrow> server \<Rightarrow> server outcome" where
  "delete_sessions [] s = Done s"
| "delete_sessions (i # is) s =
     bind (UA_Session_deleteMembersCleanup i (s\<lparr>sessions := remove1 i (sessions s)\<rparr>)) (\<lambda>s1.
       delete_sessions is (free_sess i s1))"

definition UA_SessionManager_deleteMembers :: "server \<Rightarrow> server outcome" where
  "UA_SessionManager_deleteMembers s = delete_sessions (sessions s) s"

definition removeSessionEntry :: "nat \<Rightarrow> server \<Rightarrow> server outcome" where
  "removeSessionEntry i s =
     bind (UA_Session_deleteMembersCleanup i
             (s\<lparr>sessions := remove1 i (sessions s), currentSessionCount := currentSessionCount s + (-1)\<rparr>))
       (\<lambda>s1. Done (free_sess i s1))"

fun cleanup_sessions :: "int \<Rightarrow> nat list \<Rightarrow> server \<Rightarrow> server outcome" where
  "cleanup_sessions nowMono [] s = Done s"
| "cleanup_sessions nowMono (i # is) s =
     bind (deref (sess s) i) (\<lambda>se.
     bind (if validTill se < nowMono then removeSessionEntry i s else Done s) (\<lambda>s1.
     cleanup_sessions nowMono is s1))"

definition UA_SessionManager_cleanupTimedOut :: "int \<Rightarrow> server \<Rightarrow> server outcome" where
  "UA_SessionManager_cleanupTimedOut nowMono s = cleanup_sessions nowMono (sessions s) s"

definition UA_SessionManager_getSession :: "int \<Rightarrow> nodeid \<Rightarrow> server \<Rightarrow> nat option outcome" where
  "UA_SessionManager_getSession nowMono token s =
     bind (find_session (sessions s) token s) (\<lambda>r. case r of
         None \<Rightarrow> Done None
       | Some i \<Rightarrow> bind (deref (sess s) i) (\<lambda>se. Done (if nowMono > validTill se then None else Some i)))"

definition UA_NODEID_GUID :: "u16 \<Rightarrow> guid \<Rightarrow> nodeid" where
  "UA_NODEID_GUID nsIndex g = \<lparr> namespaceIndex = nsIndex, ident = GuidId g \<rparr>"

text \<open>A double is positive when it is greater than zero.\<close>

definition UA_SessionManager_createSession ::
  "serverConfig \<Rightarrow> ('g \<Rightarrow> u32 \<times> 'g) \<Rightarrow> 'g \<Rightarrow> nat option \<Rightarrow> int \<Rightarrow> u64 \<Rightarrow> server \<Rightarrow>
   (status \<times> nat option \<times> 'g \<times> server) outcome" where
  "UA_SessionManager_createSession cfg rng g malloc nowMono requestedTimeout s =
     (if unat (currentSessionCount s) \<ge> unat (maxSessions cfg) then Done (BADTOOMANYSESSIONS, None, g, s)
      else case malloc of
          None \<Rightarrow> Done (BADOUTOFMEMORY, None, g, s)
        | Some i \<Rightarrow>
            (let (id1, g1) = UA_Guid_random rng g; (id2, g2) = UA_Guid_random rng g1;
                 t = (if dbl_le requestedTimeout (maxSessionTimeout cfg) \<and> 0 < dbl_key requestedTimeout
                      then requestedTimeout else maxSessionTimeout cfg)
             in bind (UA_Session_updateLifetime nowMono
                        (UA_Session_init\<lparr>sessionId := UA_NODEID_GUID 1 id1,
                           authenticationToken := UA_NODEID_GUID 1 id2, timeout := t\<rparr>)) (\<lambda>se.
                  Done (GOOD, Some i, g2,
                    put_sess i se (s\<lparr>currentSessionCount := currentSessionCount s + 1,
                                     sessions := i # sessions s\<rparr>)))))"

definition UA_SessionManager_removeSession :: "nodeid \<Rightarrow> server \<Rightarrow> (status \<times> server) outcome" where
  "UA_SessionManager_removeSession token s =
     bind (find_session (sessions s) token s) (\<lambda>r. case r of
         None \<Rightarrow> Done (BADSESSIONIDINVALID, s)
       | Some i \<Rightarrow> bind (removeSessionEntry i s) (\<lambda>s1. Done (GOOD, s1)))"

definition UA_Server_cleanup :: "int \<Rightarrow> server \<Rightarrow> server outcome" where
  "UA_Server_cleanup nowMono s =
     bind (UA_SessionManager_cleanupTimedOut nowMono s) (UA_SecureChannelManager_cleanupTimedOut nowMono)"

section \<open>The services of channels and sessions\<close>

text \<open>A request type of 0 is \<open>ISSUE\<close>.\<close>

definition Service_OpenSecureChannel ::
  "serverConfig \<Rightarrow> nat option \<Rightarrow> int \<Rightarrow> int \<Rightarrow> nat \<Rightarrow> u32 \<Rightarrow> openRequest \<Rightarrow> server \<Rightarrow>
   (status \<times> openResponse \<times> server) outcome" where
  "Service_OpenSecureChannel cfg malloc now nowMono conn requestType r s =
     (if requestType = 0 then UA_SecureChannelManager_open cfg malloc now nowMono conn r s
      else UA_SecureChannelManager_renew cfg now nowMono conn r s)"

definition Service_CloseSecureChannel :: "nat \<Rightarrow> server \<Rightarrow> server outcome" where
  "Service_CloseSecureChannel c s =
     bind (deref (chans s) c) (\<lambda>ch.
     bind (UA_SecureChannelManager_close (channelId (securityToken ch)) s) (\<lambda>(_, s1). Done s1))"

datatype identityToken =
    AnonymousToken (policyId: ustring)
  | UserNameToken (policyId: ustring) (userName: ustring) (password: ustring) (encryptionAlgorithm: ustring)
  | OtherToken

abbreviation BADIDENTITYTOKENINVALID :: status where "BADIDENTITYTOKENINVALID \<equiv> 0x80200000"
abbreviation BADUSERACCESSDENIED :: status where "BADUSERACCESSDENIED \<equiv> 0x801f0000"

definition ANONYMOUS_POLICY :: cstr where
  "ANONYMOUS_POLICY = str ''open62541-anonymous-policy''"

definition USERNAME_POLICY :: cstr where
  "USERNAME_POLICY = str ''open62541-username-policy''"

definition check_identity :: "serverConfig \<Rightarrow> identityToken \<Rightarrow> status" where
  "check_identity cfg token = (case token of
       OtherToken \<Rightarrow> BADIDENTITYTOKENINVALID
     | AnonymousToken p \<Rightarrow>
         (if \<not> enableAnonymousLogin cfg then BADIDENTITYTOKENINVALID
          else if p \<noteq> None \<and> \<not> UA_String_equal p (Some ANONYMOUS_POLICY) then BADIDENTITYTOKENINVALID
          else GOOD)
     | UserNameToken p u pw e \<Rightarrow>
         (if \<not> enableUsernamePasswordLogin cfg then BADIDENTITYTOKENINVALID
          else if \<not> UA_String_equal p (Some USERNAME_POLICY) then BADIDENTITYTOKENINVALID
          else if length (ubytes e) > 0 then BADIDENTITYTOKENINVALID
          else if length (ubytes u) = 0 \<and> length (ubytes pw) = 0 then BADIDENTITYTOKENINVALID
          else if list_ex (\<lambda>(user, pass). UA_String_equal u user \<and> UA_String_equal pw pass)
                    (usernamePasswordLogins cfg) then GOOD
          else BADUSERACCESSDENIED))"

definition Service_ActivateSession ::
  "serverConfig \<Rightarrow> bool \<Rightarrow> int \<Rightarrow> int \<Rightarrow> nat \<Rightarrow> nat \<Rightarrow> identityToken \<Rightarrow> server \<Rightarrow> (status \<times> server) outcome" where
  "Service_ActivateSession cfg malloc now1 now2 c i token s =
     bind (deref (sess s) i) (\<lambda>se.
       if validTill se < now1 then Done (BADSESSIONIDINVALID, s)
       else if check_identity cfg token \<noteq> GOOD then Done (check_identity cfg token, s)
       else bind (case schannel se of
                    None \<Rightarrow> Done s
                  | Some c0 \<Rightarrow> if c0 \<noteq> c then UA_SecureChannel_detachSession c0 i s else Done s) (\<lambda>s1.
            bind (UA_SecureChannel_attachSession malloc c i s1) (\<lambda>s2.
            bind (deref (sess s2) i) (\<lambda>se2.
            bind (UA_Session_updateLifetime now2 (se2\<lparr>activated := True\<rparr>)) (\<lambda>se3.
            Done (GOOD, put_sess i se3 s2))))))"

definition Service_CloseSession :: "nat \<Rightarrow> server \<Rightarrow> (status \<times> server) outcome" where
  "Service_CloseSession i s =
     bind (deref (sess s) i) (\<lambda>se. UA_SessionManager_removeSession (authenticationToken se) s)"

text \<open>
  \<open>Service_CreateSession\<close>: the status of the response, with the identifiers and the timeout of the
  new session.  Copying the texts of the endpoints and the names succeeds (\<open>copied\<close>) or not.
\<close>

definition Service_CreateSession ::
  "serverConfig \<Rightarrow> ('g \<Rightarrow> u32 \<times> 'g) \<Rightarrow> 'g \<Rightarrow> nat option \<Rightarrow> status \<times> status \<Rightarrow> int \<Rightarrow> nat \<Rightarrow> u64 \<Rightarrow> u32 \<Rightarrow> server \<Rightarrow>
   (status \<times> (nodeid \<times> nodeid \<times> u64) option \<times> 'g \<times> server) outcome" where
  "Service_CreateSession cfg rng g malloc copied nowMono c requestedTimeout maxResponse s =
     bind (deref (chans s) c) (\<lambda>ch.
       if channelId (securityToken ch) = 0 then Done (BADSECURECHANNELIDINVALID, None, g, s)
       else if fst copied \<noteq> GOOD then Done (fst copied, None, g, s)
       else bind (UA_SessionManager_createSession cfg rng g malloc nowMono requestedTimeout s)
         (\<lambda>(rv, r, g1, s1). case r of
            None \<Rightarrow> Done (rv, None, g1, s1)
          | Some i \<Rightarrow>
              bind (case cconnection ch of None \<Rightarrow> Undefined | Some a \<Rightarrow> deref (conns s1) a) (\<lambda>cn.
              bind (deref (sess s1) i) (\<lambda>se.
                let se' = se\<lparr>maxResponseMessageSize := maxResponse,
                             maxRequestMessageSize := maxMessageSize (localConf cn)\<rparr>;
                    s2 = put_sess i se' s1;
                    response = Some (sessionId se, authenticationToken se, timeout se)
                in if snd copied \<noteq> GOOD then
                     bind (UA_SessionManager_removeSession (authenticationToken se) s2) (\<lambda>(_, s3).
                       Done (snd copied, response, g1, s3))
                   else Done (GOOD, response, g1, s2)))))"

end
