(* ===== verification/ManagerInv.thy ===== *)
theory ManagerInv
  imports Managers
begin

text \<open>
  The pointers between connections, channels and sessions as relations, the invariant of the
  managers, and what the operations that walk these pointers do, stated without the walk.
\<close>

section \<open>The pointers\<close>

definition chan_of :: "server \<Rightarrow> nat \<Rightarrow> nat option" where
  "chan_of s a = (case conns s a of None \<Rightarrow> None | Some cn \<Rightarrow> cchannel cn)"

definition conn_of :: "server \<Rightarrow> nat \<Rightarrow> nat option" where
  "conn_of s c = (case chans s c of None \<Rightarrow> None | Some ch \<Rightarrow> cconnection ch)"

definition sess_of :: "server \<Rightarrow> nat \<Rightarrow> nat list" where
  "sess_of s c = (case chans s c of None \<Rightarrow> [] | Some ch \<Rightarrow> csessions ch)"

definition schan_of :: "server \<Rightarrow> nat \<Rightarrow> nat option" where
  "schan_of s i = (case sess s i of None \<Rightarrow> None | Some se \<Rightarrow> schannel se)"

text \<open>
  Every pointer has its partner: so nothing points to an object that is not allocated.
\<close>

definition linked :: "server \<Rightarrow> bool" where
  "linked s \<longleftrightarrow> (\<forall>a c. chan_of s a = Some c \<longleftrightarrow> conn_of s c = Some a) \<and>
     (\<forall>i c. schan_of s i = Some c \<longleftrightarrow> i \<in> set (sess_of s c)) \<and> (\<forall>c. distinct (sess_of s c))"

definition counted :: "server \<Rightarrow> bool" where
  "counted s \<longleftrightarrow> distinct (channels s) \<and> set (channels s) = dom (chans s) \<and>
     distinct (sessions s) \<and> set (sessions s) = dom (sess s) \<and>
     unat (currentChannelCount s) = length (channels s) \<and> unat (currentSessionCount s) = length (sessions s)"

definition manager_inv :: "server \<Rightarrow> bool" where
  "manager_inv s \<longleftrightarrow> linked s \<and> counted s"

named_theorems link_simps \<open>the pointers of a changed store\<close>

lemma put_fields [link_simps]:
  "conns (put_conn a x s) = (conns s)(a \<mapsto> x)" "chans (put_conn a x s) = chans s" "sess (put_conn a x s) = sess s"
  "conns (put_chan c y s) = conns s" "chans (put_chan c y s) = (chans s)(c \<mapsto> y)" "sess (put_chan c y s) = sess s"
  "conns (put_sess i z s) = conns s" "chans (put_sess i z s) = chans s" "sess (put_sess i z s) = (sess s)(i \<mapsto> z)"
  "channels (put_conn a x s) = channels s" "channels (put_chan c y s) = channels s" "channels (put_sess i z s) = channels s"
  "sessions (put_conn a x s) = sessions s" "sessions (put_chan c y s) = sessions s" "sessions (put_sess i z s) = sessions s"
  "currentChannelCount (put_conn a x s) = currentChannelCount s"
  "currentChannelCount (put_chan c y s) = currentChannelCount s"
  "currentChannelCount (put_sess i z s) = currentChannelCount s"
  "currentSessionCount (put_conn a x s) = currentSessionCount s"
  "currentSessionCount (put_chan c y s) = currentSessionCount s"
  "currentSessionCount (put_sess i z s) = currentSessionCount s"
  "lastChannelId (put_conn a x s) = lastChannelId s" "lastChannelId (put_chan c y s) = lastChannelId s"
  "lastChannelId (put_sess i z s) = lastChannelId s"
  by (simp_all add: put_conn_def put_chan_def put_sess_def)

lemma linkedD:
  assumes "linked s"
  shows "conns s a = Some cn \<Longrightarrow> cchannel cn = Some c \<Longrightarrow> \<exists>ch. chans s c = Some ch \<and> cconnection ch = Some a"
    and "chans s c = Some ch \<Longrightarrow> cconnection ch = Some a \<Longrightarrow> \<exists>cn. conns s a = Some cn \<and> cchannel cn = Some c"
    and "sess s i = Some se \<Longrightarrow> schannel se = Some c \<Longrightarrow> \<exists>ch. chans s c = Some ch \<and> i \<in> set (csessions ch)"
    and "chans s c = Some ch \<Longrightarrow> i \<in> set (csessions ch) \<Longrightarrow> \<exists>se. sess s i = Some se \<and> schannel se = Some c"
    and "chans s c = Some ch \<Longrightarrow> distinct (csessions ch)"
proof -
  have 1: "\<And>a c. chan_of s a = Some c \<longleftrightarrow> conn_of s c = Some a"
    and 2: "\<And>i c. schan_of s i = Some c \<longleftrightarrow> i \<in> set (sess_of s c)" and 3: "\<And>c. distinct (sess_of s c)"
    using assms by (auto simp: linked_def)
  show "conns s a = Some cn \<Longrightarrow> cchannel cn = Some c \<Longrightarrow> \<exists>ch. chans s c = Some ch \<and> cconnection ch = Some a"
    using 1[of a c] by (auto simp: chan_of_def conn_of_def split: option.splits)
  show "chans s c = Some ch \<Longrightarrow> cconnection ch = Some a \<Longrightarrow> \<exists>cn. conns s a = Some cn \<and> cchannel cn = Some c"
    using 1[of a c] by (auto simp: chan_of_def conn_of_def split: option.splits)
  show "sess s i = Some se \<Longrightarrow> schannel se = Some c \<Longrightarrow> \<exists>ch. chans s c = Some ch \<and> i \<in> set (csessions ch)"
    using 2[of i c] by (cases "chans s c") (auto simp: schan_of_def sess_of_def)
  show "chans s c = Some ch \<Longrightarrow> i \<in> set (csessions ch) \<Longrightarrow> \<exists>se. sess s i = Some se \<and> schannel se = Some c"
    using 2[of i c] by (auto simp: schan_of_def sess_of_def split: option.splits)
  show "chans s c = Some ch \<Longrightarrow> distinct (csessions ch)"
    using 3[of c] by (simp add: sess_of_def)
qed

section \<open>Removing a channel and removing a session, without the walk\<close>

definition unhook :: "nat \<Rightarrow> connection \<Rightarrow> connection" where
  "unhook c cn = (if cchannel cn = Some c then cn\<lparr>cchannel := None\<rparr> else cn)"

definition unbind_session :: "nat \<Rightarrow> session \<Rightarrow> session" where
  "unbind_session c se = (if schannel se = Some c then se\<lparr>schannel := None\<rparr> else se)"

definition drop_channel :: "nat \<Rightarrow> server \<Rightarrow> server" where
  "drop_channel c s = s\<lparr>conns := map_option (unhook c) \<circ> conns s, sess := map_option (unbind_session c) \<circ> sess s,
     chans := (chans s)(c := None), channels := remove1 c (channels s),
     currentChannelCount := currentChannelCount s - 1\<rparr>"

definition drop_session :: "nat \<Rightarrow> server \<Rightarrow> server" where
  "drop_session i s = s\<lparr>sess := (sess s)(i := None),
     chans := map_option (\<lambda>ch. ch\<lparr>csessions := remove1 i (csessions ch)\<rparr>) \<circ> chans s,
     sessions := remove1 i (sessions s), currentSessionCount := currentSessionCount s - 1\<rparr>"

lemma forget_channel_walk:
  "distinct is \<Longrightarrow> set is \<subseteq> dom (sess s) \<Longrightarrow>
   forget_channel is s = Done (s\<lparr>sess := (\<lambda>i. if i \<in> set is then map_option (\<lambda>se. se\<lparr>schannel := None\<rparr>) (sess s i)
     else sess s i)\<rparr>)"
proof (induction "is" arbitrary: s)
  case Nil
  then show ?case by simp
next
  case (Cons i "is")
  from Cons.prems obtain se where se: "sess s i = Some se" by auto
  let ?s = "put_sess i (se\<lparr>schannel := None\<rparr>) s"
  have "forget_channel is ?s = Done (?s\<lparr>sess := (\<lambda>j. if j \<in> set is
      then map_option (\<lambda>se. se\<lparr>schannel := None\<rparr>) (sess ?s j) else sess ?s j)\<rparr>)"
    by (rule Cons.IH) (use Cons.prems in \<open>auto simp: link_simps\<close>)
  moreover have "?s\<lparr>sess := (\<lambda>j. if j \<in> set is then map_option (\<lambda>se. se\<lparr>schannel := None\<rparr>) (sess ?s j)
        else sess ?s j)\<rparr> =
      s\<lparr>sess := (\<lambda>j. if j \<in> set (i # is) then map_option (\<lambda>se. se\<lparr>schannel := None\<rparr>) (sess s j) else sess s j)\<rparr>"
    using Cons.prems(1) se by (auto simp: put_sess_def fun_eq_iff)
  ultimately show ?case
    using se by (simp add: deref_def)
qed

lemma removeSecureChannel_walk:
  assumes "linked s" "chans s c = Some ch"
  shows "removeSecureChannel c s = Done (drop_channel c s)"
proof -
  note L = linkedD[OF assms(1)]
  let ?reset = "ch\<lparr>policyUri := None, serverNonce := None, clientNonce := None,
      securityToken := token_init, nextSecurityToken := token_init\<rparr>"
  let ?s0 = "s\<lparr>channels := remove1 c (channels s), currentChannelCount := currentChannelCount s + (-1)\<rparr>"
  let ?s1 = "put_chan c ?reset ?s0"
  define s2 where "s2 = ?s0\<lparr>conns := map_option (unhook c) \<circ> conns s,
    chans := (chans s)(c \<mapsto> ?reset\<lparr>cconnection := None\<rparr>)\<rparr>"
  have hook: "unhook c cn = (if cconnection ch = Some a then cn\<lparr>cchannel := None\<rparr> else cn)"
    if "conns s a = Some cn" for a cn
    using L(1)[OF that] L(2)[OF assms(2), of a] that assms(2) by (auto simp: unhook_def)
  have detach: "(case cconnection ch of None \<Rightarrow> Done ?s1 | Some a \<Rightarrow> UA_Connection_detachSecureChannel a ?s1) = Done s2"
  proof (cases "cconnection ch")
    case None
    have "map_option (unhook c) \<circ> conns s = conns s"
      using hook None by (auto simp: fun_eq_iff option.map_ident split: option.splits intro!: map_option_idI)
    moreover have "?reset\<lparr>cconnection := None\<rparr> = ?reset" using None by (cases ch) simp
    ultimately have "s2 = ?s1"
      unfolding s2_def put_chan_def by (simp only:) simp
    then show ?thesis
      using None by simp
  next
    case (Some a)
    then obtain cn where cn: "conns s a = Some cn" "cchannel cn = Some c" using L(2)[OF assms(2)] by blast
    have "map_option (unhook c) \<circ> conns s = (conns s)(a \<mapsto> cn\<lparr>cchannel := None\<rparr>)"
    proof
      fix b
      show "(map_option (unhook c) \<circ> conns s) b = ((conns s)(a \<mapsto> cn\<lparr>cchannel := None\<rparr>)) b"
        using hook[of b] cn Some by (cases "conns s b") (auto simp: unhook_def)
    qed
    then show ?thesis
      using Some cn by (simp add: s2_def UA_Connection_detachSecureChannel_def deref_def put_chan_def put_conn_def)
  qed
  define f where "f = (\<lambda>i. if i \<in> set (csessions ch) then map_option (\<lambda>se. se\<lparr>schannel := None\<rparr>) (sess s i) else sess s i)"
  have f: "f = map_option (unbind_session c) \<circ> sess s"
  proof
    fix i
    show "f i = (map_option (unbind_session c) \<circ> sess s) i"
      using L(3)[of i _ c] L(4)[OF assms(2), of i] assms(2)
      by (cases "sess s i") (auto simp: f_def unbind_session_def)
  qed
  have forget: "forget_channel (csessions ch) s2 = Done (s2\<lparr>sess := f\<rparr>)"
  proof -
    have e: "sess s2 = sess s" by (simp add: s2_def)
    have "set (csessions ch) \<subseteq> dom (sess s2)"
      using L(4)[OF assms(2)] by (force simp: s2_def)
    from forget_channel_walk[OF L(5)[OF assms(2)] this] show ?thesis
      by (simp only: f_def e)
  qed
  define r s0 s1 where "r = ?reset" and "s0 = ?s0" and "s1 = ?s1"
  have e: "deref (chans s0) c = Done ch" "s1 = put_chan c r s0"
    by (simp_all add: s0_def s1_def r_def deref_def assms(2))
  have "UA_SecureChannel_deleteMembersCleanup c s0 =
      bind (case cconnection ch of None \<Rightarrow> Done s1 | Some a \<Rightarrow> UA_Connection_detachSecureChannel a s1) (\<lambda>s2.
      bind (forget_channel (csessions ch) s2) (\<lambda>s3. bind (deref (chans s3) c) (\<lambda>ch3.
        Done (put_chan c (ch3\<lparr>csessions := [], chunks := []\<rparr>) s3))))"
    by (simp only: UA_SecureChannel_deleteMembersCleanup_def e bind.simps Let_def r_def)
  also have "\<dots> = bind (deref (chans s2) c) (\<lambda>ch3.
      Done (put_chan c (ch3\<lparr>csessions := [], chunks := []\<rparr>) (s2\<lparr>sess := f\<rparr>)))"
    by (simp only: s1_def detach forget bind.simps) simp
  also have "deref (chans s2) c = Done (?reset\<lparr>cconnection := None\<rparr>)"
    by (simp add: s2_def deref_def)
  finally show ?thesis
    unfolding removeSecureChannel_def s0_def[symmetric]
    by (simp add: drop_channel_def free_chan_def put_chan_def s2_def f comp_def)
qed

lemma removeSessionEntry_walk:
  assumes "linked s" "sess s i = Some se"
  shows "removeSessionEntry i s = Done (drop_session i s)"
proof -
  note L = linkedD[OF assms(1)]
  have other: "i \<notin> set (csessions ch)" if "chans s c = Some ch" "schannel se \<noteq> Some c" for c ch
    using L(4)[OF that(1)] that(2) assms(2) by fastforce
  show ?thesis
  proof (cases "schannel se")
    case None
    have "map_option (\<lambda>ch. ch\<lparr>csessions := remove1 i (csessions ch)\<rparr>) \<circ> chans s = chans s"
    proof
      fix c
      show "(map_option (\<lambda>ch. ch\<lparr>csessions := remove1 i (csessions ch)\<rparr>) \<circ> chans s) c = chans s c"
        using other[of c] None by (cases "chans s c") (auto simp: remove1_idem)
    qed
    then show ?thesis
      using assms(2) None
      by (simp add: removeSessionEntry_def UA_Session_deleteMembersCleanup_def deref_def put_sess_def
          free_sess_def drop_session_def)
  next
    case (Some c)
    then obtain ch where ch: "chans s c = Some ch" using L(3)[OF assms(2)] by blast
    have "map_option (\<lambda>ch. ch\<lparr>csessions := remove1 i (csessions ch)\<rparr>) \<circ> chans s =
        (chans s)(c \<mapsto> ch\<lparr>csessions := remove1 i (csessions ch)\<rparr>)"
    proof
      fix d
      show "(map_option (\<lambda>ch. ch\<lparr>csessions := remove1 i (csessions ch)\<rparr>) \<circ> chans s) d =
          ((chans s)(c \<mapsto> ch\<lparr>csessions := remove1 i (csessions ch)\<rparr>)) d"
        using other[of d] Some ch by (cases "chans s d") (auto simp: remove1_idem)
    qed
    then show ?thesis
      using assms(2) Some ch
      by (simp add: removeSessionEntry_def UA_Session_deleteMembersCleanup_def UA_SecureChannel_detachSession_def
          deref_def put_sess_def put_chan_def free_sess_def drop_session_def)
  qed
qed


section \<open>What the operations keep\<close>

lemma drop_pointers [link_simps]:
  "chan_of (drop_channel c s) a = (if chan_of s a = Some c then None else chan_of s a)"
  "conn_of (drop_channel c s) d = (if d = c then None else conn_of s d)"
  "sess_of (drop_channel c s) d = (if d = c then [] else sess_of s d)"
  "schan_of (drop_channel c s) i = (if schan_of s i = Some c then None else schan_of s i)"
  "chan_of (drop_session i s) a = chan_of s a"
  "conn_of (drop_session i s) c = conn_of s c"
  "sess_of (drop_session i s) c = remove1 i (sess_of s c)"
  "schan_of (drop_session i s) j = (if j = i then None else schan_of s j)"
  by (auto simp: chan_of_def conn_of_def sess_of_def schan_of_def drop_channel_def drop_session_def unhook_def
      unbind_session_def split: option.splits)

lemma put_pointers [link_simps]:
  "chan_of (put_conn a x s) = (chan_of s)(a := cchannel x)"
  "conn_of (put_conn a x s) = conn_of s" "sess_of (put_conn a x s) = sess_of s" "schan_of (put_conn a x s) = schan_of s"
  "chan_of (put_chan c y s) = chan_of s"
  "conn_of (put_chan c y s) = (conn_of s)(c := cconnection y)"
  "sess_of (put_chan c y s) = (sess_of s)(c := csessions y)" "schan_of (put_chan c y s) = schan_of s"
  "chan_of (put_sess i z s) = chan_of s" "conn_of (put_sess i z s) = conn_of s" "sess_of (put_sess i z s) = sess_of s"
  "schan_of (put_sess i z s) = (schan_of s)(i := schannel z)"
  by (auto simp: fun_eq_iff chan_of_def conn_of_def sess_of_def schan_of_def link_simps)

lemma linked_drop_channel: "linked s \<Longrightarrow> linked (drop_channel c s)"
  unfolding linked_def by (auto simp: link_simps) (metis option.inject)+

lemma linked_drop_session: "linked s \<Longrightarrow> linked (drop_session i s)"
  unfolding linked_def by (auto simp: link_simps)

lemma count_down:
  fixes w :: u32
  assumes "unat w = length xs" "x \<in> set xs"
  shows "unat (w - 1) = length (remove1 x xs)"
proof -
  have "w \<noteq> 0" using assms by (cases xs) auto
  then show ?thesis using assms by (simp add: unat_minus_one length_remove1)
qed

lemma counted_drop_channel:
  assumes "counted s" "c \<in> set (channels s)"
  shows "counted (drop_channel c s)"
proof -
  have "dom (chans (drop_channel c s)) = dom (chans s) - {c}" "dom (sess (drop_channel c s)) = dom (sess s)"
    by (auto simp: drop_channel_def)
  moreover have "unat (currentChannelCount s - 1) = length (remove1 c (channels s))"
    using assms by (intro count_down) (simp_all add: counted_def)
  ultimately show ?thesis
    using assms by (auto simp: counted_def drop_channel_def)
qed

lemma counted_drop_session:
  assumes "counted s" "i \<in> set (sessions s)"
  shows "counted (drop_session i s)"
proof -
  have "dom (sess (drop_session i s)) = dom (sess s) - {i}" "dom (chans (drop_session i s)) = dom (chans s)"
    by (auto simp: drop_session_def)
  moreover have "unat (currentSessionCount s - 1) = length (remove1 i (sessions s))"
    using assms by (intro count_down) (simp_all add: counted_def)
  ultimately show ?thesis
    using assms by (auto simp: counted_def drop_session_def)
qed

text \<open>
  A step that opens nothing: the invariant is kept, the channels that are left have their
  identifiers, and nothing is added.
\<close>

definition next_ok :: "secureChannel \<Rightarrow> bool" where
  "next_ok ch \<longleftrightarrow> tokenId (nextSecurityToken ch) \<noteq> 0 \<longrightarrow>
     channelId (nextSecurityToken ch) = channelId (securityToken ch)"

definition evolves :: "server \<Rightarrow> server \<Rightarrow> bool" where
  "evolves s s' \<longleftrightarrow> manager_inv s' \<and> lastChannelId s' = lastChannelId s \<and>
     set (channels s') \<subseteq> set (channels s) \<and> set (sessions s') \<subseteq> set (sessions s) \<and>
     (\<forall>c ch'. chans s' c = Some ch' \<longrightarrow> (\<exists>ch. chans s c = Some ch \<and>
        (next_ok ch \<longrightarrow> channelId (securityToken ch') = channelId (securityToken ch) \<and> next_ok ch')))"

lemma evolves_refl: "manager_inv s \<Longrightarrow> evolves s s"
  by (auto simp: evolves_def)

lemma evolves_trans [trans]: "evolves s t \<Longrightarrow> evolves t u \<Longrightarrow> evolves s u"
  unfolding evolves_def by (intro conjI allI impI; (elim conjE)?) (blast | simp | metis)+

lemma evolves_inv: "evolves s t \<Longrightarrow> manager_inv t"
  by (simp add: evolves_def)

lemma drop_channel_evolves:
  assumes "manager_inv s" "c \<in> set (channels s)"
  shows "removeSecureChannel c s = Done (drop_channel c s)" "evolves s (drop_channel c s)"
proof -
  obtain ch where "chans s c = Some ch"
    using assms by (auto simp: manager_inv_def counted_def)
  then show "removeSecureChannel c s = Done (drop_channel c s)"
    using removeSecureChannel_walk assms(1) by (simp add: manager_inv_def)
  show "evolves s (drop_channel c s)"
    using assms linked_drop_channel counted_drop_channel
    by (auto simp: evolves_def manager_inv_def drop_channel_def dest: notin_set_remove1 set_remove1_subset[THEN subsetD]
        split: if_splits)
qed

lemma drop_session_evolves:
  assumes "manager_inv s" "i \<in> set (sessions s)"
  shows "removeSessionEntry i s = Done (drop_session i s)" "evolves s (drop_session i s)"
proof -
  obtain se where "sess s i = Some se"
    using assms by (auto simp: manager_inv_def counted_def)
  then show "removeSessionEntry i s = Done (drop_session i s)"
    using removeSessionEntry_walk assms(1) by (simp add: manager_inv_def)
  have "manager_inv (drop_session i s)"
    using assms linked_drop_session counted_drop_session by (auto simp: manager_inv_def)
  then show "evolves s (drop_session i s)"
    by (auto simp: evolves_def drop_session_def next_ok_def dest: set_remove1_subset[THEN subsetD])
qed

text \<open>Changing what is not a pointer.\<close>

lemma put_chan_evolves:
  assumes "manager_inv s" "chans s c = Some ch" "cconnection ch' = cconnection ch" "csessions ch' = csessions ch"
    and "next_ok ch \<Longrightarrow> channelId (securityToken ch') = channelId (securityToken ch) \<and> next_ok ch'"
  shows "evolves s (put_chan c ch' s)"
proof -
  have "conn_of s c = cconnection ch" "sess_of s c = csessions ch"
    using assms(2) by (simp_all add: conn_of_def sess_of_def)
  then have "linked (put_chan c ch' s)"
    using assms(1,3,4) by (simp add: manager_inv_def linked_def link_simps) (metis fun_upd_triv)
  moreover have "counted (put_chan c ch' s)"
    using assms(1,2) by (auto simp: manager_inv_def counted_def link_simps)
  ultimately show ?thesis
    using assms by (auto simp: evolves_def manager_inv_def link_simps)
qed

lemma put_sess_evolves:
  assumes "manager_inv s" "sess s i = Some se" "schannel se' = schannel se"
  shows "evolves s (put_sess i se' s)"
proof -
  have "schan_of s i = schannel se"
    using assms(2) by (simp add: schan_of_def)
  then have "linked (put_sess i se' s)"
    using assms(1,3) by (simp add: manager_inv_def linked_def link_simps) (metis fun_upd_triv)
  moreover have "counted (put_sess i se' s)"
    using assms(1,2) by (auto simp: manager_inv_def counted_def link_simps)
  ultimately show ?thesis
    using assms by (auto simp: evolves_def manager_inv_def link_simps)
qed

lemma revolve_evolves:
  assumes "manager_inv s" "chans s c = Some ch"
  shows "evolves s (put_chan c (UA_SecureChannel_revolveTokens ch) s)"
  by (rule put_chan_evolves[OF assms])
    (auto simp: UA_SecureChannel_revolveTokens_def next_ok_def token_init_def)

end
