(* ===== verification/ManagerOps.thy ===== *)
theory ManagerOps
  imports ManagerInv
begin

text \<open>
  Every operation of the managers on a state with the invariant: it is defined (no freed object is
  touched), it keeps the invariant, and its result.
\<close>

section \<open>Channels\<close>

lemma alive: "manager_inv s \<Longrightarrow> c \<in> set (channels s) \<Longrightarrow> \<exists>ch. chans s c = Some ch"
  by (auto simp: manager_inv_def counted_def)

lemma alive_session: "manager_inv s \<Longrightarrow> i \<in> set (sessions s) \<Longrightarrow> \<exists>se. sess s i = Some se"
  by (auto simp: manager_inv_def counted_def)

lemma listed: "manager_inv s \<Longrightarrow> chans s c = Some ch \<Longrightarrow> c \<in> set (channels s)"
  by (auto simp: manager_inv_def counted_def)

lemma listed_session: "manager_inv s \<Longrightarrow> sess s i = Some se \<Longrightarrow> i \<in> set (sessions s)"
  by (auto simp: manager_inv_def counted_def)

lemma find_channel_total:
  "manager_inv s \<Longrightarrow> set cs \<subseteq> set (channels s) \<Longrightarrow>
   find_channel cs k s = Done (find (\<lambda>c. map_option (\<lambda>ch. channelId (securityToken ch)) (chans s c) = Some k) cs)"
proof (induction cs)
  case Nil
  then show ?case by simp
next
  case (Cons c cs)
  then obtain ch where "chans s c = Some ch" using alive[of s c] by auto
  then show ?case using Cons by (simp add: deref_def)
qed

lemma first_without_session_total:
  "manager_inv s \<Longrightarrow> set cs \<subseteq> set (channels s) \<Longrightarrow>
   first_without_session cs s = Done (find (\<lambda>c. sess_of s c = []) cs)"
proof (induction cs)
  case Nil
  then show ?case by simp
next
  case (Cons c cs)
  then obtain ch where "chans s c = Some ch" using alive[of s c] by auto
  then show ?case using Cons by (simp add: deref_def sess_of_def)
qed

lemma find_session_total:
  "manager_inv s \<Longrightarrow> set is \<subseteq> dom (sess s) \<Longrightarrow>
   find_session is token s = Done (find (\<lambda>i. \<exists>se. sess s i = Some se \<and>
     UA_NodeId_equal (authenticationToken se) token) is)"
proof (induction "is")
  case Nil
  then show ?case by simp
next
  case (Cons i "is")
  then obtain se where "sess s i = Some se" by auto
  then show ?case using Cons by (simp add: deref_def)
qed

definition with_id :: "u32 \<Rightarrow> server \<Rightarrow> nat option" where
  "with_id k s = find (\<lambda>c. map_option (\<lambda>ch. channelId (securityToken ch)) (chans s c) = Some k) (channels s)"

definition with_token :: "nodeid \<Rightarrow> server \<Rightarrow> nat option" where
  "with_token token s = find (\<lambda>i. \<exists>se. sess s i = Some se \<and>
     UA_NodeId_equal (authenticationToken se) token) (sessions s)"

lemma find_mem: "find P xs = Some x \<Longrightarrow> x \<in> set xs \<and> P x"
  by (induction xs) (auto split: if_splits)

lemma get_channel: "manager_inv s \<Longrightarrow> UA_SecureChannelManager_get k s = Done (with_id k s)"
  by (simp add: UA_SecureChannelManager_get_def with_id_def find_channel_total)

lemma close_channel:
  assumes "manager_inv s"
  shows "\<exists>s'. UA_SecureChannelManager_close k s = Done (case with_id k s of None \<Rightarrow> BADINTERNALERROR | Some _ \<Rightarrow> GOOD, s') \<and>
    evolves s s' \<and> s' = (case with_id k s of None \<Rightarrow> s | Some c \<Rightarrow> drop_channel c s)"
proof (cases "with_id k s")
  case None
  then show ?thesis
    using assms by (simp add: UA_SecureChannelManager_close_def find_channel_total with_id_def evolves_refl)
next
  case (Some c)
  then have "c \<in> set (channels s)" by (auto simp: with_id_def dest: find_mem)
  from drop_channel_evolves[OF assms this] show ?thesis
    using assms Some by (simp add: UA_SecureChannelManager_close_def find_channel_total with_id_def)
qed

lemma make_room_total:
  assumes "manager_inv s"
  shows "make_room cfg s =
    (if length (channels s) < unat (maxSecureChannels cfg) then Done (True, s)
     else case find (\<lambda>c. sess_of s c = []) (channels s) of
        None \<Rightarrow> Done (False, s)
      | Some c \<Rightarrow> Done (True, drop_channel c s))"
proof -
  have n: "unat (currentChannelCount s) = length (channels s)"
    using assms by (simp add: manager_inv_def counted_def)
  show ?thesis
  proof (cases "find (\<lambda>c. sess_of s c = []) (channels s)")
    case None
    then show ?thesis
      using assms n
      by (simp add: make_room_def purgeFirstChannelWithoutSession_def first_without_session_total)
  next
    case (Some c)
    then have "c \<in> set (channels s)" by (auto dest: find_mem)
    from drop_channel_evolves[OF assms this] show ?thesis
      using assms n Some
      by (simp add: make_room_def purgeFirstChannelWithoutSession_def first_without_session_total)
  qed
qed

lemma remove1_shorter: "x \<in> set xs \<Longrightarrow> length (remove1 x xs) < length xs"
  by (induction xs) auto

text \<open>Room is made only by dropping a channel without a session.\<close>

lemma make_room_evolves:
  assumes "manager_inv s" "make_room cfg s = Done (room, s1)"
  shows "evolves s s1" "room \<Longrightarrow> length (channels s) \<le> unat (maxSecureChannels cfg) \<Longrightarrow>
      length (channels s1) < unat (maxSecureChannels cfg)"
    and "lastTokenId s1 = lastTokenId s" "sessions s1 = sessions s"
    and "conns s a = Some cn \<Longrightarrow> cchannel cn = None \<Longrightarrow> conns s1 a = Some cn"
    and "chans s c = Some ch \<Longrightarrow> csessions ch \<noteq> [] \<Longrightarrow> chans s1 c = Some ch"
    and "schan_of s1 i = schan_of s i"
proof -
  have *: "s1 = s \<and> (room \<longrightarrow> length (channels s) < unat (maxSecureChannels cfg)) \<or>
      (\<exists>d. s1 = drop_channel d s \<and> d \<in> set (channels s) \<and> sess_of s d = [])"
    using assms(2) make_room_total[OF assms(1), of cfg]
    by (auto split: if_splits option.splits dest: find_mem)
  have none: "schan_of s i \<noteq> Some d" if "sess_of s d = []" for d
    using assms(1) that by (auto simp: manager_inv_def linked_def)
  show "evolves s s1"
    using * evolves_refl[OF assms(1)] drop_channel_evolves(2)[OF assms(1)] by auto
  show "room \<Longrightarrow> length (channels s) \<le> unat (maxSecureChannels cfg) \<Longrightarrow>
      length (channels s1) < unat (maxSecureChannels cfg)"
    using * by (auto simp: drop_channel_def dest!: remove1_shorter)
  show "lastTokenId s1 = lastTokenId s" "sessions s1 = sessions s"
    using * by (auto simp: drop_channel_def)
  show "conns s a = Some cn \<Longrightarrow> cchannel cn = None \<Longrightarrow> conns s1 a = Some cn"
    using * by (auto simp: drop_channel_def unhook_def)
  show "chans s c = Some ch \<Longrightarrow> csessions ch \<noteq> [] \<Longrightarrow> chans s1 c = Some ch"
    using * by (auto simp: drop_channel_def sess_of_def)
  show "schan_of s1 i = schan_of s i"
    using * none by (auto simp: link_simps)
qed

text \<open>A new channel for a connection that has none.\<close>

lemma add_channel:
  assumes "manager_inv s" "chans s c = None" "conns s a = Some cn" "cchannel cn = None"
    and "cconnection ch = None" "csessions ch = []" "length (channels s) < 2 ^ 32 - 1"
  defines "s2 \<equiv> put_conn a (cn\<lparr>cchannel := Some c\<rparr>) (put_chan c (ch\<lparr>cconnection := Some a\<rparr>) s)"
  shows "manager_inv (s2\<lparr>channels := c # channels s2, currentChannelCount := currentChannelCount s2 + 1,
      lastChannelId := x, lastTokenId := y\<rparr>)" (is "manager_inv ?t")
proof -
  have m: "linked s" "counted s" using assms(1) by (simp_all add: manager_inv_def)
  have none: "chan_of s a = None" "conn_of s c = None" "sess_of s c = []"
    using assms(2-4) by (simp_all add: chan_of_def conn_of_def sess_of_def)
  have v: "chan_of ?t = (chan_of s)(a := Some c)" "conn_of ?t = (conn_of s)(c := Some a)"
    "sess_of ?t = sess_of s" "schan_of ?t = schan_of s"
    using assms(2,6)
    by (auto simp: s2_def fun_eq_iff chan_of_def conn_of_def sess_of_def schan_of_def put_conn_def put_chan_def)
  have p: "chan_of s b = Some d \<longleftrightarrow> conn_of s d = Some b" for b d
    using m(1) by (simp add: linked_def)
  have "linked ?t"
    unfolding linked_def v
  proof (intro conjI allI)
    fix b d
    show "((chan_of s)(a := Some c)) b = Some d \<longleftrightarrow> ((conn_of s)(c := Some a)) d = Some b"
      using p[of b d] none by auto
  qed (use m(1) in \<open>simp_all add: linked_def\<close>)
  moreover have "c \<notin> set (channels s)"
    using m(2) assms(2) by (auto simp: counted_def)
  then have "counted ?t"
    using m(2) assms(7)
    by (auto simp: counted_def s2_def put_conn_def put_chan_def unat_word_ariths)
  ultimately show ?thesis by (simp add: manager_inv_def)
qed

lemma attach_fresh:
  assumes "chans s c = Some ch" "cconnection ch = None" "conns s a = Some cn"
  shows "UA_Connection_attachSecureChannel a c s =
    Done (put_conn a (cn\<lparr>cchannel := Some c\<rparr>) (put_chan c (ch\<lparr>cconnection := Some a\<rparr>) s))"
  using assms by (simp add: UA_Connection_attachSecureChannel_def deref_def)

lemma revised_lifetime_bounds:
  "revised_lifetime cfg t \<le> maxSecurityTokenLifetime cfg"
  "0 < maxSecurityTokenLifetime cfg \<Longrightarrow> 0 < revised_lifetime cfg t"
  by (auto simp: revised_lifetime_def Let_def word_neq_0_conv)

lemma open_channel_step:
  assumes inv: "manager_inv s" and conn: "conns s a = Some cn" "cchannel cn = None"
    and room: "length (channels s) \<le> unat (maxSecureChannels cfg)"
    and fresh: "\<And>ok s1 c. make_room cfg s = Done (ok, s1) \<Longrightarrow> malloc = Some c \<Longrightarrow> chans s1 c = None"
  obtains (refused) rv s' where
      "UA_SecureChannelManager_open cfg malloc now nowMono a r s = Done (rv, None, s')" "rv \<noteq> GOOD" "evolves s s'"
      "conns s' a = Some cn" "\<And>d dh. chans s d = Some dh \<Longrightarrow> csessions dh \<noteq> [] \<Longrightarrow> chans s' d = Some dh"
  | (opened) c s1 s' ch nonce tok where
      "UA_SecureChannelManager_open cfg malloc now nowMono a r s = Done (GOOD, Some (nonce, tok), s')"
      "evolves s s1" "malloc = Some c" "manager_inv s'" "c \<notin> set (channels s1)" "channels s' = c # channels s1"
      "length (channels s') \<le> unat (maxSecureChannels cfg)" "sessions s' = sessions s"
      "chans s' = (chans s1)(c \<mapsto> ch)" "cconnection ch = Some a" "csessions ch = []" "next_ok ch"
      "channelId (securityToken ch) = lastChannelId s" "lastChannelId s' = lastChannelId s + 1"
      "securityToken ch = tok\<lparr>createdAt := nowMono\<rparr>" "chan_of s' a = Some c"
      "revisedLifetime tok \<le> maxSecurityTokenLifetime cfg"
      "\<And>d dh. chans s d = Some dh \<Longrightarrow> csessions dh \<noteq> [] \<Longrightarrow> chans s' d = Some dh"
proof -
  note open_def = UA_SecureChannelManager_open_def
  show thesis
  proof (cases "securityMode r = 1")
    case False
    then show ?thesis
      using refused[of BADSECURITYMODEREJECTED s] evolves_refl[OF inv] conn by (simp add: open_def)
  next
    case mode: True
    obtain ok s1 where mr: "make_room cfg s = Done (ok, s1)"
      using make_room_total[OF inv, of cfg] by (auto split: if_splits option.splits)
    note e = make_room_evolves[OF inv mr]
    show ?thesis
    proof (cases "ok \<and> malloc \<noteq> None")
      case False
      then show ?thesis
        using refused[of BADOUTOFMEMORY s1] e(1) e(5)[OF conn] e(6) mode mr by (auto simp: open_def)
    next
      case True
      then obtain c where c: "malloc = Some c" "ok" by auto
      define tok where "tok = \<lparr> channelId = lastChannelId s1, tokenId = lastTokenId s1, createdAt = now,
        revisedLifetime = revised_lifetime cfg (requestedLifetime r) \<rparr>"
      define ch where "ch = UA_SecureChannel_init\<lparr>securityToken := tok\<lparr>createdAt := nowMono\<rparr>,
        clientNonce := requestNonce r, serverNonce := UA_SecureChannel_generateNonce,
        policyUri := Some (str ''http://opcfoundation.org/UA/SecurityPolicy#None'')\<rparr>"
      define s2 where "s2 = put_chan c ch (s1\<lparr>lastChannelId := lastChannelId s1 + 1, lastTokenId := lastTokenId s1 + 1\<rparr>)"
      define s3 where "s3 = put_conn a (cn\<lparr>cchannel := Some c\<rparr>) (put_chan c (ch\<lparr>cconnection := Some a\<rparr>) s2)"
      define s' where "s' = s3\<lparr>channels := c # channels s3, currentChannelCount := currentChannelCount s3 + 1\<rparr>"
      have inv1: "manager_inv s1" and f: "chans s1 c = None" and cn: "conns s1 a = Some cn"
        using e(1) evolves_inv fresh[OF mr c(1)] e(5)[OF conn] by auto
      have small: "length (channels s1) < unat (maxSecureChannels cfg)" using e(2)[OF c(2) room] .
      then have "length (channels s1) < 2 ^ 16" using unsigned_less[of "maxSecureChannels cfg", where 'a = nat] by simp
      have ch0: "cconnection ch = None" "csessions ch = []" "next_ok ch"
        by (simp_all add: ch_def UA_SecureChannel_init_def next_ok_def token_init_def)
      have at: "UA_Connection_attachSecureChannel a c s2 = Done s3"
        unfolding s3_def by (rule attach_fresh) (simp_all add: s2_def put_chan_def cn ch0)
      then have run: "UA_SecureChannelManager_open cfg malloc now nowMono a r s =
          Done (GOOD, Some (serverNonce ch, tok), s')"
        by (simp only: open_def mode mr c bind.simps prod.case option.case Let_def simp_thms if_False
            tok_def[symmetric] ch_def[symmetric] s2_def[symmetric] at s'_def)
      have s'eq: "s' = (let t = put_conn a (cn\<lparr>cchannel := Some c\<rparr>) (put_chan c (ch\<lparr>cconnection := Some a\<rparr>) s1)
          in t\<lparr>channels := c # channels t, currentChannelCount := currentChannelCount t + 1,
               lastChannelId := lastChannelId s1 + 1, lastTokenId := lastTokenId s1 + 1\<rparr>)"
        by (simp add: s'_def s3_def s2_def put_conn_def put_chan_def Let_def)
      have "manager_inv s'"
        unfolding s'eq Let_def
        by (rule add_channel[OF inv1 f cn conn(2) ch0(1,2)]) (use \<open>length (channels s1) < 2 ^ 16\<close> in simp)
      moreover have "c \<notin> set (channels s1)"
        using inv1 f by (auto simp: manager_inv_def counted_def)
      moreover have "lastChannelId s1 = lastChannelId s" using e(1) by (simp add: evolves_def)
      moreover have "d \<noteq> c" "chans s1 d = Some dh" if "chans s d = Some dh" "csessions dh \<noteq> []" for d dh
        using e(6)[OF that] f by auto
      ultimately show ?thesis
        using opened[OF run e(1) c(1), of "ch\<lparr>cconnection := Some a\<rparr>"] small ch0 e(4)
          revised_lifetime_bounds(1)[of cfg "requestedLifetime r"]
        by (simp add: s'eq Let_def put_conn_def put_chan_def next_ok_def chan_of_def, simp add: ch_def tok_def)
    qed
  qed
qed


lemma renew_channel:
  assumes "manager_inv s" "conns s a = Some cn"
  shows "(cchannel cn = None \<and> UA_SecureChannelManager_renew cfg now nowMono a r s = Done (BADINTERNALERROR, None, s)) \<or>
    (\<exists>c ch tok s'. cchannel cn = Some c \<and> chans s c = Some ch \<and>
      UA_SecureChannelManager_renew cfg now nowMono a r s = Done (GOOD, Some (serverNonce ch, tok), s') \<and>
      evolves s s' \<and> channels s' = channels s \<and> sessions s' = sessions s \<and>
      (next_ok ch \<longrightarrow> channelId tok = channelId (securityToken ch)))"
proof (cases "cchannel cn")
  case None
  then show ?thesis using assms by (simp add: UA_SecureChannelManager_renew_def deref_def)
next
  case (Some c)
  then obtain ch where ch: "chans s c = Some ch"
    using linkedD(1)[of s a cn c] assms by (auto simp: manager_inv_def)
  define fresh where "fresh = (tokenId (nextSecurityToken ch) = 0)"
  define tok where "tok = (if fresh then \<lparr> channelId = channelId (securityToken ch), tokenId = lastTokenId s,
      createdAt = now, revisedLifetime = revised_lifetime cfg (requestedLifetime r) \<rparr> else nextSecurityToken ch)"
  define s1 where "s1 = (if fresh then s\<lparr>lastTokenId := lastTokenId s + 1\<rparr> else s)"
  define ch' where "ch' = ch\<lparr>nextSecurityToken := tok\<lparr>createdAt := nowMono\<rparr>, clientNonce := requestNonce r\<rparr>"
  have "UA_SecureChannelManager_renew cfg now nowMono a r s = Done (GOOD, Some (serverNonce ch, tok), put_chan c ch' s1)"
    using assms(2) Some ch
    by (simp only: UA_SecureChannelManager_renew_def deref_def option.case bind.simps Let_def
        fresh_def[symmetric] tok_def[symmetric] s1_def[symmetric] ch'_def)
  moreover have "manager_inv s1" "chans s1 = chans s" "channels s1 = channels s" "sessions s1 = sessions s"
    "lastChannelId s1 = lastChannelId s"
    using assms(1)
    by (auto simp: s1_def manager_inv_def linked_def counted_def chan_of_def conn_of_def sess_of_def schan_of_def)
  moreover have "next_ok ch \<Longrightarrow> channelId tok = channelId (securityToken ch)"
    by (auto simp: tok_def fresh_def next_ok_def)
  moreover from this have "evolves s1 (put_chan c ch' s1)"
    using \<open>manager_inv s1\<close> \<open>chans s1 = chans s\<close> ch
    by (intro put_chan_evolves[of _ _ ch]) (auto simp: ch'_def next_ok_def)
  ultimately show ?thesis
    using Some ch by (auto simp: evolves_def link_simps)
qed

section \<open>Cleaning up\<close>

definition expired :: "int \<Rightarrow> secureChannel \<Rightarrow> bool" where
  "expired nowMono ch \<longleftrightarrow> token_timeout (securityToken ch) < nowMono \<or> cconnection ch = None"

text \<open>What becomes of a channel when \<open>cs\<close> are looked at: it goes, or goes on with its new token.\<close>

definition cleaned :: "int \<Rightarrow> nat list \<Rightarrow> server \<Rightarrow> nat \<Rightarrow> secureChannel option" where
  "cleaned nowMono cs s c =
     (if c \<in> set cs then (case chans s c of
          None \<Rightarrow> None
        | Some ch \<Rightarrow> if expired nowMono ch then None else Some (UA_SecureChannel_revolveTokens ch))
      else chans s c)"

lemma revolve_none: "tokenId (nextSecurityToken ch) = 0 \<Longrightarrow> UA_SecureChannel_revolveTokens ch = ch"
  by (simp add: UA_SecureChannel_revolveTokens_def)

lemma cleanup_channels_walk:
  "manager_inv s \<Longrightarrow> distinct cs \<Longrightarrow> set cs \<subseteq> set (channels s) \<Longrightarrow>
   \<exists>s'. cleanup_channels nowMono cs s = Done s' \<and> evolves s s' \<and> chans s' = cleaned nowMono cs s \<and>
     sessions s' = sessions s"
proof (induction cs arbitrary: s)
  case Nil
  then show ?case by (auto simp: cleaned_def evolves_refl)
next
  case (Cons c cs)
  then obtain ch where ch: "chans s c = Some ch" using alive[of s c] by auto
  define s1 where "s1 = (if expired nowMono ch then drop_channel c s
      else put_chan c (UA_SecureChannel_revolveTokens ch) s)"
  have c: "c \<in> set (channels s)" using Cons.prems by simp
  have keep: "put_chan c ch s = s" using ch by (cases s) (auto simp: put_chan_def)
  have step: "evolves s s1"
    using drop_channel_evolves(2)[OF Cons.prems(1) c] revolve_evolves[OF Cons.prems(1) ch] by (simp add: s1_def)
  have run: "cleanup_channels nowMono (c # cs) s = cleanup_channels nowMono cs s1"
    using drop_channel_evolves(1)[OF Cons.prems(1) c] ch revolve_none[of ch] keep
    by (cases "tokenId (nextSecurityToken ch) = 0") (auto simp: s1_def deref_def expired_def word_neq_0_conv)
  have "set cs \<subseteq> set (channels s1)"
    using Cons.prems by (auto simp: s1_def drop_channel_def link_simps manager_inv_def counted_def)
  from Cons.IH[OF evolves_inv[OF step] _ this] Cons.prems(2) obtain s' where
    s': "cleanup_channels nowMono cs s1 = Done s'" "evolves s1 s'" "chans s' = cleaned nowMono cs s1"
      "sessions s' = sessions s1" by auto
  moreover have "cleaned nowMono cs s1 = cleaned nowMono (c # cs) s"
    using Cons.prems(2) ch by (auto simp: cleaned_def s1_def drop_channel_def link_simps fun_eq_iff)
  moreover have "sessions s1 = sessions s"
    by (simp add: s1_def drop_channel_def link_simps)
  ultimately show ?case
    using evolves_trans[OF step s'(2)] run by auto
qed

definition same_but_sessions :: "server \<Rightarrow> server \<Rightarrow> bool" where
  "same_but_sessions s s' \<longleftrightarrow> (\<forall>c. map_option (\<lambda>ch. ch\<lparr>csessions := []\<rparr>) (chans s' c) =
     map_option (\<lambda>ch. ch\<lparr>csessions := []\<rparr>) (chans s c))"

lemma cleanup_sessions_walk:
  "manager_inv s \<Longrightarrow> distinct is \<Longrightarrow> set is \<subseteq> set (sessions s) \<Longrightarrow>
   \<exists>s'. cleanup_sessions nowMono is s = Done s' \<and> evolves s s' \<and>
     sess s' = (\<lambda>i. if i \<in> set is \<and> (\<exists>se. sess s i = Some se \<and> validTill se < nowMono) then None else sess s i) \<and>
     channels s' = channels s \<and> same_but_sessions s s'"
proof (induction "is" arbitrary: s)
  case Nil
  then show ?case by (auto simp: evolves_refl same_but_sessions_def)
next
  case (Cons i "is")
  then obtain se where se: "sess s i = Some se" using alive_session[of s i] by auto
  define s1 where "s1 = (if validTill se < nowMono then drop_session i s else s)"
  have i: "i \<in> set (sessions s)" using Cons.prems by simp
  have step: "evolves s s1"
    using drop_session_evolves(2)[OF Cons.prems(1) i] evolves_refl[OF Cons.prems(1)] by (simp add: s1_def)
  have run: "cleanup_sessions nowMono (i # is) s = cleanup_sessions nowMono is s1"
    using drop_session_evolves(1)[OF Cons.prems(1) i] se by (auto simp: s1_def deref_def)
  have "set is \<subseteq> set (sessions s1)"
    using Cons.prems by (auto simp: s1_def drop_session_def manager_inv_def counted_def)
  from Cons.IH[OF evolves_inv[OF step] _ this] Cons.prems(2) obtain s' where
    s': "cleanup_sessions nowMono is s1 = Done s'" "evolves s1 s'" "channels s' = channels s1"
      "sess s' = (\<lambda>i. if i \<in> set is \<and> (\<exists>se. sess s1 i = Some se \<and> validTill se < nowMono) then None else sess s1 i)"
      "same_but_sessions s1 s'"
    by auto
  moreover have "sess s' = (\<lambda>j. if j \<in> set (i # is) \<and> (\<exists>se. sess s j = Some se \<and> validTill se < nowMono)
      then None else sess s j)"
    unfolding s'(4) using Cons.prems(2) se by (auto simp: s1_def drop_session_def fun_eq_iff)
  moreover have "channels s1 = channels s"
    by (simp add: s1_def drop_session_def)
  moreover have "same_but_sessions s s'"
    using s'(5) by (simp add: same_but_sessions_def s1_def drop_session_def option.map_comp comp_def split: if_splits)
  ultimately show ?case
    using evolves_trans[OF step s'(2)] run by auto
qed

section \<open>Sessions\<close>

lemma remove_session:
  assumes "manager_inv s"
  shows "UA_SessionManager_removeSession token s =
      Done (case with_token token s of None \<Rightarrow> (BADSESSIONIDINVALID, s) | Some i \<Rightarrow> (GOOD, drop_session i s))"
    and "evolves s (case with_token token s of None \<Rightarrow> s | Some i \<Rightarrow> drop_session i s)"
proof -
  have d: "set (sessions s) \<subseteq> dom (sess s)" using assms by (simp add: manager_inv_def counted_def)
  have "\<And>i. with_token token s = Some i \<Longrightarrow> i \<in> set (sessions s)"
    by (auto simp: with_token_def dest: find_mem)
  then show "UA_SessionManager_removeSession token s =
      Done (case with_token token s of None \<Rightarrow> (BADSESSIONIDINVALID, s) | Some i \<Rightarrow> (GOOD, drop_session i s))"
    and "evolves s (case with_token token s of None \<Rightarrow> s | Some i \<Rightarrow> drop_session i s)"
    using assms drop_session_evolves[OF assms] evolves_refl[OF assms]
    by (auto simp: UA_SessionManager_removeSession_def find_session_total[OF assms d] with_token_def[symmetric]
        split: option.splits)
qed

lemma add_session:
  assumes "manager_inv s" "sess s i = None" "schannel se = None" "length (sessions s) < 2 ^ 32 - 1"
  shows "manager_inv (put_sess i se (s\<lparr>currentSessionCount := currentSessionCount s + 1, sessions := i # sessions s\<rparr>))"
    (is "manager_inv ?t")
proof -
  have m: "linked s" "counted s" using assms(1) by (simp_all add: manager_inv_def)
  have "chan_of ?t = chan_of s" "conn_of ?t = conn_of s" "sess_of ?t = sess_of s" "schan_of ?t = schan_of s"
    using assms(2,3)
    by (auto simp: fun_eq_iff chan_of_def conn_of_def sess_of_def schan_of_def put_sess_def)
  then have "linked ?t" using m(1) by (simp add: linked_def)
  moreover have "i \<notin> set (sessions s)" using m(2) assms(2) by (auto simp: counted_def)
  then have "counted ?t"
    using m(2) assms(4) by (auto simp: counted_def put_sess_def unat_word_ariths)
  ultimately show ?thesis by (simp add: manager_inv_def)
qed

text \<open>A session on another channel, or on none, is bound to the channel that activates it.\<close>

lemma attach_session:
  assumes "manager_inv s" "sess s i = Some se" "schannel se = None" "chans s c = Some ch"
  defines "s' \<equiv> put_chan c (ch\<lparr>csessions := i # csessions ch\<rparr>) (put_sess i (se\<lparr>schannel := Some c\<rparr>) s)"
  shows "UA_SecureChannel_attachSession True c i s = Done s'" "evolves s s'"
proof -
  show "UA_SecureChannel_attachSession True c i s = Done s'"
    using assms by (simp add: UA_SecureChannel_attachSession_def deref_def link_simps)
  have m: "linked s" "counted s" using assms(1) by (simp_all add: manager_inv_def)
  have v: "schan_of s i = None" "sess_of s c = csessions ch" "conn_of s c = cconnection ch"
    using assms by (simp_all add: schan_of_def sess_of_def conn_of_def)
  have w: "chan_of s' = chan_of s" "conn_of s' = conn_of s" "schan_of s' = (schan_of s)(i := Some c)"
    "sess_of s' = (sess_of s)(c := i # sess_of s c)"
    using v by (auto simp: s'_def link_simps)
  have p: "schan_of s j = Some d \<longleftrightarrow> j \<in> set (sess_of s d)" and q: "distinct (sess_of s d)" for j d
    using m(1) by (simp_all add: linked_def)
  have "linked s'"
    unfolding linked_def w
  proof (intro conjI allI)
    fix j d
    show "((schan_of s)(i := Some c)) j = Some d \<longleftrightarrow> j \<in> set (((sess_of s)(c := i # sess_of s c)) d)"
      using p[of j d] p[of i d] v(1) by auto
    show "distinct (((sess_of s)(c := i # sess_of s c)) d)"
      using q[of d] p[of i c] v(1) by auto
  qed (use m(1) in \<open>simp add: linked_def\<close>)
  moreover have "counted s'"
    using m(2) assms(2,4) by (auto simp: counted_def s'_def link_simps)
  ultimately show "evolves s s'"
    using assms(4) by (auto simp: evolves_def manager_inv_def s'_def link_simps next_ok_def)
qed

lemma detach_session:
  assumes "manager_inv s" "sess s i = Some se" "schannel se = Some c"
  shows "\<exists>s'. UA_SecureChannel_detachSession c i s = Done s' \<and> evolves s s' \<and>
    sess s' = (sess s)(i \<mapsto> se\<lparr>schannel := None\<rparr>) \<and> channels s' = channels s \<and> sessions s' = sessions s \<and>
    conns s' = conns s \<and> dom (chans s') = dom (chans s)"
proof -
  have m: "linked s" "counted s" using assms(1) by (simp_all add: manager_inv_def)
  obtain ch where ch: "chans s c = Some ch" using linkedD(3)[OF m(1) assms(2,3)] by auto
  define s' where "s' = put_chan c (ch\<lparr>csessions := remove1 i (csessions ch)\<rparr>) (put_sess i (se\<lparr>schannel := None\<rparr>) s)"
  have v: "schan_of s i = Some c" "sess_of s c = csessions ch" "conn_of s c = cconnection ch"
    using assms ch by (simp_all add: schan_of_def sess_of_def conn_of_def)
  have w: "chan_of s' = chan_of s" "conn_of s' = conn_of s" "schan_of s' = (schan_of s)(i := None)"
    "sess_of s' = (sess_of s)(c := remove1 i (sess_of s c))"
    using v by (auto simp: s'_def link_simps)
  have p: "schan_of s j = Some d \<longleftrightarrow> j \<in> set (sess_of s d)" and q: "distinct (sess_of s d)" for j d
    using m(1) by (simp_all add: linked_def)
  have "linked s'"
    unfolding linked_def w
  proof (intro conjI allI)
    fix j d
    show "((schan_of s)(i := None)) j = Some d \<longleftrightarrow> j \<in> set (((sess_of s)(c := remove1 i (sess_of s c))) d)"
      using p[of j d] v(1) q[of c] by auto
    show "distinct (((sess_of s)(c := remove1 i (sess_of s c))) d)"
      using q[of d] q[of c] by simp
  qed (use m(1) in \<open>simp add: linked_def\<close>)
  moreover have "counted s'"
    using m(2) assms(2) ch by (auto simp: counted_def s'_def link_simps)
  ultimately have "evolves s s'"
    using ch by (auto simp: evolves_def manager_inv_def s'_def link_simps next_ok_def)
  moreover have "UA_SecureChannel_detachSession c i s = Done s'"
    using assms ch by (simp add: UA_SecureChannel_detachSession_def deref_def s'_def)
  ultimately show ?thesis
    using ch by (auto simp: s'_def link_simps)
qed

section \<open>Connections\<close>

lemma detach_connection:
  assumes "manager_inv s" "conns s a = Some cn"
  defines "s' \<equiv> s\<lparr>conns := (conns s)(a := None), chans := (\<lambda>c. map_option (\<lambda>ch.
      if cconnection ch = Some a then ch\<lparr>cconnection := None\<rparr> else ch) (chans s c))\<rparr>"
  shows "\<exists>s1. UA_Connection_detachSecureChannel a s = Done s1 \<and> s1\<lparr>conns := (conns s1)(a := None)\<rparr> = s'"
    and "evolves s s'"
proof -
  have m: "linked s" "counted s" using assms(1) by (simp_all add: manager_inv_def)
  define g where "g = (\<lambda>c. map_option (\<lambda>ch. if cconnection ch = Some a then ch\<lparr>cconnection := None\<rparr> else ch) (chans s c))"
  have one: "cconnection ch = Some a \<longleftrightarrow> cchannel cn = Some c" if "chans s c = Some ch" for c ch
    using linkedD(1)[OF m(1) assms(2), of c] linkedD(2)[OF m(1) that, of a] that assms(2) by auto
  show "\<exists>s1. UA_Connection_detachSecureChannel a s = Done s1 \<and> s1\<lparr>conns := (conns s1)(a := None)\<rparr> = s'"
  proof (cases "cchannel cn")
    case None
    have "g = chans s"
    proof
      fix c
      show "g c = chans s c"
        using one[of c] None by (cases "chans s c") (auto simp: g_def)
    qed
    then show ?thesis
      using None assms(2)
      by (simp add: UA_Connection_detachSecureChannel_def deref_def s'_def g_def[symmetric] put_conn_def)
  next
    case (Some c)
    then obtain ch where ch: "chans s c = Some ch" "cconnection ch = Some a"
      using linkedD(1)[OF m(1) assms(2)] by auto
    have "g = (chans s)(c \<mapsto> ch\<lparr>cconnection := None\<rparr>)"
    proof
      fix d
      show "g d = ((chans s)(c \<mapsto> ch\<lparr>cconnection := None\<rparr>)) d"
        using one[of d] ch Some by (cases "chans s d") (auto simp: g_def)
    qed
    then show ?thesis
      using Some ch assms(2)
      by (simp add: UA_Connection_detachSecureChannel_def deref_def s'_def g_def[symmetric] put_conn_def put_chan_def)
  qed
  have v: "chan_of s' = (chan_of s)(a := None)" "conn_of s' = (\<lambda>c. if conn_of s c = Some a then None else conn_of s c)"
    "sess_of s' = sess_of s" "schan_of s' = schan_of s"
    by (auto simp: fun_eq_iff s'_def chan_of_def conn_of_def sess_of_def schan_of_def split: option.splits)
  have "linked s'"
    unfolding linked_def v
  proof (intro conjI allI)
    fix b d
    have "chan_of s b = Some d \<longleftrightarrow> conn_of s d = Some b" using m(1) by (simp add: linked_def)
    then show "((chan_of s)(a := None)) b = Some d \<longleftrightarrow> (if conn_of s d = Some a then None else conn_of s d) = Some b"
      by auto
  qed (use m(1) in \<open>simp_all add: linked_def\<close>)
  moreover have "counted s'"
    using m(2) by (auto simp: counted_def s'_def)
  ultimately have "manager_inv s'" by (simp add: manager_inv_def)
  moreover have "lastChannelId s' = lastChannelId s" "channels s' = channels s" "sessions s' = sessions s"
    by (simp_all add: s'_def)
  moreover have "\<exists>ch. chans s c = Some ch \<and> (next_ok ch \<longrightarrow>
      channelId (securityToken ch') = channelId (securityToken ch) \<and> next_ok ch')" if "chans s' c = Some ch'" for c ch'
    using that by (auto simp: s'_def next_ok_def split: if_splits)
  ultimately show "evolves s s'"
    by (simp add: evolves_def)
qed

end
