(* ===== verification/ManagerProps.thy ===== *)
theory ManagerProps
  imports ManagerOps
begin

text \<open>
  The server's channels and sessions as a state machine: the operations in any order, on any
  connections, with any clock and any addresses from \<open>malloc\<close> that are not in use.  The invariant
  holds in the states that are reached without opening a channel on a connection that has one; what
  happens otherwise is the last property.
\<close>

section \<open>Reachable states\<close>

definition empty_server :: server where
  "empty_server = UA_SessionManager_init (UA_SecureChannelManager_init
     \<lparr> conns = Map.empty, chans = Map.empty, sess = Map.empty, channels = [], lastChannelId = 0, lastTokenId = 0,
       currentChannelCount = 0, sessions = [], currentSessionCount = 0 \<rparr>)"

text \<open>\<open>malloc\<close> returns no address in use, once room was made.\<close>

definition malloc_fresh :: "serverConfig \<Rightarrow> nat option \<Rightarrow> server \<Rightarrow> bool" where
  "malloc_fresh cfg malloc s \<longleftrightarrow> (case (malloc, make_room cfg s) of
     (Some c, Done (_, s1)) \<Rightarrow> chans s1 c = None | _ \<Rightarrow> True)"

text \<open>
  \<open>reach cfg n b b s\<close>: \<open>s\<close> is reached with \<open>n\<close> attempts to open a channel, and \<open>b\<close> says whether one of
  them was made on a connection that had a channel.
\<close>

inductive reach :: "serverConfig \<Rightarrow> nat \<Rightarrow> bool \<Rightarrow> server \<Rightarrow> bool" for cfg where
  start: "reach cfg 0 False empty_server"
| accept: "reach cfg n b s \<Longrightarrow> conns s a = None \<Longrightarrow> cchannel cn = None \<Longrightarrow> reach cfg n b (put_conn a cn s)"
| open_chan: "reach cfg n b s \<Longrightarrow> conns s a = Some cn \<Longrightarrow> malloc_fresh cfg malloc s \<Longrightarrow>
    UA_SecureChannelManager_open cfg malloc now nowMono a r s = Done (rv, resp, s') \<Longrightarrow> reach cfg (Suc n) (b \<or> cchannel cn \<noteq> None) s'"
| renew: "reach cfg n b s \<Longrightarrow> conns s a = Some cn \<Longrightarrow>
    UA_SecureChannelManager_renew cfg now nowMono a r s = Done (rv, resp, s') \<Longrightarrow> reach cfg n b s'"
| activity: "reach cfg n b s \<Longrightarrow> chans s c = Some ch \<Longrightarrow>
    reach cfg n b (put_chan c (ch\<lparr>receiveSequenceNumber := x, sendSequenceNumber := y, chunks := z\<rparr>) s)"
| revolve: "reach cfg n b s \<Longrightarrow> chans s c = Some ch \<Longrightarrow> reach cfg n b (put_chan c (UA_SecureChannel_revolveTokens ch) s)"
| close: "reach cfg n b s \<Longrightarrow> UA_SecureChannelManager_close k s = Done (rv, s') \<Longrightarrow> reach cfg n b s'"
| disconnect: "reach cfg n b s \<Longrightarrow> conns s a = Some cn \<Longrightarrow> UA_Connection_detachSecureChannel a s = Done s1 \<Longrightarrow>
    reach cfg n b (s1\<lparr>conns := (conns s1)(a := None)\<rparr>)"
| create: "reach cfg n b s \<Longrightarrow> (\<forall>i. malloc = Some i \<longrightarrow> sess s i = None) \<Longrightarrow>
    UA_SessionManager_createSession cfg pcg32_random_r g malloc nowMono t s = Done (rv, r, g', s') \<Longrightarrow> reach cfg n b s'"
| activate: "reach cfg n b s \<Longrightarrow> sess s i = Some se \<Longrightarrow> chans s c = Some ch \<Longrightarrow>
    Service_ActivateSession cfg malloc t1 t2 c i token s = Done (rv, s') \<Longrightarrow> reach cfg n b s'"
| remove: "reach cfg n b s \<Longrightarrow> UA_SessionManager_removeSession token s = Done (rv, s') \<Longrightarrow> reach cfg n b s'"
| cleanup: "reach cfg n b s \<Longrightarrow> UA_Server_cleanup nowMono s = Done s' \<Longrightarrow> reach cfg n b s'"

lemma malloc_freshD:
  "malloc_fresh cfg malloc s \<Longrightarrow> make_room cfg s = Done (ok, s1) \<Longrightarrow> malloc = Some c \<Longrightarrow> chans s1 c = None"
  by (simp add: malloc_fresh_def)

text \<open>The identifiers of the channels: below the next one, and no two alike.\<close>

definition ids_ok :: "nat \<Rightarrow> server \<Rightarrow> bool" where
  "ids_ok n s \<longleftrightarrow> n < 2 ^ 32 - 1 \<longrightarrow> unat (lastChannelId s) \<le> Suc n \<and> 1 \<le> unat (lastChannelId s) \<and>
     (\<forall>c ch. chans s c = Some ch \<longrightarrow> next_ok ch \<and> unat (channelId (securityToken ch)) < unat (lastChannelId s)) \<and>
     (\<forall>c ch d dh. chans s c = Some ch \<longrightarrow> chans s d = Some dh \<longrightarrow>
        channelId (securityToken ch) = channelId (securityToken dh) \<longrightarrow> c = d)"

definition reach_inv :: "serverConfig \<Rightarrow> nat \<Rightarrow> server \<Rightarrow> bool" where
  "reach_inv cfg n s \<longleftrightarrow> manager_inv s \<and> ids_ok n s \<and> length (channels s) \<le> unat (maxSecureChannels cfg) \<and>
     length (sessions s) \<le> unat (maxSessions cfg)"

lemma evolves_length:
  assumes "evolves s t" "manager_inv s"
  shows "length (channels t) \<le> length (channels s)" "length (sessions t) \<le> length (sessions s)"
proof -
  have "distinct (channels t)" "distinct (sessions t)" "distinct (channels s)" "distinct (sessions s)"
    using assms by (auto simp: evolves_def manager_inv_def counted_def)
  moreover have "card (set (channels t)) \<le> card (set (channels s))" "card (set (sessions t)) \<le> card (set (sessions s))"
    using assms(1) by (auto simp: evolves_def intro!: card_mono)
  ultimately show "length (channels t) \<le> length (channels s)" "length (sessions t) \<le> length (sessions s)"
    by (simp_all add: distinct_card)
qed

lemma evolves_ids:
  assumes "evolves s t" "ids_ok n s"
  shows "ids_ok n t"
  unfolding ids_ok_def
proof (intro impI, goal_cases)
  case 1
  with assms(2) have s: "unat (lastChannelId s) \<le> Suc n" "1 \<le> unat (lastChannelId s)"
      "\<And>c ch. chans s c = Some ch \<Longrightarrow> next_ok ch \<and> unat (channelId (securityToken ch)) < unat (lastChannelId s)"
      "\<And>c ch d dh. chans s c = Some ch \<Longrightarrow> chans s d = Some dh \<Longrightarrow>
        channelId (securityToken ch) = channelId (securityToken dh) \<Longrightarrow> c = d"
    by (simp_all add: ids_ok_def)
  have l: "lastChannelId t = lastChannelId s" using assms(1) by (simp add: evolves_def)
  have from_s: "\<exists>ch. chans s c = Some ch \<and> channelId (securityToken ch') = channelId (securityToken ch) \<and> next_ok ch'"
    if "chans t c = Some ch'" for c ch'
    using assms(1) that s(3) unfolding evolves_def by blast
  have "next_ok ch' \<and> unat (channelId (securityToken ch')) < unat (lastChannelId t)" if "chans t c = Some ch'" for c ch'
    using from_s[OF that] s(3) l by auto
  moreover have "c = d" if "chans t c = Some ch'" "chans t d = Some dh'"
    "channelId (securityToken ch') = channelId (securityToken dh')" for c ch' d dh'
    using from_s[OF that(1)] from_s[OF that(2)] s(4) that(3) by metis
  ultimately show ?case using s l by auto
qed

lemma evolves_reach:
  assumes "evolves s t" "reach_inv cfg n s"
  shows "reach_inv cfg n t"
proof -
  have "manager_inv s" "ids_ok n s" using assms(2) by (simp_all add: reach_inv_def)
  with evolves_length[OF assms(1)] evolves_ids[OF assms(1)] evolves_inv[OF assms(1)] assms(2)
  show ?thesis by (auto simp: reach_inv_def)
qed

lemma reach_start: "reach_inv cfg 0 empty_server"
  by (auto simp: reach_inv_def manager_inv_def linked_def counted_def ids_ok_def empty_server_def
      UA_SessionManager_init_def UA_SecureChannelManager_init_def chan_of_def conn_of_def sess_of_def schan_of_def)

lemma reach_accept:
  assumes "reach_inv cfg n s" "conns s a = None" "cchannel cn = None"
  shows "reach_inv cfg n (put_conn a cn s)"
proof -
  have "chan_of s a = None" using assms(2) by (simp add: chan_of_def)
  then have "chan_of (put_conn a cn s) = chan_of s" using assms(3) by (auto simp: link_simps fun_eq_iff)
  then show ?thesis
    using assms(1) by (auto simp: reach_inv_def manager_inv_def linked_def counted_def ids_ok_def link_simps)
qed

lemma reach_open:
  assumes inv: "reach_inv cfg n s" and conn: "conns s a = Some cn" "cchannel cn = None"
    and fresh: "malloc_fresh cfg malloc s"
    and run: "UA_SecureChannelManager_open cfg malloc now nowMono a r s = Done (rv, resp, s')"
  shows "reach_inv cfg (Suc n) s'"
proof -
  have m: "manager_inv s" "length (channels s) \<le> unat (maxSecureChannels cfg)" using inv by (simp_all add: reach_inv_def)
  have up: "reach_inv cfg (Suc n) t" if "reach_inv cfg n t" for t
    using that by (auto simp: reach_inv_def ids_ok_def)
  show ?thesis
  proof (rule open_channel_step[OF m(1) conn m(2) malloc_freshD[OF fresh], where now = now and nowMono = nowMono and r = r])
    fix rv' s''
    assume "UA_SecureChannelManager_open cfg malloc now nowMono a r s = Done (rv', None, s'')" "evolves s s''"
    then show ?thesis using run up evolves_reach[OF _ inv] by simp
  next
    fix c s1 s'' ch nonce tok
    assume o: "UA_SecureChannelManager_open cfg malloc now nowMono a r s = Done (GOOD, Some (nonce, tok), s'')"
      "evolves s s1" "malloc = Some c" "manager_inv s''" "c \<notin> set (channels s1)" "channels s'' = c # channels s1"
      "length (channels s'') \<le> unat (maxSecureChannels cfg)" "sessions s'' = sessions s"
      "chans s'' = (chans s1)(c \<mapsto> ch)" "next_ok ch" "channelId (securityToken ch) = lastChannelId s"
      "lastChannelId s'' = lastChannelId s + 1"
    have s': "s' = s''" using run o(1) by simp
    have ids1: "ids_ok n s1" using evolves_ids[OF o(2)] inv by (simp add: reach_inv_def)
    have l1: "lastChannelId s1 = lastChannelId s" using o(2) by (simp add: evolves_def)
    have "ids_ok (Suc n) s''"
      unfolding ids_ok_def
    proof (intro impI, goal_cases)
      case 1
      then have i: "unat (lastChannelId s) \<le> Suc n" "1 \<le> unat (lastChannelId s)"
          "\<And>c ch. chans s1 c = Some ch \<Longrightarrow> next_ok ch \<and> unat (channelId (securityToken ch)) < unat (lastChannelId s)"
          "\<And>c ch d dh. chans s1 c = Some ch \<Longrightarrow> chans s1 d = Some dh \<Longrightarrow>
            channelId (securityToken ch) = channelId (securityToken dh) \<Longrightarrow> c = d"
        using ids1 l1 by (simp_all add: ids_ok_def)
      have u: "unat (lastChannelId s'') = Suc (unat (lastChannelId s))"
        using i(1) 1 o(12) by (simp add: unat_word_ariths)
      have "next_ok dh \<and> unat (channelId (securityToken dh)) < unat (lastChannelId s'')" if "chans s'' d = Some dh" for d dh
        using that o(9-11) i(3)[of d dh] u by (auto split: if_splits)
      moreover have "d = e" if "chans s'' d = Some dh" "chans s'' e = Some eh"
        "channelId (securityToken dh) = channelId (securityToken eh)" for d dh e eh
        using that o(9,11) i(3)[of d dh] i(3)[of e eh] i(4)[of d dh e eh] by (cases "d = c"; cases "e = c") simp_all
      ultimately show ?case using u i(1) by auto
    qed
    then show ?thesis
      using o(4,7,8) inv by (simp add: s' reach_inv_def)
  qed
qed

lemma reach_create:
  assumes inv: "reach_inv cfg n s" and fresh: "\<forall>i. malloc = Some i \<longrightarrow> sess s i = None"
    and run: "UA_SessionManager_createSession cfg rng g malloc nowMono t s = Done (rv, r, g', s')"
  shows "reach_inv cfg n s'"
proof (cases "unat (currentSessionCount s) \<ge> unat (maxSessions cfg) \<or> malloc = None")
  case True
  then show ?thesis using run inv by (auto simp: UA_SessionManager_createSession_def split: if_splits)
next
  case False
  then obtain i where i: "malloc = Some i" "sess s i = None" using fresh by auto
  have m: "manager_inv s" "unat (currentSessionCount s) = length (sessions s)"
    using inv by (auto simp: reach_inv_def manager_inv_def counted_def)
  let ?s = "s\<lparr>currentSessionCount := currentSessionCount s + 1, sessions := i # sessions s\<rparr>"
  have "\<exists>se. s' = put_sess i se ?s \<and> schannel se = None"
    using run False i(1)
    by (auto simp: UA_SessionManager_createSession_def Let_def bind_Done_iff UA_Session_updateLifetime_def
        UA_Session_init_def split: prod.splits)
  then obtain se where se: "schannel se = None" "s' = put_sess i se ?s" by auto
  have "unat (maxSessions cfg) < 2 ^ 16" using unsigned_less[of "maxSessions cfg", where 'a = nat] by simp
  then have "manager_inv s'"
    unfolding se(2) using False m(2) by (intro add_session[OF m(1) i(2) se(1)]) simp
  then show ?thesis
    using inv False m(2) se(2) by (auto simp: reach_inv_def ids_ok_def link_simps)
qed

lemma activation:
  assumes inv: "manager_inv s" and se: "sess s i = Some se" and ch: "chans s c = Some ch"
    and run: "Service_ActivateSession cfg malloc t1 t2 c i token s = Done (rv, s')"
  shows "evolves s s'" "rv \<noteq> GOOD \<Longrightarrow> s' = s"
    "rv = GOOD \<Longrightarrow> t1 \<le> validTill se \<and> check_identity cfg token = GOOD \<and>
      (\<exists>se'. sess s' i = Some se' \<and> activated se' \<and> schannel se' = (if malloc \<or> schannel se = Some c then Some c else None))"
proof -
  have "evolves s s' \<and> (rv \<noteq> GOOD \<longrightarrow> s' = s) \<and> (rv = GOOD \<longrightarrow> t1 \<le> validTill se \<and> check_identity cfg token = GOOD \<and>
      (\<exists>se'. sess s' i = Some se' \<and> activated se' \<and> schannel se' = (if malloc \<or> schannel se = Some c then Some c else None)))"
  proof (cases "validTill se < t1 \<or> check_identity cfg token \<noteq> GOOD")
    case True
    then show ?thesis
      using run se evolves_refl[OF inv] by (auto simp: Service_ActivateSession_def deref_def split: if_splits)
  next
    case False
    define off where "off = (case schannel se of None \<Rightarrow> Done s
      | Some c0 \<Rightarrow> if c0 \<noteq> c then UA_SecureChannel_detachSession c0 i s else Done s)"
    have "\<exists>s1 se1 ch1. off = Done s1 \<and> evolves s s1 \<and> sess s1 i = Some se1 \<and> chans s1 c = Some ch1 \<and>
        schannel se1 = (if schannel se = Some c then Some c else None)"
    proof (cases "schannel se = None \<or> schannel se = Some c")
      case True
      then show ?thesis using se ch evolves_refl[OF inv] by (auto simp: off_def)
    next
      case False
      then obtain c0 where c0: "schannel se = Some c0" "c0 \<noteq> c" by auto
      obtain s1 where s1: "UA_SecureChannel_detachSession c0 i s = Done s1" "evolves s s1"
          "sess s1 = (sess s)(i \<mapsto> se\<lparr>schannel := None\<rparr>)" "dom (chans s1) = dom (chans s)"
        using detach_session[OF inv se c0(1)] by auto
      then obtain ch1 where "chans s1 c = Some ch1" using ch by fastforce
      then show ?thesis using s1 c0 by (auto simp: off_def)
    qed
    then obtain s1 se1 ch1 where 1: "off = Done s1" "evolves s s1" "sess s1 i = Some se1" "chans s1 c = Some ch1"
        "schannel se1 = (if schannel se = Some c then Some c else None)" by auto
    have inv1: "manager_inv s1" using 1(2) by (rule evolves_inv)
    have "\<exists>s2 se2. UA_SecureChannel_attachSession malloc c i s1 = Done s2 \<and> evolves s1 s2 \<and> sess s2 i = Some se2 \<and>
        schannel se2 = (if malloc \<or> schannel se = Some c then Some c else None)"
    proof (cases "malloc \<and> schannel se1 = None")
      case True
      then show ?thesis
        using attach_session[OF inv1 1(3) _ 1(4)] by (auto simp: link_simps)
    next
      case False
      then show ?thesis
        using 1 evolves_refl[OF inv1] by (auto simp: UA_SecureChannel_attachSession_def deref_def)
    qed
    then obtain s2 se2 where 2: "UA_SecureChannel_attachSession malloc c i s1 = Done s2" "evolves s1 s2"
        "sess s2 i = Some se2" "schannel se2 = (if malloc \<or> schannel se = Some c then Some c else None)" by auto
    have "bind off (\<lambda>s1. bind (UA_SecureChannel_attachSession malloc c i s1) (\<lambda>s2. bind (deref (sess s2) i) (\<lambda>se2.
        bind (UA_Session_updateLifetime t2 (se2\<lparr>activated := True\<rparr>)) (\<lambda>se3. Done (GOOD, put_sess i se3 s2))))) =
        Done (rv, s')"
      using run se False by (simp add: Service_ActivateSession_def deref_def off_def)
    then obtain se3 where 3: "UA_Session_updateLifetime t2 (se2\<lparr>activated := True\<rparr>) = Done se3" "rv = GOOD"
        "s' = put_sess i se3 s2"
      using 1(1) 2(1,3) by (auto simp: deref_def bind_Done_iff)
    from 3(1) have 4: "activated se3" "schannel se3 = schannel se2"
      by (auto simp: UA_Session_updateLifetime_def bind_Done_iff)
    have "evolves s2 s'"
      unfolding 3(3) using evolves_inv[OF 2(2)] 2(3) 4(2) by (rule put_sess_evolves)
    then have "evolves s s'" using 1(2) 2(2) evolves_trans by blast
    then show ?thesis
      using False 3 4 2(4) by (auto simp: link_simps)
  qed
  then show "evolves s s'" "rv \<noteq> GOOD \<Longrightarrow> s' = s"
    "rv = GOOD \<Longrightarrow> t1 \<le> validTill se \<and> check_identity cfg token = GOOD \<and>
      (\<exists>se'. sess s' i = Some se' \<and> activated se' \<and> schannel se' = (if malloc \<or> schannel se = Some c then Some c else None))"
    by auto
qed

lemma cleanup_total:
  assumes "manager_inv s"
  shows "\<exists>s1 s'. UA_SessionManager_cleanupTimedOut nowMono s = Done s1 \<and> UA_Server_cleanup nowMono s = Done s' \<and>
    evolves s s' \<and> evolves s1 s' \<and> chans s' = cleaned nowMono (channels s) s1 \<and>
    sessions s' = sessions s1 \<and> evolves s s1 \<and> channels s1 = channels s \<and> same_but_sessions s s1 \<and>
    sess s1 = (\<lambda>i. if \<exists>se. sess s i = Some se \<and> validTill se < nowMono then None else sess s i)"
proof -
  have d: "distinct (sessions s)" "set (sessions s) = dom (sess s)" using assms by (auto simp: manager_inv_def counted_def)
  from cleanup_sessions_walk[OF assms d(1) subset_refl, of nowMono] obtain s1 where
    1: "cleanup_sessions nowMono (sessions s) s = Done s1" "evolves s s1" "channels s1 = channels s"
      "sess s1 = (\<lambda>i. if i \<in> set (sessions s) \<and> (\<exists>se. sess s i = Some se \<and> validTill se < nowMono) then None else sess s i)"
      "same_but_sessions s s1"
    by auto
  have inv1: "manager_inv s1" using 1(2) by (rule evolves_inv)
  then have "distinct (channels s1)" by (auto simp: manager_inv_def counted_def)
  from cleanup_channels_walk[OF inv1 this subset_refl, of nowMono] obtain s' where
    2: "cleanup_channels nowMono (channels s1) s1 = Done s'" "evolves s1 s'" "chans s' = cleaned nowMono (channels s1) s1"
      "sessions s' = sessions s1" by auto
  have "sess s1 = (\<lambda>i. if \<exists>se. sess s i = Some se \<and> validTill se < nowMono then None else sess s i)"
    unfolding 1(4) d(2) by (rule ext) auto
  then show ?thesis
    using 1(1-3,5) 2 evolves_trans[OF 1(2) 2(2)]
    by (simp add: UA_Server_cleanup_def UA_SessionManager_cleanupTimedOut_def UA_SecureChannelManager_cleanupTimedOut_def)
qed

lemma reach_inv_if: "reach cfg n b s \<Longrightarrow> \<not> b \<Longrightarrow> reach_inv cfg n s"
proof (induction rule: reach.induct)
  case start
  show ?case by (rule reach_start)
next
  case (accept n b s a cn)
  then show ?case by (intro reach_accept)
next
  case (open_chan n b s a cn malloc now nowMono r rv resp s')
  then have "\<not> b" "cchannel cn = None" by simp_all
  then show ?case using reach_open[OF open_chan.IH open_chan.hyps(2) _ open_chan.hyps(3,4)] by simp
next
  case (renew n b s a cn now nowMono r rv resp s')
  have "manager_inv s" using renew.IH[OF renew.prems] by (simp add: reach_inv_def)
  from renew_channel[OF this renew.hyps(2), of cfg now nowMono r] show ?case
    using renew.hyps(3) renew.IH[OF renew.prems] evolves_reach by auto
next
  case (activity n b s c ch z y x)
  have "manager_inv s" using activity.IH[OF activity.prems] by (simp add: reach_inv_def)
  then have "evolves s (put_chan c (ch\<lparr>receiveSequenceNumber := x, sendSequenceNumber := y, chunks := z\<rparr>) s)"
    using activity.hyps(2) by (intro put_chan_evolves) (auto simp: next_ok_def)
  then show ?case using activity.IH[OF activity.prems] by (rule evolves_reach)
next
  case (revolve n b s c ch)
  then show ?case using revolve_evolves evolves_reach by (metis reach_inv_def)
next
  case (close n b s k rv s')
  have "manager_inv s" using close.IH[OF close.prems] by (simp add: reach_inv_def)
  from close_channel[OF this, of k] show ?case
    using close.hyps(2) close.IH[OF close.prems] evolves_reach by auto
next
  case (disconnect n b s a cn s1)
  have "manager_inv s" using disconnect.IH[OF disconnect.prems] by (simp add: reach_inv_def)
  note d = detach_connection[OF this disconnect.hyps(2)]
  show ?case using d(1) disconnect.hyps(3) evolves_reach[OF d(2) disconnect.IH[OF disconnect.prems]] by auto
next
  case (create n b s malloc g nowMono t rv r g' s')
  show ?case by (rule reach_create[OF create.IH[OF create.prems] create.hyps(2,3)])
next
  case (activate n b s i se c ch malloc t1 t2 token rv s')
  have "manager_inv s" using activate.IH[OF activate.prems] by (simp add: reach_inv_def)
  from activation(1)[OF this activate.hyps(2-4)] activate.IH[OF activate.prems] show ?case by (rule evolves_reach)
next
  case (remove n b s token rv s')
  have "manager_inv s" using remove.IH[OF remove.prems] by (simp add: reach_inv_def)
  from remove_session[OF this, of token] show ?case
    using remove.hyps(2) remove.IH[OF remove.prems] evolves_reach by (auto split: option.splits)
next
  case (cleanup n b s nowMono s')
  have "manager_inv s" using cleanup.IH[OF cleanup.prems] by (simp add: reach_inv_def)
  from cleanup_total[OF this, of nowMono] show ?case
    using cleanup.hyps(2) cleanup.IH[OF cleanup.prems] evolves_reach by auto
qed

lemma reach_inv: "reach cfg n False s \<Longrightarrow> reach_inv cfg n s"
  using reach_inv_if by blast

section \<open>A run of the server\<close>

definition demo_request :: openRequest where
  "demo_request = \<lparr> securityMode = 1, requestedLifetime = 3600000, requestNonce = None \<rparr>"

text \<open>A client connects and opens a channel (at the address 10).\<close>

definition demo_connected :: server where
  "demo_connected = put_conn 0 (ServerNetworkLayerTCP_add UA_ConnectionConfig_standard) empty_server"

definition demo_run :: "server outcome" where
  "demo_run = bind (UA_SecureChannelManager_open UA_ServerConfig_standard (Some 10) 500 7 0 demo_request demo_connected)
     (\<lambda>(rv, resp, s). Done s)"

lemma reach_connected: "reach UA_ServerConfig_standard 0 False demo_connected"
  unfolding demo_connected_def
  by (rule reach.accept[OF reach.start])
    (simp_all add: empty_server_def UA_SessionManager_init_def UA_SecureChannelManager_init_def ServerNetworkLayerTCP_add_def)

lemmas demo_simps = demo_connected_def empty_server_def UA_SessionManager_init_def UA_SecureChannelManager_init_def
  put_conn_def put_chan_def put_sess_def deref_def demo_request_def ServerNetworkLayerTCP_add_def

lemma connected_inv: "manager_inv demo_connected" "length (channels demo_connected) \<le> unat (maxSecureChannels cfg)"
  "conns demo_connected 0 = Some (ServerNetworkLayerTCP_add UA_ConnectionConfig_standard)"
  "cchannel (ServerNetworkLayerTCP_add UA_ConnectionConfig_standard) = None"
  "lastChannelId demo_connected = 1" "channels demo_connected = []" "sessions demo_connected = []"
  using reach_inv[OF reach_connected] by (simp_all add: reach_inv_def demo_simps)

lemma connected_open:
  "\<exists>nonce tok s. UA_SecureChannelManager_open UA_ServerConfig_standard (Some 10) 500 7 0 demo_request demo_connected =
     Done (GOOD, Some (nonce, tok), s) \<and> demo_run = Done s \<and> reach UA_ServerConfig_standard 1 False s \<and>
     channels s = [10] \<and> sessions s = [] \<and>
     (\<exists>ch. chans s 10 = Some ch \<and> (\<forall>c. c \<noteq> 10 \<longrightarrow> chans s c = None) \<and> channelId (securityToken ch) = 1 \<and> token_timeout (securityToken ch) = 6000000007 \<and>
        cconnection ch = Some 0 \<and> csessions ch = [])"
proof -
  have room: "make_room UA_ServerConfig_standard demo_connected = Done (True, demo_connected)"
    by (simp add: make_room_def UA_ServerConfig_standard_def demo_simps)
  obtain resp s where run: "UA_SecureChannelManager_open UA_ServerConfig_standard (Some 10) 500 7 0 demo_request demo_connected =
      Done (GOOD, Some resp, s)"
    and s: "channels s = [10]" "sessions s = []" "\<exists>ch. chans s 10 = Some ch \<and> (\<forall>c. c \<noteq> 10 \<longrightarrow> chans s c = None) \<and> channelId (securityToken ch) = 1 \<and>
      token_timeout (securityToken ch) = 6000000007 \<and> cconnection ch = Some 0 \<and> csessions ch = []"
    unfolding UA_SecureChannelManager_open_def room
    by (simp add: UA_Connection_attachSecureChannel_def UA_SecureChannel_init_def demo_simps Let_def
        revised_lifetime_def UA_ServerConfig_standard_def token_timeout_def del: str.simps)
  have "reach UA_ServerConfig_standard (Suc 0) (False \<or> cchannel (ServerNetworkLayerTCP_add UA_ConnectionConfig_standard) \<noteq> None) s"
    by (rule reach.open_chan[OF reach_connected connected_inv(3) _ run]) ((simp only: malloc_fresh_def room prod.case option.case outcome.case), simp add: demo_simps)
  then show ?thesis
    using run s connected_inv(4) by (cases resp) (simp add: demo_run_def)
qed

section \<open>Properties\<close>

text \<open>
  C5. Whatever the clients and the clock do, as long as no client asks for a new channel on a
  connection that has one: no pointer between connections, channels and sessions dangles.  A
  connection and its channel, a channel and its sessions point to each other, the lists of the
  managers hold exactly what is allocated, the counts are right and the configured limits of channels
  and sessions hold.  (A new channel over an open one breaks this, by \<open>reissued_channel_dangles\<close>.)
\<close>

theorem managers_consistent:
  assumes "reach cfg n False s"
  shows "linked s \<and> counted s \<and> length (channels s) \<le> unat (maxSecureChannels cfg) \<and>
    length (sessions s) \<le> unat (maxSessions cfg)"
  using reach_inv[OF assms] by (simp add: reach_inv_def manager_inv_def)

lemma managers_consistent_witness:
  "\<exists>s. demo_run = Done s \<and> linked s \<and> counted s \<and> channels s = [10]"
  using connected_open managers_consistent by blast

text \<open>
  Until \<open>2 ^ 32 - 2\<close> channels were asked for, the identifier of a channel names one channel,
  and the lookup (with which a task from the queue finds its channel) returns that channel; an
  identifier that no channel has gives NULL.
\<close>

theorem channel_lookup_exact:
  assumes "reach cfg n False s" "n < 2 ^ 32 - 1"
  shows "\<exists>r. ZUTH_getSecureChannel s k = Done r \<and>
    (\<forall>c. r = Some c \<longleftrightarrow> (\<exists>ch. chans s c = Some ch \<and> channelId (securityToken ch) = k))"
proof -
  have inv: "manager_inv s" "ids_ok n s" using reach_inv[OF assms(1)] by (simp_all add: reach_inv_def)
  have unique: "c = d" if "chans s c = Some ch" "chans s d = Some dh"
      "channelId (securityToken ch) = channelId (securityToken dh)" for c d ch dh
    using inv(2) assms(2) that by (auto simp: ids_ok_def)
  have "with_id k s = Some c \<longleftrightarrow> (\<exists>ch. chans s c = Some ch \<and> channelId (securityToken ch) = k)" for c
  proof
    assume "with_id k s = Some c"
    then show "\<exists>ch. chans s c = Some ch \<and> channelId (securityToken ch) = k"
      by (auto simp: with_id_def dest: find_mem)
  next
    assume "\<exists>ch. chans s c = Some ch \<and> channelId (securityToken ch) = k"
    then obtain ch where ch: "chans s c = Some ch" "channelId (securityToken ch) = k" by auto
    note ch
    moreover have "c \<in> set (channels s)" using listed[OF inv(1) ch(1)] .
    ultimately have "with_id k s \<noteq> None"
      by (auto simp: with_id_def find_None_iff)
    then obtain d where d: "with_id k s = Some d" by auto
    then obtain dh where "chans s d = Some dh" "channelId (securityToken dh) = k"
      by (auto simp: with_id_def dest: find_mem)
    then show "with_id k s = Some c"
      using unique[of c ch d dh] ch d by simp
  qed
  then show ?thesis
    using get_channel[OF inv(1), of k] by (auto simp: ZUTH_getSecureChannel_def)
qed

lemma channel_lookup_exact_witness:
  "\<exists>s. demo_run = Done s \<and> ZUTH_getSecureChannel s 1 = Done (Some 10) \<and> ZUTH_getSecureChannel s 2 = Done None"
proof -
  obtain s ch where s: "demo_run = Done s" "reach UA_ServerConfig_standard 1 False s" "chans s 10 = Some ch"
      "\<And>c. c \<noteq> 10 \<Longrightarrow> chans s c = None" "channelId (securityToken ch) = 1"
    using connected_open by auto
  have e: "(\<exists>ch. chans s c = Some ch \<and> channelId (securityToken ch) = k) \<longleftrightarrow> c = 10 \<and> k = 1" for c k
    using s(3-5) by (cases "c = 10") auto
  obtain r1 r2 where r: "ZUTH_getSecureChannel s 1 = Done r1" "\<forall>c. r1 = Some c \<longleftrightarrow> c = 10"
      "ZUTH_getSecureChannel s 2 = Done r2" "\<forall>c. r2 \<noteq> Some c"
    using channel_lookup_exact[OF s(2), of 1] channel_lookup_exact[OF s(2), of 2] by (auto simp: e)
  have "r1 = Some 10" "r2 = None" using r(2,4) by auto
  then show ?thesis using s(1) r(1,3) by blast
qed

text \<open>
  C24. In a state that is reached without a new channel on a connection that has one, the operations
  that free objects touch no freed object and always return: the periodic cleanup, closing a channel,
  removing a session and giving up a connection.
\<close>

theorem managers_never_undefined:
  assumes "reach cfg n False s"
  shows "\<exists>s1 s2 s3 rv3 s4 rv4. UA_Server_cleanup now s = Done s1 \<and>
    (conns s a = None \<or> UA_Connection_detachSecureChannel a s = Done s2) \<and>
    UA_SecureChannelManager_close k s = Done (rv3, s3) \<and>
    UA_SessionManager_removeSession token s = Done (rv4, s4)"
proof -
  have inv: "manager_inv s" using reach_inv[OF assms] by (simp add: reach_inv_def)
  have "\<exists>s2. conns s a = None \<or> UA_Connection_detachSecureChannel a s = Done s2"
    using detach_connection(1)[OF inv, of a] by (cases "conns s a") auto
  moreover have "\<exists>rv4 s4. UA_SessionManager_removeSession token s = Done (rv4, s4)"
    using remove_session(1)[OF inv, of token] by (auto split: option.splits)
  ultimately show ?thesis
    using cleanup_total[OF inv, of now] close_channel[OF inv, of k] by blast
qed

lemma managers_never_undefined_witness:
  "\<exists>s s1. demo_run = Done s \<and> UA_Server_cleanup 0 s = Done s1"
  using connected_open managers_never_undefined[where a = 0 and k = 1 and token = UA_NODEID_NULL] by blast

text \<open>
  C23. In a state that is reached without a new channel on a connection that has one, the cleanup
  removes exactly the sessions whose time is over and the channels whose token has
  expired or that lost their connection, and puts the next token of the other channels in force;
  everything else stays as it was.
\<close>

theorem cleanup_removes_expired:
  assumes "reach cfg n False s"
  shows "\<exists>s'. UA_Server_cleanup now s = Done s' \<and>
    (\<forall>i. sess s' i = None \<longleftrightarrow> sess s i = None \<or> (\<exists>se. sess s i = Some se \<and> validTill se < now)) \<and>
    (\<forall>c. chans s' c = None \<longleftrightarrow> chans s c = None \<or> (\<exists>ch. chans s c = Some ch \<and> expired now ch)) \<and>
    (\<forall>c ch ch'. chans s c = Some ch \<longrightarrow> chans s' c = Some ch' \<longrightarrow>
       securityToken ch' = securityToken (UA_SecureChannel_revolveTokens ch))"
proof -
  have inv: "manager_inv s" using reach_inv[OF assms] by (simp add: reach_inv_def)
  from cleanup_total[OF this, of now] obtain s1 s' where
    c: "UA_Server_cleanup now s = Done s'" "evolves s1 s'" "chans s' = cleaned now (channels s) s1"
      "sessions s' = sessions s1" "evolves s s1" "same_but_sessions s s1"
      "sess s1 = (\<lambda>i. if \<exists>se. sess s i = Some se \<and> validTill se < now then None else sess s i)"
    by auto
  have d: "dom (sess s') = dom (sess s1)" "set (channels s) = dom (chans s)"
    using inv evolves_inv[OF c(2)] evolves_inv[OF c(5)] c(4) by (auto simp: manager_inv_def counted_def)
  have se: "sess s' i = None \<longleftrightarrow> sess s i = None \<or> (\<exists>se. sess s i = Some se \<and> validTill se < now)" for i
  proof -
    have "sess s' i = None \<longleftrightarrow> sess s1 i = None" using d(1) by (metis domIff)
    then show ?thesis by (auto simp: c(7))
  qed
  have look: "\<exists>ch1. chans s1 c = Some ch1 \<and> expired now ch1 = expired now ch \<and>
      securityToken (UA_SecureChannel_revolveTokens ch1) = securityToken (UA_SecureChannel_revolveTokens ch)"
    if "chans s c = Some ch" for c ch
  proof -
    have "map_option (\<lambda>ch. ch\<lparr>csessions := []\<rparr>) (chans s1 c) = Some (ch\<lparr>csessions := []\<rparr>)"
      using c(6) that by (simp add: same_but_sessions_def)
    then obtain ch1 where "chans s1 c = Some ch1" and e: "ch1\<lparr>csessions := []\<rparr> = ch\<lparr>csessions := []\<rparr>"
      by (cases "chans s1 c") auto
    moreover have "securityToken ch1 = securityToken ch" "nextSecurityToken ch1 = nextSecurityToken ch"
      "cconnection ch1 = cconnection ch"
      using arg_cong[OF e, of securityToken] arg_cong[OF e, of nextSecurityToken] arg_cong[OF e, of cconnection]
      by simp_all
    ultimately show ?thesis
      by (simp add: expired_def UA_SecureChannel_revolveTokens_def)
  qed
  have none: "chans s' c = None" if "chans s c = None" for c
  proof -
    have "map_option (\<lambda>ch. ch\<lparr>csessions := []\<rparr>) (chans s1 c) = None"
      using c(6) that by (simp add: same_but_sessions_def)
    then have "chans s1 c = None" by simp
    then show ?thesis by (simp add: c(3) cleaned_def)
  qed
  have some: "if expired now ch then chans s' c = None
      else \<exists>ch'. chans s' c = Some ch' \<and> securityToken ch' = securityToken (UA_SecureChannel_revolveTokens ch)"
    if "chans s c = Some ch" for c ch
  proof -
    have "c \<in> set (channels s)" using d(2) that by auto
    with look[OF that] show ?thesis by (auto simp: c(3) cleaned_def)
  qed
  have "chans s' c = None \<longleftrightarrow> chans s c = None \<or> (\<exists>ch. chans s c = Some ch \<and> expired now ch)" for c
    using none[of c] some[of c] by (cases "chans s c") (auto split: if_splits)
  moreover have "securityToken ch' = securityToken (UA_SecureChannel_revolveTokens ch)"
    if "chans s c = Some ch" "chans s' c = Some ch'" for c ch ch'
    using some[OF that(1)] that(2) by (auto split: if_splits)
  ultimately show ?thesis
    by (intro exI[of _ s'] conjI allI impI c(1) se) blast+
qed

lemma cleanup_removes_expired_witness:
  "\<exists>s s' s''. demo_run = Done s \<and> UA_Server_cleanup 6000000007 s = Done s' \<and> chans s' 10 \<noteq> None \<and>
    UA_Server_cleanup 6000000008 s = Done s'' \<and> chans s'' 10 = None"
proof -
  obtain s ch where s: "demo_run = Done s" "reach UA_ServerConfig_standard 1 False s" "chans s 10 = Some ch"
      "token_timeout (securityToken ch) = 6000000007" "cconnection ch = Some 0"
    using connected_open by auto
  have "\<not> expired 6000000007 ch" "expired 6000000008 ch" using s(4,5) by (simp_all add: expired_def)
  moreover obtain s' where "UA_Server_cleanup 6000000007 s = Done s'"
      "\<And>c. chans s' c = None \<longleftrightarrow> chans s c = None \<or> (\<exists>ch. chans s c = Some ch \<and> expired 6000000007 ch)"
    using cleanup_removes_expired[OF s(2), of 6000000007] by blast
  moreover obtain s'' where "UA_Server_cleanup 6000000008 s = Done s''"
      "\<And>c. chans s'' c = None \<longleftrightarrow> chans s c = None \<or> (\<exists>ch. chans s c = Some ch \<and> expired 6000000008 ch)"
    using cleanup_removes_expired[OF s(2), of 6000000008] by blast
  ultimately show ?thesis
    using s(1,3) by (intro exI[of _ s] exI[of _ s'] exI[of _ s'']) simp
qed

text \<open>
  Opening a channel on a connection that has none: the channel gets the next identifier, its
  token lives at most as long as configured, it is the channel of the connection; and at the limit
  of channels only one without a session is given up for it, or the request is refused.
\<close>

theorem open_within_limits:
  assumes "reach cfg n False s" "conns s a = Some cn" "cchannel cn = None"
    and "malloc_fresh cfg malloc s"
  shows "\<exists>rv resp s'. UA_SecureChannelManager_open cfg malloc now nowMono a r s = Done (rv, resp, s') \<and>
    (\<forall>d dh. chans s d = Some dh \<longrightarrow> csessions dh \<noteq> [] \<longrightarrow> chans s' d = Some dh) \<and>
    (rv \<noteq> GOOD \<longrightarrow> resp = None \<and> chan_of s' a = None) \<and>
    (rv = GOOD \<longrightarrow> (\<exists>c nonce tok. malloc = Some c \<and> resp = Some (nonce, tok) \<and> chan_of s' a = Some c \<and>
       conn_of s' c = Some a \<and> channelId tok = lastChannelId s \<and> revisedLifetime tok \<le> maxSecurityTokenLifetime cfg \<and>
       (\<exists>ch. chans s' c = Some ch \<and> securityToken ch = tok\<lparr>createdAt := nowMono\<rparr>)))"
proof -
  have "reach_inv cfg n s" using reach_inv[OF assms(1)] .
  then have m: "manager_inv s" "length (channels s) \<le> unat (maxSecureChannels cfg)" by (simp_all add: reach_inv_def)
  show ?thesis
  proof (rule open_channel_step[OF m(1) assms(2,3) m(2) malloc_freshD[OF assms(4)], where now = now and nowMono = nowMono and r = r])
    fix rv s'
    assume "UA_SecureChannelManager_open cfg malloc now nowMono a r s = Done (rv, None, s')" "rv \<noteq> GOOD"
      "conns s' a = Some cn" "\<And>d dh. chans s d = Some dh \<Longrightarrow> csessions dh \<noteq> [] \<Longrightarrow> chans s' d = Some dh"
    then show ?thesis using assms(3) by (auto simp: chan_of_def)
  next
    fix c s1 s' ch nonce tok
    assume "UA_SecureChannelManager_open cfg malloc now nowMono a r s = Done (GOOD, Some (nonce, tok), s')"
      "malloc = Some c" "chans s' = (chans s1)(c \<mapsto> ch)" "cconnection ch = Some a"
      "channelId (securityToken ch) = lastChannelId s" "securityToken ch = tok\<lparr>createdAt := nowMono\<rparr>"
      "chan_of s' a = Some c" "revisedLifetime tok \<le> maxSecurityTokenLifetime cfg"
      "\<And>d dh. chans s d = Some dh \<Longrightarrow> csessions dh \<noteq> [] \<Longrightarrow> chans s' d = Some dh"
    then show ?thesis by (auto simp: conn_of_def)
  qed
qed

lemma open_within_limits_witness:
  "\<exists>rv resp s'. UA_SecureChannelManager_open UA_ServerConfig_standard (Some 10) 500 7 0 demo_request demo_connected =
     Done (rv, resp, s') \<and> (rv = GOOD \<longrightarrow> chan_of s' 0 = Some 10 \<and> conn_of s' 10 = Some 0)"
proof -
  have fresh: "malloc_fresh UA_ServerConfig_standard (Some 10) demo_connected"
    by (simp add: malloc_fresh_def make_room_def UA_ServerConfig_standard_def demo_simps)
  show ?thesis
    using open_within_limits[where malloc = "Some 10" and now = 500 and nowMono = 7 and r = demo_request,
        OF reach_connected connected_inv(3,4) fresh] by auto
qed

text \<open>
  C22. In a state that is reached without a new channel on a connection that has one,
  \<open>ActivateSession\<close> succeeds only for a session whose time is not over and with an identity the
  configuration admits; it then binds the session to the channel of the request, and to no other.
  When it fails nothing has changed.
\<close>

theorem session_activation:
  assumes "reach cfg n False s" "sess s i = Some se" "chans s c = Some ch"
    and "Service_ActivateSession cfg True t1 t2 c i token s = Done (rv, s')"
  shows "if rv = GOOD
    then t1 \<le> validTill se \<and> check_identity cfg token = GOOD \<and> schan_of s' i = Some c \<and>
      (\<forall>d. i \<in> set (sess_of s' d) \<longleftrightarrow> d = c) \<and> (\<exists>se'. sess s' i = Some se' \<and> activated se')
    else s' = s"
proof -
  have inv: "manager_inv s" using reach_inv[OF assms(1)] by (simp add: reach_inv_def)
  note a = activation[OF inv assms(2-4)]
  have l: "linked s'" using evolves_inv[OF a(1)] by (simp add: manager_inv_def)
  show ?thesis
  proof (cases "rv = GOOD")
    case True
    from a(3)[OF True] obtain se' where se': "t1 \<le> validTill se" "check_identity cfg token = GOOD"
        "sess s' i = Some se'" "activated se'" "schannel se' = Some c" by auto
    then have c: "schan_of s' i = Some c" by (simp add: schan_of_def)
    have "i \<in> set (sess_of s' d) \<longleftrightarrow> d = c" for d
      using l c unfolding linked_def by (metis option.inject)
    then show ?thesis using True se' c by auto
  next
    case False
    then show ?thesis using a(2) by simp
  qed
qed

text \<open>A session is created and activated on the channel of the run.\<close>

definition demo_session :: "identityToken \<Rightarrow> (status \<times> server) outcome" where
  "demo_session token = bind demo_run (\<lambda>s.
     bind (UA_SessionManager_createSession UA_ServerConfig_standard pcg32_random_r (1, 3) (Some 20) 7 0 s) (\<lambda>(rv, r, g, s1).
       Service_ActivateSession UA_ServerConfig_standard True 8 9 10 20 token s1))"

lemma standard_ticks: "dbl_ticks (maxSessionTimeout UA_ServerConfig_standard) = Done 36000000000"
proof -
  have W: "maxSessionTimeout UA_ServerConfig_standard = 0x414B774000000000"
    by (simp add: UA_ServerConfig_standard_def)
  have e: "dbl_exp 0x414B774000000000 = 1044" and f: "dbl_frac 0x414B774000000000 = 3227341505429504"
    by (simp_all add: dbl_exp_def dbl_frac_def)
  have b: "bitlen 77309411328000000000 = 67" by (simp add: bitlen.simps)
  have r: "round53 77309411328000000000 = (4718592000000000, 14)"
    by (simp only: round53_def b Let_def) simp
  show ?thesis by (simp add: dbl_ticks_def W e f r)
qed

lemma demo_activation:
  assumes "check_identity UA_ServerConfig_standard token = GOOD"
  shows "\<exists>s se ch s'. reach UA_ServerConfig_standard 1 False s \<and> sess s 20 = Some se \<and> chans s 10 = Some ch \<and>
    Service_ActivateSession UA_ServerConfig_standard True 8 9 10 20 token s = Done (GOOD, s') \<and>
    demo_session token = Done (GOOD, s')"
proof -
  obtain s ch where s: "demo_run = Done s" "reach UA_ServerConfig_standard 1 False s" "chans s 10 = Some ch"
      "channels s = [10]" "sessions s = []"
    using connected_open by auto
  have inv: "manager_inv s" using reach_inv[OF s(2)] by (simp add: reach_inv_def)
  then have n: "sess s 20 = None" "currentSessionCount s = 0"
    using s(5) by (auto simp: manager_inv_def counted_def unat_eq_0)
  obtain id1 g1 id2 g2 where g: "UA_Guid_random pcg32_random_r (1, 3) = (id1, g1)" "UA_Guid_random pcg32_random_r g1 = (id2, g2)"
    by (metis surj_pair)
  define se where "se = UA_Session_init\<lparr>sessionId := UA_NODEID_GUID 1 id1, authenticationToken := UA_NODEID_GUID 1 id2,
    timeout := maxSessionTimeout UA_ServerConfig_standard, validTill := 36000000007\<rparr>"
  define s1 where "s1 = put_sess 20 se (s\<lparr>currentSessionCount := currentSessionCount s + 1, sessions := 20 # sessions s\<rparr>)"
  have k: "\<not> 0 < dbl_key 0" by (simp add: dbl_key_def)
  have max: "unat (maxSessions UA_ServerConfig_standard) = 100" by (simp add: UA_ServerConfig_standard_def)
  have c: "UA_SessionManager_createSession UA_ServerConfig_standard pcg32_random_r (1, 3) (Some 20) 7 0 s =
      Done (GOOD, Some 20, g2, s1)"
    using n(2) g k standard_ticks max
    by (simp add: UA_SessionManager_createSession_def UA_Session_updateLifetime_def se_def s1_def UA_Session_init_def)
  have "reach UA_ServerConfig_standard 1 False s1"
    by (rule reach.create[OF s(2) _ c]) (use n(1) in simp)
  moreover have "sess s1 20 = Some se" "chans s1 10 = Some ch"
    using s(3) by (simp_all add: s1_def link_simps)
  moreover have "\<exists>s'. Service_ActivateSession UA_ServerConfig_standard True 8 9 10 20 token s1 = Done (GOOD, s')"
    using assms s(3) standard_ticks
    by (simp add: Service_ActivateSession_def UA_SecureChannel_attachSession_def UA_Session_updateLifetime_def
        deref_def link_simps s1_def se_def UA_Session_init_def)
  moreover have "demo_session token = Service_ActivateSession UA_ServerConfig_standard True 8 9 10 20 token s1"
    by (simp only: demo_session_def s(1) c bind.simps prod.case)
  ultimately show ?thesis by auto
qed

lemma session_activation_witness:
  "\<exists>s'. demo_session (UserNameToken (Some USERNAME_POLICY) (Some (str ''user1'')) (Some (str ''password'')) None) =
     Done (GOOD, s') \<and> schan_of s' 20 = Some 10"
proof -
  let ?token = "UserNameToken (Some USERNAME_POLICY) (Some (str ''user1'')) (Some (str ''password'')) None"
  have "check_identity UA_ServerConfig_standard ?token = GOOD" by code_simp
  from demo_activation[OF this] obtain s se ch s' where s: "reach UA_ServerConfig_standard 1 False s" "sess s 20 = Some se"
      "chans s 10 = Some ch" "Service_ActivateSession UA_ServerConfig_standard True 8 9 10 20 ?token s = Done (GOOD, s')"
      "demo_session ?token = Done (GOOD, s')" by auto
  from session_activation[OF s(1-4)] s(5) show ?thesis by auto
qed

section \<open>A new channel over an open one\<close>

text \<open>A channel that points to a connection that is not there.  It stays, unless a step is undefined.\<close>

definition stale :: "securityToken \<Rightarrow> nat \<Rightarrow> nat \<Rightarrow> server \<Rightarrow> bool" where
  "stale tok c a s \<longleftrightarrow> conns s a = None \<and> (\<exists>ch. chans s c = Some ch \<and> cconnection ch = Some a \<and> securityToken ch = tok)"

definition keeps :: "('s \<Rightarrow> bool) \<Rightarrow> 's outcome \<Rightarrow> bool" where
  "keeps P m \<longleftrightarrow> m = Undefined \<or> (\<exists>x. m = Done x \<and> P x)"

lemma keeps_simps [simp]: "keeps P (Done x) = P x" "keeps P Undefined"
  by (simp_all add: keeps_def)

lemma keeps_bind:
  assumes "keeps P m" "\<And>x. P x \<Longrightarrow> keeps Q (f x)"
  shows "keeps Q (bind m f)"
  using assms(1) assms(2) unfolding keeps_def by (elim disjE exE conjE) simp_all

lemma keeps_deref: "keeps (\<lambda>v. h k = Some v) (deref h k)"
  by (auto simp: deref_def split: option.splits)

lemma stale_put:
  "stale tok c a (put_conn b cn s) \<longleftrightarrow> b \<noteq> a \<and> stale tok c a s"
  "d \<noteq> c \<Longrightarrow> stale tok c a (put_chan d ch s) \<longleftrightarrow> stale tok c a s"
  "stale tok c a (put_sess i se s) \<longleftrightarrow> stale tok c a s"
  "stale tok c a (s\<lparr>channels := cs, currentChannelCount := k\<rparr>) \<longleftrightarrow> stale tok c a s"
  "stale tok c a (s\<lparr>sessions := is, currentSessionCount := k\<rparr>) \<longleftrightarrow> stale tok c a s"
  "d \<noteq> c \<Longrightarrow> stale tok c a (free_chan d s) \<longleftrightarrow> stale tok c a s"
  "stale tok c a (free_sess i s) \<longleftrightarrow> stale tok c a s"
  by (auto simp: stale_def link_simps free_chan_def free_sess_def)

lemma stale_put_same:
  "stale tok c a s \<Longrightarrow> chans s d = Some ch \<Longrightarrow> cconnection ch' = cconnection ch \<Longrightarrow> securityToken ch' = securityToken ch \<Longrightarrow>
   stale tok c a (put_chan d ch' s)"
  by (auto simp: stale_def link_simps)

lemma stale_detach: "stale tok c a s \<Longrightarrow> keeps (stale tok c a) (UA_Connection_detachSecureChannel b s)"
  by (auto simp: keeps_def UA_Connection_detachSecureChannel_def deref_def stale_def link_simps split: option.splits)

lemma stale_forget: "stale tok c a s \<Longrightarrow> keeps (stale tok c a) (forget_channel is s)"
proof (induction "is" arbitrary: s)
  case Nil
  then show ?case by simp
next
  case (Cons i "is")
  then show ?case unfolding forget_channel.simps by (intro keeps_bind[OF keeps_deref]) (simp add: stale_put)
qed

lemma stale_remove_channel:
  assumes "stale tok c a s" "d \<noteq> c"
  shows "keeps (stale tok c a) (removeSecureChannel d s)"
  unfolding removeSecureChannel_def UA_SecureChannel_deleteMembersCleanup_def Let_def
proof (intro keeps_bind[OF keeps_bind[OF keeps_deref]], rule keeps_bind)
  fix ch
  let ?s = "put_chan d (ch\<lparr>policyUri := None, serverNonce := None, clientNonce := None,
      securityToken := token_init, nextSecurityToken := token_init\<rparr>)
      (s\<lparr>channels := remove1 d (channels s), currentChannelCount := currentChannelCount s + -1\<rparr>)"
  have "stale tok c a ?s" using assms by (simp add: stale_put)
  then show "keeps (stale tok c a)
      (case cconnection ch of None \<Rightarrow> Done ?s | Some a \<Rightarrow> UA_Connection_detachSecureChannel a ?s)"
    using stale_detach by (auto split: option.split)
next
  fix ch s2
  assume "stale tok c a s2"
  then show "keeps (stale tok c a) (bind (forget_channel (csessions ch) s2)
      (\<lambda>s3. bind (deref (chans s3) d) (\<lambda>ch3. Done (put_chan d (ch3\<lparr>csessions := [], chunks := []\<rparr>) s3))))"
    using assms(2)
    by (intro keeps_bind[OF stale_forget] keeps_bind[OF keeps_deref]) (simp_all add: stale_put)
next
  fix s1
  assume "stale tok c a s1"
  then show "keeps (stale tok c a) (Done (free_chan d s1))" using assms(2) by (simp add: stale_put)
qed

lemma stale_detach_session:
  assumes "stale tok c a s"
  shows "keeps (stale tok c a) (UA_SecureChannel_detachSession d i s)"
  unfolding UA_SecureChannel_detachSession_def
proof (intro keeps_bind[OF keeps_deref])
  fix se ch
  assume ch: "chans s d = Some ch"
  show "keeps (stale tok c a) (Done (put_chan d (ch\<lparr>csessions := remove1 i (csessions ch)\<rparr>) (put_sess i (se\<lparr>schannel := None\<rparr>) s)))"
    using stale_put_same[where ch = ch and d = d and s = "put_sess i (se\<lparr>schannel := None\<rparr>) s"] assms ch
    by (simp add: stale_put link_simps)
qed

lemma stale_remove_session:
  assumes "stale tok c a s"
  shows "keeps (stale tok c a) (removeSessionEntry i s)"
  unfolding removeSessionEntry_def UA_Session_deleteMembersCleanup_def Let_def
proof (intro keeps_bind[OF keeps_bind[OF keeps_deref]])
  fix se
  let ?s = "put_sess i (se\<lparr>authenticationToken := UA_NODEID_NULL, sessionId := UA_NODEID_NULL\<rparr>)
      (s\<lparr>sessions := remove1 i (sessions s), currentSessionCount := currentSessionCount s + -1\<rparr>)"
  have "stale tok c a ?s" using assms by (simp add: stale_put)
  then show "keeps (stale tok c a)
      (case schannel se of None \<Rightarrow> Done ?s | Some c \<Rightarrow> UA_SecureChannel_detachSession c i ?s)"
    using stale_detach_session by (simp split: option.split)
next
  fix s1
  assume "stale tok c a s1"
  then show "keeps (stale tok c a) (Done (free_sess i s1))" by (simp add: stale_put)
qed

lemma stale_cleanup_sessions: "stale tok c a s \<Longrightarrow> keeps (stale tok c a) (cleanup_sessions t is s)"
proof (induction "is" arbitrary: s)
  case Nil
  then show ?case by simp
next
  case (Cons i "is")
  show ?case unfolding cleanup_sessions.simps
    by (intro keeps_bind[OF keeps_deref] keeps_bind[where P = "stale tok c a"])
      (use Cons stale_remove_session in auto)
qed

lemma stale_remove_itself:
  assumes "stale tok c a s"
  shows "removeSecureChannel c s = Undefined"
  using assms
  by (auto simp: removeSecureChannel_def UA_SecureChannel_deleteMembersCleanup_def stale_def deref_def
      UA_Connection_detachSecureChannel_def link_simps)

lemma stale_cleanup_channels:
  "stale tok c a s \<Longrightarrow> token_timeout tok < t \<Longrightarrow> c \<in> set cs \<Longrightarrow> cleanup_channels t cs s = Undefined"
proof (induction cs arbitrary: s)
  case (Cons d cs)
  show ?case
  proof (cases "d = c")
    case True
    then show ?thesis
      using Cons.prems(1,2) stale_remove_itself[OF Cons.prems(1)] by (auto simp: stale_def deref_def)
  next
    case False
    let ?step = "\<lambda>ch. if token_timeout (securityToken ch) < t \<or> cconnection ch = None then removeSecureChannel d s
       else if tokenId (nextSecurityToken ch) > 0 then Done (put_chan d (UA_SecureChannel_revolveTokens ch) s) else Done s"
    have "keeps (stale tok c a) (bind (deref (chans s) d) ?step)"
      using stale_remove_channel[OF Cons.prems(1) False] Cons.prems(1) False
      by (intro keeps_bind[OF keeps_deref]) (auto simp: stale_put)
    moreover have "cleanup_channels t (d # cs) s = bind (bind (deref (chans s) d) ?step) (cleanup_channels t cs)"
      by (cases "deref (chans s) d") simp_all
    ultimately show ?thesis using Cons False by (auto simp: keeps_def)
  qed
qed simp

text \<open>
  C34. A client that asks for a new channel (not a renewal) over a channel it has open leaves the
  first channel with a pointer to the connection, which does not point back.  When the client then
  disconnects, the connection is freed while the first channel still points to it, and the first
  cleanup after its token is over dereferences the pointer.  This happens on any connection, in any
  state that was reached without such a request, when the limit of channels is not reached.
\<close>

theorem reissued_channel_dangles:
  assumes "reach cfg n False s" "conns s a = Some cn" "cchannel cn = Some c" "securityMode r = 1"
    and "length (channels s) < unat (maxSecureChannels cfg)" "malloc = Some d" "chans s d = None"
  shows "\<exists>resp s1 s2 ch. Service_OpenSecureChannel cfg malloc now nowMono a 0 r s = Done (GOOD, resp, s1) \<and>
    UA_Connection_detachSecureChannel a s1 = Done s2 \<and> chans s c = Some ch \<and>
    (let s3 = s2\<lparr>conns := (conns s2)(a := None)\<rparr>
     in conn_of s3 c = Some a \<and> conns s3 a = None \<and> reach cfg (Suc n) True s3 \<and>
       (\<forall>t. token_timeout (securityToken ch) < t \<longrightarrow> UA_Server_cleanup t s3 = Undefined))"
proof -
  have inv: "manager_inv s" using reach_inv[OF assms(1)] by (simp add: reach_inv_def)
  obtain ch where ch: "chans s c = Some ch" "cconnection ch = Some a"
    using linkedD(1)[OF _ assms(2,3)] inv by (auto simp: manager_inv_def)
  have cd: "c \<noteq> d" using ch(1) assms(7) by auto
  have c: "c \<in> set (channels s)" by (rule listed[OF inv ch(1)])
  have room: "make_room cfg s = Done (True, s)"
    using assms(5) inv by (simp add: make_room_def manager_inv_def counted_def)
  have fresh: "malloc_fresh cfg malloc s" by (simp add: malloc_fresh_def room assms(6,7))
  obtain resp s1 dh where s1: "UA_SecureChannelManager_open cfg malloc now nowMono a r s = Done (GOOD, resp, s1)"
    "conns s1 = (conns s)(a \<mapsto> cn\<lparr>cchannel := Some d\<rparr>)" "chans s1 = (chans s)(d \<mapsto> dh)" "cconnection dh = Some a"
    "channels s1 = d # channels s"
    unfolding UA_SecureChannelManager_open_def room
    using assms(2,4,6)
    by (simp add: Let_def UA_Connection_attachSecureChannel_def deref_def UA_SecureChannel_init_def link_simps)
  define s2 where "s2 = put_conn a (cn\<lparr>cchannel := None\<rparr>) (put_chan d (dh\<lparr>cconnection := None\<rparr>) s1)"
  have s2: "UA_Connection_detachSecureChannel a s1 = Done s2"
    using s1(2-4) by (simp add: UA_Connection_detachSecureChannel_def deref_def s2_def link_simps)
  let ?s3 = "s2\<lparr>conns := (conns s2)(a := None)\<rparr>"
  have stale: "stale (securityToken ch) c a ?s3" using ch cd s1(3) by (simp add: stale_def s2_def link_simps)
  have lists: "cleanup_sessions t is s = Done s' \<Longrightarrow> channels s' = channels s" for t "is" s s'
  proof (induction "is" arbitrary: s)
    case (Cons i "is")
    then show ?case
      by (auto simp: bind_Done_iff removeSessionEntry_def UA_Session_deleteMembersCleanup_def Let_def free_sess_def
          UA_SecureChannel_detachSession_def link_simps split: if_splits option.splits)
  qed simp
  have "UA_Server_cleanup t ?s3 = Undefined" if t: "token_timeout (securityToken ch) < t" for t
  proof (cases "cleanup_sessions t (sessions ?s3) ?s3")
    case (Done x)
    have "stale (securityToken ch) c a x" using stale_cleanup_sessions[OF stale, of t "sessions ?s3"] Done by simp
    moreover have "c \<in> set (channels x)" using lists[OF Done] c s1(5) by (simp add: s2_def link_simps)
    ultimately have "cleanup_channels t (channels x) x = Undefined" using t by (intro stale_cleanup_channels)
    then show ?thesis using Done
      by (simp add: UA_Server_cleanup_def UA_SessionManager_cleanupTimedOut_def UA_SecureChannelManager_cleanupTimedOut_def)
  qed (use stale_cleanup_sessions[OF stale, of t "sessions ?s3"]
      in \<open>simp_all add: keeps_def UA_Server_cleanup_def UA_SessionManager_cleanupTimedOut_def\<close>)
  moreover have "reach cfg (Suc n) True ?s3"
  proof -
    have "reach cfg (Suc n) (False \<or> cchannel cn \<noteq> None) s1" by (rule reach.open_chan[OF assms(1,2) fresh s1(1)])
    then have "reach cfg (Suc n) True s1" using assms(3) by simp
    then show ?thesis by (rule reach.disconnect) (use s1(2) s2 in auto)
  qed
  moreover have "conn_of ?s3 c = Some a" "conns ?s3 a = None" using stale by (auto simp: stale_def conn_of_def)
  ultimately show ?thesis
    using s1(1) s2 ch(1) by (auto simp: Service_OpenSecureChannel_def Let_def)
qed

lemma reissued_channel_dangles_witness:
  "\<exists>s resp s1 s2. demo_run = Done s \<and>
     Service_OpenSecureChannel UA_ServerConfig_standard (Some 11) 500 8 0 0 demo_request s = Done (GOOD, resp, s1) \<and>
     UA_Connection_detachSecureChannel 0 s1 = Done s2 \<and>
     UA_Server_cleanup 7000000000 (s2\<lparr>conns := (conns s2)(0 := None)\<rparr>) = Undefined"
proof -
  obtain s ch where s: "demo_run = Done s" "reach UA_ServerConfig_standard 1 False s" "channels s = [10]"
      "chans s 10 = Some ch" "\<And>c. c \<noteq> 10 \<Longrightarrow> chans s c = None" "token_timeout (securityToken ch) = 6000000007" "cconnection ch = Some 0"
    using connected_open by auto
  have "linked s" using reach_inv[OF s(2)] by (simp add: reach_inv_def manager_inv_def)
  from linkedD(2)[OF this s(4,7)] obtain cn where cn: "conns s 0 = Some cn" "cchannel cn = Some 10" by auto
  have free: "chans s 11 = None" by (rule s(5)) simp
  have one: "length (channels s) < unat (maxSecureChannels UA_ServerConfig_standard)" "securityMode demo_request = 1"
    using s(3) by (simp_all add: UA_ServerConfig_standard_def demo_request_def)
  from reissued_channel_dangles[OF s(2) cn one(2,1) refl free, of 500 8] s(1,4,6) show ?thesis
    by (fastforce simp: Let_def)
qed

end
