(* ===== verification/CText.thy ===== *)
theory CText
  imports UaTypes
begin

text \<open>
  Numbers as text: what the program uses of \<open>strtol\<close>, \<open>strtoll\<close>, \<open>strtoul\<close>, \<open>strstr\<close> and of the
  number formats of \<open>printf\<close>, in the C locale, with a 64-bit \<open>long\<close>.
\<close>

section \<open>Reading\<close>

definition isspace :: "byte \<Rightarrow> bool" where
  "isspace c \<longleftrightarrow> c = 32 \<or> 9 \<le> c \<and> c \<le> 13"

definition digit_of :: "byte \<Rightarrow> nat" where
  "digit_of c = (if isdigit c then unat c - 48 else if islower c then unat c - 87
     else if isupper c then unat c - 55 else 99)"

fun number :: "nat \<Rightarrow> nat \<Rightarrow> cstr \<Rightarrow> nat" where
  "number b n [] = n"
| "number b n (c # cs) = (if digit_of c < b then number b (n * b + digit_of c) cs else n)"

text \<open>White space is skipped, then a sign.\<close>

definition signed_part :: "cstr \<Rightarrow> bool \<times> cstr" where
  "signed_part s = (case dropWhile isspace s of
       [] \<Rightarrow> (False, [])
     | c # cs \<Rightarrow> if c = 45 then (True, cs) else if c = 43 then (False, cs) else (False, c # cs))"

text \<open>\<open>strtol(s, NULL, 10)\<close> and \<open>strtoll(s, NULL, 10)\<close>: out of range gives the nearest bound.\<close>

definition strtoll :: "cstr \<Rightarrow> int" where
  "strtoll s = (let (neg, t) = signed_part s; v = int (number 10 0 t)
     in if neg then max (- (2 ^ 63)) (- v) else min (2 ^ 63 - 1) v)"

text \<open>\<open>strtoul(s, NULL, 16)\<close>, with the optional prefix \<open>0x\<close>.\<close>

definition hex_part :: "cstr \<Rightarrow> cstr" where
  "hex_part t = (case t of
       a # b # c # cs \<Rightarrow> if a = 48 \<and> (b = 120 \<or> b = 88) \<and> digit_of c < 16 then c # cs else t
     | _ \<Rightarrow> t)"

definition strtoul16 :: "cstr \<Rightarrow> u64" where
  "strtoul16 s = (let (neg, t) = signed_part s; v = number 16 0 (hex_part t)
     in if 2 ^ 64 \<le> v then -1 else if neg then - of_nat v else of_nat v)"

text \<open>The first place at which a text occurs in another, as the rest from there on.\<close>

fun strstr :: "cstr \<Rightarrow> cstr \<Rightarrow> cstr option" where
  "strstr [] p = (if p = [] then Some [] else None)"
| "strstr (c # cs) p = (if take (length p) (c # cs) = p then Some (c # cs) else strstr cs p)"

section \<open>Printing\<close>

definition hex_char :: "nat \<Rightarrow> byte" where
  "hex_char n = of_nat (if n < 10 then 48 + n else 55 + n)"

text \<open>\<open>%08X\<close>, \<open>%04X\<close> and \<open>%02X\<close> of a number that has no more digits.\<close>

fun hex_digits :: "nat \<Rightarrow> nat \<Rightarrow> cstr" where
  "hex_digits 0 v = []"
| "hex_digits (Suc k) v = hex_digits k (v div 16) @ [hex_char (v mod 16)]"

text \<open>\<open>%lu\<close> and \<open>%d\<close> of a number that is not negative.\<close>

fun decimal :: "nat \<Rightarrow> cstr" where
  "decimal n = (if n < 10 then [48 + of_nat n] else decimal (n div 10) @ [48 + of_nat (n mod 10)])"

declare decimal.simps [simp del]

text \<open>\<open>%010d\<close>.\<close>

definition decimal10 :: "nat \<Rightarrow> cstr" where
  "decimal10 n = replicate (10 - length (decimal n)) 48 @ decimal n"

definition UA_PRINTF_GUID :: "guid \<Rightarrow> cstr" where
  "UA_PRINTF_GUID g = str ''{'' @ hex_digits 8 (unat (gdata1 g)) @ str ''-'' @ hex_digits 4 (unat (gdata2 g)) @
     str ''-'' @ hex_digits 4 (unat (gdata3 g)) @ str ''-'' @
     concat (map (\<lambda>b. hex_digits 2 (unat b)) (take 2 (gdata4 g))) @ str ''-'' @
     concat (map (\<lambda>b. hex_digits 2 (unat b)) (drop 2 (gdata4 g))) @ str ''}''"

section \<open>Reading what was printed\<close>

lemma all_below_16:
  assumes "list_all P [0..<16]" "n < 16"
  shows "P n"
  using assms by (simp add: list_all_iff)

lemma digit_hex_char: "n < 16 \<Longrightarrow> digit_of (hex_char n) = n"
  by (rule all_below_16[of "\<lambda>n. digit_of (hex_char n) = n"], code_simp)

lemma hex_char_plain: "n < 16 \<Longrightarrow> \<not> isspace (hex_char n) \<and> hex_char n \<noteq> 45 \<and> hex_char n \<noteq> 43 \<and> hex_char n \<noteq> 120 \<and>
    hex_char n \<noteq> 88"
  by (rule all_below_16[of "\<lambda>n. \<not> isspace (hex_char n) \<and> hex_char n \<noteq> 45 \<and> hex_char n \<noteq> 43 \<and> hex_char n \<noteq> 120 \<and>
    hex_char n \<noteq> 88"], code_simp)

lemma length_hex_digits [simp]: "length (hex_digits k v) = k"
  by (induction k arbitrary: v) auto

lemma number_append:
  "list_all (\<lambda>c. digit_of c < b) xs \<Longrightarrow> number b n (xs @ ys) = number b (number b n xs) ys"
  by (induction xs arbitrary: n) auto

lemma hex_digits_all:
  "list_all (\<lambda>c. digit_of c < 16) (hex_digits k v)"
  by (induction k arbitrary: v) (auto simp: digit_hex_char)

lemma number_hex_digits: "v < 16 ^ k \<Longrightarrow> number 16 n (hex_digits k v) = n * 16 ^ k + v"
proof (induction k arbitrary: v n)
  case 0
  then show ?case by simp
next
  case (Suc k)
  then have "v div 16 < 16 ^ k" by (simp add: div_less_iff_less_mult mult.commute)
  then show ?case
    using Suc.IH[of "v div 16" n]
    by (simp add: number_append[OF hex_digits_all] digit_hex_char algebra_simps)
qed

lemma hex_digits_plain:
  "list_all (\<lambda>c. \<not> isspace c \<and> c \<noteq> 45 \<and> c \<noteq> 43 \<and> c \<noteq> 120 \<and> c \<noteq> 88) (hex_digits k v)"
  by (induction k arbitrary: v) (auto simp: hex_char_plain)

lemma strtoul16_hex_digits:
  assumes "v < 16 ^ k" "k \<le> 16"
  shows "strtoul16 (hex_digits k v) = of_nat v"
proof -
  let ?t = "hex_digits k v"
  have p: "list_all (\<lambda>c. \<not> isspace c \<and> c \<noteq> 45 \<and> c \<noteq> 43 \<and> c \<noteq> 120 \<and> c \<noteq> 88) ?t"
    by (rule hex_digits_plain)
  have s: "signed_part ?t = (False, ?t)"
    using p by (cases ?t) (auto simp: signed_part_def)
  have h: "hex_part ?t = ?t"
    using p by (auto simp: hex_part_def split: list.splits)
  have "v < 16 ^ 16"
    using assms by (meson less_le_trans power_increasing one_le_numeral)
  then show ?thesis
    by (simp add: strtoul16_def s h number_hex_digits[OF assms(1)])
qed

lemma digit_decimal: "n < 10 \<Longrightarrow> digit_of (48 + of_nat n) = n"
proof -
  assume "n < 10"
  then have "n \<in> set [0..<10]" by simp
  moreover have "list_all (\<lambda>n. digit_of (48 + of_nat n) = n) [0..<10]" by code_simp
  ultimately show ?thesis by (simp add: list_all_iff)
qed

lemma decimal_all: "list_all (\<lambda>c. digit_of c < 10) (decimal n)"
proof (induction n rule: decimal.induct)
  case (1 n)
  then show ?case by (subst decimal.simps) (auto simp: digit_decimal)
qed

lemma number_decimal: "number 10 0 (decimal n) = n"
proof (induction n rule: decimal.induct)
  case (1 n)
  show ?case
  proof (cases "n < 10")
    case True
    then show ?thesis by (simp add: decimal.simps[of n] digit_decimal)
  next
    case False
    then show ?thesis
      using 1 by (subst decimal.simps) (simp add: number_append[OF decimal_all] digit_decimal)
  qed
qed

lemma number_zeros: "number 10 0 (replicate k 48 @ xs) = number 10 0 xs"
proof (induction k)
  case (Suc k)
  have "digit_of 48 = 0" using digit_decimal[of 0] by simp
  then show ?case using Suc by simp
qed simp

lemma digits_unsigned:
  assumes "list_all (\<lambda>c. digit_of c < 10) t"
  shows "signed_part t = (False, t)"
proof (cases t)
  case (Cons c cs)
  have "digit_of c < 10" using assms Cons by simp
  then have "\<not> isspace c \<and> c \<noteq> 45 \<and> c \<noteq> 43"
    by (auto simp: isspace_def digit_of_def isdigit_def islower_def isupper_def word_le_nat_alt split: if_splits)
  then show ?thesis by (simp add: signed_part_def Cons)
qed (simp add: signed_part_def)

lemma strtoll_decimal10:
  assumes "n < 2 ^ 63"
  shows "strtoll (decimal10 n) = int n"
proof -
  have d: "digit_of 48 = 0" using digit_decimal[of 0] by simp
  then have "list_all (\<lambda>c. digit_of c < 10) (decimal10 n)"
    using decimal_all by (auto simp: decimal10_def list_all_iff)
  from digits_unsigned[OF this] show ?thesis
    using assms by (simp add: strtoll_def decimal10_def number_zeros number_decimal)
qed

lemma strstr_prefix: "p \<noteq> [] \<Longrightarrow> strstr (p @ xs) p = Some (p @ xs)"
  by (cases p) auto

end
