(* ===== verification/ZkConfig.thy ===== *)
theory ZkConfig
  imports CText UrlCode
begin

text \<open>
  The configuration file and the ZooKeeper paths of \<open>src/zk_cli.c\<close>.  The paths are kept in two
  global buffers of 1024 bytes; the other texts are built in buffers of 65535 bytes.
\<close>

section \<open>The configuration file\<close>

record zkUA_Config =
  uaPort :: int
  rSupport :: int
  state :: int
  aPriority :: bool
  hostname :: cstr
  username :: cstr
  password :: cstr
  serverId :: cstr
  zooKeeperQuorum :: cstr
  guid :: guid

definition zkUA_startsWith :: "cstr \<Rightarrow> cstr \<Rightarrow> bool" where
  "zkUA_startsWith line prefix = strncmp_eq line prefix (length prefix)"

text \<open>The words of a file, and the pairs that \<open>fscanf(confFile, "%s %s\n", ...)\<close> reads.\<close>

function words :: "cstr \<Rightarrow> cstr list" where
  "words s = (case dropWhile isspace s of
       [] \<Rightarrow> []
     | t \<Rightarrow> takeWhile (\<lambda>c. \<not> isspace c) t # words (dropWhile (\<lambda>c. \<not> isspace c) t))"
  by auto

termination
proof (relation "measure length", goal_cases)
  case (2 s c cs)
  then have "\<not> isspace c" "length (c # cs) \<le> length s"
    by (metis hd_dropWhile list.distinct(1) list.sel(1), metis length_dropWhile_le)
  then show ?case
    using length_dropWhile_le[of "\<lambda>c. \<not> isspace c" cs] by (simp add: less_Suc_eq_le order_trans)
qed simp

declare words.simps [simp del]

fun pairs :: "cstr list \<Rightarrow> (cstr \<times> cstr) list" where
  "pairs [] = []"
| "pairs [a] = [(a, [])]"
| "pairs (a # b # ws) = (a, b) # pairs ws"

text \<open>\<open>memcpy(d, argValue + off, n)\<close>, as the text it gives.\<close>

definition field :: "nat \<Rightarrow> nat \<Rightarrow> cstr \<Rightarrow> cstr" where
  "field off n v = take n (drop off v)"

definition conf_guid :: "cstr \<Rightarrow> guid" where
  "conf_guid v = \<lparr> gdata1 = ucast (strtoul16 (field 0 8 v)), gdata2 = ucast (strtoul16 (field 9 4 v)),
     gdata3 = ucast (strtoul16 (field 14 4 v)),
     gdata4 = map (\<lambda>off. ucast (strtoul16 (field off 2 v))) [19, 21, 24, 26, 28, 30, 32, 34] \<rparr>"

definition conf_entry :: "cstr \<times> cstr \<Rightarrow> zkUA_Config \<Rightarrow> zkUA_Config" where
  "conf_entry e c = (let (argument, v) = e in
     if zkUA_startsWith argument (str ''Hostname'') then c\<lparr>hostname := v\<rparr>
     else if zkUA_startsWith argument (str ''PortNumber'') then c\<lparr>uaPort := strtoll v\<rparr>
     else if zkUA_startsWith argument (str ''GroupGUID'') then c\<lparr>guid := conf_guid v\<rparr>
     else if zkUA_startsWith argument (str ''RedundancyType'') then
       c\<lparr>rSupport := (if zkUA_startsWith v (str ''standalone'') then 0
                      else if zkUA_startsWith v (str ''cold'') then 1
                      else if zkUA_startsWith v (str ''warm'') then 2
                      else if zkUA_startsWith v (str ''hot'') then 3
                      else if zkUA_startsWith v (str ''transparent'') then 4
                      else if zkUA_startsWith v (str ''hot+'') then 5
                      else -1)\<rparr>
     else if zkUA_startsWith argument (str ''State'') then
       c\<lparr>state := (if zkUA_startsWith v (str ''active'') then 1 else 0)\<rparr>
     else if zkUA_startsWith argument (str ''AvailabilityPriority'') then
       c\<lparr>aPriority := zkUA_startsWith v (str ''true'')\<rparr>
     else if zkUA_startsWith argument (str ''Username'') then c\<lparr>username := v\<rparr>
     else if zkUA_startsWith argument (str ''Password'') then c\<lparr>password := v\<rparr>
     else if zkUA_startsWith argument (str ''ServerId'') then c\<lparr>serverId := v\<rparr>
     else if zkUA_startsWith argument (str ''ZooKeeperQuorum'') then c\<lparr>zooKeeperQuorum := v\<rparr>
     else c)"

definition conf_init :: zkUA_Config where
  "conf_init = \<lparr> uaPort = 0, rSupport = -1, state = -1, aPriority = False, hostname = [], username = [],
     password = [], serverId = [], zooKeeperQuorum = [], guid = UA_GUID_NULL \<rparr>"

text \<open>The words are read without a limit into the buffers: a longer one writes behind its buffer.\<close>

definition zkUA_readConfFile :: "cstr \<Rightarrow> zkUA_Config outcome" where
  "zkUA_readConfFile file =
     (if list_all (\<lambda>w. length w < BUFSZ) (words file) then Done (fold conf_entry (pairs (words file)) conf_init)
      else Undefined)"

text \<open>The line read from a command, its newline removed; \<open>chars\<close> is its length.\<close>

definition zkUA_cleanStdoutFromCommand :: "cstr \<Rightarrow> cstr outcome" where
  "zkUA_cleanStdoutFromCommand line =
     (if line = [] then Undefined
      else if line ! (length line - 1) = 10 then Done (take (length line - 1) line) else Done line)"

section \<open>Names of codes\<close>

text \<open>\<open>zkUA_state2String\<close> and \<open>zkUA_type2String\<close>; the codes of ZooKeeper's C client are arguments.\<close>

record zooStates =
  ZOO_CONNECTING_STATE :: int
  ZOO_ASSOCIATING_STATE :: int
  ZOO_CONNECTED_STATE :: int
  ZOO_EXPIRED_SESSION_STATE :: int
  ZOO_AUTH_FAILED_STATE :: int

definition zkUA_state2String :: "zooStates \<Rightarrow> int \<Rightarrow> cstr" where
  "zkUA_state2String Z s =
     (if s = 0 then str ''CLOSED_STATE''
      else if s = ZOO_CONNECTING_STATE Z then str ''CONNECTING_STATE''
      else if s = ZOO_ASSOCIATING_STATE Z then str ''ASSOCIATING_STATE''
      else if s = ZOO_CONNECTED_STATE Z then str ''CONNECTED_STATE''
      else if s = ZOO_EXPIRED_SESSION_STATE Z then str ''EXPIRED_SESSION_STATE''
      else if s = ZOO_AUTH_FAILED_STATE Z then str ''AUTH_FAILED_STATE''
      else str ''INVALID_STATE'')"

record zooEvents =
  ZOO_CREATED_EVENT :: int
  ZOO_DELETED_EVENT :: int
  ZOO_CHANGED_EVENT :: int
  ZOO_CHILD_EVENT :: int
  ZOO_SESSION_EVENT :: int
  ZOO_NOTWATCHING_EVENT :: int

definition zkUA_type2String :: "zooEvents \<Rightarrow> int \<Rightarrow> cstr" where
  "zkUA_type2String Z s =
     (if s = ZOO_CREATED_EVENT Z then str ''CREATED_EVENT''
      else if s = ZOO_DELETED_EVENT Z then str ''DELETED_EVENT''
      else if s = ZOO_CHANGED_EVENT Z then str ''CHANGED_EVENT''
      else if s = ZOO_CHILD_EVENT Z then str ''CHILD_EVENT''
      else if s = ZOO_SESSION_EVENT Z then str ''SESSION_EVENT''
      else if s = ZOO_NOTWATCHING_EVENT Z then str ''NOTWATCHING_EVENT''
      else str ''UNKNOWN_EVENT_TYPE'')"

text \<open>The session of the client: the handle, the last session identifier and the shutdown flag.\<close>

record zkSession =
  zsOpen :: bool
  zsClientId :: int
  zsShutdown :: bool

definition zkUA_watcher :: "zooStates \<Rightarrow> zooEvents \<Rightarrow> int \<Rightarrow> int \<Rightarrow> int \<Rightarrow> zkSession \<Rightarrow> zkSession" where
  "zkUA_watcher Z E zooClientId typ st s =
     (if typ = ZOO_SESSION_EVENT E then
        (if st = ZOO_CONNECTED_STATE Z then
           (if zsClientId s = 0 \<or> zsClientId s \<noteq> zooClientId then s\<lparr>zsClientId := zooClientId\<rparr> else s)
         else if st = ZOO_AUTH_FAILED_STATE Z then s\<lparr>zsShutdown := True, zsOpen := False\<rparr>
         else if st = ZOO_EXPIRED_SESSION_STATE Z then s\<lparr>zsShutdown := True, zsOpen := False\<rparr>
         else s)
      else s)"

section \<open>Paths\<close>

record zkGlobals =
  zkUA_zkServerQueuePath :: cstr
  zkUA_zkGroupGuidPath :: cstr

definition zkUA_setGroupGuidPath :: "cstr \<Rightarrow> zkGlobals \<Rightarrow> zkGlobals" where
  "zkUA_setGroupGuidPath groupGuid G =
     G\<lparr>zkUA_zkGroupGuidPath := snprintf_s 1024 (snprintf_s BUFSZ (str ''/Servers/'' @ groupGuid))\<rparr>"

definition zkUA_getGroupGuidPath :: "zkGlobals \<Rightarrow> cstr" where
  "zkUA_getGroupGuidPath G = zkUA_zkGroupGuidPath G"

definition zkUA_setQueuePath :: "zkGlobals \<Rightarrow> zkGlobals" where
  "zkUA_setQueuePath G =
     G\<lparr>zkUA_zkServerQueuePath := snprintf_s 1024 (snprintf_s BUFSZ (zkUA_getGroupGuidPath G @ str ''/Queue''))\<rparr>"

definition zkUA_getQueuePath :: "zkGlobals \<Rightarrow> cstr" where
  "zkUA_getQueuePath G = zkUA_zkServerQueuePath G"

definition zkUA_getActivePath :: "zkGlobals \<Rightarrow> cstr" where
  "zkUA_getActivePath G = snprintf_s BUFSZ (zkUA_getGroupGuidPath G @ str ''/Active'')"

text \<open>\<open>%.*s\<close> stops at a NUL; the length of the URL is below \<open>2 ^ 31\<close>.\<close>

definition zkUA_setServerQueuePath :: "zkGlobals \<Rightarrow> ustring \<Rightarrow> cstr" where
  "zkUA_setServerQueuePath G endpointURL =
     (let urlString = snprintf_s BUFSZ (takeWhile (\<lambda>c. c \<noteq> 0) (ubytes endpointURL))
      in snprintf_s BUFSZ (zkUA_getQueuePath G @ str ''/'' @ zkUA_url_encode urlString))"

definition zkUA_encodeServerQueuePath :: "zkGlobals \<Rightarrow> ustring \<Rightarrow> cstr" where
  "zkUA_encodeServerQueuePath G endpointURL =
     snprintf_s BUFSZ (zkUA_setServerQueuePath G endpointURL @ str ''/task-'')"

text \<open>
  The requests that \<open>zkUA_initializeZkServerQueuePath\<close> makes when the queue does not exist: the
  path, and the length of the data, which is taken from a literal of one character and a NUL (\<open>new\<close>
  has three).
\<close>

record zkCreate =
  zcPath :: cstr
  zcLiteral :: nat
  zcLength :: nat
  zcAsync :: bool

definition zkUA_initializeZkServerQueuePath ::
  "(cstr \<Rightarrow> int) \<Rightarrow> cstr \<Rightarrow> zkGlobals \<Rightarrow> zkCreate list \<times> zkGlobals" where
  "zkUA_initializeZkServerQueuePath zoo_exists groupGuid G =
     (let G' = zkUA_setQueuePath (zkUA_setGroupGuidPath groupGuid G)
      in if zoo_exists (zkUA_getQueuePath G') = 0 then ([], G')
         else ([\<lparr> zcPath = str ''/Servers'', zcLiteral = 4, zcLength = 3, zcAsync = False \<rparr>,
                \<lparr> zcPath = zkUA_getGroupGuidPath G', zcLiteral = 2, zcLength = 3, zcAsync = True \<rparr>,
                \<lparr> zcPath = zkUA_getActivePath G', zcLiteral = 2, zcLength = 3, zcAsync = True \<rparr>,
                \<lparr> zcPath = zkUA_getQueuePath G', zcLiteral = 2, zcLength = 3, zcAsync = True \<rparr>], G'))"

text \<open>
  What \<open>init_ZUTH_Server\<close> names: the URL of the server (\<open>%lu\<close> prints the port as an unsigned
  number), the node of its task queue, the node that says that it is active, and the queue that it
  watches.
\<close>

record zuthServerNames =
  serverUri :: cstr
  serverTaskPath :: cstr
  serverActivePath :: cstr
  serverQueuePath :: cstr

definition serverDst :: "zkUA_Config \<Rightarrow> cstr" where
  "serverDst c = snprintf_s BUFSZ (str ''opc.tcp://'' @ hostname c @ str '':'' @
     decimal (nat (uaPort c mod 2 ^ 64)))"

definition init_ZUTH_Server :: "(cstr \<Rightarrow> int) \<Rightarrow> zkUA_Config \<Rightarrow> zkGlobals \<Rightarrow> zuthServerNames \<times> zkGlobals" where
  "init_ZUTH_Server zoo_exists zkUAConfigs G =
     (let groupGuid = snprintf_s BUFSZ (UA_PRINTF_GUID (guid zkUAConfigs));
          G' = snd (zkUA_initializeZkServerQueuePath zoo_exists groupGuid G);
          uri = serverDst zkUAConfigs;
          encodedServerUri = zkUA_url_encode uri
      in (\<lparr> serverUri = uri,
            serverTaskPath = snprintf_s BUFSZ (zkUA_getQueuePath G' @ str ''/'' @ encodedServerUri),
            serverActivePath = snprintf_s BUFSZ (zkUA_getActivePath G' @ str ''/'' @ encodedServerUri),
            serverQueuePath = zkUA_setServerQueuePath G' (UA_String_fromChars uri) \<rparr>, G'))"

text \<open>The path of the tasks that a client of \<open>zuthClient.c\<close> makes for the URL it is connected to.\<close>

definition init_UA_client :: "zkUA_Config \<Rightarrow> ustring \<Rightarrow> zkGlobals \<Rightarrow> cstr" where
  "init_UA_client zkUAConfigs endpointUrl G =
     (let groupGuid = snprintf_s BUFSZ (UA_PRINTF_GUID (guid zkUAConfigs))
      in zkUA_encodeServerQueuePath (zkUA_setQueuePath (zkUA_setGroupGuidPath groupGuid G)) endpointUrl)"

section \<open>Reading a GUID back\<close>

lemma hex_back:
  fixes w :: "'a::len word"
  assumes "LENGTH('a) = 4 * k" "k \<le> 16"
  shows "ucast (strtoul16 (hex_digits k (unat w))) = w"
proof -
  have u: "unat w < 2 ^ LENGTH('a)" by (rule unsigned_less)
  then have "unat w < 16 ^ k" using assms(1) by (simp add: power_mult)
  note r = strtoul16_hex_digits[OF this assms(2)]
  have "(2::nat) ^ LENGTH('a) \<le> 2 ^ 64" using assms by (intro power_increasing) auto
  with u have "unat w < 2 ^ 64" by (rule less_le_trans)
  then have "take_bit LENGTH(64) (unat w) = unat w" by (simp add: take_bit_nat_eq_self)
  then show ?thesis
    unfolding r by (simp only: unsigned_of_nat of_nat_id) simp
qed

lemma field_skip: "length p \<le> off \<Longrightarrow> field off n (p @ s) = field (off - length p) n s"
  by (simp add: field_def)

lemma field_here: "length x = n \<Longrightarrow> field 0 n (x @ s) = x"
  by (simp add: field_def)

text \<open>The text of a GUID, without its braces.\<close>

definition guid_text :: "guid \<Rightarrow> cstr" where
  "guid_text g = hex_digits 8 (unat (gdata1 g)) @ str ''-'' @ hex_digits 4 (unat (gdata2 g)) @
     str ''-'' @ hex_digits 4 (unat (gdata3 g)) @ str ''-'' @
     concat (map (\<lambda>b. hex_digits 2 (unat b)) (take 2 (gdata4 g))) @ str ''-'' @
     concat (map (\<lambda>b. hex_digits 2 (unat b)) (drop 2 (gdata4 g)))"

lemma guid_text_braces: "UA_PRINTF_GUID g = str ''{'' @ guid_text g @ str ''}''"
  by (simp add: UA_PRINTF_GUID_def guid_text_def)

lemma guid_text_length: "guid_ok g \<Longrightarrow> length (guid_text g) = 36"
  by (cases "gdata4 g"; simp add: guid_text_def guid_ok_def length_concat comp_def sum_list_triv)

lemma field_cons: "0 < off \<Longrightarrow> field off n (c # s) = field (off - 1) n s"
  by (cases off) (simp_all add: field_def)

lemma field_all: "length x = n \<Longrightarrow> field 0 n x = x"
  by (simp add: field_def)

lemma guid_back:
  assumes "guid_ok g"
  shows "conf_guid (guid_text g) = g"
proof -
  obtain d1 d2 d3 d4 where g: "g = \<lparr> gdata1 = d1, gdata2 = d2, gdata3 = d3, gdata4 = d4 \<rparr>" by (cases g)
  obtain b0 b1 b2 b3 b4 b5 b6 b7 where b: "d4 = [b0, b1, b2, b3, b4, b5, b6, b7]"
    using assms by (auto simp: g guid_ok_def numeral_eq_Suc length_Suc_conv)
  have h: "ucast (strtoul16 (hex_digits 2 (unat b))) = b" for b :: byte by (rule hex_back) simp_all
  have h4: "ucast (strtoul16 (hex_digits 4 (unat b))) = b" for b :: u16 by (rule hex_back) simp_all
  have h8: "ucast (strtoul16 (hex_digits 8 (unat b))) = b" for b :: u32 by (rule hex_back) simp_all
  define x1 x2 x3 where "x1 = hex_digits 8 (unat d1)" "x2 = hex_digits 4 (unat d2)" "x3 = hex_digits 4 (unat d3)"
  define y where "y b = hex_digits 2 (unat b)" for b :: byte
  have l: "length x1 = 8" "length x2 = 4" "length x3 = 4" "length (y b) = 2" for b
    by (simp_all add: x1_x2_x3_def y_def)
  have t: "guid_text g = x1 @ 45 # x2 @ 45 # x3 @ 45 # y b0 @ y b1 @ 45 # y b2 @ y b3 @ y b4 @ y b5 @ y b6 @ y b7"
    by (simp add: guid_text_def g b x1_x2_x3_def y_def)
  have "conf_guid (guid_text g) =
      \<lparr> gdata1 = ucast (strtoul16 x1), gdata2 = ucast (strtoul16 x2), gdata3 = ucast (strtoul16 x3),
        gdata4 = map (\<lambda>b. ucast (strtoul16 (y b))) [b0, b1, b2, b3, b4, b5, b6, b7] \<rparr>"
    unfolding t conf_guid_def by (simp add: field_skip field_here field_cons field_all l)
  then show ?thesis by (simp add: x1_x2_x3_def y_def h h4 h8 g b)
qed

section \<open>The paths written out\<close>

lemma length_UA_PRINTF_GUID: "guid_ok g \<Longrightarrow> length (UA_PRINTF_GUID g) = 38"
  by (simp add: guid_text_braces guid_text_length)

lemma group_paths:
  fixes G :: zkGlobals
  assumes "guid_ok g"
  defines "G' \<equiv> zkUA_setQueuePath (zkUA_setGroupGuidPath (snprintf_s BUFSZ (UA_PRINTF_GUID g)) G)"
  shows "zkUA_getGroupGuidPath G' = str ''/Servers/'' @ UA_PRINTF_GUID g"
    and "zkUA_getQueuePath G' = str ''/Servers/'' @ UA_PRINTF_GUID g @ str ''/Queue''"
    and "zkUA_getActivePath G' = str ''/Servers/'' @ UA_PRINTF_GUID g @ str ''/Active''"
  using length_UA_PRINTF_GUID[OF assms(1)]
  by (simp_all add: G'_def zkUA_setQueuePath_def zkUA_setGroupGuidPath_def zkUA_getQueuePath_def
      zkUA_getGroupGuidPath_def zkUA_getActivePath_def)

definition queue_of :: "guid \<Rightarrow> cstr \<Rightarrow> cstr" where
  "queue_of g url = str ''/Servers/'' @ UA_PRINTF_GUID g @ str ''/Queue/'' @ zkUA_url_encode url"

lemma length_queue_of: "guid_ok g \<Longrightarrow> length url \<le> 21000 \<Longrightarrow> length (queue_of g url) \<le> 63054"
  using encode_length[of url] by (simp add: queue_of_def length_UA_PRINTF_GUID)

lemma server_queue_path:
  assumes "zkUA_getQueuePath G = str ''/Servers/'' @ UA_PRINTF_GUID g @ str ''/Queue''"
    "guid_ok g" "length url \<le> 21000" "cstr_ok url"
  shows "zkUA_setServerQueuePath G (UA_String_fromChars url) = queue_of g url"
proof -
  have t: "takeWhile (\<lambda>c. c \<noteq> 0) url = url" using assms(4) by (auto simp: cstr_ok_def takeWhile_eq_all_conv)
  have "length (queue_of g url) < BUFSZ" using length_queue_of[OF assms(2,3)] by simp
  then show ?thesis
    using assms(1,3) by (simp add: zkUA_setServerQueuePath_def UA_String_fromChars_def ubytes_def t queue_of_def)
qed

lemma encode_inj: "zkUA_url_encode s = zkUA_url_encode t \<Longrightarrow> s = t"
proof -
  have "zkUA_url_decode (zkUA_url_encode s) = s" for s
    by (induction s) (simp_all only: decode_encode_char zkUA_url_encode.simps(1) zkUA_url_decode.simps(1))
  then show "zkUA_url_encode s = zkUA_url_encode t \<Longrightarrow> s = t" by metis
qed

lemma queue_of_inj:
  assumes "queue_of g url = queue_of g' url'" "guid_ok g" "guid_ok g'"
  shows "g = g' \<and> url = url'"
proof -
  have "length (UA_PRINTF_GUID g) = length (UA_PRINTF_GUID g')" using assms(2,3) by (simp add: length_UA_PRINTF_GUID)
  then have "UA_PRINTF_GUID g = UA_PRINTF_GUID g'" "zkUA_url_encode url = zkUA_url_encode url'"
    using assms(1) by (simp_all add: queue_of_def)
  then show ?thesis
    using guid_back[OF assms(2)] guid_back[OF assms(3)] by (metis append_same_eq guid_text_braces encode_inj same_append_eq)
qed

section \<open>Properties\<close>

text \<open>
  The group identifier of the configuration file: the text of any GUID, as the program prints it
  (without the braces), is read back as that GUID.
\<close>

theorem conf_guid_roundtrip:
  assumes "guid_ok g" "UA_PRINTF_GUID g = str ''{'' @ v @ str ''}''"
  shows "conf_guid v = g"
  using guid_back[OF assms(1)] assms(2) by (simp add: guid_text_braces)

lemma conf_guid_roundtrip_witness:
  "\<exists>v. UA_PRINTF_GUID UA_GUID_NULL = str ''{'' @ v @ str ''}'' \<and> conf_guid v = UA_GUID_NULL"
  using conf_guid_roundtrip[of UA_GUID_NULL "guid_text UA_GUID_NULL"]
  by (auto simp: guid_text_braces guid_ok_def UA_GUID_NULL_def)

text \<open>
  The redundancy type \<open>hot+\<close> is never recognised: the test for \<open>hot\<close>, which comes first and looks
  at a prefix, takes it.
\<close>

theorem hot_plus_read_as_hot:
  "rSupport (conf_entry (str ''RedundancyType'', v) c) \<noteq> 5 \<and>
   rSupport (conf_entry (str ''RedundancyType'', str ''hot+'') c) = 3"
proof -
  have sub: "zkUA_startsWith v (str ''hot'')" if "zkUA_startsWith v (str ''hot+'')"
  proof -
    have "take 4 v = str ''hot+''" 
      using that strncmp_eq_prefix[of v "str ''hot+''"] by (simp add: zkUA_startsWith_def eval_nat_numeral)
    from arg_cong[OF this, of "take 3"] show ?thesis
      using strncmp_eq_prefix[of v "str ''hot''"] by (simp add: zkUA_startsWith_def eval_nat_numeral)
  qed
  show ?thesis
    using sub by (simp add: conf_entry_def) (simp add: zkUA_startsWith_def)
qed

text \<open>
  C29. The client and the server meet in one queue.  For a group identifier \<open>g\<close> that both have in
  their configurations and the URL of the server, the node that the server creates for its tasks is
  the node that it watches, and the path under which the client creates its tasks is that node with
  \<open>/task-\<close> behind it, whatever stood in the path buffers and whatever ZooKeeper answers.  And a server
  with another configuration watches the same node only if it has the same group identifier and
  the same URL.
\<close>

theorem queue_paths_agree:
  fixes G G' H :: zkGlobals and zoo_exists zoo_exists' :: "cstr \<Rightarrow> int"
  assumes "guid_ok (guid c)" "guid cc = guid c" "length (serverDst c) \<le> 21000" "cstr_ok (serverDst c)"
    and "guid_ok (guid d)" "length (serverDst d) \<le> 21000" "cstr_ok (serverDst d)"
  defines "N \<equiv> fst (init_ZUTH_Server zoo_exists c G)" and "M \<equiv> fst (init_ZUTH_Server zoo_exists' d H)"
  shows "serverTaskPath N = serverQueuePath N \<and>
    init_UA_client cc (UA_String_fromChars (serverUri N)) G' = serverQueuePath N @ str ''/task-'' \<and>
    (serverQueuePath N = serverQueuePath M \<longleftrightarrow> guid c = guid d \<and> serverUri N = serverUri M)"
proof -
  have names: "serverUri (fst (init_ZUTH_Server ze k K)) = serverDst k"
      "serverTaskPath (fst (init_ZUTH_Server ze k K)) = queue_of (guid k) (serverDst k)"
      "serverQueuePath (fst (init_ZUTH_Server ze k K)) = queue_of (guid k) (serverDst k)"
    if k: "guid_ok (guid k)" "length (serverDst k) \<le> 21000" "cstr_ok (serverDst k)" for ze k and K :: zkGlobals
  proof -
    have l: "length (queue_of (guid k) (serverDst k)) \<le> 63054" by (rule length_queue_of[OF k(1,2)])
    note gp = group_paths[OF k(1)]
    have snd: "snd (zkUA_initializeZkServerQueuePath ze x K) = zkUA_setQueuePath (zkUA_setGroupGuidPath x K)" for x
      by (simp add: zkUA_initializeZkServerQueuePath_def Let_def)
    show "serverQueuePath (fst (init_ZUTH_Server ze k K)) = queue_of (guid k) (serverDst k)"
      by (simp add: init_ZUTH_Server_def snd Let_def server_queue_path[OF gp(2) k] del: snprintf_s_id)
    show "serverTaskPath (fst (init_ZUTH_Server ze k K)) = queue_of (guid k) (serverDst k)"
      using l by (simp add: init_ZUTH_Server_def snd Let_def gp(2) del: snprintf_s_id) (simp add: queue_of_def)
    show "serverUri (fst (init_ZUTH_Server ze k K)) = serverDst k"
      by (simp add: init_ZUTH_Server_def Let_def)
  qed
  have "length (queue_of (guid c) (serverDst c)) \<le> 63054" by (rule length_queue_of[OF assms(1,3)])
  then have cl: "init_UA_client cc (UA_String_fromChars (serverDst c)) G' = queue_of (guid c) (serverDst c) @ str ''/task-''"
    by (simp add: init_UA_client_def Let_def assms(2) zkUA_encodeServerQueuePath_def
        server_queue_path[OF group_paths(2)[OF assms(1)] assms(1,3,4)] del: snprintf_s_id) simp
  show ?thesis
    unfolding N_def M_def names[OF assms(1,3,4)] names[OF assms(5-7)]
    using queue_of_inj[OF _ assms(1,5)] cl by auto
qed

lemma queue_paths_agree_witness:
  "let c = conf_init\<lparr>hostname := str ''localhost'', uaPort := 16664\<rparr>;
       d = c\<lparr>guid := UA_GUID_NULL\<lparr>gdata1 := 1\<rparr>\<rparr>;
       paths = \<lparr> zkUA_zkServerQueuePath = [], zkUA_zkGroupGuidPath = [] \<rparr>;
       N = fst (init_ZUTH_Server (\<lambda>_. 0) c paths)
   in init_UA_client c (UA_String_fromChars (serverUri N)) paths = serverQueuePath N @ str ''/task-'' \<and>
      serverQueuePath N \<noteq> serverQueuePath (fst (init_ZUTH_Server (\<lambda>_. 0) d paths))"
proof -
  let ?c = "conf_init\<lparr>hostname := str ''localhost'', uaPort := 16664\<rparr>"
  let ?d = "?c\<lparr>guid := UA_GUID_NULL\<lparr>gdata1 := 1\<rparr>\<rparr>"
  have u: "serverDst ?c = str ''opc.tcp://localhost:16664''" "serverDst ?d = str ''opc.tcp://localhost:16664''"
    by (simp_all add: serverDst_def conf_init_def decimal.simps)
  have g: "guid_ok (guid ?c)" "guid_ok (guid ?d)" "guid ?c \<noteq> guid ?d"
    by (simp_all add: conf_init_def guid_ok_def UA_GUID_NULL_def)
  have ok: "length (serverDst ?c) \<le> 21000" "cstr_ok (serverDst ?c)" "length (serverDst ?d) \<le> 21000" "cstr_ok (serverDst ?d)"
    unfolding u by (simp_all add: cstr_ok_def)
  from queue_paths_agree[OF g(1) refl ok(1,2) g(2) ok(3,4)] g(3) show ?thesis unfolding Let_def by blast
qed

end
