(* ===== verification/ServerChunks.thy ===== *)
theory ServerChunks
  imports ChunkTransfer Managers
begin

text \<open>
  The processing of chunks in the server, where the channel lies in the store of the managers: the
  application that a complete message is handed to gets the whole server, and what it does to the
  channel (renewing it, freeing it) is what the next chunk finds.
\<close>

section \<open>Operations\<close>

type_synonym 'a handler = "nat \<Rightarrow> server \<times> 'a \<Rightarrow> u32 \<Rightarrow> u32 \<Rightarrow> uaMessage \<Rightarrow> (server \<times> 'a) outcome"

text \<open>
  A handler of the server as a callback of one round: the channel is stored before the call, and the
  result of the call replaces the server.
\<close>

definition call_handler :: "'a handler \<Rightarrow> nat \<Rightarrow> server \<times> 'a \<Rightarrow> (server \<times> 'a) outcome option callback" where
  "call_handler h c x = (\<lambda>r ch t req m. (Some (h c (put_chan c ch (fst x), snd x) t req m), ch))"

definition after_round ::
  "nat \<Rightarrow> server \<times> 'a \<Rightarrow> secureChannel \<Rightarrow> (server \<times> 'a) outcome option \<Rightarrow> (server \<times> 'a) outcome" where
  "after_round c x ch r = (case r of None \<Rightarrow> Done (put_chan c ch (fst x), snd x) | Some y \<Rightarrow> y)"

text \<open>Every round reads the channel through its pointer.\<close>

fun server_chunks ::
  "nat \<Rightarrow> 'a handler \<Rightarrow> byte list \<Rightarrow> nat \<Rightarrow> nat \<Rightarrow> server \<times> 'a \<Rightarrow> (status \<times> server \<times> 'a) outcome" where
  "server_chunks 0 h bs off c x = OutOfFuel"
| "server_chunks (Suc n) h bs off c x =
     bind (deref (chans (fst x)) c) (\<lambda>ch.
     bind (process_chunk (call_handler h c x) bs off ch None) (\<lambda>p. case p of
         Stop rv ch' r \<Rightarrow> bind (after_round c x ch' r) (\<lambda>x'. Done (rv, x'))
       | Next off' ch' r \<Rightarrow>
           bind (after_round c x ch' r) (\<lambda>x'.
             if off' < length bs then server_chunks n h bs off' c x' else Done (GOOD, x'))))"

section \<open>Refinement\<close>

text \<open>A callback that changes its channel only, as a handler.\<close>

definition channel_handler :: "'a callback \<Rightarrow> 'a handler" where
  "channel_handler cb c x t req m =
     bind (deref (chans (fst x)) c) (\<lambda>ch. case cb (snd x) ch t req m of
       (a, ch') \<Rightarrow> Done (put_chan c ch' (fst x), a))"

lemma put_chan_simps [simp]:
  "put_chan c x (put_chan c y s) = put_chan c x s" "chans (put_chan c x s) = (chans s)(c \<mapsto> x)"
  by (simp_all add: put_chan_def)

text \<open>A round calls its callback at most once, as its last action; what it calls it with.\<close>

type_synonym call = "secureChannel \<times> u32 \<times> u32 \<times> uaMessage"

definition probe_call :: "call option callback" where
  "probe_call r ch t req m = (Some (ch, t, req, m), ch)"

fun replay :: "'a callback \<Rightarrow> 'a \<Rightarrow> call option progress \<Rightarrow> 'a progress" where
  "replay cb a (Stop rv c r) = Stop rv c a"
| "replay cb a (Next off c None) = Next off c a"
| "replay cb a (Next off c (Some (c0, t, req, m))) = (case cb a c0 t req m of (a', c2) \<Rightarrow> Next off c2 a')"

lemma bind_map_outcome: "(\<And>x. f x = map_outcome g (f' x)) \<Longrightarrow> bind m f = map_outcome g (bind m f')"
  by (cases m) simp_all

lemma process_error_replay:
  "process_error cb bs off c a = map_outcome (replay cb a) (process_error probe_call bs off c None)"
  unfolding process_error_def
proof (rule bind_map_outcome, goal_cases)
  case (1 x)
  show ?case
  proof (cases "snd x")
    case (Some y)
    then show ?thesis
      by (cases x; cases y; simp)
         (rule bind_map_outcome, simp add: probe_call_def split: prod.splits option.splits list.splits uval.splits)
  qed (cases x; simp)
qed

lemma process_content_replay:
  "process_content cb bs i off typ sz req c a = replay cb a (process_content probe_call bs i off typ sz req c None)"
  by (simp add: process_content_def probe_call_def Let_def split: prod.splits)

lemma process_chunk_replay:
  "process_chunk cb bs off c a = map_outcome (replay cb a) (process_chunk probe_call bs off c None)"
  unfolding process_chunk_def
proof (rule bind_map_outcome, goal_cases)
  case (1 e)
  show ?case
  proof (cases e)
    case True
    then show ?thesis using process_error_replay[of cb] by simp
  next
    case False
    have "bind m (\<lambda>(c2, r). case r of None \<Rightarrow> Done (Stop BADCOMMUNICATIONERROR c2 a)
          | Some (req, off2) \<Rightarrow> Done (replay cb a (process_content probe_call bs off off2 t sz req c2 None))) =
        map_outcome (replay cb a) (bind m (\<lambda>(c2, r). case r of None \<Rightarrow> Done (Stop BADCOMMUNICATIONERROR c2 None)
          | Some (req, off2) \<Rightarrow> Done (process_content probe_call bs off off2 t sz req c2 None)))" for m t sz
      by (rule bind_map_outcome) (simp split: prod.splits option.splits)
    note check = this
    show ?thesis
      using False
      by (simp, intro bind_map_outcome)
         (simp add: process_content_replay[of cb] check split: prod.splits option.splits list.splits uval.splits)
  qed
qed

lemma replay_call_handler:
  "replay (call_handler h c x) None p = (case p of
     Stop rv ch r \<Rightarrow> Stop rv ch None
   | Next off ch None \<Rightarrow> Next off ch None
   | Next off ch (Some (c0, t, req, m)) \<Rightarrow> Next off c0 (Some (h c (put_chan c c0 (fst x), snd x) t req m)))"
  by (cases p) (auto simp: call_handler_def split: option.splits)

lemma channel_handler_put:
  "channel_handler cb c (put_chan c ch s, a) t req m =
     (case cb a ch t req m of (a', ch') \<Rightarrow> Done (put_chan c ch' s, a'))"
  by (simp add: channel_handler_def deref_def)

text \<open>
  The processing in the server refines the processing of a channel alone: with an application that
  changes nothing but its channel, the server ends with the channel that the latter gives, and with
  the same application state and status.
\<close>

theorem server_chunks_refine:
  assumes "chans s c = Some ch"
  shows "server_chunks n (channel_handler cb) bs off c (s, a) =
    map_outcome (\<lambda>(rv, ch', a'). (rv, put_chan c ch' s, a')) (processChunks_from n cb bs off ch a)"
  using assms
proof (induction n arbitrary: off s ch a)
  case (Suc n)
  let ?h = "call_handler (channel_handler cb) c (s, a)"
  show ?case
  proof (cases "process_chunk probe_call bs off ch None")
    case (Done p)
    note d = process_chunk_replay[of ?h bs off ch None] process_chunk_replay[of cb bs off ch a]
    show ?thesis
    proof (cases p)
      case (Next off' ch' r)
      show ?thesis
        using Suc Done Next
        by (cases r) (auto simp: d deref_def replay_call_handler after_round_def channel_handler_put comp_def
            outcome.map_comp case_prod_beta split: prod.splits)
    qed (simp add: d Done Suc.prems deref_def replay_call_handler after_round_def)
  qed (simp_all add: process_chunk_replay[of ?h] process_chunk_replay[of cb] Suc.prems deref_def)
qed simp

section \<open>The chunks of a message, one at a time\<close>

definition server_receiving ::
  "nat \<Rightarrow> server \<Rightarrow> secureChannel \<Rightarrow> u32 \<Rightarrow> sentChunk list \<Rightarrow> nat \<Rightarrow> server" where
  "server_receiving c s ch req ks m = put_chan c (receiving ch req ks m) s"

text \<open>What has become of the server, after the last chunk.\<close>

definition server_received ::
  "'a handler \<Rightarrow> nat \<Rightarrow> server \<Rightarrow> secureChannel \<Rightarrow> u32 \<Rightarrow> u32 \<Rightarrow> u32 \<Rightarrow> sentChunk list \<Rightarrow> 'a \<Rightarrow> (server \<times> 'a) outcome"
where
  "server_received h c s ch req mt lt ks a =
     (let s' = put_chan c (ch\<lparr>receiveSequenceNumber := receiveSequenceNumber ch + of_nat (length ks)\<rparr>) s
      in if lt = UA_CHUNKTYPE_FINAL then h c (s', a) mt req (Content (concat (map scBody ks))) else Done (s', a))"

lemma server_chunk_more:
  assumes "message_chunks cs req mt lt ks" "expects ch cs req" "Suc m < length ks"
  shows "server_chunks (Suc n) h (chunk_bytes (ks ! m)) 0 c (server_receiving c s ch req ks m, a) =
    Done (GOOD, server_receiving c s ch req ks (Suc m), a)"
proof -
  have m: "m < length ks" "Suc m \<noteq> length ks" using assms(3) by auto
  have mt: "mt = UA_MESSAGETYPE_MSG \<or> mt = UA_MESSAGETYPE_CLO" using assms(1) by (simp add: message_chunks_def)
  have ok: "chunk_ok cs req m (mt + UA_CHUNKTYPE_INTERMEDIATE) (ks ! m)"
    using message_chunks_nth(1)[OF assms(1) m(1)] m(2) by simp
  have d: "drop 0 (chunk_bytes (ks ! m)) = chunk_bytes (ks ! m) @ []" by simp
  note r = receive_intermediate[OF ok m(1) assms(2) d _ mt message_chunks_nth(2)[OF assms(1) m(1)]]
  show ?thesis
    by (simp add: server_receiving_def deref_def r after_round_def)
qed

lemma call_handler_apply:
  "call_handler h c x r ch t req m = (Some (h c (put_chan c ch (fst x), snd x) t req m), ch)"
  by (simp add: call_handler_def)

lemma server_chunk_last:
  assumes "message_chunks cs req mt lt ks" "expects ch cs req" "Suc m = length ks"
    and "lt = UA_CHUNKTYPE_FINAL \<and> concat (map scBody ks) \<noteq> [] \<or> lt = UA_CHUNKTYPE_ABORT"
  shows "server_chunks (Suc n) h (chunk_bytes (ks ! m)) 0 c (server_receiving c s ch req ks m, a) =
    bind (server_received h c s ch req mt lt ks a) (\<lambda>x. Done (GOOD, x))"
proof -
  have m: "m < length ks" using assms(3) by simp
  have mt: "mt = UA_MESSAGETYPE_MSG \<or> mt = UA_MESSAGETYPE_CLO" using assms(1) by (simp add: message_chunks_def)
  have ok: "chunk_ok cs req m (mt + lt) (ks ! m)"
    using message_chunks_nth(1)[OF assms(1) m] assms(3) by simp
  have d: "drop 0 (chunk_bytes (ks ! m)) = chunk_bytes (ks ! m) @ []" by simp
  note sz = message_chunks_nth(2)[OF assms(1) m]
  show ?thesis
  proof (cases "lt = UA_CHUNKTYPE_FINAL")
    case True
    then have "concat (map scBody ks) \<noteq> []" using assms(4) by auto
    note r = receive_final[OF ok[unfolded True] assms(3,2) d _ mt sz this]
    show ?thesis
      by (simp add: r True server_receiving_def server_received_def deref_def call_handler_apply after_round_def
          Let_def)
  next
    case False
    then have lt: "lt = UA_CHUNKTYPE_ABORT" using assms(4) by blast
    note r = receive_abort[OF ok[unfolded lt] assms(3,2) d _ mt sz]
    show ?thesis
      by (simp add: r lt server_receiving_def server_received_def deref_def after_round_def Let_def)
  qed
qed

end
