(* ===== verification/TaskQueue.thy ===== *)
theory TaskQueue
  imports ServerChunks ZkConfig
begin

text \<open>
  The task queue: a client puts the chunks of its requests into ZooKeeper as numbered tasks
  (\<open>ZUTH_SecureChannel_sendChunk\<close>, \<open>ZUTH_SecureChannel_sendBinaryMessage\<close>), and a server takes the
  tasks of its queue in the order of their numbers (\<open>zuthServer.c\<close>).

  ZooKeeper's client, Jansson and GLib are not part of the repository: their operations are the
  fields of a record that the definitions take.
\<close>

section \<open>The services\<close>

datatype json = JInteger int | JString cstr | JObject "(cstr \<times> json) list" | JOther

text \<open>
  \<open>zoo_create\<close> makes a sequential node and gives its name; \<open>zoo_get\<close> gives the whole data of a node,
  of which the caller's buffer gets what fits.  The first number is the return code.
\<close>

record 'z services =
  g_base64_encode :: "byte list \<Rightarrow> cstr"
  g_base64_decode :: "cstr \<Rightarrow> byte list"
  json_dumps :: "json \<Rightarrow> cstr"
  json_loads :: "cstr \<Rightarrow> json option"
  zoo_create :: "cstr \<Rightarrow> cstr \<Rightarrow> 'z \<Rightarrow> (int \<times> cstr) \<times> 'z"
  zoo_get :: "cstr \<Rightarrow> 'z \<Rightarrow> int \<times> cstr"
  zoo_delete :: "cstr \<Rightarrow> 'z \<Rightarrow> int \<times> 'z"

definition json_object_get :: "json \<Rightarrow> cstr \<Rightarrow> json option" where
  "json_object_get j k = (case j of JObject kvs \<Rightarrow> map_of kvs k | _ \<Rightarrow> None)"

definition json_integer_value :: "json option \<Rightarrow> int" where
  "json_integer_value j = (case j of Some (JInteger i) \<Rightarrow> i | _ \<Rightarrow> 0)"

definition json_string_value :: "json \<Rightarrow> cstr option" where
  "json_string_value j = (case j of JString s \<Rightarrow> Some s | _ \<Rightarrow> None)"

section \<open>The client\<close>

text \<open>The document that a chunk becomes, and its task.  Whether the node could be made is only printed.\<close>

definition task_doc :: "'z services \<Rightarrow> sentChunk \<Rightarrow> json" where
  "task_doc S k = JObject [(str ''channelId'', JInteger (uint (scChannel k))),
     (str ''requestId'', JInteger (uint (scRequest k))),
     (str ''dst'', JString (g_base64_encode S (chunk_bytes k))),
     (str ''offset'', JInteger (int (length (chunk_bytes k))))]"

definition push_task :: "'z services \<Rightarrow> cstr \<Rightarrow> sentChunk \<Rightarrow> 'z \<Rightarrow> (int \<times> cstr) \<times> 'z" where
  "push_task S tskPath k z = zoo_create S tskPath (json_dumps S (task_doc S k)) z"

fun push_tasks :: "'z services \<Rightarrow> cstr \<Rightarrow> sentChunk list \<Rightarrow> 'z \<Rightarrow> (int \<times> cstr) list \<times> 'z" where
  "push_tasks S tskPath [] z = ([], z)"
| "push_tasks S tskPath (k # ks) z =
     (let (r, z1) = push_task S tskPath k z; (rs, z2) = push_tasks S tskPath ks z1 in (r # rs, z2))"

definition ZUTH_SecureChannel_sendBinaryMessage ::
  "'z services \<Rightarrow> 'p getbuf \<Rightarrow> (nat \<Rightarrow> connection) \<Rightarrow> nat \<Rightarrow> nat \<Rightarrow> types \<Rightarrow> udesc \<Rightarrow> uval \<Rightarrow> u32 \<Rightarrow> secureChannel \<Rightarrow>
   cstr \<Rightarrow> 'z \<Rightarrow> 'p \<Rightarrow> (status \<times> secureChannel \<times> 'z \<times> 'p) outcome" where
  "ZUTH_SecureChannel_sendBinaryMessage S getSendBuffer cn fuel n own d v reqId c taskPath z p =
     bind (send_message getSendBuffer cn fuel n own d v reqId c p)
       (\<lambda>(rv, s). Done (rv, schan s, snd (push_tasks S (snprintf_s BUFSZ taskPath) (sent s) z), pool s))"

section \<open>The order of the tasks\<close>

text \<open>The digits behind \<open>task-\<close>, copied into a buffer of 65535 bytes; a name without it is a NULL pointer.\<close>

definition zuth_extractTaskId :: "cstr \<Rightarrow> cstr outcome" where
  "zuth_extractTaskId name = (case strstr name (str ''task-'') of
       None \<Rightarrow> Undefined
     | Some locTask \<Rightarrow>
         let digits = drop (length (str ''task-'')) locTask
         in if length digits < BUFSZ then Done digits else Undefined)"

text \<open>For two equal numbers it prints the two pointers it was given as if they were texts.\<close>

definition taskIdCmp :: "cstr \<Rightarrow> cstr \<Rightarrow> int outcome" where
  "taskIdCmp a b =
     bind (zuth_extractTaskId a) (\<lambda>taskId1. bind (zuth_extractTaskId b) (\<lambda>taskId2.
       let tI1 = strtoll taskId1; tI2 = strtoll taskId2
       in if tI1 < tI2 then Done (-1) else if tI1 > tI2 then Done 1 else Undefined))"

definition task_id :: "cstr \<Rightarrow> int" where
  "task_id name = (case zuth_extractTaskId name of Done digits \<Rightarrow> strtoll digits | _ \<Rightarrow> 0)"

text \<open>\<open>qsort(..., taskIdCmp)\<close>, which compares every name when there are two.\<close>

definition sort_tasks :: "cstr list \<Rightarrow> cstr list outcome" where
  "sort_tasks names =
     (if length names \<le> 1 then Done names
      else if list_all (\<lambda>x. zuth_extractTaskId x \<noteq> Undefined) names \<and> distinct (map task_id names)
      then Done (sort_key task_id names) else Undefined)"

section \<open>The server\<close>

record ('z, 'a) zuth =
  zk :: 'z
  uaServer :: server
  app :: 'a
  running :: bool

text \<open>
  \<open>UA_SecureChannel_processChunks\<close> with a NULL channel: it returns when the first header cannot be
  decoded, and reads the channel or hands it to the application otherwise.
\<close>

definition processChunks_null :: "byte list \<Rightarrow> unit outcome" where
  "processChunks_null bs =
     bind (is_error_message bs 0) (\<lambda>isErr.
       if isErr then bind (process_error (\<lambda>_ c _ _ _. (True, c)) bs 0 UA_SecureChannel_init False) (\<lambda>p. case p of
             Stop _ _ _ \<Rightarrow> Done ()
           | Next _ _ _ \<Rightarrow> Undefined)
       else bind (decode_at UA_TRANSPORT UA_TRANSPORT_SECURECONVERSATIONMESSAGEHEADER bs 0) (\<lambda>(rv, h). case h of
             None \<Rightarrow> Done ()
           | Some _ \<Rightarrow> Undefined))"

text \<open>
  The data is read into a buffer of 65535 zeroed bytes and taken as a C text: without a zero byte in
  it the parser reads behind the buffer.  \<open>g_base64_decode\<close> must not be given a NULL pointer.
\<close>

definition zuth_executeRequest ::
  "'z services \<Rightarrow> 'a handler \<Rightarrow> nat \<Rightarrow> cstr \<Rightarrow> ('z, 'a) zuth \<Rightarrow> ('z, 'a) zuth outcome" where
  "zuth_executeRequest S h fuel stringRequest st =
     (let (rc, data) = zoo_get S stringRequest (zk st);
          buffer = take BUFSZ (if rc = 0 then data else [])
      in if length buffer = BUFSZ \<and> 0 \<notin> set buffer then Undefined
         else case json_loads S (takeWhile (\<lambda>c. c \<noteq> 0) buffer) of
           None \<Rightarrow> Done st
         | Some jsonRoot \<Rightarrow> (case json_object_get jsonRoot (str ''dst'') of
             None \<Rightarrow> Done st
           | Some jString \<Rightarrow> (case json_string_value jString of
               None \<Rightarrow> Undefined
             | Some conv \<Rightarrow>
                 let dst = g_base64_decode S conv;
                     channel = word_of_int (json_integer_value (json_object_get jsonRoot (str ''channelId'')))
                 in bind (ZUTH_getSecureChannel (uaServer st) channel) (\<lambda>r.
                    bind (case r of
                        None \<Rightarrow> bind (processChunks_null dst) (\<lambda>_. Done (uaServer st, app st))
                      | Some c \<Rightarrow> bind (server_chunks fuel h dst 0 c (uaServer st, app st)) (\<lambda>(rv, x). Done x))
                    (\<lambda>(s, a). Done (st\<lparr>uaServer := s, app := a, zk := snd (zoo_delete S stringRequest (zk st))\<rparr>))))))"

fun run_tasks ::
  "'z services \<Rightarrow> 'a handler \<Rightarrow> nat \<Rightarrow> cstr \<Rightarrow> cstr list \<Rightarrow> ('z, 'a) zuth \<Rightarrow> ('z, 'a) zuth outcome" where
  "run_tasks S h fuel data [] st = Done st"
| "run_tasks S h fuel data (name # names) st =
     bind (zuth_executeRequest S h fuel (snprintf_s BUFSZ (data @ str ''/'' @ name)) st)
       (run_tasks S h fuel data names)"

definition zuth_processTasks ::
  "'z services \<Rightarrow> 'a handler \<Rightarrow> nat \<Rightarrow> int \<Rightarrow> cstr list option \<Rightarrow> cstr \<Rightarrow> ('z, 'a) zuth \<Rightarrow> ('z, 'a) zuth outcome"
where
  "zuth_processTasks S h fuel rc strings data st =
     (let st1 = (if rc \<noteq> 0 then st\<lparr>running := False\<rparr> else st)
      in case strings of
           None \<Rightarrow> Done st1
         | Some names \<Rightarrow> bind (sort_tasks names) (\<lambda>sorted. run_tasks S h fuel data sorted st1))"

section \<open>The watcher of the queue\<close>

text \<open>
  The service level is read again and again, as four bytes behind the data pointer of a value, until
  it is at least 200; \<open>level i\<close> are the bytes that the \<open>i\<close>-th read gives.
\<close>

definition int32_at :: "byte list \<Rightarrow> int outcome" where
  "int32_at bs = (if length bs < 4 then Undefined else Done (sint (word_rcat (rev (take 4 bs)) :: u32)))"

fun wait_level :: "nat \<Rightarrow> (nat \<Rightarrow> byte list) \<Rightarrow> nat \<Rightarrow> nat outcome" where
  "wait_level 0 level i = OutOfFuel"
| "wait_level (Suc n) level i =
     bind (int32_at (level i)) (\<lambda>value. if value < 200 then wait_level n level (Suc i) else Done i)"

text \<open>Whether the tasks are asked for (and watched again), and the session.\<close>

definition zkUA_queueWatcher ::
  "zooStates \<Rightarrow> zooEvents \<Rightarrow> nat \<Rightarrow> (nat \<Rightarrow> byte list) \<Rightarrow> int \<Rightarrow> int \<Rightarrow> int \<Rightarrow> cstr \<Rightarrow> zkSession \<Rightarrow>
   (bool \<times> zkSession) outcome" where
  "zkUA_queueWatcher Z E fuel level zooClientId ev st path s =
     bind (if path \<noteq> [] \<and> ev = ZOO_CHILD_EVENT E then bind (wait_level fuel level 0) (\<lambda>_. Done True) else Done False)
       (\<lambda>asked. Done (asked,
          if ev = ZOO_SESSION_EVENT E then
            (if st = ZOO_CONNECTED_STATE Z then
               (if zsClientId s = 0 \<or> zsClientId s \<noteq> zooClientId then s\<lparr>zsClientId := zooClientId\<rparr> else s)
             else if st = ZOO_AUTH_FAILED_STATE Z then s\<lparr>zsOpen := False\<rparr>
             else if st = ZOO_EXPIRED_SESSION_STATE Z then s\<lparr>zsOpen := False\<rparr>
             else s)
          else s))"

section \<open>The laws of the services\<close>

text \<open>Base64 and JSON: what was written is read back; the texts have no zero byte; Base64 takes four
  characters for three bytes, and the document holds the text.\<close>

definition codec_laws :: "'z services \<Rightarrow> bool" where
  "codec_laws S \<longleftrightarrow>
     (\<forall>bs. g_base64_decode S (g_base64_encode S bs) = bs \<and> 4 * length bs \<le> 3 * length (g_base64_encode S bs)) \<and>
     (\<forall>k. json_loads S (json_dumps S (task_doc S k)) = Some (task_doc S k) \<and>
          cstr_ok (json_dumps S (task_doc S k)) \<and>
          length (g_base64_encode S (chunk_bytes k)) \<le> length (json_dumps S (task_doc S k)))"

text \<open>
  ZooKeeper: the name of a sequential node ends in ten digits of a counter, which the parent of the node
  keeps and which goes on with every such node until it is \<open>2147483647\<close>; a new node has its data; other
  nodes keep theirs when a node is made or deleted.  The parent of a path is what stands before its last
  slash.
\<close>

definition parent_node :: "cstr \<Rightarrow> cstr" where
  "parent_node path = rev (drop 1 (dropWhile (\<lambda>c. c \<noteq> 47) (rev path)))"

definition zookeeper_laws :: "'z services \<Rightarrow> ('z \<Rightarrow> cstr \<Rightarrow> nat) \<Rightarrow> bool" where
  "zookeeper_laws S counter \<longleftrightarrow>
     (\<forall>path d z rc name z'. zoo_create S path d z = ((rc, name), z') \<longrightarrow> rc = 0 \<longrightarrow>
        counter z (parent_node path) < 2147483647 \<longrightarrow>
        name = path @ decimal10 (counter z (parent_node path)) \<and>
        counter z' (parent_node path) = Suc (counter z (parent_node path)) \<and> zoo_get S name z' = (0, d) \<and>
        (\<forall>q. q \<noteq> name \<longrightarrow> zoo_get S q z' = zoo_get S q z)) \<and>
     (\<forall>name z q. q \<noteq> name \<longrightarrow> zoo_get S q (snd (zoo_delete S name z)) = zoo_get S q z)"

lemma parent_task: "parent_node (queue @ str ''/task-'') = queue"
  by (simp add: parent_node_def)

section \<open>Names of tasks\<close>

lemma length_decimal: "n < 10 ^ Suc k \<Longrightarrow> length (decimal n) \<le> Suc k"
proof (induction k arbitrary: n)
  case 0
  then show ?case by (simp add: decimal.simps)
next
  case (Suc k)
  then have "length (decimal (n div 10)) \<le> Suc k" by (intro Suc.IH) (simp add: div_less_iff_less_mult mult.commute)
  then show ?case by (subst decimal.simps) simp
qed

lemma length_decimal10: "n < 2 ^ 63 \<Longrightarrow> length (decimal10 n) \<le> 19"
  using length_decimal[of n 18] by (simp add: decimal10_def)

definition task_name :: "nat \<Rightarrow> cstr" where
  "task_name n = str ''task-'' @ decimal10 n"

lemma task_name_digits: "n < 2 ^ 63 \<Longrightarrow> zuth_extractTaskId (task_name n) = Done (decimal10 n)"
  using strstr_prefix[of "str ''task-''" "decimal10 n"] length_decimal10[of n]
  by (simp add: zuth_extractTaskId_def task_name_def)

lemma task_id_name: "n < 2 ^ 63 \<Longrightarrow> task_id (task_name n) = int n"
  by (simp add: task_id_def task_name_digits strtoll_decimal10)

lemma decimal10_inj: "decimal10 a = decimal10 b \<Longrightarrow> a < 2 ^ 63 \<Longrightarrow> b < 2 ^ 63 \<Longrightarrow> a = b"
  by (metis of_nat_eq_iff strtoll_decimal10)

lemma sort_task_names:
  assumes "mset names = mset (map task_name [a..<b])" "b \<le> 2 ^ 63"
  shows "sort_tasks names = Done (map task_name [a..<b])"
proof -
  have s: "set names = task_name ` {a..<b}" and l: "length names = b - a"
    using assms(1) by (metis set_mset_mset set_map set_upt, metis size_mset length_map length_upt)
  have ids: "task_id (task_name n) = int n" if "n \<in> {a..<b}" for n
    using that assms(2) by (intro task_id_name) simp
  have inj: "inj_on task_id (set names)" unfolding s using ids by (auto intro!: inj_onI)
  have "map (task_id \<circ> task_name) [a..<b] = map int [a..<b]" using ids by simp
  then have sorted: "sort_key task_id names = map task_name [a..<b]"
    using assms(1) inj by (intro sort_key_inj_key_eq) (simp_all add: sorted_map sorted_wrt_iff_nth_less)
  have "mset (map task_id names) = mset (map task_id (map task_name [a..<b]))"
    by (simp only: mset_map assms(1))
  also have "map task_id (map task_name [a..<b]) = map int [a..<b]" using ids by simp
  finally have "mset (map task_id names) = mset (map int [a..<b])" .
  then have d: "distinct (map task_id names)"
    by (metis distinct_map distinct_upt inj_on_of_nat mset_eq_imp_distinct_iff)
  have e: "list_all (\<lambda>x. zuth_extractTaskId x \<noteq> Undefined) names"
    using assms(2) by (auto simp: list_all_iff s task_name_digits)
  show ?thesis
  proof (cases "length names \<le> 1")
    case True
    then have "names = map task_name [a..<b]"
      using assms(1) l by (cases names; cases "[a..<b]") auto
    then show ?thesis using True by (simp add: sort_tasks_def)
  qed (simp add: sort_tasks_def d e sorted)
qed

section \<open>The tasks in ZooKeeper\<close>

lemma push_tasks_stored:
  assumes "zookeeper_laws S counter" "push_tasks S path ks z = (rs, z')" "list_all (\<lambda>r. fst r = 0) rs"
    and "counter z (parent_node path) + length ks \<le> 2147483647"
  shows "(\<forall>i<length ks. zoo_get S (path @ decimal10 (counter z (parent_node path) + i)) z' = (0, json_dumps S (task_doc S (ks ! i)))) \<and>
    (\<forall>q. (\<forall>i<length ks. q \<noteq> path @ decimal10 (counter z (parent_node path) + i)) \<longrightarrow> zoo_get S q z' = zoo_get S q z)"
  using assms(2-)
proof (induction ks arbitrary: z rs)
  case Nil
  then show ?case by simp
next
  case (Cons k ks)
  obtain rc name z1 where c: "zoo_create S path (json_dumps S (task_doc S k)) z = ((rc, name), z1)" by (metis prod.exhaust)
  obtain rs' where r: "push_tasks S path ks z1 = (rs', z')" "rs = (rc, name) # rs'"
    using Cons.prems(1) c by (auto simp: push_task_def split: prod.splits)
  have rc: "rc = 0" "list_all (\<lambda>r. fst r = 0) rs'" using Cons.prems(2) r(2) by simp_all
  have n: "name = path @ decimal10 (counter z (parent_node path))" "counter z1 (parent_node path) = Suc (counter z (parent_node path))"
      "zoo_get S name z1 = (0, json_dumps S (task_doc S k))" "\<And>q. q \<noteq> name \<Longrightarrow> zoo_get S q z1 = zoo_get S q z"
    using assms(1) c rc(1) Cons.prems(3) unfolding zookeeper_laws_def by fastforce+
  have b: "counter z1 (parent_node path) + length ks \<le> 2147483647" using Cons.prems(3) n(2) by simp
  have new: "path @ decimal10 (counter z (parent_node path)) \<noteq> path @ decimal10 (counter z1 (parent_node path) + i)" if "i < length ks" for i
    using decimal10_inj[of "counter z (parent_node path)" "counter z1 (parent_node path) + i"] Cons.prems(3) n(2) that by auto
  note IH = Cons.IH[OF r(1) rc(2) b]
  show ?case
  proof (intro conjI allI impI)
    fix i assume "i < length (k # ks)"
    then show "zoo_get S (path @ decimal10 (counter z (parent_node path) + i)) z' = (0, json_dumps S (task_doc S ((k # ks) ! i)))"
      using IH n new by (cases i) auto
  next
    fix q assume q: "\<forall>i<length (k # ks). q \<noteq> path @ decimal10 (counter z (parent_node path) + i)"
    then have "\<forall>i<length ks. q \<noteq> path @ decimal10 (counter z1 (parent_node path) + i)" using n(2) by auto
    moreover have "q \<noteq> name" using q n(1) by force
    ultimately show "zoo_get S q z' = zoo_get S q z" using IH n(4) by simp
  qed
qed

section \<open>One task\<close>

lemma find_channel_put:
  assumes "chans s c = Some ch" "channelId (securityToken ch') = channelId (securityToken ch)"
  shows "find_channel cs k (put_chan c ch' s) = find_channel cs k s"
  using assms by (induction cs) (auto simp: deref_def split: option.splits)

lemma getSecureChannel_put:
  assumes "chans s c = Some ch" "channelId (securityToken ch') = channelId (securityToken ch)"
  shows "ZUTH_getSecureChannel (put_chan c ch' s) k = ZUTH_getSecureChannel s k"
  using find_channel_put[OF assms]
  by (simp add: ZUTH_getSecureChannel_def UA_SecureChannelManager_get_def put_chan_def)

lemma task_members:
  "json_object_get (task_doc S k) (str ''dst'') = Some (JString (g_base64_encode S (chunk_bytes k)))"
  "json_object_get (task_doc S k) (str ''channelId'') = Some (JInteger (uint (scChannel k)))"
  by (simp_all add: json_object_get_def task_doc_def)

lemma task_buffer:
  assumes "codec_laws S" "length (json_dumps S (task_doc S k)) < BUFSZ"
  defines "d \<equiv> json_dumps S (task_doc S k)"
  shows "take BUFSZ d = d" "length d \<noteq> BUFSZ" "takeWhile (\<lambda>c. c \<noteq> 0) d = d"
proof -
  have "cstr_ok d" using assms(1) by (simp add: codec_laws_def d_def)
  then show "takeWhile (\<lambda>c. c \<noteq> 0) d = d" by (auto simp: cstr_ok_def takeWhile_eq_all_conv)
  show "take BUFSZ d = d" "length d \<noteq> BUFSZ" using assms(2) by (simp_all add: d_def)
qed

lemma execute_task:
  assumes "codec_laws S" "zoo_get S path (zk st) = (0, json_dumps S (task_doc S k))"
    and "length (json_dumps S (task_doc S k)) < BUFSZ"
    and "ZUTH_getSecureChannel (uaServer st) (scChannel k) = Done (Some c)"
  shows "zuth_executeRequest S h fuel path st =
    bind (server_chunks fuel h (chunk_bytes k) 0 c (uaServer st, app st)) (\<lambda>(rv, s, a).
      Done (st\<lparr>uaServer := s, app := a, zk := snd (zoo_delete S path (zk st))\<rparr>))"
proof -
  note b = task_buffer[OF assms(1,3)]
  have l: "g_base64_decode S (g_base64_encode S (chunk_bytes k)) = chunk_bytes k"
    "json_loads S (json_dumps S (task_doc S k)) = Some (task_doc S k)"
    using assms(1) by (simp_all add: codec_laws_def)
  show ?thesis
    using assms(3,4) by (cases "server_chunks fuel h (chunk_bytes k) 0 c (uaServer st, app st)")
      (simp_all add: zuth_executeRequest_def Let_def assms(2) b l task_members json_string_value_def
        json_integer_value_def split: prod.splits del: str.simps)
qed

section \<open>All tasks of a message\<close>

text \<open>The paths that the server makes of the names of its tasks, and their deletion in order.\<close>

definition task_path :: "cstr \<Rightarrow> nat \<Rightarrow> cstr" where
  "task_path data n = data @ str ''/task-'' @ decimal10 n"

fun delete_tasks :: "'z services \<Rightarrow> cstr list \<Rightarrow> 'z \<Rightarrow> 'z" where
  "delete_tasks S [] z = z"
| "delete_tasks S (p # ps) z = delete_tasks S ps (snd (zoo_delete S p z))"

lemma server_task_path:
  assumes "n < 2 ^ 63" "length data \<le> 64000"
  shows "snprintf_s BUFSZ (data @ str ''/'' @ task_name n) = task_path data n"
  using length_decimal10[OF assms(1)] assms(2) by (simp add: task_path_def task_name_def)

lemma task_path_inj: "task_path data a = task_path data b \<Longrightarrow> a < 2 ^ 63 \<Longrightarrow> b < 2 ^ 63 \<Longrightarrow> a = b"
  using decimal10_inj[of a b] by (simp add: task_path_def)

text \<open>The state of the server in the middle of a message.\<close>

lemma run_message:
  fixes st :: "('z, 'a) zuth"
  assumes laws: "codec_laws S" "zookeeper_laws S counter"
    and msg: "message_chunks cs req mt lt ks" "expects ch cs req"
      "lt = UA_CHUNKTYPE_FINAL \<and> concat (map scBody ks) \<noteq> [] \<or> lt = UA_CHUNKTYPE_ABORT"
    and ids: "list_all (\<lambda>k. scChannel k = channelId (securityToken cs)) ks"
    and size: "list_all (\<lambda>k. length (json_dumps S (task_doc S k)) < BUFSZ) ks"
    and bounds: "n0 + length ks \<le> 2 ^ 63" "length data \<le> 64000"
    and chan: "chans (uaServer st) c = Some ch0" "channelId (securityToken ch0) = channelId (securityToken ch)"
      "ZUTH_getSecureChannel (uaServer st) (channelId (securityToken cs)) = Done (Some c)"
    and m: "m < length ks" "uaServer st = server_receiving c s ch req ks m"
    and nodes: "\<forall>i. m \<le> i \<longrightarrow> i < length ks \<longrightarrow>
      zoo_get S (task_path data (n0 + i)) (zk st) = (0, json_dumps S (task_doc S (ks ! i)))"
  shows "run_tasks S h (Suc fuel) data (map task_name [n0 + m..<n0 + length ks]) st =
    bind (server_received h c s ch req mt lt ks (app st)) (\<lambda>(s', a').
      Done (st\<lparr>uaServer := s', app := a',
               zk := delete_tasks S (map (task_path data) [n0 + m..<n0 + length ks]) (zk st)\<rparr>))"
  using chan m nodes
proof (induction "length ks - m" arbitrary: m st ch0)
  case 0
  then show ?case by simp
next
  case (Suc d)
  let ?p = "task_path data (n0 + m)" and ?k = "ks ! m"
  have up: "[n0 + m..<n0 + length ks] = (n0 + m) # [n0 + Suc m..<n0 + length ks]"
    using Suc.prems(4) by (simp add: upt_conv_Cons)
  have path: "snprintf_s BUFSZ (data @ str ''/'' @ task_name (n0 + m)) = ?p"
    using bounds Suc.prems(4) by (intro server_task_path) simp_all
  have k: "length (json_dumps S (task_doc S ?k)) < BUFSZ" "scChannel ?k = channelId (securityToken cs)"
    using size ids Suc.prems(4) by (auto simp: list_all_length)
  have get: "zoo_get S ?p (zk st) = (0, json_dumps S (task_doc S ?k))" using Suc.prems(4,6) by simp
  note ex = execute_task[OF laws(1) get k(1), of c h "Suc fuel", unfolded k(2), OF Suc.prems(3)]
  show ?case
  proof (cases "Suc m = length ks")
    case True
    then have "[n0 + Suc m..<n0 + length ks] = []" by simp
    then show ?thesis
      unfolding up list.map run_tasks.simps path ex Suc.prems(5) server_chunk_last[OF msg(1,2) True msg(3)]
      by (cases "server_received h c s ch req mt lt ks (app st)") (auto simp: split: prod.splits)
  next
    case False
    then have lt: "Suc m < length ks" using Suc.prems(4) by simp
    let ?st = "st\<lparr>uaServer := server_receiving c s ch req ks (Suc m), app := app st,
      zk := snd (zoo_delete S ?p (zk st))\<rparr>"
    have step: "zuth_executeRequest S h (Suc fuel) ?p st = Done ?st"
      unfolding ex Suc.prems(5) server_chunk_more[OF msg(1,2) lt] by simp
    have tok: "channelId (securityToken (receiving ch req ks i)) = channelId (securityToken ch)" for i
      by (simp add: receiving_def)
    have old: "chans (uaServer st) c = Some (receiving ch req ks m)"
      by (simp add: Suc.prems(5) server_receiving_def)
    have found: "ZUTH_getSecureChannel (uaServer ?st) (channelId (securityToken cs)) = Done (Some c)"
    proof -
      have "uaServer ?st = put_chan c (receiving ch req ks (Suc m)) (uaServer st)"
        by (simp add: Suc.prems(5) server_receiving_def)
      then show ?thesis using getSecureChannel_put[OF old] tok Suc.prems(3) by metis
    qed
    have keep: "\<forall>i. Suc m \<le> i \<longrightarrow> i < length ks \<longrightarrow>
        zoo_get S (task_path data (n0 + i)) (zk ?st) = (0, json_dumps S (task_doc S (ks ! i)))"
    proof (intro allI impI)
      fix i assume i: "Suc m \<le> i" "i < length ks"
      then have "task_path data (n0 + i) \<noteq> ?p"
        using task_path_inj[of data "n0 + i" "n0 + m"] bounds(1) by auto
      then show "zoo_get S (task_path data (n0 + i)) (zk ?st) = (0, json_dumps S (task_doc S (ks ! i)))"
        using laws(2) Suc.prems(6) i by (simp add: zookeeper_laws_def)
    qed
    have "chans (uaServer ?st) c = Some (receiving ch req ks (Suc m))" by (simp add: server_receiving_def)
    from Suc.hyps(1)[OF _ this tok found lt _ keep] Suc.hyps(2)
    have "run_tasks S h (Suc fuel) data (map task_name [n0 + Suc m..<n0 + length ks]) ?st =
        bind (server_received h c s ch req mt lt ks (app ?st)) (\<lambda>(s', a').
          Done (?st\<lparr>uaServer := s', app := a',
               zk := delete_tasks S (map (task_path data) [n0 + Suc m..<n0 + length ks]) (zk ?st)\<rparr>))"
      by simp
    then show ?thesis
      unfolding up list.map run_tasks.simps path step
      by (simp add: split: prod.splits)
  qed
qed

end
