(* ===== verification/TaskQueueProps.thy ===== *)
theory TaskQueueProps
  imports TaskQueue
begin

text \<open>
  The properties of the task queue, and an instance of the services (Base64 by hexadecimal digits, a
  document as the words of a line, ZooKeeper as a map with a counter) on which they are applied.
\<close>

section \<open>An instance of the services\<close>

definition hex_bytes :: "byte list \<Rightarrow> cstr" where
  "hex_bytes bs = concat (map (\<lambda>b. hex_digits 2 (unat b)) bs)"

fun bytes_of_hex :: "cstr \<Rightarrow> byte list" where
  "bytes_of_hex (a # b # cs) = of_nat (16 * digit_of a + digit_of b) # bytes_of_hex cs"
| "bytes_of_hex _ = []"

text \<open>An \<open>x\<close> keeps the word of an empty text from being empty.\<close>

definition line_dumps :: "json \<Rightarrow> cstr" where
  "line_dumps j =
     (case (json_object_get j (str ''channelId''), json_object_get j (str ''requestId''),
            json_object_get j (str ''dst''), json_object_get j (str ''offset'')) of
        (Some (JInteger c), Some (JInteger r), Some (JString d), Some (JInteger n)) \<Rightarrow>
          decimal (nat c) @ [32] @ decimal (nat r) @ [32] @ (120 # d) @ [32] @ decimal (nat n)
      | _ \<Rightarrow> [])"

definition line_loads :: "cstr \<Rightarrow> json option" where
  "line_loads s = (case words s of
       [c, r, d, n] \<Rightarrow> Some (JObject [(str ''channelId'', JInteger (int (number 10 0 c))),
         (str ''requestId'', JInteger (int (number 10 0 r))), (str ''dst'', JString (tl d)),
         (str ''offset'', JInteger (int (number 10 0 n)))])
     | _ \<Rightarrow> None)"

type_synonym znodes = "nat \<times> (cstr \<Rightarrow> cstr option)"

definition toy_services :: "znodes services" where
  "toy_services = \<lparr> g_base64_encode = hex_bytes, g_base64_decode = bytes_of_hex,
     json_dumps = line_dumps, json_loads = line_loads,
     zoo_create = (\<lambda>path d (n, f). ((0, path @ decimal10 n), (Suc n, f(path @ decimal10 n \<mapsto> d)))),
     zoo_get = (\<lambda>p (n, f). case f p of None \<Rightarrow> (-101, []) | Some d \<Rightarrow> (0, d)),
     zoo_delete = (\<lambda>p (n, f). (if f p = None then -101 else 0, (n, f(p := None)))) \<rparr>"

lemma bytes_of_hex_bytes: "bytes_of_hex (hex_bytes bs) = bs"
proof (induction bs)
  case (Cons b bs)
  have b: "unat b < 256" using unsigned_less[of b] by simp
  have "digit_of (hex_char (unat b div 16 mod 16)) = unat b div 16 mod 16" "digit_of (hex_char (unat b mod 16)) = unat b mod 16"
    by (simp_all add: digit_hex_char)
  moreover have "unat b div 16 mod 16 = unat b div 16" using b by simp
  ultimately show ?case using Cons by (simp add: hex_bytes_def numeral_2_eq_2)
qed (simp add: hex_bytes_def)

lemma length_hex_bytes: "length (hex_bytes bs) = 2 * length bs"
  by (induction bs) (simp_all add: hex_bytes_def)

definition wordlike :: "cstr \<Rightarrow> bool" where
  "wordlike w \<longleftrightarrow> w \<noteq> [] \<and> list_all (\<lambda>c. \<not> isspace c \<and> c \<noteq> 0) w"

lemma words_one: "wordlike w \<Longrightarrow> words w = [w]"
proof -
  assume w: "wordlike w"
  obtain c cs where c: "w = c # cs" "\<not> isspace c" using w by (cases w) (auto simp: wordlike_def)
  have a: "\<forall>x\<in>set w. \<not> isspace x" using w by (simp add: wordlike_def list_all_iff)
  then have d: "takeWhile (\<lambda>c. \<not> isspace c) cs = cs" "dropWhile (\<lambda>c. \<not> isspace c) cs = []"
    using c by (simp_all add: takeWhile_eq_all_conv)
  have "words [] = []" by (simp add: words.simps)
  then show ?thesis using c by (subst words.simps) (simp add: d)
qed

lemma words_more: "wordlike w \<Longrightarrow> words (w @ 32 # s) = w # words s"
proof -
  assume w: "wordlike w"
  obtain c cs where c: "w = c # cs" "\<not> isspace c" using w by (cases w) (auto simp: wordlike_def)
  have a: "\<forall>x\<in>set w. \<not> isspace x" using w by (simp add: wordlike_def list_all_iff)
  have sp: "isspace 32" by (simp add: isspace_def)
  have "dropWhile isspace (w @ 32 # s) = w @ 32 # s" using c by simp
  moreover have "takeWhile (\<lambda>c. \<not> isspace c) (w @ 32 # s) = w" "dropWhile (\<lambda>c. \<not> isspace c) (w @ 32 # s) = 32 # s"
    using a sp by (simp_all add: takeWhile_append2 dropWhile_append2)
  moreover have "words (32 # s) = words s" using sp by (simp add: words.simps[of "32 # s"] words.simps[of s])
  ultimately show ?thesis using c by (subst words.simps) simp
qed

lemma digit_plain: "digit_of c < 10 \<Longrightarrow> \<not> isspace c \<and> c \<noteq> 0"
  by (auto simp: isspace_def digit_of_def isdigit_def islower_def isupper_def word_le_nat_alt split: if_splits)

lemma wordlike_decimal: "wordlike (decimal n)"
proof -
  have "decimal n \<noteq> []" by (simp add: decimal.simps[of n])
  then show ?thesis using decimal_all[of n] digit_plain by (auto simp: wordlike_def list_all_iff)
qed

lemma wordlike_hex: "wordlike (120 # hex_bytes bs)"
proof -
  have "list_all (\<lambda>c. \<not> isspace c \<and> c \<noteq> 0) (hex_digits k n)" for k n
  proof -
    have "digit_of c < 16 \<Longrightarrow> c \<noteq> 0" for c
      by (auto simp: digit_of_def isdigit_def islower_def isupper_def word_le_nat_alt split: if_splits)
    then show ?thesis using hex_digits_plain[of k n] hex_digits_all[of k n] by (auto simp: list_all_iff)
  qed
  then show ?thesis by (induction bs) (auto simp: wordlike_def hex_bytes_def isspace_def)
qed

lemma line_doc:
  "json_dumps toy_services (task_doc toy_services k) = decimal (unat (scChannel k)) @ 32 # decimal (unat (scRequest k)) @
     32 # (120 # hex_bytes (chunk_bytes k)) @ 32 # decimal (length (chunk_bytes k))"
  by (simp add: toy_services_def line_dumps_def task_doc_def json_object_get_def)

lemma toy_codec: "codec_laws toy_services"
proof -
  have "json_loads toy_services (json_dumps toy_services (task_doc toy_services k)) = Some (task_doc toy_services k)" for k
  proof -
    have "words (json_dumps toy_services (task_doc toy_services k)) = [decimal (unat (scChannel k)), decimal (unat (scRequest k)),
        120 # hex_bytes (chunk_bytes k), decimal (length (chunk_bytes k))]"
      unfolding line_doc words_more[OF wordlike_decimal] words_more[OF wordlike_hex] words_one[OF wordlike_decimal] ..
    moreover have "json_loads toy_services = line_loads" "g_base64_encode toy_services = hex_bytes"
      by (simp_all add: toy_services_def)
    ultimately show ?thesis by (simp add: line_loads_def task_doc_def number_decimal)
  qed
  moreover have "cstr_ok (json_dumps toy_services (task_doc toy_services k))" for k
    using wordlike_decimal wordlike_hex unfolding line_doc
    by (auto simp: cstr_ok_def wordlike_def list_all_iff)
  moreover have "length (g_base64_encode toy_services (chunk_bytes k)) \<le> length (json_dumps toy_services (task_doc toy_services k))" for k
    unfolding line_doc by (simp add: toy_services_def)
  ultimately show ?thesis
    by (simp add: codec_laws_def) (simp add: toy_services_def bytes_of_hex_bytes length_hex_bytes)
qed

lemma toy_zookeeper: "zookeeper_laws toy_services (\<lambda>z _. fst z)"
  by (auto simp: zookeeper_laws_def toy_services_def)

section \<open>Properties\<close>

text \<open>
  C1. Through the queue a request reaches the server as through a socket.  The client puts the chunks
  of a message into the queue of the server (every creation succeeds, every document is shorter than
  the server's buffer, and the counter of the queue does not reach its maximum); the server gets the names of the tasks in any order.  Then the tasks are
  executed in the order in which they were made, the server's application gets the message exactly
  once and whole when the sender reported \<open>GOOD\<close> (and not at all otherwise), on the channel of the
  client, and all the tasks have been deleted.
\<close>

theorem queue_delivers:
  fixes st :: "('z, 'a) zuth"
  assumes "codec_laws S" "zookeeper_laws S counter"
    and "send_message gb cn fuel n own d v req cs p = Done (rv, s)" "cconnection cs = Some a" "sent s \<noteq> []"
    and "31 \<le> unat (sendBufferSize (localConf (cn a)))" "message_type_of (binaryEncodingId d) \<noteq> UA_MESSAGETYPE_OPN"
    and "concat (map scBody (sent s)) \<noteq> []"
    and "push_tasks S (queue @ str ''/task-'') (sent s) z = (rs, zk st)" "list_all (\<lambda>r. fst r = 0) rs"
    and "counter z queue + length (sent s) \<le> 2147483647" "length queue \<le> 64000"
    and "list_all (\<lambda>k. length (json_dumps S (task_doc S k)) < BUFSZ) (sent s)"
    and "mset names = mset (map task_name [counter z queue..<counter z queue + length (sent s)])"
    and "ZUTH_getSecureChannel (uaServer st) (channelId (securityToken cs)) = Done (Some c)"
    and "chans (uaServer st) c = Some ch" "expects ch cs req"
  shows "zuth_processTasks S h (Suc rounds) 0 (Some names) queue st =
    (let sv = put_chan c (ch\<lparr>receiveSequenceNumber := receiveSequenceNumber ch + of_nat (length (sent s))\<rparr>) (uaServer st)
     in bind (if rv = GOOD then h c (sv, app st) (message_type_of (binaryEncodingId d)) req
                (Content (concat (map scBody (sent s)))) else Done (sv, app st))
       (\<lambda>(sv', a'). Done (st\<lparr>uaServer := sv', app := a', zk := delete_tasks S
          (map (task_path queue) [counter z queue..<counter z queue + length (sent s)]) (zk st)\<rparr>)))"
proof -
  let ?mt = "message_type_of (binaryEncodingId d)" and ?ks = "sent s"
  let ?lt = "if rv = GOOD then UA_CHUNKTYPE_FINAL else UA_CHUNKTYPE_ABORT"
  obtain m where m: "chunks_ok cs req (replicate m (?mt + UA_CHUNKTYPE_INTERMEDIATE) @ [?mt + ?lt]) ?ks"
    using message_ends[OF assms(3,4) disjI1[OF assms(5)] assms(6)] by blast
  then have len: "length ?ks = Suc m" by (simp add: chunks_ok_def)
  have size: "length (chunk_bytes k) < 2 ^ 32" if "k \<in> set ?ks" for k
  proof -
    have "4 * length (chunk_bytes k) \<le> 3 * length (json_dumps S (task_doc S k))"
      using assms(1) by (meson codec_laws_def mult_le_mono2 order_trans)
    then show ?thesis using assms(13) that by (auto simp: list_all_iff)
  qed
  have msg: "message_chunks cs req ?mt ?lt ?ks"
    using m len assms(5,7) chunks_ok_length[OF m] size
    by (auto simp: message_chunks_def message_type_of_def list_all_iff split: if_splits)
  have last: "?lt = UA_CHUNKTYPE_FINAL \<and> concat (map scBody ?ks) \<noteq> [] \<or> ?lt = UA_CHUNKTYPE_ABORT"
    using assms(8) by auto
  have ids: "list_all (\<lambda>k. scChannel k = channelId (securityToken cs)) ?ks"
    using m by (auto simp: chunks_ok_def chunk_ok_def list_all_length)
  have count: "counter z (parent_node (queue @ str ''/task-'')) + length ?ks \<le> 2147483647"
    using assms(11) by (simp only: parent_task)
  have stored: "\<forall>i<length ?ks. zoo_get S ((queue @ str ''/task-'') @ decimal10 (counter z queue + i)) (zk st) =
      (0, json_dumps S (task_doc S (?ks ! i)))"
    using conjunct1[OF push_tasks_stored[where counter = counter and z = z, OF assms(2,9,10) count]] by (simp only: parent_task)
  have small: "counter z queue + length ?ks \<le> 2 ^ 63" using assms(11) by simp
  have nodes: "\<forall>i. 0 \<le> i \<longrightarrow> i < length ?ks \<longrightarrow>
      zoo_get S (task_path queue (counter z queue + i)) (zk st) = (0, json_dumps S (task_doc S (?ks ! i)))"
    using stored by (simp add: task_path_def)
  have start: "uaServer st = server_receiving c (uaServer st) ch req ?ks 0"
    using assms(16) by (cases "uaServer st") (simp add: server_receiving_def receiving_0 put_chan_def fun_upd_idem)
  have "channelId (securityToken ch) = channelId (securityToken ch)" ..
  note run = run_message[OF assms(1,2) msg assms(17) last ids assms(13) small assms(12,16) this assms(15) _ start nodes, of h rounds]
  show ?thesis
    unfolding zuth_processTasks_def using sort_task_names[OF assms(14) small] run assms(5)
    by (simp add: server_received_def Let_def)
qed

text \<open>The witness: the client of \<open>read_item_sent\<close>, whose channel has the address 10 in the server.\<close>

definition task_server :: server where
  "task_server = \<lparr> conns = Map.empty, chans = [10 \<mapsto> open_channel], sess = Map.empty, channels = [10],
     lastChannelId = 1, lastTokenId = 1, currentChannelCount = 1, sessions = [], currentSessionCount = 0 \<rparr>"

definition record_message :: "(u32 \<times> u32 \<times> uaMessage) list handler" where
  "record_message c x t req m = Done (fst x, (t, req, m) # snd x)"

lemma queue_delivers_witness:
  "\<exists>k z rs. push_tasks toy_services (str ''/q/task-'') [k] (3, Map.empty) = (rs, z) \<and>
     zuth_processTasks toy_services record_message 1 0 (Some [task_name 3]) (str ''/q'')
       \<lparr> zk = z, uaServer = task_server, app = [], running = True \<rparr> =
     Done \<lparr> zk = (4, Map.empty), uaServer = put_chan 10 (open_channel\<lparr>receiveSequenceNumber := 1\<rparr>) task_server,
       app = [(UA_MESSAGETYPE_MSG, 7, Content (nodeid_bytes 0 (encoding_id (UA_TYPES ! 69)) @ read_item_bytes))],
       running = True \<rparr>"
proof -
  obtain s k where s: "send_message (\<lambda>_ p. (GOOD, p)) plain_connection 0 2 UA_TYPES (UA_TYPES ! 69) read_item 7
      open_channel () = Done (GOOD, s)" "sent s = [k]"
      "scBody k = nodeid_bytes 0 (encoding_id (UA_TYPES ! 69)) @ read_item_bytes"
    using read_item_sent by blast
  define z where "z = (4::nat, [str ''/q/task-'' @ decimal10 3 \<mapsto> json_dumps toy_services (task_doc toy_services k)])"
  let ?st = "\<lparr> zk = z, uaServer = task_server, app = [] :: (u32 \<times> u32 \<times> uaMessage) list, running = True \<rparr>"
  have c: "cconnection open_channel = Some 0" "channelId (securityToken open_channel) = 1"
    "receiveSequenceNumber open_channel = 0"
    by (simp_all add: open_channel_def UA_SecureChannel_init_def)
  have mt: "message_type_of (binaryEncodingId (UA_TYPES ! 69)) = UA_MESSAGETYPE_MSG"
    by (simp add: item_entries entry_def message_type_of_def)
  have p: "push_tasks toy_services (str ''/q'' @ str ''/task-'') (sent s) (3, Map.empty) =
      ([(0, str ''/q/task-'' @ decimal10 3)], zk ?st)"
    by (simp add: s(2) push_task_def z_def del: str.simps) (simp add: toy_services_def)
  obtain ts where ts: "chunks_ok open_channel 7 ts (sent s)"
    using message_ends[OF s(1) c(1)] by (auto simp: plain_connection_def UA_ConnectionConfig_standard_def)
  have k: "length (chunk_bytes k) \<le> 100" "scChannel k = 1" "scRequest k = 7"
    using chunks_ok_length[OF ts, of k] ts nodeid_numeric_length[of "UA_TYPES ! 69"] s(2,3) c(2)
    by (auto simp: read_item_bytes_def chunks_ok_def chunk_ok_def)
  have "length (decimal (length (chunk_bytes k))) \<le> 3" using length_decimal[of "length (chunk_bytes k)" 2] k(1) by simp
  then have small: "length (json_dumps toy_services (task_doc toy_services k)) < BUFSZ"
    unfolding line_doc using k by (simp add: length_hex_bytes decimal.simps)
  have get: "ZUTH_getSecureChannel (uaServer ?st) (channelId (securityToken open_channel)) = Done (Some 10)"
    by (simp add: ZUTH_getSecureChannel_def UA_SecureChannelManager_get_def task_server_def deref_def c(2))
  note q = queue_delivers[OF toy_codec toy_zookeeper s(1) c(1) _ _ _ _ p _ _ _ _ _ get]
  have "zuth_processTasks toy_services record_message (Suc 0) 0 (Some [task_name 3]) (str ''/q'') ?st =
    (let sv = put_chan 10 (open_channel\<lparr>receiveSequenceNumber := receiveSequenceNumber open_channel +
           of_nat (length (sent s))\<rparr>) (uaServer ?st)
     in bind (if GOOD = GOOD then record_message 10 (sv, app ?st) (message_type_of (binaryEncodingId (UA_TYPES ! 69))) 7
                (Content (concat (map scBody (sent s)))) else Done (sv, app ?st))
       (\<lambda>(sv', a'). Done (?st\<lparr>uaServer := sv', app := a', zk := delete_tasks toy_services
          (map (task_path (str ''/q'')) [fst (3::nat, Map.empty :: cstr \<Rightarrow> cstr option)..<
            fst (3::nat, Map.empty :: cstr \<Rightarrow> cstr option) + length (sent s)]) (zk ?st)\<rparr>)))"
    using s(2,3) c mt small
    by (intro q)
       (simp_all add: plain_connection_def UA_ConnectionConfig_standard_def task_server_def expects_def read_item_bytes_def
          open_channel_def UA_SecureChannel_init_def)
  moreover have "delete_tasks toy_services [task_path (str ''/q'') 3] z = (4, Map.empty)"
    by (simp add: toy_services_def z_def task_path_def)
  ultimately have "zuth_processTasks toy_services record_message 1 0 (Some [task_name 3]) (str ''/q'') ?st =
     Done \<lparr> zk = (4, Map.empty), uaServer = put_chan 10 (open_channel\<lparr>receiveSequenceNumber := 1\<rparr>) task_server,
       app = [(UA_MESSAGETYPE_MSG, 7, Content (nodeid_bytes 0 (encoding_id (UA_TYPES ! 69)) @ read_item_bytes))],
       running = True \<rparr>"
    using s(2,3) mt c by (simp add: record_message_def Let_def)
  moreover have "push_tasks toy_services (str ''/q/task-'') [k] (3, Map.empty) =
      ([(0, str ''/q/task-'' @ decimal10 3)], z)"
    using p s(2) by simp
  ultimately show ?thesis by blast
qed

lemma server_chunks_refine_witness:
  "\<exists>k. scBody k = nodeid_bytes 0 (encoding_id (UA_TYPES ! 69)) @ read_item_bytes \<and>
     server_chunks 1 (channel_handler recorder) (chunk_bytes k) 0 10 (task_server, []) =
       Done (GOOD, put_chan 10 (open_channel\<lparr>receiveSequenceNumber := 1\<rparr>) task_server,
         [(UA_MESSAGETYPE_MSG, 7, Content (scBody k))])"
proof -
  obtain s k where s: "send_message (\<lambda>_ p. (GOOD, p)) plain_connection 0 2 UA_TYPES (UA_TYPES ! 69) read_item 7
      open_channel () = Done (GOOD, s)" "sent s = [k]"
      "scBody k = nodeid_bytes 0 (encoding_id (UA_TYPES ! 69)) @ read_item_bytes"
    using read_item_sent by blast
  have c: "cconnection open_channel = Some 0" "receiveSequenceNumber open_channel = 0"
    by (simp_all add: open_channel_def UA_SecureChannel_init_def)
  have mt: "message_type_of (binaryEncodingId (UA_TYPES ! 69)) = UA_MESSAGETYPE_MSG"
    by (simp add: item_entries entry_def message_type_of_def)
  obtain m where m: "chunks_ok open_channel 7 (replicate m (UA_MESSAGETYPE_MSG + UA_CHUNKTYPE_INTERMEDIATE) @
      [UA_MESSAGETYPE_MSG + UA_CHUNKTYPE_FINAL]) (sent s)"
    using message_ends[OF s(1) c(1)] mt by (auto simp: plain_connection_def UA_ConnectionConfig_standard_def)
  then have "m = 0" using s(2) by (simp add: chunks_ok_def)
  then have "message_chunks open_channel 7 UA_MESSAGETYPE_MSG UA_CHUNKTYPE_FINAL [k]"
    using m s(2,3) nodeid_numeric_length[of "UA_TYPES ! 69"] by (simp add: message_chunks_def read_item_bytes_def)
  moreover have "expects open_channel open_channel 7"
    by (simp add: expects_def open_channel_def UA_SecureChannel_init_def)
  ultimately have p: "processChunks_from (Suc 0) recorder (chunk_bytes k) 0 (receiving open_channel 7 [k] 0) [] =
      (case received recorder open_channel 7 UA_MESSAGETYPE_MSG UA_CHUNKTYPE_FINAL [k] [] of
         (c', a') \<Rightarrow> Done (GOOD, c', a'))"
    by (rule process_last) (simp_all add: s(3) read_item_bytes_def)
  have "chans task_server 10 = Some open_channel" by (simp add: task_server_def)
  from server_chunks_refine[OF this, of 1 recorder "chunk_bytes k" 0 "[]"] p c(2) s(3) show ?thesis
    by (auto simp: receiving_0 received_def recorder_def)
qed

text \<open>
  C28. The tasks are executed in the order of their numbers.  The sorted list holds the same names, and
  the comparison that the code passes to \<open>qsort\<close> puts each name before every later one; the names that
  ZooKeeper gives are always sorted, into the order in which they were made.
\<close>

theorem tasks_in_order:
  "(sort_tasks names = Done ys \<longrightarrow>
     mset ys = mset names \<and> sorted_wrt (\<lambda>a b. taskIdCmp a b = Done (-1)) ys) \<and>
   (mset names = mset (map task_name [a..<b]) \<longrightarrow> b \<le> 2 ^ 63 \<longrightarrow> sort_tasks names = Done (map task_name [a..<b]))"
proof (intro conjI[OF impI] impI)
  assume s: "sort_tasks names = Done ys"
  show "mset ys = mset names \<and> sorted_wrt (\<lambda>a b. taskIdCmp a b = Done (-1)) ys"
  proof (cases "length names \<le> 1")
    case True
    then show ?thesis using s by (cases names; cases "tl names") (auto simp: sort_tasks_def)
  next
    case False
    then have ok: "list_all (\<lambda>x. zuth_extractTaskId x \<noteq> Undefined) names" "distinct (map task_id names)"
        "ys = sort_key task_id names"
      using s by (auto simp: sort_tasks_def split: if_splits)
    have d: "distinct (map task_id ys)" "sorted (map task_id ys)"
      using ok(2,3) by (simp_all add: distinct_map)
    have cmp: "taskIdCmp x y = Done (-1)" if xy: "x \<in> set ys" "y \<in> set ys" "task_id x < task_id y" for x y
    proof -
      have "zuth_extractTaskId w \<noteq> Undefined \<and> zuth_extractTaskId w \<noteq> OutOfFuel" if "w \<in> set ys" for w
        using that ok(1,3) by (auto simp: list_all_iff zuth_extractTaskId_def Let_def split: option.splits if_splits)
      then obtain u v where "zuth_extractTaskId x = Done u" "zuth_extractTaskId y = Done v"
        using xy(1,2) by (metis outcome.exhaust)
      then show ?thesis using xy(3) by (simp add: taskIdCmp_def task_id_def)
    qed
    have "sorted_wrt (\<lambda>x y. task_id x < task_id y) ys"
      using d strict_sorted_iff[of "map task_id ys"] by (simp only: sorted_wrt_map simp_thms)
    from sorted_wrt_mono_rel[OF cmp this] show ?thesis using ok(3) by simp
  qed
qed (rule sort_task_names)

lemma tasks_in_order_witness:
  "sort_tasks [task_name 10, task_name 9] = Done [task_name 9, task_name 10]"
proof -
  have "[9..<11::nat] = [9, 10]" by (simp add: upt_rec)
  then show ?thesis
    using tasks_in_order[of "[task_name 10, task_name 9]" "[]" 9 11] by (simp add: add_mset_commute)
qed

text \<open>
  A chunk of 48 KiB or more cannot go through the queue.  Its document is at least as long as the
  buffer that the server reads a task into, which then holds no terminating zero, so that parsing it
  reads behind the buffer.  The standard send buffer of 65535 bytes allows such chunks.
\<close>

theorem long_task_undefined:
  assumes "codec_laws S" "zoo_get S path (zk st) = (0, json_dumps S (task_doc S k))"
    and "49152 \<le> length (chunk_bytes k)"
  shows "zuth_executeRequest S h fuel path st = Undefined"
proof -
  let ?d = "json_dumps S (task_doc S k)"
  have "4 * length (chunk_bytes k) \<le> 3 * length (g_base64_encode S (chunk_bytes k))"
    "length (g_base64_encode S (chunk_bytes k)) \<le> length ?d" "cstr_ok ?d"
    using assms(1) by (simp_all add: codec_laws_def)
  then have "length (take BUFSZ ?d) = BUFSZ" "0 \<notin> set (take BUFSZ ?d)"
    using assms(3) by (auto simp: cstr_ok_def dest: in_set_takeD)
  then show ?thesis by (simp add: zuth_executeRequest_def assms(2))
qed

lemma long_task_undefined_witness:
  "let k = \<lparr> scChannel = 1, scRequest = 7, scHead = replicate 24 0, scBody = replicate 65511 1 \<rparr>
   in length (chunk_bytes k) = unat (sendBufferSize UA_ConnectionConfig_standard) \<and>
      zuth_executeRequest toy_services record_message 1 (str ''/q/task-'')
        \<lparr> zk = (4, [str ''/q/task-'' \<mapsto> json_dumps toy_services (task_doc toy_services k)]),
          uaServer = task_server, app = [], running = True \<rparr> = Undefined"
proof -
  define k where "k = \<lparr> scChannel = 1, scRequest = 7, scHead = replicate 24 0, scBody = replicate 65511 1 \<rparr>"
  let ?st = "\<lparr> zk = (4::nat, [str ''/q/task-'' \<mapsto> json_dumps toy_services (task_doc toy_services k)]),
          uaServer = task_server, app = [] :: (u32 \<times> u32 \<times> uaMessage) list, running = True \<rparr>"
  have l: "length (chunk_bytes k) = 65535" by (simp add: k_def chunk_bytes_def)
  have "zoo_get toy_services (str ''/q/task-'') (zk ?st) = (0, json_dumps toy_services (task_doc toy_services k))"
    by (simp add: toy_services_def)
  from long_task_undefined[OF toy_codec this] l show ?thesis
    by (simp add: Let_def k_def[symmetric] UA_ConnectionConfig_standard_def)
qed

text \<open>
  A task that is not a document with a message is never removed.  Whatever tasks are executed with
  it, it is there afterwards with the same data, and so it is read again every time.
\<close>

definition unreadable :: "'z services \<Rightarrow> cstr \<Rightarrow> bool" where
  "unreadable S d \<longleftrightarrow> (case json_loads S (takeWhile (\<lambda>c. c \<noteq> 0) (take BUFSZ d)) of
     None \<Rightarrow> True
   | Some j \<Rightarrow> json_object_get j (str ''dst'') = None)"

lemma run_tasks_keep:
  assumes "zookeeper_laws S counter" "unreadable S d"
  shows "zoo_get S p (zk st) = (0, d) \<Longrightarrow> run_tasks S h fuel data names st = Done st' \<Longrightarrow> zoo_get S p (zk st') = (0, d)"
proof (induction names arbitrary: st)
  case (Cons name names)
  let ?q = "snprintf_s BUFSZ (data @ str ''/'' @ name)"
  obtain st1 where st1: "zuth_executeRequest S h fuel ?q st = Done st1" "run_tasks S h fuel data names st1 = Done st'"
    using Cons.prems(2) by (cases "zuth_executeRequest S h fuel ?q st") auto
  have "zoo_get S p (zk st1) = (0, d)"
  proof (cases "?q = p")
    case True
    then have "st1 = st"
      using st1(1) assms(2) Cons.prems(1)
      by (auto simp: zuth_executeRequest_def unreadable_def Let_def simp del: snprintf_s_id str.simps
          split: if_splits option.splits)
    then show ?thesis using Cons.prems(1) by simp
  next
    case False
    have "zk st1 = zk st \<or> zk st1 = snd (zoo_delete S ?q (zk st))"
    proof -
      have e: "bind m f = Done y \<longleftrightarrow> (\<exists>x. m = Done x \<and> f x = Done y)" for m :: "'x outcome" and f :: "'x \<Rightarrow> 'y outcome" and y
        by (cases m) auto
      show ?thesis
        using st1(1) by (auto simp: zuth_executeRequest_def Let_def e simp del: snprintf_s_id str.simps
          split: if_splits option.splits prod.splits)
    qed
    then show ?thesis using False assms(1) Cons.prems(1) unfolding zookeeper_laws_def by metis
  qed
  then show ?case by (rule Cons.IH[OF _ st1(2)])
qed simp

theorem poison_task_stays:
  assumes "zookeeper_laws S counter" "zoo_get S p (zk st) = (0, d)" "unreadable S d"
    and "zuth_processTasks S h fuel rc strings data st = Done st'"
  shows "zoo_get S p (zk st') = (0, d)"
proof (cases strings)
  case None
  then show ?thesis using assms(2,4) by (auto simp: zuth_processTasks_def Let_def split: if_splits)
next
  case (Some names)
  then obtain ys where "run_tasks S h fuel data ys (if rc \<noteq> 0 then st\<lparr>running := False\<rparr> else st) = Done st'"
    using assms(4) by (cases "sort_tasks names") (auto simp: zuth_processTasks_def Let_def)
  then show ?thesis
    by (rule run_tasks_keep[OF assms(1,3), rotated]) (simp add: assms(2))
qed

lemma poison_task_stays_witness:
  "\<exists>st'. zuth_processTasks toy_services record_message 1 0 (Some [task_name 3]) (str ''/q'')
       \<lparr> zk = (4, [str ''/q/task-0000000003'' \<mapsto> str ''hello'']), uaServer = task_server, app = [], running = True \<rparr> =
       Done st' \<and> zoo_get toy_services (str ''/q/task-0000000003'') (zk st') = (0, str ''hello'')"
proof -
  let ?st = "\<lparr> zk = (4::nat, [str ''/q/task-0000000003'' \<mapsto> str ''hello'']), uaServer = task_server,
    app = [] :: (u32 \<times> u32 \<times> uaMessage) list, running = True \<rparr>"
  have n: "task_name 3 = str ''task-0000000003''" by (simp add: task_name_def decimal10_def decimal.simps eval_nat_numeral)
  have w: "words (str ''hello'') = [str ''hello'']"
    by (rule words_one) (simp add: wordlike_def isspace_def)
  have g: "zoo_get toy_services (str ''/q/task-0000000003'') (zk ?st) = (0, str ''hello'')"
    by (simp add: toy_services_def)
  have l: "json_loads toy_services (str ''hello'') = None"
    using w by (simp add: toy_services_def line_loads_def)
  have t: "takeWhile (\<lambda>c. c \<noteq> 0) (take BUFSZ (str ''hello'')) = str ''hello''" by simp
  have u: "unreadable toy_services (str ''hello'')"
    unfolding unreadable_def t l by simp
  have "zuth_executeRequest toy_services record_message 1 (str ''/q/task-0000000003'') ?st = Done ?st"
    unfolding zuth_executeRequest_def g Let_def prod.case if_P[OF refl] t l by simp
  then have "zuth_processTasks toy_services record_message 1 0 (Some [task_name 3]) (str ''/q'') ?st = Done ?st"
    by (simp add: zuth_processTasks_def sort_tasks_def n)
  with poison_task_stays[OF toy_zookeeper g u] show ?thesis by blast
qed

end
