(* ===== verification/Dispatch.thy ===== *)
theory Dispatch
  imports ServerChunks
begin

text \<open>
  The server's dispatch of messages (section \<open>ua_server_binary.c\<close> of \<open>open62541.c\<close>): \<open>HEL\<close> and \<open>OPN\<close>
  on a connection without a channel, and the messages that the chunks of a channel give, with the
  search for the session of a request and the checks that come before its service is called.

  The services of sessions and channels are those of theory \<open>Managers\<close>; the others (reading and
  writing nodes, browsing, subscriptions, ...) are an argument, with a state of their own.
\<close>

section \<open>State\<close>

text \<open>
  What the environment gives to the handling of one message: the clocks, the addresses that \<open>malloc\<close>
  returns, whether copying texts into the response of CreateSession succeeds, and its endpoints.
\<close>

record callEnv =
  timeNow :: u64
  mono1 :: int
  mono2 :: int
  newChannel :: "nat option"
  newSession :: "nat option"
  newEntry :: bool
  copiedTexts :: "status \<times> status"
  ownEndpoints :: "uval list"

text \<open>
  A service gets the index of the request's type, the session (none for the anonymous one), the
  request and the initialized response.
\<close>

record 'x world =
  config :: serverConfig
  callEnvs :: "nat \<Rightarrow> callEnv"
  depth :: nat
  rounds :: nat
  service :: "nat \<Rightarrow> nat option \<Rightarrow> uval list \<Rightarrow> uval \<Rightarrow> 'x \<Rightarrow> uval \<times> 'x"
  Service_Publish :: "nat \<Rightarrow> uval list \<Rightarrow> u32 \<Rightarrow> 'x \<Rightarrow> 'x"

text \<open>The buffers handed to the connections, the random numbers, the state of the other services.\<close>

record 'x uaState =
  outbox :: "(nat \<times> byte list) list"
  seed :: "u64 \<times> u64"
  appl :: 'x
  served :: nat

definition env_of :: "'x world \<Rightarrow> 'x uaState \<Rightarrow> callEnv" where
  "env_of W a = callEnvs W (served a)"

section \<open>Responses\<close>

text \<open>\<open>UA_init\<close>: zeroed memory, as a value.\<close>

definition zero_value :: "bt \<Rightarrow> uval" where
  "zero_value k =
     (if k \<in> {KBoolean, KSByte, KByte} then VB 0
      else if k \<in> {KInt16, KUInt16} then V16 0
      else if k \<in> {KInt32, KUInt32, KFloat, KStatusCode} then V32 0
      else if k \<in> {KInt64, KUInt64, KDouble, KDateTime} then V64 0
      else if k \<in> {KString, KByteString, KXmlElement} then VStr None
      else if k = KGuid then VGuid UA_GUID_NULL
      else if k = KNodeId then VNode UA_NODEID_NULL
      else if k = KExpandedNodeId then VExp \<lparr> enodeId = UA_NODEID_NULL, namespaceUri = None, serverIndex = 0 \<rparr>
      else if k = KLocalizedText then VLoc None None
      else if k = KQualifiedName then VStruct [V16 0, VStr None]
      else if k = KExtensionObject then VExtEnc 0 UA_NODEID_NULL None
      else if k = KDataValue then VDataValue None None None None None None
      else if k = KVariant then VVarEmpty
      else VDiag None None None None None None None)"

fun UA_init :: "nat \<Rightarrow> types \<Rightarrow> udesc \<Rightarrow> uval" where
  "UA_init 0 own d = VStruct []"
| "UA_init (Suc n) own d = (case builtin d of
     Some k \<Rightarrow> zero_value k
   | None \<Rightarrow> VStruct (map (\<lambda>m. if isArray m then VArray None
       else (case member_type UA_TYPES own m of None \<Rightarrow> VStruct [] | Some (own', d') \<Rightarrow> UA_init n own' d'))
       (members d)))"

text \<open>A response whose header has the given time, request handle and result.\<close>

definition set_header :: "u64 \<Rightarrow> u32 \<Rightarrow> uval \<Rightarrow> uval" where
  "set_header t handle v = (case v of
       VStruct (VStruct (t0 # h0 # hs) # vs) \<Rightarrow> VStruct (VStruct (V64 t # V32 handle # hs) # vs)
     | _ \<Rightarrow> v)"

definition set_result :: "status \<Rightarrow> uval \<Rightarrow> uval" where
  "set_result rv v = (case v of
       VStruct (VStruct (t0 # h0 # r0 # hs) # vs) \<Rightarrow> VStruct (VStruct (t0 # h0 # V32 rv # hs) # vs)
     | _ \<Rightarrow> v)"

text \<open>\<open>UA_SecureChannel_sendBinaryMessage\<close> on a channel of the server; its status is only logged.\<close>

definition send_response ::
  "'x world \<Rightarrow> nat \<Rightarrow> u32 \<Rightarrow> uval \<Rightarrow> nat \<Rightarrow> server \<times> 'x uaState \<Rightarrow> (server \<times> 'x uaState) outcome" where
  "send_response W c reqId response i x =
     bind (deref (chans (fst x)) c) (\<lambda>ch. case cconnection ch of
         None \<Rightarrow> Done x
       | Some k \<Rightarrow> bind (deref (conns (fst x)) k) (\<lambda>cn.
           bind (send_message (ServerNetworkLayerGetSendBuffer cn) (\<lambda>_. cn) (rounds W) (depth W) UA_TYPES
                   (UA_TYPES ! i) response reqId ch ())
             (\<lambda>(rv, st). Done (put_chan c (schan st) (fst x),
                (snd x)\<lparr>outbox := outbox (snd x) @ map (\<lambda>s. (k, chunk_bytes s)) (sent st)\<rparr>))))"

definition sendError ::
  "'x world \<Rightarrow> nat \<Rightarrow> byte list \<Rightarrow> nat \<Rightarrow> nat \<Rightarrow> u32 \<Rightarrow> status \<Rightarrow> server \<times> 'x uaState \<Rightarrow> (server \<times> 'x uaState) outcome"
where
  "sendError W c msg offset responseType reqId error x =
     bind (UA_decodeBinary UA_TYPES (depth W) UA_TYPES (UA_TYPES ! UA_TYPES_REQUESTHEADER) msg offset) (\<lambda>(rv, h).
       case h of
         Some (tok # t # V32 handle # _, _) \<Rightarrow>
           send_response W c reqId
             (set_result error (set_header (timeNow (env_of W (snd x))) handle
               (UA_init (depth W) UA_TYPES (UA_TYPES ! responseType)))) responseType x
       | _ \<Rightarrow> Done x)"

section \<open>Services\<close>

text \<open>The request's type, the response's, and whether a session is needed.\<close>

definition getServicePointers :: "u32 \<Rightarrow> (nat \<times> nat \<times> bool) option" where
  "getServicePointers requestTypeId = map_of
     [(428, UA_TYPES_GETENDPOINTSREQUEST, UA_TYPES_GETENDPOINTSRESPONSE, False),
      (422, UA_TYPES_FINDSERVERSREQUEST, UA_TYPES_FINDSERVERSRESPONSE, False),
      (461, UA_TYPES_CREATESESSIONREQUEST, UA_TYPES_CREATESESSIONRESPONSE, False),
      (467, UA_TYPES_ACTIVATESESSIONREQUEST, UA_TYPES_ACTIVATESESSIONRESPONSE, True),
      (473, UA_TYPES_CLOSESESSIONREQUEST, UA_TYPES_CLOSESESSIONRESPONSE, True),
      (631, UA_TYPES_READREQUEST, UA_TYPES_READRESPONSE, True),
      (673, UA_TYPES_WRITEREQUEST, UA_TYPES_WRITERESPONSE, True),
      (527, UA_TYPES_BROWSEREQUEST, UA_TYPES_BROWSERESPONSE, True),
      (533, UA_TYPES_BROWSENEXTREQUEST, UA_TYPES_BROWSENEXTRESPONSE, True),
      (560, UA_TYPES_REGISTERNODESREQUEST, UA_TYPES_REGISTERNODESRESPONSE, True),
      (566, UA_TYPES_UNREGISTERNODESREQUEST, UA_TYPES_UNREGISTERNODESRESPONSE, True),
      (554, UA_TYPES_TRANSLATEBROWSEPATHSTONODEIDSREQUEST, UA_TYPES_TRANSLATEBROWSEPATHSTONODEIDSRESPONSE, True),
      (787, UA_TYPES_CREATESUBSCRIPTIONREQUEST, UA_TYPES_CREATESUBSCRIPTIONRESPONSE, True),
      (826, UA_TYPES_PUBLISHREQUEST, UA_TYPES_PUBLISHRESPONSE, True),
      (832, UA_TYPES_REPUBLISHREQUEST, UA_TYPES_REPUBLISHRESPONSE, True),
      (793, UA_TYPES_MODIFYSUBSCRIPTIONREQUEST, UA_TYPES_MODIFYSUBSCRIPTIONRESPONSE, True),
      (799, UA_TYPES_SETPUBLISHINGMODEREQUEST, UA_TYPES_SETPUBLISHINGMODERESPONSE, True),
      (847, UA_TYPES_DELETESUBSCRIPTIONSREQUEST, UA_TYPES_DELETESUBSCRIPTIONSRESPONSE, True),
      (751, UA_TYPES_CREATEMONITOREDITEMSREQUEST, UA_TYPES_CREATEMONITOREDITEMSRESPONSE, True),
      (781, UA_TYPES_DELETEMONITOREDITEMSREQUEST, UA_TYPES_DELETEMONITOREDITEMSRESPONSE, True),
      (763, UA_TYPES_MODIFYMONITOREDITEMSREQUEST, UA_TYPES_MODIFYMONITOREDITEMSRESPONSE, True),
      (769, UA_TYPES_SETMONITORINGMODEREQUEST, UA_TYPES_SETMONITORINGMODERESPONSE, True),
      (712, UA_TYPES_CALLREQUEST, UA_TYPES_CALLRESPONSE, True),
      (488, UA_TYPES_ADDNODESREQUEST, UA_TYPES_ADDNODESRESPONSE, True),
      (494, UA_TYPES_ADDREFERENCESREQUEST, UA_TYPES_ADDREFERENCESRESPONSE, True),
      (500, UA_TYPES_DELETENODESREQUEST, UA_TYPES_DELETENODESRESPONSE, True),
      (506, UA_TYPES_DELETEREFERENCESREQUEST, UA_TYPES_DELETEREFERENCESRESPONSE, True)] requestTypeId"

definition identity_of :: "uval \<Rightarrow> identityToken" where
  "identity_of v = (case v of
       VExtDec t (VStruct [VStr p]) \<Rightarrow> if t = UA_TYPES_ANONYMOUSIDENTITYTOKEN then AnonymousToken p else OtherToken
     | VExtDec t (VStruct [VStr p, VStr u, VStr pw, VStr e]) \<Rightarrow>
         if t = UA_TYPES_USERNAMEIDENTITYTOKEN then UserNameToken p u pw e else OtherToken
     | _ \<Rightarrow> OtherToken)"

text \<open>The members of CreateSessionResponse that the service sets.\<close>

definition session_response :: "(nodeid \<times> nodeid \<times> u64) option \<Rightarrow> uval list option \<Rightarrow> uval \<Rightarrow> uval" where
  "session_response r endpoints v = (case v of
       VStruct [h, i0, a0, t0, nonce, cert, e0, certs, sig, mx] \<Rightarrow>
         VStruct [h, (case r of None \<Rightarrow> i0 | Some (i, a, t) \<Rightarrow> VNode i),
                  (case r of None \<Rightarrow> a0 | Some (i, a, t) \<Rightarrow> VNode a),
                  (case r of None \<Rightarrow> t0 | Some (i, a, t) \<Rightarrow> V64 t),
                  nonce, cert, VArray endpoints, certs, sig, mx]
     | _ \<Rightarrow> v)"

definition serve_create ::
  "'x world \<Rightarrow> nat \<Rightarrow> uval list \<Rightarrow> uval \<Rightarrow> server \<times> 'x uaState \<Rightarrow> (uval \<times> server \<times> 'x uaState) outcome" where
  "serve_create W c req response x =
     (let E = env_of W (snd x)
      in case req of
           [h, d, u1, u2, nm, nonce, cert, V64 requestedTimeout, V32 maxResponse] \<Rightarrow>
             bind (Service_CreateSession (config W) pcg32_random_r (seed (snd x)) (newSession E) (copiedTexts E)
                     (mono1 E) c requestedTimeout maxResponse (fst x))
               (\<lambda>(rv, r, g, s). Done (set_result rv (session_response r
                  (if rv = BADSECURECHANNELIDINVALID \<or> fst (copiedTexts E) \<noteq> GOOD then None else Some (ownEndpoints E)) response),
                  s, (snd x)\<lparr>seed := g\<rparr>))
         | _ \<Rightarrow> Undefined)"

definition serve_activate ::
  "'x world \<Rightarrow> nat \<Rightarrow> nat \<Rightarrow> uval list \<Rightarrow> uval \<Rightarrow> server \<times> 'x uaState \<Rightarrow> (uval \<times> server \<times> 'x uaState) outcome" where
  "serve_activate W c i req response x =
     (let E = env_of W (snd x)
      in case req of
           [h, sig, certs, locales, token, tsig] \<Rightarrow>
             bind (Service_ActivateSession (config W) (newEntry E) (mono1 E) (mono2 E) c i (identity_of token) (fst x))
               (\<lambda>(rv, s). Done (set_result rv response, s, snd x))
         | _ \<Rightarrow> Undefined)"

text \<open>Closing a session is a service of its own; the others belong to the world.\<close>

definition call_service ::
  "'x world \<Rightarrow> nat \<Rightarrow> nat option \<Rightarrow> uval list \<Rightarrow> uval \<Rightarrow> server \<times> 'x uaState \<Rightarrow> (uval \<times> server \<times> 'x uaState) outcome"
where
  "call_service W reqT session req response x =
     (case (if reqT = UA_TYPES_CLOSESESSIONREQUEST then session else None) of
        Some i \<Rightarrow> bind (Service_CloseSession i (fst x)) (\<lambda>(rv, s). Done (set_result rv response, s, snd x))
      | None \<Rightarrow>
          let (response', y) = service W reqT session req response (appl (snd x))
          in Done (response', fst x, (snd x)\<lparr>appl := y\<rparr>))"

section \<open>Messages\<close>

text \<open>The lifetime of a session is set when it is used.\<close>

definition touch_session :: "int \<Rightarrow> nat \<Rightarrow> server \<Rightarrow> server outcome" where
  "touch_session nowMono i s =
     bind (deref (sess s) i) (\<lambda>se. bind (UA_Session_updateLifetime nowMono se) (\<lambda>se'. Done (put_sess i se' s)))"

text \<open>The answer to a request, with the handle of its header.\<close>

definition answer ::
  "'x world \<Rightarrow> nat \<Rightarrow> u32 \<Rightarrow> u32 \<Rightarrow> nat \<Rightarrow> (uval \<times> server \<times> 'x uaState) outcome \<Rightarrow> (server \<times> 'x uaState) outcome" where
  "answer W c reqId handle respT result =
     bind result (\<lambda>(response, x).
       send_response W c reqId (set_header (timeNow (env_of W (snd x))) handle response) respT x)"

text \<open>A request with a session that was found: the checks, and the service.\<close>

definition serve_in_session ::
  "'x world \<Rightarrow> nat \<Rightarrow> u32 \<Rightarrow> byte list \<Rightarrow> nat \<Rightarrow> nat \<Rightarrow> nat \<Rightarrow> bool \<Rightarrow> u32 \<Rightarrow> uval list \<Rightarrow> nat \<Rightarrow>
   server \<times> 'x uaState \<Rightarrow> (server \<times> 'x uaState) outcome" where
  "serve_in_session W c reqId msg requestPos reqT respT sessionRequired handle request i x =
     (let fault = (\<lambda>code. sendError W c msg requestPos respT reqId code x)
      in bind (deref (sess (fst x)) i) (\<lambda>se.
           if sessionRequired \<and> \<not> activated se then
             bind (fault BADSESSIONNOTACTIVATED) (\<lambda>x1.
             bind (UA_SessionManager_removeSession (authenticationToken se) (fst x1)) (\<lambda>(_, s2). Done (s2, snd x1)))
           else if schannel se \<noteq> Some c then fault BADSECURECHANNELIDINVALID
           else bind (touch_session (mono2 (env_of W (snd x))) i (fst x)) (\<lambda>s1.
             if reqT = UA_TYPES_PUBLISHREQUEST then
               Done (s1, (snd x)\<lparr>appl := Service_Publish W i request reqId (appl (snd x))\<rparr>)
             else answer W c reqId handle respT
                    (call_service W reqT (Some i) request (UA_init (depth W) UA_TYPES (UA_TYPES ! respT))
                      (s1, snd x)))))"

text \<open>
  A request of a known type, decoded: its session is looked for in the channel and then in the
  server.  The anonymous session, for services that need none, lies on the stack.
\<close>

definition serve_request ::
  "'x world \<Rightarrow> nat \<Rightarrow> u32 \<Rightarrow> byte list \<Rightarrow> nat \<Rightarrow> nat \<Rightarrow> nat \<Rightarrow> bool \<Rightarrow> nodeid \<Rightarrow> u32 \<Rightarrow> uval list \<Rightarrow>
   server \<times> 'x uaState \<Rightarrow> (server \<times> 'x uaState) outcome" where
  "serve_request W c reqId msg requestPos reqT respT sessionRequired token handle request x =
     (let E = env_of W (snd x);
          response = UA_init (depth W) UA_TYPES (UA_TYPES ! respT);
          fault = (\<lambda>code. sendError W c msg requestPos respT reqId code x)
      in if reqT = UA_TYPES_CREATESESSIONREQUEST then
           answer W c reqId handle respT (serve_create W c request response x)
         else
           bind (UA_SecureChannel_getSession c token (fst x)) (\<lambda>own.
           bind (case own of Some i \<Rightarrow> Done (Some i)
                 | None \<Rightarrow> UA_SessionManager_getSession (mono1 E) token (fst x)) (\<lambda>session.
             if reqT = UA_TYPES_ACTIVATESESSIONREQUEST then
               (case session of
                  None \<Rightarrow> fault BADSESSIONIDINVALID
                | Some i \<Rightarrow> answer W c reqId handle respT (serve_activate W c i request response x))
             else (case session of
                 None \<Rightarrow>
                   if sessionRequired then fault BADSESSIONIDINVALID
                   else answer W c reqId handle respT (call_service W reqT None request response x)
               | Some i \<Rightarrow>
                   serve_in_session W c reqId msg requestPos reqT respT sessionRequired handle request i x))))"

definition processMSG ::
  "'x world \<Rightarrow> nat \<Rightarrow> u32 \<Rightarrow> byte list \<Rightarrow> server \<times> 'x uaState \<Rightarrow> (server \<times> 'x uaState) outcome" where
  "processMSG W c reqId msg x =
     bind (decode_at UA_TYPES UA_TYPES_NODEID msg 0) (\<lambda>(rv, t). case t of
         Some ([VNode requestTypeId], requestPos) \<Rightarrow>
           (case getServicePointers (numeric_of requestTypeId) of
              None \<Rightarrow> sendError W c msg requestPos UA_TYPES_SERVICEFAULT reqId BADSERVICEUNSUPPORTED x
            | Some (reqT, respT, sessionRequired) \<Rightarrow>
                bind (UA_decodeBinary UA_TYPES (depth W) UA_TYPES (UA_TYPES ! reqT) msg requestPos) (\<lambda>(rv, r).
                  case r of
                    Some (VStruct (VNode token # t # V32 handle # hs) # vs, _) \<Rightarrow>
                      serve_request W c reqId msg requestPos reqT respT sessionRequired token handle
                        (VStruct (VNode token # t # V32 handle # hs) # vs) x
                  | Some _ \<Rightarrow> Undefined
                  | None \<Rightarrow> sendError W c msg requestPos respT reqId rv x))
       | _ \<Rightarrow> Done x)"

section \<open>Opening a channel\<close>

definition close_connection :: "nat \<Rightarrow> server \<Rightarrow> server outcome" where
  "close_connection k s = bind (deref (conns s) k) (\<lambda>cn. Done (put_conn k (ServerNetworkLayerTCP_closeConnection cn) s))"

text \<open>\<open>identifier.numeric\<close>, whatever the type of the identifier: the first four bytes of the union.\<close>

definition union_numeric :: "nodeid \<Rightarrow> u32" where
  "union_numeric n = (case ident n of
       Numeric i \<Rightarrow> i
     | GuidId g \<Rightarrow> gdata1 g
     | StringId s \<Rightarrow> of_nat (length (ubytes s))
     | ByteStringId s \<Rightarrow> of_nat (length (ubytes s))
     | BadIdType \<Rightarrow> 0)"

text \<open>Encoding into the buffer behind what is written there; \<open>None\<close> when a status is not good.\<close>

fun encode_all :: "(types \<times> nat \<times> uval) list \<Rightarrow> nat \<Rightarrow> byte list \<Rightarrow> byte list option" where
  "encode_all [] room buf = Some buf"
| "encode_all ((own, i, v) # vs) room buf =
     (case UA_encodeBinary UA_TYPES 0 None 5 own (own ! i) v buf room () of
        Done (rv, c) \<Rightarrow> if rv = GOOD then encode_all vs room (ebuf c) else None
      | _ \<Rightarrow> None)"

definition token_value :: "securityToken \<Rightarrow> uval" where
  "token_value k = VStruct [V32 (channelId k), V32 (tokenId k), V64 (word_of_int (createdAt k)), V32 (revisedLifetime k)]"

text \<open>The response: the time and the request handle of its header stay zero.\<close>

definition opn_response :: "status \<Rightarrow> openResponse \<Rightarrow> uval" where
  "opn_response rv r = (case UA_init 5 UA_TYPES (UA_TYPES ! UA_TYPES_OPENSECURECHANNELRESPONSE) of
       VStruct [h, v, tok, nonce] \<Rightarrow> set_result rv (case r of
           None \<Rightarrow> VStruct [h, v, tok, nonce]
         | Some (n, k) \<Rightarrow> VStruct [h, v, token_value k, VStr n])
     | v \<Rightarrow> v)"

definition processOPN ::
  "'x world \<Rightarrow> nat \<Rightarrow> u32 \<Rightarrow> byte list \<Rightarrow> server \<times> 'x uaState \<Rightarrow> (server \<times> 'x uaState) outcome" where
  "processOPN W k chanId msg x =
     (let E = env_of W (snd x);
          close = (\<lambda>x. bind (close_connection k (fst x)) (\<lambda>s. Done (s, snd x)))
      in bind (deref (conns (fst x)) k) (\<lambda>cn.
         bind (case cchannel cn of
             None \<Rightarrow> Done (chanId = 0)
           | Some c \<Rightarrow> bind (deref (chans (fst x)) c) (\<lambda>ch. Done (chanId = channelId (securityToken ch)))) (\<lambda>right.
         bind (decode_at UA_TRANSPORT UA_TRANSPORT_ASYMMETRICALGORITHMSECURITYHEADER msg 0) (\<lambda>(r1, a).
         case a of None \<Rightarrow> close x | Some (asymHeader, o1) \<Rightarrow>
         bind (decode_at UA_TRANSPORT UA_TRANSPORT_SEQUENCEHEADER msg o1) (\<lambda>(r2, q).
         case q of Some ([V32 seqNo, V32 reqId], o2) \<Rightarrow>
         bind (decode_at UA_TYPES UA_TYPES_NODEID msg o2) (\<lambda>(r3, n).
         case n of Some ([VNode requestType], o3) \<Rightarrow>
         bind (UA_decodeBinary UA_TYPES (depth W) UA_TYPES (UA_TYPES ! UA_TYPES_OPENSECURECHANNELREQUEST) msg o3) (\<lambda>(r4, r).
         case r of Some ([h, V32 version, V32 issue, V32 mode, VStr nonce, V32 lifetime], o4) \<Rightarrow>
         if cstate cn \<noteq> UA_CONNECTION_ESTABLISHED \<or> \<not> right \<or> union_numeric requestType \<noteq> 446 then close x
         else
           bind (Service_OpenSecureChannel (config W) (newChannel E) (sint (timeNow E)) (mono1 E) k issue
                   \<lparr> securityMode = mode, requestedLifetime = lifetime, requestNonce = nonce \<rparr> (fst x)) (\<lambda>(rv, p, s1).
           bind (deref (conns s1) k) (\<lambda>cn1. case cchannel cn1 of
               None \<Rightarrow> close (s1, snd x)
             | Some c \<Rightarrow> bind (deref (chans s1) c) (\<lambda>ch.
                 let s2 = put_chan c (ch\<lparr>receiveSequenceNumber := seqNo\<rparr>) s1;
                     room = sendBufferSize (localConf cn1)
                 in if fst (ServerNetworkLayerGetSendBuffer cn1 room ()) \<noteq> GOOD then close (s2, snd x)
                    else
                      let number = sendSequenceNumber ch + 1;
                          s3 = put_chan c (ch\<lparr>receiveSequenceNumber := seqNo, sendSequenceNumber := number\<rparr>) s2
                      in case (if unat room < 12 then None else encode_all
                            [(UA_TRANSPORT, UA_TRANSPORT_ASYMMETRICALGORITHMSECURITYHEADER, VStruct asymHeader),
                             (UA_TRANSPORT, UA_TRANSPORT_SEQUENCEHEADER, sequence_header number reqId),
                             (UA_TYPES, UA_TYPES_NODEID, VNode (encoding_id (UA_TYPES ! UA_TYPES_OPENSECURECHANNELRESPONSE))),
                             (UA_TYPES, UA_TYPES_OPENSECURECHANNELRESPONSE, opn_response rv p)]
                            (unat room) (replicate 12 0)) of
                          None \<Rightarrow> close (s3, snd x)
                        | Some buf \<Rightarrow> Done (s3, (snd x)\<lparr>outbox := outbox (snd x) @
                            [(k, header_bytes (UA_MESSAGETYPE_OPN + UA_CHUNKTYPE_FINAL) (of_nat (length buf))
                                   (case p of None \<Rightarrow> 0 | Some (_, t) \<Rightarrow> channelId t) @ drop 12 buf)]\<rparr>))))
         | _ \<Rightarrow> close x)
         | _ \<Rightarrow> close x)
         | _ \<Rightarrow> close x)))))"

section \<open>Saying hello\<close>

text \<open>
  The acknowledgement has 28 bytes, whatever the size of the send buffer: from a smaller one, bytes
  behind it are sent.
\<close>

definition hello_conf :: "connection \<Rightarrow> u32 \<Rightarrow> u32 \<Rightarrow> u32 \<Rightarrow> u32 \<Rightarrow> u32 \<Rightarrow> connection" where
  "hello_conf cn version receiveSize sendSize maxMessage maxChunk =
     cn\<lparr>remoteConf := \<lparr> protocolVersion = version, sendBufferSize = sendSize, recvBufferSize = receiveSize,
                       maxMessageSize = maxMessage, maxChunkCount = maxChunk \<rparr>,
        localConf := (localConf cn)\<lparr>sendBufferSize := min (sendBufferSize (localConf cn)) receiveSize,
                                    recvBufferSize := min (recvBufferSize (localConf cn)) sendSize\<rparr>,
        cstate := UA_CONNECTION_ESTABLISHED\<rparr>"

definition processHEL :: "nat \<Rightarrow> byte list \<Rightarrow> nat \<Rightarrow> server \<times> 'x uaState \<Rightarrow> (server \<times> 'x uaState) outcome" where
  "processHEL k msg offset x =
     bind (deref (conns (fst x)) k) (\<lambda>cn.
     bind (decode_at UA_TRANSPORT UA_TRANSPORT_TCPHELLOMESSAGE msg offset) (\<lambda>(rv, h). case h of
         Some ([V32 version, V32 receiveSize, V32 sendSize, V32 maxMessage, V32 maxChunk, VStr url], _) \<Rightarrow>
           let cn1 = hello_conf cn version receiveSize sendSize maxMessage maxChunk;
               s1 = put_conn k cn1 (fst x);
               conf = localConf cn1;
               room = sendBufferSize conf;
               ack = VStruct [V32 (protocolVersion conf), V32 (recvBufferSize conf), V32 (sendBufferSize conf),
                              V32 (maxMessageSize conf), V32 (maxChunkCount conf)]
           in if fst (ServerNetworkLayerGetSendBuffer cn1 room ()) \<noteq> GOOD then Done (s1, snd x)
              else if unat room < 28 then Undefined
              else Done (s1, (snd x)\<lparr>outbox := outbox (snd x) @
                [(k, encode_at UA_TRANSPORT UA_TRANSPORT_TCPACKNOWLEDGEMESSAGE ack (unat room)
                  (encode_at UA_TRANSPORT UA_TRANSPORT_TCPMESSAGEHEADER
                    (VStruct [V32 (UA_MESSAGETYPE_ACK + UA_CHUNKTYPE_FINAL), V32 28]) (unat room) []))]\<rparr>)
       | _ \<Rightarrow> bind (close_connection k (fst x)) (\<lambda>s. Done (s, snd x))))"

definition processERR :: "nat \<Rightarrow> byte list \<Rightarrow> nat \<Rightarrow> server \<times> 'x uaState \<Rightarrow> (server \<times> 'x uaState) outcome" where
  "processERR k msg offset x =
     bind (decode_at UA_TRANSPORT UA_TRANSPORT_TCPERRORMESSAGE msg offset) (\<lambda>(rv, e).
       if e = None then bind (close_connection k (fst x)) (\<lambda>s. Done (s, snd x)) else Done x)"

section \<open>Dispatch\<close>

text \<open>
  The handler of the messages of a channel: its connection is read for the log, and for \<open>OPN\<close>.
  Every message has an environment of its own.
\<close>

definition UA_Server_processSecureChannelMessage :: "'x world \<Rightarrow> 'x uaState handler" where
  "UA_Server_processSecureChannelMessage W c x messagetype reqId message =
     bind (deref (chans (fst x)) c) (\<lambda>channel. case cconnection channel of
         None \<Rightarrow> Undefined
       | Some k \<Rightarrow>
           bind (if messagetype = UA_MESSAGETYPE_OPN then
                   (case message of
                      Content msg \<Rightarrow> processOPN W k (channelId (securityToken channel)) msg x
                    | ErrorMessage _ _ \<Rightarrow> Undefined)
                 else if messagetype = UA_MESSAGETYPE_MSG then
                   (case message of Content msg \<Rightarrow> processMSG W c reqId msg x | ErrorMessage _ _ \<Rightarrow> Undefined)
                 else if messagetype = UA_MESSAGETYPE_CLO then
                   bind (Service_CloseSecureChannel c (fst x)) (\<lambda>s. Done (s, snd x))
                 else Done x)
             (\<lambda>(s, a). Done (s, a\<lparr>served := Suc (served a)\<rparr>)))"

text \<open>
  What arrives on a connection.  Without a channel, a failed reading of the channel's identifier
  closes the connection and goes on, with a length that wraps around.
\<close>

definition UA_Server_processBinaryMessage ::
  "'x world \<Rightarrow> nat \<Rightarrow> nat \<Rightarrow> byte list \<Rightarrow> server \<times> 'x uaState \<Rightarrow> (server \<times> 'x uaState) outcome" where
  "UA_Server_processBinaryMessage W fuel k message x =
     bind (deref (conns (fst x)) k) (\<lambda>connection. case cchannel connection of
         Some c \<Rightarrow> bind (server_chunks fuel (UA_Server_processSecureChannelMessage W) message 0 c x) (\<lambda>(rv, x'). Done x')
       | None \<Rightarrow>
           let close = bind (close_connection k (fst x)) (\<lambda>s. Done (s, snd x))
           in bind (decode_at UA_TRANSPORT UA_TRANSPORT_TCPMESSAGEHEADER message 0) (\<lambda>(rv, h). case h of
               Some ([V32 typ, V32 sz], offset) \<Rightarrow>
                 let t = typ AND 0x00FFFFFF
                 in if t = UA_MESSAGETYPE_ERR then processERR k message offset x
                    else if t = UA_MESSAGETYPE_HEL then processHEL k message offset x
                    else if t = UA_MESSAGETYPE_OPN then
                      bind (decode_at UA_TYPES UA_TYPES_UINT32 message offset) (\<lambda>(rv2, i). case i of
                          Some ([V32 chanId], _) \<Rightarrow>
                            bind (processOPN W k chanId (drop 12 message) x)
                              (\<lambda>(s, a). Done (s, a\<lparr>served := Suc (served a)\<rparr>))
                        | _ \<Rightarrow> Undefined)
                    else close
             | _ \<Rightarrow> close))"

end
