(* ===== verification/DispatchProps.thy ===== *)
theory DispatchProps
  imports Dispatch ManagerProps
begin

text \<open>
  What the dispatch guarantees: sending changes nothing but sequence numbers and the outbox; a service
  is called for an activated session of the channel only; and requests keep the managers consistent.
\<close>

section \<open>Sending changes sequence numbers only\<close>

definition renumbered :: "secureChannel \<Rightarrow> secureChannel \<Rightarrow> bool" where
  "renumbered c c' \<longleftrightarrow> (\<exists>y. c' = c\<lparr>sendSequenceNumber := y\<rparr>)"

lemma renumbered_refl: "renumbered c c"
  by (auto simp: renumbered_def intro!: exI[of _ "sendSequenceNumber c"])

lemma renumbered_step: "renumbered c c' \<Longrightarrow> renumbered c (c'\<lparr>sendSequenceNumber := y\<rparr>)"
  by (auto simp: renumbered_def)

lemma sendChunk_renumbers:
  assumes "renumbered c (schan s)" "sendChunk gb cn s payload = (rv, room, s')"
  shows "renumbered c (schan s')"
proof (cases "cconnection (schan s)")
  case None
  then show ?thesis using assms by (simp add: sendChunk_def)
next
  case (Some a)
  obtain i' c' k where m: "chunk_message (cn a) (schan s) (ci s) payload = (i', c', k)" by (metis prod_cases3)
  from sendChunk_some[OF Some m assms(2)] chunk_message_state[OF m] renumbered_step[OF assms(1)]
  show ?thesis by simp
qed

lemma sendChunk_live:
  assumes "\<not> final (ci s)" "sendChunk gb cn s payload = (rv, room, s')"
  shows "case room of None \<Rightarrow> rv \<noteq> GOOD | Some r \<Rightarrow> r \<le> 2 ^ 32 \<and> \<not> final (ci s')"
proof (cases "cconnection (schan s)")
  case None
  then show ?thesis using assms by (auto simp: sendChunk_def)
next
  case (Some a)
  obtain i' c' k where m: "chunk_message (cn a) (schan s) (ci s) payload = (i', c', k)" by (metis prod_cases3)
  have f: "final i' \<Longrightarrow> errorCode i' \<noteq> GOOD"
    using assms(1) m by (auto simp: chunk_message_def chunk_limits_def Let_def split: if_splits)
  have "unat (sendBufferSize (localConf (cn a))) < 2 ^ 32"
    using unsigned_less[of "sendBufferSize (localConf (cn a))", where 'a = nat] by simp
  then have "unat (sendBufferSize (localConf (cn a))) - HEADER_LENGTH \<le> 2 ^ 32" by linarith
  with sendChunk_some[OF Some m assms(2)] f show ?thesis
    by (cases "final i'") (auto split: option.splits)
qed

interpretation renumbering: chunk_guard "sendChunk gb cn" "\<lambda>s. renumbered c (schan s)" "\<lambda>s. \<not> final (ci s)" "2 ^ 32"
  for gb :: "'p getbuf" and cn c
  by unfold_locales (use sendChunk_renumbers sendChunk_live in \<open>blast intro: conjI\<close>)

lemma encode_type_id_room: "length (encode_at UA_TYPES UA_TYPES_NODEID (VNode (encoding_id d)) room []) \<le> room"
proof -
  have e: "UA_TYPES ! 16 = entry 17 (Some KNodeId) 24 False 0 NodeId_members" by (simp add: UA_TYPES_def)
  have "encode_jump UA_TYPES 0 xb (Suc 4) own t (VNode n) c = NodeId_encodeBinary 0 xb n c"
    if "builtin t = Some KNodeId" for own t n c and xb :: "unit exchange"
    using that by (simp only: encode_jump.simps(2) Let_def option.case bt.case fits.simps if_True uval.case simp_thms)
      simp
  note j = this[simplified]
  show ?thesis
    unfolding encode_at_def UA_encodeBinary_def UA_encodeBinaryInternal_def
    by (simp add: e entry_def NodeId_members_def encoding_id_def j
      encode_member_def one_def member_type_def type_at_def uint32_entry or_then_def put_def Byte_encodeBinary_def
      UInt16_encodeBinary_def UInt32_encodeBinary_def NodeId_encodeBinary_def NodeId_encodeBinaryWithEncodingMask_def
      exchangeBuffer_def rewind_def)
qed

lemma send_message_renumbers:
  assumes "send_message gb cn fuel n own d v req c p = Done (rv, s)"
  shows "renumbered c (schan s)"
proof (cases "cconnection c")
  case None
  then show ?thesis using assms renumbered_refl by (auto simp: send_message_def Let_def)
next
  case (Some a)
  let ?sz = "sendBufferSize (localConf (cn a))" and ?mt = "message_type_of (binaryEncodingId d)"
  let ?i = "\<lparr> requestId = req, messageType = ?mt, chunksSoFar = 0, messageSizeSoFar = 0, final = False,
    errorCode = GOOD \<rparr>"
  obtain rv0 p1 where g: "gb ?sz p = (rv0, p1)" by (cases "gb ?sz p")
  let ?st = "\<lparr> ci = ?i, schan = c, sent = [], pool = p1 \<rparr>"
  let ?w = "encode_at UA_TYPES UA_TYPES_NODEID (VNode (encoding_id d)) (unat ?sz - HEADER_LENGTH) []"
  let ?enc = "UA_encodeBinary UA_TYPES fuel (Some (sendChunk gb cn)) n own d v ?w (unat ?sz - HEADER_LENGTH) ?st"
  show ?thesis
  proof (cases "rv0 = GOOD")
    case False
    then show ?thesis using assms Some g renumbered_refl by (auto simp: send_message_def Let_def)
  next
    case True
    then have sz: "HEADER_LENGTH \<le> unat ?sz"
      using assms Some g by (auto simp: send_message_def Let_def split: if_splits)
    obtain rv1 e where e: "?enc = Done (rv1, e)"
      using assms Some g True sz by (cases "?enc") (auto simp: send_message_def Let_def)
    have "unat ?sz < 2 ^ 32" using unsigned_less[of ?sz, where 'a = nat] by simp
    then have "unat ?sz - HEADER_LENGTH \<le> 2 ^ 32" by linarith
    from renumbering.guarded_UA_encodeBinary[OF e _ _ encode_type_id_room this, of c] renumbered_refl
    have r: "renumbered c (schan (ecb e))" by simp
    have "s = ecb e \<or> (\<exists>i rv2 room. sendChunk gb cn ((ecb e)\<lparr>ci := i\<rparr>) (ebuf e) = (rv2, room, s))"
      using assms Some g True e sz by (auto simp: send_message_def Let_def split: if_splits prod.splits)
    then show ?thesis
    proof
      assume "\<exists>i rv2 room. sendChunk gb cn ((ecb e)\<lparr>ci := i\<rparr>) (ebuf e) = (rv2, room, s)"
      then obtain i rv2 room where k: "sendChunk gb cn ((ecb e)\<lparr>ci := i\<rparr>) (ebuf e) = (rv2, room, s)" by blast
      show ?thesis using sendChunk_renumbers[OF _ k] r by simp
    qed (use r in simp)
  qed
qed

text \<open>What an answer does to the state.\<close>

definition quiet :: "server \<times> 'x uaState \<Rightarrow> server \<times> 'x uaState \<Rightarrow> bool" where
  "quiet x x' \<longleftrightarrow> appl (snd x') = appl (snd x) \<and> (fst x' = fst x \<or>
     (\<exists>c ch ch'. chans (fst x) c = Some ch \<and> renumbered ch ch' \<and> fst x' = put_chan c ch' (fst x)))"

lemma quiet_refl: "quiet x x"
  by (simp add: quiet_def)

lemma quiet_put:
  assumes "chans (fst x) c = Some ch" "renumbered ch ch'" "appl a' = appl (snd x)"
  shows "quiet x (put_chan c ch' (fst x), a')"
  unfolding quiet_def using assms by (intro conjI disjI2 exI[of _ c] exI[of _ ch] exI[of _ ch']) simp_all

lemma send_response_quiet:
  assumes "send_response W c req v i x = Done x'"
  shows "quiet x x'"
proof -
  obtain ch where ch: "chans (fst x) c = Some ch"
    using assms by (auto simp: send_response_def bind_Done_iff deref_def split: option.splits)
  show ?thesis
  proof (cases "cconnection ch")
    case None
    then show ?thesis using assms ch quiet_refl by (simp add: send_response_def deref_def)
  next
    case (Some k)
    then obtain cn rv st where m: "send_message (ServerNetworkLayerGetSendBuffer cn) (\<lambda>_. cn) (rounds W) (depth W) UA_TYPES
           (UA_TYPES ! i) v req ch () = Done (rv, st)"
        "x' = (put_chan c (schan st) (fst x), (snd x)\<lparr>outbox := outbox (snd x) @ map (\<lambda>s. (k, chunk_bytes s)) (sent st)\<rparr>)"
      using assms ch by (auto simp: send_response_def bind_Done_iff deref_def split: option.splits)
    show ?thesis unfolding m(2) using ch send_message_renumbers[OF m(1)] by (rule quiet_put) simp
  qed
qed

lemma sendError_cases:
  assumes "sendError W c msg off i req e x = Done x'"
  shows "x' = x \<or> (\<exists>v. send_response W c req v i x = Done x')"
proof -
  obtain rv h where "UA_decodeBinary UA_TYPES (depth W) UA_TYPES (UA_TYPES ! UA_TYPES_REQUESTHEADER) msg off = Done (rv, h)"
    using assms by (auto simp: sendError_def bind_Done_iff)
  then show ?thesis
    using assms unfolding sendError_def
    by (simp split: option.splits list.splits uval.splits prod.splits) blast+
qed

lemma sendError_quiet: "sendError W c msg off i req e x = Done x' \<Longrightarrow> quiet x x'"
  using sendError_cases send_response_quiet quiet_refl by blast

lemma quiet_evolves:
  assumes "quiet x x'" "manager_inv (fst x)"
  shows "evolves (fst x) (fst x')"
  using assms(1) evolves_refl[OF assms(2)]
  by (auto simp: quiet_def renumbered_def next_ok_def intro!: put_chan_evolves[OF assms(2)])

section \<open>Who may call a service\<close>

lemma find_session_sound:
  "find_session is token s = Done (Some i) \<Longrightarrow>
     \<exists>se. sess s i = Some se \<and> UA_NodeId_equal (authenticationToken se) token"
  by (induction "is") (auto simp: bind_Done_iff deref_def split: option.splits if_splits)

lemma session_found:
  assumes "UA_SecureChannel_getSession c token s = Done own"
    and "(case own of Some i \<Rightarrow> Done (Some i) | None \<Rightarrow> UA_SessionManager_getSession t token s) = Done (Some i)"
  shows "\<exists>se. sess s i = Some se \<and> UA_NodeId_equal (authenticationToken se) token"
  using assms find_session_sound
  by (auto simp: UA_SecureChannel_getSession_def UA_SessionManager_getSession_def bind_Done_iff
      split: option.splits if_splits)

abbreviation sessionless :: "nat set" where
  "sessionless \<equiv> {UA_TYPES_GETENDPOINTSREQUEST, UA_TYPES_FINDSERVERSREQUEST}"

lemma service_pointers_session:
  "getServicePointers t = Some (reqT, respT, False) \<Longrightarrow> reqT \<in> insert UA_TYPES_CREATESESSIONREQUEST sessionless"
  by (auto simp: getServicePointers_def split: if_splits)

text \<open>
  One call of a service of the world, in a message on the channel \<open>c\<close>: its session is in the server,
  belongs to the channel, has the token of the request, and is activated unless the service needs no
  session; the anonymous session is for the latter only.
\<close>

definition allowed_call :: "'x world \<Rightarrow> nat \<Rightarrow> u32 \<Rightarrow> server \<Rightarrow> 'x \<Rightarrow> 'x \<Rightarrow> bool" where
  "allowed_call W c reqId s y y' \<longleftrightarrow> (\<exists>reqT session token t handle hs vs response.
     let request = VStruct (VNode token # t # V32 handle # hs) # vs
     in (y' = snd (service W reqT session request response y) \<or>
         (\<exists>i. session = Some i \<and> reqT = UA_TYPES_PUBLISHREQUEST \<and> y' = Service_Publish W i request reqId y)) \<and>
        (case session of
           None \<Rightarrow> reqT \<in> sessionless
         | Some i \<Rightarrow> \<exists>se. sess s i = Some se \<and> schannel se = Some c \<and>
             UA_NodeId_equal (authenticationToken se) token \<and> (activated se \<or> reqT \<in> sessionless)))"

lemma answer_appl:
  "answer W c req handle respT r = Done x' \<Longrightarrow> \<exists>v x. r = Done (v, x) \<and> appl (snd x') = appl (snd x) \<and> quiet x x'"
  unfolding answer_def by (auto simp: bind_Done_iff quiet_def dest!: send_response_quiet)

lemma call_service_appl:
  "call_service W reqT session rq v x = Done (v', x') \<Longrightarrow>
     appl (snd x') = appl (snd x) \<or> appl (snd x') = snd (service W reqT session rq v (appl (snd x)))"
  unfolding call_service_def
  by (auto simp: bind_Done_iff Let_def split: option.splits prod.splits if_splits)

lemma serve_create_appl: "serve_create W c rq v x = Done (v', x') \<Longrightarrow> appl (snd x') = appl (snd x)"
  unfolding serve_create_def Let_def
  by (auto simp: bind_Done_iff split: list.splits uval.splits)

lemma serve_activate_appl: "serve_activate W c i rq v x = Done (v', x') \<Longrightarrow> snd x' = snd x"
  unfolding serve_activate_def Let_def
  by (auto simp: bind_Done_iff split: list.splits)

lemma allowedI:
  assumes "rq = VStruct (VNode token # t # V32 handle # hs) # vs"
    and "y' = snd (service W reqT session rq v y) \<or>
      (\<exists>i. session = Some i \<and> reqT = UA_TYPES_PUBLISHREQUEST \<and> y' = Service_Publish W i rq reqId y)"
    and "case session of None \<Rightarrow> reqT \<in> sessionless
         | Some i \<Rightarrow> \<exists>se. sess s i = Some se \<and> schannel se = Some c \<and>
             UA_NodeId_equal (authenticationToken se) token \<and> (activated se \<or> reqT \<in> sessionless)"
  shows "allowed_call W c reqId s y y'"
  unfolding allowed_call_def Let_def using assms by blast

lemma sendError_appl: "sendError W c msg pos respT reqId code x = Done y \<Longrightarrow> appl (snd y) = appl (snd x)"
  using sendError_quiet[of W c msg pos respT reqId code x y] by (simp add: quiet_def)

lemma called:
  assumes "answer W c reqId handle respT (call_service W reqT session rq v x1) = Done x'" "snd x1 = snd x"
    and "rq = VStruct (VNode token # t # V32 handle' # hs) # vs"
    and "case session of None \<Rightarrow> reqT \<in> sessionless
         | Some i \<Rightarrow> \<exists>se. sess s i = Some se \<and> schannel se = Some c \<and>
             UA_NodeId_equal (authenticationToken se) token \<and> (activated se \<or> reqT \<in> sessionless)"
  shows "appl (snd x') = appl (snd x) \<or> allowed_call W c reqId s (appl (snd x)) (appl (snd x'))"
proof -
  obtain v' y where y: "call_service W reqT session rq v x1 = Done (v', y)" "appl (snd x') = appl (snd y)"
    using answer_appl[OF assms(1)] by blast
  show ?thesis
  proof (cases "appl (snd y) = appl (snd x1)")
    case False
    then have "appl (snd x') = snd (service W reqT session rq v (appl (snd x)))"
      using call_service_appl[OF y(1)] y(2) assms(2) by simp
    then have "allowed_call W c reqId s (appl (snd x)) (appl (snd x'))"
      by (intro allowedI[OF assms(3) disjI1 assms(4)])
    then show ?thesis ..
  qed (use y(2) assms(2) in simp)
qed

lemma serve_in_session_calls:
  assumes run: "serve_in_session W c reqId msg pos reqT respT needed handle rq i x = Done x'"
    and rq: "rq = VStruct (VNode token # t # V32 handle # hs) # vs" and needed: "\<not> needed \<Longrightarrow> reqT \<in> sessionless"
    and s: "sess (fst x) i = Some se" "UA_NodeId_equal (authenticationToken se) token"
  shows "appl (snd x') = appl (snd x) \<or> allowed_call W c reqId (fst x) (appl (snd x)) (appl (snd x'))"
proof (cases "(needed \<and> \<not> activated se) \<or> schannel se \<noteq> Some c")
  case True
  have "appl (snd x') = appl (snd x)"
  proof (cases "needed \<and> \<not> activated se")
    case True
    then obtain x1 s2 where "sendError W c msg pos respT reqId BADSESSIONNOTACTIVATED x = Done x1" "x' = (s2, snd x1)"
      using run s(1) by (auto simp: serve_in_session_def Let_def deref_def bind_Done_iff)
    then show ?thesis using sendError_appl by fastforce
  next
    case False
    then have "sendError W c msg pos respT reqId BADSECURECHANNELIDINVALID x = Done x'"
      using run s(1) True by (simp add: serve_in_session_def Let_def deref_def if_not_P[OF False] del: de_Morgan_conj)
    then show ?thesis by (rule sendError_appl)
  qed
  then show ?thesis ..
next
  case False
  then have ok: "\<exists>se. sess (fst x) i = Some se \<and> schannel se = Some c \<and>
      UA_NodeId_equal (authenticationToken se) token \<and> (activated se \<or> reqT \<in> sessionless)"
    using s needed by blast
  obtain s1 where s1: "touch_session (mono2 (env_of W (snd x))) i (fst x) = Done s1"
    using run s(1) False by (auto simp: serve_in_session_def Let_def deref_def bind_Done_iff split: if_splits)
  show ?thesis
  proof (cases "reqT = UA_TYPES_PUBLISHREQUEST")
    case True
    then have "appl (snd x') = Service_Publish W i rq reqId (appl (snd x))"
      using run s(1) False s1 by (auto simp: serve_in_session_def Let_def deref_def split: if_splits)
    then have "allowed_call W c reqId (fst x) (appl (snd x)) (appl (snd x'))"
      using True
      by (intro allowedI[OF rq disjI2, where session = "Some i"]) (simp, simp only: option.case, rule ok[unfolded True])
    then show ?thesis ..
  next
    case no: False
    then have "answer W c reqId handle respT
        (call_service W reqT (Some i) rq (UA_init (depth W) UA_TYPES (UA_TYPES ! respT)) (s1, snd x)) = Done x'"
      using run s(1) False s1 by (auto simp: serve_in_session_def Let_def deref_def split: if_splits)
    from called[OF this snd_conv rq, where s = "fst x"] ok show ?thesis by simp
  qed
qed

text \<open>The search for the session that comes before.\<close>

lemma serve_request_session:
  assumes "serve_request W c reqId msg pos reqT respT needed token handle rq x = Done x'"
    and "reqT \<noteq> UA_TYPES_CREATESESSIONREQUEST"
  obtains own session where "UA_SecureChannel_getSession c token (fst x) = Done own"
    and "(case own of Some i \<Rightarrow> Done (Some i)
        | None \<Rightarrow> UA_SessionManager_getSession (mono1 (env_of W (snd x))) token (fst x)) = Done session"
    and "(if reqT = UA_TYPES_ACTIVATESESSIONREQUEST then
            (case session of None \<Rightarrow> sendError W c msg pos respT reqId BADSESSIONIDINVALID x
             | Some i \<Rightarrow> answer W c reqId handle respT
                 (serve_activate W c i rq (UA_init (depth W) UA_TYPES (UA_TYPES ! respT)) x))
          else (case session of
             None \<Rightarrow> if needed then sendError W c msg pos respT reqId BADSESSIONIDINVALID x
                else answer W c reqId handle respT
                  (call_service W reqT None rq (UA_init (depth W) UA_TYPES (UA_TYPES ! respT)) x)
           | Some i \<Rightarrow> serve_in_session W c reqId msg pos reqT respT needed handle rq i x)) = Done x'"
proof -
  obtain own where own: "UA_SecureChannel_getSession c token (fst x) = Done own"
    using assms by (auto simp: serve_request_def Let_def bind_Done_iff)
  obtain session where se: "(case own of Some i \<Rightarrow> Done (Some i)
      | None \<Rightarrow> UA_SessionManager_getSession (mono1 (env_of W (snd x))) token (fst x)) = Done session"
    using assms own by (auto simp: serve_request_def Let_def bind_Done_iff)
  show ?thesis
    using assms own se by (intro that[OF own se]) (simp add: serve_request_def Let_def split: if_splits)
qed

lemma serve_request_calls:
  assumes run: "serve_request W c reqId msg pos reqT respT needed token handle rq x = Done x'"
    and rq: "rq = VStruct (VNode token # t # V32 handle # hs) # vs"
    and needed: "\<not> needed \<Longrightarrow> reqT \<in> insert UA_TYPES_CREATESESSIONREQUEST sessionless"
  shows "appl (snd x') = appl (snd x) \<or> allowed_call W c reqId (fst x) (appl (snd x)) (appl (snd x'))"
proof (cases "reqT = UA_TYPES_CREATESESSIONREQUEST")
  case True
  then have "answer W c reqId handle respT (serve_create W c rq (UA_init (depth W) UA_TYPES (UA_TYPES ! respT)) x) = Done x'"
    using run by (simp add: serve_request_def Let_def)
  from answer_appl[OF this] serve_create_appl show ?thesis by metis
next
  case False
  from run False show ?thesis
  proof (rule serve_request_session, goal_cases)
    case (1 own session)
    show ?case
    proof (cases session)
      case None
      have "answer W c reqId handle respT
          (call_service W reqT None rq (UA_init (depth W) UA_TYPES (UA_TYPES ! respT)) x) = Done x' \<Longrightarrow>
          \<not> needed \<Longrightarrow> ?thesis"
        using called[OF _ refl rq, where session = None and s = "fst x" and x' = x'] needed False by simp
      moreover have "sendError W c msg pos respT reqId BADSESSIONIDINVALID x = Done x' \<Longrightarrow> ?thesis"
        using sendError_appl by blast
      ultimately show ?thesis using 1(3) None by (simp split: if_splits)
    next
      case (Some i)
      obtain se where s: "sess (fst x) i = Some se" "UA_NodeId_equal (authenticationToken se) token"
        using session_found[OF 1(1)] 1(2) Some by blast
      show ?thesis
      proof (cases "reqT = UA_TYPES_ACTIVATESESSIONREQUEST")
        case True
        then have "answer W c reqId handle respT
            (serve_activate W c i rq (UA_init (depth W) UA_TYPES (UA_TYPES ! respT)) x) = Done x'"
          using 1(3) Some by simp
        from answer_appl[OF this] serve_activate_appl show ?thesis by metis
      next
        case act: False
        then have "serve_in_session W c reqId msg pos reqT respT needed handle rq i x = Done x'" using 1(3) Some by simp
        from serve_in_session_calls[OF this rq _ s] needed False show ?thesis by blast
      qed
    qed
  qed
qed

section \<open>Requests and the managers\<close>

lemma reach_manager: "reach_inv cfg n s \<Longrightarrow> manager_inv s"
  by (simp add: reach_inv_def)

lemma quiet_reach: "quiet x x' \<Longrightarrow> reach_inv cfg n (fst x) \<Longrightarrow> reach_inv cfg n (fst x')"
  using quiet_evolves evolves_reach reach_manager by blast

lemma answer_reach:
  assumes "answer W c req handle respT r = Done x'" "\<And>v x. r = Done (v, x) \<Longrightarrow> reach_inv cfg n (fst x)"
  shows "reach_inv cfg n (fst x')"
  using answer_appl[OF assms(1)] assms(2) quiet_reach by blast

lemma remove_session_reach:
  assumes "UA_SessionManager_removeSession token s = Done (rv, s')" "reach_inv cfg n s"
  shows "reach_inv cfg n s'"
proof -
  note r = remove_session[OF reach_manager[OF assms(2)], of token]
  have "evolves s s'" using r assms(1) by (auto split: option.splits)
  then show ?thesis using assms(2) by (rule evolves_reach)
qed

lemma touch_reach:
  assumes "touch_session t i s = Done s'" "reach_inv cfg n s"
  shows "reach_inv cfg n s'"
proof -
  obtain se where se: "sess s i = Some se"
    using assms(1) by (cases "sess s i") (auto simp: touch_session_def deref_def)
  obtain e where "dbl_ticks (timeout se) = Done e" "s' = put_sess i (se\<lparr>validTill := t + e\<rparr>) s"
    using assms(1) se by (auto simp: touch_session_def deref_def bind_Done_iff UA_Session_updateLifetime_def)
  with se have "sess s i = Some se" "schannel (se\<lparr>validTill := t + e\<rparr>) = schannel se"
    "s' = put_sess i (se\<lparr>validTill := t + e\<rparr>) s" by simp_all
  then show ?thesis using put_sess_evolves[OF reach_manager[OF assms(2)]] evolves_reach assms(2) by blast
qed

lemma call_service_reach:
  assumes "call_service W reqT session rq v x = Done (v', x')" "reach_inv cfg n (fst x)"
  shows "reach_inv cfg n (fst x')"
proof (cases "if reqT = UA_TYPES_CLOSESESSIONREQUEST then session else None")
  case None
  then have "fst x' = fst x" using assms(1) by (auto simp: call_service_def Let_def split: prod.splits)
  then show ?thesis using assms(2) by simp
next
  case (Some i)
  then obtain token rv where "UA_SessionManager_removeSession token (fst x) = Done (rv, fst x')"
    using assms(1) by (auto simp: call_service_def Service_CloseSession_def bind_Done_iff)
  then show ?thesis using assms(2) by (rule remove_session_reach)
qed

lemma create_service_reach:
  assumes run: "Service_CreateSession cfg rng g malloc copied t c tmo mx s = Done (rv, r, g', s')"
    and inv: "reach_inv cfg n s" and fresh: "\<And>i. malloc = Some i \<Longrightarrow> sess s i = None"
  shows "reach_inv cfg n s'"
proof (cases "s' = s")
  case False
  then obtain ch rv1 r1 g1 s1 where 1: "chans s c = Some ch"
      "UA_SessionManager_createSession cfg rng g malloc t tmo s = Done (rv1, r1, g1, s1)"
    using run by (auto simp: Service_CreateSession_def deref_def bind_Done_iff split: option.splits if_splits)
  have inv1: "reach_inv cfg n s1"
    using reach_create[OF inv _ 1(2)] fresh by blast
  have step: "s' = s1 \<or> (\<exists>i se se'. sess s1 i = Some se \<and> schannel se' = schannel se \<and>
      (s' = put_sess i se' s1 \<or> (\<exists>token rv. UA_SessionManager_removeSession token (put_sess i se' s1) = Done (rv, s'))))"
  proof (cases r1)
    case None
    then show ?thesis using run 1 False
      by (auto simp: Service_CreateSession_def deref_def split: if_splits)
  next
    case (Some i)
    have b: "bind (case cconnection ch of None \<Rightarrow> Undefined | Some a \<Rightarrow> deref (conns s1) a) (\<lambda>cn.
              bind (deref (sess s1) i) (\<lambda>se.
                let se' = se\<lparr>maxResponseMessageSize := mx, maxRequestMessageSize := maxMessageSize (localConf cn)\<rparr>;
                    s2 = put_sess i se' s1;
                    response = Some (sessionId se, authenticationToken se, timeout se)
                in if snd copied \<noteq> GOOD then
                     bind (UA_SessionManager_removeSession (authenticationToken se) s2) (\<lambda>(_, s3).
                       Done (snd copied, response, g1, s3))
                   else Done (GOOD, response, g1, s2))) = Done (rv, r, g', s')"
      using run 1 False Some by (auto simp: Service_CreateSession_def deref_def split: if_splits)
    define f where "f cn se = (let
          se' = se\<lparr>maxResponseMessageSize := mx, maxRequestMessageSize := maxMessageSize (localConf cn)\<rparr>;
                    s2 = put_sess i se' s1;
                    response = Some (sessionId se, authenticationToken se, timeout se)
                in if snd copied \<noteq> GOOD then
                     bind (UA_SessionManager_removeSession (authenticationToken se) s2) (\<lambda>(_, s3).
                       Done (snd copied, response, g1, s3))
                   else Done (GOOD, response, g1, s2))" for cn :: connection and se :: session
    obtain cn se where se: "deref (sess s1) i = Done se" "f cn se = Done (rv, r, g', s')"
      using b unfolding bind_Done_iff f_def by blast
    then have "sess s1 i = Some se" by (cases "sess s1 i") (simp_all add: deref_def)
    note se = this se(2)
    show ?thesis
      using se(2)
      by (intro disjI2 exI[of _ i] exI[of _ se]
            exI[of _ "se\<lparr>maxResponseMessageSize := mx, maxRequestMessageSize := maxMessageSize (localConf cn)\<rparr>"])
         (auto simp: se(1) f_def Let_def bind_Done_iff split: if_splits)
  qed
  have "reach_inv cfg n (put_sess i se' s1)" if "sess s1 i = Some se" "schannel se' = schannel se" for i se se'
    using put_sess_evolves[OF reach_manager[OF inv1] that] evolves_reach inv1 by blast
  then show ?thesis using step inv1 remove_session_reach by blast
qed (use inv in simp)

lemma sendError_reach: "sendError W c msg pos respT req e x = Done x' \<Longrightarrow> reach_inv cfg n (fst x) \<Longrightarrow> reach_inv cfg n (fst x')"
  using sendError_quiet quiet_reach by blast

lemma serve_in_session_reach:
  assumes run: "serve_in_session W c reqId msg pos reqT respT needed handle rq i x = Done x'"
    and inv: "reach_inv cfg n (fst x)"
  shows "reach_inv cfg n (fst x')"
proof -
  obtain se where s: "sess (fst x) i = Some se"
    using run by (auto simp: serve_in_session_def Let_def deref_def split: option.splits)
  note r = run[unfolded serve_in_session_def Let_def, unfolded s deref_def option.case bind.simps]
  show ?thesis
  proof (cases "needed \<and> \<not> activated se")
    case True
    then obtain x1 rv s2 where "sendError W c msg pos respT reqId BADSESSIONNOTACTIVATED x = Done x1"
        "UA_SessionManager_removeSession (authenticationToken se) (fst x1) = Done (rv, s2)" "fst x' = s2"
      using r by (auto simp: bind_Done_iff)
    then show ?thesis using sendError_reach inv remove_session_reach by blast
  next
    case False
    note r2 = r[unfolded if_not_P[OF False]]
    show ?thesis
    proof (cases "schannel se \<noteq> Some c")
      case True
      then show ?thesis using r2 sendError_reach[OF _ inv] by auto
    next
      case False
      then obtain s1 where s1: "touch_session (mono2 (env_of W (snd x))) i (fst x) = Done s1"
        using r2 by (auto simp: bind_Done_iff)
      have inv1: "reach_inv cfg n s1" using touch_reach[OF s1 inv] .
      show ?thesis
      proof (cases "reqT = UA_TYPES_PUBLISHREQUEST")
        case True
        then show ?thesis using r2 False s1 inv1 by auto
      next
        case no: False
        then have "answer W c reqId handle respT
            (call_service W reqT (Some i) rq (UA_init (depth W) UA_TYPES (UA_TYPES ! respT)) (s1, snd x)) = Done x'"
          using r2 False s1 by auto
        from answer_reach[OF this] call_service_reach[of W reqT "Some i" rq _ "(s1, snd x)"] inv1
        show ?thesis by fastforce
      qed
    qed
  qed
qed

lemma serve_create_reach:
  assumes "serve_create W c rq v x = Done (v', x')" "reach_inv (config W) n (fst x)"
    and "\<And>i. newSession (env_of W (snd x)) = Some i \<Longrightarrow> sess (fst x) i = None"
  shows "reach_inv (config W) n (fst x')"
proof -
  obtain tmo mx rv r g where "Service_CreateSession (config W) pcg32_random_r (seed (snd x)) (newSession (env_of W (snd x)))
      (copiedTexts (env_of W (snd x))) (mono1 (env_of W (snd x))) c tmo mx (fst x) = Done (rv, r, g, fst x')"
    using assms(1) by (auto simp: serve_create_def Let_def bind_Done_iff split: list.splits uval.splits)
  then show ?thesis using assms(2,3) by (rule create_service_reach)
qed

lemma serve_activate_reach:
  assumes "serve_activate W c i rq v x = Done (v', x')" "reach_inv cfg n (fst x)"
    and "sess (fst x) i = Some se" "chans (fst x) c = Some ch"
  shows "reach_inv cfg n (fst x')"
proof -
  obtain token rv where "Service_ActivateSession (config W) (newEntry (env_of W (snd x))) (mono1 (env_of W (snd x)))
      (mono2 (env_of W (snd x))) c i token (fst x) = Done (rv, fst x')"
    using assms(1) by (auto simp: serve_activate_def Let_def bind_Done_iff split: list.splits)
  from activation(1)[OF reach_manager[OF assms(2)] assms(3,4) this] assms(2) show ?thesis by (rule evolves_reach)
qed

lemma serve_request_reach:
  assumes run: "serve_request W c reqId msg pos reqT respT needed token handle rq x = Done x'"
    and inv: "reach_inv (config W) n (fst x)" and fresh: "\<And>i. newSession (env_of W (snd x)) = Some i \<Longrightarrow> sess (fst x) i = None"
  shows "reach_inv (config W) n (fst x')"
proof (cases "reqT = UA_TYPES_CREATESESSIONREQUEST")
  case True
  then have "answer W c reqId handle respT (serve_create W c rq (UA_init (depth W) UA_TYPES (UA_TYPES ! respT)) x) = Done x'"
    using run by (simp add: serve_request_def Let_def)
  then show ?thesis by (rule answer_reach) (rule serve_create_reach[OF _ inv fresh])
next
  case False
  from run False show ?thesis
  proof (rule serve_request_session, goal_cases)
    case (1 own session)
    obtain ch where ch: "chans (fst x) c = Some ch"
      using 1(1) by (auto simp: UA_SecureChannel_getSession_def deref_def split: option.splits)
    show ?case
    proof (cases session)
      case None
      have "reach_inv (config W) n (fst x')" if "answer W c reqId handle respT
          (call_service W reqT None rq (UA_init (depth W) UA_TYPES (UA_TYPES ! respT)) x) = Done x'"
        using that by (rule answer_reach) (rule call_service_reach[OF _ inv])
      then show ?thesis using 1(3) None sendError_reach[OF _ inv] by (auto split: if_splits)
    next
      case (Some i)
      obtain se where se: "sess (fst x) i = Some se" using session_found[OF 1(1)] 1(2) Some by blast
      have "reach_inv (config W) n (fst x')" if "answer W c reqId handle respT
          (serve_activate W c i rq (UA_init (depth W) UA_TYPES (UA_TYPES ! respT)) x) = Done x'"
        using that by (rule answer_reach) (rule serve_activate_reach[OF _ inv se ch])
      then show ?thesis using 1(3) Some serve_in_session_reach[OF _ inv] by (auto split: if_splits)
    qed
  qed
qed

text \<open>What a message comes to: nothing, a fault, or a decoded request.\<close>

lemma processMSG_cases:
  assumes "processMSG W c reqId msg x = Done x'"
  obtains "x' = x" | pos respT code where "sendError W c msg pos respT reqId code x = Done x'"
    | reqT respT needed token handle hs vs pos t where "\<exists>i. getServicePointers i = Some (reqT, respT, needed)"
      "serve_request W c reqId msg pos reqT respT needed token handle (VStruct (VNode token # t # V32 handle # hs) # vs) x = Done x'"
proof -
  obtain rv t where t: "decode_at UA_TYPES UA_TYPES_NODEID msg 0 = Done (rv, t)"
    using assms by (auto simp: processMSG_def bind_Done_iff)
  show thesis
  proof (cases "\<exists>i pos reqT respT needed. t = Some ([VNode i], pos) \<and>
      getServicePointers (numeric_of i) = Some (reqT, respT, needed)")
    case True
    then obtain i pos reqT respT needed where p: "t = Some ([VNode i], pos)"
      "getServicePointers (numeric_of i) = Some (reqT, respT, needed)" by blast
    obtain rv2 r where r: "UA_decodeBinary UA_TYPES (depth W) UA_TYPES (UA_TYPES ! reqT) msg pos = Done (rv2, r)"
      using assms t p by (auto simp: processMSG_def bind_Done_iff)
    show thesis
    proof (cases r)
      case None
      then have "sendError W c msg pos respT reqId rv2 x = Done x'"
        using assms t p r by (simp add: processMSG_def)
      then show thesis by (rule that(2))
    next
      case (Some y)
      then obtain token tm handle hs vs o2 where y: "r = Some (VStruct (VNode token # tm # V32 handle # hs) # vs, o2)"
        using assms t p r by (simp add: processMSG_def split: prod.splits list.splits uval.splits)
      then have "serve_request W c reqId msg pos reqT respT needed token handle
          (VStruct (VNode token # tm # V32 handle # hs) # vs) x = Done x'"
        using assms t p r by (simp add: processMSG_def)
      then show thesis using that(3) p(2) by blast
    qed
  next
    case False
    then have "x' = x \<or> (\<exists>pos. sendError W c msg pos UA_TYPES_SERVICEFAULT reqId BADSERVICEUNSUPPORTED x = Done x')"
      using assms t by (auto simp: processMSG_def split: option.splits prod.splits list.splits uval.splits)
    then show thesis using that(1,2) by blast
  qed
qed

section \<open>Witnesses\<close>

text \<open>
  A RegisterNodes request, of the session with the token \<open>ns=0;i=7\<close>, as bytes; and a server whose
  channel lost its connection, so that only the counting service answers.
\<close>

definition demo_request_values :: "uval list" where
  "demo_request_values = [VStruct [VNode (UA_NODEID_NUMERIC 0 7), V64 0, V32 13, V32 13, VStr None, V32 13,
     VExtEnc 0 (UA_NODEID_NUMERIC 0 2258) None], VArray None]"

definition demo_message :: "byte list" where
  "demo_message = [1, 0, 48, 2] @ ([0, 7] @ UA_encode64 0 @ [13, 0, 0, 0] @ [13, 0, 0, 0] @
     [255, 255, 255, 255] @ [13, 0, 0, 0] @ ([1, 0, 0xD2, 8] @ [0])) @ [255, 255, 255, 255]"

definition demo_world :: "nat world" where
  "demo_world = \<lparr> config = UA_ServerConfig_standard,
     callEnvs = (\<lambda>i. \<lparr> timeNow = 0, mono1 = 0, mono2 = 0, newChannel = None, newSession = None, newEntry = True,
       copiedTexts = (GOOD, GOOD), ownEndpoints = [] \<rparr>),
     depth = 5, rounds = 10, service = (\<lambda>t i request response y. (response, Suc y)),
     Service_Publish = (\<lambda>i request reqId y. y) \<rparr>"

definition demo_uaState :: "nat uaState" where
  "demo_uaState = \<lparr> outbox = [], seed = (1, 2), appl = 41, served = 0 \<rparr>"

definition demo_server :: server where
  "demo_server = put_sess 20 (UA_Session_init\<lparr>activated := True, authenticationToken := UA_NODEID_NUMERIC 0 7, schannel := Some 10\<rparr>)
     (put_chan 10 (UA_SecureChannel_init\<lparr>csessions := [20]\<rparr>) empty_server)"

lemma request_entries:
  "UA_TYPES ! 76 = entry 558 None 128 False 560 RegisterNodesRequest_members"
  "UA_TYPES ! 29 = entry 389 None 112 False 391 RequestHeader_members"
  "UA_TYPES ! 12 = entry 13 (Some KDateTime) 8 True 0 DateTime_members"
  "UA_TYPES ! 21 = entry 22 (Some KExtensionObject) 48 False 0 ExtensionObject_members"
  by (simp_all add: UA_TYPES_def)

lemma request_leaves:
  "wire T (Suc n) own (UA_TYPES ! 16) (VNode (UA_NODEID_NUMERIC 0 7)) [0, 7]"
  "wire T (Suc n) own (UA_TYPES ! 16) (VNode (UA_NODEID_NUMERIC 0 560)) [1, 0, 48, 2]"
  "wire T (Suc n) own (UA_TYPES ! 12) (V64 0) (UA_encode64 0)"
  "wire T (Suc n) own (UA_TYPES ! 21) (VExtEnc 0 (UA_NODEID_NUMERIC 0 2258) None) ([1, 0, 0xD2, 8] @ [0])"
proof -
  show "wire T (Suc n) own (UA_TYPES ! 16) (VNode (UA_NODEID_NUMERIC 0 7)) [0, 7]"
    "wire T (Suc n) own (UA_TYPES ! 16) (VNode (UA_NODEID_NUMERIC 0 560)) [1, 0, 48, 2]"
    by (rule leaf[where k = KNodeId], simp_all add: item_entries entry_def nodeid_bytes_defs
        nodeid_ok_def UA_NODEID_NUMERIC_def desc_ok_def UA_encode16.simps)+
  show "wire T (Suc n) own (UA_TYPES ! 12) (V64 0) (UA_encode64 0)"
    by (rule leaf[where k = KDateTime]) (simp_all add: request_entries entry_def desc_ok_def)
  have "nodeid_bytes 0 (UA_NODEID_NUMERIC 0 2258) = [1, 0, 0xD2, 8]"
    by (simp add: nodeid_bytes_defs UA_NODEID_NUMERIC_def small_bytes)
  with ext_body[of "UA_TYPES ! 21" "UA_NODEID_NUMERIC 0 2258" 0 None T n own]
  show "wire T (Suc n) own (UA_TYPES ! 21) (VExtEnc 0 (UA_NODEID_NUMERIC 0 2258) None) ([1, 0, 0xD2, 8] @ [0])"
    by (simp add: request_entries entry_def nodeid_ok_def is_numeric_def UA_NODEID_NUMERIC_def ustring_ok_def ubytes_def)
qed

lemma request_mems:
  "wire_mems UA_TYPES (Suc (Suc (Suc (Suc (Suc 0))))) UA_TYPES (members (UA_TYPES ! 76)) demo_request_values
     (drop 4 demo_message)"
proof -
  have m: "members (UA_TYPES ! 76) = [one 29, many 16]"
    "members (UA_TYPES ! 29) = [one 16, one 12, one 6, one 6, one 11, one 6, one 21]"
    by (simp_all add: request_entries entry_def RegisterNodesRequest_members_def RequestHeader_members_def)
  have h: "wire UA_TYPES (Suc (Suc (Suc (Suc (Suc 0))))) UA_TYPES (UA_TYPES ! 29) (VStruct [VNode (UA_NODEID_NUMERIC 0 7), V64 0, V32 13, V32 13, VStr None, V32 13,
     VExtEnc 0 (UA_NODEID_NUMERIC 0 2258) None]) ([0, 7] @ UA_encode64 0 @ [13, 0, 0, 0] @ [13, 0, 0, 0] @
     [255, 255, 255, 255] @ [13, 0, 0, 0] @ ([1, 0, 0xD2, 8] @ [0]) @ [])"
    by (rule struct, simp add: request_entries(2) entry_def, unfold m,
        intro mems_one_ua mems_nil item_leaves request_leaves) simp_all
  have "wire_mems UA_TYPES (Suc (Suc (Suc (Suc (Suc 0))))) UA_TYPES [many 16] [VArray None] (UA_encode32 (- 1) @ [])"
    by (rule mems_array[OF _ _ array_null mems_nil]) (simp_all add: many_def member_type_def type_at_def)
  from mems_one_ua[OF _ h this] show ?thesis
    unfolding m by (simp add: demo_request_values_def demo_message_def small_bytes)
qed

lemma request_decoded:
  "decode_at UA_TYPES UA_TYPES_NODEID demo_message 0 = Done (GOOD, Some ([VNode (UA_NODEID_NUMERIC 0 560)], 4))"
  "UA_decodeBinary UA_TYPES 5 UA_TYPES (UA_TYPES ! UA_TYPES_REGISTERNODESREQUEST) demo_message 4 =
     Done (GOOD, Some (demo_request_values, 4 + length (drop 4 demo_message)))"
proof -
  have n: "wire_mems UA_TYPES (Suc (Suc (Suc (Suc (Suc 0))))) UA_TYPES (members (UA_TYPES ! 16)) [VNode (UA_NODEID_NUMERIC 0 560)]
      ([1, 0, 48, 2] @ [])"
  proof -
    have m: "members (UA_TYPES ! 16) = [one 16]"
      by (simp add: item_entries entry_def NodeId_members_def)
    show ?thesis unfolding m by (intro mems_one_ua mems_nil request_leaves) simp
  qed
  show "decode_at UA_TYPES UA_TYPES_NODEID demo_message 0 = Done (GOOD, Some ([VNode (UA_NODEID_NUMERIC 0 560)], 4))"
    using decode_at_mems[OF n, of 0 demo_message] by (simp add: demo_message_def)
  have "drop 4 demo_message = drop 4 demo_message @ []" "4 \<le> length demo_message"
    by (simp_all add: demo_message_def)
  from decode_at_mems[OF request_mems this] show "UA_decodeBinary UA_TYPES 5 UA_TYPES (UA_TYPES ! UA_TYPES_REGISTERNODESREQUEST) demo_message 4 =
     Done (GOOD, Some (demo_request_values, 4 + length (drop 4 demo_message)))"
    by (simp only: decode_at_def)
qed

lemma demo_processed:
  "\<exists>x'. processMSG demo_world 10 3 demo_message (demo_server, demo_uaState) = Done x' \<and> appl (snd x') = 42"
proof -
  have p: "getServicePointers (numeric_of (UA_NODEID_NUMERIC 0 560)) =
      Some (UA_TYPES_REGISTERNODESREQUEST, UA_TYPES_REGISTERNODESRESPONSE, True)"
    by (simp add: getServicePointers_def numeric_of_def UA_NODEID_NUMERIC_def)
  have d: "depth demo_world = 5" by (simp add: demo_world_def)
  let ?x = "(demo_server, demo_uaState)" and ?v = "UA_init 5 UA_TYPES (UA_TYPES ! UA_TYPES_REGISTERNODESRESPONSE)"
  have own: "UA_SecureChannel_getSession 10 (UA_NODEID_NUMERIC 0 7) demo_server = Done (Some 20)"
    by (simp add: UA_SecureChannel_getSession_def demo_server_def deref_def put_sess_def put_chan_def
        UA_SecureChannel_init_def UA_NodeId_equal_def UA_NODEID_NUMERIC_def)
  have se: "\<exists>se. sess demo_server 20 = Some se \<and> activated se \<and> schannel se = Some 10 \<and> timeout se = 0"
    by (simp add: demo_server_def put_sess_def UA_Session_init_def)
  obtain s1 where t: "touch_session 0 20 demo_server = Done s1" "chans s1 = chans demo_server"
  proof -
    have "dbl_ticks 0 = Done 0"
      by (simp add: dbl_ticks_def dbl_exp_def dbl_frac_def round53_def bitlen.simps[of 0])
    with se that show thesis by (auto simp: touch_session_def deref_def UA_Session_updateLifetime_def put_sess_def)
  qed
  have ch: "chans s1 10 = Some (UA_SecureChannel_init\<lparr>csessions := [20]\<rparr>)"
    by (simp add: t(2) demo_server_def put_sess_def put_chan_def)
  have c: "call_service demo_world UA_TYPES_REGISTERNODESREQUEST (Some 20) demo_request_values ?v (s1, demo_uaState) =
      Done (?v, s1, demo_uaState\<lparr>appl := 42\<rparr>)"
    by (simp add: call_service_def demo_world_def demo_uaState_def)
  have "answer demo_world 10 3 13 UA_TYPES_REGISTERNODESRESPONSE (Done (?v, s1, demo_uaState\<lparr>appl := 42\<rparr>)) =
      Done (s1, demo_uaState\<lparr>appl := 42\<rparr>)"
    using ch by (simp add: answer_def send_response_def deref_def UA_SecureChannel_init_def)
  moreover have "mono2 (env_of demo_world demo_uaState) = 0" by (simp add: env_of_def demo_world_def)
  ultimately have "serve_in_session demo_world 10 3 demo_message 4 UA_TYPES_REGISTERNODESREQUEST
      UA_TYPES_REGISTERNODESRESPONSE True 13 demo_request_values 20 ?x = Done (s1, demo_uaState\<lparr>appl := 42\<rparr>)"
    using se t(1) c by (auto simp: serve_in_session_def deref_def d)
  then have r: "serve_request demo_world 10 3 demo_message 4 UA_TYPES_REGISTERNODESREQUEST UA_TYPES_REGISTERNODESRESPONSE True
      (UA_NODEID_NUMERIC 0 7) 13 demo_request_values ?x = Done (s1, demo_uaState\<lparr>appl := 42\<rparr>)"
    by (simp add: serve_request_def own)
  show ?thesis
    using r by (simp add: processMSG_def request_decoded p d demo_request_values_def)
qed

section \<open>Properties\<close>

text \<open>
  C2. No service without its session: whatever the bytes of a message on a channel, the state of the
  other services is left alone or changed by one call of one service (or of Publish), for a session
  that the server has, that is bound to this channel, that has the token of the request and that was
  activated; only GetEndpoints and FindServers are called without one.
\<close>

theorem service_needs_session:
  assumes "processMSG W c reqId msg x = Done x'"
  shows "appl (snd x') = appl (snd x) \<or> allowed_call W c reqId (fst x) (appl (snd x)) (appl (snd x'))"
proof -
  from assms show ?thesis
  proof (rule processMSG_cases, goal_cases)
    case (3 reqT respT needed token handle hs vs pos t)
    from serve_request_calls[OF 3(2) refl] service_pointers_session 3(1) show ?case by (cases needed) auto
  qed (use sendError_appl in blast)+
qed

theorem service_needs_session_witness:
  "\<exists>x'. processMSG demo_world 10 3 demo_message (demo_server, demo_uaState) = Done x' \<and> appl (snd x') = 42 \<and>
     allowed_call demo_world 10 3 demo_server 41 42"
proof -
  obtain x' where x: "processMSG demo_world 10 3 demo_message (demo_server, demo_uaState) = Done x'" "appl (snd x') = 42"
    using demo_processed by auto
  from service_needs_session[OF x(1)] x show ?thesis by (auto simp: demo_uaState_def)
qed

text \<open>
  C17. Requests keep the managers consistent: whatever the bytes, any message of a channel that does
  not open one leaves the pointers between connections, channels and sessions, the lists, the counts
  and the limits as they must be.
\<close>

theorem requests_keep_managers:
  assumes "UA_Server_processSecureChannelMessage W c x t req m = Done x'" "t \<noteq> UA_MESSAGETYPE_OPN"
    and "reach_inv (config W) n (fst x)" "\<And>i. newSession (env_of W (snd x)) = Some i \<Longrightarrow> sess (fst x) i = None"
  shows "reach_inv (config W) n (fst x')"
proof -
  obtain y where y: "fst x' = fst y" "(if t = UA_MESSAGETYPE_MSG then
         (case m of Content msg \<Rightarrow> processMSG W c req msg x | ErrorMessage _ _ \<Rightarrow> Undefined)
       else if t = UA_MESSAGETYPE_CLO then bind (Service_CloseSecureChannel c (fst x)) (\<lambda>s. Done (s, snd x))
       else Done x) = Done y"
    using assms(1,2) by (auto simp: UA_Server_processSecureChannelMessage_def bind_Done_iff split: option.splits)
  consider msg where "processMSG W c req msg x = Done y"
    | k rv where "UA_SecureChannelManager_close k (fst x) = Done (rv, fst y)" | "y = x"
  proof (cases "t = UA_MESSAGETYPE_MSG")
    case True
    then show thesis using y(2) that(1) by (cases m) simp_all
  next
    case False
    show thesis
    proof (cases "t = UA_MESSAGETYPE_CLO")
      case True
      then obtain s where s: "Service_CloseSecureChannel c (fst x) = Done s" "y = (s, snd x)"
        using y(2) by (auto simp: bind_Done_iff)
      then show thesis using that(2) by (auto simp: Service_CloseSecureChannel_def bind_Done_iff)
    qed (use y(2) False that(3) in simp)
  qed
  then show ?thesis
  proof cases
    case 1
    then show ?thesis unfolding y(1)
    proof (rule processMSG_cases, goal_cases)
      case (3 reqT respT needed token handle hs vs pos t)
      from serve_request_reach[OF 3(2) assms(3,4)] show ?case .
    qed (use sendError_reach assms(3) in blast)+
  next
    case 2
    from close_channel[OF reach_manager[OF assms(3)], of k] 2 have "evolves (fst x) (fst y)" by auto
    then show ?thesis unfolding y(1) using assms(3) by (rule evolves_reach)
  qed (use assms(3) y(1) in simp)
qed

theorem requests_keep_managers_witness:
  "\<exists>s x'. demo_run = Done s \<and> channels s = [10] \<and>
     UA_Server_processSecureChannelMessage demo_world 10 (s, demo_uaState) UA_MESSAGETYPE_CLO 7 (Content []) = Done x' \<and>
     reach_inv UA_ServerConfig_standard 1 (fst x')"
proof -
  obtain s ch where s: "demo_run = Done s" "reach UA_ServerConfig_standard 1 False s" "channels s = [10]"
      "chans s 10 = Some ch" "cconnection ch = Some 0" "channelId (securityToken ch) = 1"
    using connected_open by auto
  note inv = reach_inv[OF s(2)]
  obtain rv s' where "UA_SecureChannelManager_close 1 s = Done (rv, s')"
    using close_channel[OF reach_manager[OF inv], of 1] by auto
  then have r: "UA_Server_processSecureChannelMessage demo_world 10 (s, demo_uaState) UA_MESSAGETYPE_CLO 7 (Content []) =
      Done (s', demo_uaState\<lparr>served := 1\<rparr>)"
    using s(4-6) by (simp add: UA_Server_processSecureChannelMessage_def deref_def Service_CloseSecureChannel_def
        demo_uaState_def)
  have "config demo_world = UA_ServerConfig_standard" "newSession (env_of demo_world demo_uaState) = None"
    by (simp_all add: demo_world_def env_of_def)
  then have "reach_inv UA_ServerConfig_standard 1 (fst (s', demo_uaState\<lparr>served := 1\<rparr>))"
    using requests_keep_managers[OF r, of 1] inv by simp
  then show ?thesis using s(1,3) r by blast
qed

section \<open>Saying hello\<close>

lemma hello_entries:
  "members (UA_TRANSPORT ! UA_TRANSPORT_TCPHELLOMESSAGE) = [one 6, one 6, one 6, one 6, one 6, one 11]"
  "members (UA_TRANSPORT ! UA_TRANSPORT_TCPACKNOWLEDGEMESSAGE) = [one 6, one 6, one 6, one 6, one 6]"
  "members (UA_TRANSPORT ! UA_TRANSPORT_TCPMESSAGEHEADER) = [one 6, one 6]"
  by (simp_all add: UA_TRANSPORT_def entry_def TcpHelloMessage_members_def TcpAcknowledgeMessage_members_def
      TcpMessageHeader_members_def)

lemma string_leaf: "ustring_ok u \<Longrightarrow> wire T (Suc n) own (UA_TYPES ! 11) (VStr u) (string_bytes u)"
  by (rule leaf[where k = KString]) (simp_all add: uint32_entry entry_def desc_ok_def)

definition hello_bytes :: "u32 \<Rightarrow> u32 \<Rightarrow> u32 \<Rightarrow> u32 \<Rightarrow> u32 \<Rightarrow> ustring \<Rightarrow> byte list" where
  "hello_bytes version receiveSize sendSize maxMessage maxChunk url =
     UA_encode32 version @ UA_encode32 receiveSize @ UA_encode32 sendSize @ UA_encode32 maxMessage @
     UA_encode32 maxChunk @ string_bytes url"

lemma decode_hello:
  assumes "drop off msg = hello_bytes v r s m c url @ suf" "off \<le> length msg" "ustring_ok url"
  shows "\<exists>o2. decode_at UA_TRANSPORT UA_TRANSPORT_TCPHELLOMESSAGE msg off =
    Done (GOOD, Some ([V32 v, V32 r, V32 s, V32 m, V32 c, VStr url], o2))"
proof -
  have "wire_mems UA_TYPES (Suc (Suc (Suc (Suc (Suc 0))))) UA_TRANSPORT
      (members (UA_TRANSPORT ! UA_TRANSPORT_TCPHELLOMESSAGE)) [V32 v, V32 r, V32 s, V32 m, V32 c, VStr url]
      (UA_encode32 v @ UA_encode32 r @ UA_encode32 s @ UA_encode32 m @ UA_encode32 c @ string_bytes url @ [])"
    unfolding hello_entries
    by (intro mems_uint32 mems_one[OF isArray_one member_one string_leaf[OF assms(3)]] mems_nil) simp
  from decode_at_mems[OF this] assms(1,2) show ?thesis by (simp add: hello_bytes_def)
qed

definition ack_bytes :: "u32 \<Rightarrow> u32 \<Rightarrow> u32 \<Rightarrow> u32 \<Rightarrow> u32 \<Rightarrow> byte list" where
  "ack_bytes version receiveSize sendSize maxMessage maxChunk =
     UA_encode32 (UA_MESSAGETYPE_ACK + UA_CHUNKTYPE_FINAL) @ UA_encode32 28 @ UA_encode32 version @
     UA_encode32 receiveSize @ UA_encode32 sendSize @ UA_encode32 maxMessage @ UA_encode32 maxChunk"

lemma encode_ack:
  assumes "28 \<le> room"
  shows "encode_at UA_TRANSPORT UA_TRANSPORT_TCPACKNOWLEDGEMESSAGE (VStruct [V32 v, V32 r, V32 s, V32 m, V32 c]) room
    (encode_at UA_TRANSPORT UA_TRANSPORT_TCPMESSAGEHEADER
      (VStruct [V32 (UA_MESSAGETYPE_ACK + UA_CHUNKTYPE_FINAL), V32 28]) room []) = ack_bytes v r s m c"
proof -
  let ?h = "UA_encode32 (UA_MESSAGETYPE_ACK + UA_CHUNKTYPE_FINAL) @ UA_encode32 28"
  have "wire_mems UA_TYPES (Suc (Suc (Suc (Suc (Suc 0))))) UA_TRANSPORT
      (members (UA_TRANSPORT ! UA_TRANSPORT_TCPMESSAGEHEADER)) [V32 a, V32 b] (UA_encode32 a @ UA_encode32 b @ [])" for a b
    unfolding hello_entries by (intro mems_uint32 mems_nil)
  from encode_at_mems[OF this, where buf = "[]" and room = room] assms
  have h: "encode_at UA_TRANSPORT UA_TRANSPORT_TCPMESSAGEHEADER
      (VStruct [V32 (UA_MESSAGETYPE_ACK + UA_CHUNKTYPE_FINAL), V32 28]) room [] = ?h" by simp
  have "wire_mems UA_TYPES (Suc (Suc (Suc (Suc (Suc 0))))) UA_TRANSPORT
      (members (UA_TRANSPORT ! UA_TRANSPORT_TCPACKNOWLEDGEMESSAGE)) [V32 v, V32 r, V32 s, V32 m, V32 c]
      (UA_encode32 v @ UA_encode32 r @ UA_encode32 s @ UA_encode32 m @ UA_encode32 c @ [])"
    unfolding hello_entries by (intro mems_uint32 mems_nil)
  from encode_at_mems[OF this, where buf = ?h and room = room] assms show ?thesis
    unfolding h by (simp add: ack_bytes_def)
qed

text \<open>
  The hello: a connection takes the smaller of each pair of buffer sizes, is established and gets
  an acknowledgement of 28 bytes with the sizes it now has.  But no size is too small: when its send
  buffer becomes smaller than the acknowledgement, memory behind the buffer is sent.
\<close>

theorem hello_acknowledged:
  assumes "drop off msg = hello_bytes v r s m c url @ suf" "off \<le> length msg" "ustring_ok url"
    and "conns sv k = Some cn"
  shows "let conf = localConf cn; ssize = min (sendBufferSize conf) r; rsize = min (recvBufferSize conf) s
    in if ssize < 28 then processHEL k msg off (sv, a) = Undefined
       else \<exists>cn'. processHEL k msg off (sv, a) = Done (put_conn k cn' sv, a\<lparr>outbox := outbox a @
              [(k, ack_bytes (protocolVersion conf) rsize ssize (maxMessageSize conf) (maxChunkCount conf))]\<rparr>) \<and>
            cstate cn' = UA_CONNECTION_ESTABLISHED \<and> cchannel cn' = cchannel cn \<and>
            sendBufferSize (localConf cn') = ssize \<and> sendBufferSize (localConf cn') \<le> recvBufferSize (remoteConf cn') \<and>
            recvBufferSize (localConf cn') = rsize \<and> recvBufferSize (localConf cn') \<le> sendBufferSize (remoteConf cn')"
proof -
  let ?c = "hello_conf cn v r s m c"
  obtain o2 where d: "decode_at UA_TRANSPORT UA_TRANSPORT_TCPHELLOMESSAGE msg off =
      Done (GOOD, Some ([V32 v, V32 r, V32 s, V32 m, V32 c, VStr url], o2))"
    using decode_hello[OF assms(1-3)] by blast
  have b: "fst (ServerNetworkLayerGetSendBuffer ?c (sendBufferSize (localConf ?c)) ()) = GOOD"
    by (simp add: ServerNetworkLayerGetSendBuffer_def hello_conf_def not_less)
  have u: "unat w < 28 \<longleftrightarrow> w < 28" for w :: u32 by (simp add: word_less_nat_alt)
  show ?thesis
  proof (cases "min (sendBufferSize (localConf cn)) r < 28")
    case True
    then show ?thesis
      using assms(4) d b by (simp add: processHEL_def deref_def Let_def u hello_conf_def)
  next
    case False
    then have "28 \<le> unat (min (sendBufferSize (localConf cn)) r)" using u not_less by blast
    note ack = encode_ack[OF this]
    have "processHEL k msg off (sv, a) = Done (put_conn k ?c sv, a\<lparr>outbox := outbox a @
        [(k, ack_bytes (protocolVersion (localConf cn)) (min (recvBufferSize (localConf cn)) s)
          (min (sendBufferSize (localConf cn)) r) (maxMessageSize (localConf cn)) (maxChunkCount (localConf cn)))]\<rparr>)"
      using assms(4) d b False ack by (simp add: processHEL_def deref_def Let_def u hello_conf_def del: min_less_iff_conj)
    moreover have "cstate ?c = UA_CONNECTION_ESTABLISHED" "cchannel ?c = cchannel cn"
      "sendBufferSize (localConf ?c) = min (sendBufferSize (localConf cn)) r" "recvBufferSize (remoteConf ?c) = r"
      "recvBufferSize (localConf ?c) = min (recvBufferSize (localConf cn)) s" "sendBufferSize (remoteConf ?c) = s"
      by (simp_all add: hello_conf_def)
    ultimately show ?thesis using False by (auto simp: Let_def intro!: exI[of _ ?c])
  qed
qed

theorem hello_acknowledged_witness:
  "(\<exists>cn'. processHEL 0 (hello_bytes 0 8192 8192 0 0 None) 0 (demo_connected, demo_uaState) =
     Done (put_conn 0 cn' demo_connected, demo_uaState\<lparr>outbox := [(0, ack_bytes 0 8192 8192 0 0)]\<rparr>) \<and>
     cstate cn' = UA_CONNECTION_ESTABLISHED) \<and>
   processHEL 0 (hello_bytes 0 27 8192 0 0 None) 0 (demo_connected, demo_uaState) = Undefined"
proof -
  note h = hello_acknowledged[where suf = "[]", OF _ _ _ connected_inv(3)]
  show ?thesis
    using h[of 0 "hello_bytes 0 8192 8192 0 0 None" 0 8192 8192 0 0 None demo_uaState]
      h[of 0 "hello_bytes 0 27 8192 0 0 None" 0 27 8192 0 0 None demo_uaState]
    by (auto simp: Let_def ustring_ok_def ubytes_def ServerNetworkLayerTCP_add_def UA_ConnectionConfig_standard_def
        demo_uaState_def min_def)
qed

end
