(* ===== verification/EndpointUrl.thy ===== *)
theory EndpointUrl
  imports TaskQueue
begin

text \<open>
  Endpoint URLs (section \<open>ua_connection.c\<close> of \<open>open62541.c\<close>): \<open>opc.tcp://host:port/path\<close> is split
  into host, port and path.  A pointer into the URL is the rest of the text from there.
\<close>

section \<open>Operations\<close>

text \<open>The length of the host: up to a colon or a slash behind the closing bracket of an IPv6 address.\<close>

fun host_length :: "bool \<Rightarrow> cstr \<Rightarrow> nat" where
  "host_length ip6_end_found [] = 0"
| "host_length ip6_end_found (c # cs) =
     (if \<not> ip6_end_found then Suc (host_length (c = 0x5D) cs)
      else if c = 0x3A \<or> c = 0x2F then 0
      else Suc (host_length True cs))"

text \<open>
  The status, the host, and the pointers to port and path, which the caller has set to \<open>NULL\<close>; all
  but the status are only written when it is good.
\<close>

definition UA_EndpointUrl_split_ptr :: "cstr \<Rightarrow> status \<times> cstr \<times> cstr option \<times> cstr option" where
  "UA_EndpointUrl_split_ptr endpointUrl =
     (let urlLength = length endpointUrl
      in if urlLength < 10 \<or> 256 \<le> urlLength then (BADOUTOFRANGE, [], None, None)
         else if \<not> strncmp_eq endpointUrl (str ''opc.tcp://'') 10 then (BADATTRIBUTEIDINVALID, [], None, None)
         else
           let rest = drop 10 endpointUrl;
               portpos = 10 + host_length (rest = [] \<or> hd rest \<noteq> 0x5B) rest;
               start = (if portpos < urlLength then portpos else 10);
               pathpos = start + length (takeWhile (\<lambda>c. c \<noteq> 0x2F) (drop start endpointUrl))
           in (GOOD, take (portpos - 10) rest,
               if portpos < urlLength - 1 then
                 (if endpointUrl ! portpos = 0x2F then None else Some (drop (portpos + 1) endpointUrl))
               else None,
               if pathpos < urlLength - 1 then Some (drop (pathpos + 1) endpointUrl) else None))"

text \<open>The number and how many digits were read.\<close>

fun read_digits :: "cstr \<Rightarrow> u32 \<Rightarrow> nat \<Rightarrow> nat \<times> u32" where
  "read_digits [] n progress = (progress, n)"
| "read_digits (c # cs) n progress =
     (if c < 0x30 \<or> 0x39 < c then (progress, n) else read_digits cs (n * 10 + ucast (c - 0x30)) (Suc progress))"

definition UA_readNumber :: "cstr \<Rightarrow> nat \<Rightarrow> nat \<times> u32" where
  "UA_readNumber buf buflen = read_digits (take buflen buf) 0 0"

text \<open>Both pointers of the caller are given.  The host is written before the port is checked.\<close>

definition UA_EndpointUrl_split :: "cstr \<Rightarrow> status \<times> cstr \<times> u16 option \<times> cstr option" where
  "UA_EndpointUrl_split endpointUrl =
     (case UA_EndpointUrl_split_ptr endpointUrl of (retval, host, portTmp, pathTmp) \<Rightarrow>
       if retval \<noteq> GOOD then (retval, [], None, None)
       else case portTmp of
           None \<Rightarrow> (GOOD, host, Some 0, pathTmp)
         | Some p \<Rightarrow>
             let portLen = (case pathTmp of Some path \<Rightarrow> length p - length path - 1 | None \<Rightarrow> length p);
                 portStr = take portLen p;
                 number = snd (UA_readNumber (portStr @ [0]) 6)
             in if 5 < portLen then (BADOUTOFRANGE, host, None, None)
                else if list_ex (\<lambda>c. c < 0x30 \<or> 0x39 < c) portStr then (BADOUTOFRANGE, host, None, None)
                else if 65535 < number then (BADOUTOFRANGE, host, None, None)
                else (GOOD, host, Some (ucast number), pathTmp))"

section \<open>Splitting what was put together\<close>

lemma host_length_plain:
  "list_all (\<lambda>c. c \<noteq> 0x3A \<and> c \<noteq> 0x2F) h \<Longrightarrow> rest = [] \<or> hd rest = 0x3A \<or> hd rest = 0x2F \<Longrightarrow>
   host_length True (h @ rest) = length h"
  by (induction h) (cases rest; auto)+

text \<open>A host is a name or an address in brackets.\<close>

definition plain_host :: "cstr \<Rightarrow> bool" where
  "plain_host h \<longleftrightarrow> h = [] \<or> hd h \<noteq> 0x5B \<and> list_all (\<lambda>c. c \<noteq> 0x3A \<and> c \<noteq> 0x2F) h"

definition bracket_host :: "cstr \<Rightarrow> bool" where
  "bracket_host h \<longleftrightarrow> (\<exists>a. h = 0x5B # a @ [0x5D] \<and> list_all (\<lambda>c. c \<noteq> 0x5D \<and> c \<noteq> 0x2F) a)"

lemma host_length_bracket:
  "list_all (\<lambda>c. c \<noteq> 0x5D) a \<Longrightarrow> rest = [] \<or> hd rest = 0x3A \<or> hd rest = 0x2F \<Longrightarrow>
   host_length False (a @ [0x5D] @ rest) = Suc (length a)"
  by (induction a) (cases rest; auto)+

lemma host_length_host:
  assumes "plain_host h \<or> bracket_host h" "rest = [] \<or> hd rest = 0x3A \<or> hd rest = 0x2F"
  shows "host_length (h @ rest = [] \<or> hd (h @ rest) \<noteq> 0x5B) (h @ rest) = length h"
proof (cases "bracket_host h")
  case True
  then obtain a where a: "h = 0x5B # a @ [0x5D]" "list_all (\<lambda>c. c \<noteq> 0x5D) a"
    by (auto simp: bracket_host_def list_all_iff)
  from host_length_bracket[OF a(2) assms(2)] show ?thesis by (simp add: a(1))
next
  case False
  then have "plain_host h" using assms(1) by simp
  then show ?thesis
    using host_length_plain[of h rest] assms(2) by (cases h) (auto simp: plain_host_def)
qed

lemma ucast_unat: "(ucast (b :: byte) :: u32) = of_nat (unat b)"
  by (simp add: word_unat_eq_iff unsigned_ucast_eq unsigned_of_nat)

lemma decimal_digit:
  assumes "digit_of c < 10"
  shows "\<not> c < 0x30" "\<not> 0x39 < c" "(ucast (c - 0x30) :: u32) = of_nat (digit_of c)"
proof -
  have c: "isdigit c" "digit_of c = unat c - 48"
    using assms by (auto simp: digit_of_def islower_def isupper_def word_le_nat_alt split: if_splits)
  then show "\<not> c < 0x30" "\<not> 0x39 < c" by (simp_all add: isdigit_def not_less)
  have "unat (c - 0x30) = unat c - 48" using c(1) by (simp add: isdigit_def unat_sub)
  then show "(ucast (c - 0x30) :: u32) = of_nat (digit_of c)" by (simp add: ucast_unat c(2))
qed

lemma read_digits_number:
  "list_all (\<lambda>c. digit_of c < 10) cs \<Longrightarrow> snd (read_digits (cs @ [0]) (of_nat n) k) = of_nat (number 10 n cs)"
proof (induction cs arbitrary: n k)
  case (Cons c cs)
  then have d: "digit_of c < 10" by simp
  show ?case
    using Cons.IH[of "n * 10 + digit_of c" "Suc k"] Cons.prems by (simp add: decimal_digit[OF d])
qed simp

lemma decimal_nonempty: "decimal n \<noteq> []"
  by (subst decimal.simps) simp

text \<open>The parts of a URL, with its port and behind it a path or nothing.\<close>

lemma split_ptr_parts:
  assumes "plain_host h \<or> bracket_host h" "p \<noteq> []" "0x2F \<notin> set p" "length h + length p + length q < 245"
    and "q = [] \<or> hd q = 0x2F"
  shows "UA_EndpointUrl_split_ptr (str ''opc.tcp://'' @ h @ [0x3A] @ p @ q) =
    (GOOD, h, Some (p @ q), if length q \<le> 1 then None else Some (tl q))"
proof -
  define pre where "pre = str ''opc.tcp://''"
  have pre: "length pre = 10" by (simp add: pre_def)
  let ?url = "pre @ h @ [0x3A] @ p @ q" and ?rest = "h @ [0x3A] @ p @ q"
  have e: "strncmp_eq ?url (str ''opc.tcp://'') 10" by (simp add: pre_def numeral_eq_Suc)
  have hl: "host_length (?rest = [] \<or> hd ?rest \<noteq> 0x5B) ?rest = length h"
    by (rule host_length_host[OF assms(1)]) simp
  have r: "drop 10 ?url = ?rest" using pre by simp
  have n: "length ?url = 11 + length h + length p + length q" using pre by simp
  have portpos: "10 + length h < length ?url - 1" "10 + length h < length ?url" using n assms(2) by (cases p; simp)+
  have at: "?url ! (10 + length h) = 0x3A" "drop (10 + length h + 1) ?url = p @ q" "drop (10 + length h) ?url = [0x3A] @ p @ q"
    using pre by (simp_all add: nth_append)
  have tw: "length (takeWhile (\<lambda>c. c \<noteq> 0x2F) ([0x3A] @ p @ q)) = Suc (length p)"
  proof -
    have "takeWhile (\<lambda>c. c \<noteq> 0x2F) (p @ q) = p @ takeWhile (\<lambda>c. c \<noteq> 0x2F) q"
      using assms(3) by (intro takeWhile_append2) auto
    moreover have "takeWhile (\<lambda>c. c \<noteq> 0x2F) q = []" using assms(5) by (cases q) auto
    ultimately show ?thesis by simp
  qed
  have path: "drop (10 + length h + Suc (length p) + 1) ?url = tl q"
    using pre by (cases q) simp_all
  have pp: "10 + length h + Suc (length p) < length ?url - 1 \<longleftrightarrow> 1 < length q" using n by linarith
  have h: "take (length h) ?rest = h" by simp
  have sz: "\<not> (length ?url < 10 \<or> 256 \<le> length ?url)" using n assms(4) by simp
  have "UA_EndpointUrl_split_ptr ?url =
    (GOOD, h, Some (p @ q), if 1 < length q then Some (tl q) else None)"
    unfolding UA_EndpointUrl_split_ptr_def Let_def r hl if_not_P[OF sz] if_P[OF portpos(1)] if_P[OF portpos(2)] at tw pp path
      add_diff_cancel_left' h
    using e by simp
  then show ?thesis by (simp add: pre_def not_le[symmetric] if_distrib cong: if_cong)
qed

text \<open>The port behind the host, with the path or without.\<close>

lemma split_port:
  assumes "UA_EndpointUrl_split_ptr url = (GOOD, h, Some (decimal n @ q), if length q \<le> 1 then None else Some (tl q))"
    and "n < 65536" "q = [] \<or> hd q = 0x2F \<and> 1 < length q"
  shows "UA_EndpointUrl_split url = (GOOD, h, Some (of_nat n), if q = [] then None else Some (tl q))"
proof -
  have len: "length (decimal n) \<le> 5" using length_decimal[of n 4] assms(2) by simp
  have port: "(case (if length q \<le> 1 then None else Some (tl q)) of Some path \<Rightarrow> length (decimal n @ q) - length path - 1
      | None \<Rightarrow> length (decimal n @ q)) = length (decimal n)"
    using assms(3) by auto
  have t: "take (length (decimal n)) (decimal n @ q) = decimal n" by simp
  have d: "\<not> list_ex (\<lambda>c. c < 0x30 \<or> 0x39 < c) (decimal n)"
    using decimal_all[of n] decimal_digit(1,2) by (auto simp: list_ex_iff list_all_iff)
  have "take 6 (decimal n @ [0]) = decimal n @ [0]" using len by simp
  then have num: "snd (UA_readNumber (decimal n @ [0]) 6) = of_nat n"
    using read_digits_number[OF decimal_all, of n 0 0] by (simp add: UA_readNumber_def number_decimal)
  have u: "unat (of_nat n :: u32) = n" using assms(2) by (simp add: unsigned_of_nat take_bit_nat_eq_self)
  then have small: "\<not> 65535 < (of_nat n :: u32)" using assms(2) by (simp add: word_less_nat_alt)
  have uc: "(ucast (of_nat n :: u32) :: u16) = of_nat n"
    using assms(2) by (simp add: word_unat_eq_iff unsigned_ucast_eq unsigned_of_nat take_bit_nat_eq_self)
  show ?thesis
    unfolding UA_EndpointUrl_split_def assms(1) prod.case option.case Let_def port t num
    using len d small uc assms(3) by auto
qed

text \<open>
  C37. What a client puts together it takes apart again: of the URL of a host (a name without colon and
  slash, or an address in brackets) and a port, with a path or without, the host, the port and the
  path come back.  With a bare slash at its end the URL is refused, since the slash then counts as a
  digit of the port.
\<close>

theorem endpoint_url_roundtrip:
  assumes "plain_host h \<or> bracket_host h" "n < 65536" "length h + length path < 238"
  shows "let url = str ''opc.tcp://'' @ h @ [0x3A] @ decimal n
    in UA_EndpointUrl_split url = (GOOD, h, Some (of_nat n), None) \<and>
       (path \<noteq> [] \<longrightarrow> UA_EndpointUrl_split (url @ [0x2F] @ path) = (GOOD, h, Some (of_nat n), Some path)) \<and>
       fst (UA_EndpointUrl_split (url @ [0x2F])) = BADOUTOFRANGE"
proof -
  have len: "length (decimal n) \<le> 5" using length_decimal[of n 4] assms(2) by simp
  have "c \<noteq> 0x2F" if "c \<in> set (decimal n)" for c
    using decimal_all[of n] decimal_digit(1)[of c] that by (auto simp: list_all_iff)
  then have slash: "0x2F \<notin> set (decimal n)" by blast
  note parts = split_ptr_parts[OF assms(1) decimal_nonempty slash]
  have 1: "UA_EndpointUrl_split (str ''opc.tcp://'' @ h @ [0x3A] @ decimal n @ []) = (GOOD, h, Some (of_nat n), None)"
    using split_port[OF parts[of "[]"] assms(2)] assms(3) len by simp
  have 2: "UA_EndpointUrl_split (str ''opc.tcp://'' @ h @ [0x3A] @ decimal n @ 0x2F # path) =
      (GOOD, h, Some (of_nat n), Some path)" if "path \<noteq> []"
    using split_port[OF parts[of "0x2F # path"] assms(2)] assms(3) len that by (cases path) simp_all
  have p: "UA_EndpointUrl_split_ptr (str ''opc.tcp://'' @ h @ [0x3A] @ decimal n @ [0x2F]) =
      (GOOD, h, Some (decimal n @ [0x2F]), None)"
    using parts[of "[0x2F]"] assms(3) len by simp
  have "list_ex (\<lambda>c. c < 0x30 \<or> 0x39 < c) (decimal n @ [0x2F])" by simp
  then have 3: "fst (UA_EndpointUrl_split (str ''opc.tcp://'' @ h @ [0x3A] @ decimal n @ [0x2F])) = BADOUTOFRANGE"
    unfolding UA_EndpointUrl_split_def p prod.case option.case Let_def by simp
  from 1 2 3 show ?thesis by (simp add: Let_def del: str.simps)
qed

theorem endpoint_url_roundtrip_witness:
  "UA_EndpointUrl_split (str ''opc.tcp://'' @ str ''localhost'' @ [0x3A] @ decimal 16664) =
     (GOOD, str ''localhost'', Some 16664, None) \<and>
   fst (UA_EndpointUrl_split ((str ''opc.tcp://'' @ str ''localhost'' @ [0x3A] @ decimal 16664) @ [0x2F])) = BADOUTOFRANGE"
proof -
  have "plain_host (str ''localhost'')" by (simp add: plain_host_def)
  from endpoint_url_roundtrip[OF disjI1[OF this], of 16664 "[]"] show ?thesis
    by (simp add: Let_def del: str.simps)
qed

end
