(* ===== verification/Connection.thy ===== *)
theory Connection
  imports Dispatch
begin

text \<open>
  Connections (sections \<open>ua_connection.c\<close> and \<open>ua_server_worker.c\<close> of \<open>open62541.c\<close>): the chunks that
  arrive in pieces are put together, and what is complete is processed.  Whether an
  allocation succeeds is an argument.
\<close>

section \<open>Complete chunks\<close>

definition message_types :: "u32 set" where
  "message_types = {UA_MESSAGETYPE_MSG, UA_MESSAGETYPE_ERR, UA_MESSAGETYPE_OPN, UA_MESSAGETYPE_HEL,
     UA_MESSAGETYPE_ACK, UA_MESSAGETYPE_CLO}"

definition type_at_pos :: "byte list \<Rightarrow> nat \<Rightarrow> u32" where
  "type_at_pos msg p = ucast (msg ! p) + push_bit 8 (ucast (msg ! (p + 1))) + push_bit 16 (ucast (msg ! (p + 2)))"

definition chunk_length :: "byte list \<Rightarrow> nat \<Rightarrow> u32" where
  "chunk_length msg p = UA_decode32 (take 4 (drop (p + 4) msg))"

text \<open>The end of the complete chunks, and whether what follows is garbage.\<close>

function complete_until :: "u32 \<Rightarrow> byte list \<Rightarrow> nat \<Rightarrow> nat \<times> bool" where
  "complete_until recvSize msg p =
     (if length msg - p < 8 then (p, False)
      else if type_at_pos msg p \<notin> message_types then (p, True)
      else if chunk_length msg p < 16 \<or> recvSize < chunk_length msg p then (p, True)
      else if length msg < unat (chunk_length msg p) + p then (p, False)
      else complete_until recvSize msg (p + unat (chunk_length msg p)))"
  by pat_completeness auto
termination
proof (relation "measure (\<lambda>(r, msg, p). length msg - p)", goal_cases)
  case (2 recvSize msg p)
  then have "16 \<le> unat (chunk_length msg p)" by (simp add: word_less_nat_alt)
  with 2 show ?case by simp
qed simp

declare complete_until.simps [simp del]

text \<open>
  \<open>UA_Connection_completeMessages\<close>: the status, the incomplete message, the message and whether its
  memory was allocated here.  Releasing the buffer empties the message.
\<close>

definition UA_Connection_completeMessages ::
  "bool \<Rightarrow> bool \<Rightarrow> u32 \<Rightarrow> byte list \<Rightarrow> byte list \<Rightarrow> bool \<Rightarrow> status \<times> byte list \<times> byte list \<times> bool" where
  "UA_Connection_completeMessages realloc alloc recvSize incomplete message realloced =
     (if incomplete \<noteq> [] \<and> \<not> realloc then (BADOUTOFMEMORY, [], if realloced then message else [], realloced)
      else let msg = incomplete @ message;
               re = (realloced \<or> incomplete \<noteq> []);
               (p, garbage_end) = complete_until recvSize msg 0;
               cleanup = (\<lambda>rv. (rv, [], if re then msg else [], re))
           in if p = length msg then (GOOD, [], msg, re)
              else if garbage_end then (if p = 0 then cleanup GOOD else (GOOD, [], take p msg, re))
              else if p = 0 then
                (if re then (GOOD, msg, [], re)
                 else if alloc then (GOOD, msg, [], True)
                 else cleanup BADOUTOFMEMORY)
              else if alloc then (GOOD, drop p msg, take p msg, re)
              else cleanup BADOUTOFMEMORY)"

text \<open>
  What a client has of the system: its connection (\<open>recv\<close> gets the timeout), opening one, the clocks, and
  whether allocations succeed.  It has a state of its own.
\<close>

record 'w network =
  connectionFunc :: "connectionConfig \<Rightarrow> cstr \<Rightarrow> 'w \<Rightarrow> connection \<times> 'w"
  recv :: "u32 \<Rightarrow> 'w \<Rightarrow> status \<times> byte list \<times> 'w"
  sendBytes :: "byte list \<Rightarrow> 'w \<Rightarrow> status \<times> 'w"
  closeSocket :: "'w \<Rightarrow> 'w"
  nowMonotonic :: "'w \<Rightarrow> int \<times> 'w"
  dateTimeNow :: "'w \<Rightarrow> u64 \<times> 'w"
  reallocs :: "'w \<Rightarrow> bool"
  allocs :: "'w \<Rightarrow> bool"

text \<open>
  \<open>UA_Connection_receiveChunksBlocking\<close>: the status, the incomplete message, the chunks and whether
  they were allocated; before them the status of the last \<open>recv\<close>, which closes the socket when it
  fails.  The timeout of the next round is cut to 32 bits.
\<close>

definition UA_MSEC_TO_DATETIME :: int where
  "UA_MSEC_TO_DATETIME = 10000"

fun receive_rounds ::
  "nat \<Rightarrow> 'w network \<Rightarrow> u32 \<Rightarrow> int \<Rightarrow> u32 \<Rightarrow> byte list \<Rightarrow> bool \<Rightarrow> 'w \<Rightarrow>
   (status \<times> status \<times> byte list \<times> byte list \<times> bool \<times> 'w) outcome"
where
  "receive_rounds 0 N recvSize maxDate waiting incomplete realloced w = OutOfFuel"
| "receive_rounds (Suc n) N recvSize maxDate waiting incomplete realloced w =
     (let (rv1, received, w1) = recv N waiting w;
          (rv2, incomplete', chunks, realloced') =
            UA_Connection_completeMessages (reallocs N w1) (allocs N w1) recvSize incomplete received realloced;
          rv = rv1 OR rv2
      in if rv \<noteq> GOOD \<or> chunks \<noteq> [] then Done (rv1, rv, incomplete', chunks, realloced', w1)
         else let (now, w2) = nowMonotonic N w1
              in if now > maxDate then Done (rv1, GOODNONCRITICALTIMEOUT, incomplete', chunks, realloced', w2)
                 else receive_rounds n N recvSize maxDate (word_of_int ((maxDate - now) div UA_MSEC_TO_DATETIME))
                        incomplete' realloced' w2)"

definition UA_Connection_receiveChunksBlocking ::
  "nat \<Rightarrow> 'w network \<Rightarrow> u32 \<Rightarrow> u32 \<Rightarrow> byte list \<Rightarrow> 'w \<Rightarrow>
   (status \<times> status \<times> byte list \<times> byte list \<times> bool \<times> 'w) outcome" where
  "UA_Connection_receiveChunksBlocking fuel N recvSize waiting incomplete w =
     (let (now, w1) = nowMonotonic N w
      in receive_rounds fuel N recvSize (now + uint waiting * UA_MSEC_TO_DATETIME) waiting incomplete False w1)"

section \<open>Jobs of the server\<close>

text \<open>
  A job of a network layer; whether a message was allocated by the server or by the layer only says
  who frees it.  The delayed call of a closed connection is \<open>FreeConnectionCallback\<close>.
\<close>

datatype job = NothingJob | DetachConnection nat | BinaryMessage nat "byte list" | FreeConnection nat

type_synonym 'x running = "server \<times> 'x uaState"

definition completeMessages :: "(nat \<Rightarrow> bool \<times> bool) \<Rightarrow> job \<Rightarrow> 'x running \<Rightarrow> (job \<times> 'x running) outcome" where
  "completeMessages mem j r = (case j of
       BinaryMessage k message \<Rightarrow>
         bind (deref (conns (fst r)) k) (\<lambda>cn.
           let (rv, inc, msg, realloced) = UA_Connection_completeMessages (fst (mem k)) (snd (mem k))
                 (recvBufferSize (localConf cn)) (incompleteMessage cn) message False
           in Done (if rv \<noteq> GOOD \<or> msg = [] then NothingJob else BinaryMessage k msg,
                    put_conn k (cn\<lparr>incompleteMessage := inc\<rparr>) (fst r), snd r))
     | _ \<Rightarrow> Done (j, r))"

fun complete_all :: "(nat \<Rightarrow> bool \<times> bool) \<Rightarrow> job list \<Rightarrow> 'x running \<Rightarrow> (job list \<times> 'x running) outcome" where
  "complete_all mem [] r = Done ([], r)"
| "complete_all mem (j # js) r =
     bind (completeMessages mem j r) (\<lambda>(j', r1). bind (complete_all mem js r1) (\<lambda>(js', r2). Done (j' # js', r2)))"

definition processJob :: "'x world \<Rightarrow> nat \<Rightarrow> job \<Rightarrow> 'x running \<Rightarrow> 'x running outcome" where
  "processJob W fuel j r = (case j of
       NothingJob \<Rightarrow> Done r
     | DetachConnection k \<Rightarrow>
         bind (UA_Connection_detachSecureChannel k (fst r)) (\<lambda>s. Done (s, snd r))
     | BinaryMessage k message \<Rightarrow>
         UA_Server_processBinaryMessage W fuel k message r
     | FreeConnection k \<Rightarrow>
         bind (deref (conns (fst r)) k) (\<lambda>cn. Done ((fst r)\<lparr>conns := (conns (fst r))(k := None)\<rparr>, snd r)))"

fun process_jobs :: "'x world \<Rightarrow> nat \<Rightarrow> job list \<Rightarrow> 'x running \<Rightarrow> 'x running outcome" where
  "process_jobs W fuel [] r = Done r"
| "process_jobs W fuel (j # js) r = bind (processJob W fuel j r) (process_jobs W fuel js)"

text \<open>
  One iteration of the main loop, for the jobs of one network layer: first every message is completed,
  then the jobs are processed.
\<close>

definition UA_Server_run_iterate ::
  "'x world \<Rightarrow> nat \<Rightarrow> (nat \<Rightarrow> bool \<times> bool) \<Rightarrow> job list \<Rightarrow> 'x running \<Rightarrow> 'x running outcome" where
  "UA_Server_run_iterate W fuel mem jobs r =
     bind (complete_all mem jobs r) (\<lambda>(jobs', r'). process_jobs W fuel jobs' r')"

text \<open>The iterations of the loop, each with the jobs it gets.\<close>

fun run_iterations :: "'x world \<Rightarrow> nat \<Rightarrow> (nat \<Rightarrow> bool \<times> bool) \<Rightarrow> job list list \<Rightarrow> 'x running \<Rightarrow> 'x running outcome" where
  "run_iterations W fuel mem [] r = Done r"
| "run_iterations W fuel mem (js # jss) r =
     bind (UA_Server_run_iterate W fuel mem js r) (run_iterations W fuel mem jss)"

end
