(* ===== verification/Client.thy ===== *)
theory Client
  imports Connection TaskQueue
begin

text \<open>
  The client (section \<open>ua_client.c\<close> of \<open>open62541.c\<close>): connecting to a server, the services it calls
  over its channel, and the variant that puts the request into the queue in ZooKeeper and waits for
  the answer on the connection.  Subscriptions, log output and freed memory are left out.

  The client network layer allocates buffers of the peer's receive size; as in theory \<open>ChunkSend\<close>
  a message is cut by the own send size, which is the same unless the peer's is larger.
\<close>

section \<open>State\<close>

datatype clientState = UA_CLIENTSTATE_READY | UA_CLIENTSTATE_CONNECTED | UA_CLIENTSTATE_FAULTED | UA_CLIENTSTATE_ERRORED

record clientConfig =
  cfgTimeout :: u32
  secureChannelLifeTime :: u32
  localConnectionConfig :: connectionConfig

definition UA_ClientConfig_standard :: clientConfig where
  "UA_ClientConfig_standard = \<lparr> cfgTimeout = 5000, secureChannelLifeTime = 600000,
     localConnectionConfig = UA_ConnectionConfig_standard \<rparr>"

text \<open>The user name is the method 1 of authentication, none is 0; of the token its policy is used.\<close>

record client =
  clState :: clientState
  clConfig :: clientConfig
  clConnection :: connection
  clEndpointUrl :: ustring
  clChannel :: secureChannel
  clRequestId :: u32
  nextChannelRenewal :: int
  authenticationMethod :: u32
  clUsername :: ustring
  clPassword :: ustring
  tokenPolicy :: ustring
  clToken :: nodeid
  clRequestHandle :: u32

definition connection_zero :: connection where
  "connection_zero = \<lparr> cstate = UA_CONNECTION_OPENING, localConf = \<lparr> protocolVersion = 0, sendBufferSize = 0,
     recvBufferSize = 0, maxMessageSize = 0, maxChunkCount = 0 \<rparr>, remoteConf = \<lparr> protocolVersion = 0, sendBufferSize = 0,
     recvBufferSize = 0, maxMessageSize = 0, maxChunkCount = 0 \<rparr>, cchannel = None, incompleteMessage = [] \<rparr>"

text \<open>Zeroed memory; the channel points to the client's connection.\<close>

definition UA_Client_init :: "clientConfig \<Rightarrow> client" where
  "UA_Client_init cfg = \<lparr> clState = UA_CLIENTSTATE_READY, clConfig = cfg, clConnection = connection_zero,
     clEndpointUrl = None, clChannel = UA_SecureChannel_init\<lparr>cconnection := Some 0\<rparr>, clRequestId = 0,
     nextChannelRenewal = 0, authenticationMethod = 0, clUsername = None, clPassword = None, tokenPolicy = None,
     clToken = UA_NODEID_NULL, clRequestHandle = 0 \<rparr>"

abbreviation BADSERVERNOTCONNECTED :: status where "BADSERVERNOTCONNECTED \<equiv> 0x800d0000"
abbreviation BADTCPMESSAGETYPEINVALID :: status where "BADTCPMESSAGETYPEINVALID \<equiv> 0x807e0000"
abbreviation BADNOTCONNECTED :: status where "BADNOTCONNECTED \<equiv> 0x808a0000"

definition ClientNetworkLayerGetBuffer :: "connection \<Rightarrow> u32 \<Rightarrow> 'p \<Rightarrow> status \<times> 'p" where
  "ClientNetworkLayerGetBuffer cn len p =
     (if len > recvBufferSize (remoteConf cn) then (BADCOMMUNICATIONERROR, p)
      else if cstate cn = UA_CONNECTION_CLOSED then (BADCONNECTIONCLOSED, p)
      else (GOOD, p))"

definition ClientNetworkLayerClose :: "'w network \<Rightarrow> connection \<times> 'w \<Rightarrow> connection \<times> 'w" where
  "ClientNetworkLayerClose N x = (case x of (cn, w) \<Rightarrow>
     if cstate cn = UA_CONNECTION_CLOSED then x else (cn\<lparr>cstate := UA_CONNECTION_CLOSED\<rparr>, closeSocket N w))"

text \<open>A failed \<open>send\<close> or \<open>recv\<close> closes the socket.\<close>

definition after_io :: "status \<Rightarrow> connection \<Rightarrow> connection" where
  "after_io rv cn = (if rv = BADCONNECTIONCLOSED then cn\<lparr>cstate := UA_CONNECTION_CLOSED\<rparr> else cn)"

definition client_send :: "'w network \<Rightarrow> byte list \<Rightarrow> client \<times> 'w \<Rightarrow> status \<times> client \<times> 'w" where
  "client_send N buf x = (case sendBytes N buf (snd x) of
     (rv, w) \<Rightarrow> (rv, (fst x)\<lparr>clConnection := after_io rv (clConnection (fst x))\<rparr>, w))"

section \<open>Values\<close>

definition set_member :: "nat \<Rightarrow> uval \<Rightarrow> uval \<Rightarrow> uval" where
  "set_member i x v = (case v of VStruct vs \<Rightarrow> VStruct (vs[i := x]) | _ \<Rightarrow> v)"

definition header_member :: "nat \<Rightarrow> uval \<Rightarrow> uval \<Rightarrow> uval" where
  "header_member i x v = (case v of VStruct (h # vs) \<Rightarrow> VStruct (set_member i x h # vs) | _ \<Rightarrow> v)"

definition request_init :: "nat \<Rightarrow> uval" where
  "request_init i = UA_init 5 UA_TYPES (UA_TYPES ! i)"

definition service_result :: "uval \<Rightarrow> status" where
  "service_result v = (case v of VStruct (VStruct (t # h # V32 r # hs) # vs) \<Rightarrow> r | _ \<Rightarrow> GOOD)"

section \<open>Receiving the response\<close>

text \<open>What \<open>processServiceResponse\<close> changes: whether a response was processed, and the response.\<close>

type_synonym answerState = "bool \<times> uval"

definition finish_response :: "status \<Rightarrow> uval \<Rightarrow> answerState outcome" where
  "finish_response retval response =
     Done (True, if retval = GOOD then response
                 else set_result (if retval = BADENCODINGLIMITSEXCEEDED then BADRESPONSETOOLARGE else retval) response)"

definition processServiceResponse :: "nat \<Rightarrow> u32 \<Rightarrow> nat \<Rightarrow> answerState outcome callback" where
  "processServiceResponse n expectedId responseType r channel msgType reqId message =
     (bind r (\<lambda>(processed, response).
        case message of
          ErrorMessage code reason \<Rightarrow> finish_response code response
        | Content msg \<Rightarrow>
            if msgType \<noteq> UA_MESSAGETYPE_MSG then finish_response BADTCPMESSAGETYPEINVALID response
            else if reqId \<noteq> expectedId then finish_response BADINTERNALERROR response
            else bind (decode_at UA_TYPES UA_TYPES_NODEID msg 0) (\<lambda>(rv, t). case t of
                Some ([VNode responseId], offset) \<Rightarrow>
                  if UA_NodeId_equal responseId (encoding_id (UA_TYPES ! responseType)) then
                    bind (UA_decodeBinary UA_TYPES n UA_TYPES (UA_TYPES ! responseType) msg offset) (\<lambda>(rv2, v).
                      case v of Some (vs, _) \<Rightarrow> finish_response GOOD (VStruct vs)
                      | None \<Rightarrow> finish_response rv2 (UA_init n UA_TYPES (UA_TYPES ! responseType)))
                  else if UA_NodeId_equal responseId (encoding_id (UA_TYPES ! UA_TYPES_SERVICEFAULT)) then
                    bind (UA_decodeBinary UA_TYPES n UA_TYPES (UA_TYPES ! UA_TYPES_SERVICEFAULT) msg offset) (\<lambda>(rv2, v).
                      case v of Some ([h], _) \<Rightarrow> finish_response GOOD (set_member 0 h response)
                      | Some _ \<Rightarrow> Undefined
                      | None \<Rightarrow> finish_response rv2 (set_member 0 (UA_init n UA_TYPES (UA_TYPES ! UA_TYPES_RESPONSEHEADER)) response))
                  else finish_response BADINTERNALERROR response
              | _ \<Rightarrow> finish_response rv response)), channel)"

text \<open>Chunks from the connection of the client.\<close>

definition client_receive ::
  "nat \<Rightarrow> 'w network \<Rightarrow> u32 \<Rightarrow> client \<times> 'w \<Rightarrow> (status \<times> byte list \<times> client \<times> 'w) outcome" where
  "client_receive fuel N waiting x =
     (let cn = clConnection (fst x)
      in bind (UA_Connection_receiveChunksBlocking fuel N (recvBufferSize (localConf cn)) waiting (incompleteMessage cn) (snd x))
        (\<lambda>(last, rv, inc, reply, realloced, w).
          Done (rv, reply, (fst x)\<lparr>clConnection := (after_io last cn)\<lparr>incompleteMessage := inc\<rparr>\<rparr>, w)))"

text \<open>The loop: until a response was processed or the time is over.  The status of the chunks is ignored.\<close>

fun receive_response ::
  "nat \<Rightarrow> nat \<Rightarrow> 'w network \<Rightarrow> nat \<Rightarrow> int \<Rightarrow> u32 \<Rightarrow> nat \<Rightarrow> uval \<Rightarrow> client \<times> 'w \<Rightarrow> (uval \<times> client \<times> 'w) outcome" where
  "receive_response 0 fuel N n maxDate reqId responseType response x = OutOfFuel"
| "receive_response (Suc m) fuel N n maxDate reqId responseType response x =
     (let (now, w) = nowMonotonic N (snd x)
      in bind (if now < maxDate
               then client_receive fuel N (word_of_int ((maxDate - now) div UA_MSEC_TO_DATETIME)) (fst x, w)
               else Done (GOODNONCRITICALTIMEOUT, [], fst x, w))
          (\<lambda>(retval, reply, cl, w1).
             if retval \<noteq> GOOD then Done (set_result retval response, cl, w1)
             else bind (UA_SecureChannel_processChunks fuel (processServiceResponse n reqId responseType) reply
                          (clChannel cl) (Done (False, response)))
                (\<lambda>(rv, channel, r). bind r (\<lambda>(processed, response').
                   let cl' = cl\<lparr>clChannel := channel\<rparr>
                   in if processed then Done (response', cl', w1)
                      else receive_response m fuel N n maxDate reqId responseType response' (cl', w1)))))"

definition ZUTH_receiveUAClientServiceResponse ::
  "nat \<Rightarrow> 'w network \<Rightarrow> nat \<Rightarrow> nat \<Rightarrow> u32 \<Rightarrow> client \<times> 'w \<Rightarrow> (uval \<times> client \<times> 'w) outcome" where
  "ZUTH_receiveUAClientServiceResponse fuel N n responseType reqId x =
     (let (now, w) = nowMonotonic N (snd x)
      in receive_response fuel fuel N n (now + uint (cfgTimeout (clConfig (fst x))) * UA_MSEC_TO_DATETIME) reqId responseType
           (UA_init n UA_TYPES (UA_TYPES ! responseType)) (fst x, w))"

section \<open>The connection and its channel\<close>

text \<open>Encoding one value behind the other, with the statuses together.\<close>

fun encode_or :: "(types \<times> nat \<times> uval) list \<Rightarrow> nat \<Rightarrow> status \<times> byte list \<Rightarrow> (status \<times> byte list) outcome" where
  "encode_or [] room r = Done r"
| "encode_or ((own, i, v) # vs) room r =
     bind (UA_encodeBinary UA_TYPES 0 None 5 own (own ! i) v (snd r) room ()) (\<lambda>(rv, c).
       encode_or vs room (fst r OR rv, ebuf c))"

text \<open>Decoding that leaves the offset when it fails.\<close>

definition read_at :: "types \<Rightarrow> nat \<Rightarrow> byte list \<Rightarrow> nat \<Rightarrow> (status \<times> uval list option \<times> nat) outcome" where
  "read_at own i msg offset = bind (decode_at own i msg offset) (\<lambda>(rv, r). Done (case r of
       None \<Rightarrow> (rv, None, offset) | Some (vs, offset') \<Rightarrow> (rv, Some vs, offset')))"

definition UA_MINMESSAGESIZE :: u32 where
  "UA_MINMESSAGESIZE = 8192"

text \<open>The type of the reply is not looked at.\<close>

definition ack_conf :: "connection \<Rightarrow> u32 \<Rightarrow> u32 \<Rightarrow> u32 \<Rightarrow> u32 \<Rightarrow> u32 \<Rightarrow> connection" where
  "ack_conf cn version receiveSize sendSize maxMessage maxChunk =
     cn\<lparr>remoteConf := \<lparr> protocolVersion = version, sendBufferSize = sendSize, recvBufferSize = receiveSize,
                       maxMessageSize = maxMessage, maxChunkCount = maxChunk \<rparr>,
        localConf := (localConf cn)\<lparr>sendBufferSize := min (sendBufferSize (localConf cn)) receiveSize,
                                    recvBufferSize := min (recvBufferSize (localConf cn)) sendSize\<rparr>,
        cstate := UA_CONNECTION_ESTABLISHED\<rparr>"

definition HelAckHandshake :: "nat \<Rightarrow> 'w network \<Rightarrow> client \<times> 'w \<Rightarrow> (status \<times> client \<times> 'w) outcome" where
  "HelAckHandshake fuel N x =
     (let cn = clConnection (fst x); conf = localConf cn;
          rv0 = fst (ClientNetworkLayerGetBuffer cn UA_MINMESSAGESIZE ());
          hello = VStruct [V32 (protocolVersion conf), V32 (recvBufferSize conf), V32 (sendBufferSize conf),
                           V32 (maxMessageSize conf), V32 (maxChunkCount conf), VStr (clEndpointUrl (fst x))]
      in if rv0 \<noteq> GOOD then Done (rv0, x)
         else bind (encode_or [(UA_TRANSPORT, UA_TRANSPORT_TCPHELLOMESSAGE, hello)]
                (unat (recvBufferSize (remoteConf cn))) (GOOD, replicate 8 0)) (\<lambda>(rv1, buf).
           if rv1 \<noteq> GOOD then Done (rv1, x)
           else let (rv2, x1) = client_send N (UA_encode32 (UA_CHUNKTYPE_FINAL + UA_MESSAGETYPE_HEL) @
                      UA_encode32 (of_nat (length buf)) @ drop 8 buf) x
             in if rv2 \<noteq> GOOD then Done (rv2, x1)
                else bind (client_receive fuel N (cfgTimeout (clConfig (fst x))) x1) (\<lambda>(rv3, reply, cl, w).
                  if rv3 \<noteq> GOOD then Done (rv3, cl, w)
                  else bind (read_at UA_TRANSPORT UA_TRANSPORT_TCPMESSAGEHEADER reply 0) (\<lambda>(rv4, h, o1).
                       bind (read_at UA_TRANSPORT UA_TRANSPORT_TCPACKNOWLEDGEMESSAGE reply o1) (\<lambda>(rv5, ack, o2).
                       case ack of
                         Some [V32 version, V32 receiveSize, V32 sendSize, V32 maxMessage, V32 maxChunk] \<Rightarrow>
                           if rv4 OR rv5 \<noteq> GOOD then Done (rv4 OR rv5, cl, w)
                           else Done (GOOD, cl\<lparr>clConnection :=
                                  ack_conf (clConnection cl) version receiveSize sendSize maxMessage maxChunk\<rparr>, w)
                       | _ \<Rightarrow> Done (rv4 OR rv5, cl, w))))))"

definition open_request :: "bool \<Rightarrow> u64 \<Rightarrow> client \<Rightarrow> uval" where
  "open_request renew t cl =
     header_member 0 (VNode (clToken cl)) (header_member 1 (V64 t)
       (set_member 2 (V32 (if renew then 1 else 0)) (set_member 3 (V32 1) (set_member 4 (VStr (clientNonce (clChannel cl)))
         (set_member 5 (V32 (secureChannelLifeTime (clConfig cl))) (request_init UA_TYPES_OPENSECURECHANNELREQUEST))))))"

text \<open>The token of the answer; three quarters of its lifetime later the client renews.\<close>

definition open_answer :: "int \<Rightarrow> uval list \<Rightarrow> client \<Rightarrow> client" where
  "open_answer now vs cl = (case vs of
       [h, v, VStruct [V32 cid, V32 ti, V64 ca, V32 rl], VStr nonce] \<Rightarrow>
         cl\<lparr>nextChannelRenewal := now + uint rl * 7500,
            clChannel := (clChannel cl)\<lparr>securityToken := \<lparr> channelId = cid, tokenId = ti, createdAt = sint ca,
                                          revisedLifetime = rl \<rparr>, serverNonce := nonce\<rparr>\<rparr>
     | _ \<Rightarrow> cl)"

definition SecureChannelHandshake ::
  "nat \<Rightarrow> 'w network \<Rightarrow> bool \<Rightarrow> client \<times> 'w \<Rightarrow> (status \<times> client \<times> 'w) outcome" where
  "SecureChannelHandshake fuel N renew x =
     (let cl = fst x; cn = clConnection cl; channel = clChannel cl;
          (now, w0) = (if renew then nowMonotonic N (snd x) else (0, snd x))
      in if renew \<and> 0 < nextChannelRenewal cl - now then Done (GOOD, cl, w0)
         else if cstate cn \<noteq> UA_CONNECTION_ESTABLISHED then Done (BADSERVERNOTCONNECTED, cl, w0)
         else
           let seqNo = sendSequenceNumber channel + 1; reqId = clRequestId cl + 1;
               cl1 = cl\<lparr>clChannel := channel\<lparr>sendSequenceNumber := seqNo\<rparr>, clRequestId := reqId\<rparr>;
               (t, w1) = dateTimeNow N w0
           in bind (encode_or
                [(UA_TRANSPORT, UA_TRANSPORT_ASYMMETRICALGORITHMSECURITYHEADER,
                    VStruct [VStr (Some (str ''http://opcfoundation.org/UA/SecurityPolicy#None'')), VStr None, VStr None]),
                 (UA_TRANSPORT, UA_TRANSPORT_SEQUENCEHEADER, sequence_header seqNo reqId),
                 (UA_TYPES, UA_TYPES_NODEID, VNode (encoding_id (UA_TYPES ! UA_TYPES_OPENSECURECHANNELREQUEST))),
                 (UA_TYPES, UA_TYPES_OPENSECURECHANNELREQUEST, open_request renew t cl)]
                (unat (recvBufferSize (remoteConf cn))) (GOOD, replicate 12 0)) (\<lambda>(rv1, buf).
              if rv1 \<noteq> GOOD then Done (rv1, cl1, w1)
              else let (rv2, x2) = client_send N (header_bytes (UA_MESSAGETYPE_OPN + UA_CHUNKTYPE_FINAL)
                         (of_nat (length buf)) (if renew then channelId (securityToken channel) else 0) @ drop 12 buf) (cl1, w1)
                in if rv2 \<noteq> GOOD then Done (rv2, x2)
                   else bind (client_receive fuel N (cfgTimeout (clConfig cl)) x2) (\<lambda>(rv3, reply, cl3, w3).
                     if rv3 \<noteq> GOOD then Done (rv3, cl3, w3)
                     else bind (read_at UA_TRANSPORT UA_TRANSPORT_SECURECONVERSATIONMESSAGEHEADER reply 0) (\<lambda>(_, h, o1).
                          bind (read_at UA_TRANSPORT UA_TRANSPORT_ASYMMETRICALGORITHMSECURITYHEADER reply o1) (\<lambda>(_, a, o2).
                          bind (read_at UA_TRANSPORT UA_TRANSPORT_SEQUENCEHEADER reply o2) (\<lambda>(_, q, o3).
                          bind (read_at UA_TYPES UA_TYPES_NODEID reply o3) (\<lambda>(_, i, o4).
                          if \<not> (case i of Some [VNode responseId] \<Rightarrow>
                                  UA_NodeId_equal responseId (encoding_id (UA_TYPES ! UA_TYPES_OPENSECURECHANNELRESPONSE))
                                | _ \<Rightarrow> False)
                          then Done (BADINTERNALERROR, cl3, w3)
                          else
                            let cl4 = cl3\<lparr>clChannel := (clChannel cl3)\<lparr>receiveSequenceNumber :=
                                  (case q of Some [V32 s, V32 r] \<Rightarrow> s | _ \<Rightarrow> 0)\<rparr>\<rparr>
                            in bind (read_at UA_TYPES UA_TYPES_OPENSECURECHANNELRESPONSE reply o4) (\<lambda>(rv5, v, o5).
                               case v of
                                 None \<Rightarrow> Done (rv5, cl4, w3)
                               | Some vs \<Rightarrow>
                                   let retval = rv5 OR service_result (VStruct vs)
                                   in if retval \<noteq> GOOD then Done (retval, cl4, w3)
                                      else let (now5, w5) = nowMonotonic N w3
                                           in Done (GOOD, open_answer now5 vs cl4, w5)))))))))"

definition UA_Client_manuallyRenewSecureChannel ::
  "nat \<Rightarrow> 'w network \<Rightarrow> client \<times> 'w \<Rightarrow> (status \<times> client \<times> 'w) outcome" where
  "UA_Client_manuallyRenewSecureChannel fuel N x =
     bind (SecureChannelHandshake fuel N True x) (\<lambda>(rv, cl, w).
       Done (rv, if rv = GOOD then cl\<lparr>clState := UA_CLIENTSTATE_CONNECTED\<rparr> else cl, w))"

section \<open>Services\<close>

text \<open>
  A service call, with the function that sends the request: it gets the request, its identifier and
  the client.
\<close>

definition client_service ::
  "nat \<Rightarrow> 'w network \<Rightarrow> nat \<Rightarrow> (uval \<Rightarrow> u32 \<Rightarrow> client \<times> 'w \<Rightarrow> (status \<times> client \<times> 'w) outcome) \<Rightarrow> uval \<Rightarrow> nat \<Rightarrow>
   client \<times> 'w \<Rightarrow> (uval \<times> client \<times> 'w) outcome" where
  "client_service fuel N n sendRequest request responseType x =
     (let response = UA_init n UA_TYPES (UA_TYPES ! responseType)
      in bind (UA_Client_manuallyRenewSecureChannel fuel N x) (\<lambda>(rv, cl, w).
           if rv \<noteq> GOOD then Done (set_result rv response, cl\<lparr>clState := UA_CLIENTSTATE_ERRORED\<rparr>, w)
           else
             let (t, w1) = dateTimeNow N w;
                 handle = clRequestHandle cl + 1; reqId = clRequestId cl + 1;
                 rr = header_member 0 (VNode (clToken cl)) (header_member 1 (V64 t) (header_member 2 (V32 handle) request));
                 cl1 = cl\<lparr>clRequestHandle := handle, clRequestId := reqId\<rparr>
             in bind (sendRequest rr reqId (cl1, w1)) (\<lambda>(rv, cl2, w2).
                if rv \<noteq> GOOD then
                  Done (set_result (if rv = BADENCODINGLIMITSEXCEEDED then BADREQUESTTOOLARGE else rv) response,
                        cl2\<lparr>clState := UA_CLIENTSTATE_FAULTED\<rparr>, w2)
                else ZUTH_receiveUAClientServiceResponse fuel N n responseType reqId (cl2, w2))))"

text \<open>Over the connection: the chunks are sent one after the other, and the result of sending them is ignored.\<close>

fun send_chunks :: "'w network \<Rightarrow> byte list list \<Rightarrow> client \<times> 'w \<Rightarrow> client \<times> 'w" where
  "send_chunks N [] x = x"
| "send_chunks N (b # bs) x = send_chunks N bs (snd (client_send N b x))"

definition UA_Client_Service ::
  "nat \<Rightarrow> 'w network \<Rightarrow> nat \<Rightarrow> nat \<Rightarrow> uval \<Rightarrow> nat \<Rightarrow> client \<times> 'w \<Rightarrow> (uval \<times> client \<times> 'w) outcome" where
  "UA_Client_Service fuel N n requestType request responseType x =
     client_service fuel N n (\<lambda>rr reqId (cl, w).
       bind (UA_SecureChannel_sendBinaryMessage (ClientNetworkLayerGetBuffer (clConnection cl)) (\<lambda>_. clConnection cl)
               fuel n UA_TYPES (UA_TYPES ! requestType) rr reqId (clChannel cl) ())
         (\<lambda>(rv, channel, bufs, p). Done (rv, send_chunks N bufs (cl\<lparr>clChannel := channel\<rparr>, w)))) request responseType x"

text \<open>Over the queue: ZooKeeper is part of the client's world.\<close>

definition ZUTH_Client_Service ::
  "'w services \<Rightarrow> cstr \<Rightarrow> nat \<Rightarrow> 'w network \<Rightarrow> nat \<Rightarrow> nat \<Rightarrow> uval \<Rightarrow> nat \<Rightarrow> client \<times> 'w \<Rightarrow> (uval \<times> client \<times> 'w) outcome" where
  "ZUTH_Client_Service S taskPath fuel N n requestType request responseType x =
     client_service fuel N n (\<lambda>rr reqId (cl, w).
       bind (ZUTH_SecureChannel_sendBinaryMessage S (ClientNetworkLayerGetBuffer (clConnection cl)) (\<lambda>_. clConnection cl)
               fuel n UA_TYPES (UA_TYPES ! requestType) rr reqId (clChannel cl) taskPath w ())
         (\<lambda>(rv, channel, w', p). Done (rv, cl\<lparr>clChannel := channel\<rparr>, w'))) request responseType x"

section \<open>Sessions\<close>

text \<open>The token of the user, by the method of authentication.\<close>

definition identity_token :: "client \<Rightarrow> uval" where
  "identity_token cl =
     (if authenticationMethod cl = 0 then
        VExtDec UA_TYPES_ANONYMOUSIDENTITYTOKEN (VStruct [VStr (tokenPolicy cl)])
      else VExtDec UA_TYPES_USERNAMEIDENTITYTOKEN
        (VStruct [VStr (tokenPolicy cl), VStr (clUsername cl), VStr (clPassword cl), VStr None]))"

definition ActivateSession :: "nat \<Rightarrow> 'w network \<Rightarrow> nat \<Rightarrow> client \<times> 'w \<Rightarrow> (status \<times> client \<times> 'w) outcome" where
  "ActivateSession fuel N n x =
     (let cl = (fst x)\<lparr>clRequestHandle := clRequestHandle (fst x) + 1\<rparr>;
          request = header_member 5 (V32 600000) (set_member 4 (identity_token cl) (request_init UA_TYPES_ACTIVATESESSIONREQUEST))
      in bind (UA_Client_Service fuel N n UA_TYPES_ACTIVATESESSIONREQUEST request UA_TYPES_ACTIVATESESSIONRESPONSE (cl, snd x))
           (\<lambda>(response, x'). Done (service_result response, x')))"

definition GetEndpoints :: "nat \<Rightarrow> 'w network \<Rightarrow> nat \<Rightarrow> client \<times> 'w \<Rightarrow> (status \<times> uval list \<times> client \<times> 'w) outcome" where
  "GetEndpoints fuel N n x =
     (let request = header_member 5 (V32 10000) (set_member 1 (VStr (clEndpointUrl (fst x))) (request_init UA_TYPES_GETENDPOINTSREQUEST))
      in bind (UA_Client_Service fuel N n UA_TYPES_GETENDPOINTSREQUEST request UA_TYPES_GETENDPOINTSRESPONSE x)
           (\<lambda>(response, x'). Done (service_result response,
              (case response of VStruct [h, VArray (Some es)] \<Rightarrow> if service_result response = GOOD then es else [] | _ \<Rightarrow> []), x')))"

abbreviation security_none :: ustring where
  "security_none \<equiv> Some (str ''http://opcfoundation.org/UA/SecurityPolicy#None'')"

abbreviation binary_transport :: ustring where
  "binary_transport \<equiv> Some (str ''http://opcfoundation.org/UA-Profile/Transport/uatcp-uasc-uabinary'')"

text \<open>The user token policies of an endpoint without security, if it is one.\<close>

definition endpoint_tokens :: "uval \<Rightarrow> uval list option" where
  "endpoint_tokens e = (case e of
       VStruct [url, server, cert, mode, VStr uri, VArray tokens, VStr transport, level] \<Rightarrow>
         if ubytes transport \<noteq> [] \<and> \<not> UA_String_equal transport binary_transport then None
         else if \<not> UA_String_equal uri security_none then None
         else Some (case tokens of None \<Rightarrow> [] | Some ts \<Rightarrow> ts)
     | _ \<Rightarrow> None)"

definition token_matches :: "u32 \<Rightarrow> uval \<Rightarrow> bool" where
  "token_matches authMethod t = (case t of
       VStruct [policy, V32 tokenType, issued, issuer, VStr uri] \<Rightarrow>
         (ubytes uri = [] \<or> UA_String_equal uri security_none) \<and> authMethod = tokenType
     | _ \<Rightarrow> False)"

definition policy_of :: "uval \<Rightarrow> ustring" where
  "policy_of t = (case t of VStruct (VStr p # ts) \<Rightarrow> p | _ \<Rightarrow> None)"

text \<open>Over all endpoints: whether one was found, and the policy, which later endpoints replace.\<close>

fun choose_token :: "u32 \<Rightarrow> uval list \<Rightarrow> bool \<times> ustring option \<Rightarrow> bool \<times> ustring option" where
  "choose_token authMethod [] r = r"
| "choose_token authMethod (e # es) r = choose_token authMethod es (case endpoint_tokens e of
       None \<Rightarrow> r
     | Some ts \<Rightarrow> (True, case find (token_matches authMethod) ts of None \<Rightarrow> snd r | Some t \<Rightarrow> Some (policy_of t)))"

definition EndpointsHandshake :: "nat \<Rightarrow> 'w network \<Rightarrow> nat \<Rightarrow> client \<times> 'w \<Rightarrow> (status \<times> client \<times> 'w) outcome" where
  "EndpointsHandshake fuel N n x =
     bind (GetEndpoints fuel N n x) (\<lambda>(retval, es, cl, w).
       if retval \<noteq> GOOD then Done (retval, cl, w)
       else case choose_token (authenticationMethod cl) es (False, None) of
           (True, Some p) \<Rightarrow> Done (GOOD, cl\<lparr>tokenPolicy := p\<rparr>, w)
         | _ \<Rightarrow> Done (BADINTERNALERROR, cl, w))"

definition SessionHandshake :: "nat \<Rightarrow> 'w network \<Rightarrow> nat \<Rightarrow> client \<times> 'w \<Rightarrow> (status \<times> client \<times> 'w) outcome" where
  "SessionHandshake fuel N n x =
     (let request = header_member 5 (V32 10000) (set_member 5 (VStr (clientNonce (clChannel (fst x))))
            (set_member 7 (V64 0x41324F8000000000) (set_member 8 (V32 0x7FFFFFFF)
              (set_member 3 (VStr (clEndpointUrl (fst x))) (request_init UA_TYPES_CREATESESSIONREQUEST)))))
      in bind (UA_Client_Service fuel N n UA_TYPES_CREATESESSIONREQUEST request UA_TYPES_CREATESESSIONRESPONSE x)
           (\<lambda>(response, cl, w). Done (service_result response,
              (case response of VStruct (h # i # VNode a # vs) \<Rightarrow> cl\<lparr>clToken := a\<rparr> | _ \<Rightarrow> cl), w)))"

definition CloseSession :: "nat \<Rightarrow> 'w network \<Rightarrow> nat \<Rightarrow> client \<times> 'w \<Rightarrow> (status \<times> client \<times> 'w) outcome" where
  "CloseSession fuel N n x =
     (let request = header_member 5 (V32 10000) (set_member 1 (VB 1) (request_init UA_TYPES_CLOSESESSIONREQUEST))
      in bind (UA_Client_Service fuel N n UA_TYPES_CLOSESESSIONREQUEST request UA_TYPES_CLOSESESSIONRESPONSE x)
           (\<lambda>(response, x'). Done (service_result response, x')))"

definition client_close :: "'w network \<Rightarrow> client \<times> 'w \<Rightarrow> client \<times> 'w" where
  "client_close N x = (case ClientNetworkLayerClose N (clConnection (fst x), snd x) of
     (cn, w) \<Rightarrow> ((fst x)\<lparr>clConnection := cn\<rparr>, w))"

definition CloseSecureChannel :: "'w network \<Rightarrow> client \<times> 'w \<Rightarrow> (status \<times> client \<times> 'w) outcome" where
  "CloseSecureChannel N x =
     (let cl = fst x; channel = clChannel cl; cn = clConnection cl;
          handle = clRequestHandle cl + 1; seqNo = sendSequenceNumber channel + 1; reqId = clRequestId cl + 1;
          (t, w1) = dateTimeNow N (snd x);
          cl1 = cl\<lparr>clRequestHandle := handle, clChannel := channel\<lparr>sendSequenceNumber := seqNo\<rparr>, clRequestId := reqId\<rparr>;
          request = header_member 0 (VNode (clToken cl)) (header_member 1 (V64 t) (header_member 2 (V32 handle)
            (header_member 5 (V32 10000) (request_init UA_TYPES_CLOSESECURECHANNELREQUEST))));
          rv0 = fst (ClientNetworkLayerGetBuffer cn (recvBufferSize (remoteConf cn)) ())
      in if rv0 \<noteq> GOOD then Done (rv0, cl1, w1)
         else bind (encode_or
                [(UA_TRANSPORT, UA_TRANSPORT_SYMMETRICALGORITHMSECURITYHEADER, VStruct [V32 (tokenId (securityToken channel))]),
                 (UA_TRANSPORT, UA_TRANSPORT_SEQUENCEHEADER, sequence_header seqNo reqId),
                 (UA_TYPES, UA_TYPES_NODEID, VNode (encoding_id (UA_TYPES ! UA_TYPES_CLOSESECURECHANNELREQUEST))),
                 (UA_TYPES, UA_TYPES_CLOSESECURECHANNELREQUEST, request)]
                (unat (recvBufferSize (remoteConf cn))) (GOOD, replicate 12 0)) (\<lambda>(rv1, buf).
           let (rv2, x2) = (if rv1 \<noteq> GOOD then (rv1, cl1, w1)
                 else client_send N (header_bytes (UA_MESSAGETYPE_CLO + UA_CHUNKTYPE_FINAL) (of_nat (length buf))
                   (channelId (securityToken channel)) @ drop 12 buf) (cl1, w1))
           in Done (rv2, client_close N x2)))"

section \<open>Connecting\<close>

definition UA_Client_disconnect :: "nat \<Rightarrow> 'w network \<Rightarrow> nat \<Rightarrow> client \<times> 'w \<Rightarrow> (status \<times> client \<times> 'w) outcome" where
  "UA_Client_disconnect fuel N n x =
     (if clState (fst x) = UA_CLIENTSTATE_READY then Done (BADNOTCONNECTED, x)
      else bind (if cstate (clConnection (fst x)) = UA_CONNECTION_ESTABLISHED \<and>
                    \<not> UA_NodeId_equal (clToken (fst x)) UA_NODEID_NULL
                 then CloseSession fuel N n x else Done (GOOD, x)) (\<lambda>(rv1, x1).
           if cstate (clConnection (fst x1)) = UA_CONNECTION_ESTABLISHED then
             bind (CloseSecureChannel N x1) (\<lambda>(rv2, x2). Done (rv1 OR rv2, x2))
           else Done (rv1, x1)))"

text \<open>Everything is forgotten but the configuration: the connection, and how the user logs in.\<close>

definition UA_Client_reset :: "nat \<Rightarrow> 'w network \<Rightarrow> nat \<Rightarrow> client \<times> 'w \<Rightarrow> (client \<times> 'w) outcome" where
  "UA_Client_reset fuel N n x =
     bind (UA_Client_disconnect fuel N n x) (\<lambda>(rv, cl, w). Done (UA_Client_init (clConfig cl), w))"

text \<open>One step after the other while the status is good.\<close>

fun while_good :: "(client \<times> 'w \<Rightarrow> (status \<times> client \<times> 'w) outcome) list \<Rightarrow> client \<times> 'w \<Rightarrow> (status \<times> client \<times> 'w) outcome" where
  "while_good [] x = Done (GOOD, x)"
| "while_good (f # fs) x = bind (f x) (\<lambda>(rv, x'). if rv = GOOD then while_good fs x' else Done (rv, x'))"

definition client_start :: "'w network \<Rightarrow> cstr \<Rightarrow> client \<times> 'w \<Rightarrow> client \<times> 'w" where
  "client_start N url x = (case connectionFunc N UA_ConnectionConfig_standard url (snd x) of
     (cn, w) \<Rightarrow> ((fst x)\<lparr>clConnection := cn\<rparr>, w))"

definition client_configure :: "cstr \<Rightarrow> client \<times> 'w \<Rightarrow> client \<times> 'w" where
  "client_configure url x = ((fst x)\<lparr>clEndpointUrl := Some url,
     clConnection := (clConnection (fst x))\<lparr>localConf := localConnectionConfig (clConfig (fst x))\<rparr>\<rparr>, snd x)"

definition UA_Client_connect :: "nat \<Rightarrow> 'w network \<Rightarrow> nat \<Rightarrow> cstr \<Rightarrow> client \<times> 'w \<Rightarrow> (status \<times> client \<times> 'w) outcome" where
  "UA_Client_connect fuel N n url x =
     (let cleanup = (\<lambda>rv x. bind (UA_Client_reset fuel N n x) (\<lambda>x'. Done (rv, x')))
      in if clState (fst x) = UA_CLIENTSTATE_CONNECTED then Done (GOOD, x)
         else bind (if clState (fst x) = UA_CLIENTSTATE_ERRORED then UA_Client_reset fuel N n x else Done x) (\<lambda>x0.
           let x1 = client_start N url x0
           in if cstate (clConnection (fst x1)) \<noteq> UA_CONNECTION_OPENING then cleanup BADCONNECTIONCLOSED x1
              else bind (while_good [HelAckHandshake fuel N, SecureChannelHandshake fuel N False, EndpointsHandshake fuel N n,
                       SessionHandshake fuel N n, ActivateSession fuel N n] (client_configure url x1)) (\<lambda>(retval, cl, w).
                if retval = GOOD then
                  Done (GOOD, cl\<lparr>clConnection := (clConnection cl)\<lparr>cstate := UA_CONNECTION_ESTABLISHED\<rparr>,
                                 clState := UA_CLIENTSTATE_CONNECTED\<rparr>, w)
                else cleanup retval (cl, w))))"

definition UA_Client_connect_username ::
  "nat \<Rightarrow> 'w network \<Rightarrow> nat \<Rightarrow> cstr \<Rightarrow> cstr \<Rightarrow> cstr \<Rightarrow> client \<times> 'w \<Rightarrow> (status \<times> client \<times> 'w) outcome" where
  "UA_Client_connect_username fuel N n url user pass x =
     UA_Client_connect fuel N n url
       ((fst x)\<lparr>authenticationMethod := 1, clUsername := Some user, clPassword := Some pass\<rparr>, snd x)"

definition UA_Client_getEndpoints ::
  "nat \<Rightarrow> 'w network \<Rightarrow> nat \<Rightarrow> cstr \<Rightarrow> client \<times> 'w \<Rightarrow> (status \<times> uval list \<times> client \<times> 'w) outcome" where
  "UA_Client_getEndpoints fuel N n url x =
     (let cleanup = (\<lambda>rv es x. bind (UA_Client_disconnect fuel N n x) (\<lambda>(rv', x1).
            bind (UA_Client_reset fuel N n x1) (\<lambda>x2. Done (rv, es, x2))))
      in if clState (fst x) = UA_CLIENTSTATE_CONNECTED then Done (GOOD, [], x)
         else bind (if clState (fst x) = UA_CLIENTSTATE_ERRORED then UA_Client_reset fuel N n x else Done x) (\<lambda>x0.
           let x1 = client_start N url x0
           in if cstate (clConnection (fst x1)) \<noteq> UA_CONNECTION_OPENING then cleanup BADCONNECTIONCLOSED [] x1
              else bind (while_good [HelAckHandshake fuel N, SecureChannelHandshake fuel N False] (client_configure url x1))
                (\<lambda>(retval, x2). if retval \<noteq> GOOD then cleanup retval [] x2
                   else bind (GetEndpoints fuel N n x2) (\<lambda>(retval', es, x3). cleanup retval' es x3))))"

end
