(* ===== verification/ConnectionProps.thy ===== *)
theory ConnectionProps
  imports Connection DispatchProps
begin

text \<open>
  What the joining of chunks guarantees: a stream of well-formed chunks is handed on in groups of whole
  chunks, however it is cut; and what it does not: a header that arrives in two pieces is not checked.
\<close>

section \<open>Well-formed chunks\<close>

definition good_chunk :: "u32 \<Rightarrow> byte list \<Rightarrow> bool" where
  "good_chunk recvSize c \<longleftrightarrow> type_at_pos c 0 \<in> message_types \<and> 16 \<le> length c \<and>
     chunk_length c 0 \<le> recvSize \<and> unat (chunk_length c 0) = length c"

text \<open>The beginning of a chunk.\<close>

definition partial_chunk :: "u32 \<Rightarrow> byte list \<Rightarrow> bool" where
  "partial_chunk recvSize t \<longleftrightarrow> t = [] \<or> (\<exists>u. u \<noteq> [] \<and> good_chunk recvSize (t @ u))"

lemma header_at:
  assumes "8 \<le> length c"
  shows "type_at_pos (pre @ c @ suf) (length pre) = type_at_pos c 0"
    "chunk_length (pre @ c @ suf) (length pre) = chunk_length c 0"
proof -
  have "(pre @ c @ suf) ! (length pre + i) = c ! i" if "i < 3" for i
    using assms that by (simp add: nth_append)
  from this[of 0] this[of 1] this[of 2] show "type_at_pos (pre @ c @ suf) (length pre) = type_at_pos c 0"
    by (simp add: type_at_pos_def numeral_2_eq_2)
  show "chunk_length (pre @ c @ suf) (length pre) = chunk_length c 0"
    using assms by (simp add: chunk_length_def)
qed

lemma chunk_not_small: "good_chunk r c \<Longrightarrow> \<not> chunk_length c 0 < 16"
  by (simp add: good_chunk_def word_less_nat_alt)

lemma scan_good:
  assumes "good_chunk r c"
  shows "complete_until r (pre @ c @ suf) (length pre) = complete_until r (pre @ c @ suf) (length (pre @ c))"
proof -
  have c: "16 \<le> length c" "type_at_pos c 0 \<in> message_types" "\<not> r < chunk_length c 0" "unat (chunk_length c 0) = length c"
    using assms by (simp_all add: good_chunk_def not_less)
  then have "8 \<le> length c" by simp
  note h = header_at[OF this, of pre suf]
  show ?thesis
    using c chunk_not_small[OF assms] by (subst complete_until.simps) (simp add: h add.commute)
qed

lemma scan_partial:
  assumes "partial_chunk r t"
  shows "complete_until r (pre @ t) (length pre) = (length pre, False)"
proof (cases "length t < 8")
  case True
  then show ?thesis by (simp add: complete_until.simps)
next
  case False
  then obtain u where u: "u \<noteq> []" "good_chunk r (t @ u)" using assms by (auto simp: partial_chunk_def)
  have l: "8 \<le> length t" using False by simp
  have e: "type_at_pos (t @ u) 0 = type_at_pos t 0" "chunk_length (t @ u) 0 = chunk_length t 0"
    using header_at[OF l, of "[]" u] by simp_all
  note h = header_at[OF l, of pre "[]", simplified]
  have "type_at_pos t 0 \<in> message_types" "\<not> r < chunk_length t 0" "\<not> chunk_length t 0 < 16"
    "length t < unat (chunk_length t 0)"
    using u chunk_not_small[OF u(2)] by (auto simp: good_chunk_def e)
  then show ?thesis using l by (subst complete_until.simps) (simp add: h)
qed

lemma scan_chunks:
  assumes "list_all (good_chunk r) cs" "partial_chunk r t"
  shows "complete_until r (pre @ concat cs @ t) (length pre) = (length (pre @ concat cs), False)"
  using assms(1)
proof (induction cs arbitrary: pre)
  case Nil
  then show ?case using scan_partial[OF assms(2), of pre] by simp
next
  case (Cons c cs)
  have "complete_until r (pre @ c @ concat cs @ t) (length pre) =
      complete_until r ((pre @ c) @ concat cs @ t) (length (pre @ c))"
    using scan_good[of r c pre "concat cs @ t"] Cons.prems by simp
  also have "\<dots> = (length ((pre @ c) @ concat cs), False)"
    using Cons by (intro Cons.IH) simp
  finally show ?case by simp
qed

lemma good_nonempty: "good_chunk r c \<Longrightarrow> c \<noteq> []"
  by (auto simp: good_chunk_def)

text \<open>One segment: whole chunks go out, the beginning of the next one is kept.\<close>

lemma complete_segment:
  assumes "inc @ seg = concat cs @ t" "list_all (good_chunk r) cs" "partial_chunk r t"
  shows "\<exists>re. UA_Connection_completeMessages True True r inc seg realloced = (GOOD, t, concat cs, re)"
proof -
  have s: "complete_until r (concat cs @ t) 0 = (length (concat cs), False)"
    using scan_chunks[OF assms(2,3), of "[]"] by simp
  show ?thesis
  proof (cases "t = []")
    case True
    then show ?thesis using s assms(1) by (simp add: UA_Connection_completeMessages_def Let_def)
  next
    case False
    then have "length (concat cs) \<noteq> length (concat cs @ t)" by simp
    then show ?thesis
      by (auto simp: UA_Connection_completeMessages_def Let_def s assms(1) simp del: length_concat)
  qed
qed

text \<open>The chunks that the sender makes are well formed.\<close>

lemma header_type:
  assumes "mt = UA_MESSAGETYPE_MSG \<or> mt = UA_MESSAGETYPE_CLO"
    and "t \<in> {UA_CHUNKTYPE_INTERMEDIATE, UA_CHUNKTYPE_FINAL, UA_CHUNKTYPE_ABORT}"
  shows "type_at_pos (header_bytes (mt + t) sz i @ bs) 0 = mt" "chunk_length (header_bytes (mt + t) sz i @ bs) 0 = sz"
proof -
  show "type_at_pos (header_bytes (mt + t) sz i @ bs) 0 = mt"
    using assms by (auto simp: type_at_pos_def header_bytes_def UA_encode32.simps)
  show "chunk_length (header_bytes (mt + t) sz i @ bs) 0 = sz"
    by (simp add: chunk_length_def header_bytes_def UA_decode_encode32)
qed

lemma good_sent_chunk:
  assumes "chunk_ok cs req m (mt + t) k" "mt = UA_MESSAGETYPE_MSG \<or> mt = UA_MESSAGETYPE_CLO"
    and "t \<in> {UA_CHUNKTYPE_INTERMEDIATE, UA_CHUNKTYPE_FINAL, UA_CHUNKTYPE_ABORT}"
    and "length (chunk_bytes k) \<le> unat r"
  shows "good_chunk r (chunk_bytes k)"
proof -
  let ?sz = "of_nat (HEADER_LENGTH + length (scBody k)) :: u32"
  note l = chunk_ok_length[OF assms(1)]
  have "length (chunk_bytes k) < 2 ^ 32" using assms(4) unsigned_less[of r, where 'a = nat] by simp
  then have u: "unat ?sz = length (chunk_bytes k)" unfolding l by (intro unat_u32)
  moreover have "type_at_pos (chunk_bytes k) 0 = mt" "chunk_length (chunk_bytes k) 0 = ?sz"
    using assms(1) header_type[OF assms(2,3)] by (simp_all add: chunk_ok_def chunk_bytes_def)
  moreover have "mt \<in> message_types" using assms(2) by (auto simp: message_types_def)
  ultimately show ?thesis
    using assms(4) l by (simp add: good_chunk_def word_le_nat_alt)
qed

section \<open>A stream in segments\<close>

text \<open>The messages among the jobs of a connection.\<close>

fun messages_of :: "nat \<Rightarrow> job list \<Rightarrow> byte list list" where
  "messages_of k [] = []"
| "messages_of k (BinaryMessage j m # js) = (if j = k then m # messages_of k js else messages_of k js)"
| "messages_of k (_ # js) = messages_of k js"

lemma split_stream:
  assumes "p @ q = concat cs @ t" "list_all (good_chunk r) cs" "partial_chunk r t"
  shows "\<exists>cs1 cs2 t1. cs = cs1 @ cs2 \<and> p = concat cs1 @ t1 \<and> t1 @ q = concat cs2 @ t \<and> partial_chunk r t1"
  using assms(1,2)
proof (induction cs arbitrary: p)
  case Nil
  have "partial_chunk r p"
  proof (cases "p = []")
    case False
    then obtain u where u: "u \<noteq> []" "good_chunk r ((p @ q) @ u)" using Nil assms(3) by (auto simp: partial_chunk_def)
    then show ?thesis unfolding partial_chunk_def by (intro disjI2 exI[of _ "q @ u"]) simp
  qed (simp add: partial_chunk_def)
  then show ?case using Nil by (intro exI[of _ "[]"] exI[of _ "[]"] exI[of _ p]) simp
next
  case (Cons c cs)
  have c: "good_chunk r c" "list_all (good_chunk r) cs" using Cons.prems(2) by simp_all
  have "p @ q = c @ (concat cs @ t)" using Cons.prems(1) by simp
  then consider us where "p = c @ us" "us @ q = concat cs @ t" | us where "p @ us = c" "us \<noteq> []" "q = us @ concat cs @ t"
    by (auto simp: append_eq_append_conv2) (metis append_Nil append_Nil2)
  then show ?case
  proof cases
    case 1
    from Cons.IH[OF 1(2) c(2)] obtain cs1 cs2 t1 where
      "cs = cs1 @ cs2" "us = concat cs1 @ t1" "t1 @ q = concat cs2 @ t" "partial_chunk r t1" by blast
    then show ?thesis using 1(1) by (intro exI[of _ "c # cs1"] exI[of _ cs2] exI[of _ t1]) simp
  next
    case 2
    then have "partial_chunk r p" using c(1) by (auto simp: partial_chunk_def)
    then show ?thesis using 2 by (intro exI[of _ "[]"] exI[of _ "c # cs"] exI[of _ p]) simp
  qed
qed

lemma put_conn_simps [simp]:
  "put_conn k x (put_conn k y s) = put_conn k x s" "conns (put_conn k x s) = (conns s)(k \<mapsto> x)"
  by (simp_all add: put_conn_def)

lemma partial_end:
  assumes "concat cs @ t = inc" "list_all (good_chunk r) cs" "partial_chunk r inc"
  shows "cs = [] \<and> inc = t"
proof (cases cs)
  case (Cons c ds)
  have e: "inc = c @ concat ds @ t" "good_chunk r c" using assms(1,2) Cons by simp_all
  then obtain u where u: "good_chunk r (c @ concat ds @ t @ u)" "u \<noteq> []"
    using assms(3) good_nonempty by (auto simp: partial_chunk_def)
  have "8 \<le> length c" using e(2) by (simp add: good_chunk_def)
  from header_at(2)[OF this, of "[]" "concat ds @ t @ u"]
  have "length (c @ concat ds @ t @ u) = length c"
    using u(1) e(2) by (simp add: good_chunk_def)
  then show ?thesis using u(2) by simp
qed (use assms(1) in simp)

lemma complete_stream:
  assumes "incompleteMessage cn @ concat segs = concat cs @ t" "list_all (good_chunk (recvBufferSize (localConf cn))) cs"
    and "partial_chunk (recvBufferSize (localConf cn)) (incompleteMessage cn)" "conns s k = Some cn"
    and "partial_chunk (recvBufferSize (localConf cn)) t" "mem k = (True, True)"
  shows "\<exists>gs js. complete_all mem (map (BinaryMessage k) segs) (s, a) =
      Done (js, put_conn k (cn\<lparr>incompleteMessage := t\<rparr>) s, a) \<and>
    messages_of k js = map concat gs \<and> concat gs = cs \<and> [] \<notin> set gs"
  using assms(1-4,5)
proof (induction segs arbitrary: cn cs s)
  case Nil
  then have "cs = [] \<and> incompleteMessage cn = t" using partial_end by fastforce
  moreover have "put_conn k cn s = s" using Nil.prems(4) by (simp add: put_conn_def map_upd_triv)
  moreover have "cn\<lparr>incompleteMessage := incompleteMessage cn\<rparr> = cn" by simp
  ultimately show ?case by (intro exI[of _ "[]"]) auto
next
  case (Cons seg segs)
  let ?r = "recvBufferSize (localConf cn)"
  have "(incompleteMessage cn @ seg) @ concat segs = concat cs @ t" using Cons.prems(1) by simp
  from split_stream[OF this Cons.prems(2,5)] obtain cs1 cs2 t1 where
    s: "cs = cs1 @ cs2" "incompleteMessage cn @ seg = concat cs1 @ t1" "t1 @ concat segs = concat cs2 @ t"
      "partial_chunk ?r t1" by blast
  have good: "list_all (good_chunk ?r) cs1" "list_all (good_chunk ?r) cs2" using Cons.prems(2) s(1) by simp_all
  from complete_segment[OF s(2) good(1) s(4)] obtain re where
    m: "UA_Connection_completeMessages True True ?r (incompleteMessage cn) seg False = (GOOD, t1, concat cs1, re)" by blast
  let ?cn = "cn\<lparr>incompleteMessage := t1\<rparr>" and ?s = "put_conn k (cn\<lparr>incompleteMessage := t1\<rparr>) s"
  have "completeMessages mem (BinaryMessage k seg) (s, a) =
      Done (if concat cs1 = [] then NothingJob else BinaryMessage k (concat cs1), ?s, a)"
    using m assms(6) Cons.prems(4) by (simp add: completeMessages_def deref_def del: concat_eq_Nil_conv)
  moreover obtain gs js where gs: "complete_all mem (map (BinaryMessage k) segs) (?s, a) =
      Done (js, put_conn k (?cn\<lparr>incompleteMessage := t\<rparr>) ?s, a)" "messages_of k js = map concat gs" "concat gs = cs2" "[] \<notin> set gs"
    using Cons.IH[of ?cn cs2 ?s] s(3,4) good(2) Cons.prems(5) by auto
  ultimately have run: "complete_all mem (map (BinaryMessage k) (seg # segs)) (s, a) =
      Done ((if concat cs1 = [] then NothingJob else BinaryMessage k (concat cs1)) # js,
        put_conn k (cn\<lparr>incompleteMessage := t\<rparr>) s, a)"
    by (simp del: concat_eq_Nil_conv)
  have ne: "concat cs1 = [] \<longleftrightarrow> cs1 = []" using good(1) good_nonempty by (cases cs1) auto
  show ?case
  proof (cases "cs1 = []")
    case True
    then show ?thesis using run gs s(1) ne by (intro exI[of _ gs] exI[of _ "NothingJob # js"]) simp
  next
    case False
    then show ?thesis using run gs s(1) ne
      by (intro exI[of _ "cs1 # gs"] exI[of _ "BinaryMessage k (concat cs1) # js"]) (simp del: concat_eq_Nil_conv)
  qed
qed

section \<open>Properties\<close>

lemma process_messages:
  "list_all (\<lambda>j. j = NothingJob \<or> (\<exists>m. j = BinaryMessage k m)) js \<Longrightarrow>
   process_jobs W fuel js r = process_jobs W fuel (map (BinaryMessage k) (messages_of k js)) r"
proof (induction js arbitrary: r)
  case (Cons j js)
  then have IH: "process_jobs W fuel js = process_jobs W fuel (map (BinaryMessage k) (messages_of k js))" by auto
  show ?case using Cons.prems by (auto simp: IH processJob_def)
qed simp

lemma completed_jobs:
  "complete_all mem (map (BinaryMessage k) segs) r = Done (js, r') \<Longrightarrow>
   list_all (\<lambda>j. j = NothingJob \<or> (\<exists>m. j = BinaryMessage k m)) js"
proof (induction segs arbitrary: r js)
  case (Cons seg segs)
  obtain j r1 where j: "completeMessages mem (BinaryMessage k seg) r = Done (j, r1)"
    using Cons.prems by (auto simp: bind_Done_iff)
  then obtain js1 where "complete_all mem (map (BinaryMessage k) segs) r1 = Done (js1, r')" "js = j # js1"
    using Cons.prems by (auto simp: bind_Done_iff)
  moreover have "j = NothingJob \<or> (\<exists>m. j = BinaryMessage k m)"
    using j by (auto simp: completeMessages_def bind_Done_iff Let_def split_beta split: if_split_asm)
  ultimately show ?case using Cons.IH by simp
qed simp

text \<open>
  C18. TCP may cut the stream of chunks as it likes.  When the segments of a connection that one iteration
  of the main loop gets, behind what is left of earlier ones, are a sequence of well-formed chunks and
  the beginning of another, then the iteration processes exactly these chunks, all of them, in their
  order and whole, in messages of one or more; and the beginning of the next chunk stays with the
  connection, where the next iteration finds it.
\<close>

theorem stream_reassembled:
  assumes "conns s k = Some cn" "mem k = (True, True)"
    and "partial_chunk (recvBufferSize (localConf cn)) (incompleteMessage cn)"
    and "incompleteMessage cn @ concat segs = concat cs @ t" "list_all (good_chunk (recvBufferSize (localConf cn))) cs"
    and "partial_chunk (recvBufferSize (localConf cn)) t"
  shows "\<exists>gs. concat gs = cs \<and> [] \<notin> set gs \<and>
    UA_Server_run_iterate W fuel mem (map (BinaryMessage k) segs) (s, a) =
      process_jobs W fuel (map (BinaryMessage k \<circ> concat) gs) (put_conn k (cn\<lparr>incompleteMessage := t\<rparr>) s, a)"
proof -
  obtain gs js where g: "complete_all mem (map (BinaryMessage k) segs) (s, a) =
      Done (js, put_conn k (cn\<lparr>incompleteMessage := t\<rparr>) s, a)" "messages_of k js = map concat gs" "concat gs = cs" "[] \<notin> set gs"
    using complete_stream[where mem = mem and s = s and a = a, OF assms(4,5,3,1,6,2)] by blast
  have "process_jobs W fuel js x = process_jobs W fuel (map (BinaryMessage k \<circ> concat) gs) x" for x
    using process_messages[OF completed_jobs[OF g(1)]] g(2) by simp
  then show ?thesis using g by (intro exI[of _ gs]) (simp add: UA_Server_run_iterate_def)
qed

definition demo_chunk :: "byte list" where
  "demo_chunk = [0x4D, 0x53, 0x47, 0x46] @ [16, 0, 0, 0] @ replicate 8 7"

lemma demo_chunk_good: "good_chunk 65535 demo_chunk"
  by (simp add: good_chunk_def demo_chunk_def type_at_pos_def message_types_def chunk_length_def)

theorem stream_reassembled_witness:
  "\<forall>W fuel. \<exists>gs cn. concat gs = [demo_chunk] \<and> [] \<notin> set gs \<and>
     UA_Server_run_iterate W fuel (\<lambda>_. (True, True)) (map (BinaryMessage 0) [take 3 demo_chunk, drop 3 demo_chunk @ [0x4D]])
       (demo_connected, demo_uaState) =
     process_jobs W fuel (map (BinaryMessage 0 \<circ> concat) gs)
       (put_conn 0 (cn\<lparr>incompleteMessage := [0x4D]\<rparr>) demo_connected, demo_uaState)"
proof (intro allI)
  fix W fuel
  let ?cn = "ServerNetworkLayerTCP_add UA_ConnectionConfig_standard"
  have r: "recvBufferSize (localConf ?cn) = 65535" "incompleteMessage ?cn = []"
    by (simp_all add: ServerNetworkLayerTCP_add_def UA_ConnectionConfig_standard_def)
  have "drop 1 demo_chunk \<noteq> [] \<and> good_chunk 65535 ([0x4D] @ drop 1 demo_chunk)"
    using demo_chunk_good by (simp add: demo_chunk_def)
  then have "partial_chunk 65535 [0x4D]"
    unfolding partial_chunk_def by blast
  moreover have "partial_chunk 65535 []" by (simp add: partial_chunk_def)
  ultimately show "\<exists>gs cn. concat gs = [demo_chunk] \<and> [] \<notin> set gs \<and>
     UA_Server_run_iterate W fuel (\<lambda>_. (True, True)) (map (BinaryMessage 0) [take 3 demo_chunk, drop 3 demo_chunk @ [0x4D]])
       (demo_connected, demo_uaState) =
     process_jobs W fuel (map (BinaryMessage 0 \<circ> concat) gs)
       (put_conn 0 (cn\<lparr>incompleteMessage := [0x4D]\<rparr>) demo_connected, demo_uaState)"
    using stream_reassembled[OF connected_inv(3) refl,
        where segs = "[take 3 demo_chunk, drop 3 demo_chunk @ [0x4D]]" and cs = "[demo_chunk]" and t = "[0x4D]"
          and W = W and fuel = fuel and a = demo_uaState]
      demo_chunk_good r by fastforce
qed

lemma header_scan:
  "complete_until r (header_bytes (UA_MESSAGETYPE_OPN + UA_CHUNKTYPE_FINAL) 0 i) 0 = (0, True)"
proof -
  let ?m = "header_bytes (UA_MESSAGETYPE_OPN + UA_CHUNKTYPE_FINAL) 0 i"
  have "chunk_length ?m 0 = 0" "8 \<le> length ?m"
    by (simp_all add: chunk_length_def header_bytes_def UA_encode32.simps)
  then show ?thesis by (subst complete_until.simps) simp
qed

lemma short_scan: "length m < 8 \<Longrightarrow> complete_until r m 0 = (0, False)"
  by (simp add: complete_until.simps)

lemma size_zero_server:
  assumes "chans (fst x) c = Some ch" "channelId (securityToken ch) = i"
  shows "server_chunks fuel h (header_bytes (UA_MESSAGETYPE_OPN + UA_CHUNKTYPE_FINAL) 0 i) 0 c x = OutOfFuel"
proof -
  define src where "src = header_bytes (UA_MESSAGETYPE_OPN + UA_CHUNKTYPE_FINAL) 0 i"
  have l: "length src = 12" by (simp add: src_def header_bytes_def)
  show ?thesis
    unfolding src_def[symmetric]
    using assms
  proof (induction fuel arbitrary: x ch)
    case (Suc n)
    have "process_chunk (call_handler h c x) src 0 ch None = Done (Next 0 (UA_SecureChannel_removeChunk ch 0) None)"
      unfolding src_def using Suc.prems(2) by (rule size_zero_round)
    moreover have "channelId (securityToken (UA_SecureChannel_removeChunk ch 0)) = i"
      using Suc.prems(2) by (simp add: removeChunk_id)
    ultimately show ?case
      using Suc.IH[of "(put_chan c (UA_SecureChannel_removeChunk ch 0) (fst x), snd x)"] Suc.prems(1) l
      by (simp add: deref_def after_round_def)
  qed simp
qed

text \<open>
  A header that arrives in two pieces is not checked.  The twelve bytes of an \<open>OPN\<close> chunk of size
  zero are thrown away when they arrive at once; when they arrive in two pieces, of which the first
  is too short to be checked, they are handed to the channel as a message, and the server never
  comes back from it.
\<close>

theorem split_header_hangs:
  assumes "conns s k = Some cn" "incompleteMessage cn = []" "cchannel cn = Some c"
    and "chans s c = Some ch" "mem k = (True, True)" "0 < n" "n < 8"
  shows "let m = header_bytes (UA_MESSAGETYPE_OPN + UA_CHUNKTYPE_FINAL) 0 (channelId (securityToken ch))
    in UA_Server_run_iterate W fuel mem [BinaryMessage k m] (s, a) = Done (s, a) \<and>
       run_iterations W fuel mem [[BinaryMessage k (take n m)], [BinaryMessage k (drop n m)]] (s, a) = OutOfFuel"
proof -
  define m where "m = header_bytes (UA_MESSAGETYPE_OPN + UA_CHUNKTYPE_FINAL) 0 (channelId (securityToken ch))"
  have l: "length m = 12" by (simp add: m_def header_bytes_def)
  have scan: "complete_until r m 0 = (0, True)" for r unfolding m_def by (rule header_scan)
  have same: "put_conn k (cn\<lparr>incompleteMessage := []\<rparr>) s = s"
    using assms(1,2) by (cases cn) (simp add: put_conn_def map_upd_triv)
  have whole: "UA_Server_run_iterate W fuel mem [BinaryMessage k m] (s, a) = Done (s, a)"
    using assms(1,2,5) l same
    by (simp add: UA_Server_run_iterate_def completeMessages_def deref_def UA_Connection_completeMessages_def scan
        processJob_def)
  let ?s = "put_conn k (cn\<lparr>incompleteMessage := take n m\<rparr>) s"
  have t: "length (take n m) < 8" "take n m \<noteq> []" "min (length m) n = n" using assms(6,7) l by auto
  have first: "UA_Server_run_iterate W fuel mem [BinaryMessage k (take n m)] (s, a) = Done (?s, a)"
    using assms(1,2,5,6) t
    by (simp add: UA_Server_run_iterate_def completeMessages_def deref_def UA_Connection_completeMessages_def
        short_scan[OF t(1)] processJob_def)
  let ?s2 = "put_conn k (cn\<lparr>incompleteMessage := []\<rparr>) ?s"
  have ch: "chans (fst (?s2, a)) c = Some ch" using assms(4) by (simp add: put_conn_def)
  have "completeMessages mem (BinaryMessage k (drop n m)) (?s, a) = Done (BinaryMessage k m, ?s2, a)"
    using assms(5) t l
    by (simp add: completeMessages_def deref_def UA_Connection_completeMessages_def scan)
  moreover have "processJob W fuel (BinaryMessage k m) (?s2, a) = OutOfFuel"
    using size_zero_server[OF ch refl, of fuel] assms(3)
    by (simp add: processJob_def UA_Server_processBinaryMessage_def deref_def m_def)
  ultimately have "UA_Server_run_iterate W fuel mem [BinaryMessage k (drop n m)] (?s, a) = OutOfFuel"
    by (simp add: UA_Server_run_iterate_def)
  with first whole show ?thesis by (simp add: Let_def m_def)
qed

definition demo_pair :: server where
  "demo_pair = put_conn 0 ((ServerNetworkLayerTCP_add UA_ConnectionConfig_standard)\<lparr>cchannel := Some 10\<rparr>)
     (put_chan 10 (UA_SecureChannel_init\<lparr>cconnection := Some 0\<rparr>) empty_server)"

theorem split_header_hangs_witness:
  "\<exists>m. UA_Server_run_iterate demo_world 99 (\<lambda>_. (True, True)) [BinaryMessage 0 m] (demo_pair, demo_uaState) =
       Done (demo_pair, demo_uaState) \<and>
     run_iterations demo_world 99 (\<lambda>_. (True, True)) [[BinaryMessage 0 (take 5 m)], [BinaryMessage 0 (drop 5 m)]]
       (demo_pair, demo_uaState) = OutOfFuel"
proof -
  have s: "conns demo_pair 0 = Some ((ServerNetworkLayerTCP_add UA_ConnectionConfig_standard)\<lparr>cchannel := Some 10\<rparr>)"
    "chans demo_pair 10 = Some (UA_SecureChannel_init\<lparr>cconnection := Some 0\<rparr>)"
    by (simp_all add: demo_pair_def put_chan_def put_conn_def)
  show ?thesis
    using split_header_hangs[OF s(1) _ _ s(2), of "\<lambda>_. (True, True)" 5 demo_world 99 demo_uaState]
    by (auto simp: Let_def ServerNetworkLayerTCP_add_def)
qed

end
