(* ===== verification/ClientProps.thy ===== *)
theory ClientProps
  imports Client ConnectionProps
begin

text \<open>
  What a client gets for a request: the response, in whatever segments it arrives; and an error
  for a request that follows one whose response came late.
\<close>

section \<open>The network while a response arrives\<close>

text \<open>
  The documented behaviour of a connection on which segments are pending: \<open>recv\<close> returns the next one,
  memory is there, and the clock moves by less than half the timeout.
\<close>

definition segment_source :: "'w network \<Rightarrow> ('w \<Rightarrow> byte list list) \<Rightarrow> int \<Rightarrow> u32 \<Rightarrow> bool" where
  "segment_source N pending start wait \<longleftrightarrow>
     (\<forall>w. reallocs N w \<and> allocs N w) \<and>
     (\<forall>w t seg segs. pending w = seg # segs \<longrightarrow> (\<exists>w'. recv N t w = (GOOD, seg, w') \<and> pending w' = segs)) \<and>
     (\<forall>w. \<exists>t w'. nowMonotonic N w = (t, w') \<and> pending w' = pending w \<and>
        start \<le> t \<and> t < start + int (unat wait div 2) * UA_MSEC_TO_DATETIME)"

lemma source_memory: "segment_source N pending start wait \<Longrightarrow> reallocs N w \<and> allocs N w"
  by (simp add: segment_source_def)

lemma source_recv:
  "segment_source N pending start wait \<Longrightarrow> pending w = seg # segs \<Longrightarrow>
     \<exists>w'. recv N t w = (GOOD, seg, w') \<and> pending w' = segs"
  by (simp add: segment_source_def)

lemma source_clock:
  assumes "segment_source N pending start wait"
  obtains t w' where "nowMonotonic N w = (t, w')" "pending w' = pending w" "start \<le> t"
    "t < start + int (unat wait div 2) * UA_MSEC_TO_DATETIME"
  using assms unfolding segment_source_def by metis

section \<open>Receiving whole chunks\<close>

lemma receive_group:
  assumes src: "segment_source N pending start wait" and max: "start + int (unat wait div 2) * UA_MSEC_TO_DATETIME \<le> maxDate"
    and "pending w = segs @ later" "inc @ concat segs = concat cs @ t" "cs \<noteq> []" "list_all (good_chunk r) cs"
    and "partial_chunk r t" "partial_chunk r inc" "length segs \<le> n"
  shows "\<exists>g cs2 t1 re w' segs'. receive_rounds n N r maxDate ms inc rl w = Done (GOOD, GOOD, t1, concat g, re, w') \<and>
    g \<noteq> [] \<and> cs = g @ cs2 \<and> pending w' = segs' @ later \<and> t1 @ concat segs' = concat cs2 @ t \<and>
    partial_chunk r t1 \<and> length segs' < length segs"
  using assms(3-)
proof (induction segs arbitrary: w inc ms rl n)
  case Nil
  then show ?case using partial_end[of cs t inc r] by simp
next
  case (Cons seg segs)
  then obtain m where n: "n = Suc m" "length segs \<le> m" by (cases n) auto
  obtain w1 where w1: "recv N ms w = (GOOD, seg, w1)" "pending w1 = segs @ later"
    using source_recv[OF src, of w seg "segs @ later" ms] Cons.prems(1) by auto
  have "(inc @ seg) @ concat segs = concat cs @ t" using Cons.prems(2) by simp
  from split_stream[OF this Cons.prems(4,5)] obtain cs1 cs2 t1 where
    s: "cs = cs1 @ cs2" "inc @ seg = concat cs1 @ t1" "t1 @ concat segs = concat cs2 @ t" "partial_chunk r t1" by blast
  have good: "list_all (good_chunk r) cs1" using Cons.prems(4) s(1) by simp
  obtain re where c: "UA_Connection_completeMessages (reallocs N w1) (allocs N w1) r inc seg rl = (GOOD, t1, concat cs1, re)"
    using complete_segment[OF s(2) good s(4), of rl] source_memory[OF src, of w1] by auto
  have ne: "concat cs1 = [] \<longleftrightarrow> cs1 = []" using good good_nonempty by (cases cs1) auto
  show ?case
  proof (cases "cs1 = []")
    case False
    then have "receive_rounds n N r maxDate ms inc rl w = Done (GOOD, GOOD, t1, concat cs1, re, w1)"
      using n w1 c ne by (simp del: concat_eq_Nil_conv)
    then show ?thesis using False s w1(2)
      by (intro exI[of _ cs1] exI[of _ cs2] exI[of _ t1] exI[of _ re] exI[of _ w1] exI[of _ segs]) simp
  next
    case True
    obtain now w2 where w2: "nowMonotonic N w1 = (now, w2)" "pending w2 = pending w1"
      "now < start + int (unat wait div 2) * UA_MSEC_TO_DATETIME"
      using source_clock[OF src] by metis
    then have "\<not> now > maxDate" using max by simp
    then have step: "receive_rounds n N r maxDate ms inc rl w =
        receive_rounds m N r maxDate (word_of_int ((maxDate - now) div UA_MSEC_TO_DATETIME)) t1 re w2"
      using n w1 c w2 True by simp
    have cs2: "cs2 = cs" using True s(1) by simp
    from Cons.IH[where w = w2 and inc = t1 and n = m and rl = re and
        ms = "word_of_int ((maxDate - now) div UA_MSEC_TO_DATETIME)", OF _ s(3)[unfolded cs2] Cons.prems(3-5) s(4) n(2)]
    obtain g cs2' t2 re' w' segs' where
      "receive_rounds m N r maxDate (word_of_int ((maxDate - now) div UA_MSEC_TO_DATETIME)) t1 re w2 =
         Done (GOOD, GOOD, t2, concat g, re', w')"
      "g \<noteq> []" "cs = g @ cs2'" "pending w' = segs' @ later" "t2 @ concat segs' = concat cs2' @ t"
      "partial_chunk r t2" "length segs' < length segs" using w1(2) w2(2) by auto
    then show ?thesis unfolding step
      by (intro exI[of _ g] exI[of _ cs2'] exI[of _ t2] exI[of _ re'] exI[of _ w'] exI[of _ segs']) simp
  qed
qed

text \<open>The timeout that is left for one call is enough, cut to milliseconds as it is.\<close>

lemma enough_time:
  assumes "start \<le> t0" "start \<le> now" "now < start + int (unat wait div 2) * UA_MSEC_TO_DATETIME" "unat wait < 2 ^ 31"
    and "t0 < start + int (unat wait div 2) * UA_MSEC_TO_DATETIME"
  defines "maxDate \<equiv> t0 + uint wait * UA_MSEC_TO_DATETIME"
  shows "now < maxDate" "start \<le> t1 \<Longrightarrow> start + int (unat wait div 2) * UA_MSEC_TO_DATETIME \<le>
    t1 + uint (word_of_int ((maxDate - now) div UA_MSEC_TO_DATETIME) :: u32) * UA_MSEC_TO_DATETIME"
proof -
  let ?k = "int (unat wait div 2)" and ?T = "int (unat wait)"
  have T: "uint wait = ?T" by simp
  have k: "2 * ?k \<le> ?T"
  proof -
    have "int (2 * (unat wait div 2)) \<le> int (unat wait)" unfolding of_nat_le_iff by simp
    then show ?thesis by (simp only: of_nat_mult of_nat_numeral)
  qed
  have pos: "UA_MSEC_TO_DATETIME = 10000" by (simp add: UA_MSEC_TO_DATETIME_def)
  show lt: "now < maxDate" using assms(1,3) k unfolding maxDate_def T pos by linarith
  have lo: "(?T - ?k) * 10000 \<le> maxDate - now" using assms(1-3) unfolding maxDate_def T pos by (simp add: algebra_simps)
  have hi: "maxDate - now < (?T + ?k + 1) * 10000" using assms(2,5) unfolding maxDate_def T pos by (simp add: algebra_simps)
  have q: "?k \<le> (maxDate - now) div 10000" "(maxDate - now) div 10000 < 2 ^ 32"
  proof -
    have "?T - ?k \<le> (maxDate - now) div 10000" using zdiv_mono1[OF lo, of 10000] by simp
    then show "?k \<le> (maxDate - now) div 10000" using k by linarith
    have "(maxDate - now) div 10000 < ?T + ?k + 1" using hi by (simp add: div_less_iff_less_mult)
    moreover have "int (unat wait) < int 2147483648" using assms(4) unfolding of_nat_less_iff by simp
    ultimately have "(maxDate - now) div 10000 < 4294967296" using k by linarith
    then show "(maxDate - now) div 10000 < 2 ^ 32" by simp
  qed
  then have u: "uint (word_of_int ((maxDate - now) div 10000) :: u32) = (maxDate - now) div 10000"
    by (simp add: uint_word_of_int)
  show "start \<le> t1 \<Longrightarrow> start + ?k * UA_MSEC_TO_DATETIME \<le>
    t1 + uint (word_of_int ((maxDate - now) div UA_MSEC_TO_DATETIME) :: u32) * UA_MSEC_TO_DATETIME"
    unfolding pos u using q(1) by linarith
qed

section \<open>Until a response is processed\<close>

lemma after_io_good [simp]: "after_io GOOD cn = cn"
  by (simp add: after_io_def)

lemma client_receive_group:
  assumes src: "segment_source N pending start wait"
    and "pending w = segs @ later" "incompleteMessage (clConnection cl) @ concat segs = concat cs @ t" "cs \<noteq> []"
    and "list_all (good_chunk (recvBufferSize (localConf (clConnection cl)))) cs"
    and "partial_chunk (recvBufferSize (localConf (clConnection cl))) t"
    and "partial_chunk (recvBufferSize (localConf (clConnection cl))) (incompleteMessage (clConnection cl))"
    and "length segs \<le> fuel"
    and time: "\<And>t1. start \<le> t1 \<Longrightarrow> start + int (unat wait div 2) * UA_MSEC_TO_DATETIME \<le> t1 + uint ms * UA_MSEC_TO_DATETIME"
  shows "\<exists>g cs2 t1 w' segs'. client_receive fuel N ms (cl, w) =
      Done (GOOD, concat g, cl\<lparr>clConnection := (clConnection cl)\<lparr>incompleteMessage := t1\<rparr>\<rparr>, w') \<and>
    g \<noteq> [] \<and> cs = g @ cs2 \<and> pending w' = segs' @ later \<and> t1 @ concat segs' = concat cs2 @ t \<and>
    partial_chunk (recvBufferSize (localConf (clConnection cl))) t1 \<and> length segs' < length segs"
proof -
  obtain now w0 where w0: "nowMonotonic N w = (now, w0)" "pending w0 = pending w" "start \<le> now"
    using source_clock[OF src] by metis
  from receive_group[OF src time[OF w0(3)] _ assms(3-8), where w = w0 and ms = ms and rl = False] w0(2) assms(2)
  obtain g cs2 t1 re w' segs' where g: "receive_rounds fuel N (recvBufferSize (localConf (clConnection cl)))
      (now + uint ms * UA_MSEC_TO_DATETIME) ms (incompleteMessage (clConnection cl)) False w0 = Done (GOOD, GOOD, t1, concat g, re, w')"
    "g \<noteq> []" "cs = g @ cs2" "pending w' = segs' @ later" "t1 @ concat segs' = concat cs2 @ t"
    "partial_chunk (recvBufferSize (localConf (clConnection cl))) t1" "length segs' < length segs" by auto
  then show ?thesis
    using w0(1) by (intro exI[of _ g] exI[of _ cs2] exI[of _ t1] exI[of _ w'] exI[of _ segs'])
      (simp add: client_receive_def UA_Connection_receiveChunksBlocking_def)
qed

text \<open>The whole message is there: what the callback makes of it is the result of the call.\<close>

lemma response_loop:
  assumes src: "segment_source N pending start wait" and wait: "unat wait < 2 ^ 31"
    and t0: "start \<le> t0" "t0 < start + int (unat wait div 2) * UA_MSEC_TO_DATETIME"
    and msg: "message_chunks cs req mt UA_CHUNKTYPE_FINAL ks" "expects c cs req" "concat (map scBody ks) \<noteq> []" "length ks \<le> fuel"
    and good: "list_all (good_chunk r) (map chunk_bytes ks)"
    and cb: "\<And>ch. processServiceResponse n rid i (Done (False, resp)) ch mt req (Content (concat (map scBody ks))) =
      (Done (True, resp'), ch)"
    and "pending w = segs @ later" "clChannel cl = receiving c req ks m" "m < length ks"
    and "incompleteMessage (clConnection cl) @ concat segs = concat (map chunk_bytes (drop m ks))"
    and "recvBufferSize (localConf (clConnection cl)) = r" "partial_chunk r (incompleteMessage (clConnection cl))"
    and "length segs < tries" "length segs \<le> fuel"
  shows "\<exists>cl' w'. receive_response tries fuel N n (t0 + uint wait * UA_MSEC_TO_DATETIME) rid i resp (cl, w) = Done (resp', cl', w') \<and>
    clChannel cl' = c\<lparr>receiveSequenceNumber := receiveSequenceNumber c + of_nat (length ks)\<rparr> \<and>
    incompleteMessage (clConnection cl') = [] \<and> concat (pending w') = concat later"
  using assms(11-)
proof (induction tries arbitrary: w segs cl m)
  case (Suc k)
  let ?max = "t0 + uint wait * UA_MSEC_TO_DATETIME" and ?cs = "map chunk_bytes (drop m ks)"
  obtain now w0 where w0: "nowMonotonic N w = (now, w0)" "pending w0 = segs @ later" "start \<le> now"
      "now < start + int (unat wait div 2) * UA_MSEC_TO_DATETIME"
    using source_clock[OF src] Suc.prems(1) by metis
  note time = enough_time[OF t0(1) w0(3,4) wait t0(2)]
  let ?ms = "word_of_int ((?max - now) div UA_MSEC_TO_DATETIME) :: u32"
  have ne: "?cs \<noteq> []" "list_all (good_chunk r) ?cs" "partial_chunk r []"
    using Suc.prems(3) good by (auto simp: list_all_iff partial_chunk_def dest: in_set_dropD)
  have stream: "incompleteMessage (clConnection cl) @ concat segs = concat ?cs @ []" using Suc.prems(4) by simp
  from client_receive_group[OF src w0(2) stream ne(1), where fuel = fuel and ms = ?ms] ne(2,3) Suc.prems(5,6,8) time(2)
  obtain g cs2 t1 w1 segs' where g: "client_receive fuel N ?ms (cl, w0) =
      Done (GOOD, concat g, cl\<lparr>clConnection := (clConnection cl)\<lparr>incompleteMessage := t1\<rparr>\<rparr>, w1)"
    "g \<noteq> []" "?cs = g @ cs2" "pending w1 = segs' @ later" "t1 @ concat segs' = concat cs2"
    "partial_chunk r t1" "length segs' < length segs" by auto
  let ?cl1 = "cl\<lparr>clConnection := (clConnection cl)\<lparr>incompleteMessage := t1\<rparr>\<rparr>" and ?g = "take (length g) (drop m ks)"
  have lg: "length ?g = length g" using arg_cong[OF g(3), of length] by simp
  have gb: "concat g = group_bytes ?g" "cs2 = map chunk_bytes (drop (m + length g) ks)"
  proof -
    have "g = take (length g) ?cs" "cs2 = drop (length g) ?cs" using g(3) by simp_all
    then show "concat g = group_bytes ?g" "cs2 = map chunk_bytes (drop (m + length g) ks)"
      by (simp_all add: group_bytes_def take_map drop_map add.commute)
  qed
  have step: "receive_response (Suc k) fuel N n ?max rid i resp (cl, w) =
      bind (UA_SecureChannel_processChunks fuel (processServiceResponse n rid i) (group_bytes ?g)
          (receiving c req ks m) (Done (False, resp)))
        (\<lambda>(rv, channel, r). bind r (\<lambda>(processed, response').
           if processed then Done (response', ?cl1\<lparr>clChannel := channel\<rparr>, w1)
           else receive_response k fuel N n ?max rid i response' (?cl1\<lparr>clChannel := channel\<rparr>, w1)))"
    using w0(1) time(1) g(1) gb(1) Suc.prems(2) by (simp add: Let_def)
  show ?case
  proof (cases "m + length g = length ks")
    case True
    then have "?g = drop m ks" by (intro take_all) simp
    moreover have "length ?g \<le> fuel" using lg True msg(4) by simp
    ultimately have "UA_SecureChannel_processChunks fuel (processServiceResponse n rid i) (group_bytes ?g)
          (receiving c req ks m) (Done (False, resp)) =
        Done (GOOD, c\<lparr>receiveSequenceNumber := receiveSequenceNumber c + of_nat (length ks)\<rparr>, Done (True, resp'))"
      using process_last_group[OF msg(1,2) Suc.prems(3), of ?g fuel "processServiceResponse n rid i" "Done (False, resp)"] msg(3)
      by (simp add: received_def cb Let_def del: concat_eq_Nil_conv)
    moreover have "t1 = []" "concat segs' = []" using g(5) gb(2) True by simp_all
    ultimately show ?thesis unfolding step using g(4) by simp
  next
    case False
    then have lt: "m + length g < length ks" using arg_cong[OF g(3), of length] Suc.prems(3) by simp
    have "UA_SecureChannel_processChunks fuel (processServiceResponse n rid i) (group_bytes ?g)
          (receiving c req ks m) (Done (False, resp)) = Done (GOOD, receiving c req ks (m + length g), Done (False, resp))"
      using process_middle_group[OF msg(1,2), of m ?g fuel "processServiceResponse n rid i" "Done (False, resp)"]
        lt lg g(2) msg(4) by simp
    then have "receive_response (Suc k) fuel N n ?max rid i resp (cl, w) =
        receive_response k fuel N n ?max rid i resp (?cl1\<lparr>clChannel := receiving c req ks (m + length g)\<rparr>, w1)"
      unfolding step by simp
    then show ?thesis
      using Suc.IH[where w = w1 and segs = segs' and m = "m + length g" and cl = "?cl1\<lparr>clChannel := receiving c req ks (m + length g)\<rparr>"]
        g(4-7) gb(2) lt Suc.prems(5,7,8) by simp
  qed
qed simp

section \<open>Responses\<close>

lemma decode_mems:
  assumes "wire_mems UA_TYPES n own (members (own ! i)) vs bs"
    and "drop off src = bs @ suf" "off \<le> length src"
  shows "UA_decodeBinary UA_TYPES n own (own ! i) src off = Done (GOOD, Some (vs, off + length bs))"
proof -
  note r = oreadsD[OF wire_reads(2)[OF assms(1)], of suf]
  have "length src = off + length bs + length suf"
    using arg_cong[OF assms(2), of length] assms(3) by simp
  then show ?thesis
    using r assms(2,3) by (simp add: UA_decodeBinary_def UA_decodeBinaryInternal_def)
qed

lemma decode_type_id:
  "decode_at UA_TYPES UA_TYPES_NODEID (nodeid_bytes 0 (encoding_id d) @ bs) 0 =
     Done (GOOD, Some ([VNode (encoding_id d)], length (nodeid_bytes 0 (encoding_id d))))"
proof -
  have m: "members (UA_TYPES ! 16) = [one 16]" by (simp add: item_entries entry_def NodeId_members_def)
  have "wire UA_TYPES (Suc (Suc (Suc (Suc (Suc 0))))) UA_TYPES (UA_TYPES ! 16) (VNode (encoding_id d))
      (nodeid_bytes 0 (encoding_id d))"
    by (rule leaf[where k = KNodeId]) (simp_all add: item_entries entry_def desc_ok_def nodeid_ok_def encoding_id_def)
  then have "wire_mems UA_TYPES (Suc (Suc (Suc (Suc (Suc 0))))) UA_TYPES (members (UA_TYPES ! 16)) [VNode (encoding_id d)]
      (nodeid_bytes 0 (encoding_id d) @ [])"
    unfolding m by (intro mems_one_ua mems_nil) simp
  from decode_at_mems[OF this, of 0 "nodeid_bytes 0 (encoding_id d) @ bs" bs] show ?thesis by simp
qed

lemma encoding_id_equal: "UA_NodeId_equal (encoding_id d) (encoding_id d)"
  by (rule UA_NodeId_equal_refl) (simp add: encoding_id_def)

lemma response_decoded:
  assumes "wire_mems UA_TYPES n UA_TYPES (members (UA_TYPES ! i)) vs bs"
  shows "processServiceResponse n req i (Done (False, resp)) ch UA_MESSAGETYPE_MSG req
      (Content (nodeid_bytes 0 (encoding_id (UA_TYPES ! i)) @ bs)) = (Done (True, VStruct vs), ch)"
  using decode_mems[OF assms, of "length (nodeid_bytes 0 (encoding_id (UA_TYPES ! i)))"
      "nodeid_bytes 0 (encoding_id (UA_TYPES ! i)) @ bs" "[]"]
  by (simp add: processServiceResponse_def decode_type_id encoding_id_equal finish_response_def)

lemma response_refused:
  "req \<noteq> rid \<Longrightarrow> processServiceResponse n rid i (Done (False, resp)) ch UA_MESSAGETYPE_MSG req (Content msg) =
     (Done (True, set_result BADINTERNALERROR resp), ch)"
  by (simp add: processServiceResponse_def finish_response_def)

lemma good_message:
  assumes "message_chunks cs req mt UA_CHUNKTYPE_FINAL ks" "\<forall>k\<in>set ks. length (chunk_bytes k) \<le> unat r"
  shows "list_all (good_chunk r) (map chunk_bytes ks)"
  unfolding list_all_iff set_map
proof (intro ballI, elim imageE)
  fix x k
  assume k: "x = chunk_bytes k" "k \<in> set ks"
  then obtain m where m: "m < length ks" "ks ! m = k" by (auto simp: in_set_conv_nth)
  have mt: "mt = UA_MESSAGETYPE_MSG \<or> mt = UA_MESSAGETYPE_CLO" using assms(1) by (auto simp: message_chunks_def)
  from message_chunks_nth(1)[OF assms(1) m(1)] obtain t where "chunk_ok cs req m (mt + t) k"
      "t \<in> {UA_CHUNKTYPE_INTERMEDIATE, UA_CHUNKTYPE_FINAL, UA_CHUNKTYPE_ABORT}"
    unfolding m(2) by (cases "Suc m = length ks") simp_all
  from good_sent_chunk[OF this(1) mt this(2)] show "good_chunk r x" using assms(2) k by simp
qed

lemma call_returns:
  assumes src: "segment_source N pending start (cfgTimeout (clConfig cl))" "unat (cfgTimeout (clConfig cl)) < 2 ^ 31"
    and msg: "message_chunks cs req UA_MESSAGETYPE_MSG UA_CHUNKTYPE_FINAL ks" "expects (clChannel cl) cs req"
    and sizes: "\<forall>k\<in>set ks. length (chunk_bytes k) \<le> unat (recvBufferSize (localConf (clConnection cl)))"
    and arrives: "incompleteMessage (clConnection cl) = []" "pending w = segs @ later" "concat segs = concat (map chunk_bytes ks)"
    and fuel: "length ks \<le> fuel" "length segs < fuel" and ne: "concat (map scBody ks) \<noteq> []"
    and cb: "\<And>ch. processServiceResponse n rid i (Done (False, UA_init n UA_TYPES (UA_TYPES ! i))) ch UA_MESSAGETYPE_MSG req
      (Content (concat (map scBody ks))) = (Done (True, resp'), ch)"
  shows "\<exists>cl' w'. ZUTH_receiveUAClientServiceResponse fuel N n i rid (cl, w) = Done (resp', cl', w') \<and>
    clChannel cl' = (clChannel cl)\<lparr>receiveSequenceNumber := receiveSequenceNumber (clChannel cl) + of_nat (length ks)\<rparr> \<and>
    incompleteMessage (clConnection cl') = [] \<and> concat (pending w') = concat later"
proof -
  obtain t0 w0 where w0: "nowMonotonic N w = (t0, w0)" "pending w0 = pending w" "start \<le> t0"
      "t0 < start + int (unat (cfgTimeout (clConfig cl)) div 2) * UA_MSEC_TO_DATETIME"
    using source_clock[OF src(1)] by metis
  have "0 < length ks" using msg(1) by (simp add: message_chunks_def)
  from response_loop[OF src w0(3,4) msg ne fuel(1) good_message[OF msg(1) sizes] cb, where w = w0 and segs = segs and m = 0 and cl = cl]
    this arrives w0(2) fuel(2)
  show ?thesis
    by (simp add: ZUTH_receiveUAClientServiceResponse_def w0(1) receiving_0 partial_chunk_def)
qed

section \<open>A response as an example\<close>

text \<open>A connection that holds segments, in a world where the clock stands still.\<close>

definition demo_network :: "byte list list network" where
  "demo_network = \<lparr> connectionFunc = (\<lambda>conf url w. (connection_zero, w)),
     recv = (\<lambda>t w. case w of [] \<Rightarrow> (BADCONNECTIONCLOSED, [], []) | seg # segs \<Rightarrow> (GOOD, seg, segs)),
     sendBytes = (\<lambda>b w. (GOOD, w)), closeSocket = (\<lambda>w. w), nowMonotonic = (\<lambda>w. (0, w)), dateTimeNow = (\<lambda>w. (0, w)),
     reallocs = (\<lambda>w. True), allocs = (\<lambda>w. True) \<rparr>"

lemma demo_source: "0 < unat wait div 2 \<Longrightarrow> segment_source demo_network (\<lambda>w. w) 0 wait"
  by (simp add: segment_source_def demo_network_def UA_MSEC_TO_DATETIME_def)

definition demo_client :: client where
  "demo_client = (UA_Client_init UA_ClientConfig_standard)\<lparr>clConnection := connection_zero\<lparr>localConf := UA_ConnectionConfig_standard\<rparr>\<rparr>"

definition demo_response :: "uval list" where
  "demo_response = [VStruct [V64 0, V32 13, V32 0, VDiag None None None None None None None, VArray None,
     VExtEnc 0 (UA_NODEID_NUMERIC 0 2258) None]]"

definition demo_response_bytes :: "byte list" where
  "demo_response_bytes = UA_encode64 0 @ [13, 0, 0, 0] @ [0, 0, 0, 0] @ [0] @ [255, 255, 255, 255] @ ([1, 0, 0xD2, 8] @ [0])"

lemma response_entries:
  "UA_TYPES ! UA_TYPES_CLOSESESSIONRESPONSE = entry 474 None 136 False 476 CloseSessionResponse_members"
  "UA_TYPES ! UA_TYPES_RESPONSEHEADER = entry 392 None 136 False 394 ResponseHeader_members"
  "UA_TYPES ! UA_TYPES_STATUSCODE = entry 19 (Some KStatusCode) 4 True 0 StatusCode_members"
  "UA_TYPES ! UA_TYPES_DIAGNOSTICINFO = entry 25 (Some KDiagnosticInfo) 56 False 0 DiagnosticInfo_members"
  by (simp_all add: UA_TYPES_def)

lemma demo_response_wire:
  "wire_mems UA_TYPES 5 UA_TYPES (members (UA_TYPES ! UA_TYPES_CLOSESESSIONRESPONSE)) demo_response demo_response_bytes"
proof -
  have m: "members (UA_TYPES ! UA_TYPES_CLOSESESSIONRESPONSE) = [one 71]"
    "members (UA_TYPES ! UA_TYPES_RESPONSEHEADER) = [one 12, one 6, one 18, one 24, many 11, one 21]"
    by (simp_all add: response_entries entry_def CloseSessionResponse_members_def ResponseHeader_members_def)
  have sc: "wire UA_TYPES (Suc n) UA_TYPES (UA_TYPES ! 18) (V32 0) [0, 0, 0, 0]" for n
    by (rule leaf[where k = KStatusCode]) (simp_all add: response_entries entry_def desc_ok_def UA_encode32.simps)
  have dg: "wire UA_TYPES (Suc n) UA_TYPES (UA_TYPES ! 24) (VDiag None None None None None None None) [0]" for n
    using diag[where d = "UA_TYPES ! 24" and info = None and sid = None and nsu = None and lt = None and loc = None]
    by (simp add: response_entries entry_def bit_if_def opt_bytes_def)
  have "wire_mems UA_TYPES (Suc (Suc (Suc (Suc 0)))) UA_TYPES [many 11, one 21] [VArray None, VExtEnc 0 (UA_NODEID_NUMERIC 0 2258) None]
      (UA_encode32 (- 1) @ ([1, 0, 0xD2, 8] @ [0]) @ [])"
    by (rule mems_array[OF _ _ array_null mems_one_ua[OF _ request_leaves(4) mems_nil]])
      (simp_all add: many_def member_type_def type_at_def)
  then have "wire UA_TYPES (Suc (Suc (Suc (Suc (Suc 0))))) UA_TYPES (UA_TYPES ! 71) (VStruct [V64 0, V32 13, V32 0,
      VDiag None None None None None None None, VArray None, VExtEnc 0 (UA_NODEID_NUMERIC 0 2258) None])
      (UA_encode64 0 @ [13, 0, 0, 0] @ [0, 0, 0, 0] @ [0] @ (UA_encode32 (- 1) @ ([1, 0, 0xD2, 8] @ [0]) @ []))"
    by (intro struct, simp add: response_entries(2) entry_def, unfold m,
        intro mems_one_ua request_leaves item_leaves sc dg) simp_all
  from mems_one_ua[OF _ this mems_nil, of UA_TYPES]
  have r: "wire_mems UA_TYPES (Suc (Suc (Suc (Suc (Suc 0))))) UA_TYPES [one 71] demo_response demo_response_bytes"
    unfolding demo_response_def demo_response_bytes_def small_bytes by (simp only: append_assoc append_Nil2)
  have "(5 :: nat) = Suc (Suc (Suc (Suc (Suc 0))))" by simp
  with r show ?thesis by (simp only: m)
qed

definition demo_answer :: "u32 \<Rightarrow> sentChunk" where
  "demo_answer req = (let body = nodeid_bytes 0 (encoding_id (UA_TYPES ! UA_TYPES_CLOSESESSIONRESPONSE)) @ demo_response_bytes
     in \<lparr> scChannel = 0, scRequest = req,
       scHead = header_bytes (UA_MESSAGETYPE_MSG + UA_CHUNKTYPE_FINAL) (of_nat (HEADER_LENGTH + length body)) 0 @
           security_bytes 0 1 req, scBody = body \<rparr>)"

lemma demo_chunks:
  "message_chunks (clChannel demo_client) req UA_MESSAGETYPE_MSG UA_CHUNKTYPE_FINAL [demo_answer req]"
  "expects (clChannel demo_client) (clChannel demo_client) req" "incompleteMessage (clConnection demo_client) = []"
  "\<forall>k\<in>set [demo_answer req]. length (chunk_bytes k) \<le> unat (recvBufferSize (localConf (clConnection demo_client)))"
  "scBody (demo_answer req) = nodeid_bytes 0 (encoding_id (UA_TYPES ! UA_TYPES_CLOSESESSIONRESPONSE)) @ demo_response_bytes"
  "cfgTimeout (clConfig demo_client) = 5000"
proof -
  have l: "length (nodeid_bytes 0 (encoding_id (UA_TYPES ! UA_TYPES_CLOSESESSIONRESPONSE))) \<le> 7"
    by (rule nodeid_numeric_length)
  have b: "length demo_response_bytes = 26" by (simp add: demo_response_bytes_def)
  have c: "clChannel demo_client = UA_SecureChannel_init\<lparr>cconnection := Some 0\<rparr>"
    by (simp add: demo_client_def UA_Client_init_def)
  have ok: "chunk_ok (clChannel demo_client) req 0 (UA_MESSAGETYPE_MSG + UA_CHUNKTYPE_FINAL) (demo_answer req)"
    by (simp add: chunk_ok_def c demo_answer_def Let_def UA_SecureChannel_init_def token_init_def)
  show "message_chunks (clChannel demo_client) req UA_MESSAGETYPE_MSG UA_CHUNKTYPE_FINAL [demo_answer req]"
    using ok l b by (simp add: message_chunks_def chunks_ok_def demo_answer_def Let_def)
  show "expects (clChannel demo_client) (clChannel demo_client) req"
    by (simp add: expects_def c UA_SecureChannel_init_def)
  show "incompleteMessage (clConnection demo_client) = []" by (simp add: demo_client_def connection_zero_def)
  show "\<forall>k\<in>set [demo_answer req]. length (chunk_bytes k) \<le> unat (recvBufferSize (localConf (clConnection demo_client)))"
    using chunk_ok_length[OF ok] l b
    by (simp add: demo_answer_def Let_def demo_client_def UA_ConnectionConfig_standard_def)
  show "scBody (demo_answer req) = nodeid_bytes 0 (encoding_id (UA_TYPES ! UA_TYPES_CLOSESESSIONRESPONSE)) @ demo_response_bytes"
    by (simp add: demo_answer_def Let_def)
  show "cfgTimeout (clConfig demo_client) = 5000"
    by (simp add: demo_client_def UA_Client_init_def UA_ClientConfig_standard_def)
qed

section \<open>Properties\<close>

text \<open>
  C6. The client gets the response: when the chunks of the response with the identifier of the request
  arrive on its connection in time, cut into whatever segments, the call returns the value that was
  encoded, the channel has counted its chunks and what comes behind them is not touched.
\<close>

theorem response_received:
  assumes "segment_source N pending start (cfgTimeout (clConfig cl))" "unat (cfgTimeout (clConfig cl)) < 2 ^ 31"
    and "message_chunks cs req UA_MESSAGETYPE_MSG UA_CHUNKTYPE_FINAL ks" "expects (clChannel cl) cs req"
    and "concat (map scBody ks) = nodeid_bytes 0 (encoding_id (UA_TYPES ! i)) @ bs"
    and "wire_mems UA_TYPES n UA_TYPES (members (UA_TYPES ! i)) vs bs"
    and "\<forall>k\<in>set ks. length (chunk_bytes k) \<le> unat (recvBufferSize (localConf (clConnection cl)))"
    and "incompleteMessage (clConnection cl) = []" "pending w = segs @ later" "concat segs = concat (map chunk_bytes ks)"
    and "length ks \<le> fuel" "length segs < fuel"
  shows "\<exists>cl' w'. ZUTH_receiveUAClientServiceResponse fuel N n i req (cl, w) = Done (VStruct vs, cl', w') \<and>
    clChannel cl' = (clChannel cl)\<lparr>receiveSequenceNumber := receiveSequenceNumber (clChannel cl) + of_nat (length ks)\<rparr> \<and>
    incompleteMessage (clConnection cl') = [] \<and> concat (pending w') = concat later"
proof -
  have "nodeid_bytes 0 (encoding_id (UA_TYPES ! i)) \<noteq> []"
    by (simp add: nodeid_bytes_defs encoding_id_def)
  then have "concat (map scBody ks) \<noteq> []" using assms(5) by simp
  from call_returns[OF assms(1-4,7-12) this] response_decoded[OF assms(6)] show ?thesis by (simp only: assms(5))
qed

theorem response_received_witness:
  "\<exists>cl' w'. ZUTH_receiveUAClientServiceResponse 9 demo_network 5 UA_TYPES_CLOSESESSIONRESPONSE 7
     (demo_client, [take 20 (chunk_bytes (demo_answer 7)), drop 20 (chunk_bytes (demo_answer 7))]) =
     Done (VStruct demo_response, cl', w')"
proof -
  have "segment_source demo_network (\<lambda>w. w) 0 (cfgTimeout (clConfig demo_client))"
    "unat (cfgTimeout (clConfig demo_client)) < 2 ^ 31"
    using demo_source[of 5000] by (simp_all add: demo_chunks(6))
  from response_received[where req = 7 and i = UA_TYPES_CLOSESESSIONRESPONSE and fuel = 9 and later = "[]" and
      segs = "[take 20 (chunk_bytes (demo_answer 7)), drop 20 (chunk_bytes (demo_answer 7))]" and
      w = "[take 20 (chunk_bytes (demo_answer 7)), drop 20 (chunk_bytes (demo_answer 7))]",
      OF this demo_chunks(1)[of 7] demo_chunks(2) _ demo_response_wire demo_chunks(4,3)] demo_chunks(5)[of 7]
  show ?thesis by auto
qed

text \<open>
  C33. One late response spoils the next call: when the response to an earlier request, which the client
  has given up, arrives for a request, the call ends with \<open>BADINTERNALERROR\<close>, and the response it
  waited for is left for the call after it.
\<close>

theorem late_response_fails_next:
  assumes "segment_source N pending start (cfgTimeout (clConfig cl))" "unat (cfgTimeout (clConfig cl)) < 2 ^ 31"
    and "message_chunks cs old UA_MESSAGETYPE_MSG UA_CHUNKTYPE_FINAL ks" "expects (clChannel cl) cs old" "old \<noteq> req"
    and "concat (map scBody ks) \<noteq> []"
    and "\<forall>k\<in>set ks. length (chunk_bytes k) \<le> unat (recvBufferSize (localConf (clConnection cl)))"
    and "incompleteMessage (clConnection cl) = []" "pending w = segs @ later" "concat segs = concat (map chunk_bytes ks)"
    and "length ks \<le> fuel" "length segs < fuel"
  shows "\<exists>cl' w'. ZUTH_receiveUAClientServiceResponse fuel N n i req (cl, w) =
      Done (set_result BADINTERNALERROR (UA_init n UA_TYPES (UA_TYPES ! i)), cl', w') \<and>
    clChannel cl' = (clChannel cl)\<lparr>receiveSequenceNumber := receiveSequenceNumber (clChannel cl) + of_nat (length ks)\<rparr> \<and>
    incompleteMessage (clConnection cl') = [] \<and> concat (pending w') = concat later"
  using call_returns[OF assms(1-4,7-12,6) response_refused[OF assms(5)]] .

theorem late_response_fails_next_witness:
  "\<exists>cl' w'. ZUTH_receiveUAClientServiceResponse 9 demo_network 5 UA_TYPES_CLOSESESSIONRESPONSE 8
     (demo_client, [chunk_bytes (demo_answer 7), [1, 2, 3]]) =
     Done (set_result BADINTERNALERROR (UA_init 5 UA_TYPES (UA_TYPES ! UA_TYPES_CLOSESESSIONRESPONSE)), cl', w') \<and>
     concat w' = [1, 2, 3]"
proof -
  have s: "segment_source demo_network (\<lambda>w. w) 0 (cfgTimeout (clConfig demo_client))"
    "unat (cfgTimeout (clConfig demo_client)) < 2 ^ 31"
    using demo_source[of 5000] by (simp_all add: demo_chunks(6))
  have "concat (map scBody [demo_answer 7]) \<noteq> []" by (simp add: demo_chunks(5) demo_response_bytes_def)
  from late_response_fails_next[where i = UA_TYPES_CLOSESESSIONRESPONSE and n = 5 and req = 8 and fuel = 9 and
      later = "[[1, 2, 3]]" and segs = "[chunk_bytes (demo_answer 7)]" and w = "[chunk_bytes (demo_answer 7), [1, 2, 3]]",
      OF s demo_chunks(1,2) _ this demo_chunks(4,3)]
  show ?thesis by auto
qed

end
