(* ===== verification/NodeStore.thy ===== *)
theory NodeStore
  imports Managers
begin

text \<open>
  The store of the address space (section \<open>ua_nodestore.c\<close> of \<open>open62541.c\<close>): a hash map with open
  addressing and double hashing, whose removed entries are marked by tombstones.  The entries are
  objects in a heap, since the copies that clients edit remember the entry they were made from.
  The search loops have fuel; theory \<open>NodeStoreProps\<close> says when they end.
\<close>

section \<open>State\<close>

datatype nodeClass =
    UA_NODECLASS_UNSPECIFIED
  | UA_NODECLASS_OBJECT
  | UA_NODECLASS_VARIABLE
  | UA_NODECLASS_METHOD
  | UA_NODECLASS_OBJECTTYPE
  | UA_NODECLASS_VARIABLETYPE
  | UA_NODECLASS_REFERENCETYPE
  | UA_NODECLASS_DATATYPE
  | UA_NODECLASS_VIEW

text \<open>The attributes and references of a node are its content.\<close>

record 'a node =
  nodeId :: nodeid
  nodeClass :: nodeClass
  nodeContent :: 'a

text \<open>The entry of a node: the entry that it is a copy of, and the node.\<close>

record 'a nodeEntry =
  orig :: "nat option"
  enode :: "'a node"

datatype slot = Free | Tombstone | Used nat

record 'a nodeStore =
  entries :: "slot list"
  nsSize :: u32
  nsCount :: u32
  sizePrimeIndex :: nat
  nodeHeap :: "nat \<Rightarrow> 'a nodeEntry option"

abbreviation UA_NODESTORE_MINSIZE :: u32 where "UA_NODESTORE_MINSIZE \<equiv> 64"
abbreviation BADNODEIDEXISTS :: status where "BADNODEIDEXISTS \<equiv> 0x805e0000"

definition nodestore_primes :: "u32 list" where
  "nodestore_primes = [
    7,         13,         31,         61,         127,         251,
    509,       1021,       2039,       4093,       8191,        16381,
    32749,     65521,      131071,     262139,     524287,      1048573,
    2097143,   4194301,    8388593,    16777213,   33554393,    67108859,
    134217689, 268435399,  536870909,  1073741789, 2147483647,  4294967291]"

definition mod1 :: "u32 \<Rightarrow> u32 \<Rightarrow> u32" where
  "mod1 h sz = h mod sz"

definition mod2 :: "u32 \<Rightarrow> u32 \<Rightarrow> u32" where
  "mod2 h sz = 1 + h mod (sz - 2)"

text \<open>The first prime that is not smaller; the loop starts with \<open>low \<le> high\<close> and keeps it.\<close>

function prime_search :: "u32 \<Rightarrow> nat \<Rightarrow> nat \<Rightarrow> nat" where
  "prime_search n low high =
     (if low < high then
        let mid = low + (high - low) div 2
        in if n > nodestore_primes ! mid then prime_search n (mid + 1) high else prime_search n low mid
      else low)"
  by pat_completeness auto
termination
  by (relation "measure (\<lambda>(n, low, high). high - low)") auto

declare prime_search.simps [simp del]

definition higher_prime_index :: "u32 \<Rightarrow> nat" where
  "higher_prime_index n = prime_search n 0 (length nodestore_primes)"

section \<open>Entries\<close>

text \<open>Whether memory is there and its address are arguments; the content of a new node is zero.\<close>

definition instantiateEntry ::
  "bool \<Rightarrow> nat \<Rightarrow> (nodeClass \<Rightarrow> 'a) \<Rightarrow> nodeClass \<Rightarrow> 'a nodeStore \<Rightarrow> nat option \<times> 'a nodeStore" where
  "instantiateEntry alloc a zero cls st =
     (if cls = UA_NODECLASS_UNSPECIFIED \<or> \<not> alloc then (None, st)
      else (Some a, st\<lparr>nodeHeap := (nodeHeap st)(a \<mapsto>
        \<lparr> orig = None, enode = \<lparr> nodeId = UA_NODEID_NULL, nodeClass = cls, nodeContent = zero cls \<rparr> \<rparr>)\<rparr>))"

definition deleteEntry :: "nat \<Rightarrow> 'a nodeStore \<Rightarrow> 'a nodeStore outcome" where
  "deleteEntry a st = bind (deref (nodeHeap st) a) (\<lambda>_. Done (st\<lparr>nodeHeap := (nodeHeap st)(a := None)\<rparr>))"

section \<open>Searching\<close>

definition advance :: "u32 \<Rightarrow> u32 \<Rightarrow> u32 \<Rightarrow> u32" where
  "advance sz hash2 idx = (let i = idx + hash2 in if i \<ge> sz then i - sz else i)"

text \<open>
  The loop of both searches.  What is done with an entry: go on, or return this slot or \<open>NULL\<close>.
\<close>

fun probe :: "nat \<Rightarrow> (slot \<Rightarrow> bool option outcome) \<Rightarrow> slot list \<Rightarrow> u32 \<Rightarrow> u32 \<Rightarrow> u32 \<Rightarrow> nat option outcome" where
  "probe 0 visit es sz hash2 idx = OutOfFuel"
| "probe (Suc n) visit es sz hash2 idx =
     (if length es \<le> unat idx then Undefined
      else bind (visit (es ! unat idx)) (\<lambda>r. case r of
          Some found \<Rightarrow> Done (if found then Some (unat idx) else None)
        | None \<Rightarrow> probe n visit es sz hash2 (advance sz hash2 idx)))"

definition visit_find :: "(nat \<Rightarrow> 'a nodeEntry option) \<Rightarrow> nodeid \<Rightarrow> slot \<Rightarrow> bool option outcome" where
  "visit_find heap i s = (case s of
       Free \<Rightarrow> Done (Some False)
     | Tombstone \<Rightarrow> Done None
     | Used a \<Rightarrow> bind (deref heap a) (\<lambda>e. Done (if UA_NodeId_equal (nodeId (enode e)) i then Some True else None)))"

definition findNode :: "nat \<Rightarrow> 'a nodeStore \<Rightarrow> nodeid \<Rightarrow> nat option outcome" where
  "findNode fuel st i =
     (let h = UA_NodeId_hash i
      in probe fuel (visit_find (nodeHeap st) i) (entries st) (nsSize st) (mod2 h (nsSize st)) (mod1 h (nsSize st)))"

definition visit_slot :: "(nat \<Rightarrow> 'a nodeEntry option) \<Rightarrow> nodeid \<Rightarrow> slot \<Rightarrow> bool option outcome" where
  "visit_slot heap i s = (case s of
       Used a \<Rightarrow> bind (deref heap a) (\<lambda>e. Done (if UA_NodeId_equal (nodeId (enode e)) i then Some False else None))
     | _ \<Rightarrow> Done (Some True))"

definition findSlot :: "nat \<Rightarrow> 'a nodeStore \<Rightarrow> nodeid \<Rightarrow> nat option outcome" where
  "findSlot fuel st i =
     (let h = UA_NodeId_hash i
      in probe fuel (visit_slot (nodeHeap st) i) (entries st) (nsSize st) (mod2 h (nsSize st)) (mod1 h (nsSize st)))"

section \<open>Growing and shrinking\<close>

text \<open>Every entry gets its position in the new table; a slot that is not found is written to all the same.\<close>

fun reinsert :: "nat \<Rightarrow> nat \<Rightarrow> slot list \<Rightarrow> nat \<Rightarrow> 'a nodeStore \<Rightarrow> 'a nodeStore outcome" where
  "reinsert fuel cnt [] j st = Done st"
| "reinsert fuel cnt (s # ss) j st =
     (if j < cnt then
        (case s of
           Used a \<Rightarrow> bind (deref (nodeHeap st) a) (\<lambda>e. bind (findSlot fuel st (nodeId (enode e))) (\<lambda>r. case r of
               None \<Rightarrow> Undefined
             | Some i \<Rightarrow> reinsert fuel cnt ss (j + 1) (st\<lparr>entries := (entries st)[i := Used a]\<rparr>)))
         | _ \<Rightarrow> reinsert fuel cnt ss j st)
      else Done st)"

definition expand :: "nat \<Rightarrow> bool \<Rightarrow> 'a nodeStore \<Rightarrow> (status \<times> 'a nodeStore) outcome" where
  "expand fuel alloc st =
     (let osize = nsSize st; cnt = nsCount st
      in if cnt * 2 < osize \<and> (cnt * 8 > osize \<or> osize \<le> UA_NODESTORE_MINSIZE) then Done (GOOD, st)
         else
           let nindex = higher_prime_index (cnt * 2)
           in if length nodestore_primes \<le> nindex then Undefined
              else if \<not> alloc then Done (BADOUTOFMEMORY, st)
              else bind (reinsert fuel (unat cnt) (entries st) 0
                     (st\<lparr>entries := replicate (unat (nodestore_primes ! nindex)) Free, nsSize := nodestore_primes ! nindex,
                         sizePrimeIndex := nindex\<rparr>))
                   (\<lambda>st'. Done (GOOD, st')))"

section \<open>Exported functions\<close>

definition UA_NodeStore_new :: "bool \<Rightarrow> bool \<Rightarrow> (nat \<Rightarrow> 'a nodeEntry option) \<Rightarrow> 'a nodeStore option" where
  "UA_NodeStore_new alloc1 alloc2 heap =
     (if alloc1 \<and> alloc2 then
        let i = higher_prime_index UA_NODESTORE_MINSIZE
        in Some \<lparr> entries = replicate (unat (nodestore_primes ! i)) Free, nsSize = nodestore_primes ! i, nsCount = 0, sizePrimeIndex = i,
                  nodeHeap = heap \<rparr>
      else None)"

fun delete_entries :: "slot list \<Rightarrow> 'a nodeStore \<Rightarrow> 'a nodeStore outcome" where
  "delete_entries [] st = Done st"
| "delete_entries (s # ss) st = (case s of
       Used a \<Rightarrow> bind (deleteEntry a st) (delete_entries ss)
     | _ \<Rightarrow> delete_entries ss st)"

definition UA_NodeStore_delete :: "'a nodeStore \<Rightarrow> (nat \<Rightarrow> 'a nodeEntry option) outcome" where
  "UA_NodeStore_delete st = bind (delete_entries (entries st) st) (\<lambda>st'. Done (nodeHeap st'))"

definition UA_NodeStore_newNode ::
  "bool \<Rightarrow> nat \<Rightarrow> (nodeClass \<Rightarrow> 'a) \<Rightarrow> nodeClass \<Rightarrow> 'a nodeStore \<Rightarrow> nat option \<times> 'a nodeStore" where
  "UA_NodeStore_newNode alloc a zero cls st = instantiateEntry alloc a zero cls st"

definition UA_NodeStore_deleteNode :: "nat \<Rightarrow> 'a nodeStore \<Rightarrow> 'a nodeStore outcome" where
  "UA_NodeStore_deleteNode a st = deleteEntry a st"

text \<open>
  Writing the numeric member of the identifier union.  In a string it is the length, over a data
  pointer that points to no bytes, which the hash function then reads.
\<close>

definition set_numeric :: "u32 \<Rightarrow> nodeid \<Rightarrow> nodeid outcome" where
  "set_numeric i nid = (case ident nid of
       Numeric _ \<Rightarrow> Done (nid\<lparr>ident := Numeric i\<rparr>)
     | GuidId g \<Rightarrow> Done (nid\<lparr>ident := GuidId (g\<lparr>gdata1 := i\<rparr>)\<rparr>)
     | _ \<Rightarrow> Undefined)"

fun free_identifier :: "nat \<Rightarrow> nat \<Rightarrow> 'a nodeStore \<Rightarrow> nodeid \<Rightarrow> u32 \<Rightarrow> u32 \<Rightarrow> (nodeid \<times> nat) outcome" where
  "free_identifier 0 fuel st nid increase identifier = OutOfFuel"
| "free_identifier (Suc n) fuel st nid increase identifier =
     bind (set_numeric identifier nid) (\<lambda>nid'. bind (findSlot fuel st nid') (\<lambda>r. case r of
         Some i \<Rightarrow> Done (nid', i)
       | None \<Rightarrow> free_identifier n fuel st nid increase (advance (nsSize st) increase identifier)))"

definition put_node :: "nat \<Rightarrow> nat \<Rightarrow> 'a nodeEntry \<Rightarrow> 'a nodeStore \<Rightarrow> 'a nodeStore" where
  "put_node i a e st = st\<lparr>entries := (entries st)[i := Used a], nsCount := nsCount st + 1,
     nodeHeap := (nodeHeap st)(a \<mapsto> e)\<rparr>"

definition UA_NodeStore_insert :: "nat \<Rightarrow> bool \<Rightarrow> nat \<Rightarrow> 'a nodeStore \<Rightarrow> (status \<times> 'a nodeStore) outcome" where
  "UA_NodeStore_insert fuel alloc a st =
     bind (if nsSize st * 3 \<le> nsCount st * 4 then expand fuel alloc st else Done (GOOD, st)) (\<lambda>(rv, st).
       if rv \<noteq> GOOD then Done (BADINTERNALERROR, st)
       else bind (deref (nodeHeap st) a) (\<lambda>e.
         let nid = nodeId (enode e)
         in if UA_NodeId_isNull (nid\<lparr>namespaceIndex := 0\<rparr>) then
              let nid1 = (if namespaceIndex nid = 0 then nid\<lparr>namespaceIndex := 1\<rparr> else nid);
                  identifier = nsCount st + 1
              in bind (free_identifier fuel fuel st nid1 (mod2 identifier (nsSize st)) identifier) (\<lambda>(nid2, i).
                   Done (GOOD, put_node i a (e\<lparr>enode := (enode e)\<lparr>nodeId := nid2\<rparr>\<rparr>) st))
            else bind (findSlot fuel st nid) (\<lambda>r. case r of
                None \<Rightarrow> bind (UA_NodeStore_deleteNode a st) (\<lambda>st'. Done (BADNODEIDEXISTS, st'))
              | Some i \<Rightarrow> Done (GOOD, put_node i a e st))))"

definition slot_entry :: "'a nodeStore \<Rightarrow> nat \<Rightarrow> nat outcome" where
  "slot_entry st i = (case entries st ! i of Used a \<Rightarrow> Done a | _ \<Rightarrow> Undefined)"

definition UA_NodeStore_replace :: "nat \<Rightarrow> nat \<Rightarrow> 'a nodeStore \<Rightarrow> (status \<times> 'a nodeStore) outcome" where
  "UA_NodeStore_replace fuel a st =
     bind (deref (nodeHeap st) a) (\<lambda>new. bind (findNode fuel st (nodeId (enode new))) (\<lambda>r. case r of
         None \<Rightarrow> Done (BADNODEIDUNKNOWN, st)
       | Some i \<Rightarrow> bind (slot_entry st i) (\<lambda>old.
           if Some old \<noteq> orig new then bind (deleteEntry a st) (\<lambda>st'. Done (BADINTERNALERROR, st'))
           else bind (deleteEntry old st) (\<lambda>st'. Done (GOOD, st'\<lparr>entries := (entries st')[i := Used a]\<rparr>)))))"

definition UA_NodeStore_get :: "nat \<Rightarrow> 'a nodeStore \<Rightarrow> nodeid \<Rightarrow> 'a node option outcome" where
  "UA_NodeStore_get fuel st i = bind (findNode fuel st i) (\<lambda>r. case r of
       None \<Rightarrow> Done None
     | Some k \<Rightarrow> bind (slot_entry st k) (\<lambda>a. bind (deref (nodeHeap st) a) (\<lambda>e. Done (Some (enode e)))))"

text \<open>Whether the members of the node can be copied is an argument too.\<close>

definition UA_NodeStore_getCopy ::
  "nat \<Rightarrow> bool \<Rightarrow> bool \<Rightarrow> nat \<Rightarrow> (nodeClass \<Rightarrow> 'a) \<Rightarrow> nodeid \<Rightarrow> 'a nodeStore \<Rightarrow> (nat option \<times> 'a nodeStore) outcome" where
  "UA_NodeStore_getCopy fuel alloc copied a zero i st = bind (findNode fuel st i) (\<lambda>r. case r of
       None \<Rightarrow> Done (None, st)
     | Some k \<Rightarrow> bind (slot_entry st k) (\<lambda>old. bind (deref (nodeHeap st) old) (\<lambda>e.
         case instantiateEntry alloc a zero (nodeClass (enode e)) st of
           (None, st1) \<Rightarrow> Done (None, st1)
         | (Some new, st1) \<Rightarrow>
             if \<not> copied then bind (deleteEntry new st1) (\<lambda>st2. Done (None, st2))
             else Done (Some new, st1\<lparr>nodeHeap := (nodeHeap st1)(new \<mapsto> \<lparr> orig = Some old, enode = enode e \<rparr>)\<rparr>))))"

definition UA_NodeStore_remove :: "nat \<Rightarrow> bool \<Rightarrow> nodeid \<Rightarrow> 'a nodeStore \<Rightarrow> (status \<times> 'a nodeStore) outcome" where
  "UA_NodeStore_remove fuel alloc i st = bind (findNode fuel st i) (\<lambda>r. case r of
       None \<Rightarrow> Done (BADNODEIDUNKNOWN, st)
     | Some k \<Rightarrow> bind (slot_entry st k) (\<lambda>a. bind (deleteEntry a st) (\<lambda>st1.
         let st2 = st1\<lparr>entries := (entries st1)[k := Tombstone], nsCount := nsCount st1 - 1\<rparr>
         in if nsCount st2 * 8 < nsSize st2 \<and> nsSize st2 > 32 then
              bind (expand fuel alloc st2) (\<lambda>(rv, st3). Done (GOOD, st3))
            else Done (GOOD, st2))))"

text \<open>A visitor only reads the nodes; it has a state.\<close>

fun iterate_entries ::
  "('a node \<Rightarrow> 'v \<Rightarrow> 'v) \<Rightarrow> (nat \<Rightarrow> 'a nodeEntry option) \<Rightarrow> slot list \<Rightarrow> 'v \<Rightarrow> 'v outcome" where
  "iterate_entries visitor heap [] v = Done v"
| "iterate_entries visitor heap (s # ss) v = (case s of
       Used a \<Rightarrow> bind (deref heap a) (\<lambda>e. iterate_entries visitor heap ss (visitor (enode e) v))
     | _ \<Rightarrow> iterate_entries visitor heap ss v)"

definition UA_NodeStore_iterate :: "('a node \<Rightarrow> 'v \<Rightarrow> 'v) \<Rightarrow> 'a nodeStore \<Rightarrow> 'v \<Rightarrow> 'v outcome" where
  "UA_NodeStore_iterate visitor st v = iterate_entries visitor (nodeHeap st) (entries st) v"

text \<open>Editing a node of the server in place, with its callback.\<close>

definition UA_Server_editNode ::
  "nat \<Rightarrow> nodeid \<Rightarrow> ('a node \<Rightarrow> (status \<times> 'a node) outcome) \<Rightarrow> 'a nodeStore \<Rightarrow> (status \<times> 'a nodeStore) outcome" where
  "UA_Server_editNode fuel i callback st = bind (findNode fuel st i) (\<lambda>r. case r of
       None \<Rightarrow> Done (BADNODEIDUNKNOWN, st)
     | Some k \<Rightarrow> bind (slot_entry st k) (\<lambda>a. bind (deref (nodeHeap st) a) (\<lambda>e.
         bind (callback (enode e)) (\<lambda>(rv, n).
           Done (rv, st\<lparr>nodeHeap := (nodeHeap st)(a \<mapsto> e\<lparr>enode := n\<rparr>)\<rparr>)))))"

end
