(* ===== verification/NodeStoreSizes.thy ===== *)
theory NodeStoreSizes
  imports NodeStore
begin

text \<open>
  The sizes of the node table are nodestore_primes, by trial division up to the root, so that every step
  width is coprime to them.
\<close>

section \<open>Prime sizes\<close>

text \<open>The sizes up to half a million nodes.\<close>

definition good_size :: "u32 \<Rightarrow> bool" where
  "good_size sz \<longleftrightarrow> sz \<in> set (take 18 nodestore_primes)"

function trial :: "nat \<Rightarrow> nat \<Rightarrow> bool" where
  "trial d p = (if p < d * d then True else p mod d \<noteq> 0 \<and> trial (d + 2) p)"
  by pat_completeness auto
termination
proof (relation "measure (\<lambda>(d, p). p + 1 - d)", goal_cases)
  case (2 d p)
  have "d \<le> d * d" by (cases d) auto
  with 2 have "d \<le> p" using order.trans[of d "d * d" p] by simp
  then show ?case by (simp add: Suc_diff_le)
qed simp

declare trial.simps [simp del]

lemma trial_no_divisor:
  "trial d p \<Longrightarrow> odd d \<Longrightarrow> odd e \<Longrightarrow> d \<le> e \<Longrightarrow> e * e \<le> p \<Longrightarrow> \<not> e dvd p"
proof (induction d p rule: trial.induct)
  case (1 d p)
  have "d * d \<le> e * e" using 1(5) by (rule mult_le_mono) (rule 1(5))
  then have le: "\<not> p < d * d" using 1(6) by simp
  then have t: "p mod d \<noteq> 0" "trial (d + 2) p" using 1(2) by (subst (asm) trial.simps, simp)+
  show ?case
  proof (cases "d = e")
    case True
    then show ?thesis using t(1) by (simp add: dvd_eq_mod_eq_0)
  next
    case False
    then have "d + 2 \<le> e" using 1(3-5) by presburger
    then show ?thesis using 1(1)[OF le t(2)] 1(3,4,6) by simp
  qed
qed

lemma trial_coprime:
  assumes "trial 3 p" "odd p" "0 < s" "s < p"
  shows "coprime p s"
proof -
  define g where "g = gcd p s"
  have g: "g dvd p" "0 < g" "g \<le> s" using assms(3) by (auto simp: g_def intro: gcd_le2_nat)
  obtain e where e: "p = g * e" using g(1) by (auto simp: dvd_def)
  have o: "odd g" "odd e" using assms(2) e by auto
  have e1: "e \<noteq> 1" using e g(3) assms(4) by auto
  then have e3: "3 \<le> e" using o(2) by presburger
  have "\<not> 1 < g"
  proof
    assume "1 < g"
    then have g3: "3 \<le> g" using o(1) by presburger
    show False
    proof (cases "g \<le> e")
      case True
      then have "g * g \<le> p" using e by simp
      then show False using trial_no_divisor[OF assms(1) _ o(1) g3] g(1) by simp
    next
      case False
      then have "e * e \<le> p" using e by simp
      then show False using trial_no_divisor[OF assms(1) _ o(2) e3] e by simp
    qed
  qed
  then have "g = 1" using g(2) by simp
  then show ?thesis by (simp add: g_def coprime_iff_gcd_eq_1)
qed

lemma prime_trials:
  "trial 3 7" "trial 3 13" "trial 3 31" "trial 3 61" "trial 3 127" "trial 3 251" "trial 3 509" "trial 3 1021"
  "trial 3 2039" "trial 3 4093" "trial 3 8191" "trial 3 16381" "trial 3 32749" "trial 3 65521" "trial 3 131071"
  "trial 3 262139" "trial 3 524287" "trial 3 1048573"
  by (simp_all add: trial.simps)

lemma good_size_facts:
  assumes "good_size sz"
  shows "trial 3 (unat sz)" "odd (unat sz)" "7 \<le> unat sz" "unat sz \<le> 1048573"
proof -
  have "sz \<in> {7, 13, 31, 61, 127, 251, 509, 1021, 2039, 4093, 8191, 16381, 32749, 65521, 131071, 262139, 524287, 1048573}"
    using assms by (simp add: good_size_def nodestore_primes_def)
  then show "trial 3 (unat sz)" "odd (unat sz)" "7 \<le> unat sz" "unat sz \<le> 1048573" using prime_trials by auto
qed

end
