(* ===== verification/NodeStoreProps.thy ===== *)
theory NodeStoreProps
  imports NodeStoreSizes
begin

text \<open>
  Correctness of the node store.  The table has a prime size, so that the search for a node visits
  every slot; a store is consistent when every node can be found from its identifier, and then it is
  a map from identifiers to nodes.
\<close>

section \<open>The slots a search visits\<close>

definition position :: "nat \<Rightarrow> u32 \<Rightarrow> nat \<Rightarrow> nat" where
  "position p h k = (unat h mod p + k * (1 + unat h mod (p - 2))) mod p"

lemma position_less: "0 < p \<Longrightarrow> position p h k < p"
  by (simp add: position_def)

lemma step_less: "3 \<le> p \<Longrightarrow> 1 + unat h mod (p - 2) < p"
  using mod_less_divisor[of "p - 2" "unat h"] by linarith

lemma position_inj:
  assumes "trial 3 p" "odd p" "3 \<le> p" "j \<le> k" "k < p" "position p h j = position p h k"
  shows "j = k"
proof (rule ccontr)
  assume "j \<noteq> k"
  let ?s = "1 + unat h mod (p - 2)" and ?a = "unat h mod p"
  have m: "?a + j * ?s \<le> ?a + k * ?s" using assms(4) by (intro add_left_mono mult_le_mono1)
  have "(?a + k * ?s) mod p = (?a + j * ?s) mod p" using assms(6) by (simp add: position_def)
  then have "p dvd (?a + k * ?s) - (?a + j * ?s)" using m by (simp only: mod_eq_dvd_iff_nat)
  then have "p dvd (k - j) * ?s" by (simp only: add_diff_cancel_left diff_mult_distrib)
  moreover have "coprime p ?s" by (rule trial_coprime[OF assms(1,2) _ step_less[OF assms(3)]]) simp
  ultimately have "p dvd k - j" by (simp only: coprime_dvd_mult_left_iff)
  moreover have "0 < k - j" "k - j < p" using \<open>j \<noteq> k\<close> assms(4,5) by auto
  ultimately show False by (auto dest: dvd_imp_le)
qed

lemma position_covers:
  assumes "trial 3 p" "odd p" "3 \<le> p" "i < p"
  obtains k where "k < p" "position p h k = i"
proof -
  have "inj_on (position p h) {..<p}"
    using position_inj[OF assms(1-3)] by (intro linorder_inj_onI) (auto dest: less_imp_le)
  moreover have "position p h ` {..<p} \<subseteq> {..<p}" using assms(3) by (auto simp: position_less)
  ultimately have "position p h ` {..<p} = {..<p}" by (intro endo_inj_surj) auto
  then have "i \<in> position p h ` {..<p}" using assms(4) by simp
  then show ?thesis using that by auto
qed

lemma unat_mod1: "unat (mod1 h sz) = position (unat sz) h 0"
  by (simp add: mod1_def position_def unat_mod_distrib)

lemma unat_mod2:
  assumes "good_size sz"
  shows "unat (mod2 h sz) = 1 + unat h mod (unat sz - 2)"
proof -
  note sz = good_size_facts[OF assms]
  have d: "unat (sz - 2) = unat sz - 2" using sz(3) by (simp add: unat_sub word_le_nat_alt)
  have "unat (h mod (sz - 2)) < unat sz - 2" using d sz(3) by (simp add: unat_mod_distrib)
  then have "unat (1 + h mod (sz - 2)) = 1 + unat (h mod (sz - 2))"
    using sz(4) by (subst unat_add_lem[THEN iffD1]) auto
  then show ?thesis by (simp add: mod2_def unat_mod_distrib d)
qed

lemma unat_advance:
  assumes "good_size sz" "unat idx = position (unat sz) h k"
  shows "unat (advance sz (mod2 h sz) idx) = position (unat sz) h (Suc k)"
proof -
  note sz = good_size_facts[OF assms(1)]
  let ?p = "unat sz" and ?s = "unat (mod2 h sz)"
  have s: "?s \<le> ?p" using step_less[of ?p h] unat_mod2[OF assms(1), of h] sz(3) by simp
  have i: "unat idx < ?p" using assms(2) sz(3) position_less[of ?p h k] by simp
  have add: "unat (idx + mod2 h sz) = unat idx + ?s" using i s sz(4) by (subst unat_add_lem[THEN iffD1]) auto
  have "unat (advance sz (mod2 h sz) idx) = (unat idx + ?s) mod ?p"
  proof (cases "?p \<le> unat idx + ?s")
    case True
    then have "unat (idx + mod2 h sz - sz) = unat idx + ?s - ?p" by (simp add: unat_sub word_le_nat_alt add)
    moreover have "unat idx + ?s - ?p < ?p" using i s by simp
    ultimately show ?thesis using True by (simp add: advance_def Let_def word_le_nat_alt add mod_if[of "unat idx + ?s"])
  next
    case False
    then show ?thesis by (simp add: advance_def Let_def word_le_nat_alt add)
  qed
  also have "\<dots> = position ?p h (Suc k)"
    unfolding assms(2) position_def unat_mod2[OF assms(1)] mod_add_left_eq by (simp only: mult_Suc ac_simps)
  finally show ?thesis .
qed

section \<open>What a search finds\<close>

lemma probe_stops:
  assumes "good_size sz" "length es = unat sz" "unat idx = position (unat sz) h j"
    and "\<And>i. i < k \<Longrightarrow> visit (es ! position (unat sz) h (j + i)) = Done None"
    and "visit (es ! position (unat sz) h (j + k)) = Done (Some found)" "k < n"
  shows "probe n visit es sz (mod2 h sz) idx = Done (if found then Some (position (unat sz) h (j + k)) else None)"
  using assms(3-)
proof (induction k arbitrary: j idx n)
  case 0
  then obtain m where n: "n = Suc m" by (cases n) auto
  have "unat idx < length es" using 0(1) assms(2) position_less[of "unat sz" h j] good_size_facts(3)[OF assms(1)] by simp
  with 0 n show ?case by simp
next
  case (Suc k)
  then obtain m where n: "n = Suc m" "k < m" by (cases n) auto
  have i: "unat idx < length es" using Suc(2) assms(2) position_less[of "unat sz" h j] good_size_facts(3)[OF assms(1)] by simp
  have v: "visit (es ! unat idx) = Done None" using Suc(2) Suc(3)[of 0] by simp
  have "probe m visit es sz (mod2 h sz) (advance sz (mod2 h sz) idx) =
      Done (if found then Some (position (unat sz) h (Suc j + k)) else None)"
    using Suc(3)[of "Suc _"] Suc(4) n(2) by (intro Suc.IH[OF unat_advance[OF assms(1) Suc(2)]]) simp_all
  with i v n show ?case by simp
qed

lemma probe_never:
  assumes "good_size sz" "length es = unat sz" "unat idx = position (unat sz) h j"
    and "\<And>i. i < length es \<Longrightarrow> visit (es ! i) = Done None"
  shows "probe n visit es sz (mod2 h sz) idx = OutOfFuel"
  using assms(3)
proof (induction n arbitrary: j idx)
  case (Suc n)
  have i: "unat idx < length es" using Suc(2) assms(2) position_less[of "unat sz" h j] good_size_facts(3)[OF assms(1)] by simp
  with assms(4)[OF i] Suc.IH[OF unat_advance[OF assms(1) Suc(2)]] show ?case by simp
qed simp

section \<open>Consistent stores\<close>

type_synonym 'a heap = "nat \<Rightarrow> 'a nodeEntry option"

definition node_at :: "slot list \<Rightarrow> 'a heap \<Rightarrow> nat \<Rightarrow> 'a node option" where
  "node_at es heap i = (case es ! i of Used a \<Rightarrow> map_option enode (heap a) | _ \<Rightarrow> None)"

text \<open>A node can be found from its identifier: no free slot comes before its own.\<close>

definition reachable :: "u32 \<Rightarrow> slot list \<Rightarrow> nodeid \<Rightarrow> nat \<Rightarrow> bool" where
  "reachable sz es nid i \<longleftrightarrow> (\<exists>k. position (unat sz) (UA_NodeId_hash nid) k = i \<and>
     (\<forall>j<k. es ! position (unat sz) (UA_NodeId_hash nid) j \<noteq> Free))"

definition table_ok :: "u32 \<Rightarrow> slot list \<Rightarrow> 'a heap \<Rightarrow> bool" where
  "table_ok sz es heap \<longleftrightarrow> good_size sz \<and> length es = unat sz \<and>
     (\<forall>i<length es. \<forall>a. es ! i = Used a \<longrightarrow> heap a \<noteq> None) \<and>
     (\<forall>i<length es. \<forall>n. node_at es heap i = Some n \<longrightarrow>
        ident (nodeId n) \<noteq> BadIdType \<and> reachable sz es (nodeId n) i) \<and>
     (\<forall>i<length es. \<forall>j<length es. \<forall>n m. node_at es heap i = Some n \<longrightarrow> node_at es heap j = Some m \<longrightarrow>
        UA_NodeId_equal (nodeId n) (nodeId m) \<longrightarrow> i = j)"

definition is_used :: "slot \<Rightarrow> bool" where
  "is_used s \<longleftrightarrow> (case s of Used a \<Rightarrow> True | _ \<Rightarrow> False)"

definition used_count :: "slot list \<Rightarrow> nat" where
  "used_count es = length (filter is_used es)"

definition store_ok :: "'a nodeStore \<Rightarrow> bool" where
  "store_ok st \<longleftrightarrow> table_ok (nsSize st) (entries st) (nodeHeap st) \<and> unat (nsCount st) = used_count (entries st)"

text \<open>The store as a map.\<close>

definition matches :: "'a heap \<Rightarrow> nodeid \<Rightarrow> slot \<Rightarrow> bool" where
  "matches heap i s \<longleftrightarrow> (case s of
       Used a \<Rightarrow> (case heap a of Some e \<Rightarrow> UA_NodeId_equal (nodeId (enode e)) i | None \<Rightarrow> False)
     | _ \<Rightarrow> False)"

definition store_map :: "'a nodeStore \<Rightarrow> nodeid \<Rightarrow> 'a node option" where
  "store_map st i = (case find (matches (nodeHeap st) i) (entries st) of
       Some (Used a) \<Rightarrow> map_option enode (nodeHeap st a)
     | _ \<Rightarrow> None)"

lemma matches_node_at:
  "matches heap i (es ! k) \<longleftrightarrow> (\<exists>n. node_at es heap k = Some n \<and> UA_NodeId_equal (nodeId n) i)"
  by (auto simp: matches_def node_at_def split: slot.splits option.splits)

lemma table_ok_unique:
  assumes "table_ok sz es heap" "i < length es" "j < length es" "matches heap nid (es ! i)" "matches heap nid (es ! j)"
  shows "i = j"
proof -
  obtain n m where n: "node_at es heap i = Some n" "UA_NodeId_equal (nodeId n) nid"
    and m: "node_at es heap j = Some m" "UA_NodeId_equal (nodeId m) nid"
    using assms(4,5) by (auto simp: matches_node_at)
  have "UA_NodeId_equal (nodeId n) (nodeId m)"
    by (rule UA_NodeId_equal_trans[OF n(2) UA_NodeId_equal_sym[OF m(2)]])
  then show ?thesis using assms(1-3) n(1) m(1) by (auto simp: table_ok_def)
qed

lemma store_map_Some:
  assumes "table_ok sz (entries st) (nodeHeap st)" "i < length (entries st)" "matches (nodeHeap st) nid (entries st ! i)"
  shows "store_map st nid = node_at (entries st) (nodeHeap st) i"
proof -
  obtain s where s: "find (matches (nodeHeap st) nid) (entries st) = Some s"
    using assms(2,3) by (cases "find (matches (nodeHeap st) nid) (entries st)") (auto simp: find_None_iff)
  then obtain j where "j < length (entries st)" "matches (nodeHeap st) nid (entries st ! j)" "s = entries st ! j"
    by (auto simp: find_Some_iff)
  moreover from this table_ok_unique[OF assms(1) _ assms(2) _ assms(3)] have "j = i" by blast
  ultimately show ?thesis using s by (simp add: store_map_def node_at_def split: slot.splits)
qed

lemma store_map_None:
  "store_map st nid = None \<longleftrightarrow> (\<forall>i<length (entries st). \<not> matches (nodeHeap st) nid (entries st ! i))"
proof (cases "find (matches (nodeHeap st) nid) (entries st)")
  case None
  then have "store_map st nid = None" by (simp add: store_map_def)
  moreover have "\<forall>x\<in>set (entries st). \<not> matches (nodeHeap st) nid x" using None by (auto simp: find_None_iff)
  ultimately show ?thesis by simp
next
  case (Some s)
  then obtain i where i: "i < length (entries st)" "matches (nodeHeap st) nid (entries st ! i)" "s = entries st ! i"
    by (auto simp: find_Some_iff)
  then have "store_map st nid \<noteq> None"
    using Some by (auto simp: store_map_def matches_def split: slot.splits option.splits)
  then show ?thesis using i by auto
qed

section \<open>The searches\<close>

lemma first_stop:
  assumes "good_size sz" "length es = unat sz" "\<And>i. i < length es \<Longrightarrow> \<exists>r. visit (es ! i) = Done r"
    and "i0 < length es" "visit (es ! i0) \<noteq> Done None"
  obtains k found where "k < unat sz" "\<And>j. j < k \<Longrightarrow> visit (es ! position (unat sz) h j) = Done None"
    "visit (es ! position (unat sz) h k) = Done (Some found)"
    "\<And>n. unat sz \<le> n \<Longrightarrow> probe n visit es sz (mod2 h sz) (mod1 h sz) =
       Done (if found then Some (position (unat sz) h k) else None)"
proof -
  note sz = good_size_facts[OF assms(1)]
  have lt: "position (unat sz) h j < length es" for j using sz(3) assms(2) by (simp add: position_less)
  obtain k0 where k0: "k0 < unat sz" "position (unat sz) h k0 = i0"
    using position_covers[OF sz(1,2) _, of i0] sz(3) assms(2,4) by auto
  define stops where "stops k \<longleftrightarrow> visit (es ! position (unat sz) h k) \<noteq> Done None" for k
  define k where "k = (LEAST k. stops k)"
  have "stops k0" using k0(2) assms(5) by (simp add: stops_def)
  then have k: "stops k" "k \<le> k0" unfolding k_def by (rule LeastI, rule Least_le)
  have before: "visit (es ! position (unat sz) h j) = Done None" if "j < k" for j
    using not_less_Least[of j stops] that by (simp add: k_def stops_def)
  obtain found where f: "visit (es ! position (unat sz) h k) = Done (Some found)"
    using assms(3)[OF lt[of k]] k(1) by (metis not_None_eq stops_def)
  have "probe n visit es sz (mod2 h sz) (mod1 h sz) = Done (if found then Some (position (unat sz) h k) else None)"
    if "unat sz \<le> n" for n
    using probe_stops[OF assms(1,2) unat_mod1, of k visit h found n] before f that k(2) k0(1) by simp
  then show ?thesis using that[of k found] k(2) k0(1) before f by simp
qed

lemma used_heap:
  "table_ok sz es heap \<Longrightarrow> i < length es \<Longrightarrow> es ! i = Used a \<Longrightarrow> \<exists>e. heap a = Some e"
  unfolding table_ok_def by blast

lemma table_id:
  "table_ok sz es heap \<Longrightarrow> i < length es \<Longrightarrow> node_at es heap i = Some n \<Longrightarrow> ident (nodeId n) \<noteq> BadIdType"
  unfolding table_ok_def by blast

lemma visit_find_simps:
  assumes "table_ok sz es heap" "i < length es"
  shows "visit_find heap nid (es ! i) =
    Done (if es ! i = Free then Some False else if matches heap nid (es ! i) then Some True else None)"
proof (cases "es ! i")
  case (Used a)
  then obtain e where "heap a = Some e" using used_heap[OF assms] by auto
  then show ?thesis using Used by (simp add: visit_find_def matches_def deref_def)
qed (simp_all add: visit_find_def matches_def)

lemma visit_slot_simps:
  assumes "table_ok sz es heap" "i < length es"
  shows "visit_slot heap nid (es ! i) =
    Done (if \<not> is_used (es ! i) then Some True else if matches heap nid (es ! i) then Some False else None)"
proof (cases "es ! i")
  case (Used a)
  then obtain e where "heap a = Some e" using used_heap[OF assms] by auto
  then show ?thesis using Used by (simp add: visit_slot_def matches_def deref_def is_used_def)
qed (simp_all add: visit_slot_def is_used_def)

lemma matches_not_Free: "matches heap nid s \<Longrightarrow> s \<noteq> Free"
  by (auto simp: matches_def)

lemma table_reach:
  assumes "table_ok sz es heap" "i < length es" "matches heap nid (es ! i)"
  shows "reachable sz es nid i"
proof -
  obtain n where n: "node_at es heap i = Some n" "UA_NodeId_equal (nodeId n) nid"
    using assms(3) by (auto simp: matches_node_at)
  then show ?thesis using assms(1,2) UA_NodeId_hash_equal[OF n(2)] by (auto simp: table_ok_def reachable_def)
qed

lemma findNode_present:
  assumes "table_ok (nsSize st) (entries st) (nodeHeap st)" "i < length (entries st)"
    and "matches (nodeHeap st) nid (entries st ! i)" "unat (nsSize st) \<le> fuel"
  shows "findNode fuel st nid = Done (Some i)"
proof -
  let ?es = "entries st" and ?sz = "nsSize st" and ?h = "UA_NodeId_hash nid"
  have sz: "good_size ?sz" "length ?es = unat ?sz" using assms(1) by (simp_all add: table_ok_def)
  note v = visit_find_simps[OF assms(1), of _ nid]
  have lt: "position (unat ?sz) ?h j < length ?es" for j
    using good_size_facts(3)[OF sz(1)] sz(2) by (simp add: position_less)
  have ex: "\<exists>r. visit_find (nodeHeap st) nid (?es ! j) = Done r" if "j < length ?es" for j
    using v[OF that] by blast
  have stop: "visit_find (nodeHeap st) nid (?es ! i) \<noteq> Done None" using v[OF assms(2)] assms(3) matches_not_Free[OF assms(3)] by auto
  obtain k found where k: "\<And>j. j < k \<Longrightarrow> visit_find (nodeHeap st) nid (?es ! position (unat ?sz) ?h j) = Done None"
    "visit_find (nodeHeap st) nid (?es ! position (unat ?sz) ?h k) = Done (Some found)"
    "probe fuel (visit_find (nodeHeap st) nid) ?es ?sz (mod2 ?h ?sz) (mod1 ?h ?sz) =
       Done (if found then Some (position (unat ?sz) ?h k) else None)"
    using first_stop[where visit = "visit_find (nodeHeap st) nid" and h = ?h, OF sz ex assms(2) stop] assms(4) by metis
  obtain k0 where k0: "position (unat ?sz) ?h k0 = i" "\<And>j. j < k0 \<Longrightarrow> ?es ! position (unat ?sz) ?h j \<noteq> Free"
    using table_reach[OF assms(1-3)] by (auto simp: reachable_def)
  have le: "k \<le> k0" using k(1)[of k0] k0(1) stop by (cases "k0 < k") auto
  have "found"
  proof (rule ccontr)
    assume "\<not> found"
    then have "?es ! position (unat ?sz) ?h k = Free" using k(2) v[OF lt[of k]] by (auto split: if_splits)
    then have "k = k0" using k0(2)[of k] le by (cases "k < k0") auto
    then show False using k(2) k0(1) v[OF assms(2)] assms(3) \<open>\<not> found\<close> \<open>?es ! position (unat ?sz) ?h k = Free\<close>
      by (simp add: matches_def)
  qed
  then have "matches (nodeHeap st) nid (?es ! position (unat ?sz) ?h k)" using k(2) v[OF lt[of k]] by (auto split: if_splits)
  from table_ok_unique[OF assms(1) lt assms(2) this assms(3)] show ?thesis
    using k(3) \<open>found\<close> by (simp add: findNode_def Let_def)
qed

lemma findNode_absent:
  assumes "table_ok (nsSize st) (entries st) (nodeHeap st)" "store_map st nid = None"
  shows "Free \<in> set (entries st) \<Longrightarrow> unat (nsSize st) \<le> fuel \<Longrightarrow> findNode fuel st nid = Done None"
    and "Free \<notin> set (entries st) \<Longrightarrow> findNode fuel st nid = OutOfFuel"
proof -
  let ?es = "entries st" and ?sz = "nsSize st" and ?h = "UA_NodeId_hash nid"
  have sz: "good_size ?sz" "length ?es = unat ?sz" using assms(1) by (simp_all add: table_ok_def)
  have v: "visit_find (nodeHeap st) nid (?es ! i) = Done (if ?es ! i = Free then Some False else None)"
    if "i < length ?es" for i
    using visit_find_simps[OF assms(1) that, of nid] assms(2) that by (simp add: store_map_None)
  show "findNode fuel st nid = Done None" if f: "Free \<in> set ?es" "unat ?sz \<le> fuel"
  proof -
    obtain i where i: "i < length ?es" "?es ! i = Free" using f(1) unfolding in_set_conv_nth by blast
    have lt: "position (unat ?sz) ?h j < length ?es" for j
      using good_size_facts(3)[OF sz(1)] sz(2) by (simp add: position_less)
    have ex: "\<exists>r. visit_find (nodeHeap st) nid (?es ! j) = Done r" if "j < length ?es" for j
      using v[OF that] by blast
    have stop: "visit_find (nodeHeap st) nid (?es ! i) \<noteq> Done None" using v[OF i(1)] i(2) by auto
    obtain k found where k: "visit_find (nodeHeap st) nid (?es ! position (unat ?sz) ?h k) = Done (Some found)"
      "probe fuel (visit_find (nodeHeap st) nid) ?es ?sz (mod2 ?h ?sz) (mod1 ?h ?sz) =
         Done (if found then Some (position (unat ?sz) ?h k) else None)"
      using first_stop[where visit = "visit_find (nodeHeap st) nid" and h = ?h, OF sz ex i(1) stop] f(2) by metis
    then have "\<not> found" using v[OF lt[of k]] by (auto split: if_splits)
    with k(2) show ?thesis by (simp add: findNode_def Let_def)
  qed
  show "findNode fuel st nid = OutOfFuel" if "Free \<notin> set ?es"
  proof -
    have "?es ! i \<noteq> Free" if "i < length ?es" for i using \<open>Free \<notin> set ?es\<close> nth_mem[OF that] by metis
    with v have "visit_find (nodeHeap st) nid (?es ! i) = Done None" if "i < length ?es" for i using that by simp
    from probe_never[where visit = "visit_find (nodeHeap st) nid", OF sz unat_mod1 this] show ?thesis by (simp add: findNode_def Let_def)
  qed
qed

text \<open>The slot for a new node comes behind used slots only.\<close>

lemma findSlot_absent:
  assumes "table_ok (nsSize st) (entries st) (nodeHeap st)" "store_map st nid = None"
    and "i0 < length (entries st)" "\<not> is_used (entries st ! i0)" "unat (nsSize st) \<le> fuel"
  obtains k i where "findSlot fuel st nid = Done (Some i)" "i < length (entries st)" "\<not> is_used (entries st ! i)"
    "position (unat (nsSize st)) (UA_NodeId_hash nid) k = i"
    "\<And>j. j < k \<Longrightarrow> is_used (entries st ! position (unat (nsSize st)) (UA_NodeId_hash nid) j)"
proof -
  let ?es = "entries st" and ?sz = "nsSize st" and ?h = "UA_NodeId_hash nid"
  let ?visit = "visit_slot (nodeHeap st) nid"
  have sz: "good_size ?sz" "length ?es = unat ?sz" using assms(1) by (simp_all add: table_ok_def)
  have lt: "position (unat ?sz) ?h j < length ?es" for j
    using good_size_facts(3)[OF sz(1)] sz(2) by (simp add: position_less)
  have v: "?visit (?es ! i) = Done (if is_used (?es ! i) then None else Some True)" if "i < length ?es" for i
    using visit_slot_simps[OF assms(1) that, of nid] assms(2) that by (simp add: store_map_None)
  have ex: "\<exists>r. ?visit (?es ! j) = Done r" if "j < length ?es" for j using v[OF that] by blast
  have stop: "?visit (?es ! i0) \<noteq> Done None" using v[OF assms(3)] assms(4) by auto
  obtain k found where k: "\<And>j. j < k \<Longrightarrow> ?visit (?es ! position (unat ?sz) ?h j) = Done None"
    "?visit (?es ! position (unat ?sz) ?h k) = Done (Some found)"
    "probe fuel ?visit ?es ?sz (mod2 ?h ?sz) (mod1 ?h ?sz) = Done (if found then Some (position (unat ?sz) ?h k) else None)"
    using first_stop[where visit = ?visit and h = ?h, OF sz ex assms(3) stop] assms(5) by metis
  have "found" "\<not> is_used (?es ! position (unat ?sz) ?h k)" using k(2) v[OF lt[of k]] by (auto split: if_splits)
  moreover have "is_used (?es ! position (unat ?sz) ?h j)" if "j < k" for j
    using k(1)[OF that] v[OF lt[of j]] by (auto split: if_splits)
  ultimately show ?thesis using that[OF _ lt] k(3) by (simp add: findSlot_def Let_def)
qed

lemma findSlot_present:
  assumes "table_ok (nsSize st) (entries st) (nodeHeap st)" "store_map st nid \<noteq> None"
    and "Tombstone \<notin> set (entries st)" "unat (nsSize st) \<le> fuel"
  shows "findSlot fuel st nid = Done None"
proof -
  let ?es = "entries st" and ?sz = "nsSize st" and ?h = "UA_NodeId_hash nid"
  let ?visit = "visit_slot (nodeHeap st) nid"
  have sz: "good_size ?sz" "length ?es = unat ?sz" using assms(1) by (simp_all add: table_ok_def)
  have lt: "position (unat ?sz) ?h j < length ?es" for j
    using good_size_facts(3)[OF sz(1)] sz(2) by (simp add: position_less)
  note v = visit_slot_simps[OF assms(1), of _ nid]
  obtain i where i: "i < length ?es" "matches (nodeHeap st) nid (?es ! i)" using assms(2) by (auto simp: store_map_None)
  have ex: "\<exists>r. ?visit (?es ! j) = Done r" if "j < length ?es" for j using v[OF that] by blast
  have stop: "?visit (?es ! i) \<noteq> Done None" using v[OF i(1)] i(2) by auto
  obtain k found where k: "\<And>j. j < k \<Longrightarrow> ?visit (?es ! position (unat ?sz) ?h j) = Done None"
    "?visit (?es ! position (unat ?sz) ?h k) = Done (Some found)"
    "probe fuel ?visit ?es ?sz (mod2 ?h ?sz) (mod1 ?h ?sz) = Done (if found then Some (position (unat ?sz) ?h k) else None)"
    using first_stop[where visit = ?visit and h = ?h, OF sz ex i(1) stop] assms(4) by metis
  obtain k0 where k0: "position (unat ?sz) ?h k0 = i" "\<And>j. j < k0 \<Longrightarrow> ?es ! position (unat ?sz) ?h j \<noteq> Free"
    using table_reach[OF assms(1) i] by (auto simp: reachable_def)
  have le: "k \<le> k0" using k(1)[of k0] k0(1) stop by (cases "k0 < k") auto
  have "\<not> found"
  proof
    assume found
    then have "\<not> is_used (?es ! position (unat ?sz) ?h k)" using k(2) v[OF lt[of k]] by (auto split: if_splits)
    moreover have "?es ! position (unat ?sz) ?h k \<noteq> Tombstone" using assms(3) nth_mem[OF lt[of k]] by metis
    ultimately have free: "?es ! position (unat ?sz) ?h k = Free" by (auto simp: is_used_def split: slot.splits)
    then have "k = k0" using k0(2)[of k] le by (cases "k < k0") auto
    then show False using free k0(1) matches_not_Free[OF i(2)] by simp
  qed
  with k(3) show ?thesis by (simp add: findSlot_def Let_def)
qed

section \<open>The nodes of a table\<close>

definition nodes_of :: "slot list \<Rightarrow> 'a heap \<Rightarrow> 'a node set" where
  "nodes_of es heap = {n. \<exists>i<length es. node_at es heap i = Some n}"

lemma store_map_iff:
  assumes "table_ok sz (entries st) (nodeHeap st)"
  shows "store_map st nid = Some n \<longleftrightarrow> n \<in> nodes_of (entries st) (nodeHeap st) \<and> UA_NodeId_equal (nodeId n) nid"
proof
  assume s: "store_map st nid = Some n"
  then obtain i where i: "i < length (entries st)" "matches (nodeHeap st) nid (entries st ! i)"
    using store_map_None[of st nid] by auto
  then show "n \<in> nodes_of (entries st) (nodeHeap st) \<and> UA_NodeId_equal (nodeId n) nid"
    using store_map_Some[OF assms i] s by (auto simp: nodes_of_def matches_node_at)
next
  assume "n \<in> nodes_of (entries st) (nodeHeap st) \<and> UA_NodeId_equal (nodeId n) nid"
  then obtain i where "i < length (entries st)" "node_at (entries st) (nodeHeap st) i = Some n" "UA_NodeId_equal (nodeId n) nid"
    by (auto simp: nodes_of_def)
  then show "store_map st nid = Some n"
    using store_map_Some[OF assms, of i nid] by (simp add: matches_node_at)
qed

lemma option_eqI: "(\<And>x. a = Some x \<longleftrightarrow> b = Some x) \<Longrightarrow> a = b"
  by (cases a; cases b) auto

lemma used_count_card: "used_count es = card {i. i < length es \<and> is_used (es ! i)}"
  by (simp add: used_count_def length_filter_conv_card)

lemma used_count_put:
  assumes "i < length es" "\<not> is_used (es ! i)"
  shows "used_count (es[i := Used a]) = Suc (used_count es)"
proof -
  have "{j. j < length es \<and> is_used (es[i := Used a] ! j)} = insert i {j. j < length es \<and> is_used (es ! j)}"
    using assms by (auto simp: nth_list_update is_used_def)
  then show ?thesis using assms by (simp add: used_count_card)
qed

lemma used_count_bury:
  assumes "i < length es" "is_used (es ! i)"
  shows "Suc (used_count (es[i := Tombstone])) = used_count es"
proof -
  have "{j. j < length es \<and> is_used (es ! j)} = insert i {j. j < length es \<and> is_used (es[i := Tombstone] ! j)}"
    using assms by (auto simp: nth_list_update is_used_def)
  then show ?thesis using assms by (simp add: used_count_card is_used_def)
qed

lemma not_all_used:
  assumes "used_count es < length es"
  obtains i where "i < length es" "\<not> is_used (es ! i)"
proof -
  have "filter is_used es \<noteq> es" using assms by (auto simp: used_count_def)
  then show ?thesis using that by (metis filter_id_conv in_set_conv_nth)
qed

lemma node_at_put:
  assumes "i < length es" "\<And>j. j < length es \<Longrightarrow> es ! j \<noteq> Used a" "j < length es"
  shows "node_at (es[i := Used a]) (heap(a \<mapsto> e)) j = (if j = i then Some (enode e) else node_at es heap j)"
  using assms(1) assms(2)[OF assms(3)] by (auto simp: node_at_def nth_list_update split: slot.splits)

lemma reachable_mono:
  assumes "reachable sz es nid i" "\<And>j. es ! j \<noteq> Free \<Longrightarrow> es' ! j \<noteq> Free"
  shows "reachable sz es' nid i"
  using assms by (auto simp: reachable_def)

lemma put_slot_reachable:
  assumes t: "table_ok sz es heap" and i: "i < length es" "\<not> is_used (es ! i)"
    and new: "\<And>j. j < length es \<Longrightarrow> es ! j \<noteq> Used a" "\<And>j. j < length es \<Longrightarrow> \<not> matches heap (nodeId (enode e)) (es ! j)"
    and id: "ident (nodeId (enode e)) \<noteq> BadIdType"
    and k: "position (unat sz) (UA_NodeId_hash (nodeId (enode e))) k = i"
      "\<And>j. j < k \<Longrightarrow> es ! position (unat sz) (UA_NodeId_hash (nodeId (enode e))) j \<noteq> Free"
  shows "table_ok sz (es[i := Used a]) (heap(a \<mapsto> e))"
    and "nodes_of (es[i := Used a]) (heap(a \<mapsto> e)) = insert (enode e) (nodes_of es heap)"
proof -
  let ?es = "es[i := Used a]" and ?heap = "heap(a \<mapsto> e)"
  have at: "node_at ?es ?heap j = (if j = i then Some (enode e) else node_at es heap j)" if "j < length es" for j
    by (rule node_at_put[OF i(1) _ that]) (rule new(1))
  have sz: "good_size sz" "length es = unat sz" using t by (simp_all add: table_ok_def)
  have keep: "?es ! j \<noteq> Free" if "es ! j \<noteq> Free" for j
    using that i(1) by (cases "j = i") simp_all
  have reach: "reachable sz ?es (nodeId (enode e)) i"
    using k keep by (force simp: reachable_def)
  have fresh: "node_at es heap i = None" using i(2) by (auto simp: node_at_def is_used_def split: slot.splits)
  show "table_ok sz ?es ?heap"
    unfolding table_ok_def length_list_update
  proof (intro conjI allI impI sz)
    fix j b assume "j < length es" "?es ! j = Used b"
    then show "?heap b \<noteq> None" using t used_heap[OF t, of j b] by (cases "j = i") auto
  next
    fix j n assume j: "j < length es" "node_at ?es ?heap j = Some n"
    show "ident (nodeId n) \<noteq> BadIdType" using j at[OF j(1)] id t by (auto simp: table_ok_def split: if_splits)
    show "reachable sz ?es (nodeId n) j"
    proof (cases "j = i")
      case False
      then have "reachable sz es (nodeId n) j" using j at[OF j(1)] t by (auto simp: table_ok_def)
      then show ?thesis by (rule reachable_mono) (rule keep)
    qed (use j at[OF j(1)] reach in auto)
  next
    fix j l n m
    assume j: "j < length es" "l < length es" "node_at ?es ?heap j = Some n" "node_at ?es ?heap l = Some m"
      "UA_NodeId_equal (nodeId n) (nodeId m)"
    have new': "\<not> UA_NodeId_equal (nodeId x) (nodeId (enode e))" if "node_at es heap y = Some x" "y < length es" for x y
      using new(2)[OF that(2)] that(1) by (auto simp: matches_node_at)
    show "j = l"
      using j at[OF j(1)] at[OF j(2)] new'[of l m] new'[of j n] UA_NodeId_equal_sym[OF j(5)] t
      by (auto simp: table_ok_def split: if_splits)
  qed
  show "nodes_of ?es ?heap = insert (enode e) (nodes_of es heap)"
  proof (intro set_eqI iffI)
    fix n assume "n \<in> nodes_of ?es ?heap"
    then obtain j where "j < length es" "node_at ?es ?heap j = Some n" by (auto simp: nodes_of_def)
    then show "n \<in> insert (enode e) (nodes_of es heap)" using at[of j] by (auto simp: nodes_of_def split: if_splits)
  next
    fix n assume "n \<in> insert (enode e) (nodes_of es heap)"
    then consider "n = enode e" | j where "j < length es" "node_at es heap j = Some n" by (auto simp: nodes_of_def)
    then show "n \<in> nodes_of ?es ?heap"
    proof cases
      case 1
      then show ?thesis using at[OF i(1)] i(1) by (auto simp: nodes_of_def)
    next
      case (2 j)
      then have "j \<noteq> i" using fresh by auto
      with 2 show ?thesis using at[of j] by (auto simp: nodes_of_def)
    qed
  qed
qed

lemma put_slot:
  assumes t: "table_ok sz es heap" and i: "i < length es" "\<not> is_used (es ! i)"
    and new: "\<And>j. j < length es \<Longrightarrow> es ! j \<noteq> Used a" "\<And>j. j < length es \<Longrightarrow> \<not> matches heap (nodeId (enode e)) (es ! j)"
    and id: "ident (nodeId (enode e)) \<noteq> BadIdType"
    and k: "position (unat sz) (UA_NodeId_hash (nodeId (enode e))) k = i"
      "\<And>j. j < k \<Longrightarrow> is_used (es ! position (unat sz) (UA_NodeId_hash (nodeId (enode e))) j)"
  shows "table_ok sz (es[i := Used a]) (heap(a \<mapsto> e))"
    and "nodes_of (es[i := Used a]) (heap(a \<mapsto> e)) = insert (enode e) (nodes_of es heap)"
proof -
  have "es ! position (unat sz) (UA_NodeId_hash (nodeId (enode e))) j \<noteq> Free" if "j < k" for j
    using k(2)[OF that] by (auto simp: is_used_def)
  note r = put_slot_reachable[OF t i new id k(1) this]
  show "table_ok sz (es[i := Used a]) (heap(a \<mapsto> e))" by (rule r(1))
  show "nodes_of (es[i := Used a]) (heap(a \<mapsto> e)) = insert (enode e) (nodes_of es heap)" by (rule r(2))
qed

lemma bury_slot:
  assumes t: "table_ok sz es heap" and i: "i < length es" "es ! i = Used a" "heap a = Some e"
  shows "table_ok sz (es[i := Tombstone]) (heap(a := None))"
    and "nodes_of (es[i := Tombstone]) (heap(a := None)) = {n \<in> nodes_of es heap. \<not> UA_NodeId_equal (nodeId n) (nodeId (enode e))}"
proof -
  let ?es = "es[i := Tombstone]" and ?heap = "heap(a := None)"
  have sz: "good_size sz" "length es = unat sz" using t by (simp_all add: table_ok_def)
  have e: "node_at es heap i = Some (enode e)" using i by (simp add: node_at_def)
  then have "ident (nodeId (enode e)) \<noteq> BadIdType" using t i(1) by (auto simp: table_ok_def)
  then have refl: "UA_NodeId_equal (nodeId (enode e)) (nodeId (enode e))" by (rule UA_NodeId_equal_refl)
  have other: "es ! j \<noteq> Used a" if "j < length es" "j \<noteq> i" for j
  proof
    assume "es ! j = Used a"
    then have "node_at es heap j = Some (enode e)" using i(3) by (simp add: node_at_def)
    then show False using t that i(1) e refl by (auto simp: table_ok_def)
  qed
  have at: "node_at ?es ?heap j = (if j = i then None else node_at es heap j)" if "j < length es" for j
    using other[OF that] that by (auto simp: node_at_def nth_list_update split: slot.splits)
  have keep: "?es ! j \<noteq> Free" if "es ! j \<noteq> Free" for j using that i(1) by (cases "j = i") simp_all
  show "table_ok sz ?es ?heap"
    unfolding table_ok_def length_list_update
  proof (intro conjI allI impI sz)
    fix j b assume "j < length es" "?es ! j = Used b"
    then show "?heap b \<noteq> None" using used_heap[OF t, of j b] other[of j] by (cases "j = i") auto
  next
    fix j n assume j: "j < length es" "node_at ?es ?heap j = Some n"
    then have n: "node_at es heap j = Some n" using at[OF j(1)] by (auto split: if_splits)
    then show "ident (nodeId n) \<noteq> BadIdType" using j t by (auto simp: table_ok_def)
    have "reachable sz es (nodeId n) j" using n j t by (auto simp: table_ok_def)
    then show "reachable sz ?es (nodeId n) j" by (rule reachable_mono) (rule keep)
  next
    fix j l n m
    assume "j < length es" "l < length es" "node_at ?es ?heap j = Some n" "node_at ?es ?heap l = Some m"
      "UA_NodeId_equal (nodeId n) (nodeId m)"
    then show "j = l" using at[of j] at[of l] t by (auto simp: table_ok_def split: if_splits)
  qed
  show "nodes_of ?es ?heap = {n \<in> nodes_of es heap. \<not> UA_NodeId_equal (nodeId n) (nodeId (enode e))}"
  proof (intro set_eqI iffI)
    fix n assume "n \<in> nodes_of ?es ?heap"
    then obtain j where "j < length es" "node_at es heap j = Some n" "j \<noteq> i"
      using at by (auto simp: nodes_of_def split: if_splits)
    then show "n \<in> {n \<in> nodes_of es heap. \<not> UA_NodeId_equal (nodeId n) (nodeId (enode e))}"
      using t i(1) e by (auto simp: nodes_of_def table_ok_def)
  next
    fix n assume "n \<in> {n \<in> nodes_of es heap. \<not> UA_NodeId_equal (nodeId n) (nodeId (enode e))}"
    then obtain j where j: "j < length es" "node_at es heap j = Some n" and n: "\<not> UA_NodeId_equal (nodeId n) (nodeId (enode e))"
      by (auto simp: nodes_of_def)
    moreover from n j(2) e refl have "j \<noteq> i" by auto
    ultimately show "n \<in> nodes_of ?es ?heap" using at[of j] by (auto simp: nodes_of_def)
  qed
qed

section \<open>Growing and shrinking\<close>

lemma empty_table:
  assumes "good_size sz"
  shows "table_ok sz (replicate (unat sz) Free) heap" "nodes_of (replicate (unat sz) Free) heap = {}"
    "used_count (replicate (unat sz) Free) = 0"
  using assms by (auto simp: table_ok_def nodes_of_def node_at_def used_count_def is_used_def)

lemma used_count_append: "used_count (a @ b) = used_count a + used_count b"
  by (simp add: used_count_def)

lemma nodes_of_append: "nodes_of (a @ b) heap = nodes_of a heap \<union> nodes_of b heap"
proof -
  have n: "node_at (a @ b) heap i = (if i < length a then node_at a heap i else node_at b heap (i - length a))" for i
    by (simp add: node_at_def nth_append)
  show ?thesis
  proof (intro set_eqI iffI)
    fix x assume "x \<in> nodes_of (a @ b) heap"
    then obtain i where i: "i < length a + length b" "node_at (a @ b) heap i = Some x" by (auto simp: nodes_of_def)
    show "x \<in> nodes_of a heap \<union> nodes_of b heap"
    proof (cases "i < length a")
      case False
      then have "i - length a < length b" using i(1) by simp
      then show ?thesis using i(2) n False by (auto simp: nodes_of_def)
    qed (use i n in \<open>auto simp: nodes_of_def\<close>)
  next
    fix x assume "x \<in> nodes_of a heap \<union> nodes_of b heap"
    then consider i where "i < length a" "node_at a heap i = Some x" | i where "i < length b" "node_at b heap i = Some x"
      by (auto simp: nodes_of_def)
    then show "x \<in> nodes_of (a @ b) heap"
    proof cases
      case (1 i)
      then show ?thesis using n[of i] by (auto simp: nodes_of_def intro: exI[of _ i])
    next
      case (2 i)
      then show ?thesis using n[of "length a + i"] by (auto simp: nodes_of_def intro: exI[of _ "length a + i"])
    qed
  qed
qed

lemma nodes_of_single: "nodes_of [s] heap = (case s of Used a \<Rightarrow> set_option (map_option enode (heap a)) | _ \<Rightarrow> {})"
  by (auto simp: nodes_of_def node_at_def split: slot.splits)

lemma no_used_no_nodes: "used_count es = 0 \<Longrightarrow> nodes_of es heap = {}"
  by (auto simp: used_count_def nodes_of_def node_at_def filter_empty_conv is_used_def in_set_conv_nth split: slot.splits)

lemma large_primes: "17 \<le> i \<Longrightarrow> i < 30 \<Longrightarrow> 1048573 \<le> nodestore_primes ! i"
proof -
  assume "17 \<le> i" "i < 30"
  then have "i = 17 \<or> i = 18 \<or> i = 19 \<or> i = 20 \<or> i = 21 \<or> i = 22 \<or> i = 23 \<or> i = 24 \<or> i = 25 \<or>
    i = 26 \<or> i = 27 \<or> i = 28 \<or> i = 29" by presburger
  then show ?thesis by (auto simp: nodestore_primes_def)
qed

lemma prime_search_result:
  assumes "n \<le> 1048573"
  shows "low \<le> 17 \<Longrightarrow> low \<le> high \<Longrightarrow> high < 30 \<and> n \<le> nodestore_primes ! high \<or> high = 30 \<Longrightarrow>
    prime_search n low high \<le> 17 \<and> n \<le> nodestore_primes ! prime_search n low high"
  using assms
proof (induction n low high rule: prime_search.induct)
  case (1 n low high)
  let ?mid = "low + (high - low) div 2"
  show ?case
  proof (cases "low < high")
    case True
    then have mid: "?mid < high" "low \<le> ?mid" "?mid < 30" using 1(5) by linarith+
    show ?thesis
    proof (cases "nodestore_primes ! ?mid < n")
      case True
      then have "\<not> 17 \<le> ?mid" using large_primes[of ?mid] mid(3) 1(6) by auto
      then have "prime_search n (?mid + 1) high \<le> 17 \<and> n \<le> nodestore_primes ! prime_search n (?mid + 1) high"
        using 1(1)[OF \<open>low < high\<close> refl True] mid 1(5,6) by simp
      then show ?thesis using \<open>low < high\<close> True by (simp add: prime_search.simps[of n low high] Let_def)
    next
      case False
      then have "prime_search n low ?mid \<le> 17 \<and> n \<le> nodestore_primes ! prime_search n low ?mid"
        using 1(2)[OF \<open>low < high\<close> refl False] mid 1(3,6) by simp
      then show ?thesis using \<open>low < high\<close> False by (simp add: prime_search.simps[of n low high] Let_def)
    qed
  next
    case False
    then have "prime_search n low high = low" by (subst prime_search.simps) simp
    then show ?thesis using False 1(3-5) by auto
  qed
qed

lemma higher_prime:
  assumes "n \<le> 1048573"
  shows "higher_prime_index n < length nodestore_primes" "good_size (nodestore_primes ! higher_prime_index n)"
    "n \<le> nodestore_primes ! higher_prime_index n"
proof -
  have "length nodestore_primes = 30" by (simp add: nodestore_primes_def)
  then have r: "higher_prime_index n \<le> 17" "n \<le> nodestore_primes ! higher_prime_index n"
    using prime_search_result[OF assms, of 0 30] by (simp_all add: higher_prime_index_def)
  with \<open>length nodestore_primes = 30\<close> show "higher_prime_index n < length nodestore_primes" "n \<le> nodestore_primes ! higher_prime_index n" by simp_all
  have "nodestore_primes ! higher_prime_index n = take 18 nodestore_primes ! higher_prime_index n" using r(1) by simp
  moreover have "higher_prime_index n < length (take 18 nodestore_primes)" using r(1) \<open>length nodestore_primes = 30\<close> by simp
  ultimately show "good_size (nodestore_primes ! higher_prime_index n)"
    using nth_mem[of "higher_prime_index n" "take 18 nodestore_primes"] by (simp only: good_size_def)
qed

text \<open>The entries \<open>pre\<close> are in the new table, and the entries \<open>ss\<close> follow.\<close>

lemma reinsert_all:
  assumes old: "table_ok osz (pre @ ss) (nodeHeap st)"
    and new: "table_ok (nsSize st) (entries st) (nodeHeap st)" "Tombstone \<notin> set (entries st)"
    and same: "nodes_of (entries st) (nodeHeap st) = nodes_of pre (nodeHeap st)" "used_count (entries st) = used_count pre"
    and cnt: "cnt = used_count (pre @ ss)" "cnt < unat (nsSize st)" "unat (nsSize st) \<le> fuel"
  shows "\<exists>es. reinsert fuel cnt ss (used_count pre) st = Done (st\<lparr>entries := es\<rparr>) \<and>
    table_ok (nsSize st) es (nodeHeap st) \<and> Tombstone \<notin> set es \<and>
    nodes_of es (nodeHeap st) = nodes_of (pre @ ss) (nodeHeap st) \<and> used_count es = cnt \<and>
    (\<forall>x. Used x \<in> set es \<longrightarrow> Used x \<in> set (entries st) \<or> Used x \<in> set ss)"
  using assms
proof (induction ss arbitrary: pre st)
  case Nil
  then show ?case by (intro exI[of _ "entries st"]) simp
next
  case (Cons s ss)
  note old = Cons(2) and new = Cons(3,4) and same = Cons(5,6) and cnt = Cons(7-9)
  show ?case
  proof (cases "used_count pre < cnt")
    case False
    then have "used_count (s # ss) = 0" using cnt(1) by (simp add: used_count_append)
    then have "nodes_of (s # ss) (nodeHeap st) = {}" by (rule no_used_no_nodes)
    with False show ?thesis
      using new same cnt(1) \<open>used_count (s # ss) = 0\<close>
      by (intro exI[of _ "entries st"]) (simp add: nodes_of_append used_count_append)
  next
    case True
    show ?thesis
    proof (cases "is_used s")
      case False
      then have "used_count (pre @ [s]) = used_count pre" "nodes_of (pre @ [s]) (nodeHeap st) = nodes_of pre (nodeHeap st)"
        by (auto simp: used_count_def nodes_of_append nodes_of_single is_used_def split: slot.splits)
      with Cons.IH[of "pre @ [s]" st] old new same cnt False True show ?thesis
        by (auto simp: is_used_def split: slot.splits)
    next
      case used: True
      then obtain a where a: "s = Used a" by (auto simp: is_used_def split: slot.splits)
      obtain e where e: "nodeHeap st a = Some e" using used_heap[OF old, of "length pre" a] a by auto
      let ?nid = "nodeId (enode e)"
      have at: "node_at (pre @ s # ss) (nodeHeap st) (length pre) = Some (enode e)" using a e by (simp add: node_at_def)
      then have id: "ident ?nid \<noteq> BadIdType" using table_id[OF old, of "length pre"] by simp
      have absent: "\<not> UA_NodeId_equal (nodeId n) ?nid" if n: "n \<in> nodes_of pre (nodeHeap st)" for n
      proof
        assume eq: "UA_NodeId_equal (nodeId n) ?nid"
        obtain i where i: "i < length pre" "node_at pre (nodeHeap st) i = Some n" using n by (auto simp: nodes_of_def)
        then have "node_at (pre @ s # ss) (nodeHeap st) i = Some n" by (simp add: node_at_def nth_append)
        then have "matches (nodeHeap st) ?nid ((pre @ s # ss) ! i)" using eq by (auto simp only: matches_node_at)
        moreover have "matches (nodeHeap st) ?nid ((pre @ s # ss) ! length pre)"
          using at UA_NodeId_equal_refl[OF id] by (auto simp only: matches_node_at)
        ultimately have "i = length pre" using table_ok_unique[OF old, of i "length pre"] i(1) by simp
        then show False using i(1) by simp
      qed
      then have none: "store_map st ?nid = None" using store_map_iff[OF new(1)] same(1) by (cases "store_map st ?nid") auto
      have len: "length (entries st) = unat (nsSize st)" using new(1) by (simp add: table_ok_def)
      obtain i0 where i0: "i0 < length (entries st)" "\<not> is_used (entries st ! i0)"
        using not_all_used[of "entries st"] same(2) True cnt(2) len by auto
      obtain k i where i: "findSlot fuel st ?nid = Done (Some i)" "i < length (entries st)" "\<not> is_used (entries st ! i)"
        "position (unat (nsSize st)) (UA_NodeId_hash ?nid) k = i"
        "\<And>j. j < k \<Longrightarrow> is_used (entries st ! position (unat (nsSize st)) (UA_NodeId_hash ?nid) j)"
        using findSlot_absent[OF new(1) none i0 cnt(3)] by metis
      have nm: "\<not> matches (nodeHeap st) ?nid (entries st ! j)" if "j < length (entries st)" for j
        using none that by (simp add: store_map_None)
      have na: "entries st ! j \<noteq> Used a" if "j < length (entries st)" for j
        using nm[OF that] e UA_NodeId_equal_refl[OF id] by (auto simp: matches_def)
      let ?st = "st\<lparr>entries := (entries st)[i := Used a]\<rparr>"
      have h: "(nodeHeap st)(a \<mapsto> e) = nodeHeap st" using e by (simp add: fun_upd_triv map_upd_triv)
      note p = put_slot[OF new(1) i(2,3) na nm id i(4,5), unfolded h]
      have c: "used_count (pre @ [s]) = Suc (used_count pre)" using a by (simp add: used_count_def is_used_def)
      have "\<exists>es. reinsert fuel cnt ss (used_count (pre @ [s])) ?st = Done (?st\<lparr>entries := es\<rparr>) \<and>
          table_ok (nsSize ?st) es (nodeHeap ?st) \<and> Tombstone \<notin> set es \<and>
          nodes_of es (nodeHeap ?st) = nodes_of ((pre @ [s]) @ ss) (nodeHeap ?st) \<and> used_count es = cnt \<and>
          (\<forall>x. Used x \<in> set es \<longrightarrow> Used x \<in> set (entries ?st) \<or> Used x \<in> set ss)"
      proof (rule Cons.IH)
        show "Tombstone \<notin> set (entries ?st)" using new(2) set_update_subset_insert[of "entries st" i "Used a"] by auto
        show "nodes_of (entries ?st) (nodeHeap ?st) = nodes_of (pre @ [s]) (nodeHeap ?st)"
          using p(2) same(1) a e by (simp add: nodes_of_append nodes_of_single)
        show "used_count (entries ?st) = used_count (pre @ [s])" using used_count_put[OF i(2,3), of a] same(2) c by simp
      qed (use old p(1) cnt in simp_all)
      then show ?thesis using a e True i(1) c set_update_subset_insert[of "entries st" i "Used a"]
        by (auto simp: deref_def)
    qed
  qed
qed

end
