(* ===== verification/NodeStoreMap.thy ===== *)
theory NodeStoreMap
  imports NodeStoreProps
begin

text \<open>
  The operations of the node store on consistent stores: it is a map from identifiers to nodes, as
  long as no node is inserted twice and the tombstones leave a free slot.
\<close>

section \<open>Expanding\<close>

text \<open>Enough memory, time and room: up to half a million nodes.\<close>

definition small_store :: "'a nodeStore \<Rightarrow> bool" where
  "small_store st \<longleftrightarrow> unat (nsCount st) \<le> 524286"

lemma store_map_cong:
  assumes "table_ok sz (entries st) (nodeHeap st)" "table_ok sz' (entries st') (nodeHeap st')"
    and "nodes_of (entries st) (nodeHeap st) = nodes_of (entries st') (nodeHeap st')"
  shows "store_map st = store_map st'"
  by (rule ext, rule option_eqI) (simp add: store_map_iff[OF assms(1)] store_map_iff[OF assms(2)] assms(3))

lemma twice:
  assumes "unat c \<le> 524286"
  shows "unat (c * 2 :: u32) = unat c * 2" "c * 2 \<le> (1048573 :: u32)"
proof -
  show u: "unat (c * 2) = unat c * 2" using assms by (subst unat_mult_lem[THEN iffD1]) simp_all
  show "c * 2 \<le> 1048573" using u assms by (simp add: word_le_nat_alt)
qed

lemma expand_store:
  assumes "store_ok st" "small_store st" "1048573 \<le> fuel"
  obtains rv st' where "expand fuel alloc st = Done (rv, st')" "store_ok st'" "store_map st' = store_map st"
    "nodeHeap st' = nodeHeap st" "nsCount st' = nsCount st" "alloc \<Longrightarrow> rv = GOOD"
    "\<And>a. Used a \<in> set (entries st') \<Longrightarrow> Used a \<in> set (entries st)"
    "Tombstone \<notin> set (entries st) \<Longrightarrow> Tombstone \<notin> set (entries st')"
    "alloc \<Longrightarrow> unat (nsCount st) < unat (nsSize st')"
proof -
  let ?c = "nsCount st"
  have t: "table_ok (nsSize st) (entries st) (nodeHeap st)" and c: "unat ?c = used_count (entries st)" "unat ?c \<le> 524286"
    using assms(1,2) by (simp_all add: store_ok_def small_store_def)
  note two = twice[OF c(2)]
  show ?thesis
  proof (cases "?c * 2 < nsSize st \<and> (?c * 8 > nsSize st \<or> nsSize st \<le> UA_NODESTORE_MINSIZE)")
    case True
    then have "unat ?c < unat (nsSize st)" using two(1) by (simp add: word_less_nat_alt)
    with True show ?thesis using that[of GOOD st] assms(1) by (simp add: expand_def Let_def)
  next
    case full: False
    let ?i = "higher_prime_index (?c * 2)"
    let ?st = "st\<lparr>entries := replicate (unat (nodestore_primes ! ?i)) Free, nsSize := nodestore_primes ! ?i, sizePrimeIndex := ?i\<rparr>"
    note hp = higher_prime[OF two(2)]
    have lt: "unat ?c < unat (nodestore_primes ! ?i)" "unat (nodestore_primes ! ?i) \<le> fuel"
      using hp(3) two(1) good_size_facts(3,4)[OF hp(2)] assms(3) by (simp_all add: word_le_nat_alt)
    show ?thesis
    proof (cases alloc)
      case False
      with full show ?thesis using that[of BADOUTOFMEMORY st] assms(1) hp(1) by (auto simp: expand_def Let_def)
    next
      case True
      have "\<exists>es. reinsert fuel (unat ?c) (entries st) (used_count []) ?st = Done (?st\<lparr>entries := es\<rparr>) \<and>
          table_ok (nsSize ?st) es (nodeHeap ?st) \<and> Tombstone \<notin> set es \<and>
          nodes_of es (nodeHeap ?st) = nodes_of ([] @ entries st) (nodeHeap ?st) \<and> used_count es = unat ?c \<and>
          (\<forall>x. Used x \<in> set es \<longrightarrow> Used x \<in> set (entries ?st) \<or> Used x \<in> set (entries st))"
      proof (rule reinsert_all)
        show "table_ok (nsSize st) ([] @ entries st) (nodeHeap ?st)" using t by simp
        show "nodes_of (entries ?st) (nodeHeap ?st) = nodes_of [] (nodeHeap ?st)"
          using empty_table(2)[OF hp(2)] by (simp add: nodes_of_def)
        show "used_count (entries ?st) = used_count []" using empty_table(3)[OF hp(2)] by (simp add: used_count_def)
      qed (use empty_table(1)[OF hp(2)] c lt in simp_all)
      then obtain es where es: "reinsert fuel (unat ?c) (entries st) 0 ?st = Done (?st\<lparr>entries := es\<rparr>)"
        "table_ok (nodestore_primes ! ?i) es (nodeHeap st)" "Tombstone \<notin> set es" "nodes_of es (nodeHeap st) = nodes_of (entries st) (nodeHeap st)"
        "used_count es = unat ?c" "\<And>x. Used x \<in> set es \<Longrightarrow> Used x \<in> set (entries st)"
        by (auto simp: used_count_def)
      let ?st' = "?st\<lparr>entries := es\<rparr>"
      have "expand fuel alloc st = Done (GOOD, ?st')" using full hp(1) es(1) True by (auto simp: expand_def Let_def)
      moreover have "store_ok ?st'" using es(2,5) by (simp add: store_ok_def)
      moreover have "store_map ?st' = store_map st"
        by (rule store_map_cong[of "nodestore_primes ! ?i" _ "nsSize st"]) (use es(2,4) t in simp_all)
      ultimately show ?thesis using that[of GOOD ?st'] es(3,6) lt(1) by simp
    qed
  qed
qed

section \<open>Looking up, inserting and removing\<close>

lemma get_present:
  assumes "table_ok (nsSize st) (entries st) (nodeHeap st)" "store_map st i \<noteq> None" "unat (nsSize st) \<le> fuel"
  obtains k a e where "findNode fuel st i = Done (Some k)" "k < length (entries st)" "entries st ! k = Used a"
    "nodeHeap st a = Some e" "store_map st i = Some (enode e)" "UA_NodeId_equal (nodeId (enode e)) i"
proof -
  obtain k where k: "k < length (entries st)" "matches (nodeHeap st) i (entries st ! k)"
    using assms(2) by (auto simp: store_map_None)
  then obtain a e where a: "entries st ! k = Used a" "nodeHeap st a = Some e" "UA_NodeId_equal (nodeId (enode e)) i"
    by (auto simp: matches_def split: slot.splits option.splits)
  have "store_map st i = Some (enode e)" using store_map_Some[OF assms(1) k] a by (simp add: node_at_def)
  then show ?thesis using that findNode_present[OF assms(1) k assms(3)] k(1) a by blast
qed

text \<open>Putting a node with an identifier that is not in the store.\<close>

lemma put_node_store:
  assumes "store_ok st" "small_store st" "unat (nsCount st) < unat (nsSize st)" "1048573 \<le> fuel"
    and "ident (nodeId (enode e)) \<noteq> BadIdType" "store_map st (nodeId (enode e)) = None" "Used a \<notin> set (entries st)"
  obtains k where "findSlot fuel st (nodeId (enode e)) = Done (Some k)" "store_ok (put_node k a e st)"
    "store_map (put_node k a e st) = (\<lambda>x. if UA_NodeId_equal (nodeId (enode e)) x then Some (enode e) else store_map st x)"
proof -
  let ?nid = "nodeId (enode e)"
  have t: "table_ok (nsSize st) (entries st) (nodeHeap st)" and c: "unat (nsCount st) = used_count (entries st)"
    using assms(1) by (simp_all add: store_ok_def)
  have sz: "good_size (nsSize st)" "length (entries st) = unat (nsSize st)" using t by (simp_all add: table_ok_def)
  obtain i0 where i0: "i0 < length (entries st)" "\<not> is_used (entries st ! i0)"
    using not_all_used[of "entries st"] assms(3) c sz(2) by auto
  have fuel: "unat (nsSize st) \<le> fuel" using good_size_facts(4)[OF sz(1)] assms(4) by simp
  obtain k i where i: "findSlot fuel st ?nid = Done (Some i)" "i < length (entries st)" "\<not> is_used (entries st ! i)"
    "position (unat (nsSize st)) (UA_NodeId_hash ?nid) k = i"
    "\<And>j. j < k \<Longrightarrow> is_used (entries st ! position (unat (nsSize st)) (UA_NodeId_hash ?nid) j)"
    using findSlot_absent[OF t assms(6) i0 fuel] by metis
  have nm: "\<not> matches (nodeHeap st) ?nid (entries st ! j)" if "j < length (entries st)" for j
    using assms(6) that by (simp add: store_map_None)
  have na: "entries st ! j \<noteq> Used a" if "j < length (entries st)" for j
    using assms(7) nth_mem[OF that] by metis
  note p = put_slot[OF t i(2,3) na nm assms(5) i(4,5)]
  have "unat (nsCount st + 1) = unat (nsCount st) + 1"
    using assms(2) by (subst unat_add_lem[THEN iffD1]) (simp_all add: small_store_def)
  then have ok: "store_ok (put_node i a e st)"
    using p(1) used_count_put[OF i(2,3), of a] c by (simp add: store_ok_def put_node_def)
  then have t': "table_ok (nsSize st) (entries (put_node i a e st)) (nodeHeap (put_node i a e st))"
    by (simp add: store_ok_def put_node_def)
  have "store_map (put_node i a e st) x = (if UA_NodeId_equal ?nid x then Some (enode e) else store_map st x)" for x
  proof (rule option_eqI)
    fix n
    have new: "UA_NodeId_equal (nodeId n) x \<Longrightarrow> UA_NodeId_equal ?nid x \<Longrightarrow> n \<notin> nodes_of (entries st) (nodeHeap st)"
      using store_map_iff[OF t, of ?nid n] assms(6) UA_NodeId_equal_trans[OF _ UA_NodeId_equal_sym, of "nodeId n" x ?nid] by auto
    have m: "store_map (put_node i a e st) x = Some n \<longleftrightarrow>
        (n = enode e \<or> n \<in> nodes_of (entries st) (nodeHeap st)) \<and> UA_NodeId_equal (nodeId n) x"
      using store_map_iff[OF t', of x n] p(2) by (simp add: put_node_def)
    show "store_map (put_node i a e st) x = Some n \<longleftrightarrow> (if UA_NodeId_equal ?nid x then Some (enode e) else store_map st x) = Some n"
      using m new by (auto simp: store_map_iff[OF t])
  qed
  with ok i(1) show ?thesis using that by blast
qed

text \<open>The test that comes before an insertion, with memory for the table.\<close>

lemma insert_expand:
  assumes "store_ok st" "small_store st" "1048573 \<le> fuel"
  obtains st1 where "(if nsSize st * 3 \<le> nsCount st * 4 then expand fuel True st else Done (GOOD, st)) = Done (GOOD, st1)"
    "store_ok st1" "store_map st1 = store_map st" "nodeHeap st1 = nodeHeap st" "nsCount st1 = nsCount st"
    "unat (nsCount st) < unat (nsSize st1)" "\<And>a. Used a \<in> set (entries st1) \<Longrightarrow> Used a \<in> set (entries st)"
    "Tombstone \<notin> set (entries st) \<Longrightarrow> Tombstone \<notin> set (entries st1)"
proof (cases "nsSize st * 3 \<le> nsCount st * 4")
  case True
  obtain rv st1 where e: "expand fuel True st = Done (rv, st1)" "store_ok st1" "store_map st1 = store_map st"
    "nodeHeap st1 = nodeHeap st" "nsCount st1 = nsCount st" "rv = GOOD"
    "\<And>a. Used a \<in> set (entries st1) \<Longrightarrow> Used a \<in> set (entries st)"
    "Tombstone \<notin> set (entries st) \<Longrightarrow> Tombstone \<notin> set (entries st1)" "unat (nsCount st) < unat (nsSize st1)"
    using expand_store[where alloc = True, OF assms] by metis
  show ?thesis by (rule that[of st1]) (use e True in simp_all)
next
  case False
  have sz: "good_size (nsSize st)" using assms(1) by (simp add: store_ok_def table_ok_def)
  have "unat (nsSize st * 3) = unat (nsSize st) * 3" "unat (nsCount st * 4) = unat (nsCount st) * 4"
    using good_size_facts(4)[OF sz] assms(2) by (simp_all add: small_store_def unat_mult_lem[THEN iffD1])
  then have "unat (nsCount st) < unat (nsSize st)" using False by (simp add: word_le_nat_alt)
  then show ?thesis by (intro that[of st]) (use assms(1) False in simp_all)
qed

text \<open>An entry that is not in the table may be changed and freed.\<close>

lemma heap_outside:
  assumes "store_ok st" "Used a \<notin> set (entries st)"
  shows "store_ok (st\<lparr>nodeHeap := (nodeHeap st)(a := x)\<rparr>)"
    "store_map (st\<lparr>nodeHeap := (nodeHeap st)(a := x)\<rparr>) = store_map st"
proof -
  let ?st = "st\<lparr>nodeHeap := (nodeHeap st)(a := x)\<rparr>"
  have t: "table_ok (nsSize st) (entries st) (nodeHeap st)" using assms(1) by (simp add: store_ok_def)
  have na: "entries st ! i \<noteq> Used a" if "i < length (entries st)" for i using assms(2) nth_mem[OF that] by metis
  have at: "node_at (entries st) (nodeHeap ?st) i = node_at (entries st) (nodeHeap st) i" if "i < length (entries st)" for i
    using na[OF that] by (auto simp: node_at_def split: slot.splits)
  have t': "table_ok (nsSize st) (entries st) (nodeHeap ?st)"
    using t at na unfolding table_ok_def by simp
  then show "store_ok ?st" using assms(1) by (simp add: store_ok_def)
  show "store_map ?st = store_map st"
    by (rule store_map_cong[of "nsSize st" _ "nsSize st"]) (use t t' at in \<open>auto simp: nodes_of_def\<close>)
qed

text \<open>Replacing the entry of a node by another of the same identifier.\<close>

lemma swap_entry:
  assumes "store_ok st" "k < length (entries st)" "entries st ! k = Used old" "nodeHeap st old = Some e0"
    and "nodeHeap st a = Some e" "Used a \<notin> set (entries st)"
    and "UA_NodeId_equal (nodeId (enode e0)) (nodeId (enode e))" "ident (nodeId (enode e)) \<noteq> BadIdType"
  defines "st' \<equiv> st\<lparr>nodeHeap := (nodeHeap st)(old := None), entries := (entries st)[k := Used a]\<rparr>"
  shows "store_ok st'"
    "store_map st' = (\<lambda>x. if UA_NodeId_equal (nodeId (enode e)) x then Some (enode e) else store_map st x)"
proof -
  let ?es = "(entries st)[k := Tombstone]" and ?heap = "(nodeHeap st)(old := None)" and ?nid = "nodeId (enode e)"
  have t: "table_ok (nsSize st) (entries st) (nodeHeap st)" using assms(1) by (simp add: store_ok_def)
  note b = bury_slot[OF t assms(2-4)]
  have ne: "a \<noteq> old" using assms(2,3,6) nth_mem by force
  have na: "?es ! j \<noteq> Used a" if "j < length ?es" for j
    using assms(2,6) that nth_mem[of j "entries st"] by (cases "j = k") (simp, metis length_list_update nth_list_update_neq)
  have nm: "\<not> matches ?heap ?nid (?es ! j)" if "j < length ?es" for j
  proof
    assume "matches ?heap ?nid (?es ! j)"
    then obtain n where n: "node_at ?es ?heap j = Some n" "UA_NodeId_equal (nodeId n) ?nid" by (auto simp: matches_node_at)
    then have "n \<in> nodes_of ?es ?heap" using that by (auto simp: nodes_of_def)
    then have "\<not> UA_NodeId_equal (nodeId n) (nodeId (enode e0))" using b(2) by simp
    then show False using UA_NodeId_equal_trans[OF n(2) UA_NodeId_equal_sym[OF assms(7)]] by simp
  qed
  have m: "matches (nodeHeap st) ?nid (entries st ! k)" using assms(3,4,7) by (simp add: matches_def)
  obtain q where q: "position (unat (nsSize st)) (UA_NodeId_hash ?nid) q = k"
    "\<And>j. j < q \<Longrightarrow> entries st ! position (unat (nsSize st)) (UA_NodeId_hash ?nid) j \<noteq> Free"
    using table_reach[OF t assms(2) m] by (auto simp: reachable_def)
  have q2: "?es ! position (unat (nsSize st)) (UA_NodeId_hash ?nid) j \<noteq> Free" if "j < q" for j
    using q(2)[OF that] assms(2) by (cases "position (unat (nsSize st)) (UA_NodeId_hash ?nid) j = k") auto
  have k: "k < length ?es" "\<not> is_used (?es ! k)" using assms(2) by (simp_all add: is_used_def)
  have h: "?heap(a \<mapsto> e) = ?heap" using assms(5) ne by (auto simp: fun_eq_iff)
  have l: "?es[k := Used a] = (entries st)[k := Used a]" by simp
  note r = put_slot_reachable[OF b(1) k na nm assms(8) q(1) q2, unfolded h l]
  have u: "used_count ((entries st)[k := Used a]) = used_count (entries st)"
    using used_count_put[OF k, of a] used_count_bury[OF assms(2)] assms(3) by (simp add: is_used_def)
  then show ok: "store_ok st'" using r(1) assms(1) by (simp add: store_ok_def st'_def)
  have t': "table_ok (nsSize st) (entries st') (nodeHeap st')" using r(1) by (simp add: st'_def)
  show "store_map st' = (\<lambda>x. if UA_NodeId_equal ?nid x then Some (enode e) else store_map st x)"
  proof (rule ext, rule option_eqI)
    fix x n
    have n: "store_map st' x = Some n \<longleftrightarrow> (n = enode e \<or> n \<in> nodes_of (entries st) (nodeHeap st) \<and>
        \<not> UA_NodeId_equal (nodeId n) (nodeId (enode e0))) \<and> UA_NodeId_equal (nodeId n) x"
      using store_map_iff[OF t', of x n] r(2) b(2) by (auto simp: st'_def)
    have "UA_NodeId_equal (nodeId n) x \<Longrightarrow> UA_NodeId_equal (nodeId n) (nodeId (enode e0)) \<longleftrightarrow> UA_NodeId_equal ?nid x"
      using assms(7) UA_NodeId_equal_trans UA_NodeId_equal_sym by blast
    then show "store_map st' x = Some n \<longleftrightarrow> (if UA_NodeId_equal ?nid x then Some (enode e) else store_map st x) = Some n"
      using n store_map_iff[OF t, of x n] by auto
  qed
qed

section \<open>Stores as examples\<close>

text \<open>A new store.\<close>

lemma new_store:
  "\<exists>st. UA_NodeStore_new True True heap = Some st \<and> store_ok st \<and> small_store st \<and> store_map st = Map.empty \<and>
    Free \<in> set (entries st) \<and> Tombstone \<notin> set (entries st) \<and> (\<forall>a. Used a \<notin> set (entries st)) \<and> nodeHeap st = heap \<and>
    nsCount st = 0 \<and> unat (nsSize st) \<le> 1048573"
proof -
  let ?i = "higher_prime_index UA_NODESTORE_MINSIZE"
  let ?st = "\<lparr> entries = replicate (unat (nodestore_primes ! ?i)) Free, nsSize = nodestore_primes ! ?i, nsCount = 0, sizePrimeIndex = ?i, nodeHeap = heap \<rparr>"
  have g: "good_size (nodestore_primes ! ?i)" by (rule higher_prime) simp
  note e = empty_table[OF g]
  have t: "table_ok (nodestore_primes ! ?i) (entries ?st) (nodeHeap ?st)" using e(1) by simp
  have "store_map ?st x = None" for x
    using store_map_iff[OF t, of x] e(2) by (cases "store_map ?st x") auto
  then show ?thesis
    using e good_size_facts(3,4)[OF g]
    by (intro exI[of _ ?st]) (auto simp: UA_NodeStore_new_def store_ok_def small_store_def Let_def)
qed

text \<open>Nodes without content, as examples.\<close>

definition bare_node :: "nodeid \<Rightarrow> unit nodeEntry" where
  "bare_node i = \<lparr> orig = None, enode = \<lparr> nodeId = i, nodeClass = UA_NODECLASS_OBJECT, nodeContent = () \<rparr> \<rparr>"

definition demo_nid :: "nat \<Rightarrow> nodeid" where
  "demo_nid k = UA_NODEID_NUMERIC (of_nat k) 1"

lemma nid_facts [simp]:
  "\<not> UA_NodeId_isNull ((demo_nid k)\<lparr>namespaceIndex := 0\<rparr>)" "UA_NodeId_equal (demo_nid k) (demo_nid k)"
  by (simp_all add: demo_nid_def UA_NODEID_NUMERIC_def UA_NodeId_isNull_def UA_NodeId_equal_def)

lemma one_node_store:
  "\<exists>st. store_ok st \<and> small_store st \<and> unat (nsSize st) \<le> 1048573 \<and>
    store_map st (demo_nid 5) = Some (enode (bare_node (demo_nid 5))) \<and> nodeHeap st = [1 \<mapsto> bare_node (demo_nid 5)]"
proof -
  let ?e = "bare_node (demo_nid 5)"
  obtain st :: "unit nodeStore" where st: "store_ok st" "small_store st" "store_map st = Map.empty" "Free \<in> set (entries st)"
    "\<forall>a. Used a \<notin> set (entries st)" "nodeHeap st = Map.empty" "nsCount st = 0"
    using new_store[of "Map.empty"] by auto
  have t: "good_size (nsSize st)" using st(1) by (simp add: store_ok_def table_ok_def)
  note sz = good_size_facts[OF t]
  have id: "ident (nodeId (enode ?e)) \<noteq> BadIdType" "nodeId (enode ?e) = demo_nid 5"
    by (simp_all add: bare_node_def demo_nid_def UA_NODEID_NUMERIC_def)
  obtain k where "store_ok (put_node k 1 ?e st)"
    "store_map (put_node k 1 ?e st) = (\<lambda>x. if UA_NodeId_equal (demo_nid 5) x then Some (enode ?e) else store_map st x)"
    using put_node_store[OF st(1,2) _ order.refl, of ?e 1] st(3,5,7) sz(3) id by auto
  then show ?thesis using st sz(4) by (intro exI[of _ "put_node k 1 ?e st"]) (simp add: put_node_def small_store_def)
qed

lemma store_get:
  assumes "store_ok st" "unat (nsSize st) \<le> fuel"
  shows "UA_NodeStore_get fuel st i =
    (if store_map st i = None \<and> Free \<notin> set (entries st) then OutOfFuel else Done (store_map st i))"
proof (cases "store_map st i = None")
  case True
  have t: "table_ok (nsSize st) (entries st) (nodeHeap st)" using assms(1) by (simp add: store_ok_def)
  from findNode_absent[OF t True] assms(2) True show ?thesis by (cases "Free \<in> set (entries st)") (simp_all add: UA_NodeStore_get_def)
next
  case False
  have "table_ok (nsSize st) (entries st) (nodeHeap st)" using assms(1) by (simp add: store_ok_def)
  then obtain k a e where "findNode fuel st i = Done (Some k)" "entries st ! k = Used a" "nodeHeap st a = Some e"
    "store_map st i = Some (enode e)"
    using get_present[OF _ False assms(2)] by metis
  then show ?thesis by (simp add: UA_NodeStore_get_def slot_entry_def deref_def)
qed

section \<open>Properties\<close>

text \<open>
  C12. Looking a node up: in a consistent store the search returns the node with the identifier, or
  \<open>NULL\<close> when there is none, except that it runs for ever when there is none and every slot holds a
  node or a tombstone.
\<close>

theorem nodestore_get:
  assumes "store_ok st" "unat (nsSize st) \<le> fuel"
  shows "UA_NodeStore_get fuel st i =
    (if store_map st i = None \<and> Free \<notin> set (entries st) then OutOfFuel else Done (store_map st i))"
  using assms by (rule store_get)

theorem nodestore_get_witness:
  "\<exists>st :: unit nodeStore. UA_NodeStore_new True True Map.empty = Some st \<and> UA_NodeStore_get 1048573 st (demo_nid 5) = Done None"
proof -
  obtain st :: "unit nodeStore" where "UA_NodeStore_new True True Map.empty = Some st" "store_ok st" "store_map st = Map.empty"
    "Free \<in> set (entries st)" "unat (nsSize st) \<le> 1048573"
    using new_store[of Map.empty] by auto
  with nodestore_get[of st 1048573 "demo_nid 5"] show ?thesis by auto
qed

text \<open>
  C11. Inserting a node: a node with a new identifier is added to the map and nothing else changes; a
  node whose identifier is in a store without tombstones is refused and freed.
\<close>

theorem nodestore_insert:
  assumes "store_ok st" "small_store st" "1048573 \<le> fuel"
    and "nodeHeap st a = Some e" "Used a \<notin> set (entries st)" "nid = nodeId (enode e)"
    and "ident nid \<noteq> BadIdType" "\<not> UA_NodeId_isNull (nid\<lparr>namespaceIndex := 0\<rparr>)"
  shows "(store_map st nid = None \<longrightarrow> (\<exists>st'. UA_NodeStore_insert fuel True a st = Done (GOOD, st') \<and> store_ok st' \<and>
      nsCount st' = nsCount st + 1 \<and>
      store_map st' = (\<lambda>x. if UA_NodeId_equal nid x then Some (enode e) else store_map st x))) \<and>
    (store_map st nid \<noteq> None \<and> Tombstone \<notin> set (entries st) \<longrightarrow>
      (\<exists>st'. UA_NodeStore_insert fuel True a st = Done (BADNODEIDEXISTS, st') \<and> store_ok st' \<and>
        store_map st' = store_map st \<and> nodeHeap st' = (nodeHeap st)(a := None)))"
proof -
  obtain st1 where x: "(if nsSize st * 3 \<le> nsCount st * 4 then expand fuel True st else Done (GOOD, st)) = Done (GOOD, st1)"
    "store_ok st1" "store_map st1 = store_map st" "nodeHeap st1 = nodeHeap st" "nsCount st1 = nsCount st"
    "unat (nsCount st) < unat (nsSize st1)" "\<And>a. Used a \<in> set (entries st1) \<Longrightarrow> Used a \<in> set (entries st)"
    "Tombstone \<notin> set (entries st) \<Longrightarrow> Tombstone \<notin> set (entries st1)"
    using insert_expand[OF assms(1-3)] by blast
  have t: "table_ok (nsSize st1) (entries st1) (nodeHeap st1)" using x(2) by (simp add: store_ok_def)
  have na: "Used a \<notin> set (entries st1)" using x(7) assms(5) by blast
  have small: "small_store st1" using assms(2) x(5) by (simp add: small_store_def)
  have ins: "UA_NodeStore_insert fuel True a st = bind (findSlot fuel st1 nid) (\<lambda>r. case r of
        None \<Rightarrow> Done (BADNODEIDEXISTS, st1\<lparr>nodeHeap := (nodeHeap st1)(a := None)\<rparr>)
      | Some i \<Rightarrow> Done (GOOD, put_node i a e st1))"
    unfolding UA_NodeStore_insert_def x(1) using assms(4,6,8) x(4)
    by (simp add: deref_def UA_NodeStore_deleteNode_def deleteEntry_def Let_def cong: option.case_cong)
  have new: "\<exists>st'. UA_NodeStore_insert fuel True a st = Done (GOOD, st') \<and> store_ok st' \<and> nsCount st' = nsCount st + 1 \<and>
      store_map st' = (\<lambda>x. if UA_NodeId_equal nid x then Some (enode e) else store_map st x)"
    if none: "store_map st nid = None"
  proof -
    obtain k where "findSlot fuel st1 nid = Done (Some k)" "store_ok (put_node k a e st1)"
      "store_map (put_node k a e st1) = (\<lambda>x. if UA_NodeId_equal nid x then Some (enode e) else store_map st x)"
      using put_node_store[OF x(2) small _ assms(3) _ _ na, of e] assms(6,7) none x(3,5,6) by metis
    with ins x(5) show ?thesis by (intro exI[of _ "put_node k a e st1"]) (simp add: put_node_def)
  qed
  have old: "\<exists>st'. UA_NodeStore_insert fuel True a st = Done (BADNODEIDEXISTS, st') \<and> store_ok st' \<and>
      store_map st' = store_map st \<and> nodeHeap st' = (nodeHeap st)(a := None)"
    if there: "store_map st nid \<noteq> None" "Tombstone \<notin> set (entries st)"
  proof -
    have "unat (nsSize st1) \<le> fuel" using good_size_facts(4)[of "nsSize st1"] t assms(3) by (simp add: table_ok_def)
    then have "findSlot fuel st1 nid = Done None" using findSlot_present[OF t _ x(8)[OF there(2)]] there(1) x(3) by simp
    moreover note heap_outside[OF x(2) na, of None]
    ultimately show ?thesis using ins x(3,4) by simp
  qed
  from new old show ?thesis by blast
qed

theorem nodestore_insert_witness:
  "\<exists>st st'. UA_NodeStore_new True True [1 \<mapsto> bare_node (demo_nid 5)] = Some st \<and>
    UA_NodeStore_insert 1048573 True 1 st = Done (GOOD, st') \<and> store_map st' (demo_nid 5) = Some (enode (bare_node (demo_nid 5)))"
proof -
  obtain st where st: "UA_NodeStore_new True True [1 \<mapsto> bare_node (demo_nid 5)] = Some st" "store_ok st" "small_store st"
    "store_map st = Map.empty" "\<forall>a. Used a \<notin> set (entries st)" "nodeHeap st = [1 \<mapsto> bare_node (demo_nid 5)]"
    using new_store[of "[1 \<mapsto> bare_node (demo_nid 5)]"] by auto
  have i: "demo_nid 5 = nodeId (enode (bare_node (demo_nid 5)))" "ident (demo_nid 5) \<noteq> BadIdType"
    by (simp_all add: bare_node_def demo_nid_def UA_NODEID_NUMERIC_def)
  show ?thesis
    using nodestore_insert[OF st(2,3) order.refl, of 1 "bare_node (demo_nid 5)" "demo_nid 5"] st i by auto
qed

text \<open>
  C13. Removing a node: it is no longer in the map and its entry is freed, and everything else stays,
  also when the table shrinks or cannot shrink.
\<close>

theorem nodestore_remove:
  assumes "store_ok st" "small_store st" "1048573 \<le> fuel" "store_map st i = Some n"
  shows "\<exists>st' a. UA_NodeStore_remove fuel alloc i st = Done (GOOD, st') \<and> store_ok st' \<and>
    nsCount st' = nsCount st - 1 \<and> store_map st' = (\<lambda>x. if UA_NodeId_equal i x then None else store_map st x) \<and>
    map_option enode (nodeHeap st a) = Some n \<and> nodeHeap st' = (nodeHeap st)(a := None)"
proof -
  have t: "table_ok (nsSize st) (entries st) (nodeHeap st)" and c: "unat (nsCount st) = used_count (entries st)"
    using assms(1) by (simp_all add: store_ok_def)
  have fuel: "unat (nsSize st) \<le> fuel" using good_size_facts(4)[of "nsSize st"] t assms(3) by (simp add: table_ok_def)
  obtain k a e where k: "findNode fuel st i = Done (Some k)" "k < length (entries st)" "entries st ! k = Used a"
    "nodeHeap st a = Some e" "enode e = n" "UA_NodeId_equal (nodeId (enode e)) i"
    using get_present[OF t _ fuel, of i] assms(4) by (metis option.distinct(1) option.inject)
  let ?st = "st\<lparr>nodeHeap := (nodeHeap st)(a := None), entries := (entries st)[k := Tombstone], nsCount := nsCount st - 1\<rparr>"
  note b = bury_slot[OF t k(2-4)]
  have u: "is_used (entries st ! k)" using k(3) by (simp add: is_used_def)
  have c': "Suc (used_count ((entries st)[k := Tombstone])) = used_count (entries st)" by (rule used_count_bury[OF k(2) u])
  have "nsCount st \<noteq> 0" using c c' by (auto simp: unat_eq_zero)
  then have cnt: "unat (nsCount st - 1) = unat (nsCount st) - 1" by (simp add: unat_sub_if' unat_gt_0 Suc_le_eq)
  have ok: "store_ok ?st" using b(1) cnt c c' by (simp add: store_ok_def)
  have small: "small_store ?st" using assms(2) cnt by (simp add: small_store_def)
  have map: "store_map ?st = (\<lambda>x. if UA_NodeId_equal i x then None else store_map st x)"
  proof (rule ext, rule option_eqI)
    fix x m
    have t': "table_ok (nsSize st) (entries ?st) (nodeHeap ?st)" using b(1) by simp
    have m: "store_map ?st x = Some m \<longleftrightarrow> m \<in> nodes_of (entries st) (nodeHeap st) \<and>
        \<not> UA_NodeId_equal (nodeId m) (nodeId (enode e)) \<and> UA_NodeId_equal (nodeId m) x"
      using store_map_iff[OF t', of x m] b(2) by auto
    have "UA_NodeId_equal (nodeId m) x \<Longrightarrow> UA_NodeId_equal (nodeId m) (nodeId (enode e)) \<longleftrightarrow> UA_NodeId_equal i x"
      using k(6) UA_NodeId_equal_trans UA_NodeId_equal_sym by blast
    then show "store_map ?st x = Some m \<longleftrightarrow> (if UA_NodeId_equal i x then None else store_map st x) = Some m"
      using m store_map_iff[OF t, of x m] by auto
  qed
  have rem: "UA_NodeStore_remove fuel alloc i st =
      (if nsCount ?st * 8 < nsSize ?st \<and> nsSize ?st > 32 then bind (expand fuel alloc ?st) (\<lambda>(rv, st3). Done (GOOD, st3))
       else Done (GOOD, ?st))"
    using k(1,3,4) by (simp add: UA_NodeStore_remove_def slot_entry_def deleteEntry_def deref_def Let_def)
  obtain rv st' where e: "expand fuel alloc ?st = Done (rv, st')" "store_ok st'" "store_map st' = store_map ?st"
    "nodeHeap st' = nodeHeap ?st" "nsCount st' = nsCount ?st"
    using expand_store[OF ok small assms(3)] by metis
  have "\<exists>st'. UA_NodeStore_remove fuel alloc i st = Done (GOOD, st') \<and> store_ok st' \<and> store_map st' = store_map ?st \<and>
      nodeHeap st' = nodeHeap ?st \<and> nsCount st' = nsCount ?st"
  proof (cases "nsCount ?st * 8 < nsSize ?st \<and> nsSize ?st > 32")
    case True
    then have "UA_NodeStore_remove fuel alloc i st = Done (GOOD, st')" using rem e(1) by simp
    with e show ?thesis by blast
  next
    case False
    then have "UA_NodeStore_remove fuel alloc i st = Done (GOOD, ?st)" using rem by auto
    with ok show ?thesis by blast
  qed
  then obtain st'' where "UA_NodeStore_remove fuel alloc i st = Done (GOOD, st'')" "store_ok st''" "store_map st'' = store_map ?st"
    "nodeHeap st'' = (nodeHeap st)(a := None)" "nsCount st'' = nsCount st - 1" by auto
  then show ?thesis using map k(4,5) by (intro exI[of _ st''] exI[of _ a]) simp
qed

theorem nodestore_remove_witness:
  "\<exists>st st'. store_map st (demo_nid 5) = Some (enode (bare_node (demo_nid 5))) \<and>
    UA_NodeStore_remove 1048573 True (demo_nid 5) st = Done (GOOD, st') \<and> store_map st' (demo_nid 5) = None"
proof -
  obtain st where st: "store_ok st" "small_store st" "store_map st (demo_nid 5) = Some (enode (bare_node (demo_nid 5)))"
    using one_node_store by auto
  from nodestore_remove[OF st(1,2) order.refl st(3), of True] st(3) show ?thesis by auto
qed

text \<open>The holder of a copy edits it.\<close>

definition edit_copy :: "nat \<Rightarrow> 'a \<Rightarrow> 'a nodeStore \<Rightarrow> 'a nodeStore" where
  "edit_copy a c st = st\<lparr>nodeHeap := (nodeHeap st)(a :=
     map_option (\<lambda>e. e\<lparr>enode := (enode e)\<lparr>nodeContent := c\<rparr>\<rparr>) (nodeHeap st a))\<rparr>"

lemma getCopy_store:
  assumes "store_ok st" "unat (nsSize st) \<le> fuel" "findNode fuel st i = Done (Some k)" "entries st ! k = Used old"
    "nodeHeap st old = Some e" "nodeClass (enode e) \<noteq> UA_NODECLASS_UNSPECIFIED"
  shows "UA_NodeStore_getCopy fuel True True a zero i st =
    Done (Some a, st\<lparr>nodeHeap := (nodeHeap st)(a \<mapsto> \<lparr> orig = Some old, enode = enode e \<rparr>)\<rparr>)"
  using assms by (simp add: UA_NodeStore_getCopy_def slot_entry_def deref_def instantiateEntry_def)

text \<open>
  No update of a node is lost: when two copies of a node are taken and edited, the first that
  comes back replaces the node, and the second is refused and freed.
\<close>

theorem lost_update_refused:
  assumes "store_ok st" "unat (nsSize st) \<le> fuel" "store_map st i = Some n" "nodeClass n \<noteq> UA_NODECLASS_UNSPECIFIED"
    and "nodeHeap st a = None" "nodeHeap st b = None" "a \<noteq> b"
  shows "\<exists>st'.
    bind (UA_NodeStore_getCopy fuel True True a zero i st) (\<lambda>(ra, st1).
    bind (UA_NodeStore_getCopy fuel True True b zero i st1) (\<lambda>(rb, st2).
    bind (UA_NodeStore_replace fuel a (edit_copy a c st2)) (\<lambda>(rv1, st3).
    bind (UA_NodeStore_replace fuel b (edit_copy b d st3)) (\<lambda>(rv2, st4). Done (ra, rb, rv1, rv2, st4))))) =
      Done (Some a, Some b, GOOD, BADINTERNALERROR, st') \<and>
    store_ok st' \<and> store_map st' = (\<lambda>x. if UA_NodeId_equal i x then Some (n\<lparr>nodeContent := c\<rparr>) else store_map st x)"
proof -
  have t: "table_ok (nsSize st) (entries st) (nodeHeap st)" using assms(1) by (simp add: store_ok_def)
  obtain k old e where k: "findNode fuel st i = Done (Some k)" "k < length (entries st)" "entries st ! k = Used old"
    "nodeHeap st old = Some e" "enode e = n" "UA_NodeId_equal (nodeId (enode e)) i"
    using get_present[OF t _ assms(2), of i] assms(3) by (metis option.distinct(1) option.inject)
  have na: "Used x \<notin> set (entries st)" if x: "nodeHeap st x = None" for x
  proof
    assume "Used x \<in> set (entries st)"
    then obtain j where "j < length (entries st)" "entries st ! j = Used x" unfolding in_set_conv_nth by blast
    then show False using used_heap[OF t] x by fastforce
  qed
  have id: "ident (nodeId n) \<noteq> BadIdType" using table_id[OF t k(2), of n] k(3-5) by (simp add: node_at_def)
  define cp where "cp = \<lparr> orig = Some old, enode = n \<rparr>"
  define e1 where "e1 = \<lparr> orig = Some old, enode = n\<lparr>nodeContent := c\<rparr> \<rparr>"
  define st1 where "st1 = st\<lparr>nodeHeap := (nodeHeap st)(a \<mapsto> cp)\<rparr>"
  define st2 where "st2 = st1\<lparr>nodeHeap := (nodeHeap st1)(b \<mapsto> cp)\<rparr>"
  define st3 where "st3 = st2\<lparr>nodeHeap := (nodeHeap st2)(a \<mapsto> e1)\<rparr>"
  define st4 where "st4 = st3\<lparr>nodeHeap := (nodeHeap st3)(old := None), entries := (entries st3)[k := Used a]\<rparr>"
  define st5 where "st5 = st4\<lparr>nodeHeap := (nodeHeap st4)(b \<mapsto> cp\<lparr>enode := n\<lparr>nodeContent := d\<rparr>\<rparr>)\<rparr>"
  define st6 where "st6 = st5\<lparr>nodeHeap := (nodeHeap st5)(b := None)\<rparr>"
  note defs = st1_def st2_def st3_def st4_def st5_def st6_def
  have ne: "old \<noteq> a" "old \<noteq> b" "a \<noteq> b" using k(4) assms(5-7) by auto
  have e: "entries st1 = entries st" "entries st2 = entries st" "entries st3 = entries st"
    "nsSize st1 = nsSize st" "nsSize st2 = nsSize st" "nsSize st3 = nsSize st" by (simp_all add: defs)
  have h: "nodeHeap st1 old = Some e" "nodeHeap st3 old = Some e" "nodeHeap st2 a = Some cp" "nodeHeap st3 a = Some e1"
    "nodeHeap st4 a = Some e1" "nodeHeap st4 b = Some cp" using k(4) ne by (simp_all add: defs)
  have ok1: "store_ok st1" "store_map st1 = store_map st"
    unfolding st1_def by (rule heap_outside[OF assms(1) na[OF assms(5)]])+
  have ok2: "store_ok st2" "store_map st2 = store_map st"
    using heap_outside[OF ok1(1), of b "Some cp"] na[OF assms(6)] e(1) ok1(2) by (simp_all add: st2_def)
  have ok3: "store_ok st3" "store_map st3 = store_map st"
    using heap_outside[OF ok2(1), of a "Some e1"] na[OF assms(5)] e(2) ok2(2) by (simp_all add: st3_def)
  have find: "findNode fuel s j = Done (Some k)" if "store_ok s" "entries s ! k = Used x" "nodeHeap s x = Some y"
    "UA_NodeId_equal (nodeId (enode y)) j" "length (entries s) = length (entries st)" "nsSize s = nsSize st" for s j x y
    using that k(2) assms(2) by (intro findNode_present) (simp_all add: store_ok_def matches_def)
  have copy1: "UA_NodeStore_getCopy fuel True True a zero i st = Done (Some a, st1)"
    using getCopy_store[OF assms(1,2) k(1,3,4), of a zero] k(5) assms(4) by (simp add: st1_def cp_def)
  have copy2: "UA_NodeStore_getCopy fuel True True b zero i st1 = Done (Some b, st2)"
    using getCopy_store[OF ok1(1), of fuel i k old e b zero] find[OF ok1(1), of old e i] k(3-6) h(1) e assms(2,4)
    by (simp add: st2_def cp_def)
  have edit1: "edit_copy a c st2 = st3" using h(3) by (simp add: edit_copy_def st3_def e1_def cp_def)
  have "findNode fuel st3 (nodeId n) = Done (Some k)"
    using find[OF ok3(1), of old e "nodeId n"] k(3,5) h(2) e UA_NodeId_equal_refl[OF id] by simp
  then have rep1: "UA_NodeStore_replace fuel a st3 = Done (GOOD, st4)"
    using h(2,4) k(3) e by (simp add: UA_NodeStore_replace_def deref_def slot_entry_def deleteEntry_def e1_def st4_def)
  have ok4: "store_ok st4" "store_map st4 = (\<lambda>x. if UA_NodeId_equal (nodeId n) x then Some (n\<lparr>nodeContent := c\<rparr>) else store_map st x)"
    using swap_entry[OF ok3(1), of k old e a e1] k(2,3,5) h(2,4) e na[OF assms(5)] id UA_NodeId_equal_refl[OF id] ok3(2)
    by (simp_all add: st4_def e1_def cong: if_cong)
  have nb: "Used b \<notin> set (entries st4)" "Used b \<notin> set (entries st5)"
    using na[OF assms(6)] ne(3) e(3) set_update_subset_insert[of "entries st" k "Used a"] by (auto simp: st4_def st5_def)
  have ok5: "store_ok st5" "store_map st5 = store_map st4"
    unfolding st5_def by (rule heap_outside[OF ok4(1) nb(1)])+
  have ok6: "store_ok st6" "store_map st6 = store_map st4"
    using heap_outside[OF ok5(1) nb(2), of None] ok5(2) by (simp_all add: st6_def)
  have edit2: "edit_copy b d st4 = st5" using h(6) by (simp add: edit_copy_def st5_def cp_def)
  have s5: "entries st5 ! k = Used a" "nodeHeap st5 a = Some e1" "nsSize st5 = nsSize st" "length (entries st5) = length (entries st)"
    using h(5) ne(3) k(2) by (simp_all add: st5_def) (simp_all add: st4_def e)
  have h5: "nodeHeap st5 b = Some (cp\<lparr>enode := n\<lparr>nodeContent := d\<rparr>\<rparr>)" by (simp add: st5_def)
  have "findNode fuel st5 (nodeId n) = Done (Some k)"
    using find[OF ok5(1) s5(1,2) _ s5(4,3), of "nodeId n"] UA_NodeId_equal_refl[OF id] by (simp add: e1_def)
  then have rep2: "UA_NodeStore_replace fuel b st5 = Done (BADINTERNALERROR, st6)"
    using s5(1) ne(1) h5 by (simp add: UA_NodeStore_replace_def deref_def slot_entry_def deleteEntry_def st6_def cp_def)
  have same: "UA_NodeId_equal (nodeId n) x = UA_NodeId_equal i x" for x
    using k(5,6) UA_NodeId_equal_trans UA_NodeId_equal_sym by blast
  show ?thesis
    using copy1 copy2 edit1 rep1 edit2 rep2 ok6 ok4(2) same by (intro exI[of _ st6]) simp
qed

theorem lost_update_refused_witness:
  "\<exists>st st'. bind (UA_NodeStore_getCopy 1048573 True True 2 (\<lambda>_. ()) (demo_nid 5) st) (\<lambda>(ra, st1).
    bind (UA_NodeStore_getCopy 1048573 True True 3 (\<lambda>_. ()) (demo_nid 5) st1) (\<lambda>(rb, st2).
    bind (UA_NodeStore_replace 1048573 2 (edit_copy 2 () st2)) (\<lambda>(rv1, st3).
    bind (UA_NodeStore_replace 1048573 3 (edit_copy 3 () st3)) (\<lambda>(rv2, st4). Done (ra, rb, rv1, rv2, st4))))) =
      Done (Some 2, Some 3, GOOD, BADINTERNALERROR, st')"
proof -
  obtain st where st: "store_ok st" "unat (nsSize st) \<le> 1048573" "store_map st (demo_nid 5) = Some (enode (bare_node (demo_nid 5)))"
    "nodeHeap st = [1 \<mapsto> bare_node (demo_nid 5)]"
    using one_node_store by auto
  from lost_update_refused[OF st(1-3), of 2 3 "\<lambda>_. ()" "()" "()"] st(4) show ?thesis by (auto simp: bare_node_def)
qed

end
