(* ===== verification/NodeStoreLimits.thy ===== *)
theory NodeStoreLimits
  imports NodeStoreMap
begin

text \<open>
  What goes wrong in the node store: tombstones are not counted, so that they can fill the table, and
  the slot for a new node is the first tombstone, without a look at what comes behind it.
\<close>

datatype nodeOp = AddNode nat nodeid | DeleteNode nodeid

fun run_ops :: "nat \<Rightarrow> nodeOp list \<Rightarrow> unit nodeStore \<Rightarrow> (status list \<times> unit nodeStore) outcome" where
  "run_ops fuel [] st = Done ([], st)"
| "run_ops fuel (AddNode a i # ops) st =
     bind (UA_NodeStore_insert fuel True a (st\<lparr>nodeHeap := (nodeHeap st)(a \<mapsto> bare_node i)\<rparr>)) (\<lambda>(rv, st1).
       bind (run_ops fuel ops st1) (\<lambda>(rvs, st2). Done (rv # rvs, st2)))"
| "run_ops fuel (DeleteNode i # ops) st =
     bind (UA_NodeStore_remove fuel True i st) (\<lambda>(rv, st1).
       bind (run_ops fuel ops st1) (\<lambda>(rvs, st2). Done (rv # rvs, st2)))"

definition empty_store :: "unit nodeStore" where
  "empty_store = the (UA_NodeStore_new True True Map.empty)"

abbreviation first_slot :: "u32 \<Rightarrow> nat \<Rightarrow> nat" where
  "first_slot sz k \<equiv> unat (mod1 (UA_NodeId_hash (demo_nid k)) sz)"

text \<open>Operations whose search ends at its first slot.\<close>

lemma insert_first:
  assumes "nsCount st * 4 < nsSize st * 3" "first_slot (nsSize st) k < length (entries st)"
    and "\<not> is_used (entries st ! first_slot (nsSize st) k)"
  shows "run_ops (Suc n) (AddNode a (demo_nid k) # ops) st = bind (run_ops (Suc n) ops (put_node (first_slot (nsSize st) k) a (bare_node (demo_nid k)) st))
    (\<lambda>(rvs, st2). Done (GOOD # rvs, st2))"
  using assms
  by (auto simp: UA_NodeStore_insert_def findSlot_def visit_slot_def deref_def put_node_def bare_node_def is_used_def not_le Let_def
      split: slot.splits)

lemma remove_first:
  assumes "nsSize st \<le> 32" "entries st ! first_slot (nsSize st) k = Used a" "first_slot (nsSize st) k < length (entries st)"
    and "nodeHeap st a = Some (bare_node (demo_nid k))"
  shows "run_ops (Suc n) (DeleteNode (demo_nid k) # ops) st =
    bind (run_ops (Suc n) ops (st\<lparr>nodeHeap := (nodeHeap st)(a := None),
      entries := (entries st)[first_slot (nsSize st) k := Tombstone], nsCount := nsCount st - 1\<rparr>))
    (\<lambda>(rvs, st2). Done (GOOD # rvs, st2))"
  using assms
  by (auto simp: UA_NodeStore_remove_def findNode_def visit_find_def deref_def bare_node_def slot_entry_def deleteEntry_def Let_def)

definition small_table :: "slot list \<Rightarrow> unit nodeStore" where
  "small_table es = \<lparr> entries = es, nsSize = 7, nsCount = 0, sizePrimeIndex = 0, nodeHeap = Map.empty \<rparr>"

lemma slot_7: "first_slot 7 k < 7"
  using unat_mod1[of "UA_NodeId_hash (demo_nid k)" 7] by (simp add: position_less)

text \<open>A node that comes and goes leaves a tombstone.\<close>

lemma come_and_go:
  assumes "length es = 7" "\<not> is_used (es ! first_slot 7 k)"
  shows "run_ops (Suc n) (AddNode a (demo_nid k) # DeleteNode (demo_nid k) # ops) (small_table es) =
    bind (run_ops (Suc n) ops (small_table (es[first_slot 7 k := Tombstone]))) (\<lambda>(rvs, st2). Done (GOOD # GOOD # rvs, st2))"
proof -
  note i = insert_first[of "small_table es" k n a "DeleteNode (demo_nid k) # ops"]
  note r = remove_first[of "put_node (first_slot 7 k) a (bare_node (demo_nid k)) (small_table es)" k a n ops]
  have "(Map.empty(a := None) :: unit nodeEntry heap) = Map.empty" by (simp add: fun_eq_iff)
  then show ?thesis
    using i r assms slot_7[of k]
    by (cases "run_ops (Suc n) ops (small_table (es[first_slot 7 k := Tombstone]))") (simp_all add: small_table_def put_node_def split: prod.splits)
qed

lemma prime_indices: "higher_prime_index 64 = 4" "higher_prime_index 0 = 0" "higher_prime_index 12 = 1"
  by (simp_all add: higher_prime_index_def prime_search.simps nodestore_primes_def)

lemma reinsert_none: "reinsert fuel 0 ss j st = Done st"
  by (cases ss) auto

text \<open>When the only node of a new store is removed, the table shrinks to seven slots.\<close>

lemma shrink:
  "run_ops (Suc n) (AddNode a (demo_nid 1) # DeleteNode (demo_nid 1) # ops) empty_store =
    bind (run_ops (Suc n) ops (small_table (replicate 7 Free))) (\<lambda>(rvs, st2). Done (GOOD # GOOD # rvs, st2))"
proof -
  have e: "empty_store = \<lparr> entries = replicate 127 Free, nsSize = 127, nsCount = 0, sizePrimeIndex = 4, nodeHeap = Map.empty \<rparr>"
    by (simp add: empty_store_def UA_NodeStore_new_def prime_indices nodestore_primes_def Let_def)
  let ?k = "first_slot 127 1"
  have k: "?k < 127" using unat_mod1[of "UA_NodeId_hash (demo_nid 1)" 127] by (simp add: position_less)
  let ?st = "put_node ?k a (bare_node (demo_nid 1)) empty_store"
  have i: "run_ops (Suc n) (AddNode a (demo_nid 1) # DeleteNode (demo_nid 1) # ops) empty_store =
      bind (run_ops (Suc n) (DeleteNode (demo_nid 1) # ops) ?st) (\<lambda>(rvs, st2). Done (GOOD # rvs, st2))"
    using insert_first[of empty_store 1 n a "DeleteNode (demo_nid 1) # ops"] k by (simp add: e is_used_def)
  have "UA_NodeStore_remove (Suc n) True (demo_nid 1) ?st = Done (GOOD, small_table (replicate 7 Free))"
    using k
    by (simp add: e UA_NodeStore_remove_def findNode_def visit_find_def deref_def bare_node_def slot_entry_def
        deleteEntry_def put_node_def Let_def expand_def prime_indices reinsert_none small_table_def nodestore_primes_def fun_eq_iff
        del: replicate.simps)
  then show ?thesis
    unfolding i by (cases "run_ops (Suc n) ops (small_table (replicate 7 Free))") auto
qed

lemma first_slots:
  "first_slot 7 2 = 0" "first_slot 7 3 = 1" "first_slot 7 4 = 2" "first_slot 7 5 = 3" "first_slot 7 6 = 4" "first_slot 7 7 = 5"
  "first_slot 7 8 = 6" "first_slot 7 9 = 0" "mod2 (UA_NodeId_hash (demo_nid 9)) 7 = 1"
  by (simp_all add: demo_nid_def UA_NODEID_NUMERIC_def UA_NodeId_hash_def mod1_def mod2_def)

lemma nid_differ: "a < 65536 \<Longrightarrow> b < 65536 \<Longrightarrow> a \<noteq> b \<Longrightarrow> \<not> UA_NodeId_equal (demo_nid a) (demo_nid b)"
  by (auto simp: demo_nid_def UA_NODEID_NUMERIC_def UA_NodeId_equal_def word_unat_eq_iff unsigned_of_nat take_bit_nat_eq_self)

text \<open>A node whose first slot is taken by another node.\<close>

lemma insert_second:
  assumes "nsCount st * 4 < nsSize st * 3" "first_slot (nsSize st) k < length (entries st)"
    and "entries st ! first_slot (nsSize st) k = Used b" "nodeHeap st b = Some (bare_node (demo_nid j))" "b \<noteq> a"
    and "\<not> UA_NodeId_equal (demo_nid j) (demo_nid k)"
    and "unat (advance (nsSize st) (mod2 (UA_NodeId_hash (demo_nid k)) (nsSize st)) (mod1 (UA_NodeId_hash (demo_nid k)) (nsSize st))) = i"
    and "i < length (entries st)" "\<not> is_used (entries st ! i)"
  shows "run_ops (Suc (Suc n)) (AddNode a (demo_nid k) # ops) st =
    bind (run_ops (Suc (Suc n)) ops (put_node i a (bare_node (demo_nid k)) st)) (\<lambda>(rvs, st2). Done (GOOD # rvs, st2))"
  using assms
  by (auto simp: UA_NodeStore_insert_def findSlot_def visit_slot_def deref_def put_node_def bare_node_def is_used_def not_le Let_def
      split: slot.splits)

section \<open>Properties\<close>

text \<open>
  Nodes that are added and removed again leave tombstones, which nothing cleans up in a small
  table.  In this run eight nodes whose first slots are the seven slots of a new store come and go: then it
  holds no node, and looking up any node at all runs for ever.
\<close>

theorem removed_nodes_hang_lookup:
  "\<exists>st. run_ops 99 (concat (map (\<lambda>k. [AddNode k (demo_nid k), DeleteNode (demo_nid k)]) [1, 2, 3, 4, 5, 6, 7, 8])) empty_store =
      Done (replicate 16 GOOD, st) \<and>
    nsCount st = 0 \<and> (\<forall>fuel i. UA_NodeStore_get fuel st i = OutOfFuel)"
proof -
  let ?st = "small_table (replicate 7 Tombstone)"
  have full: "(replicate 7 Free)[0 := Tombstone, 1 := Tombstone, 2 := Tombstone, 3 := Tombstone, 4 := Tombstone,
      5 := Tombstone, 6 := Tombstone] = replicate 7 Tombstone" by (simp add: eval_nat_numeral)
  have "run_ops (Suc n) (concat (map (\<lambda>k. [AddNode k (demo_nid k), DeleteNode (demo_nid k)]) [1, 2, 3, 4, 5, 6, 7, 8])) empty_store =
      Done (replicate 16 GOOD, ?st)" for n
    unfolding full[symmetric]
    by (simp add: shrink come_and_go first_slots is_used_def del: run_ops.simps(2,3) One_nat_def)
      (simp add: eval_nat_numeral)
  from this[of 98] have run: "run_ops 99 (concat (map (\<lambda>k. [AddNode k (demo_nid k), DeleteNode (demo_nid k)]) [1, 2, 3, 4, 5, 6, 7, 8])) empty_store =
      Done (replicate 16 GOOD, ?st)" by (simp only: Suc_numeral semiring_norm)
  have "findNode fuel ?st i = OutOfFuel" for fuel i
  proof -
    have v: "visit_find (nodeHeap ?st) i (entries ?st ! j) = Done None" if "j < length (entries ?st)" for j
      using that by (simp add: small_table_def visit_find_def)
    have g: "good_size (nsSize ?st)" by (simp add: small_table_def good_size_def nodestore_primes_def)
    show ?thesis
      using probe_never[where visit = "visit_find (nodeHeap ?st) i" and es = "entries ?st", OF g _ unat_mod1 v]
      by (simp add: findNode_def Let_def small_table_def)
  qed
  then show ?thesis using run by (intro exI[of _ ?st]) (simp add: UA_NodeStore_get_def, simp add: small_table_def)
qed

text \<open>
  A node can be in the store twice: with a tombstone before its entry it is inserted again instead
  of being refused.  In this run the table then grows, the second entry finds no slot, and the server writes
  through a \<open>NULL\<close> pointer.
\<close>

theorem node_inserted_twice:
  "\<exists>st. run_ops 99 [AddNode 1 (demo_nid 1), DeleteNode (demo_nid 1), AddNode 2 (demo_nid 2), AddNode 3 (demo_nid 9), DeleteNode (demo_nid 2),
      AddNode 4 (demo_nid 9)] empty_store = Done (replicate 6 GOOD, st) \<and>
    matches (nodeHeap st) (demo_nid 9) (entries st ! 0) \<and> matches (nodeHeap st) (demo_nid 9) (entries st ! 1) \<and>
    run_ops 99 [AddNode 5 (demo_nid 4), AddNode 6 (demo_nid 5), AddNode 7 (demo_nid 6), AddNode 8 (demo_nid 7), AddNode 9 (demo_nid 8)] st = Undefined"
proof -
  let ?st = "\<lparr> entries = (replicate 7 Free)[0 := Used 2, 1 := Used 3, 0 := Tombstone, 0 := Used 4], nsSize = 7, nsCount = 2,
    sizePrimeIndex = 0, nodeHeap = Map.empty(3 \<mapsto> bare_node (demo_nid 9), 4 \<mapsto> bare_node (demo_nid 9)) \<rparr>"
  have d: "\<not> UA_NodeId_equal (demo_nid 2) (demo_nid 9)" by (rule nid_differ) simp_all
  have adv: "unat (advance 7 1 (mod1 (UA_NodeId_hash (demo_nid 9)) 7)) = 1"
    by (simp add: advance_def demo_nid_def UA_NODEID_NUMERIC_def UA_NodeId_hash_def mod1_def word_le_nat_alt)
  have run: "run_ops (Suc (Suc n)) [AddNode 1 (demo_nid 1), DeleteNode (demo_nid 1), AddNode 2 (demo_nid 2), AddNode 3 (demo_nid 9), DeleteNode (demo_nid 2),
      AddNode 4 (demo_nid 9)] empty_store = Done (replicate 6 GOOD, ?st)" for n
    by (simp add: shrink insert_first insert_second[where b = 2 and j = 2] remove_first first_slots adv d is_used_def small_table_def
        put_node_def del: run_ops.simps(2,3) One_nat_def)
      (simp add: fun_eq_iff eval_nat_numeral)
  define es where "es = (replicate 7 Free)[0 := Used 2, 1 := Used 3, 0 := Tombstone, 0 := Used 4,
    2 := Used 5, 3 := Used 6, 4 := Used 7, 5 := Used 8]"
  have es: "es = [Used 4, Used 3, Used 5, Used 6, Used 7, Used 8, Free]" by (simp add: es_def eval_nat_numeral)
  let ?heap = "(nodeHeap ?st)(5 \<mapsto> bare_node (demo_nid 4), 6 \<mapsto> bare_node (demo_nid 5), 7 \<mapsto> bare_node (demo_nid 6), 8 \<mapsto> bare_node (demo_nid 7))"
  have k: "first_slot 13 9 < 13" using unat_mod1[of "UA_NodeId_hash (demo_nid 9)" 13] by (simp add: position_less)
  have "expand (Suc (Suc n)) True (?st\<lparr>entries := es, nsCount := 6, nodeHeap := ?heap(9 \<mapsto> bare_node (demo_nid 8))\<rparr>) = Undefined" for n
    using k by (simp add: es expand_def prime_indices nodestore_primes_def findSlot_def visit_slot_def deref_def bare_node_def Let_def)
  then have last: "run_ops (Suc (Suc n)) [AddNode 9 (demo_nid 8)] (?st\<lparr>entries := es, nsCount := 6, nodeHeap := ?heap\<rparr>) = Undefined" for n
    by (simp add: UA_NodeStore_insert_def)
  have grow: "run_ops (Suc (Suc n)) [AddNode 5 (demo_nid 4), AddNode 6 (demo_nid 5), AddNode 7 (demo_nid 6), AddNode 8 (demo_nid 7), AddNode 9 (demo_nid 8)] ?st =
      Undefined" for n
    using last[of n]
    by (simp add: insert_first first_slots is_used_def put_node_def es_def del: run_ops.simps(2,3) One_nat_def)
  have n: "Suc (Suc 97) = 99" by simp
  have "matches (nodeHeap ?st) (demo_nid 9) (entries ?st ! 0)" "matches (nodeHeap ?st) (demo_nid 9) (entries ?st ! 1)"
    by (simp_all add: matches_def bare_node_def)
  with run[of 97] grow[of 97] show ?thesis unfolding n by blast
qed

end
