(* ===== verification/Ranges.thy ===== *)
theory Ranges
  imports UaTables EndpointUrl
begin

text \<open>
  Index ranges of array values: parsing their text (\<open>parse_numericrange\<close> in \<open>ua_server_utils.c\<close>), and
  copying a range out of a variant and writing one into it (\<open>ua_types.c\<close>), all in \<open>open62541.c\<close>.

  The array of a variant is the list of its elements.  An access outside the list is \<open>Undefined\<close>, and
  so is freeing an element of a new array that was not written yet, unless the type has no pointers.
  Allocation is granted.
\<close>

section \<open>Ranges\<close>

record rangeDimension =
  rangeMin :: u32
  rangeMax :: u32

type_synonym numericRange = "rangeDimension list"

abbreviation BADINDEXRANGEINVALID :: status where "BADINDEXRANGEINVALID \<equiv> 0x80360000"
abbreviation BADINDEXRANGENODATA :: status where "BADINDEXRANGENODATA \<equiv> 0x80370000"

text \<open>How many bytes were read, none if there is no dimension, and the dimension.\<close>

definition readDimension :: "cstr \<Rightarrow> nat \<times> rangeDimension" where
  "readDimension buf =
     (let (progress, mn) = UA_readNumber buf (length buf)
      in if progress = 0 then (0, \<lparr> rangeMin = mn, rangeMax = 0 \<rparr>)
         else if length buf \<le> progress + 1 \<or> buf ! progress \<noteq> 0x3A then (progress, \<lparr> rangeMin = mn, rangeMax = mn \<rparr>)
         else
           let (progress2, mx) = UA_readNumber (drop (progress + 1) buf) (length buf - (progress + 1));
               dim = \<lparr> rangeMin = mn, rangeMax = mx \<rparr>
           in if progress2 = 0 then (0, dim)
              else if mx \<le> mn then (0, dim)
              else (progress + 1 + progress2, dim))"

lemma read_digits_bound: "fst (read_digits cs n k) \<le> k + length cs"
proof (induction cs arbitrary: n k)
  case (Cons c cs)
  then show ?case using Cons.IH[of "n * 10 + ucast (c - 0x30)" "Suc k"] by simp
qed simp

lemma readDimension_bound: "fst (readDimension buf) \<le> length buf"
  using read_digits_bound[of "take (length buf) buf" 0 0]
    read_digits_bound[of "drop (Suc (fst (read_digits buf 0 0))) buf" 0 0]
  by (auto simp: readDimension_def UA_readNumber_def Let_def split: prod.split if_splits)

text \<open>The text from the offset on, and the dimensions that were read.\<close>

function parse_dimensions :: "cstr \<Rightarrow> numericRange \<Rightarrow> status \<times> numericRange" where
  "parse_dimensions buf dimensions =
     (let (progress, dim) = readDimension buf; rest = drop progress buf
      in if progress = 0 then (BADINDEXRANGEINVALID, dimensions)
         else if rest = [] then (GOOD, dimensions @ [dim])
         else if hd rest \<noteq> 0x2C then (BADINDEXRANGEINVALID, dimensions @ [dim])
         else parse_dimensions (tl rest) (dimensions @ [dim]))"
  by pat_completeness auto
termination
  by (relation "measure (length \<circ> fst)") auto

declare parse_dimensions.simps [simp del]

text \<open>The range is only set when its whole text was read.\<close>

definition parse_numericrange :: "cstr \<Rightarrow> status \<times> numericRange option" where
  "parse_numericrange s =
     (case parse_dimensions s [] of (retval, dimensions) \<Rightarrow>
       (retval, if retval = GOOD then Some dimensions else None))"

section \<open>Positions of a range in an array\<close>

text \<open>The number of elements that the dimensions announce.\<close>

definition announced :: "u32 list \<Rightarrow> u64" where
  "announced dims = foldl (\<lambda>elements d. elements * ucast d) 1 dims"

text \<open>The range within the dimensions, and how many elements it has.\<close>

fun check_range :: "numericRange \<Rightarrow> u32 list \<Rightarrow> u64 \<Rightarrow> status + u64" where
  "check_range [] [] cnt = Inr cnt"
| "check_range (r # rs) (d # ds) cnt =
     (if rangeMax r < rangeMin r then Inl BADINDEXRANGEINVALID
      else if d \<le> rangeMax r then Inl BADINDEXRANGENODATA
      else check_range rs ds (cnt * ucast (rangeMax r - rangeMin r + 1)))"
| "check_range _ _ cnt = Inl BADINDEXRANGENODATA"

record strides =
  total :: u64
  block :: u64
  stride :: u64
  first :: u64

text \<open>One round of the loop from the last dimension down: the running size, and whether a gap was found.\<close>

definition stride_step :: "rangeDimension \<times> u32 \<Rightarrow> u64 \<times> bool \<times> strides \<Rightarrow> u64 \<times> bool \<times> strides" where
  "stride_step rd acc =
     (case (rd, acc) of ((r, d), (runs, found, st)) \<Rightarrow>
       let dimrange = ucast (1 + rangeMax r - rangeMin r) :: u64;
           gap = (\<not> found \<and> dimrange \<noteq> ucast d);
           st1 = (if gap then st\<lparr>block := runs * dimrange, stride := runs * ucast d\<rparr> else st)
       in (runs * ucast d, found \<or> gap, st1\<lparr>first := first st1 + runs * ucast (rangeMin r)\<rparr>))"

definition computeStrides :: "nat \<Rightarrow> u32 list \<Rightarrow> numericRange \<Rightarrow> status + strides" where
  "computeStrides arrayLength arrayDimensions rng =
     (if 4294967295 < arrayLength then Inl BADINTERNALERROR
      else if arrayDimensions \<noteq> [] \<and> announced arrayDimensions \<noteq> of_nat arrayLength then Inl BADINTERNALERROR
      else
        let dims = (if arrayDimensions \<noteq> [] then arrayDimensions else [of_nat arrayLength])
        in if length rng \<noteq> length dims then Inl BADINDEXRANGENODATA
           else case check_range rng dims 1 of
               Inl e \<Rightarrow> Inl e
             | Inr cnt \<Rightarrow>
                 Inr (snd (snd (foldr stride_step (zip rng dims)
                   (1, False, \<lparr> total = cnt, block = cnt, stride = of_nat arrayLength, first = 0 \<rparr>)))))"

text \<open>The elements of \<open>n\<close> blocks.\<close>

definition block_positions :: "nat \<Rightarrow> nat \<Rightarrow> nat \<Rightarrow> nat \<Rightarrow> nat list" where
  "block_positions b s f n = concat (map (\<lambda>i. [f + i * s..<f + i * s + b]) [0..<n])"

text \<open>
  The positions of the range, for the division into blocks that the copying makes.  It is undefined
  when it divides by zero, does not fill the new array, or the size in bytes wraps.
\<close>

definition range_positions :: "strides \<Rightarrow> nat \<Rightarrow> nat list outcome" where
  "range_positions st elem_size =
     (let b = unat (block st); n = unat (total st) div b
      in if b = 0 \<or> n * b \<noteq> unat (total st) \<or> 2 ^ 64 \<le> elem_size * unat (total st) then Undefined
         else Done (block_positions b (unat (stride st)) (unat (first st)) n))"

section \<open>Copying a range out of a variant\<close>

text \<open>The types without pointers.\<close>

definition fixedSize :: "nat \<Rightarrow> bool" where
  "fixedSize i \<longleftrightarrow> i \<in> set [0, 1, 2, 3, 4, 5, 6, 7, 8, 9, 10, 12, 13, 18, 28, 35, 36, 40, 47, 53, 60, 61, 62, 64, 65,
     68, 81, 82, 85, 86, 89, 140]"

definition isStringLike :: "udesc \<Rightarrow> bool" where
  "isStringLike d =
     (case members d of [m] \<Rightarrow> isArray m \<and> namespaceZero m \<and> memberTypeIndex m = UA_TYPES_BYTE | _ \<Rightarrow> False)"

text \<open>The status, and the new string when one was made.\<close>

definition copySubString :: "ustring \<Rightarrow> rangeDimension \<Rightarrow> status \<times> ustring option" where
  "copySubString src dim =
     (if rangeMax dim < rangeMin dim then (BADINDEXRANGEINVALID, None)
      else if length (ubytes src) \<le> unat (rangeMax dim) then (BADINDEXRANGENODATA, None)
      else
        let len = unat (rangeMax dim - rangeMin dim + 1)
        in (GOOD, Some (if len = 0 then None else Some (take len (drop (unat (rangeMin dim)) (ubytes src))))))"

text \<open>The copies of the elements up to the first that fails; \<open>None\<close> is an element that was not written.\<close>

fun copy_elements :: "(nat \<Rightarrow> (status \<times> uval option) outcome) \<Rightarrow> nat list \<Rightarrow> (status \<times> uval option list) outcome" where
  "copy_elements f [] = Done (GOOD, [])"
| "copy_elements f (p # ps) =
     bind (f p) (\<lambda>(retval, x).
       if retval \<noteq> GOOD then Done (retval, [x])
       else bind (copy_elements f ps) (\<lambda>(retval, xs). Done (retval, x # xs)))"

text \<open>
  The new array of \<open>cnt\<close> elements is freed again; \<open>xs\<close> are those that the loop came to.
\<close>

definition discard_array :: "nat \<Rightarrow> nat \<Rightarrow> uval option list \<Rightarrow> status \<Rightarrow> (status \<times> uval option) outcome" where
  "discard_array i cnt xs retval =
     (if \<not> fixedSize i \<and> \<not> (length xs = cnt \<and> None \<notin> set xs) then Undefined else Done (retval, Some VVarEmpty))"

text \<open>
  The array is copied at this level: \<open>vs\<close> are the elements, and \<open>sub r\<close> copies a range \<open>r\<close> of the
  variant or string at a position.
\<close>

definition copy_level ::
  "nat \<Rightarrow> udesc \<Rightarrow> uval list \<Rightarrow> (nat \<Rightarrow> (status \<times> uval option) outcome) \<Rightarrow> nat \<Rightarrow> strides \<Rightarrow>
   (uval list \<Rightarrow> uval) \<Rightarrow> (status \<times> uval option) outcome" where
  "copy_level i d vs sub nextDims st result =
     bind (range_positions st (memSize d)) (\<lambda>ps.
       if nextDims = 0 then
         (if list_all (\<lambda>p. p < length vs) ps then Done (GOOD, Some (result (map ((!) vs) ps))) else Undefined)
       else
         let bad = (i \<noteq> UA_TYPES_VARIANT \<and> (\<not> isStringLike d \<or> nextDims \<noteq> 1))
         in if bad then discard_array i (unat (total st)) [] BADINDEXRANGENODATA
            else bind (copy_elements (\<lambda>p. if p < length vs then sub p else Undefined) ps) (\<lambda>(retval, xs).
              if retval \<noteq> GOOD then discard_array i (unat (total st)) xs retval
              else Done (GOOD, Some (result (map the xs)))))"

text \<open>Copying from one element: a string or a variant.\<close>

definition copy_within :: "udesc \<Rightarrow> uval \<Rightarrow> (status \<times> uval option) outcome \<Rightarrow> numericRange \<Rightarrow> (status \<times> uval option) outcome" where
  "copy_within d x nested nextrange =
     (if isStringLike d then
        (case x of VStr s \<Rightarrow> (case copySubString s (hd nextrange) of (retval, y) \<Rightarrow> Done (retval, map_option VStr y))
         | _ \<Rightarrow> Undefined)
      else nested)"

lemma elements_smaller: "(x :: uval) \<in> set vs \<Longrightarrow> size x < Suc (Suc (size_list size vs))"
  using size_list_estimation'[of x vs "size x" size] by simp

text \<open>The status, and what \<open>dst\<close> holds if it was written.  The type of an empty variant is read as well.\<close>

function UA_Variant_copyRange :: "uval \<Rightarrow> numericRange \<Rightarrow> (status \<times> uval option) outcome" where
  "UA_Variant_copyRange src rng =
     (case src of
        VVarScalar i x \<Rightarrow>
          (case type_at UA_TYPES i of
             None \<Rightarrow> Undefined
           | Some d \<Rightarrow>
               (case computeStrides 1 [] [\<lparr> rangeMin = 0, rangeMax = 0 \<rparr>] of
                  Inl e \<Rightarrow> Done (e, None)
                | Inr st \<Rightarrow>
                    copy_level i d [x] (\<lambda>p. copy_within d x (UA_Variant_copyRange x rng) rng) (length rng) st
                      (\<lambda>ys. VVarScalar i (hd ys))))
      | VVarArray i a arrayDimensions \<Rightarrow>
          (case type_at UA_TYPES i of
             None \<Rightarrow> Undefined
           | Some d \<Rightarrow>
               let vs = (case a of None \<Rightarrow> [] | Some vs \<Rightarrow> vs);
                   dims = (if arrayDimensions = [] then 1 else length arrayDimensions);
                   thisrange = take dims rng; nextrange = drop dims rng;
                   copied = map (\<lambda>x. copy_within d x (UA_Variant_copyRange x nextrange) nextrange) vs
               in if length rng < dims then Done (BADINDEXRANGEINVALID, None)
                  else case computeStrides (length vs) arrayDimensions thisrange of
                      Inl e \<Rightarrow> Done (e, None)
                    | Inr st \<Rightarrow>
                        copy_level i d vs ((!) copied) (length nextrange) st
                          (\<lambda>ys. VVarArray i (Some ys)
                             (if arrayDimensions = [] then [] else map (\<lambda>r. rangeMax r - rangeMin r + 1) thisrange)))
      | _ \<Rightarrow> Undefined)"
  by pat_completeness auto

termination
  by (relation "measure (size \<circ> fst)") (auto intro: elements_smaller split: option.splits)

declare UA_Variant_copyRange.simps [simp del]

section \<open>Writing a range into a variant\<close>

text \<open>The elements and dimensions; a scalar counts as an array of length zero.\<close>

definition array_of :: "uval \<Rightarrow> uval list \<times> u32 list" where
  "array_of v = (case v of VVarArray i a ds \<Rightarrow> (case a of None \<Rightarrow> [] | Some vs \<Rightarrow> vs, ds) | _ \<Rightarrow> ([], []))"

fun write_elements :: "uval list \<Rightarrow> nat list \<Rightarrow> uval list \<Rightarrow> uval list outcome" where
  "write_elements vs (p # ps) (x # xs) = (if p < length vs then write_elements (vs[p := x]) ps xs else Undefined)"
| "write_elements vs _ _ = Done vs"

text \<open>
  The status, the variant, and how many bytes at the begin of the given array are cleared since their
  contents were moved.
\<close>

definition Variant_setRange :: "uval \<Rightarrow> uval list \<Rightarrow> numericRange \<Rightarrow> bool \<Rightarrow> (status \<times> uval \<times> nat) outcome" where
  "Variant_setRange v array rng copy =
     (case array_of v of (vs, ds) \<Rightarrow>
       case computeStrides (length vs) ds rng of
         Inl e \<Rightarrow> Done (e, v, 0)
       | Inr st \<Rightarrow>
           if unat (total st) \<noteq> length array then Done (BADINDEXRANGEINVALID, v, 0)
           else case v of
               VVarArray i a ds \<Rightarrow>
                 (case type_at UA_TYPES i of
                    None \<Rightarrow> Undefined
                  | Some d \<Rightarrow>
                      bind (range_positions st (memSize d)) (\<lambda>ps.
                      bind (write_elements vs ps array) (\<lambda>vs1.
                        Done (GOOD, VVarArray i (Some vs1) ds,
                          if \<not> copy \<and> \<not> fixedSize i then 8 * length array else 0))))
             | _ \<Rightarrow> Undefined)"

definition UA_Variant_setRange :: "uval \<Rightarrow> uval list \<Rightarrow> numericRange \<Rightarrow> (status \<times> uval \<times> nat) outcome" where
  "UA_Variant_setRange v array rng = Variant_setRange v array rng False"

definition UA_Variant_setRangeCopy :: "uval \<Rightarrow> uval list \<Rightarrow> numericRange \<Rightarrow> (status \<times> uval \<times> nat) outcome" where
  "UA_Variant_setRangeCopy v array rng = Variant_setRange v array rng True"

end
