(* ===== verification/InfoModel.thy ===== *)
theory InfoModel
  imports NodeStoreMap
begin

text \<open>
  The operations on the information model (section \<open>ua_server_utils.c\<close> of \<open>open62541.c\<close>): the search
  for a node upwards in a tree, the hierarchy of a type, and the type of a node.  They look nodes up
  with a function \<open>get\<close>, which is \<open>UA_NodeStore_get\<close> on the store of the server.
\<close>

section \<open>Nodes with references\<close>

record reference =
  referenceTypeId :: nodeid
  isInverse :: bool
  targetId :: expandedNodeId

record content =
  references :: "reference list"

abbreviation target :: "reference \<Rightarrow> nodeid" where
  "target r \<equiv> enodeId (targetId r)"

abbreviation UA_NS0ID_HASTYPEDEFINITION :: u32 where "UA_NS0ID_HASTYPEDEFINITION \<equiv> 40"
abbreviation UA_NS0ID_HASSUBTYPE :: u32 where "UA_NS0ID_HASSUBTYPE \<equiv> 45"

abbreviation refs_of :: "'c content_scheme node \<Rightarrow> reference list" where
  "refs_of n \<equiv> references (nodeContent n)"

section \<open>Searching upwards\<close>

text \<open>The loop over the reference types for one reference, and the loop over the references.\<close>

fun try_types :: "(nodeid \<Rightarrow> bool outcome) \<Rightarrow> reference \<Rightarrow> nodeid list \<Rightarrow> bool outcome" where
  "try_types search r [] = Done False"
| "try_types search r (t # ts) =
     (if UA_NodeId_equal (referenceTypeId r) t then
        bind (search (target r)) (\<lambda>found. if found then Done True else try_types search r ts)
      else try_types search r ts)"

fun search_references :: "(nodeid \<Rightarrow> bool outcome) \<Rightarrow> nodeid list \<Rightarrow> reference list \<Rightarrow> bool outcome" where
  "search_references search types [] = Done False"
| "search_references search types (r # rs) =
     (if \<not> isInverse r then search_references search types rs
      else bind (try_types search r types) (\<lambda>found. if found then Done True else search_references search types rs))"

text \<open>The recursion has fuel: each call takes a frame of the stack.\<close>

fun isNodeInTree ::
  "nat \<Rightarrow> (nodeid \<Rightarrow> 'c content_scheme node option outcome) \<Rightarrow> nodeid \<Rightarrow> nodeid \<Rightarrow> nodeid list \<Rightarrow> bool outcome" where
  "isNodeInTree 0 get leafNode nodeToFind referenceTypeIds = OutOfFuel"
| "isNodeInTree (Suc fuel) get leafNode nodeToFind referenceTypeIds =
     (if UA_NodeId_equal leafNode nodeToFind then Done True
      else bind (get leafNode) (\<lambda>node. case node of
          None \<Rightarrow> Done False
        | Some n \<Rightarrow>
            search_references (\<lambda>i. isNodeInTree fuel get i nodeToFind referenceTypeIds) referenceTypeIds (refs_of n)))"

section \<open>The hierarchy of a type\<close>

text \<open>The targets of the references of a node that are not in the results yet are put at their end.\<close>

fun add_targets :: "bool \<Rightarrow> reference list \<Rightarrow> nodeid list \<Rightarrow> nodeid list" where
  "add_targets upwards [] results = results"
| "add_targets upwards (r # rs) results =
     (if isInverse r \<noteq> upwards \<or> \<not> UA_NodeId_equal (UA_NODEID_NUMERIC 0 UA_NS0ID_HASSUBTYPE) (referenceTypeId r)
      then add_targets upwards rs results
      else if list_ex (UA_NodeId_equal (target r)) results then add_targets upwards rs results
      else add_targets upwards rs (results @ [target r]))"

text \<open>From the step to the next node on; nodes that are missing or of another class are passed over.\<close>

fun next_nodes ::
  "nat \<Rightarrow> (nodeid \<Rightarrow> 'c content_scheme node option outcome) \<Rightarrow> nodeClass \<Rightarrow> bool \<Rightarrow> nodeid list \<Rightarrow> nat \<Rightarrow> nodeid list outcome" where
  "next_nodes 0 get cls upwards results idx = OutOfFuel"
| "next_nodes (Suc fuel) get cls upwards results idx =
     (if length results \<le> idx + 1 then Done results
      else bind (get (results ! (idx + 1))) (\<lambda>node. case node of
          None \<Rightarrow> next_nodes fuel get cls upwards results (idx + 1)
        | Some n \<Rightarrow>
            if nodeClass n \<noteq> cls then next_nodes fuel get cls upwards results (idx + 1)
            else next_nodes fuel get cls upwards (add_targets upwards (refs_of n) results) (idx + 1)))"

definition getTypeHierarchy ::
  "nat \<Rightarrow> (nodeid \<Rightarrow> 'c content_scheme node option outcome) \<Rightarrow> 'c content_scheme node \<Rightarrow> bool \<Rightarrow> nodeid list outcome" where
  "getTypeHierarchy fuel get rootRef upwards =
     next_nodes fuel get (nodeClass rootRef) upwards (add_targets upwards (refs_of rootRef) [nodeId rootRef]) 0"

section \<open>The type of a node\<close>

definition getNodeType ::
  "(nodeid \<Rightarrow> 'c content_scheme node option outcome) \<Rightarrow> 'c content_scheme node \<Rightarrow> 'c content_scheme node option outcome" where
  "getNodeType get n =
     (let find_parent = (\<lambda>parentRef upwards.
            case find (\<lambda>r. isInverse r = upwards \<and> UA_NodeId_equal (referenceTypeId r) parentRef) (refs_of n) of
              None \<Rightarrow> Done None
            | Some r \<Rightarrow> get (target r))
      in if nodeClass n \<in> {UA_NODECLASS_VARIABLE, UA_NODECLASS_OBJECT}
         then find_parent (UA_NODEID_NUMERIC 0 UA_NS0ID_HASTYPEDEFINITION) False
         else if nodeClass n \<in> {UA_NODECLASS_VARIABLETYPE, UA_NODECLASS_REFERENCETYPE, UA_NODECLASS_DATATYPE}
         then find_parent (UA_NODEID_NUMERIC 0 UA_NS0ID_HASSUBTYPE) True
         else Done None)"

definition getVariableNodeType ::
  "(nodeid \<Rightarrow> 'c content_scheme node option outcome) \<Rightarrow> 'c content_scheme node \<Rightarrow> 'c content_scheme node option outcome" where
  "getVariableNodeType get n =
     bind (getNodeType get n) (\<lambda>type. case type of
         None \<Rightarrow> Done None
       | Some t \<Rightarrow> Done (if nodeClass t \<noteq> UA_NODECLASS_VARIABLETYPE then None else Some t))"

text \<open>The pointer to the type is not tested before its class is read.\<close>

definition getObjectNodeType ::
  "(nodeid \<Rightarrow> 'c content_scheme node option outcome) \<Rightarrow> 'c content_scheme node \<Rightarrow> 'c content_scheme node option outcome" where
  "getObjectNodeType get n =
     bind (getNodeType get n) (\<lambda>type. case type of
         None \<Rightarrow> Undefined
       | Some t \<Rightarrow> Done (if nodeClass t \<noteq> UA_NODECLASS_OBJECTTYPE then None else Some t))"

definition UA_Node_hasSubTypeOrInstances :: "'c content_scheme node \<Rightarrow> bool" where
  "UA_Node_hasSubTypeOrInstances n =
     list_ex (\<lambda>r. (\<not> isInverse r \<and> UA_NodeId_equal (referenceTypeId r) (UA_NODEID_NUMERIC 0 UA_NS0ID_HASSUBTYPE)) \<or>
         (isInverse r \<and> UA_NodeId_equal (referenceTypeId r) (UA_NODEID_NUMERIC 0 UA_NS0ID_HASTYPEDEFINITION)))
       (refs_of n)"

section \<open>Searching a store\<close>

text \<open>The contract of the lookup, and what the node to find is to a node above which it stands.\<close>

inductive climbs :: "(nodeid \<Rightarrow> 'c content_scheme node option) \<Rightarrow> nodeid list \<Rightarrow> nodeid \<Rightarrow> nodeid \<Rightarrow> bool"
  for lookup types where
  here: "UA_NodeId_equal a b \<Longrightarrow> climbs lookup types a b"
| up: "lookup a = Some n \<Longrightarrow> r \<in> set (refs_of n) \<Longrightarrow> isInverse r \<Longrightarrow>
    t \<in> set types \<Longrightarrow> UA_NodeId_equal (referenceTypeId r) t \<Longrightarrow> climbs lookup types (target r) b \<Longrightarrow> climbs lookup types a b"

definition relevant :: "nodeid list \<Rightarrow> reference \<Rightarrow> bool" where
  "relevant types r \<longleftrightarrow> isInverse r \<and> list_ex (UA_NodeId_equal (referenceTypeId r)) types"

text \<open>The nodes above a node have a smaller rank.\<close>

definition ranked_tree :: "(nodeid \<Rightarrow> 'c content_scheme node option) \<Rightarrow> nodeid list \<Rightarrow> (nodeid \<Rightarrow> nat) \<Rightarrow> bool" where
  "ranked_tree lookup types rank \<longleftrightarrow>
     (\<forall>a n. lookup a = Some n \<longrightarrow> (\<forall>r\<in>set (refs_of n). relevant types r \<longrightarrow> rank (target r) < rank a))"

inductive_simps climbs_iff: "climbs lookup types a b"

lemma climbs_step:
  "climbs lookup types a b \<longleftrightarrow> UA_NodeId_equal a b \<or>
     (\<exists>n. lookup a = Some n \<and> (\<exists>r\<in>set (refs_of n). relevant types r \<and> climbs lookup types (target r) b))"
  unfolding climbs_iff[of lookup types a b] relevant_def list_ex_iff by blast

lemma try_types_done:
  "list_ex (UA_NodeId_equal (referenceTypeId r)) types \<Longrightarrow> search (target r) = Done b \<Longrightarrow> try_types search r types = Done b"
proof (induction types)
  case (Cons t ts)
  show ?case
  proof (cases "UA_NodeId_equal (referenceTypeId r) t \<and> \<not> b")
    case True
    have "try_types search r ts = Done False"
      using Cons.prems(2) True by (induction ts) simp_all
    then show ?thesis using Cons.prems True by simp
  qed (use Cons in auto)
qed simp

lemma try_types_none: "\<not> list_ex (UA_NodeId_equal (referenceTypeId r)) types \<Longrightarrow> try_types search r types = Done False"
  by (induction types) auto

lemma search_references_done:
  "(\<And>r. r \<in> set rs \<Longrightarrow> relevant types r \<Longrightarrow> search (target r) = Done (P (target r))) \<Longrightarrow>
   search_references search types rs = Done (\<exists>r\<in>set rs. relevant types r \<and> P (target r))"
proof (induction rs)
  case (Cons r rs)
  have ih: "search_references search types rs = Done (\<exists>r\<in>set rs. relevant types r \<and> P (target r))"
    using Cons by simp
  show ?case
  proof (cases "relevant types r")
    case True
    then show ?thesis
      using try_types_done[of r types search] Cons.prems[of r] ih by (auto simp: relevant_def)
  next
    case False
    then show ?thesis using ih try_types_none[of r types search] by (auto simp: relevant_def)
  qed
qed simp

text \<open>The search goes on for ever when the first relevant reference leads there.\<close>

lemma try_types_stuck:
  "list_ex (UA_NodeId_equal (referenceTypeId r)) types \<Longrightarrow> search (target r) = OutOfFuel \<Longrightarrow>
   try_types search r types = OutOfFuel"
  by (induction types) auto

lemma search_references_stuck:
  "find (relevant types) rs = Some r \<Longrightarrow> search (target r) = OutOfFuel \<Longrightarrow> search_references search types rs = OutOfFuel"
proof (induction rs)
  case (Cons q rs)
  show ?case
  proof (cases "relevant types q")
    case True
    then show ?thesis using Cons.prems try_types_stuck[of q types search] by (auto simp: relevant_def)
  next
    case False
    then show ?thesis using Cons try_types_none[of q types search] by (auto simp: relevant_def)
  qed
qed simp

locale node_lookup =
  fixes ok :: "'s \<Rightarrow> bool"
    and get :: "'s \<Rightarrow> nodeid \<Rightarrow> 'c content_scheme node option outcome"
    and lookup :: "'s \<Rightarrow> nodeid \<Rightarrow> 'c content_scheme node option"
  assumes get_lookup: "ok st \<Longrightarrow> get st i = Done (lookup st i)"
begin

lemma in_tree:
  "ok st \<Longrightarrow> ranked_tree (lookup st) types rank \<Longrightarrow> rank a < fuel \<Longrightarrow>
   isNodeInTree fuel (get st) a b types = Done (climbs (lookup st) types a b)"
proof (induction fuel arbitrary: a)
  case (Suc fuel)
  show ?case
  proof (cases "lookup st a")
    case None
    then show ?thesis using Suc.prems(1) climbs_step[of "lookup st" types a b] by (simp add: get_lookup)
  next
    case (Some n)
    have "isNodeInTree fuel (get st) (target r) b types = Done (climbs (lookup st) types (target r) b)"
      if "r \<in> set (refs_of n)" "relevant types r" for r
    proof (rule Suc.IH[OF Suc.prems(1,2)])
      have "rank (target r) < rank a" using Suc.prems(2) Some that by (auto simp: ranked_tree_def)
      then show "rank (target r) < fuel" using Suc.prems(3) by simp
    qed
    then have "search_references (\<lambda>i. isNodeInTree fuel (get st) i b types) types (refs_of n) =
        Done (\<exists>r\<in>set (refs_of n). relevant types r \<and> climbs (lookup st) types (target r) b)"
      by (rule search_references_done)
    then show ?thesis using get_lookup[OF Suc.prems(1), of a] Some climbs_step[of "lookup st" types a b] by simp
  qed
qed simp

lemma in_cycle:
  assumes "ok st" "a \<in> A"
    and "\<And>i. i \<in> A \<Longrightarrow> \<not> UA_NodeId_equal i b \<and>
      (\<exists>n r. lookup st i = Some n \<and> find (relevant types) (refs_of n) = Some r \<and> target r \<in> A)"
  shows "isNodeInTree fuel (get st) a b types = OutOfFuel"
  using assms(2)
proof (induction fuel arbitrary: a)
  case (Suc fuel)
  from assms(3)[OF Suc.prems] obtain n r where n: "\<not> UA_NodeId_equal a b" "lookup st a = Some n"
    "find (relevant types) (refs_of n) = Some r" "target r \<in> A" by blast
  from search_references_stuck[OF n(3), of "\<lambda>i. isNodeInTree fuel (get st) i b types"] Suc.IH[OF n(4)] n(1,2)
      get_lookup[OF assms(1), of a]
  show ?case by simp
qed simp

end

text \<open>A store of the program, with room for the search to end.\<close>

definition searchable :: "'a nodeStore \<Rightarrow> bool" where
  "searchable st \<longleftrightarrow> store_ok st \<and> Free \<in> set (entries st) \<and> unat (nsSize st) \<le> 1048573"

abbreviation store_lookup :: "'a nodeStore \<Rightarrow> nodeid \<Rightarrow> 'a node option outcome" where
  "store_lookup \<equiv> UA_NodeStore_get 1048573"

interpretation store: node_lookup searchable store_lookup store_map
  by unfold_locales (simp add: searchable_def store_get)

end
