(* ===== verification/Attributes.thy ===== *)
theory Attributes
  imports Ranges InfoModel
begin

text \<open>
  The attribute services (sections \<open>ua_services_attribute.c\<close> of \<open>open62541.c\<close>): reading and writing the
  attributes of nodes, with the checks of type, value rank and array dimensions on values.

  The nodes of all classes are one record, whose fields the code accesses by the class.  What the
  application installs, the callbacks of values and the data sources, are functions in the node; a
  callback that runs before a value is read gives the value that the node then has.  The clock is an
  argument.  \<open>get\<close> looks nodes up, and \<open>inTree\<close> is \<open>isNodeInTree\<close> for subtypes.
\<close>

section \<open>Nodes with their attributes\<close>

record dataValue =
  hasValue :: bool
  dvValue :: uval
  dvStatus :: "status option"
  sourceTimestamp :: "u64 option"
  sourcePicoseconds :: "u16 option"
  serverTimestamp :: "u64 option"
  serverPicoseconds :: "u16 option"

definition UA_DataValue_init :: dataValue where
  "UA_DataValue_init = \<lparr> hasValue = False, dvValue = VVarEmpty, dvStatus = None, sourceTimestamp = None,
     sourcePicoseconds = None, serverTimestamp = None, serverPicoseconds = None \<rparr>"

text \<open>The field \<open>status\<close>, which is zero where none is set.\<close>

definition status_field :: "dataValue \<Rightarrow> status" where
  "status_field v = (case dvStatus v of None \<Rightarrow> 0 | Some s \<Rightarrow> s)"

datatype valueSource =
    SourceData dataValue "(dataValue \<Rightarrow> numericRange option \<Rightarrow> dataValue) option"
  | SourceExternal "(bool \<Rightarrow> numericRange option \<Rightarrow> dataValue \<Rightarrow> status \<times> dataValue) option"
      "(uval \<Rightarrow> numericRange option \<Rightarrow> status) option"

record attributes = content +
  browseName :: uval
  displayName :: uval
  description :: uval
  writeMask :: u32
  userWriteMask :: u32
  isAbstract :: bool
  symmetric :: bool
  inverseName :: uval
  containsNoLoops :: bool
  eventNotifier :: byte
  dataType :: nodeid
  valueRank :: u32
  arrayDimensions :: "u32 list"
  valueSource :: valueSource
  accessLevel :: byte
  userAccessLevel :: byte
  minimumSamplingInterval :: u64
  historizing :: bool
  executable :: bool
  userExecutable :: bool

type_synonym unode = "attributes node"

definition edit :: "(attributes \<Rightarrow> attributes) \<Rightarrow> unode \<Rightarrow> unode" where
  "edit f n = n\<lparr>nodeContent := f (nodeContent n)\<rparr>"

section \<open>Type checking\<close>

abbreviation BADTYPEMISMATCH :: status where "BADTYPEMISMATCH \<equiv> 0x80740000"

datatype type_equivalence = TYPE_EQUIVALENCE_NONE | TYPE_EQUIVALENCE_ENUM | TYPE_EQUIVALENCE_OPAQUE

definition typeEquivalence :: "udesc \<Rightarrow> type_equivalence" where
  "typeEquivalence t = (case members t of
       [m] \<Rightarrow> if \<not> namespaceZero m then TYPE_EQUIVALENCE_NONE
              else if memberTypeIndex m = UA_TYPES_INT32 then TYPE_EQUIVALENCE_ENUM
              else if memberTypeIndex m = UA_TYPES_BYTE \<and> isArray m then TYPE_EQUIVALENCE_OPAQUE
              else TYPE_EQUIVALENCE_NONE
     | _ \<Rightarrow> TYPE_EQUIVALENCE_NONE)"

definition compatibleValueRankArrayDimensions :: "u32 \<Rightarrow> nat \<Rightarrow> status" where
  "compatibleValueRankArrayDimensions rank arrayDimensionsSize =
     (let r = sint rank
      in if r = -3 then (if 1 < arrayDimensionsSize then BADTYPEMISMATCH else GOOD)
         else if r = -2 then GOOD
         else if r = -1 then (if 0 < arrayDimensionsSize then BADTYPEMISMATCH else GOOD)
         else if r = 0 then (if arrayDimensionsSize < 1 then BADTYPEMISMATCH else GOOD)
         else if r < 0 then BADTYPEMISMATCH
         else if arrayDimensionsSize \<noteq> nat r then BADTYPEMISMATCH
         else GOOD)"

text \<open>A variant: its type, whether it is a scalar, whether it has data, its length and dimensions.\<close>

fun variant_type :: "uval \<Rightarrow> nat option" where
  "variant_type (VVarScalar i x) = Some i"
| "variant_type (VVarArray i a ds) = Some i"
| "variant_type _ = None"

fun UA_Variant_isScalar :: "uval \<Rightarrow> bool" where
  "UA_Variant_isScalar (VVarScalar i x) = True"
| "UA_Variant_isScalar _ = False"

fun no_data :: "uval \<Rightarrow> bool" where
  "no_data (VVarScalar i x) = False"
| "no_data (VVarArray i a ds) = (a = None)"
| "no_data _ = True"

definition compatibleValueRankValue :: "u32 \<Rightarrow> uval \<Rightarrow> status" where
  "compatibleValueRankValue rank v =
     (if no_data v then GOOD
      else compatibleValueRankArrayDimensions rank
        (if \<not> UA_Variant_isScalar v then 1 else length (snd (array_of v))))"

definition compatibleArrayDimensions :: "u32 list \<Rightarrow> u32 list \<Rightarrow> status" where
  "compatibleArrayDimensions constraint test =
     (if constraint = [] then GOOD
      else if length test \<noteq> length constraint then BADTYPEMISMATCH
      else if list_ex (\<lambda>(c, t). c \<noteq> t \<and> c \<noteq> 0) (zip constraint test) then BADTYPEMISMATCH
      else GOOD)"

text \<open>
  Every identifier is taken for a number: of a string it is the low half of the length, of a GUID its
  first field.  The namespace does not matter.
\<close>

definition identifier_numeric :: "nodeid \<Rightarrow> u32 outcome" where
  "identifier_numeric i = (case ident i of
       Numeric n \<Rightarrow> Done n
     | StringId s \<Rightarrow> Done (of_nat (length (ubytes s)))
     | ByteStringId s \<Rightarrow> Done (of_nat (length (ubytes s)))
     | GuidId g \<Rightarrow> Done (gdata1 g)
     | BadIdType \<Rightarrow> Undefined)"

definition UA_findDataType :: "nodeid \<Rightarrow> nat option outcome" where
  "UA_findDataType i = bind (identifier_numeric i) (\<lambda>n. Done (find_type (\<lambda>d. numeric_of (typeId d) = n) UA_TYPES))"

fun retype :: "nat \<Rightarrow> uval \<Rightarrow> uval" where
  "retype t (VVarScalar i x) = VVarScalar t x"
| "retype t (VVarArray i a ds) = VVarArray t a ds"
| "retype t v = v"

definition convertToMatchingValue :: "uval \<Rightarrow> udesc \<Rightarrow> nodeid \<Rightarrow> uval option outcome" where
  "convertToMatchingValue v d targetDataTypeId =
     bind (UA_findDataType targetDataTypeId) (\<lambda>target. case target of
         None \<Rightarrow> Done None
       | Some t \<Rightarrow>
           if t = UA_TYPES_BYTE \<and> variant_type v = Some UA_TYPES_BYTESTRING \<and> UA_Variant_isScalar v then
             (case v of
                VVarScalar i (VStr s) \<Rightarrow> Done (Some (VVarArray UA_TYPES_BYTE (map_option (map VB) s) []))
              | _ \<Rightarrow> Undefined)
           else
             let te1 = typeEquivalence (UA_TYPES ! t); te2 = typeEquivalence d
             in Done (if te1 \<noteq> TYPE_EQUIVALENCE_NONE \<and> te1 = te2 then Some (retype t v) else None))"

definition check_array :: "u32 \<Rightarrow> u32 list \<Rightarrow> uval \<Rightarrow> bool \<Rightarrow> status" where
  "check_array targetValueRank targetDims v hasRange =
     (if hasRange then GOOD
      else
        let ds = snd (array_of v);
            dims = (if ds = [] \<and> \<not> UA_Variant_isScalar v then [of_nat (length (fst (array_of v)))] else ds)
        in if targetDims \<noteq> [] then compatibleArrayDimensions targetDims dims
           else compatibleValueRankValue targetValueRank v)"

text \<open>The status, and the variant that the value was converted to, where that is wanted.\<close>

definition typeCheckValue ::
  "(nodeid \<Rightarrow> nodeid \<Rightarrow> bool outcome) \<Rightarrow> nodeid \<Rightarrow> u32 \<Rightarrow> u32 list \<Rightarrow> uval \<Rightarrow> bool \<Rightarrow> bool \<Rightarrow> (status \<times> uval option) outcome" where
  "typeCheckValue inTree targetDataTypeId targetValueRank targetDims v hasRange editable =
     (case variant_type v of
        None \<Rightarrow> Done (check_array targetValueRank targetDims v hasRange, None)
      | Some i \<Rightarrow>
          (case type_at UA_TYPES i of
             None \<Rightarrow> Undefined
           | Some d \<Rightarrow>
               if UA_NodeId_equal (typeId d) targetDataTypeId
               then Done (check_array targetValueRank targetDims v hasRange, None)
               else bind (inTree (typeId d) targetDataTypeId) (\<lambda>found.
                 if found then Done (check_array targetValueRank targetDims v hasRange, None)
                 else if \<not> editable then Done (BADTYPEMISMATCH, None)
                 else bind (convertToMatchingValue v d targetDataTypeId) (\<lambda>r. case r of
                     None \<Rightarrow> Done (BADTYPEMISMATCH, None)
                   | Some w \<Rightarrow> Done (check_array targetValueRank targetDims w hasRange, Some w)))))"

section \<open>The value\<close>

datatype timestampsToReturn =
    UA_TIMESTAMPSTORETURN_SOURCE
  | UA_TIMESTAMPSTORETURN_SERVER
  | UA_TIMESTAMPSTORETURN_BOTH
  | UA_TIMESTAMPSTORETURN_NEITHER

text \<open>The status, and what the result given by the caller becomes.\<close>

definition readValueAttributeFromNode ::
  "dataValue \<Rightarrow> (dataValue \<Rightarrow> numericRange option \<Rightarrow> dataValue) option \<Rightarrow> dataValue \<Rightarrow> numericRange option \<Rightarrow>
   (status \<times> dataValue) outcome" where
  "readValueAttributeFromNode dv onRead v rangeptr =
     (let dv1 = (case onRead of Some callback \<Rightarrow> callback dv rangeptr | None \<Rightarrow> dv)
      in case rangeptr of
          Some rng \<Rightarrow> bind (UA_Variant_copyRange (dvValue dv1) rng) (\<lambda>(retval, x).
            Done (retval, case x of Some y \<Rightarrow> v\<lparr>dvValue := y\<rparr> | None \<Rightarrow> v))
        | None \<Rightarrow> Done (GOOD, dv1))"

definition readValueAttributeFromDataSource ::
  "(bool \<Rightarrow> numericRange option \<Rightarrow> dataValue \<Rightarrow> status \<times> dataValue) option \<Rightarrow> dataValue \<Rightarrow> timestampsToReturn \<Rightarrow>
   numericRange option \<Rightarrow> status \<times> dataValue" where
  "readValueAttributeFromDataSource source v timestamps rangeptr =
     (case source of
        None \<Rightarrow> (BADINTERNALERROR, v)
      | Some read \<Rightarrow> read (timestamps \<in> {UA_TIMESTAMPSTORETURN_SOURCE, UA_TIMESTAMPSTORETURN_BOTH}) rangeptr v)"

text \<open>The index range that is given as text, if there is any.\<close>

definition requested_range :: "cstr \<Rightarrow> status \<times> numericRange option" where
  "requested_range indexRange = (if indexRange \<noteq> [] then parse_numericrange indexRange else (GOOD, None))"

definition readValueAttributeComplete ::
  "unode \<Rightarrow> timestampsToReturn \<Rightarrow> cstr \<Rightarrow> dataValue \<Rightarrow> (status \<times> dataValue) outcome" where
  "readValueAttributeComplete vn timestamps indexRange v =
     (case requested_range indexRange of (retval, rangeptr) \<Rightarrow>
       if retval \<noteq> GOOD then Done (retval, v)
       else case valueSource (nodeContent vn) of
           SourceData dv onRead \<Rightarrow> readValueAttributeFromNode dv onRead v rangeptr
         | SourceExternal read write \<Rightarrow> Done (readValueAttributeFromDataSource read v timestamps rangeptr))"

definition readValueAttribute :: "unode \<Rightarrow> dataValue \<Rightarrow> (status \<times> dataValue) outcome" where
  "readValueAttribute vn v = readValueAttributeComplete vn UA_TIMESTAMPSTORETURN_NEITHER [] v"

definition writeValueAttributeWithoutRange :: "dataValue \<Rightarrow> dataValue \<Rightarrow> status \<times> dataValue" where
  "writeValueAttributeWithoutRange old v = (GOOD, v)"

text \<open>
  The elements are copied with the type of the value in the node; where the types differ, memory is
  taken for what it is not.
\<close>

definition writeValueAttributeWithRange :: "dataValue \<Rightarrow> dataValue \<Rightarrow> numericRange \<Rightarrow> (status \<times> dataValue) outcome" where
  "writeValueAttributeWithRange old v rng =
     (if status_field v \<noteq> status_field old \<or> \<not> hasValue v \<or> \<not> hasValue old then Done (BADINDEXRANGEINVALID, old)
      else
        let array = (case dvValue v of VVarScalar i x \<Rightarrow> [x] | _ \<Rightarrow> fst (array_of (dvValue v)))
        in bind (UA_Variant_setRangeCopy (dvValue old) array rng) (\<lambda>(retval, w, cleared).
          if retval \<noteq> GOOD then Done (retval, old)
          else if variant_type (dvValue v) \<noteq> variant_type (dvValue old) then Undefined
          else Done (GOOD, old\<lparr>dvValue := w, dvStatus := dvStatus v, sourceTimestamp := sourceTimestamp v,
                 sourcePicoseconds := sourcePicoseconds v\<rparr>)))"

abbreviation BADWRITENOTSUPPORTED :: status where "BADWRITENOTSUPPORTED \<equiv> 0x80730000"

text \<open>The callback after writing gets the new value and is not modelled.\<close>

definition writeValueAttribute ::
  "(nodeid \<Rightarrow> nodeid \<Rightarrow> bool outcome) \<Rightarrow> u64 \<Rightarrow> unode \<Rightarrow> dataValue \<Rightarrow> cstr \<Rightarrow> (status \<times> unode) outcome" where
  "writeValueAttribute inTree now n v indexRange =
     (case requested_range indexRange of (retval, rangeptr) \<Rightarrow>
       if retval \<noteq> GOOD then Done (retval, n)
       else
         let c = nodeContent n
         in bind (if hasValue v
                  then typeCheckValue inTree (dataType c) (valueRank c) (arrayDimensions c) (dvValue v) (rangeptr \<noteq> None) True
                  else Done (GOOD, None)) (\<lambda>(retval, converted).
           if retval \<noteq> GOOD then Done (retval, n)
           else
             let v1 = v\<lparr>dvValue := (case converted of Some w \<Rightarrow> w | None \<Rightarrow> dvValue v)\<rparr>;
                 v2 = (if sourceTimestamp v1 = None then v1\<lparr>sourceTimestamp := Some now\<rparr> else v1)
             in case valueSource c of
                 SourceData old onRead \<Rightarrow>
                   bind (case rangeptr of
                           None \<Rightarrow> Done (writeValueAttributeWithoutRange old v2)
                         | Some rng \<Rightarrow> writeValueAttributeWithRange old v2 rng) (\<lambda>(retval, new).
                     Done (retval, edit (\<lambda>c. c\<lparr>valueSource := SourceData new onRead\<rparr>) n))
               | SourceExternal read write \<Rightarrow>
                   Done (case write of Some w \<Rightarrow> w (dvValue v2) rangeptr | None \<Rightarrow> BADWRITENOTSUPPORTED, n)))"

end
