(* ===== verification/AttributeService.thy ===== *)
theory AttributeService
  imports Attributes
begin

text \<open>
  The Read and Write services over the attributes of a node: the attributes that constrain a value, the
  dispatch by attribute, and the loops over the items of a request.
\<close>

section \<open>Attributes that constrain the value\<close>

definition writeValueRankAttribute :: "unode \<Rightarrow> u32 \<Rightarrow> u32 \<Rightarrow> (status \<times> unode) outcome" where
  "writeValueRankAttribute n rank constraintValueRank =
     (if nodeClass n = UA_NODECLASS_VARIABLETYPE \<and> UA_Node_hasSubTypeOrInstances n then Done (BADINTERNALERROR, n)
      else
        let r = sint rank; cr = sint constraintValueRank
        in if cr = -3 \<and> r \<noteq> -1 \<and> r \<noteq> 1 then Done (BADTYPEMISMATCH, n)
           else if cr = -1 \<and> r \<noteq> -1 then Done (BADTYPEMISMATCH, n)
           else if cr = 0 \<and> r < 0 then Done (BADTYPEMISMATCH, n)
           else if cr \<notin> {-3, -2, -1, 0} \<and> r \<noteq> cr then Done (BADTYPEMISMATCH, n)
           else
             let arrayDims = length (arrayDimensions (nodeContent n));
                 apply_rank = edit (\<lambda>c. c\<lparr>valueRank := rank\<rparr>) n;
                 check = (\<lambda>dims. let retval = compatibleValueRankArrayDimensions rank dims
                           in Done (retval, if retval = GOOD then apply_rank else n))
             in if arrayDims \<noteq> 0 then check arrayDims
                else bind (readValueAttribute n UA_DataValue_init) (\<lambda>(retval, v).
                  if retval \<noteq> GOOD then Done (retval, n)
                  else if \<not> hasValue v \<or> no_data (dvValue v) then Done (GOOD, apply_rank)
                  else check (if \<not> UA_Variant_isScalar (dvValue v) then 1 else 0)))"

definition writeValueRankAttributeWithVT ::
  "(nodeid \<Rightarrow> unode option outcome) \<Rightarrow> unode \<Rightarrow> u32 \<Rightarrow> (status \<times> unode) outcome" where
  "writeValueRankAttributeWithVT get n rank =
     bind (getVariableNodeType get n) (\<lambda>vt. case vt of
         None \<Rightarrow> Done (BADINTERNALERROR, n)
       | Some t \<Rightarrow> writeValueRankAttribute n rank (valueRank (nodeContent t)))"

definition writeDataTypeAttribute ::
  "(nodeid \<Rightarrow> nodeid \<Rightarrow> bool outcome) \<Rightarrow> unode \<Rightarrow> nodeid \<Rightarrow> nodeid \<Rightarrow> (status \<times> unode) outcome" where
  "writeDataTypeAttribute inTree n dt constraintDataType =
     (if nodeClass n = UA_NODECLASS_VARIABLETYPE \<and> UA_Node_hasSubTypeOrInstances n then Done (BADINTERNALERROR, n)
      else bind (inTree dt constraintDataType) (\<lambda>found.
        if \<not> found then Done (BADTYPEMISMATCH, n)
        else bind (readValueAttribute n UA_DataValue_init) (\<lambda>(retval, v).
          if retval \<noteq> GOOD then Done (retval, n)
          else bind (if hasValue v
                     then typeCheckValue inTree dt (valueRank (nodeContent n)) (arrayDimensions (nodeContent n)) (dvValue v) False False
                     else Done (GOOD, None)) (\<lambda>(retval, converted).
            if retval \<noteq> GOOD then Done (retval, n)
            else Done (GOOD, edit (\<lambda>c. c\<lparr>dataType := dt\<rparr>) n)))))"

definition writeDataTypeAttributeWithVT ::
  "(nodeid \<Rightarrow> unode option outcome) \<Rightarrow> (nodeid \<Rightarrow> nodeid \<Rightarrow> bool outcome) \<Rightarrow> unode \<Rightarrow> nodeid \<Rightarrow> (status \<times> unode) outcome" where
  "writeDataTypeAttributeWithVT get inTree n dt =
     bind (getVariableNodeType get n) (\<lambda>vt. case vt of
         None \<Rightarrow> Done (BADINTERNALERROR, n)
       | Some t \<Rightarrow> writeDataTypeAttribute inTree n dt (dataType (nodeContent t)))"

text \<open>The pointer to the dimensions of the type is taken to be \<open>NULL\<close> when there are none.\<close>

definition writeArrayDimensionsAttribute ::
  "(nodeid \<Rightarrow> unode option outcome) \<Rightarrow> unode \<Rightarrow> u32 list \<Rightarrow> (status \<times> unode) outcome" where
  "writeArrayDimensionsAttribute get n dims =
     (if nodeClass n = UA_NODECLASS_VARIABLETYPE \<and> UA_Node_hasSubTypeOrInstances n then Done (BADINTERNALERROR, n)
      else
        let retval = compatibleValueRankArrayDimensions (valueRank (nodeContent n)) (length dims)
        in if retval \<noteq> GOOD then Done (retval, n)
           else bind (getVariableNodeType get n) (\<lambda>vt. case vt of
               None \<Rightarrow> Done (BADINTERNALERROR, n)
             | Some t \<Rightarrow>
                 let retval = compatibleArrayDimensions (arrayDimensions (nodeContent t)) dims
                 in if retval \<noteq> GOOD then Done (retval, n)
                    else bind (readValueAttribute n UA_DataValue_init) (\<lambda>(retval, v).
                      if retval \<noteq> GOOD then Done (retval, n)
                      else
                        let retval = (if hasValue v then compatibleArrayDimensions dims (snd (array_of (dvValue v))) else GOOD)
                        in if retval \<noteq> GOOD then Done (retval, n)
                           else Done (GOOD, edit (\<lambda>c. c\<lparr>arrayDimensions := dims\<rparr>) n))))"

section \<open>Attributes\<close>

datatype attributeId =
    UA_ATTRIBUTEID_NODEID
  | UA_ATTRIBUTEID_NODECLASS
  | UA_ATTRIBUTEID_BROWSENAME
  | UA_ATTRIBUTEID_DISPLAYNAME
  | UA_ATTRIBUTEID_DESCRIPTION
  | UA_ATTRIBUTEID_WRITEMASK
  | UA_ATTRIBUTEID_USERWRITEMASK
  | UA_ATTRIBUTEID_ISABSTRACT
  | UA_ATTRIBUTEID_SYMMETRIC
  | UA_ATTRIBUTEID_INVERSENAME
  | UA_ATTRIBUTEID_CONTAINSNOLOOPS
  | UA_ATTRIBUTEID_EVENTNOTIFIER
  | UA_ATTRIBUTEID_VALUE
  | UA_ATTRIBUTEID_DATATYPE
  | UA_ATTRIBUTEID_VALUERANK
  | UA_ATTRIBUTEID_ARRAYDIMENSIONS
  | UA_ATTRIBUTEID_ACCESSLEVEL
  | UA_ATTRIBUTEID_USERACCESSLEVEL
  | UA_ATTRIBUTEID_MINIMUMSAMPLINGINTERVAL
  | UA_ATTRIBUTEID_HISTORIZING
  | UA_ATTRIBUTEID_EXECUTABLE
  | UA_ATTRIBUTEID_USEREXECUTABLE

definition attribute_ids :: "attributeId list" where
  "attribute_ids = [UA_ATTRIBUTEID_NODEID, UA_ATTRIBUTEID_NODECLASS, UA_ATTRIBUTEID_BROWSENAME, UA_ATTRIBUTEID_DISPLAYNAME,
     UA_ATTRIBUTEID_DESCRIPTION, UA_ATTRIBUTEID_WRITEMASK, UA_ATTRIBUTEID_USERWRITEMASK, UA_ATTRIBUTEID_ISABSTRACT,
     UA_ATTRIBUTEID_SYMMETRIC, UA_ATTRIBUTEID_INVERSENAME, UA_ATTRIBUTEID_CONTAINSNOLOOPS, UA_ATTRIBUTEID_EVENTNOTIFIER,
     UA_ATTRIBUTEID_VALUE, UA_ATTRIBUTEID_DATATYPE, UA_ATTRIBUTEID_VALUERANK, UA_ATTRIBUTEID_ARRAYDIMENSIONS,
     UA_ATTRIBUTEID_ACCESSLEVEL, UA_ATTRIBUTEID_USERACCESSLEVEL, UA_ATTRIBUTEID_MINIMUMSAMPLINGINTERVAL,
     UA_ATTRIBUTEID_HISTORIZING, UA_ATTRIBUTEID_EXECUTABLE, UA_ATTRIBUTEID_USEREXECUTABLE]"

text \<open>The attribute of a number from a request, if it is one.\<close>

definition attribute_of :: "u32 \<Rightarrow> attributeId option" where
  "attribute_of i = (if 1 \<le> i \<and> i \<le> 22 then Some (attribute_ids ! (unat i - 1)) else None)"

definition class_code :: "nodeClass \<Rightarrow> u32" where
  "class_code c = (case c of
       UA_NODECLASS_UNSPECIFIED \<Rightarrow> 0
     | UA_NODECLASS_OBJECT \<Rightarrow> 1
     | UA_NODECLASS_VARIABLE \<Rightarrow> 2
     | UA_NODECLASS_METHOD \<Rightarrow> 4
     | UA_NODECLASS_OBJECTTYPE \<Rightarrow> 8
     | UA_NODECLASS_VARIABLETYPE \<Rightarrow> 16
     | UA_NODECLASS_REFERENCETYPE \<Rightarrow> 32
     | UA_NODECLASS_DATATYPE \<Rightarrow> 64
     | UA_NODECLASS_VIEW \<Rightarrow> 128)"

abbreviation (input) UA_TYPES_NODECLASS :: nat where "UA_TYPES_NODECLASS \<equiv> 64"

definition bool_value :: "bool \<Rightarrow> uval" where
  "bool_value b = VVarScalar UA_TYPES_BOOLEAN (VB (if b then 1 else 0))"

section \<open>Reading\<close>

record readValueId =
  ridNodeId :: nodeid
  ridAttribute :: u32
  ridRange :: cstr
  ridEncoding :: ustring

abbreviation abstract_classes :: "nodeClass set" where
  "abstract_classes \<equiv> {UA_NODECLASS_REFERENCETYPE, UA_NODECLASS_OBJECTTYPE, UA_NODECLASS_VARIABLETYPE, UA_NODECLASS_DATATYPE}"

abbreviation variable_classes :: "nodeClass set" where
  "variable_classes \<equiv> {UA_NODECLASS_VARIABLE, UA_NODECLASS_VARIABLETYPE}"

definition readIsAbstractAttribute :: "unode \<Rightarrow> dataValue \<Rightarrow> status \<times> dataValue" where
  "readIsAbstractAttribute n v =
     (if nodeClass n \<in> abstract_classes then (GOOD, v\<lparr>dvValue := bool_value (isAbstract (nodeContent n))\<rparr>)
      else (BADATTRIBUTEIDINVALID, v))"

text \<open>The dimensions are given out with the type \<open>Int32\<close>.\<close>

definition readArrayDimensionsAttribute :: "unode \<Rightarrow> dataValue \<Rightarrow> status \<times> dataValue" where
  "readArrayDimensionsAttribute n v =
     (GOOD, v\<lparr>hasValue := True, dvValue := VVarArray UA_TYPES_INT32
        (if arrayDimensions (nodeContent n) = [] then None else Some (map V32 (arrayDimensions (nodeContent n)))) []\<rparr>)"

definition checked_class :: "nodeClass set \<Rightarrow> unode \<Rightarrow> uval \<Rightarrow> dataValue \<Rightarrow> (status \<times> dataValue) outcome" where
  "checked_class classes n w v =
     Done (if nodeClass n \<notin> classes then (BADATTRIBUTEIDINVALID, v) else (GOOD, v\<lparr>dvValue := w\<rparr>))"

definition read_attribute :: "unode \<Rightarrow> attributeId option \<Rightarrow> timestampsToReturn \<Rightarrow> cstr \<Rightarrow> dataValue \<Rightarrow> (status \<times> dataValue) outcome" where
  "read_attribute n attr timestamps indexRange v =
     (let c = nodeContent n; scalar = (\<lambda>w. Done (GOOD, v\<lparr>dvValue := w\<rparr>))
      in case attr of
          None \<Rightarrow> Done (BADATTRIBUTEIDINVALID, v)
        | Some a \<Rightarrow> (case a of
            UA_ATTRIBUTEID_NODEID \<Rightarrow> scalar (VVarScalar UA_TYPES_NODEID (VNode (nodeId n)))
          | UA_ATTRIBUTEID_NODECLASS \<Rightarrow> scalar (VVarScalar UA_TYPES_NODECLASS (V32 (class_code (nodeClass n))))
          | UA_ATTRIBUTEID_BROWSENAME \<Rightarrow> scalar (VVarScalar UA_TYPES_QUALIFIEDNAME (browseName c))
          | UA_ATTRIBUTEID_DISPLAYNAME \<Rightarrow> scalar (VVarScalar UA_TYPES_LOCALIZEDTEXT (displayName c))
          | UA_ATTRIBUTEID_DESCRIPTION \<Rightarrow> scalar (VVarScalar UA_TYPES_LOCALIZEDTEXT (description c))
          | UA_ATTRIBUTEID_WRITEMASK \<Rightarrow> scalar (VVarScalar UA_TYPES_UINT32 (V32 (writeMask c)))
          | UA_ATTRIBUTEID_USERWRITEMASK \<Rightarrow> scalar (VVarScalar UA_TYPES_UINT32 (V32 (userWriteMask c)))
          | UA_ATTRIBUTEID_ISABSTRACT \<Rightarrow> Done (readIsAbstractAttribute n v)
          | UA_ATTRIBUTEID_SYMMETRIC \<Rightarrow> checked_class {UA_NODECLASS_REFERENCETYPE} n (bool_value (symmetric c)) v
          | UA_ATTRIBUTEID_INVERSENAME \<Rightarrow>
              checked_class {UA_NODECLASS_REFERENCETYPE} n (VVarScalar UA_TYPES_LOCALIZEDTEXT (inverseName c)) v
          | UA_ATTRIBUTEID_CONTAINSNOLOOPS \<Rightarrow> checked_class {UA_NODECLASS_VIEW} n (bool_value (containsNoLoops c)) v
          | UA_ATTRIBUTEID_EVENTNOTIFIER \<Rightarrow>
              checked_class {UA_NODECLASS_VIEW, UA_NODECLASS_OBJECT} n (VVarScalar UA_TYPES_BYTE (VB (eventNotifier c))) v
          | UA_ATTRIBUTEID_VALUE \<Rightarrow>
              if nodeClass n \<notin> variable_classes then Done (BADATTRIBUTEIDINVALID, v)
              else readValueAttributeComplete n timestamps indexRange v
          | UA_ATTRIBUTEID_DATATYPE \<Rightarrow> checked_class variable_classes n (VVarScalar UA_TYPES_NODEID (VNode (dataType c))) v
          | UA_ATTRIBUTEID_VALUERANK \<Rightarrow> checked_class variable_classes n (VVarScalar UA_TYPES_INT32 (V32 (valueRank c))) v
          | UA_ATTRIBUTEID_ARRAYDIMENSIONS \<Rightarrow>
              if nodeClass n \<notin> variable_classes then Done (BADATTRIBUTEIDINVALID, v)
              else Done (readArrayDimensionsAttribute n v)
          | UA_ATTRIBUTEID_ACCESSLEVEL \<Rightarrow> checked_class {UA_NODECLASS_VARIABLE} n (VVarScalar UA_TYPES_BYTE (VB (accessLevel c))) v
          | UA_ATTRIBUTEID_USERACCESSLEVEL \<Rightarrow>
              checked_class {UA_NODECLASS_VARIABLE} n (VVarScalar UA_TYPES_BYTE (VB (userAccessLevel c))) v
          | UA_ATTRIBUTEID_MINIMUMSAMPLINGINTERVAL \<Rightarrow>
              checked_class {UA_NODECLASS_VARIABLE} n (VVarScalar UA_TYPES_DOUBLE (V64 (minimumSamplingInterval c))) v
          | UA_ATTRIBUTEID_HISTORIZING \<Rightarrow> checked_class {UA_NODECLASS_VARIABLE} n (bool_value (historizing c)) v
          | UA_ATTRIBUTEID_EXECUTABLE \<Rightarrow> checked_class {UA_NODECLASS_METHOD} n (bool_value (executable c)) v
          | UA_ATTRIBUTEID_USEREXECUTABLE \<Rightarrow> checked_class {UA_NODECLASS_METHOD} n (bool_value (userExecutable c)) v))"

abbreviation BADDATAENCODINGUNSUPPORTED :: status where "BADDATAENCODINGUNSUPPORTED \<equiv> 0x80390000"

text \<open>The timestamps of a value that was read.\<close>

definition stamp_value :: "u64 \<Rightarrow> timestampsToReturn \<Rightarrow> attributeId option \<Rightarrow> dataValue \<Rightarrow> dataValue" where
  "stamp_value now timestamps attr v =
     (let v1 = v\<lparr>hasValue := True\<rparr>;
          v2 = (if timestamps \<in> {UA_TIMESTAMPSTORETURN_SERVER, UA_TIMESTAMPSTORETURN_BOTH}
                then v1\<lparr>serverTimestamp := Some now\<rparr> else v1)
      in if attr \<noteq> Some UA_ATTRIBUTEID_VALUE then v2
         else if timestamps \<in> {UA_TIMESTAMPSTORETURN_SERVER, UA_TIMESTAMPSTORETURN_NEITHER}
         then v2\<lparr>sourceTimestamp := None, sourcePicoseconds := None\<rparr>
         else if sourceTimestamp v2 = None then v2\<lparr>sourceTimestamp := Some now\<rparr>
         else v2)"

definition Service_Read_single ::
  "(nodeid \<Rightarrow> unode option outcome) \<Rightarrow> u64 \<Rightarrow> timestampsToReturn \<Rightarrow> readValueId \<Rightarrow> dataValue \<Rightarrow> dataValue outcome" where
  "Service_Read_single get now timestamps rid v =
     (let attr = attribute_of (ridAttribute rid); failed = (\<lambda>v retval. Done (v\<lparr>dvStatus := Some retval\<rparr>))
      in if ubytes (ridEncoding rid) \<noteq> [] \<and> \<not> UA_String_equal (UA_String_fromChars (str ''DefaultBinary'')) (ridEncoding rid)
         then failed v BADDATAENCODINGUNSUPPORTED
         else if ridRange rid \<noteq> [] \<and> attr \<noteq> Some UA_ATTRIBUTEID_VALUE then failed v BADINDEXRANGENODATA
         else bind (get (ridNodeId rid)) (\<lambda>r. case r of
             None \<Rightarrow> failed v BADNODEIDUNKNOWN
           | Some n \<Rightarrow> bind (read_attribute n attr timestamps (ridRange rid) v) (\<lambda>(retval, v1).
               if retval \<noteq> GOOD then failed v1 retval else Done (stamp_value now timestamps attr v1))))"

text \<open>The items of a request one after the other, each with the time at which it is read.\<close>

fun read_items ::
  "(nodeid \<Rightarrow> unode option outcome) \<Rightarrow> timestampsToReturn \<Rightarrow> (u64 \<times> readValueId) list \<Rightarrow> dataValue list outcome" where
  "read_items get timestamps [] = Done []"
| "read_items get timestamps ((now, rid) # rids) =
     bind (Service_Read_single get now timestamps rid UA_DataValue_init) (\<lambda>v.
     bind (read_items get timestamps rids) (\<lambda>vs. Done (v # vs)))"

abbreviation BADNOTHINGTODO :: status where "BADNOTHINGTODO \<equiv> 0x800f0000"
abbreviation BADTIMESTAMPSTORETURNINVALID :: status where "BADTIMESTAMPSTORETURNINVALID \<equiv> 0x802b0000"
abbreviation BADMAXAGEINVALID :: status where "BADMAXAGEINVALID \<equiv> 0x80700000"

text \<open>The result of the service and the results of the items.  A timestamp kind that is none is \<open>None\<close>.\<close>

definition Service_Read ::
  "(nodeid \<Rightarrow> unode option outcome) \<Rightarrow> timestampsToReturn option \<Rightarrow> bool \<Rightarrow> (u64 \<times> readValueId) list \<Rightarrow>
   (status \<times> dataValue list) outcome" where
  "Service_Read get timestamps negativeMaxAge items =
     (if items = [] then Done (BADNOTHINGTODO, [])
      else case timestamps of
          None \<Rightarrow> Done (BADTIMESTAMPSTORETURNINVALID, [])
        | Some t \<Rightarrow>
            if negativeMaxAge then Done (BADMAXAGEINVALID, replicate (length items) UA_DataValue_init)
            else bind (read_items get t items) (\<lambda>vs. Done (GOOD, vs)))"

section \<open>Writing\<close>

record writeValue =
  wvNodeId :: nodeid
  wvAttribute :: u32
  wvRange :: cstr
  wvValue :: dataValue

abbreviation BADNODECLASSINVALID :: status where "BADNODECLASSINVALID \<equiv> 0x805f0000"

definition checked_scalar :: "nat \<Rightarrow> unode \<Rightarrow> dataValue \<Rightarrow> (uval \<Rightarrow> (status \<times> unode) outcome) \<Rightarrow> (status \<times> unode) outcome" where
  "checked_scalar t n v store =
     (if \<not> hasValue v then Done (BADTYPEMISMATCH, n)
      else case dvValue v of
          VVarScalar i x \<Rightarrow> if i = t then store x else Done (BADTYPEMISMATCH, n)
        | _ \<Rightarrow> Done (BADTYPEMISMATCH, n))"

definition checked_array :: "nat \<Rightarrow> unode \<Rightarrow> dataValue \<Rightarrow> (uval list \<Rightarrow> (status \<times> unode) outcome) \<Rightarrow> (status \<times> unode) outcome" where
  "checked_array t n v store =
     (if \<not> hasValue v then Done (BADTYPEMISMATCH, n)
      else case dvValue v of
          VVarArray i a ds \<Rightarrow> if i = t then store (fst (array_of (dvValue v))) else Done (BADTYPEMISMATCH, n)
        | _ \<Rightarrow> Done (BADTYPEMISMATCH, n))"

definition checked_class_write :: "nodeClass set \<Rightarrow> unode \<Rightarrow> (status \<times> unode) outcome \<Rightarrow> (status \<times> unode) outcome" where
  "checked_class_write classes n r = (if nodeClass n \<notin> classes then Done (BADNODECLASSINVALID, n) else r)"

text \<open>The value behind a pointer to a type of the C code.\<close>

definition store_word :: "(u32 \<Rightarrow> attributes \<Rightarrow> attributes) \<Rightarrow> unode \<Rightarrow> uval \<Rightarrow> (status \<times> unode) outcome" where
  "store_word f n x = (case x of V32 w \<Rightarrow> Done (GOOD, edit (f w) n) | _ \<Rightarrow> Undefined)"

definition store_double :: "(u64 \<Rightarrow> attributes \<Rightarrow> attributes) \<Rightarrow> unode \<Rightarrow> uval \<Rightarrow> (status \<times> unode) outcome" where
  "store_double f n x = (case x of V64 w \<Rightarrow> Done (GOOD, edit (f w) n) | _ \<Rightarrow> Undefined)"

definition store_byte :: "(byte \<Rightarrow> attributes \<Rightarrow> attributes) \<Rightarrow> unode \<Rightarrow> uval \<Rightarrow> (status \<times> unode) outcome" where
  "store_byte f n x = (case x of VB b \<Rightarrow> Done (GOOD, edit (f b) n) | _ \<Rightarrow> Undefined)"

definition store_bool :: "(bool \<Rightarrow> attributes \<Rightarrow> attributes) \<Rightarrow> unode \<Rightarrow> uval \<Rightarrow> (status \<times> unode) outcome" where
  "store_bool f n x = (case x of VB b \<Rightarrow> Done (GOOD, edit (f (b \<noteq> 0)) n) | _ \<Rightarrow> Undefined)"

definition store_text :: "(uval \<Rightarrow> attributes \<Rightarrow> attributes) \<Rightarrow> unode \<Rightarrow> uval \<Rightarrow> (status \<times> unode) outcome" where
  "store_text f n x = Done (GOOD, edit (f x) n)"

definition writeIsAbstractAttribute :: "unode \<Rightarrow> uval \<Rightarrow> (status \<times> unode) outcome" where
  "writeIsAbstractAttribute n x =
     (if nodeClass n \<in> abstract_classes then store_bool (\<lambda>b c. c\<lparr>isAbstract := b\<rparr>) n x else Done (BADNODECLASSINVALID, n))"

fun words_of :: "uval list \<Rightarrow> u32 list option" where
  "words_of [] = Some []"
| "words_of (V32 w # vs) = map_option ((#) w) (words_of vs)"
| "words_of _ = None"

definition CopyAttributeIntoNode ::
  "(nodeid \<Rightarrow> unode option outcome) \<Rightarrow> (nodeid \<Rightarrow> nodeid \<Rightarrow> bool outcome) \<Rightarrow> u64 \<Rightarrow> writeValue \<Rightarrow> unode \<Rightarrow>
   (status \<times> unode) outcome" where
  "CopyAttributeIntoNode get inTree now wv n =
     (let v = wvValue wv; scalar = (\<lambda>t. checked_scalar t n v)
      in case attribute_of (wvAttribute wv) of
          None \<Rightarrow> Done (BADATTRIBUTEIDINVALID, n)
        | Some a \<Rightarrow> (case a of
            UA_ATTRIBUTEID_NODEID \<Rightarrow> Done (BADWRITENOTSUPPORTED, n)
          | UA_ATTRIBUTEID_NODECLASS \<Rightarrow> Done (BADWRITENOTSUPPORTED, n)
          | UA_ATTRIBUTEID_BROWSENAME \<Rightarrow> scalar UA_TYPES_QUALIFIEDNAME (store_text (\<lambda>x c. c\<lparr>browseName := x\<rparr>) n)
          | UA_ATTRIBUTEID_DISPLAYNAME \<Rightarrow> scalar UA_TYPES_LOCALIZEDTEXT (store_text (\<lambda>x c. c\<lparr>displayName := x\<rparr>) n)
          | UA_ATTRIBUTEID_DESCRIPTION \<Rightarrow> scalar UA_TYPES_LOCALIZEDTEXT (store_text (\<lambda>x c. c\<lparr>description := x\<rparr>) n)
          | UA_ATTRIBUTEID_WRITEMASK \<Rightarrow> scalar UA_TYPES_UINT32 (store_word (\<lambda>w c. c\<lparr>writeMask := w\<rparr>) n)
          | UA_ATTRIBUTEID_USERWRITEMASK \<Rightarrow> scalar UA_TYPES_UINT32 (store_word (\<lambda>w c. c\<lparr>userWriteMask := w\<rparr>) n)
          | UA_ATTRIBUTEID_ISABSTRACT \<Rightarrow> scalar UA_TYPES_BOOLEAN (writeIsAbstractAttribute n)
          | UA_ATTRIBUTEID_SYMMETRIC \<Rightarrow> checked_class_write {UA_NODECLASS_REFERENCETYPE} n
              (scalar UA_TYPES_BOOLEAN (store_bool (\<lambda>b c. c\<lparr>symmetric := b\<rparr>) n))
          | UA_ATTRIBUTEID_INVERSENAME \<Rightarrow> checked_class_write {UA_NODECLASS_REFERENCETYPE} n
              (scalar UA_TYPES_LOCALIZEDTEXT (store_text (\<lambda>x c. c\<lparr>inverseName := x\<rparr>) n))
          | UA_ATTRIBUTEID_CONTAINSNOLOOPS \<Rightarrow> checked_class_write {UA_NODECLASS_VIEW} n
              (scalar UA_TYPES_BOOLEAN (store_bool (\<lambda>b c. c\<lparr>containsNoLoops := b\<rparr>) n))
          | UA_ATTRIBUTEID_EVENTNOTIFIER \<Rightarrow> checked_class_write {UA_NODECLASS_VIEW, UA_NODECLASS_OBJECT} n
              (scalar UA_TYPES_BYTE (store_byte (\<lambda>b c. c\<lparr>eventNotifier := b\<rparr>) n))
          | UA_ATTRIBUTEID_VALUE \<Rightarrow> checked_class_write variable_classes n (writeValueAttribute inTree now n v (wvRange wv))
          | UA_ATTRIBUTEID_DATATYPE \<Rightarrow> checked_class_write variable_classes n (scalar UA_TYPES_NODEID
              (\<lambda>x. case x of VNode i \<Rightarrow> writeDataTypeAttributeWithVT get inTree n i | _ \<Rightarrow> Undefined))
          | UA_ATTRIBUTEID_VALUERANK \<Rightarrow> checked_class_write variable_classes n (scalar UA_TYPES_INT32
              (\<lambda>x. case x of V32 w \<Rightarrow> writeValueRankAttributeWithVT get n w | _ \<Rightarrow> Undefined))
          | UA_ATTRIBUTEID_ARRAYDIMENSIONS \<Rightarrow> checked_class_write variable_classes n (checked_array UA_TYPES_UINT32 n v
              (\<lambda>xs. case words_of xs of Some ws \<Rightarrow> writeArrayDimensionsAttribute get n ws | None \<Rightarrow> Undefined))
          | UA_ATTRIBUTEID_ACCESSLEVEL \<Rightarrow> checked_class_write {UA_NODECLASS_VARIABLE} n
              (scalar UA_TYPES_BYTE (store_byte (\<lambda>b c. c\<lparr>accessLevel := b\<rparr>) n))
          | UA_ATTRIBUTEID_USERACCESSLEVEL \<Rightarrow> checked_class_write {UA_NODECLASS_VARIABLE} n
              (scalar UA_TYPES_BYTE (store_byte (\<lambda>b c. c\<lparr>userAccessLevel := b\<rparr>) n))
          | UA_ATTRIBUTEID_MINIMUMSAMPLINGINTERVAL \<Rightarrow> checked_class_write {UA_NODECLASS_VARIABLE} n
              (scalar UA_TYPES_DOUBLE (store_double (\<lambda>w c. c\<lparr>minimumSamplingInterval := w\<rparr>) n))
          | UA_ATTRIBUTEID_HISTORIZING \<Rightarrow> checked_class_write {UA_NODECLASS_VARIABLE} n
              (scalar UA_TYPES_BOOLEAN (store_bool (\<lambda>b c. c\<lparr>historizing := b\<rparr>) n))
          | UA_ATTRIBUTEID_EXECUTABLE \<Rightarrow> checked_class_write {UA_NODECLASS_METHOD} n
              (scalar UA_TYPES_BOOLEAN (store_bool (\<lambda>b c. c\<lparr>executable := b\<rparr>) n))
          | UA_ATTRIBUTEID_USEREXECUTABLE \<Rightarrow> checked_class_write {UA_NODECLASS_METHOD} n
              (scalar UA_TYPES_BOOLEAN (store_bool (\<lambda>b c. c\<lparr>userExecutable := b\<rparr>) n))))"

text \<open>The services on the store of the server; a search upwards has the stack \<open>depth\<close>.\<close>

definition subtype_in :: "nat \<Rightarrow> (nodeid \<Rightarrow> unode option outcome) \<Rightarrow> nodeid \<Rightarrow> nodeid \<Rightarrow> bool outcome" where
  "subtype_in depth get a b = isNodeInTree depth get a b [UA_NODEID_NUMERIC 0 UA_NS0ID_HASSUBTYPE]"

definition UA_Server_write ::
  "nat \<Rightarrow> nat \<Rightarrow> u64 \<Rightarrow> writeValue \<Rightarrow> attributes nodeStore \<Rightarrow> (status \<times> attributes nodeStore) outcome" where
  "UA_Server_write fuel depth now wv st =
     UA_Server_editNode fuel (wvNodeId wv)
       (CopyAttributeIntoNode (UA_NodeStore_get fuel st) (subtype_in depth (UA_NodeStore_get fuel st)) now wv) st"

fun write_items ::
  "nat \<Rightarrow> nat \<Rightarrow> (u64 \<times> writeValue) list \<Rightarrow> attributes nodeStore \<Rightarrow> (status list \<times> attributes nodeStore) outcome" where
  "write_items fuel depth [] st = Done ([], st)"
| "write_items fuel depth ((now, wv) # wvs) st =
     bind (UA_Server_write fuel depth now wv st) (\<lambda>(retval, st1).
     bind (write_items fuel depth wvs st1) (\<lambda>(retvals, st2). Done (retval # retvals, st2)))"

definition Service_Write ::
  "nat \<Rightarrow> nat \<Rightarrow> (u64 \<times> writeValue) list \<Rightarrow> attributes nodeStore \<Rightarrow> (status \<times> status list \<times> attributes nodeStore) outcome" where
  "Service_Write fuel depth items st =
     (if items = [] then Done (BADNOTHINGTODO, [], st)
      else bind (write_items fuel depth items st) (\<lambda>(retvals, st1). Done (GOOD, retvals, st1)))"

section \<open>The functions for local users\<close>

definition UA_Server_read ::
  "(nodeid \<Rightarrow> unode option outcome) \<Rightarrow> u64 \<Rightarrow> readValueId \<Rightarrow> timestampsToReturn \<Rightarrow> dataValue outcome" where
  "UA_Server_read get now item timestamps = Service_Read_single get now timestamps item UA_DataValue_init"

text \<open>
  \<open>__UA_Server_read\<close>: the whole variant for values and array dimensions and the content of the variant
  otherwise.  An error is returned as the flag that there is one, which is \<open>1\<close>, and not as its status.
\<close>

definition UA_Server_read_attribute ::
  "(nodeid \<Rightarrow> unode option outcome) \<Rightarrow> u64 \<Rightarrow> nodeid \<Rightarrow> u32 \<Rightarrow> (status \<times> uval option) outcome" where
  "UA_Server_read_attribute get now i a =
     bind (UA_Server_read get now \<lparr> ridNodeId = i, ridAttribute = a, ridRange = [], ridEncoding = None \<rparr>
         UA_TIMESTAMPSTORETURN_NEITHER) (\<lambda>dv.
       if dvStatus dv \<noteq> None then Done (1, None)
       else if \<not> hasValue dv then Done (BADUNEXPECTEDERROR, None)
       else if attribute_of a = Some UA_ATTRIBUTEID_VALUE \<or> attribute_of a = Some UA_ATTRIBUTEID_ARRAYDIMENSIONS
       then Done (GOOD, Some (dvValue dv))
       else case dvValue dv of VVarScalar t x \<Rightarrow> Done (GOOD, Some x) | _ \<Rightarrow> Undefined)"

text \<open>\<open>__UA_Server_write\<close>: a variant is written as it is, and any other value as a scalar of its type.\<close>

definition UA_Server_write_attribute ::
  "nat \<Rightarrow> nat \<Rightarrow> u64 \<Rightarrow> nodeid \<Rightarrow> u32 \<Rightarrow> nat \<Rightarrow> uval \<Rightarrow> attributes nodeStore \<Rightarrow> (status \<times> attributes nodeStore) outcome" where
  "UA_Server_write_attribute fuel depth now i a t x st =
     UA_Server_write fuel depth now \<lparr> wvNodeId = i, wvAttribute = a, wvRange = [],
       wvValue = UA_DataValue_init\<lparr>hasValue := True, dvValue := (if t \<noteq> UA_TYPES_VARIANT then VVarScalar t x else x)\<rparr> \<rparr> st"

end
