(* ===== verification/RangeProps.thy ===== *)
theory RangeProps
  imports Ranges CodecProps
begin

text \<open>
  The text of a range is read back; what is copied out of an array of one or two dimensions is what the
  range says, and writing a range and copying it gives what was written.  With more dimensions the
  constant distance of the blocks is wrong.
\<close>

section \<open>The text of a range\<close>

definition print_dimension :: "rangeDimension \<Rightarrow> cstr" where
  "print_dimension r =
     decimal (unat (rangeMin r)) @ (if rangeMax r = rangeMin r then [] else 0x3A # decimal (unat (rangeMax r)))"

fun print_range :: "numericRange \<Rightarrow> cstr" where
  "print_range [] = []"
| "print_range [r] = print_dimension r"
| "print_range (r # rs) = print_dimension r @ 0x2C # print_range rs"

definition stops :: "cstr \<Rightarrow> bool" where
  "stops cs \<longleftrightarrow> cs = [] \<or> hd cs < 0x30 \<or> 0x39 < hd cs"

lemma read_digits_stop:
  "list_all (\<lambda>c. digit_of c < 10) cs \<Longrightarrow> stops q \<Longrightarrow>
   read_digits (cs @ q) (of_nat n) k = (k + length cs, of_nat (number 10 n cs))"
proof (induction cs arbitrary: n k)
  case Nil
  then show ?case by (cases q) (auto simp: stops_def)
next
  case (Cons c cs)
  then have d: "digit_of c < 10" by simp
  show ?case
    using Cons.IH[of "n * 10 + digit_of c" "Suc k"] Cons.prems by (simp add: decimal_digit[OF d])
qed

lemma readNumber_decimal:
  "stops q \<Longrightarrow> UA_readNumber (decimal n @ q) (length (decimal n @ q)) = (length (decimal n), of_nat n)"
  using read_digits_stop[OF decimal_all, of q n 0 0] by (simp add: UA_readNumber_def number_decimal)

lemma readDimension_print:
  assumes "rangeMin r \<le> rangeMax r" "q = [] \<or> hd q = 0x2C"
  shows "readDimension (print_dimension r @ q) = (length (print_dimension r), r)"
proof -
  have q: "stops q" "q \<noteq> [] \<Longrightarrow> q ! 0 = 0x2C" using assms(2) by (auto simp: stops_def hd_conv_nth)
  have s: "stops (0x3A # w)" for w by (simp add: stops_def)
  show ?thesis
  proof (cases "rangeMax r = rangeMin r")
    case True
    then show ?thesis
      using readNumber_decimal[OF q(1), of "unat (rangeMin r)"] q(2)
      by (cases q) (auto simp: readDimension_def print_dimension_def decimal_nonempty nth_append)
  next
    case False
    let ?w = "decimal (unat (rangeMax r)) @ q"
    have "0 < length (decimal (unat (rangeMax r)))" by (simp add: decimal_nonempty)
    then show ?thesis
      using False assms(1) readNumber_decimal[OF s, of "unat (rangeMin r)" ?w]
        readNumber_decimal[OF q(1), of "unat (rangeMax r)"]
      by (simp add: readDimension_def print_dimension_def decimal_nonempty nth_append)
  qed
qed

lemma print_dimension_nonempty: "print_dimension r \<noteq> []"
  by (simp add: print_dimension_def decimal_nonempty)

lemma parse_dimensions_print:
  "rs \<noteq> [] \<Longrightarrow> \<forall>r\<in>set rs. rangeMin r \<le> rangeMax r \<Longrightarrow>
   parse_dimensions (print_range rs) ds = (GOOD, ds @ rs)"
proof (induction rs arbitrary: ds rule: print_range.induct)
  case (2 r)
  then show ?case
    using readDimension_print[of r "[]"] by (simp add: parse_dimensions.simps print_dimension_nonempty)
next
  case (3 r r' rs)
  have "readDimension (print_range (r # r' # rs)) = (length (print_dimension r), r)"
    using readDimension_print[of r "0x2C # print_range (r' # rs)"] 3(3) by simp
  then show ?case
    using 3(1)[of "ds @ [r]"] 3(3) by (subst parse_dimensions.simps) (simp add: print_dimension_nonempty)
qed simp

text \<open>
  The text of a range is read back as the range: the lower and upper end of each dimension, or the
  one number when they agree, up to the largest number of 32 bits.
\<close>

lemma numeric_range_roundtrip:
  assumes "rs \<noteq> []" "\<forall>r\<in>set rs. rangeMin r \<le> rangeMax r"
  shows "parse_numericrange (print_range rs) = (GOOD, Some rs)"
  using parse_dimensions_print[OF assms, of "[]"] by (simp add: parse_numericrange_def)

text \<open>A number that does not fit is taken modulo \<open>2 ^ 32\<close>, so that another element is meant.\<close>

lemma range_number_wraps:
  "parse_numericrange (decimal (2 ^ 32 + n)) = (GOOD, Some [\<lparr> rangeMin = of_nat n, rangeMax = of_nat n \<rparr>])"
proof -
  let ?t = "decimal (2 ^ 32 + n)"
  have "UA_readNumber ?t (length ?t) = (length ?t, of_nat n)"
    using readNumber_decimal[of "[]" "2 ^ 32 + n"] by (simp add: stops_def)
  then have "readDimension ?t = (length ?t, \<lparr> rangeMin = of_nat n, rangeMax = of_nat n \<rparr>)"
    by (simp add: readDimension_def decimal_nonempty)
  then show ?thesis by (simp add: parse_numericrange_def parse_dimensions.simps decimal_nonempty)
qed

section \<open>Positions\<close>

text \<open>The positions of a range in an array in row-major order.\<close>

fun range_elements :: "numericRange \<Rightarrow> u32 list \<Rightarrow> nat list" where
  "range_elements (r # rs) (d # ds) =
     concat (map (\<lambda>i. map (\<lambda>j. i * prod_list (map unat ds) + j) (range_elements rs ds))
       [unat (rangeMin r)..<Suc (unat (rangeMax r))])"
| "range_elements _ _ = [0]"

definition range_inside :: "numericRange \<Rightarrow> u32 list \<Rightarrow> bool" where
  "range_inside rs ds = list_all2 (\<lambda>r d. rangeMin r \<le> rangeMax r \<and> rangeMax r < d) rs ds"

definition extent :: "rangeDimension \<Rightarrow> nat" where
  "extent r = Suc (unat (rangeMax r) - unat (rangeMin r))"

lemma shifted_interval: "map (\<lambda>j. k + j) [a..<b] = [k + a..<k + b]"
  by (induction b) auto

lemma concat_intervals: "concat (map (\<lambda>i. [f + i * w..<f + i * w + w]) [0..<n]) = [f..<f + n * w]"
proof (induction n)
  case (Suc n)
  have "[f..<f + n * w] @ [f + n * w..<f + n * w + w] = [f..<f + Suc n * w]"
    using upt_add_eq_append[of f "f + n * w" w] by (simp add: add.assoc add.commute[of w])
  then show ?case using Suc by simp
qed simp

lemma interval_from: "[a..<a + n] = map (\<lambda>i. a + i) [0..<n]"
  by (induction n) auto

lemma extent_word:
  assumes "rangeMin r \<le> rangeMax r" "rangeMax r < d"
  shows "unat (1 + rangeMax r - rangeMin r) = extent r" "unat (rangeMax r - rangeMin r + 1) = extent r"
    "extent r \<le> unat d" "extent r = unat d \<Longrightarrow> rangeMin r = 0" "unat (rangeMin r) + extent r = Suc (unat (rangeMax r))"
proof -
  have n: "unat (rangeMin r) \<le> unat (rangeMax r)" "unat (rangeMax r) < unat d"
    using assms by (simp_all add: word_le_nat_alt word_less_nat_alt)
  have d: "unat (rangeMax r - rangeMin r) = unat (rangeMax r) - unat (rangeMin r)"
    using assms(1) by (simp add: unat_sub)
  have "unat d < 2 ^ 32" using unsigned_less[of d] by simp
  then have "unat (rangeMax r - rangeMin r) + 1 < 2 ^ 32" using d n by linarith
  then have "unat (rangeMax r - rangeMin r + 1) = unat (rangeMax r - rangeMin r) + 1"
    using unat_add_lem[of "rangeMax r - rangeMin r" 1] by simp
  then show *: "unat (rangeMax r - rangeMin r + 1) = extent r" by (simp add: d extent_def)
  then show "unat (1 + rangeMax r - rangeMin r) = extent r" by (simp add: algebra_simps)
  show "extent r \<le> unat d" using n by (simp add: extent_def)
  show "rangeMin r = 0" if "extent r = unat d"
  proof -
    have "unat (rangeMin r) = 0" using that n by (simp add: extent_def)
    then show ?thesis by (simp add: unsigned_eq_0_iff)
  qed
  show "unat (rangeMin r) + extent r = Suc (unat (rangeMax r))" using n(1) by (simp add: extent_def)
qed

lemma unat_widen: "unat (ucast (a :: u32) :: u64) = unat a"
  by (simp add: unsigned_ucast_eq take_bit_nat_eq_self order_less_trans[OF unsigned_less])

lemma widen_eq: "(ucast (a :: u32) :: u64) = ucast (b :: u32) \<longleftrightarrow> unat a = unat b"
  by (simp only: word_unat_eq_iff[of "ucast a :: u64"] unat_widen)

lemma unat_product: "unat (x :: u64) * unat y < 2 ^ 64 \<Longrightarrow> unat (x * y) = unat x * unat y"
  using unat_mult_lem[of x y] by simp

lemma unat_widen_product: "unat (ucast (a :: u32) * ucast (b :: u32) :: u64) = unat a * unat b"
proof -
  have "unat a * unat b < 2 ^ 32 * 2 ^ 32"
    using unsigned_less[of a] unsigned_less[of b] by (intro mult_strict_mono) auto
  then show ?thesis by (subst unat_product) (simp_all add: unat_widen)
qed

lemma unat_sum: "unat (x :: u64) + unat y < 2 ^ 64 \<Longrightarrow> unat (x + y) = unat x + unat y"
  using unat_add_lem[of x y] by simp

lemma one_block:
  assumes "unat (block st) = b" "unat (total st) = b" "0 < b" "es * b < 2 ^ 64"
  shows "range_positions st es = Done [unat (first st)..<unat (first st) + b]"
  using assms by (simp add: range_positions_def Let_def block_positions_def)

text \<open>The strides before the loop.\<close>

abbreviation strides_start :: "u64 \<Rightarrow> nat \<Rightarrow> strides" where
  "strides_start cnt len \<equiv> \<lparr> total = cnt, block = cnt, stride = of_nat len, first = 0 \<rparr>"

lemma positions_one:
  assumes "rangeMin r \<le> rangeMax r" "rangeMax r < d" "unat cnt = extent r" "es * extent r < 2 ^ 64"
  shows "range_positions (snd (snd (stride_step (r, d) (1, False, strides_start cnt len)))) es =
    Done (range_elements [r] [d])"
proof -
  let ?st = "snd (snd (stride_step (r, d) (1, False, strides_start cnt len)))"
  note e = extent_word[OF assms(1,2)]
  have "unat (block ?st) = extent r" "unat (total ?st) = extent r" "unat (first ?st) = unat (rangeMin r)"
    using assms(3) by (simp_all add: stride_step_def Let_def unat_widen e(1))
  moreover have "0 < extent r" by (simp add: extent_def)
  ultimately have "range_positions ?st es = Done [unat (rangeMin r)..<unat (rangeMin r) + extent r]"
    using one_block[of ?st "extent r" es] assms(4) by simp
  then show ?thesis by (simp add: e(5))
qed

text \<open>Two dimensions: one block if the inner one is full, and one for each outer index otherwise.\<close>

lemma positions_two:
  assumes "rangeMin r \<le> rangeMax r" "rangeMax r < d" "rangeMin q \<le> rangeMax q" "rangeMax q < c"
    and "unat cnt = extent r * extent q" "es * (extent r * extent q) < 2 ^ 64" "unat d * unat c < 2 ^ 32"
  shows "range_positions (snd (snd (stride_step (r, d) (stride_step (q, c) (1, False, strides_start cnt len))))) es =
    Done (range_elements [r, q] [d, c])"
proof -
  let ?st = "snd (snd (stride_step (r, d) (stride_step (q, c) (1, False, strides_start cnt len))))"
  note e = extent_word[OF assms(1,2)] and f = extent_word[OF assms(3,4)]
  have pos: "0 < extent r" "0 < extent q" by (simp_all add: extent_def)
  have "unat c * unat (rangeMin r) \<le> unat c * unat d" using assms(1,2) by (simp add: word_le_nat_alt word_less_nat_alt)
  moreover have "unat (rangeMin q) < 2 ^ 32" using unsigned_less[of "rangeMin q"] by simp
  moreover have "(2 :: nat) ^ 32 + 2 ^ 32 \<le> 2 ^ 64" by simp
  ultimately have "unat (rangeMin q) + unat c * unat (rangeMin r) < 2 ^ 64"
    using assms(7) mult.commute[of "unat d" "unat c"] by linarith
  then have first: "unat (first ?st) = unat (rangeMin q) + unat c * unat (rangeMin r)"
    by (simp add: stride_step_def Let_def unat_sum unat_widen_product unat_widen)
  have total: "unat (total ?st) = extent r * extent q"
    using assms(5) by (simp add: stride_step_def Let_def)
  have spec: "range_elements [r, q] [d, c] =
      concat (map (\<lambda>i. [i * unat c + unat (rangeMin q)..<i * unat c + unat (rangeMin q) + extent q])
        [unat (rangeMin r)..<unat (rangeMin r) + extent r])"
    by (simp add: shifted_interval e(5) add.assoc f(5) del: upt_Suc)
  show ?thesis
  proof (cases "extent q = unat c")
    case True
    have "unat (block ?st) = extent r * extent q"
      using True assms(5) by (simp add: stride_step_def Let_def widen_eq unat_widen unat_widen_product e(1) f(1) mult.commute)
    then have "range_positions ?st es =
        Done [unat c * unat (rangeMin r)..<unat c * unat (rangeMin r) + extent r * extent q]"
      using one_block[of ?st "extent r * extent q" es] pos assms(6) total first f(4)[OF True] by simp
    also have "\<dots> = Done (range_elements [r, q] [d, c])"
      unfolding spec f(4)[OF True] interval_from[of "unat (rangeMin r)"]
      using concat_intervals[of "unat c * unat (rangeMin r)" "unat c" "extent r"]
      by (simp add: True comp_def algebra_simps)
    finally show ?thesis .
  next
    case False
    then have b: "unat (block ?st) = extent q" "unat (stride ?st) = unat c"
      by (simp_all add: stride_step_def Let_def widen_eq unat_widen f(1))
    have "range_positions ?st es = Done (block_positions (extent q) (unat c) (unat (first ?st)) (extent r))"
      using pos assms(6) by (simp add: range_positions_def Let_def b total)
    also have "\<dots> = Done (range_elements [r, q] [d, c])"
      unfolding spec interval_from[of "unat (rangeMin r)"] by (simp add: block_positions_def first comp_def algebra_simps)
    finally show ?thesis .
  qed
qed

text \<open>The positions are increasing and inside the array.\<close>

lemma range_elements_less:
  "range_inside rs ds \<Longrightarrow> p \<in> set (range_elements rs ds) \<Longrightarrow> p < prod_list (map unat ds)"
proof (induction rs ds arbitrary: p rule: range_elements.induct)
  case (1 r rs d ds)
  let ?P = "prod_list (map unat ds)"
  from 1(3) obtain i j where i: "i \<in> set [unat (rangeMin r)..<Suc (unat (rangeMax r))]"
      and p: "p = i * ?P + j" "j \<in> set (range_elements rs ds)"
    by (auto simp del: upt_Suc)
  then have p2: "i < Suc (unat (rangeMax r))" by auto
  have "j < ?P" using 1(1)[OF i _ p(2)] 1(2) by (simp add: range_inside_def)
  moreover have "Suc i \<le> unat d" using 1(2) p2 by (auto simp: range_inside_def word_less_nat_alt)
  then have "Suc i * ?P \<le> unat d * ?P" by (rule mult_le_mono1)
  ultimately show ?case by (simp add: p(1))
qed (auto simp: range_inside_def)

lemma sorted_blocks:
  "(\<And>i. sorted_wrt (<) (f i)) \<Longrightarrow> (\<And>i p. p \<in> set (f i) \<Longrightarrow> i * P \<le> p \<and> p < Suc i * (P :: nat)) \<Longrightarrow>
   sorted_wrt (<) (concat (map f [a..<b]))"
proof (induction b)
  case (Suc b)
  have "x < y" if "i < b" "x \<in> set (f i)" "y \<in> set (f b)" for i x y
  proof -
    have "x < Suc i * P" "b * P \<le> y" using Suc.prems(2) that by blast+
    moreover have "Suc i * P \<le> b * P" using that(1) by (intro mult_le_mono1) simp
    ultimately show ?thesis by linarith
  qed
  then show ?case using Suc by (auto simp: sorted_wrt_append)
qed simp

lemma range_elements_sorted: "range_inside rs ds \<Longrightarrow> sorted_wrt (<) (range_elements rs ds)"
proof (induction rs ds rule: range_elements.induct)
  case (1 r rs d ds)
  have inner: "range_inside rs ds" using 1(2) by (simp add: range_inside_def)
  have "rangeMin r \<le> rangeMax r" using 1(2) by (simp add: range_inside_def)
  then have "unat (rangeMin r) \<in> set [unat (rangeMin r)..<Suc (unat (rangeMax r))]" by (auto simp: word_le_nat_alt)
  from 1(1)[OF this inner] have s: "sorted_wrt (<) (range_elements rs ds)" .
  show ?case unfolding range_elements.simps
    by (rule sorted_blocks[where P = "prod_list (map unat ds)"])
      (use s range_elements_less[OF inner] in \<open>auto simp: sorted_wrt_map\<close>)
qed simp_all

lemma range_elements_distinct: "range_inside rs ds \<Longrightarrow> distinct (range_elements rs ds)"
  using range_elements_sorted strict_sorted_iff by blast

lemma length_range_elements:
  "range_inside rs ds \<Longrightarrow> length (range_elements rs ds) = prod_list (map extent rs)"
proof (induction rs ds rule: range_elements.induct)
  case (1 r rs d ds)
  have inner: "range_inside rs ds" and m: "unat (rangeMin r) \<le> unat (rangeMax r)"
    using 1(2) by (auto simp: range_inside_def word_le_nat_alt)
  then have "unat (rangeMin r) \<in> set [unat (rangeMin r)..<Suc (unat (rangeMax r))]" by auto
  from 1(1)[OF this inner] show ?case using m
    by (simp add: length_concat comp_def sum_list_triv extent_def Suc_diff_le del: upt_Suc)
qed (auto simp: range_inside_def)

section \<open>Strides of arrays of one or two dimensions\<close>

text \<open>The dimensions of an array; one without dimensions has its length.\<close>

definition dims_of :: "nat \<Rightarrow> u32 list \<Rightarrow> u32 list" where
  "dims_of len ds = (if ds = [] then [of_nat len] else ds)"

definition range_fits :: "nat \<Rightarrow> u32 list \<Rightarrow> numericRange \<Rightarrow> bool" where
  "range_fits len ds rng \<longleftrightarrow> prod_list (map unat (dims_of len ds)) = len \<and> range_inside rng (dims_of len ds)"

lemma announced_two: "length ds = 1 \<or> length ds = 2 \<Longrightarrow> unat (announced ds) = prod_list (map unat ds)"
  by (auto simp: announced_def numeral_2_eq_2 length_Suc_conv unat_widen_product unat_widen)

lemma announced_length:
  assumes "ds \<noteq> []" "length ds \<le> 2" "len < 2 ^ 32"
  shows "announced ds = of_nat len \<longleftrightarrow> prod_list (map unat ds) = len"
proof -
  have "length ds = 1 \<or> length ds = 2" using assms(1,2) by (cases "length ds") auto
  from announced_two[OF this] show ?thesis using assms(3)
    by (simp add: word_unat_eq_iff[of "announced ds"] unsigned_of_nat take_bit_nat_eq_self)
qed

lemma check_range_inside:
  "(\<exists>c. check_range rs ds cnt = Inr c) \<longleftrightarrow> range_inside rs ds"
  by (induction rs ds cnt rule: check_range.induct) (auto simp: range_inside_def)

lemma check_range_error:
  "check_range rs ds cnt = Inl e \<Longrightarrow> e = BADINDEXRANGEINVALID \<or> e = BADINDEXRANGENODATA"
  by (induction rs ds cnt rule: check_range.induct) (auto split: if_splits)

lemma strides_refused:
  assumes "length ds \<le> 2" "len < 2 ^ 32" "\<not> range_fits len ds rng"
  shows "\<exists>e\<in>{BADINTERNALERROR, BADINDEXRANGEINVALID, BADINDEXRANGENODATA}. computeStrides len ds rng = Inl e"
proof (cases "prod_list (map unat (dims_of len ds)) = len")
  case True
  then have out: "\<not> range_inside rng (dims_of len ds)" using assms(3) by (simp add: range_fits_def)
  then obtain e where "check_range rng (dims_of len ds) 1 = Inl e"
    using check_range_inside[of rng "dims_of len ds" 1] by (cases "check_range rng (dims_of len ds) 1") auto
  then show ?thesis using check_range_error[of rng "dims_of len ds" 1 e] assms(2)
    by (auto simp: computeStrides_def dims_of_def Let_def)
next
  case False
  then have ne: "ds \<noteq> []" using assms(2)
    by (auto simp: dims_of_def unsigned_of_nat take_bit_nat_eq_self split: if_splits)
  then show ?thesis using False announced_length[OF ne assms(1,2)] assms(2)
    by (auto simp: computeStrides_def dims_of_def Let_def)
qed

lemma extents_bound: "range_inside rs ds \<Longrightarrow> prod_list (map extent rs) \<le> prod_list (map unat ds)"
proof (induction rs ds rule: range_elements.induct)
  case (1 r rs d ds)
  have "unat (rangeMin r) \<in> set [unat (rangeMin r)..<Suc (unat (rangeMax r))]"
    using 1(2) by (auto simp: range_inside_def word_le_nat_alt)
  from 1(1)[OF this] have "prod_list (map extent rs) \<le> prod_list (map unat ds)"
    using 1(2) by (simp add: range_inside_def)
  moreover have "extent r \<le> unat d" using 1(2) extent_word(3)[of r d] by (simp add: range_inside_def)
  ultimately show ?case by (simp add: mult_le_mono)
qed (auto simp: range_inside_def)

lemma strides_granted:
  assumes "length ds \<le> 2" "len < 2 ^ 32" "range_fits len ds rng" "es < 2 ^ 32"
  obtains st where "computeStrides len ds rng = Inr st" "unat (total st) = prod_list (map extent rng)"
    "range_positions st es = Done (range_elements rng (dims_of len ds))"
proof -
  let ?D = "dims_of len ds"
  have prod: "prod_list (map unat ?D) = len" and inside: "range_inside rng ?D" using assms(3) by (simp_all add: range_fits_def)
  have bound: "es * prod_list (map extent rng) < 2 ^ 64"
  proof -
    have "es * prod_list (map extent rng) < 2 ^ 32 * 2 ^ 32"
      using assms(2,4) extents_bound[OF inside] prod by (intro mult_strict_mono') auto
    then show ?thesis by simp
  qed
  have ok: "\<not> (ds \<noteq> [] \<and> announced ds \<noteq> of_nat len)"
    using announced_length[OF _ assms(1,2)] prod by (cases "ds = []") (simp_all add: dims_of_def)
  have len: "length rng = length ?D" using inside by (simp add: range_inside_def list_all2_lengthD)
  have strides: "computeStrides len ds rng = (case check_range rng ?D 1 of Inl e \<Rightarrow> Inl e
      | Inr cnt \<Rightarrow> Inr (snd (snd (foldr stride_step (zip rng ?D) (1, False, strides_start cnt len)))))"
    using assms(2) ok len by (auto simp: computeStrides_def dims_of_def Let_def split: sum.split)
  have "length ?D = 1 \<or> length ?D = 2" using assms(1) by (cases ds) (auto simp: dims_of_def le_Suc_eq)
  then consider (one) r d where "rng = [r]" "?D = [d]" | (two) r q d c where "rng = [r, q]" "?D = [d, c]"
    using len by (auto simp: numeral_2_eq_2 length_Suc_conv)
  then show ?thesis
  proof cases
    case one
    let ?cnt = "ucast (rangeMax r - rangeMin r + 1) :: u64"
    have i: "rangeMin r \<le> rangeMax r" "rangeMax r < d" using inside one by (auto simp: range_inside_def)
    have cnt: "unat ?cnt = extent r" by (simp add: unat_widen extent_word(2)[OF i])
    show ?thesis
      using that[of "snd (snd (stride_step (r, d) (1, False, strides_start ?cnt len)))"]
        positions_one[OF i cnt] bound i strides cnt unfolding one
      by (simp add: not_less[symmetric]) (simp add: stride_step_def Let_def not_le not_less)
  next
    case two
    let ?cnt = "ucast (rangeMax r - rangeMin r + 1) * ucast (rangeMax q - rangeMin q + 1) :: u64"
    have i: "rangeMin r \<le> rangeMax r" "rangeMax r < d" "rangeMin q \<le> rangeMax q" "rangeMax q < c"
      using inside two by (auto simp: range_inside_def)
    have cnt: "unat ?cnt = extent r * extent q"
      by (simp add: unat_widen_product extent_word(2)[OF i(1,2)] extent_word(2)[OF i(3,4)])
    show ?thesis
      using that[of "snd (snd (stride_step (r, d) (stride_step (q, c) (1, False, strides_start ?cnt len))))"]
        positions_two[OF i cnt] bound i strides cnt prod assms(2) unfolding two
      by (simp add: not_less[symmetric]) (simp add: stride_step_def Let_def not_le not_less)
  qed
qed

lemma sizes_small: "list_all (\<lambda>d. memSize d < 4294967296) UA_TYPES"
  by (simp add: UA_TYPES_def entry_def)

lemma size_small: "type_at UA_TYPES i = Some d \<Longrightarrow> memSize d < 2 ^ 32"
  using sizes_small by (auto simp: type_at_def list_all_iff split: if_splits)

section \<open>Copying\<close>

text \<open>The dimensions of the copy.\<close>

definition copied_dims :: "u32 list \<Rightarrow> numericRange \<Rightarrow> u32 list" where
  "copied_dims ds rng = (if ds = [] then [] else map (\<lambda>r. rangeMax r - rangeMin r + 1) rng)"

lemma copy_inside:
  assumes "type_at UA_TYPES i = Some d" "length ds \<le> 2" "length vs < 2 ^ 32" "range_fits (length vs) ds rng"
  shows "UA_Variant_copyRange (VVarArray i (Some vs) ds) rng =
    Done (GOOD, Some (VVarArray i (Some (map ((!) vs) (range_elements rng (dims_of (length vs) ds)))) (copied_dims ds rng)))"
proof -
  have len: "length rng = length (dims_of (length vs) ds)"
    using assms(4) by (auto simp: range_fits_def range_inside_def list_all2_lengthD)
  from strides_granted[OF assms(2,3,4) size_small[OF assms(1)]]
  obtain st where st: "computeStrides (length vs) ds rng = Inr st"
      "range_positions st (memSize d) = Done (range_elements rng (dims_of (length vs) ds))" by auto
  have "list_all (\<lambda>p. p < length vs) (range_elements rng (dims_of (length vs) ds))"
    using range_elements_less[of rng "dims_of (length vs) ds"] assms(4) unfolding range_fits_def list_all_iff by metis
  then show ?thesis
    using assms(1) len st by (auto simp: UA_Variant_copyRange.simps Let_def copy_level_def copied_dims_def dims_of_def)
qed

text \<open>
  C16.  A range that has as many dimensions as an array, at most two, is copied: when it lies inside
  the array, the copy holds the elements of the range in row-major order and has the extents of the
  range as its dimensions; otherwise an error is returned and nothing is written.
\<close>

theorem range_copied:
  assumes "type_at UA_TYPES i = Some d" "length ds \<le> 2" "length vs < 2 ^ 32" "length rng = length (dims_of (length vs) ds)"
  shows "if range_fits (length vs) ds rng
    then UA_Variant_copyRange (VVarArray i (Some vs) ds) rng =
      Done (GOOD, Some (VVarArray i (Some (map ((!) vs) (range_elements rng (dims_of (length vs) ds)))) (copied_dims ds rng)))
    else \<exists>e\<in>{BADINTERNALERROR, BADINDEXRANGEINVALID, BADINDEXRANGENODATA}.
      UA_Variant_copyRange (VVarArray i (Some vs) ds) rng = Done (e, None)"
proof (cases "range_fits (length vs) ds rng")
  case True
  then show ?thesis using copy_inside[OF assms(1-3)] by simp
next
  case False
  from strides_refused[OF assms(2,3) False] obtain e
    where "e \<in> {BADINTERNALERROR, BADINDEXRANGEINVALID, BADINDEXRANGENODATA}" "computeStrides (length vs) ds rng = Inl e"
    by blast
  then show ?thesis using False assms(1,4)
    by (intro if_not_P[THEN iffD2] bexI[of _ e]) (auto simp: UA_Variant_copyRange.simps Let_def dims_of_def)
qed

lemma range_types:
  "type_at UA_TYPES UA_TYPES_BYTE = Some (entry 3 (Some KByte) 1 True 0 Byte_members)"
  "type_at UA_TYPES UA_TYPES_STRING = Some (entry 12 (Some KString) 16 False 0 String_members)"
  by (simp_all add: type_at_def) (simp_all add: UA_TYPES_def)

theorem range_copied_witness:
  "UA_Variant_copyRange (VVarArray UA_TYPES_BYTE (Some (map VB [0, 1, 2, 3, 4, 5])) [2, 3])
     [\<lparr> rangeMin = 0, rangeMax = 1 \<rparr>, \<lparr> rangeMin = 1, rangeMax = 2 \<rparr>] =
   Done (GOOD, Some (VVarArray UA_TYPES_BYTE (Some (map VB [1, 2, 4, 5])) [2, 2]))"
proof -
  let ?vs = "map VB [0, 1, 2, 3, 4, 5]" and ?ds = "[2, 3] :: u32 list"
  let ?r = "[\<lparr> rangeMin = 0, rangeMax = 1 \<rparr>, \<lparr> rangeMin = 1, rangeMax = 2 \<rparr>] :: numericRange"
  have l: "length ?vs = 6" by simp
  have d: "dims_of 6 ?ds = ?ds" by (simp add: dims_of_def)
  have f: "range_fits 6 ?ds ?r" unfolding range_fits_def d by (simp add: range_inside_def word_le_nat_alt word_less_nat_alt)
  have m: "map ((!) ?vs) (range_elements ?r ?ds) = map VB [1, 2, 4, 5]" by (simp add: upt_rec)
  have c: "copied_dims ?ds ?r = [2, 2]" by (simp add: copied_dims_def)
  show ?thesis
    using range_copied[OF range_types(1), of ?ds ?vs ?r, unfolded l d] unfolding if_P[OF f] m c by simp
qed

section \<open>Writing\<close>

lemma write_elements_done:
  "distinct ps \<Longrightarrow> length xs = length ps \<Longrightarrow> \<forall>p\<in>set ps. p < length vs \<Longrightarrow>
   \<exists>vs1. write_elements vs ps xs = Done vs1 \<and> length vs1 = length vs \<and> map ((!) vs1) ps = xs \<and>
     (\<forall>p. p \<notin> set ps \<longrightarrow> vs1 ! p = vs ! p)"
proof (induction vs ps xs rule: write_elements.induct)
  case (1 vs p ps x xs)
  then obtain vs1 where "write_elements (vs[p := x]) ps xs = Done vs1" "length vs1 = length vs"
      "map ((!) vs1) ps = xs" "\<forall>q. q \<notin> set ps \<longrightarrow> vs1 ! q = vs[p := x] ! q"
    by auto
  then show ?case using 1(2-4) by auto
qed auto

text \<open>
  Writing values into a range of an array of at most two dimensions: when the range lies inside
  the array and there are as many values as it has elements, exactly the elements of the range are
  replaced, and copying the range then gives the values written; otherwise an error is returned and
  the array is as before.
\<close>

lemma range_write_read:
  assumes "type_at UA_TYPES i = Some d" "length ds \<le> 2" "length vs < 2 ^ 32"
  shows "if range_fits (length vs) ds rng \<and> length array = prod_list (map extent rng)
    then \<exists>vs1. UA_Variant_setRangeCopy (VVarArray i (Some vs) ds) array rng = Done (GOOD, VVarArray i (Some vs1) ds, 0) \<and>
      UA_Variant_copyRange (VVarArray i (Some vs1) ds) rng = Done (GOOD, Some (VVarArray i (Some array) (copied_dims ds rng))) \<and>
      length vs1 = length vs \<and> (\<forall>p. p \<notin> set (range_elements rng (dims_of (length vs) ds)) \<longrightarrow> vs1 ! p = vs ! p)
    else \<exists>e\<in>{BADINTERNALERROR, BADINDEXRANGEINVALID, BADINDEXRANGENODATA}.
      UA_Variant_setRangeCopy (VVarArray i (Some vs) ds) array rng = Done (e, VVarArray i (Some vs) ds, 0)"
proof (cases "range_fits (length vs) ds rng")
  case False
  from strides_refused[OF assms(2,3) False] show ?thesis using False
    by (auto simp: UA_Variant_setRangeCopy_def Variant_setRange_def array_of_def)
next
  case range_fits: True
  let ?ps = "range_elements rng (dims_of (length vs) ds)"
  from strides_granted[OF assms(2,3) range_fits size_small[OF assms(1)]]
  obtain st where st: "computeStrides (length vs) ds rng = Inr st" "unat (total st) = prod_list (map extent rng)"
      "range_positions st (memSize d) = Done ?ps" by auto
  have inside: "range_inside rng (dims_of (length vs) ds)" "prod_list (map unat (dims_of (length vs) ds)) = length vs"
    using range_fits by (simp_all add: range_fits_def)
  show ?thesis
  proof (cases "length array = prod_list (map extent rng)")
    case False
    then show ?thesis using st(1,2) by (simp add: UA_Variant_setRangeCopy_def Variant_setRange_def array_of_def)
  next
    case True
    have "\<forall>p\<in>set ?ps. p < length vs" using range_elements_less[OF inside(1)] inside(2) by simp
    from write_elements_done[OF range_elements_distinct[OF inside(1)] _ this, of array]
    obtain vs1 where w: "write_elements vs ?ps array = Done vs1" "length vs1 = length vs" "map ((!) vs1) ?ps = array"
        "\<forall>p. p \<notin> set ?ps \<longrightarrow> vs1 ! p = vs ! p"
      using True length_range_elements[OF inside(1)] by auto
    have "UA_Variant_setRangeCopy (VVarArray i (Some vs) ds) array rng = Done (GOOD, VVarArray i (Some vs1) ds, 0)"
      using assms(1) st w(1) True by (simp add: UA_Variant_setRangeCopy_def Variant_setRange_def array_of_def)
    moreover have "UA_Variant_copyRange (VVarArray i (Some vs1) ds) rng =
        Done (GOOD, Some (VVarArray i (Some array) (copied_dims ds rng)))"
      using copy_inside[OF assms(1,2), of vs1 rng] assms(3) range_fits w(2,3) by simp
    ultimately show ?thesis using range_fits True w(2,4) by auto
  qed
qed

text \<open>
   With three dimensions the blocks are not at a constant distance, but the code takes it to be
  constant: of an array of 3 by 3 by 3 elements, the range of the first two of each dimension should
  hold the elements at 0, 1, 3, 4, 9, 10, 12, 13 and gets others, with a good status.
\<close>

theorem three_dimensions_misread:
  assumes "length vs = 27"
  shows "UA_Variant_copyRange (VVarArray UA_TYPES_BYTE (Some vs) [3, 3, 3]) (replicate 3 \<lparr> rangeMin = 0, rangeMax = 1 \<rparr>) =
       Done (GOOD, Some (VVarArray UA_TYPES_BYTE (Some (map ((!) vs) [0, 1, 3, 4, 6, 7, 9, 10])) [2, 2, 2])) \<and>
     range_elements (replicate 3 \<lparr> rangeMin = 0, rangeMax = 1 \<rparr>) [3, 3, 3] = [0, 1, 3, 4, 9, 10, 12, 13]"
proof -
  let ?r = "\<lparr> rangeMin = 0, rangeMax = 1 \<rparr> :: rangeDimension"
  have r: "replicate 3 ?r = [?r, ?r, ?r]" by (simp add: numeral_3_eq_3)
  have s: "computeStrides 27 [3, 3, 3] [?r, ?r, ?r] = Inr \<lparr> total = 8, block = 2, stride = 3, first = 0 \<rparr>"
    by (simp add: computeStrides_def announced_def stride_step_def Let_def word_le_nat_alt)
  have p: "range_positions \<lparr> total = 8, block = 2, stride = 3, first = 0 \<rparr> 1 = Done [0, 1, 3, 4, 6, 7, 9, 10]"
    by (simp add: range_positions_def block_positions_def upt_rec Let_def)
  have "UA_Variant_copyRange (VVarArray UA_TYPES_BYTE (Some vs) [3, 3, 3]) (replicate 3 ?r) =
     Done (GOOD, Some (VVarArray UA_TYPES_BYTE (Some (map ((!) vs) [0, 1, 3, 4, 6, 7, 9, 10])) [2, 2, 2]))"
    using assms s p by (simp add: r UA_Variant_copyRange.simps range_types Let_def copy_level_def entry_def)
  moreover have "range_elements (replicate 3 ?r) [3, 3, 3] = [0, 1, 3, 4, 9, 10, 12, 13]"
    by (simp add: r upt_rec)
  ultimately show ?thesis by blast
qed

theorem three_dimensions_misread_witness:
  "UA_Variant_copyRange (VVarArray UA_TYPES_BYTE (Some (replicate 27 (VB 0))) [3, 3, 3])
       (replicate 3 \<lparr> rangeMin = 0, rangeMax = 1 \<rparr>) \<noteq> Undefined"
  unfolding three_dimensions_misread[of "replicate 27 (VB 0)", OF length_replicate, THEN conjunct1] by simp

text \<open>
  The announced dimensions are multiplied modulo \<open>2 ^ 64\<close>, so that they can agree with the length of
  an array that is far smaller than one of them: a range is then read outside of the array.
\<close>

lemma wrapped_dimensions_read_outside:
  assumes "length vs = 65536"
  shows "UA_Variant_copyRange (VVarArray UA_TYPES_BYTE (Some vs) [65536, 65537, 4294901761])
     [\<lparr> rangeMin = 0, rangeMax = 0 \<rparr>, \<lparr> rangeMin = 0, rangeMax = 0 \<rparr>, \<lparr> rangeMin = 70000, rangeMax = 80000 \<rparr>] = Undefined"
    (is "UA_Variant_copyRange _ ?rng = _")
proof -
  let ?st = "\<lparr> total = 10001, block = 10001, stride = 4294901761, first = 70000 \<rparr>"
  have s: "computeStrides 65536 [65536, 65537, 4294901761] ?rng = Inr ?st"
    by (simp add: computeStrides_def announced_def stride_step_def Let_def word_le_nat_alt)
  have p: "range_positions ?st 1 = Done [70000..<80001]"
    by (simp add: range_positions_def block_positions_def Let_def del: upt_rec_numeral)
  have "70000 \<in> set [70000..<80001 :: nat]" unfolding set_upt by simp
  moreover have "\<not> (70000 :: nat) < 65536" by simp
  ultimately have "\<not> list_all (\<lambda>p. p < (65536 :: nat)) [70000..<80001]" unfolding list_all_iff by blast
  then show ?thesis
    using assms s p by (simp add: UA_Variant_copyRange.simps range_types Let_def copy_level_def entry_def del: upt_rec_numeral)
qed

section \<open>Ranges within a string\<close>

text \<open>
   A range of a scalar string is the part of the string if it ends within the string, although the
  header promises an error for a variant that is not an array.  Otherwise the element of the new array was
  not written when it is freed: what happens is undefined.
\<close>

theorem substring_of_scalar:
  "UA_Variant_copyRange (VVarScalar UA_TYPES_STRING (VStr s)) [dim] =
     (if rangeMin dim \<le> rangeMax dim \<and> unat (rangeMax dim) < length (ubytes s)
      then Done (GOOD, Some (VVarScalar UA_TYPES_STRING (VStr (
        let n = unat (rangeMax dim - rangeMin dim + 1)
        in if n = 0 then None else Some (take n (drop (unat (rangeMin dim)) (ubytes s)))))))
      else Undefined)"
proof -
  have st: "computeStrides 1 [] [\<lparr> rangeMin = 0, rangeMax = 0 \<rparr>] = Inr \<lparr> total = 1, block = 1, stride = 1, first = 0 \<rparr>"
    by (simp add: computeStrides_def stride_step_def Let_def)
  have p: "range_positions \<lparr> total = 1, block = 1, stride = 1, first = 0 \<rparr> 16 = Done [0]"
    by (simp add: range_positions_def block_positions_def Let_def)
  have l: "isStringLike (entry 12 (Some KString) 16 False 0 String_members)"
    by (simp add: isStringLike_def entry_def String_members_def many_def)
  have sz: "memSize (entry 12 (Some KString) 16 False 0 String_members) = 16" by (simp add: entry_def)
  show ?thesis
    by (subst UA_Variant_copyRange.simps)
      (auto simp: range_types st[unfolded One_nat_def] copy_level_def sz p l copy_within_def copySubString_def discard_array_def
        fixedSize_def Let_def not_le not_less)
qed

end
