(* ===== verification/InfoModelProps.thy ===== *)
theory InfoModelProps
  imports InfoModel
begin

text \<open>
  Searching the information model in a consistent store: the search upwards finds exactly what stands
  above a node when the references have no cycle, and recurses for ever when they have one; the
  hierarchy of a type is complete in any case.
\<close>

section \<open>Stores with one node\<close>

lemma single_store:
  fixes e :: "'a nodeEntry"
  assumes "ident (nodeId (enode e)) \<noteq> BadIdType"
  shows "\<exists>st. searchable st \<and> store_map st = (\<lambda>x. if UA_NodeId_equal (nodeId (enode e)) x then Some (enode e) else None)"
proof -
  obtain st :: "'a nodeStore" where st: "store_ok st" "small_store st" "store_map st = Map.empty" "Free \<in> set (entries st)"
    "Tombstone \<notin> set (entries st)" "\<forall>a. Used a \<notin> set (entries st)" "nodeHeap st = Map.empty" "nsCount st = 0"
    "unat (nsSize st) \<le> 1048573"
    using new_store[of "Map.empty"] by auto
  have t: "good_size (nsSize st)" and len: "length (entries st) = unat (nsSize st)"
    using st(1) by (simp_all add: store_ok_def table_ok_def)
  note sz = good_size_facts[OF t]
  obtain k where k: "store_ok (put_node k 1 e st)"
    "store_map (put_node k 1 e st) = (\<lambda>x. if UA_NodeId_equal (nodeId (enode e)) x then Some (enode e) else store_map st x)"
    using put_node_store[OF st(1,2) _ order.refl assms, of 1] st(3,6,8) sz(3) by auto
  have "Free \<in> set ((entries st)[k := Used 1])"
  proof -
    have all: "entries st ! i = Free" if "i < length (entries st)" for i
      using st(5,6) nth_mem[OF that] by (cases "entries st ! i") metis+
    let ?i = "if k = 0 then 1 else 0 :: nat"
    have "?i < length ((entries st)[k := Used 1])" "(entries st)[k := Used 1] ! ?i = Free"
      using all[of ?i] len sz(3) by auto
    then show ?thesis by (metis nth_mem)
  qed
  then have "searchable (put_node k 1 e st)" using k(1) st(9) by (simp add: put_node_def searchable_def)
  then show ?thesis using k(2) unfolding st(3) by blast
qed

text \<open>A data type with a supertype.\<close>

definition subtype_ref :: "nodeid \<Rightarrow> reference" where
  "subtype_ref i = \<lparr> referenceTypeId = UA_NODEID_NUMERIC 0 UA_NS0ID_HASSUBTYPE, isInverse = True,
     targetId = \<lparr> enodeId = i, namespaceUri = None, serverIndex = 0 \<rparr> \<rparr>"

definition subtype_node :: "nodeid \<Rightarrow> nodeid \<Rightarrow> content nodeEntry" where
  "subtype_node i super = \<lparr> orig = None, enode =
     \<lparr> nodeId = i, nodeClass = UA_NODECLASS_DATATYPE, nodeContent = \<lparr> references = [subtype_ref super] \<rparr> \<rparr> \<rparr>"

lemma subtype_facts [simp]:
  "nodeId (enode (subtype_node i super)) = i" "refs_of (enode (subtype_node i super)) = [subtype_ref super]"
  "target (subtype_ref super) = super" "relevant [UA_NODEID_NUMERIC 0 UA_NS0ID_HASSUBTYPE] (subtype_ref super)"
  "ident (demo_nid k) \<noteq> BadIdType"
  by (simp_all add: subtype_node_def subtype_ref_def relevant_def demo_nid_def UA_NODEID_NUMERIC_def UA_NodeId_equal_def)

lemma subtype_store:
  obtains st where "searchable st"
    "store_map st = (\<lambda>x. if UA_NodeId_equal (demo_nid 5) x then Some (enode (subtype_node (demo_nid 5) super)) else None)"
  using single_store[of "subtype_node (demo_nid 5) super"] by auto

section \<open>The search upwards\<close>

text \<open>
  C14.  The search for a node upwards from another: in a consistent store, when the references of the
  given types that lead upwards have no cycle, the answer is whether there is a way.
\<close>

theorem node_in_tree:
  assumes "searchable st" "ranked_tree (store_map st) types rank" "rank a < fuel"
  shows "isNodeInTree fuel (store_lookup st) a b types = Done (climbs (store_map st) types a b)"
  by (rule store.in_tree[OF assms])

theorem node_in_tree_witness:
  "\<exists>st :: content nodeStore. isNodeInTree 2 (store_lookup st) (demo_nid 5) (demo_nid 7)
      [UA_NODEID_NUMERIC 0 UA_NS0ID_HASSUBTYPE] = Done True"
proof -
  let ?t = "[UA_NODEID_NUMERIC 0 UA_NS0ID_HASSUBTYPE]" and ?rank = "\<lambda>i. if UA_NodeId_equal (demo_nid 5) i then 1 else 0 :: nat"
  obtain st where st: "searchable st"
    "store_map st = (\<lambda>x. if UA_NodeId_equal (demo_nid 5) x then Some (enode (subtype_node (demo_nid 5) (demo_nid 7))) else None)"
    by (rule subtype_store)
  have d: "\<not> UA_NodeId_equal (demo_nid 5) (demo_nid 7)"
    by (simp add: demo_nid_def UA_NODEID_NUMERIC_def UA_NodeId_equal_def)
  have "ranked_tree (store_map st) ?t ?rank" using d by (auto simp: ranked_tree_def st(2) split: if_splits)
  from node_in_tree[OF st(1) this, of "demo_nid 5" 2 "demo_nid 7"]
  have "isNodeInTree 2 (store_lookup st) (demo_nid 5) (demo_nid 7) ?t = Done (climbs (store_map st) ?t (demo_nid 5) (demo_nid 7))"
    by simp
  moreover have "climbs (store_map st) ?t (demo_nid 7) (demo_nid 7)" by (rule climbs.here) simp
  then have "climbs (store_map st) ?t (demo_nid 5) (demo_nid 7)"
    by (subst climbs_step) (simp add: st(2))
  ultimately show ?thesis by auto
qed

text \<open>
  C31.  When the first references upwards lead round a cycle that does not have the node searched for,
  the search recurses for ever: there is no bound on its depth, and the stack overflows.
\<close>

theorem cycle_exhausts_stack:
  assumes "searchable st" "a \<in> A"
    and "\<And>i. i \<in> A \<Longrightarrow> \<not> UA_NodeId_equal i b \<and>
      (\<exists>n r. store_map st i = Some n \<and> find (relevant types) (refs_of n) = Some r \<and> target r \<in> A)"
  shows "isNodeInTree fuel (store_lookup st) a b types = OutOfFuel"
  by (rule store.in_cycle[OF assms])

theorem cycle_exhausts_stack_witness:
  "\<exists>st :: content nodeStore. isNodeInTree 1000 (store_lookup st) (demo_nid 5) (demo_nid 7)
      [UA_NODEID_NUMERIC 0 UA_NS0ID_HASSUBTYPE] = OutOfFuel"
proof -
  obtain st where st: "searchable st"
    "store_map st = (\<lambda>x. if UA_NodeId_equal (demo_nid 5) x then Some (enode (subtype_node (demo_nid 5) (demo_nid 5))) else None)"
    by (rule subtype_store)
  have d: "\<not> UA_NodeId_equal (demo_nid 5) (demo_nid 7)"
    by (simp add: demo_nid_def UA_NODEID_NUMERIC_def UA_NodeId_equal_def)
  show ?thesis
    using cycle_exhausts_stack[OF st(1), of "demo_nid 5" "{demo_nid 5}" "demo_nid 7"
        "[UA_NODEID_NUMERIC 0 UA_NS0ID_HASSUBTYPE]" 1000] d
    by (intro exI[of _ st]) (simp add: st(2))
qed

section \<open>The hierarchy of a type\<close>

definition in_hierarchy :: "bool \<Rightarrow> reference \<Rightarrow> bool" where
  "in_hierarchy upwards r \<longleftrightarrow>
     isInverse r = upwards \<and> UA_NodeId_equal (UA_NODEID_NUMERIC 0 UA_NS0ID_HASSUBTYPE) (referenceTypeId r)"

inductive hierarchy :: "(nodeid \<Rightarrow> 'c content_scheme node option) \<Rightarrow> 'c content_scheme node \<Rightarrow> bool \<Rightarrow> nodeid \<Rightarrow> bool"
  for lookup root upwards where
  root: "hierarchy lookup root upwards (nodeId root)"
| of_root: "r \<in> set (refs_of root) \<Longrightarrow> in_hierarchy upwards r \<Longrightarrow> hierarchy lookup root upwards (target r)"
| of_node: "hierarchy lookup root upwards i \<Longrightarrow> lookup i = Some n \<Longrightarrow> nodeClass n = nodeClass root \<Longrightarrow>
    r \<in> set (refs_of n) \<Longrightarrow> in_hierarchy upwards r \<Longrightarrow> hierarchy lookup root upwards (target r)"

definition listed :: "nodeid list \<Rightarrow> nodeid \<Rightarrow> bool" where
  "listed results i \<longleftrightarrow> (\<exists>x\<in>set results. UA_NodeId_equal x i)"

definition apart :: "nodeid list \<Rightarrow> bool" where
  "apart results \<longleftrightarrow> sorted_wrt (\<lambda>x y. \<not> UA_NodeId_equal x y) results"

lemma listed_mono: "listed xs i \<Longrightarrow> set xs \<subseteq> set ys \<Longrightarrow> listed ys i"
  by (auto simp: listed_def)

lemma listed_ex: "listed xs i \<longleftrightarrow> list_ex (UA_NodeId_equal i) xs"
  using UA_NodeId_equal_sym by (auto simp: listed_def list_ex_iff)

definition extends_by :: "bool \<Rightarrow> reference list \<Rightarrow> nodeid list \<Rightarrow> nodeid list \<Rightarrow> bool" where
  "extends_by upwards rs results new \<longleftrightarrow>
     set new \<subseteq> {target r | r. r \<in> set rs \<and> in_hierarchy upwards r} \<and>
     (\<forall>r\<in>set rs. in_hierarchy upwards r \<longrightarrow> listed (results @ new) (target r)) \<and>
     (apart results \<longrightarrow> apart (results @ new))"

lemma add_targets_spec:
  "\<forall>r\<in>set rs. ident (target r) \<noteq> BadIdType \<Longrightarrow>
   \<exists>new. add_targets upwards rs results = results @ new \<and> extends_by upwards rs results new"
proof (induction rs arbitrary: results)
  case Nil
  then show ?case by (simp add: extends_by_def)
next
  case (Cons r rs)
  show ?case
  proof (cases "in_hierarchy upwards r \<and> \<not> listed results (target r)")
    case True
    obtain new where new: "add_targets upwards rs (results @ [target r]) = (results @ [target r]) @ new"
      "extends_by upwards rs (results @ [target r]) new"
      using Cons.IH[of "results @ [target r]"] Cons.prems by auto
    have "apart results \<longrightarrow> apart (results @ [target r])"
      using True by (auto simp: apart_def sorted_wrt_append listed_def)
    moreover have "listed (results @ target r # new) (target r)"
      using Cons.prems UA_NodeId_equal_refl[of "target r"] by (auto simp: listed_def)
    ultimately have "extends_by upwards (r # rs) results (target r # new)"
      using new(2) True by (auto simp: extends_by_def)
    moreover have "add_targets upwards (r # rs) results = results @ target r # new"
      using True new(1) by (simp add: in_hierarchy_def listed_ex)
    ultimately show ?thesis by blast
  next
    case False
    obtain new where new: "add_targets upwards rs results = results @ new" "extends_by upwards rs results new"
      using Cons.IH[of results] Cons.prems by auto
    have "in_hierarchy upwards r \<longrightarrow> listed (results @ new) (target r)"
      using False listed_mono[of results "target r" "results @ new"] by auto
    then have "extends_by upwards (r # rs) results new" using new(2) by (auto simp: extends_by_def)
    moreover have "add_targets upwards (r # rs) results = results @ new"
      using False new(1) by (auto simp: in_hierarchy_def listed_ex)
    ultimately show ?thesis by blast
  qed
qed

text \<open>The state of the search: what is found is in the hierarchy, and the nodes up to the index are done.\<close>

definition covered ::
  "(nodeid \<Rightarrow> 'c content_scheme node option) \<Rightarrow> 'c content_scheme node \<Rightarrow> bool \<Rightarrow> nodeid list \<Rightarrow> nodeid \<Rightarrow> bool" where
  "covered lookup root upwards results i \<longleftrightarrow>
     (\<forall>n r. lookup i = Some n \<longrightarrow> nodeClass n = nodeClass root \<longrightarrow> r \<in> set (refs_of n) \<longrightarrow> in_hierarchy upwards r \<longrightarrow>
       listed results (target r))"

definition search_state ::
  "(nodeid \<Rightarrow> 'c content_scheme node option) \<Rightarrow> 'c content_scheme node \<Rightarrow> bool \<Rightarrow> nodeid list \<Rightarrow> nat \<Rightarrow> bool" where
  "search_state lookup root upwards results idx \<longleftrightarrow>
     results \<noteq> [] \<and> hd results = nodeId root \<and> apart results \<and> (\<forall>x\<in>set results. hierarchy lookup root upwards x) \<and>
     (\<forall>r\<in>set (refs_of root). in_hierarchy upwards r \<longrightarrow> listed results (target r)) \<and>
     (\<forall>j\<le>idx. j < length results \<longrightarrow> covered lookup root upwards results (results ! j))"

lemma covered_mono: "covered lookup root upwards xs i \<Longrightarrow> set xs \<subseteq> set ys \<Longrightarrow> covered lookup root upwards ys i"
  unfolding covered_def using listed_mono by blast

lemma search_state_step:
  assumes "search_state lookup root upwards results idx" "idx + 1 < length results"
    and "\<And>n. lookup (results ! (idx + 1)) = Some n \<Longrightarrow> nodeClass n = nodeClass root \<Longrightarrow>
      extends_by upwards (refs_of n) results new"
    and "new \<noteq> [] \<Longrightarrow> \<exists>n. lookup (results ! (idx + 1)) = Some n \<and> nodeClass n = nodeClass root"
  shows "search_state lookup root upwards (results @ new) (idx + 1)"
proof -
  let ?i = "results ! (idx + 1)"
  have here: "hierarchy lookup root upwards ?i" using assms(1,2) nth_mem[OF assms(2)] by (simp add: search_state_def)
  have "hierarchy lookup root upwards x" if x: "x \<in> set new" for x
  proof -
    from x obtain n where n: "lookup ?i = Some n" "nodeClass n = nodeClass root" using assms(4) by (cases new) auto
    then obtain r where "x = target r" "r \<in> set (refs_of n)" "in_hierarchy upwards r"
      using assms(3)[OF n] x by (auto simp: extends_by_def)
    then show ?thesis using hierarchy.of_node[OF here n] by simp
  qed
  moreover have "apart (results @ new)"
  proof (cases "new = []")
    case False
    then obtain n where "lookup ?i = Some n" "nodeClass n = nodeClass root" using assms(4) by blast
    then show ?thesis using assms(1,3) by (auto simp: extends_by_def search_state_def)
  qed (use assms(1) in \<open>simp add: search_state_def\<close>)
  moreover have "covered lookup root upwards (results @ new) ((results @ new) ! j)" if j: "j \<le> idx + 1" for j
  proof (cases "j = idx + 1")
    case True
    then show ?thesis using assms(2,3) by (auto simp: covered_def nth_append extends_by_def)
  next
    case False
    then have "covered lookup root upwards results (results ! j)"
      using assms(1,2) j by (simp add: search_state_def)
    then show ?thesis using False j assms(2) covered_mono[of lookup root upwards results "results ! j" "results @ new"]
      by (simp add: nth_append)
  qed
  ultimately show ?thesis
    using assms(1) listed_mono[of results _ "results @ new"] unfolding search_state_def by auto
qed

text \<open>At the end everything in the hierarchy is listed.\<close>

lemma search_state_end:
  assumes "search_state lookup root upwards results idx" "length results \<le> idx + 1"
    and "\<And>i j. UA_NodeId_equal i j \<Longrightarrow> lookup i = lookup j" "ident (nodeId root) \<noteq> BadIdType"
  shows "hierarchy lookup root upwards i \<Longrightarrow> listed results i"
proof (induction rule: hierarchy.induct)
  case root
  then show ?case using assms(1,4) UA_NodeId_equal_refl[of "nodeId root"] hd_in_set[of results]
    by (auto simp: search_state_def listed_def)
next
  case (of_root r)
  then show ?case using assms(1) by (simp add: search_state_def)
next
  case (of_node i n r)
  then obtain x where x: "x \<in> set results" "UA_NodeId_equal x i" by (auto simp: listed_def)
  then obtain j where "j < length results" "x = results ! j" by (metis in_set_conv_nth)
  then have "covered lookup root upwards results x" using assms(1,2) by (simp add: search_state_def)
  then show ?case using of_node assms(3)[OF x(2)] by (auto simp: covered_def)
qed

text \<open>The results are at most as many as the identifiers there are.\<close>

lemma apart_bound:
  assumes "apart results" "\<forall>x\<in>set results. \<exists>y\<in>set ids. UA_NodeId_equal x y"
  shows "length results \<le> length ids"
proof -
  define f where "f x = (SOME y. y \<in> set ids \<and> UA_NodeId_equal x y)" for x
  have f: "f x \<in> set ids" "UA_NodeId_equal x (f x)" if "x \<in> set results" for x
    using someI_ex[of "\<lambda>y. y \<in> set ids \<and> UA_NodeId_equal x y"] assms(2) that unfolding f_def by blast+
  have "distinct (map f results)"
  proof (subst distinct_conv_nth, intro allI impI)
    fix i j assume ij: "i < length (map f results)" "j < length (map f results)" "i \<noteq> j"
    have "f (results ! i) \<noteq> f (results ! j)"
    proof
      assume e: "f (results ! i) = f (results ! j)"
      have "UA_NodeId_equal (results ! i) (results ! j)" "UA_NodeId_equal (results ! j) (results ! i)"
        using f(2)[of "results ! i"] f(2)[of "results ! j"] ij e UA_NodeId_equal_trans UA_NodeId_equal_sym
        by (metis length_map nth_mem)+
      then show False using assms(1) ij by (auto simp: apart_def sorted_wrt_iff_nth_less neq_iff)
    qed
    then show "map f results ! i \<noteq> map f results ! j" using ij by simp
  qed
  then have "length results = card (set (map f results))" using distinct_card[of "map f results"] by simp
  also have "\<dots> \<le> card (set ids)" using f(1) by (intro card_mono) auto
  also have "\<dots> \<le> length ids" by (rule card_length)
  finally show ?thesis .
qed

lemma next_nodes_done:
  assumes "\<And>i. get i = Done (lookup i)"
    and "\<And>i n r. lookup i = Some n \<Longrightarrow> r \<in> set (refs_of n) \<Longrightarrow> ident (target r) \<noteq> BadIdType"
    and "\<And>x. hierarchy lookup root upwards x \<Longrightarrow> \<exists>y\<in>set ids. UA_NodeId_equal x y"
  shows "search_state lookup root upwards results idx \<Longrightarrow> 0 < fuel \<Longrightarrow> length ids \<le> idx + fuel \<Longrightarrow>
    \<exists>rs k. next_nodes fuel get (nodeClass root) upwards results idx = Done rs \<and>
      search_state lookup root upwards rs k \<and> length rs \<le> k + 1"
proof (induction fuel arbitrary: results idx)
  case (Suc fuel)
  show ?case
  proof (cases "length results \<le> idx + 1")
    case True
    then show ?thesis using Suc.prems(1) by auto
  next
    case False
    then have idx: "idx + 1 < length results" by simp
    have "length results \<le> length ids"
      using apart_bound[of results ids] Suc.prems(1) assms(3) by (auto simp: search_state_def)
    then have fuel: "0 < fuel" "length ids \<le> (idx + 1) + fuel" using idx Suc.prems(3) by auto
    let ?i = "results ! (idx + 1)"
    show ?thesis
    proof (cases "\<exists>n. lookup ?i = Some n \<and> nodeClass n = nodeClass root")
      case True
      then obtain n where n: "lookup ?i = Some n" "nodeClass n = nodeClass root" by blast
      obtain new where new: "add_targets upwards (refs_of n) results = results @ new" "extends_by upwards (refs_of n) results new"
        using add_targets_spec[of "refs_of n" upwards results] assms(2)[OF n(1)] by blast
      have "search_state lookup root upwards (results @ new) (idx + 1)"
        using search_state_step[OF Suc.prems(1) idx, of new] n new(2) by simp
      from Suc.IH[OF this fuel] show ?thesis using idx n new(1) by (simp add: assms(1))
    next
      case False
      then have "search_state lookup root upwards (results @ []) (idx + 1)"
        using search_state_step[OF Suc.prems(1) idx, of "[]"] by blast
      from Suc.IH[OF this[unfolded append_Nil2] fuel] show ?thesis
        using idx False by (cases "lookup ?i") (simp_all add: assms(1))
    qed
  qed
qed simp

text \<open>The targets of all references in a store.\<close>

definition store_targets :: "'c content_scheme nodeStore \<Rightarrow> nodeid list" where
  "store_targets st = concat (map (\<lambda>s. case s of
       Used a \<Rightarrow> (case nodeHeap st a of Some e \<Rightarrow> map target (refs_of (enode e)) | None \<Rightarrow> [])
     | _ \<Rightarrow> []) (entries st))"

lemma store_map_entry:
  assumes "store_map st i = Some n"
  obtains a e where "Used a \<in> set (entries st)" "nodeHeap st a = Some e" "n = enode e"
proof -
  obtain s where s: "find (matches (nodeHeap st) i) (entries st) = Some s"
    using assms by (auto simp: store_map_def split: option.splits)
  then have "s \<in> set (entries st)" by (auto simp: find_Some_iff)
  then show ?thesis using that assms s by (auto simp: store_map_def split: slot.splits)
qed

lemma store_targets_all: "store_map st i = Some n \<Longrightarrow> r \<in> set (refs_of n) \<Longrightarrow> target r \<in> set (store_targets st)"
proof -
  assume n: "store_map st i = Some n" and r: "r \<in> set (refs_of n)"
  from n obtain a e where "Used a \<in> set (entries st)" "nodeHeap st a = Some e" "n = enode e" by (rule store_map_entry)
  with r show ?thesis by (force simp: store_targets_def)
qed

lemma store_map_equal:
  assumes "store_ok st" "UA_NodeId_equal i j"
  shows "store_map st i = store_map st j"
proof -
  have t: "table_ok (nsSize st) (entries st) (nodeHeap st)" using assms(1) by (simp add: store_ok_def)
  show ?thesis
    by (rule option_eqI, unfold store_map_iff[OF t])
      (metis assms(2) UA_NodeId_equal_trans UA_NodeId_equal_sym)
qed

text \<open>
  C15.  The hierarchy of a type in a consistent store is complete whatever cycles there are: the search
  ends, and its result has the type first, everything above (or below) it in nodes of its class, no
  identifier twice, and nothing else.
\<close>

theorem type_hierarchy:
  assumes "searchable st" "store_map st (nodeId root) = Some root"
    and "\<forall>i n r. store_map st i = Some n \<longrightarrow> r \<in> set (refs_of n) \<longrightarrow> ident (target r) \<noteq> BadIdType"
    and "length (store_targets st) < fuel"
  shows "\<exists>rs. getTypeHierarchy fuel (store_lookup st) root upwards = Done rs \<and> hd rs = nodeId root \<and> apart rs \<and>
    (\<forall>x\<in>set rs. hierarchy (store_map st) root upwards x) \<and>
    (\<forall>i. hierarchy (store_map st) root upwards i \<longrightarrow> listed rs i)"
proof -
  have ok: "store_ok st" using assms(1) by (simp add: searchable_def)
  then have t: "table_ok (nsSize st) (entries st) (nodeHeap st)" by (simp add: store_ok_def)
  have refl: "UA_NodeId_equal (nodeId root) (nodeId root)" using assms(2) store_map_iff[OF t] by blast
  have id: "ident (nodeId root) \<noteq> BadIdType" using refl by (auto simp: UA_NodeId_equal_def)
  let ?ids = "nodeId root # store_targets st"
  have ids: "\<exists>y\<in>set ?ids. UA_NodeId_equal x y" if "hierarchy (store_map st) root upwards x" for x
    using that
  proof (induction rule: hierarchy.induct)
    case (of_root r)
    then show ?case
      using store_targets_all[OF assms(2)] UA_NodeId_equal_refl[of "target r"] assms(2,3) by auto
  next
    case (of_node i n r)
    then show ?case
      using store_targets_all[of st i n r] UA_NodeId_equal_refl[of "target r"] assms(3) by auto
  qed (use refl in simp)
  obtain new where new: "add_targets upwards (refs_of root) [nodeId root] = [nodeId root] @ new"
    "extends_by upwards (refs_of root) [nodeId root] new"
    using add_targets_spec[of "refs_of root" upwards "[nodeId root]"] assms(2,3) by blast
  have start: "search_state (store_map st) root upwards ([nodeId root] @ new) 0"
    unfolding search_state_def
  proof (intro conjI ballI impI allI)
    show "apart ([nodeId root] @ new)" using new(2) by (simp add: extends_by_def apart_def)
    show "hierarchy (store_map st) root upwards x" if x: "x \<in> set ([nodeId root] @ new)" for x
    proof (cases "x = nodeId root")
      case False
      then have "x \<in> set new" using x by simp
      then have "x \<in> {target r | r. r \<in> set (refs_of root) \<and> in_hierarchy upwards r}"
        using new(2) by (auto simp: extends_by_def)
      then show ?thesis using hierarchy.of_root by auto
    qed (simp add: hierarchy.root)
    show "listed ([nodeId root] @ new) (target r)" if "r \<in> set (refs_of root)" "in_hierarchy upwards r" for r
      using that new(2) by (simp add: extends_by_def)
    show "covered (store_map st) root upwards ([nodeId root] @ new) (([nodeId root] @ new) ! j)" if "j \<le> 0" for j
      using that new(2) assms(2) by (auto simp: covered_def extends_by_def)
  qed simp_all
  have get: "store_lookup st i = Done (store_map st i)" for i by (rule store.get_lookup[OF assms(1)])
  obtain rs k where rs: "next_nodes fuel (store_lookup st) (nodeClass root) upwards ([nodeId root] @ new) 0 = Done rs"
    "search_state (store_map st) root upwards rs k" "length rs \<le> k + 1"
    using next_nodes_done[OF get _ ids start, of fuel] assms(3,4) by auto
  have "\<forall>i. hierarchy (store_map st) root upwards i \<longrightarrow> listed rs i"
    using search_state_end[OF rs(2,3) store_map_equal[OF ok] id] by blast
  then show ?thesis using rs(1,2) new(1) by (auto simp: getTypeHierarchy_def search_state_def)
qed

theorem type_hierarchy_witness:
  "\<exists>(st :: content nodeStore) rs fuel. getTypeHierarchy fuel (store_lookup st) (enode (subtype_node (demo_nid 5) (demo_nid 7))) True = Done rs \<and>
     listed rs (demo_nid 7)"
proof -
  let ?n = "enode (subtype_node (demo_nid 5) (demo_nid 7))"
  obtain st where st: "searchable st" "store_map st = (\<lambda>x. if UA_NodeId_equal (demo_nid 5) x then Some ?n else None)"
    by (rule subtype_store)
  have "hierarchy (store_map st) ?n True (target (subtype_ref (demo_nid 7)))"
    by (rule hierarchy.of_root) (simp_all add: in_hierarchy_def, simp_all add: subtype_ref_def UA_NODEID_NUMERIC_def UA_NodeId_equal_def)
  then have h: "hierarchy (store_map st) ?n True (demo_nid 7)" by simp
  have "\<forall>i n r. store_map st i = Some n \<longrightarrow> r \<in> set (refs_of n) \<longrightarrow> ident (target r) \<noteq> BadIdType"
    by (auto simp: st(2) split: if_splits)
  from type_hierarchy[OF st(1) _ this, of ?n "Suc (length (store_targets st))" True] h show ?thesis
    by (metis (no_types, lifting) lessI nid_facts(2) st(2) subtype_facts(1))
qed

end
