(* ===== verification/AttributeProps.thy ===== *)
theory AttributeProps
  imports AttributeService RangeProps InfoModelProps
begin

text \<open>
  What is written into an attribute is what is read from it, and nothing else changes; access rights
  are not looked at; a value range written through its text is read back.
\<close>

section \<open>Editing a node in the store\<close>

lemma edit_entry:
  fixes st :: "'a nodeStore"
  assumes "store_ok st" "k < length (entries st)" "entries st ! k = Used a" "nodeHeap st a = Some e"
    and "nodeId n = nodeId (enode e)"
  defines "st' \<equiv> st\<lparr>nodeHeap := (nodeHeap st)(a \<mapsto> e\<lparr>enode := n\<rparr>)\<rparr>"
  shows "store_ok st'" "store_map st' = (\<lambda>x. if UA_NodeId_equal (nodeId n) x then Some n else store_map st x)"
proof -
  have t: "table_ok (nsSize st) (entries st) (nodeHeap st)" using assms(1) by (simp add: store_ok_def)
  have k: "node_at (entries st) (nodeHeap st) k = Some (enode e)" using assms(3,4) by (simp add: node_at_def)
  have id: "ident (nodeId n) \<noteq> BadIdType" using t k assms(2,5) by (auto simp: table_ok_def)
  have m: "matches (nodeHeap st) (nodeId n) (entries st ! k)"
    unfolding matches_node_at using k assms(5) UA_NodeId_equal_refl[OF id] by simp
  have uniq: "j = k" if "j < length (entries st)" "entries st ! j = Used a" for j
    by (rule table_ok_unique[OF t that(1) assms(2) _ m]) (use m in \<open>simp only: that(2) assms(3)\<close>)
  have at: "node_at (entries st) (nodeHeap st') j = (if j = k then Some n else node_at (entries st) (nodeHeap st) j)"
    if "j < length (entries st)" for j
  proof (cases "j = k")
    case True
    then show ?thesis using assms(3) by (simp add: node_at_def st'_def)
  next
    case False
    then have "entries st ! j \<noteq> Used a" using uniq[OF that] by blast
    then show ?thesis using False by (cases "entries st ! j") (simp_all add: node_at_def st'_def)
  qed
  have same: "node_at (entries st) (nodeHeap st') j = Some x \<Longrightarrow> j < length (entries st) \<Longrightarrow>
      \<exists>y. node_at (entries st) (nodeHeap st) j = Some y \<and> nodeId y = nodeId x" for j x
    using at[of j] k assms(5) by (auto split: if_splits)
  have t': "table_ok (nsSize st) (entries st) (nodeHeap st')"
    unfolding table_ok_def
  proof (intro conjI allI impI)
    show "good_size (nsSize st)" "length (entries st) = unat (nsSize st)" using t by (simp_all add: table_ok_def)
    show "nodeHeap st' b \<noteq> None" if "j < length (entries st)" "entries st ! j = Used b" for j b
      using that t by (auto simp: table_ok_def st'_def)
    show "ident (nodeId x) \<noteq> BadIdType" "reachable (nsSize st) (entries st) (nodeId x) j"
      if "j < length (entries st)" "node_at (entries st) (nodeHeap st') j = Some x" for j x
      using same[OF that(2,1)] that(1) t by (auto simp: table_ok_def)
    show "j = l" if "j < length (entries st)" "l < length (entries st)" "node_at (entries st) (nodeHeap st') j = Some x"
      "node_at (entries st) (nodeHeap st') l = Some y" "UA_NodeId_equal (nodeId x) (nodeId y)" for j l x y
      using same[OF that(3,1)] same[OF that(4,2)] that(1,2,5) t unfolding table_ok_def by metis
  qed
  then show "store_ok st'" using assms(1) by (simp add: store_ok_def st'_def)
  have t2: "table_ok (nsSize st) (entries st') (nodeHeap st')" using t' by (simp add: st'_def)
  have nodes: "x \<in> nodes_of (entries st') (nodeHeap st') \<longleftrightarrow>
      x = n \<or> x \<in> nodes_of (entries st) (nodeHeap st) \<and> \<not> UA_NodeId_equal (nodeId x) (nodeId n)" for x
  proof
    assume "x \<in> nodes_of (entries st') (nodeHeap st')"
    then obtain j where j: "j < length (entries st)" "node_at (entries st) (nodeHeap st') j = Some x"
      by (auto simp: nodes_of_def st'_def)
    show "x = n \<or> x \<in> nodes_of (entries st) (nodeHeap st) \<and> \<not> UA_NodeId_equal (nodeId x) (nodeId n)"
    proof (cases "j = k")
      case False
      then have x: "node_at (entries st) (nodeHeap st) j = Some x" using j at by simp
      then have "\<not> UA_NodeId_equal (nodeId x) (nodeId n)"
        using False table_ok_unique[OF t j(1) assms(2) _ m] by (auto simp: matches_node_at)
      then show ?thesis using x j(1) by (auto simp: nodes_of_def)
    qed (use j at in simp)
  next
    assume "x = n \<or> x \<in> nodes_of (entries st) (nodeHeap st) \<and> \<not> UA_NodeId_equal (nodeId x) (nodeId n)"
    then show "x \<in> nodes_of (entries st') (nodeHeap st')"
    proof
      assume "x = n"
      then show ?thesis using at[OF assms(2)] assms(2) by (auto simp: nodes_of_def st'_def)
    next
      assume x: "x \<in> nodes_of (entries st) (nodeHeap st) \<and> \<not> UA_NodeId_equal (nodeId x) (nodeId n)"
      then obtain j where j: "j < length (entries st)" "node_at (entries st) (nodeHeap st) j = Some x" by (auto simp: nodes_of_def)
      then have "j \<noteq> k" using x k assms(5) UA_NodeId_equal_refl[OF id] by auto
      then show ?thesis using at[OF j(1)] j by (auto simp: nodes_of_def st'_def)
    qed
  qed
  show "store_map st' = (\<lambda>x. if UA_NodeId_equal (nodeId n) x then Some n else store_map st x)"
  proof (rule ext, rule option_eqI)
    fix x and y :: "'a node"
    have "UA_NodeId_equal (nodeId y) x \<Longrightarrow> UA_NodeId_equal (nodeId y) (nodeId n) \<longleftrightarrow> UA_NodeId_equal (nodeId n) x"
      using UA_NodeId_equal_trans UA_NodeId_equal_sym by blast
    then show "store_map st' x = Some y \<longleftrightarrow> (if UA_NodeId_equal (nodeId n) x then Some n else store_map st x) = Some y"
      using store_map_iff[OF t2, of x y] store_map_iff[OF t, of x y] nodes[of y] by auto
  qed
qed

lemma edit_node:
  assumes "searchable st" "store_map st i = Some n" "callback n = Done (rv, n')" "nodeId n' = nodeId n"
  shows "\<exists>st'. UA_Server_editNode 1048573 i callback st = Done (rv, st') \<and> searchable st' \<and>
    store_map st' = (\<lambda>x. if UA_NodeId_equal i x then Some n' else store_map st x)"
proof -
  have ok: "store_ok st" "unat (nsSize st) \<le> 1048573" using assms(1) by (simp_all add: searchable_def)
  have t: "table_ok (nsSize st) (entries st) (nodeHeap st)" using ok(1) by (simp add: store_ok_def)
  obtain k a e where k: "findNode 1048573 st i = Done (Some k)" "k < length (entries st)" "entries st ! k = Used a"
    "nodeHeap st a = Some e" "enode e = n" "UA_NodeId_equal (nodeId (enode e)) i"
    using get_present[OF t _ ok(2), of i] assms(2) by (metis option.distinct(1) option.inject)
  let ?st = "st\<lparr>nodeHeap := (nodeHeap st)(a \<mapsto> e\<lparr>enode := n'\<rparr>)\<rparr>"
  have id: "nodeId n' = nodeId (enode e)" using assms(4) k(5) by simp
  note ed = edit_entry[OF ok(1) k(2-4) id]
  have "UA_Server_editNode 1048573 i callback st = Done (rv, ?st)"
    using k(1,3-5) assms(3) by (simp add: UA_Server_editNode_def slot_entry_def deref_def)
  moreover have "searchable ?st" using assms(1) ed(1) by (simp add: searchable_def)
  moreover have "UA_NodeId_equal (nodeId n') x \<longleftrightarrow> UA_NodeId_equal i x" for x
    using k(6) id UA_NodeId_equal_trans UA_NodeId_equal_sym by metis
  then have "store_map ?st = (\<lambda>x. if UA_NodeId_equal i x then Some n' else store_map st x)"
    using ed(2) by simp
  ultimately show ?thesis by blast
qed

lemma edit_node_result:
  assumes "searchable st" "store_map st i = Some n" "UA_Server_editNode 1048573 i callback st = Done (rv, st')"
  obtains n' where "callback n = Done (rv, n')"
proof -
  have ok: "store_ok st" "unat (nsSize st) \<le> 1048573" using assms(1) by (simp_all add: searchable_def)
  have t: "table_ok (nsSize st) (entries st) (nodeHeap st)" using ok(1) by (simp add: store_ok_def)
  obtain k a e where k: "findNode 1048573 st i = Done (Some k)" "entries st ! k = Used a" "nodeHeap st a = Some e" "enode e = n"
    using get_present[OF t _ ok(2), of i] assms(2) by (metis option.distinct(1) option.inject)
  show ?thesis
    using assms(3) k that by (auto simp: UA_Server_editNode_def slot_entry_def deref_def bind_Done_iff)
qed

section \<open>Writing and reading an attribute\<close>

lemma edit_simps [simp]:
  "nodeClass (edit f n) = nodeClass n" "nodeId (edit f n) = nodeId n" "nodeContent (edit f n) = f (nodeContent n)"
  by (simp_all add: edit_def)

lemma checked_scalar_done:
  "checked_scalar t n v store = Done (rv, n') \<Longrightarrow>
   rv = BADTYPEMISMATCH \<and> n' = n \<or> (\<exists>x. dvValue v = VVarScalar t x \<and> store x = Done (rv, n'))"
  by (auto simp: checked_scalar_def split: if_splits uval.splits)

lemma checked_array_done:
  "checked_array t n v store = Done (rv, n') \<Longrightarrow>
   rv = BADTYPEMISMATCH \<and> n' = n \<or> store (fst (array_of (dvValue v))) = Done (rv, n')"
  by (auto simp: checked_array_def split: if_splits uval.splits)

lemma checked_class_write_done:
  "checked_class_write cs n r = Done (rv, n') \<Longrightarrow> rv = BADNODECLASSINVALID \<and> n' = n \<or> nodeClass n \<in> cs \<and> r = Done (rv, n')"
  by (auto simp: checked_class_write_def split: if_splits)

lemma store_done:
  "store_word f n x = Done (rv, n') \<Longrightarrow> rv = GOOD \<and> (\<exists>w. x = V32 w \<and> n' = edit (f w) n)"
  "store_double g n x = Done (rv, n') \<Longrightarrow> rv = GOOD \<and> (\<exists>w. x = V64 w \<and> n' = edit (g w) n)"
  "store_byte h n x = Done (rv, n') \<Longrightarrow> rv = GOOD \<and> (\<exists>b. x = VB b \<and> n' = edit (h b) n)"
  "store_bool k n x = Done (rv, n') \<Longrightarrow> rv = GOOD \<and> (\<exists>b. x = VB b \<and> n' = edit (k (b \<noteq> 0)) n)"
  "store_text l n x = Done (rv, n') \<Longrightarrow> rv = GOOD \<and> n' = edit (l x) n"
  by (auto simp: store_word_def store_double_def store_byte_def store_bool_def store_text_def split: uval.splits)

lemma abstract_done:
  "writeIsAbstractAttribute n x = Done (rv, n') \<Longrightarrow> rv = BADNODECLASSINVALID \<and> n' = n \<or>
   rv = GOOD \<and> nodeClass n \<in> abstract_classes \<and> (\<exists>b. x = VB b \<and> n' = edit (\<lambda>c. c\<lparr>isAbstract := b \<noteq> 0\<rparr>) n)"
  by (auto simp: writeIsAbstractAttribute_def store_bool_def split: if_splits uval.splits)

text \<open>What holds of every result of a routine, branch by branch.\<close>

definition results :: "('a \<Rightarrow> bool) \<Rightarrow> 'a outcome \<Rightarrow> bool" where
  "results P m \<longleftrightarrow> (\<forall>a. m = Done a \<longrightarrow> P a)"

lemma results_Done: "P a \<Longrightarrow> results P (Done a)"
  by (simp add: results_def)

lemma results_Undefined: "results P Undefined"
  by (simp add: results_def)

lemma results_bind: "(\<And>a. m = Done a \<Longrightarrow> results P (f a)) \<Longrightarrow> results P (bind m f)"
  by (auto simp: results_def bind_Done_iff)

lemma results_if: "(c \<Longrightarrow> results P m) \<Longrightarrow> (\<not> c \<Longrightarrow> results P m') \<Longrightarrow> results P (if c then m else m')"
  by simp

lemma results_pair: "(\<And>x y. a = (x, y) \<Longrightarrow> results P (f x y)) \<Longrightarrow> results P (case a of (x, y) \<Rightarrow> f x y)"
  by (cases a) simp

lemma results_option:
  "(a = None \<Longrightarrow> results P m) \<Longrightarrow> (\<And>x. a = Some x \<Longrightarrow> results P (f x)) \<Longrightarrow>
   results P (case a of None \<Rightarrow> m | Some x \<Rightarrow> f x)"
  by (cases a) simp_all

lemma results_source:
  "(\<And>d f. a = SourceData d f \<Longrightarrow> results P (g d f)) \<Longrightarrow> (\<And>r w. a = SourceExternal r w \<Longrightarrow> results P (h r w)) \<Longrightarrow>
   results P (case a of SourceData d f \<Rightarrow> g d f | SourceExternal r w \<Rightarrow> h r w)"
  by (cases a) simp_all

lemmas results_intros = results_Done results_Undefined results_bind results_if results_pair results_option results_source

lemma resultsD: "results P m \<Longrightarrow> m = Done a \<Longrightarrow> P a"
  by (simp add: results_def)

abbreviation edits :: "(attributes \<Rightarrow> attributes) \<Rightarrow> unode \<Rightarrow> status \<times> unode \<Rightarrow> bool" where
  "edits f n \<equiv> \<lambda>(rv, n'). n' = (if rv = GOOD then edit f n else n)"

lemma rank_done: "results (edits (\<lambda>c. c\<lparr>valueRank := w\<rparr>) n) (writeValueRankAttributeWithVT get n w)"
  unfolding writeValueRankAttributeWithVT_def writeValueRankAttribute_def Let_def
  by (intro results_intros) simp_all

lemma data_type_done: "results (edits (\<lambda>c. c\<lparr>dataType := i\<rparr>) n) (writeDataTypeAttributeWithVT get inTree n i)"
  unfolding writeDataTypeAttributeWithVT_def writeDataTypeAttribute_def Let_def
  by (intro results_intros) simp_all

lemma dimensions_done: "results (edits (\<lambda>c. c\<lparr>arrayDimensions := ws\<rparr>) n) (writeArrayDimensionsAttribute get n ws)"
  unfolding writeArrayDimensionsAttribute_def Let_def
  by (intro results_intros) simp_all

lemma with_range_done: "results (\<lambda>(rv, new). rv \<noteq> GOOD \<longrightarrow> new = old) (writeValueAttributeWithRange old v rng)"
  unfolding writeValueAttributeWithRange_def Let_def
  by (intro results_intros) simp_all

lemma edit_source: "valueSource (nodeContent n) = f \<Longrightarrow> edit (\<lambda>c. c\<lparr>valueSource := f\<rparr>) n = n"
  by (auto simp: edit_def)

text \<open>
  The value that a write without a range stores: the one given, of another type with the same
  layout, or the bytes of a byte string as an array.
\<close>

definition same_content :: "uval \<Rightarrow> uval \<Rightarrow> bool" where
  "same_content v w \<longleftrightarrow> w = v \<or>
     (\<exists>i t. variant_type v = Some i \<and> w = retype t v \<and> typeEquivalence (UA_TYPES ! t) \<noteq> TYPE_EQUIVALENCE_NONE \<and>
        typeEquivalence (UA_TYPES ! t) = typeEquivalence (UA_TYPES ! i)) \<or>
     (\<exists>s. v = VVarScalar UA_TYPES_BYTESTRING (VStr s) \<and> w = VVarArray UA_TYPES_BYTE (map_option (map VB) s) [])"

definition stored_value :: "u64 \<Rightarrow> dataValue \<Rightarrow> dataValue \<Rightarrow> bool" where
  "stored_value now dv new \<longleftrightarrow> (\<exists>w. same_content (dvValue dv) w \<and>
     new = dv\<lparr>dvValue := w, sourceTimestamp := Some (case sourceTimestamp dv of None \<Rightarrow> now | Some t \<Rightarrow> t)\<rparr>)"

lemma convert_content:
  assumes "convertToMatchingValue v (UA_TYPES ! i) i' = Done (Some w)" "variant_type v = Some i"
  shows "same_content v w"
proof -
  obtain t where t: "UA_findDataType i' = Done (Some t)"
    using assms(1) by (auto simp: convertToMatchingValue_def bind_Done_iff split: option.splits)
  show ?thesis
  proof (cases "t = UA_TYPES_BYTE \<and> variant_type v = Some UA_TYPES_BYTESTRING \<and> UA_Variant_isScalar v")
    case True
    then have "(case v of VVarScalar i (VStr s) \<Rightarrow> Done (Some (VVarArray UA_TYPES_BYTE (map_option (map VB) s) [])) | _ \<Rightarrow> Undefined) =
        Done (Some w)"
      using assms(1) t by (simp add: convertToMatchingValue_def)
    then show ?thesis using True by (auto simp: same_content_def split: uval.splits)
  next
    case False
    then show ?thesis
      using assms t unfolding convertToMatchingValue_def same_content_def
      by (auto simp: Let_def split: if_splits)
  qed
qed

lemma check_content:
  assumes "typeCheckValue inTree dt rank dims v r b = Done (rv, c)"
  shows "same_content v (case c of Some w \<Rightarrow> w | None \<Rightarrow> v)"
proof (cases c)
  case (Some w)
  then obtain i d where i: "variant_type v = Some i" "type_at UA_TYPES i = Some d"
    using assms by (auto simp: typeCheckValue_def split: option.splits)
  then have d: "d = UA_TYPES ! i" by (simp add: type_at_def split: if_splits)
  have "convertToMatchingValue v d dt = Done (Some w)"
    using assms i Some by (auto simp: typeCheckValue_def bind_Done_iff split: if_splits option.splits)
  then show ?thesis using convert_content i(1) Some by (simp add: d)
qed (simp add: same_content_def)

definition value_result :: "u64 \<Rightarrow> dataValue \<Rightarrow> cstr \<Rightarrow> unode \<Rightarrow> status \<times> unode \<Rightarrow> bool" where
  "value_result now dv rng n = (\<lambda>(rv, n'). (rv \<noteq> GOOD \<longrightarrow> n' = n) \<and> (\<exists>f. n' = edit (\<lambda>c. c\<lparr>valueSource := f\<rparr>) n) \<and>
     (rv = GOOD \<longrightarrow> rng = [] \<longrightarrow> (\<forall>d f. valueSource (nodeContent n) = SourceData d f \<longrightarrow>
        (\<exists>new. valueSource (nodeContent n') = SourceData new f \<and> stored_value now dv new))))"

lemma value_same:
  assumes "rv \<noteq> GOOD \<or> (\<forall>d f. valueSource (nodeContent n) \<noteq> SourceData d f)"
  shows "value_result now dv rng n (rv, n)"
proof -
  have "\<exists>f. n = edit (\<lambda>c. c\<lparr>valueSource := f\<rparr>) n" using edit_source[of n] by metis
  then show ?thesis using assms by (auto simp: value_result_def)
qed

lemma value_done: "results (value_result now dv rng n) (writeValueAttribute inTree now n dv rng)"
proof -
  obtain rv0 rangeptr where req: "requested_range rng = (rv0, rangeptr)" by (cases "requested_range rng")
  have whole: "rng = [] \<Longrightarrow> rangeptr = None" using req by (simp add: requested_range_def)
  show ?thesis
    unfolding writeValueAttribute_def Let_def req prod.case
  proof (intro results_intros)
    fix aa rv conv bb rv1 new d f
    assume check: "(if hasValue dv then typeCheckValue inTree (dataType (nodeContent n)) (valueRank (nodeContent n))
          (arrayDimensions (nodeContent n)) (dvValue dv) (rangeptr \<noteq> None) True else Done (GOOD, None)) = Done aa"
      and aa: "aa = (rv, conv)" and c: "valueSource (nodeContent n) = SourceData d f" and bb: "bb = (rv1, new)"
      and m: "(case rangeptr of
           None \<Rightarrow> Done (writeValueAttributeWithoutRange d
             (if sourceTimestamp (dv\<lparr>dvValue := case conv of None \<Rightarrow> dvValue dv | Some w \<Rightarrow> w\<rparr>) = None
              then dv\<lparr>dvValue := case conv of None \<Rightarrow> dvValue dv | Some w \<Rightarrow> w, sourceTimestamp := Some now\<rparr>
              else dv\<lparr>dvValue := case conv of None \<Rightarrow> dvValue dv | Some w \<Rightarrow> w\<rparr>))
         | Some r \<Rightarrow> writeValueAttributeWithRange d
             (if sourceTimestamp (dv\<lparr>dvValue := case conv of None \<Rightarrow> dvValue dv | Some w \<Rightarrow> w\<rparr>) = None
              then dv\<lparr>dvValue := case conv of None \<Rightarrow> dvValue dv | Some w \<Rightarrow> w, sourceTimestamp := Some now\<rparr>
              else dv\<lparr>dvValue := case conv of None \<Rightarrow> dvValue dv | Some w \<Rightarrow> w\<rparr>) r) = Done bb"
    have "rv1 \<noteq> GOOD \<Longrightarrow> new = d"
      using m bb resultsD[OF with_range_done] by (cases rangeptr) (auto simp: writeValueAttributeWithoutRange_def)
    moreover have "stored_value now dv new" if "rng = []"
    proof -
      have "same_content (dvValue dv) (case conv of Some w \<Rightarrow> w | None \<Rightarrow> dvValue dv)"
        using check aa check_content by (auto simp: same_content_def split: if_splits)
      then show ?thesis
        using m bb whole[OF that] unfolding stored_value_def
        by (intro exI[of _ "case conv of None \<Rightarrow> dvValue dv | Some w \<Rightarrow> w"])
          (auto simp: writeValueAttributeWithoutRange_def split: if_splits option.splits)
    qed
    ultimately show "value_result now dv rng n (rv1, edit (\<lambda>c. c\<lparr>valueSource := SourceData new f\<rparr>) n)"
      unfolding value_result_def prod.case edit_simps c by (intro conjI impI allI exI) (simp_all add: edit_source[OF c])
  qed (simp_all add: value_same)
qed

text \<open>A boolean is stored as \<open>true\<close> or \<open>false\<close>, and anything else as it is.\<close>

definition as_stored :: "uval \<Rightarrow> uval" where
  "as_stored v = (case v of
       VVarScalar t x \<Rightarrow> (case x of VB b \<Rightarrow> if t = UA_TYPES_BOOLEAN then bool_value (b \<noteq> 0) else v | _ \<Rightarrow> v)
     | _ \<Rightarrow> v)"

text \<open>Array dimensions are given out as an array of \<open>Int32\<close>, and without an array when there are none.\<close>

definition dimensions_value :: "uval \<Rightarrow> uval" where
  "dimensions_value v = VVarArray UA_TYPES_INT32 (if fst (array_of v) = [] then None else Some (fst (array_of v))) []"

definition read_back :: "unode \<Rightarrow> unode \<Rightarrow> attributeId \<Rightarrow> uval \<Rightarrow> bool" where
  "read_back n n' a w \<longleftrightarrow>
     (\<forall>ts rng v. a \<noteq> UA_ATTRIBUTEID_VALUE \<longrightarrow> a \<noteq> UA_ATTRIBUTEID_ARRAYDIMENSIONS \<longrightarrow>
        read_attribute n' (Some a) ts rng v = Done (GOOD, v\<lparr>dvValue := as_stored w\<rparr>)) \<and>
     (\<forall>ts rng v. a = UA_ATTRIBUTEID_ARRAYDIMENSIONS \<longrightarrow>
        read_attribute n' (Some a) ts rng v = Done (GOOD, v\<lparr>hasValue := True, dvValue := dimensions_value w\<rparr>)) \<and>
     (\<forall>b ts rng v. b \<noteq> a \<longrightarrow> read_attribute n' (Some b) ts rng v = read_attribute n (Some b) ts rng v)"

definition write_result :: "unode \<Rightarrow> attributeId \<Rightarrow> uval \<Rightarrow> status \<times> unode \<Rightarrow> bool" where
  "write_result n a w = (\<lambda>(rv, n'). nodeId n' = nodeId n \<and> (if rv = GOOD then read_back n n' a w else n' = n))"

lemmas reads = read_back_def read_attribute_def checked_class_def readIsAbstractAttribute_def Let_def as_stored_def
  readArrayDimensionsAttribute_def bool_value_def

lemma read_value_edit:
  "valueSource (f (nodeContent n)) = valueSource (nodeContent n) \<Longrightarrow>
   readValueAttributeComplete (edit f n) ts rng v = readValueAttributeComplete n ts rng v"
  by (simp only: readValueAttributeComplete_def edit_simps)

lemma results_checked:
  assumes "\<And>rv n'. m = Done (rv, n') \<Longrightarrow> rv \<noteq> GOOD \<and> n' = n \<or> (\<exists>x. Q x \<and> s x = Done (rv, n'))"
    and "\<And>x. Q x \<Longrightarrow> results (write_result n a w) (s x)"
  shows "results (write_result n a w) m"
  unfolding results_def
proof (intro allI impI)
  fix y assume m: "m = Done y"
  obtain rv n' where y: "y = (rv, n')" by (cases y)
  from assms(1)[OF m[unfolded y]] show "write_result n a w y"
  proof (elim disjE exE conjE)
    assume "rv \<noteq> GOOD" "n' = n"
    then show ?thesis by (simp add: y write_result_def)
  next
    fix x assume "Q x" "s x = Done (rv, n')"
    then show ?thesis using resultsD[OF assms(2)] y by blast
  qed
qed

lemma results_scalar:
  assumes "\<And>x. dvValue v = VVarScalar t x \<Longrightarrow> results (write_result n a (dvValue v)) (store x)"
  shows "results (write_result n a (dvValue v)) (checked_scalar t n v store)"
proof (rule results_checked[where Q = "\<lambda>x. dvValue v = VVarScalar t x" and s = store])
  fix rv n' assume "checked_scalar t n v store = Done (rv, n')"
  from checked_scalar_done[OF this]
  show "rv \<noteq> GOOD \<and> n' = n \<or> (\<exists>x. dvValue v = VVarScalar t x \<and> store x = Done (rv, n'))" by auto
qed (rule assms)

lemma results_array:
  assumes "results (write_result n a w) (store (fst (array_of (dvValue v))))"
  shows "results (write_result n a w) (checked_array t n v store)"
proof (rule results_checked[where Q = "\<lambda>x. x = fst (array_of (dvValue v))" and s = store])
  fix rv n' assume "checked_array t n v store = Done (rv, n')"
  from checked_array_done[OF this]
  show "rv \<noteq> GOOD \<and> n' = n \<or> (\<exists>xs. xs = fst (array_of (dvValue v)) \<and> store xs = Done (rv, n'))" by auto
qed (use assms in simp)

lemma results_class:
  assumes "nodeClass n \<in> cs \<Longrightarrow> results (write_result n a w) r"
  shows "results (write_result n a w) (checked_class_write cs n r)"
proof (rule results_checked[where Q = "\<lambda>_. nodeClass n \<in> cs" and s = "\<lambda>_. r"])
  fix rv n' assume "checked_class_write cs n r = Done (rv, n')"
  from checked_class_write_done[OF this]
  show "rv \<noteq> GOOD \<and> n' = n \<or> (\<exists>x. nodeClass n \<in> cs \<and> r = Done (rv, n'))" by auto
qed (rule assms)

lemma results_store:
  "(\<And>y. x = V32 y \<Longrightarrow> read_back n (edit (f y) n) a w) \<Longrightarrow> results (write_result n a w) (store_word f n x)"
  "(\<And>y. x = V64 y \<Longrightarrow> read_back n (edit (g y) n) a w) \<Longrightarrow> results (write_result n a w) (store_double g n x)"
  "(\<And>y. x = VB y \<Longrightarrow> read_back n (edit (h y) n) a w) \<Longrightarrow> results (write_result n a w) (store_byte h n x)"
  "(\<And>y. x = VB y \<Longrightarrow> read_back n (edit (k (y \<noteq> 0)) n) a w) \<Longrightarrow> results (write_result n a w) (store_bool k n x)"
  using store_done(1)[of f n x] store_done(2)[of g n x] store_done(3)[of h n x] store_done(4)[of k n x]
  by (auto simp: results_def write_result_def)

lemma results_text:
  "read_back n (edit (f x) n) a w \<Longrightarrow> results (write_result n a w) (store_text f n x)"
  by (simp add: results_def write_result_def store_text_def)

lemma results_edits:
  "results (edits f n) m \<Longrightarrow> read_back n (edit f n) a w \<Longrightarrow> results (write_result n a w) m"
  by (auto simp: results_def write_result_def split: if_splits)

text \<open>Changing the field of an attribute does not change what is read of another attribute.\<close>

lemma other_attributes:
  "b \<noteq> UA_ATTRIBUTEID_BROWSENAME \<Longrightarrow>
   read_attribute (edit (\<lambda>c. c\<lparr>browseName := x2\<rparr>) n) (Some b) ts rng v = read_attribute n (Some b) ts rng v"
  "b \<noteq> UA_ATTRIBUTEID_DISPLAYNAME \<Longrightarrow>
   read_attribute (edit (\<lambda>c. c\<lparr>displayName := x3\<rparr>) n) (Some b) ts rng v = read_attribute n (Some b) ts rng v"
  "b \<noteq> UA_ATTRIBUTEID_DESCRIPTION \<Longrightarrow>
   read_attribute (edit (\<lambda>c. c\<lparr>description := x4\<rparr>) n) (Some b) ts rng v = read_attribute n (Some b) ts rng v"
  "b \<noteq> UA_ATTRIBUTEID_WRITEMASK \<Longrightarrow>
   read_attribute (edit (\<lambda>c. c\<lparr>writeMask := x5\<rparr>) n) (Some b) ts rng v = read_attribute n (Some b) ts rng v"
  "b \<noteq> UA_ATTRIBUTEID_USERWRITEMASK \<Longrightarrow>
   read_attribute (edit (\<lambda>c. c\<lparr>userWriteMask := x6\<rparr>) n) (Some b) ts rng v = read_attribute n (Some b) ts rng v"
  "b \<noteq> UA_ATTRIBUTEID_ISABSTRACT \<Longrightarrow>
   read_attribute (edit (\<lambda>c. c\<lparr>isAbstract := x7\<rparr>) n) (Some b) ts rng v = read_attribute n (Some b) ts rng v"
  "b \<noteq> UA_ATTRIBUTEID_SYMMETRIC \<Longrightarrow>
   read_attribute (edit (\<lambda>c. c\<lparr>symmetric := x8\<rparr>) n) (Some b) ts rng v = read_attribute n (Some b) ts rng v"
  "b \<noteq> UA_ATTRIBUTEID_INVERSENAME \<Longrightarrow>
   read_attribute (edit (\<lambda>c. c\<lparr>inverseName := x9\<rparr>) n) (Some b) ts rng v = read_attribute n (Some b) ts rng v"
  "b \<noteq> UA_ATTRIBUTEID_CONTAINSNOLOOPS \<Longrightarrow>
   read_attribute (edit (\<lambda>c. c\<lparr>containsNoLoops := x10\<rparr>) n) (Some b) ts rng v = read_attribute n (Some b) ts rng v"
  "b \<noteq> UA_ATTRIBUTEID_EVENTNOTIFIER \<Longrightarrow>
   read_attribute (edit (\<lambda>c. c\<lparr>eventNotifier := x11\<rparr>) n) (Some b) ts rng v = read_attribute n (Some b) ts rng v"
  "b \<noteq> UA_ATTRIBUTEID_VALUE \<Longrightarrow>
   read_attribute (edit (\<lambda>c. c\<lparr>valueSource := x12\<rparr>) n) (Some b) ts rng v = read_attribute n (Some b) ts rng v"
  "b \<noteq> UA_ATTRIBUTEID_DATATYPE \<Longrightarrow>
   read_attribute (edit (\<lambda>c. c\<lparr>dataType := x13\<rparr>) n) (Some b) ts rng v = read_attribute n (Some b) ts rng v"
  "b \<noteq> UA_ATTRIBUTEID_VALUERANK \<Longrightarrow>
   read_attribute (edit (\<lambda>c. c\<lparr>valueRank := x14\<rparr>) n) (Some b) ts rng v = read_attribute n (Some b) ts rng v"
  "b \<noteq> UA_ATTRIBUTEID_ARRAYDIMENSIONS \<Longrightarrow>
   read_attribute (edit (\<lambda>c. c\<lparr>arrayDimensions := x15\<rparr>) n) (Some b) ts rng v = read_attribute n (Some b) ts rng v"
  "b \<noteq> UA_ATTRIBUTEID_ACCESSLEVEL \<Longrightarrow>
   read_attribute (edit (\<lambda>c. c\<lparr>accessLevel := x16\<rparr>) n) (Some b) ts rng v = read_attribute n (Some b) ts rng v"
  "b \<noteq> UA_ATTRIBUTEID_USERACCESSLEVEL \<Longrightarrow>
   read_attribute (edit (\<lambda>c. c\<lparr>userAccessLevel := x17\<rparr>) n) (Some b) ts rng v = read_attribute n (Some b) ts rng v"
  "b \<noteq> UA_ATTRIBUTEID_MINIMUMSAMPLINGINTERVAL \<Longrightarrow>
   read_attribute (edit (\<lambda>c. c\<lparr>minimumSamplingInterval := x18\<rparr>) n) (Some b) ts rng v = read_attribute n (Some b) ts rng v"
  "b \<noteq> UA_ATTRIBUTEID_HISTORIZING \<Longrightarrow>
   read_attribute (edit (\<lambda>c. c\<lparr>historizing := x19\<rparr>) n) (Some b) ts rng v = read_attribute n (Some b) ts rng v"
  "b \<noteq> UA_ATTRIBUTEID_EXECUTABLE \<Longrightarrow>
   read_attribute (edit (\<lambda>c. c\<lparr>executable := x20\<rparr>) n) (Some b) ts rng v = read_attribute n (Some b) ts rng v"
  "b \<noteq> UA_ATTRIBUTEID_USEREXECUTABLE \<Longrightarrow>
   read_attribute (edit (\<lambda>c. c\<lparr>userExecutable := x21\<rparr>) n) (Some b) ts rng v = read_attribute n (Some b) ts rng v"
  by (cases b; simp add: reads read_value_edit)+

lemma read_none: "read_attribute n None ts rng v = Done (BADATTRIBUTEIDINVALID, v)"
  by (simp add: read_attribute_def Let_def)

lemma field_read_back:
  assumes "a \<noteq> UA_ATTRIBUTEID_ARRAYDIMENSIONS"
    and "\<And>ts rng v. a \<noteq> UA_ATTRIBUTEID_VALUE \<Longrightarrow> a \<noteq> UA_ATTRIBUTEID_ARRAYDIMENSIONS \<Longrightarrow>
      read_attribute (edit f n) (Some a) ts rng v = Done (GOOD, v\<lparr>dvValue := as_stored w\<rparr>)"
    and "\<And>b ts rng v. b \<noteq> a \<Longrightarrow> read_attribute (edit f n) (Some b) ts rng v = read_attribute n (Some b) ts rng v"
  shows "read_back n (edit f n) a w"
  using assms by (simp add: read_back_def)

lemma results_value:
  "results (write_result n UA_ATTRIBUTEID_VALUE w) (writeValueAttribute inTree now n v rng)"
proof -
  have "write_result n UA_ATTRIBUTEID_VALUE w (rv, n')" if "value_result now v rng n (rv, n')" for rv n'
    using that by (auto simp: value_result_def write_result_def read_back_def other_attributes)
  then show ?thesis using value_done[of now v rng n inTree] by (auto simp: results_def)
qed

lemma words_back: "words_of xs = Some ws \<Longrightarrow> map V32 ws = xs"
  by (induction xs arbitrary: ws rule: words_of.induct) auto

lemma results_abstract:
  "results (write_result n UA_ATTRIBUTEID_ISABSTRACT (VVarScalar UA_TYPES_BOOLEAN x)) (writeIsAbstractAttribute n x)"
  unfolding results_def
proof (intro allI impI)
  fix y assume m: "writeIsAbstractAttribute n x = Done y"
  obtain rv n' where y: "y = (rv, n')" by (cases y)
  from abstract_done[OF m[unfolded y]]
  show "write_result n UA_ATTRIBUTEID_ISABSTRACT (VVarScalar UA_TYPES_BOOLEAN x) y"
    by (auto simp: y write_result_def intro!: field_read_back other_attributes) (simp_all add: reads)
qed

lemma write_node:
  assumes "attribute_of (wvAttribute wv) = Some a"
  shows "results (write_result n a (dvValue (wvValue wv))) (CopyAttributeIntoNode get inTree now wv n)"
proof -
  let ?v = "wvValue wv"
  have unsupported: "results (write_result n b w) (Done (BADWRITENOTSUPPORTED, n))" for b w
    by (simp add: results_def write_result_def)
  have isabstract: "results (write_result n UA_ATTRIBUTEID_ISABSTRACT (dvValue ?v))
      (checked_scalar UA_TYPES_BOOLEAN n ?v (writeIsAbstractAttribute n))"
    by (rule results_scalar) (simp only: results_abstract)
  have typed: "results (write_result n UA_ATTRIBUTEID_DATATYPE (dvValue ?v)) (checked_class_write variable_classes n
      (checked_scalar UA_TYPES_NODEID n ?v
        (\<lambda>x. case x of VNode i \<Rightarrow> writeDataTypeAttributeWithVT get inTree n i | _ \<Rightarrow> Undefined)))"
  proof (intro results_class results_scalar)
    fix x assume c: "nodeClass n \<in> variable_classes" and x: "dvValue ?v = VVarScalar UA_TYPES_NODEID x"
    have "read_back n (edit (\<lambda>c. c\<lparr>dataType := i\<rparr>) n) UA_ATTRIBUTEID_DATATYPE (dvValue ?v)" if "x = VNode i" for i
      by (rule field_read_back) (use c x that other_attributes in \<open>simp_all add: reads\<close>)
    then show "results (write_result n UA_ATTRIBUTEID_DATATYPE (dvValue ?v))
        (case x of VNode i \<Rightarrow> writeDataTypeAttributeWithVT get inTree n i | _ \<Rightarrow> Undefined)"
      using results_edits[OF data_type_done] by (cases x) (simp_all add: results_Undefined)
  qed
  have rank: "results (write_result n UA_ATTRIBUTEID_VALUERANK (dvValue ?v)) (checked_class_write variable_classes n
      (checked_scalar UA_TYPES_INT32 n ?v
        (\<lambda>x. case x of V32 w \<Rightarrow> writeValueRankAttributeWithVT get n w | _ \<Rightarrow> Undefined)))"
  proof (intro results_class results_scalar)
    fix x assume c: "nodeClass n \<in> variable_classes" and x: "dvValue ?v = VVarScalar UA_TYPES_INT32 x"
    have "read_back n (edit (\<lambda>c. c\<lparr>valueRank := w\<rparr>) n) UA_ATTRIBUTEID_VALUERANK (dvValue ?v)" if "x = V32 w" for w
      by (rule field_read_back) (use c x that other_attributes in \<open>simp_all add: reads\<close>)
    then show "results (write_result n UA_ATTRIBUTEID_VALUERANK (dvValue ?v))
        (case x of V32 w \<Rightarrow> writeValueRankAttributeWithVT get n w | _ \<Rightarrow> Undefined)"
      using results_edits[OF rank_done] by (cases x) (simp_all add: results_Undefined)
  qed
  have dimensions: "results (write_result n UA_ATTRIBUTEID_ARRAYDIMENSIONS (dvValue ?v)) (checked_class_write variable_classes n
      (checked_array UA_TYPES_UINT32 n ?v
        (\<lambda>xs. case words_of xs of Some ws \<Rightarrow> writeArrayDimensionsAttribute get n ws | None \<Rightarrow> Undefined)))"
  proof (intro results_class results_array)
    let ?xs = "fst (array_of (dvValue ?v))"
    assume c: "nodeClass n \<in> variable_classes"
    have "read_back n (edit (\<lambda>c. c\<lparr>arrayDimensions := ws\<rparr>) n) UA_ATTRIBUTEID_ARRAYDIMENSIONS (dvValue ?v)"
      if "words_of ?xs = Some ws" for ws
    proof -
      have "ws = [] \<longleftrightarrow> ?xs = []" "map V32 ws = ?xs" using words_back[OF that] by auto
      then show ?thesis using c by (auto simp: read_back_def other_attributes) (auto simp: reads dimensions_value_def)
    qed
    then show "results (write_result n UA_ATTRIBUTEID_ARRAYDIMENSIONS (dvValue ?v))
        (case words_of ?xs of Some ws \<Rightarrow> writeArrayDimensionsAttribute get n ws | None \<Rightarrow> Undefined)"
      using results_edits[OF dimensions_done] by (cases "words_of ?xs") (simp_all add: results_Undefined)
  qed
  show ?thesis
    unfolding CopyAttributeIntoNode_def Let_def assms option.case
    by (cases a; simp only: attributeId.case;
        (rule unsupported isabstract typed rank dimensions)?;
        intro results_class results_scalar results_text results_store field_read_back results_value;
        (rule other_attributes, assumption)?; simp add: reads split: uval.split)
qed

text \<open>The request to read an attribute as a whole.\<close>

definition whole :: "nodeid \<Rightarrow> u32 \<Rightarrow> readValueId" where
  "whole i a = \<lparr> ridNodeId = i, ridAttribute = a, ridRange = [], ridEncoding = None \<rparr>"

text \<open>What is read of a value that is kept in the node, after the callback of the node if there is one.\<close>

definition after_callback :: "(dataValue \<Rightarrow> numericRange option \<Rightarrow> dataValue) option \<Rightarrow> dataValue \<Rightarrow> dataValue" where
  "after_callback onRead v = (case onRead of None \<Rightarrow> v | Some callback \<Rightarrow> callback v None)"

definition reads_as_written :: "attributes nodeStore \<Rightarrow> u64 \<Rightarrow> unode \<Rightarrow> writeValue \<Rightarrow> attributeId \<Rightarrow> bool" where
  "reads_as_written st now n wv a \<longleftrightarrow>
     (let read = (\<lambda>now ts. Service_Read_single (store_lookup st) now ts (whole (wvNodeId wv) (wvAttribute wv)) UA_DataValue_init)
      in if a = UA_ATTRIBUTEID_VALUE
         then wvRange wv = [] \<longrightarrow> (\<forall>old onRead. valueSource (nodeContent n) = SourceData old onRead \<longrightarrow>
           (\<exists>new. stored_value now (wvValue wv) new \<and>
              (\<forall>now ts. read now ts = Done (stamp_value now ts (Some a) (after_callback onRead new)))))
         else \<forall>now ts. \<exists>v. read now ts = Done v \<and> hasValue v \<and> dvStatus v = None \<and>
           dvValue v = (if a = UA_ATTRIBUTEID_ARRAYDIMENSIONS then dimensions_value (dvValue (wvValue wv))
                        else as_stored (dvValue (wvValue wv))))"

definition attribute_written :: "attributes nodeStore \<Rightarrow> u64 \<Rightarrow> unode \<Rightarrow> writeValue \<Rightarrow> status \<Rightarrow> attributes nodeStore \<Rightarrow> bool" where
  "attribute_written st now n wv rv st' \<longleftrightarrow>
     (if rv \<noteq> GOOD then store_map st' = store_map st
      else (\<exists>a. attribute_of (wvAttribute wv) = Some a \<and> reads_as_written st' now n wv a) \<and>
        (\<forall>i. \<not> UA_NodeId_equal (wvNodeId wv) i \<longrightarrow> store_map st' i = store_map st i) \<and>
        (\<forall>now ts rid v. attribute_of (ridAttribute rid) \<noteq> attribute_of (wvAttribute wv) \<longrightarrow>
          Service_Read_single (store_lookup st') now ts rid v = Service_Read_single (store_lookup st) now ts rid v))"

text \<open>
  C7.  When a write of an attribute of a node returns, a failed one has changed nothing.  After a good
  one, reading the attribute gives the value written: a boolean as true or false, array dimensions with
  the type \<open>Int32\<close>, and every other attribute but the value as it was given.  A value that was written as
  a whole into a variable that keeps its value in the node is read with the status, the timestamps and the
  content given (the type may be one of the same layout, and the source timestamp is the time of the
  write if none was given), after the callback of the variable if it has one.  Every other attribute of
  the node and every other node read as before.  (Writing a range of a value is \<open>value_range_written\<close>.)
\<close>

theorem attribute_write_read:
  assumes "searchable st" "store_map st (wvNodeId wv) = Some n"
    and "UA_Server_write 1048573 depth now wv st = Done (rv, st')"
  shows "searchable st' \<and> attribute_written st now n wv rv st'"
proof -
  let ?i = "wvNodeId wv"
  let ?cb = "CopyAttributeIntoNode (store_lookup st) (subtype_in depth (store_lookup st)) now wv"
  have w: "UA_Server_editNode 1048573 ?i ?cb st = Done (rv, st')" using assms(3) by (simp add: UA_Server_write_def)
  obtain n' where cb: "?cb n = Done (rv, n')" by (rule edit_node_result[OF assms(1,2) w])
  show ?thesis
  proof (cases "attribute_of (wvAttribute wv)")
    case None
    then have n: "rv = BADATTRIBUTEIDINVALID" "n' = n" using cb by (simp_all add: CopyAttributeIntoNode_def Let_def)
    from edit_node[where callback = ?cb, OF assms(1,2) cb] n(2) w store_map_equal[of st ?i] assms(1,2)
    show ?thesis by (auto simp: attribute_written_def n(1) searchable_def fun_eq_iff)
  next
    case (Some a)
    have r: "nodeId n' = nodeId n" "if rv = GOOD then read_back n n' a (dvValue (wvValue wv)) else n' = n"
      using resultsD[OF write_node[OF Some] cb] by (simp_all add: write_result_def split: if_splits)
    from edit_node[where callback = ?cb, OF assms(1,2) cb r(1)] w
    have st': "searchable st'" "store_map st' = (\<lambda>x. if UA_NodeId_equal ?i x then Some n' else store_map st x)" by simp_all
    have same: "UA_NodeId_equal ?i x \<Longrightarrow> store_map st x = Some n" for x
      using store_map_equal[of st ?i x] assms(1,2) by (simp add: searchable_def)
    have get: "store_lookup st i = Done (store_map st i)" "store_lookup st' i = Done (store_map st' i)" for i
      by (rule store.get_lookup, fact)+
    show ?thesis
    proof (cases "rv = GOOD")
      case False
      then have "store_map st' = store_map st" using r(2) st'(2) same by (auto simp: fun_eq_iff)
      then show ?thesis using False st'(1) by (simp add: attribute_written_def)
    next
      case True
      then have rb: "read_back n n' a (dvValue (wvValue wv))" using r(2) by simp
      have self: "UA_NodeId_equal ?i ?i"
        using assms(1,2) store_map_iff[of "nsSize st" st ?i n] UA_NodeId_equal_trans UA_NodeId_equal_sym
        by (metis searchable_def store_ok_def)
      have "Service_Read_single (store_lookup st') now ts rid v = Service_Read_single (store_lookup st) now ts rid v"
        if "attribute_of (ridAttribute rid) \<noteq> Some a" for now ts rid v
      proof -
        have "read_attribute n' (attribute_of (ridAttribute rid)) ts (ridRange rid) v =
            read_attribute n (attribute_of (ridAttribute rid)) ts (ridRange rid) v"
          using rb that
          by (cases "attribute_of (ridAttribute rid)") (simp_all add: read_back_def read_none)
        then have eq: "bind (store_lookup st' (ridNodeId rid))
            (case_option k (\<lambda>n. bind (read_attribute n (attribute_of (ridAttribute rid)) ts (ridRange rid) v) g)) =
          bind (store_lookup st (ridNodeId rid))
            (case_option k (\<lambda>n. bind (read_attribute n (attribute_of (ridAttribute rid)) ts (ridRange rid) v) g))"
            for k :: "dataValue outcome" and g
          using same[of "ridNodeId rid"] by (cases "UA_NodeId_equal ?i (ridNodeId rid)") (simp_all add: get st'(2))
        show ?thesis by (simp only: Service_Read_single_def Let_def eq cong: if_cong)
      qed
      moreover have "reads_as_written st' now n wv a"
      proof -
        have at: "Service_Read_single (store_lookup st') now ts (whole ?i (wvAttribute wv)) UA_DataValue_init =
            bind (read_attribute n' (Some a) ts [] UA_DataValue_init) (\<lambda>(retval, v1).
              if retval \<noteq> GOOD then Done (v1\<lparr>dvStatus := Some retval\<rparr>) else Done (stamp_value now ts (Some a) v1))" for now ts
          using self by (simp add: Service_Read_single_def whole_def get st'(2) Some Let_def ubytes_def)
        show ?thesis
        proof (cases "a = UA_ATTRIBUTEID_VALUE")
          case False
          then show ?thesis
            using rb unfolding reads_as_written_def Let_def at read_back_def if_not_P[OF False]
            by (cases "a = UA_ATTRIBUTEID_ARRAYDIMENSIONS") (simp_all add: stamp_value_def UA_DataValue_init_def Let_def)
        next
          case is_value: True
          have "checked_class_write variable_classes n
              (writeValueAttribute (subtype_in depth (store_lookup st)) now n (wvValue wv) (wvRange wv)) = Done (GOOD, n')"
            using cb True Some is_value by (simp add: CopyAttributeIntoNode_def Let_def)
          from checked_class_write_done[OF this] have c: "nodeClass n \<in> variable_classes"
            and w: "writeValueAttribute (subtype_in depth (store_lookup st)) now n (wvValue wv) (wvRange wv) = Done (GOOD, n')"
            by simp_all
          have res: "value_result now (wvValue wv) (wvRange wv) n (GOOD, n')" by (rule resultsD[OF value_done w])
          then have c': "nodeClass n' \<in> variable_classes" using c by (auto simp: value_result_def)
          have "\<exists>new. stored_value now (wvValue wv) new \<and> (\<forall>now ts. Service_Read_single (store_lookup st') now ts
              (whole ?i (wvAttribute wv)) UA_DataValue_init = Done (stamp_value now ts (Some a) (after_callback onRead new)))"
            if src: "wvRange wv = []" "valueSource (nodeContent n) = SourceData old onRead" for old onRead
          proof -
            obtain new where new: "valueSource (nodeContent n') = SourceData new onRead" "stored_value now (wvValue wv) new"
              using res src by (auto simp: value_result_def)
            have "read_attribute n' (Some a) ts [] v = Done (GOOD, after_callback onRead new)" for ts v
              using c' new(1) is_value
              by (simp add: read_attribute_def Let_def readValueAttributeComplete_def requested_range_def
                  readValueAttributeFromNode_def after_callback_def)
            then show ?thesis using new(2) by (intro exI[of _ new]) (simp add: at)
          qed
          then show ?thesis using is_value by (simp add: reads_as_written_def Let_def)
        qed
      qed
      ultimately show ?thesis using st' True Some by (auto simp: attribute_written_def)
    qed
  qed
qed

text \<open>A variable, for the examples.\<close>

definition demo_attributes :: "valueSource \<Rightarrow> nodeid \<Rightarrow> attributes" where
  "demo_attributes source dt = \<lparr> references = [], browseName = VStruct [V16 0, VStr None], displayName = VLoc None None,
     description = VLoc None None, writeMask = 0, userWriteMask = 0, isAbstract = False, symmetric = False,
     inverseName = VLoc None None, containsNoLoops = False, eventNotifier = 0, dataType = dt, valueRank = -2,
     arrayDimensions = [], valueSource = source, accessLevel = 0, userAccessLevel = 0, minimumSamplingInterval = 0,
     historizing = False, executable = False, userExecutable = False \<rparr>"

definition demo_variable :: "valueSource \<Rightarrow> nodeid \<Rightarrow> attributes nodeEntry" where
  "demo_variable source dt = \<lparr> orig = None, enode = \<lparr> nodeId = demo_nid 5, nodeClass = UA_NODECLASS_VARIABLE,
     nodeContent = demo_attributes source dt \<rparr> \<rparr>"

theorem attribute_write_read_witness:
  "\<exists>st st' v. UA_Server_write 1048573 1 0 \<lparr> wvNodeId = demo_nid 5, wvAttribute = 17, wvRange = [],
      wvValue = UA_DataValue_init\<lparr>hasValue := True, dvValue := VVarScalar UA_TYPES_BYTE (VB 3)\<rparr> \<rparr> st = Done (GOOD, st') \<and>
     Service_Read_single (store_lookup st') 0 UA_TIMESTAMPSTORETURN_BOTH (whole (demo_nid 5) 17) UA_DataValue_init = Done v \<and>
     dvValue v = VVarScalar UA_TYPES_BYTE (VB 3)"
proof -
  let ?e = "demo_variable (SourceData UA_DataValue_init None) (UA_NODEID_NUMERIC 0 3)"
  let ?wv = "\<lparr> wvNodeId = demo_nid 5, wvAttribute = 17, wvRange = [],
      wvValue = UA_DataValue_init\<lparr>hasValue := True, dvValue := VVarScalar UA_TYPES_BYTE (VB 3)\<rparr> \<rparr>"
  obtain st where st: "searchable st" "store_map st (demo_nid 5) = Some (enode ?e)"
    using single_store[of ?e] by (auto simp: demo_variable_def)
  have a: "attribute_of 17 = Some UA_ATTRIBUTEID_ACCESSLEVEL"
    by (simp add: attribute_of_def attribute_ids_def word_le_nat_alt)
  obtain n' where "CopyAttributeIntoNode (store_lookup st) (subtype_in 1 (store_lookup st)) 0 ?wv (enode ?e) = Done (GOOD, n')"
      "nodeId n' = nodeId (enode ?e)"
    by (auto simp: CopyAttributeIntoNode_def Let_def a checked_class_write_def demo_variable_def checked_scalar_def
        store_byte_def)
  from edit_node[where callback = "CopyAttributeIntoNode (store_lookup st) (subtype_in 1 (store_lookup st)) 0 ?wv", OF st this]
  obtain st' where w: "UA_Server_write 1048573 1 0 ?wv st = Done (GOOD, st')" by (auto simp: UA_Server_write_def)
  have "attribute_written st 0 (enode ?e) ?wv GOOD st'"
    using attribute_write_read[OF st(1), of ?wv "enode ?e" 1 0 GOOD st'] st(2) w by simp
  then have "\<forall>now ts. \<exists>v. Service_Read_single (store_lookup st') now ts (whole (demo_nid 5) 17) UA_DataValue_init = Done v \<and>
      dvValue v = VVarScalar UA_TYPES_BYTE (VB 3)"
    unfolding attribute_written_def by (simp add: a as_stored_def reads_as_written_def Let_def) blast
  with w show ?thesis by blast
qed

section \<open>Access rights\<close>

lemma bind_assoc: "bind (bind m f) g = bind m (\<lambda>x. bind (f x) g)"
  by (cases m) simp_all

definition with_rights :: "byte \<Rightarrow> byte \<Rightarrow> u32 \<Rightarrow> u32 \<Rightarrow> unode \<Rightarrow> unode" where
  "with_rights al ual wm uwm =
     edit (\<lambda>c. c\<lparr>accessLevel := al, userAccessLevel := ual, writeMask := wm, userWriteMask := uwm\<rparr>)"

lemma bind_if: "bind (if b then m else m') f = (if b then bind m f else bind m' f)"
  by simp

lemma store_value_rights:
  "bind (case src of
       SourceData old onRead \<Rightarrow> bind (X old) (\<lambda>(rv, new). Done (rv, edit (\<lambda>c. c\<lparr>valueSource := SourceData new onRead\<rparr>) n))
     | SourceExternal read write \<Rightarrow> Done (Y write, n)) (\<lambda>(rv, n'). Done (rv, with_rights al ual wm uwm n')) =
   (case src of
       SourceData old onRead \<Rightarrow>
         bind (X old) (\<lambda>(rv, new). Done (rv, with_rights al ual wm uwm (edit (\<lambda>c. c\<lparr>valueSource := SourceData new onRead\<rparr>) n)))
     | SourceExternal read write \<Rightarrow> Done (Y write, with_rights al ual wm uwm n))"
proof (cases src)
  case (SourceData old onRead)
  then show ?thesis by (cases "X old") auto
qed simp

text \<open>
  C30.  The access levels and write masks of a node have no effect on reading its value and on writing
  it: with any rights the same is read, and a write has the same result.
\<close>

theorem rights_ignored:
  "read_attribute (with_rights al ual wm uwm n) (Some UA_ATTRIBUTEID_VALUE) ts rng v =
     read_attribute n (Some UA_ATTRIBUTEID_VALUE) ts rng v \<and>
   writeValueAttribute inTree now (with_rights al ual wm uwm n) dv rng =
     bind (writeValueAttribute inTree now n dv rng) (\<lambda>(rv, n'). Done (rv, with_rights al ual wm uwm n'))"
proof
  show "read_attribute (with_rights al ual wm uwm n) (Some UA_ATTRIBUTEID_VALUE) ts rng v =
     read_attribute n (Some UA_ATTRIBUTEID_VALUE) ts rng v"
    by (simp add: reads read_value_edit with_rights_def)
  show "writeValueAttribute inTree now (with_rights al ual wm uwm n) dv rng =
     bind (writeValueAttribute inTree now n dv rng) (\<lambda>(rv, n'). Done (rv, with_rights al ual wm uwm n'))"
  proof -
    obtain rv rangeptr where r: "requested_range rng = (rv, rangeptr)" by (cases "requested_range rng")
    have c: "edit (\<lambda>c. c\<lparr>valueSource := x\<rparr>) (with_rights al ual wm uwm n) =
        with_rights al ual wm uwm (edit (\<lambda>c. c\<lparr>valueSource := x\<rparr>) n)" for x
      by (simp add: with_rights_def edit_def)
    have f: "dataType (nodeContent (with_rights al ual wm uwm n)) = dataType (nodeContent n)"
        "valueRank (nodeContent (with_rights al ual wm uwm n)) = valueRank (nodeContent n)"
        "arrayDimensions (nodeContent (with_rights al ual wm uwm n)) = arrayDimensions (nodeContent n)"
        "valueSource (nodeContent (with_rights al ual wm uwm n)) = valueSource (nodeContent n)"
      by (simp_all add: with_rights_def)
    show ?thesis
    proof (cases "rv = GOOD")
      case True
      show ?thesis
        unfolding writeValueAttribute_def r prod.case Let_def f c True
        by (simp only: bind_assoc simp_thms if_False not_True_eq_False)
          (intro bind_cong refl, simp only: split_beta bind_if bind.simps fst_conv snd_conv store_value_rights c split: if_split)
    qed (simp add: writeValueAttribute_def r)
  qed
qed

section \<open>Ranges of values through the services\<close>

lemma requested_print:
  "rng \<noteq> [] \<Longrightarrow> \<forall>r\<in>set rng. rangeMin r \<le> rangeMax r \<Longrightarrow> requested_range (print_range rng) = (GOOD, Some rng)"
  by (cases rng rule: print_range.cases)
    (simp_all add: requested_range_def numeric_range_roundtrip print_dimension_nonempty del: print_range.simps,
     simp_all add: print_dimension_nonempty)

text \<open>
  C8.  Writing an array into a range of the value of a variable, with the range as text and a value of
  the data type of the variable: when the value in the variable is an array of at most two dimensions
  in which the range lies, the range has as many elements as were given and the status of the values
  agrees, the write is good; reading the range then gives the array written, and reading the whole
  value gives the old elements outside the range.
\<close>

theorem value_range_written:
  assumes "valueSource (nodeContent n) = SourceData old None" "hasValue old" "dvValue old = VVarArray i (Some vs) ds"
    and "type_at UA_TYPES i = Some d" "UA_NodeId_equal (typeId d) (dataType (nodeContent n))"
    and "length ds \<le> 2" "length vs < 2 ^ 32" "range_fits (length vs) ds rng" "rng \<noteq> []"
    and "hasValue dv" "dvValue dv = VVarArray i (Some array) es" "length array = prod_list (map extent rng)"
    and "status_field dv = status_field old"
  shows "\<exists>n' vs1 new. writeValueAttribute inTree now n dv (print_range rng) = Done (GOOD, n') \<and>
    readValueAttributeComplete n' ts (print_range rng) v =
      Done (GOOD, v\<lparr>dvValue := VVarArray i (Some array) (copied_dims ds rng)\<rparr>) \<and>
    readValueAttributeComplete n' ts [] v = Done (GOOD, new) \<and> dvValue new = VVarArray i (Some vs1) ds \<and>
    length vs1 = length vs \<and> (\<forall>p. p \<notin> set (range_elements rng (dims_of (length vs) ds)) \<longrightarrow> vs1 ! p = vs ! p)"
proof -
  have le: "\<forall>r\<in>set rng. rangeMin r \<le> rangeMax r"
    using assms(8) by (auto simp: range_fits_def range_inside_def list_all2_conv_all_nth in_set_conv_nth)
  note req = requested_print[OF assms(9) le]
  obtain vs1 where w: "UA_Variant_setRangeCopy (VVarArray i (Some vs) ds) array rng = Done (GOOD, VVarArray i (Some vs1) ds, 0)"
    "UA_Variant_copyRange (VVarArray i (Some vs1) ds) rng = Done (GOOD, Some (VVarArray i (Some array) (copied_dims ds rng)))"
    "length vs1 = length vs" "\<forall>p. p \<notin> set (range_elements rng (dims_of (length vs) ds)) \<longrightarrow> vs1 ! p = vs ! p"
    using range_write_read[OF assms(4,6,7), of rng array] assms(8,12) by auto
  define dv2 where "dv2 = (if sourceTimestamp dv = None then dv\<lparr>sourceTimestamp := Some now\<rparr> else dv)"
  have dv2: "hasValue dv2" "dvValue dv2 = VVarArray i (Some array) es" "status_field dv2 = status_field old"
    using assms(10,11,13) by (simp_all add: dv2_def status_field_def)
  define new where "new = old\<lparr>dvValue := VVarArray i (Some vs1) ds, dvStatus := dvStatus dv2,
      sourceTimestamp := sourceTimestamp dv2, sourcePicoseconds := sourcePicoseconds dv2\<rparr>"
  have wr: "writeValueAttributeWithRange old dv2 rng = Done (GOOD, new)"
    using dv2 assms(2,3) w(1) by (simp add: writeValueAttributeWithRange_def array_of_def new_def)
  let ?n = "edit (\<lambda>c. c\<lparr>valueSource := SourceData new None\<rparr>) n"
  have check: "typeCheckValue inTree (dataType (nodeContent n)) (valueRank (nodeContent n)) (arrayDimensions (nodeContent n))
      (dvValue dv) (Some rng \<noteq> None) True = Done (GOOD, None)"
    using assms(4,5,11) by (simp add: typeCheckValue_def check_array_def)
  have same: "dv\<lparr>dvValue := dvValue dv\<rparr> = dv" by simp
  have "writeValueAttribute inTree now n dv (print_range rng) = Done (GOOD, ?n)"
    unfolding writeValueAttribute_def req prod.case Let_def if_P[OF assms(10)] check bind.simps option.case same
      dv2_def[symmetric] assms(1) valueSource.case wr by simp
  moreover have "readValueAttributeComplete ?n ts (print_range rng) v =
      Done (GOOD, v\<lparr>dvValue := VVarArray i (Some array) (copied_dims ds rng)\<rparr>)"
    unfolding readValueAttributeComplete_def req
    using w(2) by (simp add: readValueAttributeFromNode_def new_def)
  moreover have "readValueAttributeComplete ?n ts [] v = Done (GOOD, new)"
    by (simp add: readValueAttributeComplete_def requested_range_def readValueAttributeFromNode_def)
  moreover have "dvValue new = VVarArray i (Some vs1) ds" by (simp add: new_def)
  ultimately show ?thesis using w(3,4) by blast
qed

theorem value_range_written_witness:
  "\<exists>n n' v. readValueAttributeComplete n UA_TIMESTAMPSTORETURN_NEITHER [] UA_DataValue_init = Done (GOOD, v) \<and>
     dvValue v = VVarArray UA_TYPES_BYTE (Some (map VB [0, 1, 2])) [] \<and>
     writeValueAttribute (\<lambda>_ _. Done False) 0 n (v\<lparr>dvValue := VVarArray UA_TYPES_BYTE (Some (map VB [7, 8])) []\<rparr>)
       (print_range [\<lparr> rangeMin = 1, rangeMax = 2 \<rparr>]) = Done (GOOD, n') \<and>
     readValueAttributeComplete n' UA_TIMESTAMPSTORETURN_NEITHER (print_range [\<lparr> rangeMin = 1, rangeMax = 2 \<rparr>]) UA_DataValue_init =
       Done (GOOD, UA_DataValue_init\<lparr>dvValue := VVarArray UA_TYPES_BYTE (Some (map VB [7, 8])) []\<rparr>)"
proof -
  let ?r = "[\<lparr> rangeMin = 1, rangeMax = 2 \<rparr>] :: numericRange"
  let ?v = "UA_DataValue_init\<lparr>hasValue := True, dvValue := VVarArray UA_TYPES_BYTE (Some (map VB [0, 1, 2])) []\<rparr>"
  let ?w = "?v\<lparr>dvValue := VVarArray UA_TYPES_BYTE (Some (map VB [7, 8])) []\<rparr>"
  let ?n = "enode (demo_variable (SourceData ?v None) (UA_NODEID_NUMERIC 0 3))"
  have src: "valueSource (nodeContent ?n) = SourceData ?v None" by (simp add: demo_variable_def demo_attributes_def)
  have dt: "UA_NodeId_equal (typeId (entry 3 (Some KByte) 1 True 0 Byte_members)) (dataType (nodeContent ?n))"
    by (simp add: demo_variable_def demo_attributes_def entry_def UA_NODEID_NUMERIC_def UA_NodeId_equal_def)
  have l: "length (map VB [0, 1, 2]) = 3" by simp
  have d: "dims_of 3 [] = [3]" by (simp add: dims_of_def)
  have f: "range_fits (length (map VB [0, 1, 2])) [] ?r"
    unfolding range_fits_def l d by (simp add: range_inside_def word_le_nat_alt word_less_nat_alt)
  have e: "length (map VB [7, 8]) = prod_list (map extent ?r)" by (simp add: extent_def)
  obtain n' where n': "writeValueAttribute (\<lambda>_ _. Done False) 0 ?n ?w (print_range ?r) = Done (GOOD, n')"
    "readValueAttributeComplete n' UA_TIMESTAMPSTORETURN_NEITHER (print_range ?r) UA_DataValue_init =
       Done (GOOD, UA_DataValue_init\<lparr>dvValue := VVarArray UA_TYPES_BYTE (Some (map VB [7, 8])) []\<rparr>)"
    using value_range_written[OF src _ _ range_types(1) dt _ _ f _ _ _ e, where dv = ?w and es = "[]"
        and inTree = "\<lambda>_ _. Done False" and now = 0 and ts = UA_TIMESTAMPSTORETURN_NEITHER and v = UA_DataValue_init]
    by (auto simp: status_field_def copied_dims_def)
  have "readValueAttributeComplete ?n UA_TIMESTAMPSTORETURN_NEITHER [] UA_DataValue_init = Done (GOOD, ?v)"
    unfolding readValueAttributeComplete_def src by (simp add: requested_range_def readValueAttributeFromNode_def)
  with n' show ?thesis by (intro exI[of _ ?n] exI[of _ n'] exI[of _ ?v]) simp
qed

text \<open>
  The dimensions of an array are counted as one where a variable has a value rank and no array
  dimensions: an array of two or more dimensions passes for one, and with a rank above one no array
  can be written at all.
\<close>

lemma dimensions_counted_once:
  "check_array rank [] (VVarArray i (Some a) ds) False = GOOD \<longleftrightarrow> sint rank \<in> {-3, -2, 0, 1}"
  by (auto simp: check_array_def Let_def compatibleValueRankValue_def compatibleValueRankArrayDimensions_def)

text \<open>An empty variant passes the check for every data type, where a comment asks for the base data type.\<close>

lemma empty_variant_accepted:
  "typeCheckValue inTree dt rank [] VVarEmpty r b = Done (GOOD, None)"
  by (simp add: typeCheckValue_def check_array_def compatibleValueRankValue_def Let_def)

text \<open>Reading for local users returns a flag where the status of the failure should be.\<close>

lemma read_failure_status:
  assumes "get i = Done None"
  shows "UA_Server_read_attribute get now i a = Done (1, None)"
  using assms by (simp add: UA_Server_read_attribute_def UA_Server_read_def Service_Read_single_def ubytes_def Let_def)

end
