(* ===== verification/View.thy ===== *)
theory View
  imports AttributeService
begin

unbundle bit_operations_syntax

text \<open>
  The view services (section \<open>ua_services_view.c\<close> of \<open>open62541.c\<close>): browsing the references of a node in
  pages, with the continuation points of a session, and the translation of browse paths.

  Of a session, the list of continuation points and the number of those still available are the state;
  a pointer to a continuation point is its position in the list.  Memory is granted, but for the
  entry of a new continuation point, whose \<open>malloc\<close> is the argument \<open>mem\<close>.
\<close>

section \<open>State\<close>

record browseDescription =
  bdNodeId :: nodeid
  browseDirection :: u32
  bdReferenceTypeId :: nodeid
  includeSubtypes :: bool
  nodeClassMask :: u32
  resultMask :: u32

record referenceDescription =
  rdReferenceTypeId :: nodeid
  isForward :: bool
  rdNodeId :: expandedNodeId
  rdBrowseName :: uval
  rdDisplayName :: uval
  rdNodeClass :: nodeClass
  typeDefinition :: expandedNodeId

record browseResult =
  brStatus :: status
  continuationPoint :: ustring
  brReferences :: "referenceDescription list"

record continuationPointEntry =
  cpIdentifier :: ustring
  cpDescription :: browseDescription
  continuationIndex :: u32
  maxReferences :: u32

record browseSession =
  continuationPoints :: "continuationPointEntry list"
  availableContinuationPoints :: u16

abbreviation UA_MAXCONTINUATIONPOINTS :: u16 where "UA_MAXCONTINUATIONPOINTS \<equiv> 5"

definition no_continuationPoints :: browseSession where
  "no_continuationPoints = \<lparr> continuationPoints = [], availableContinuationPoints = UA_MAXCONTINUATIONPOINTS \<rparr>"

abbreviation UA_BROWSEDIRECTION_FORWARD :: u32 where "UA_BROWSEDIRECTION_FORWARD \<equiv> 0"
abbreviation UA_BROWSEDIRECTION_INVERSE :: u32 where "UA_BROWSEDIRECTION_INVERSE \<equiv> 1"
abbreviation UA_BROWSEDIRECTION_BOTH :: u32 where "UA_BROWSEDIRECTION_BOTH \<equiv> 2"

abbreviation BADBROWSEDIRECTIONINVALID :: status where "BADBROWSEDIRECTIONINVALID \<equiv> 0x804d0000"
abbreviation BADREFERENCETYPEIDINVALID :: status where "BADREFERENCETYPEIDINVALID \<equiv> 0x804c0000"
abbreviation BADCONTINUATIONPOINTINVALID :: status where "BADCONTINUATIONPOINTINVALID \<equiv> 0x804a0000"
abbreviation BADNOCONTINUATIONPOINTS :: status where "BADNOCONTINUATIONPOINTS \<equiv> 0x804b0000"
abbreviation BADVIEWIDUNKNOWN :: status where "BADVIEWIDUNKNOWN \<equiv> 0x806b0000"
abbreviation BADBROWSENAMEINVALID :: status where "BADBROWSENAMEINVALID \<equiv> 0x80600000"
abbreviation BADNOMATCH :: status where "BADNOMATCH \<equiv> 0x806f0000"

section \<open>Describing a reference\<close>

definition local_id :: "nodeid \<Rightarrow> expandedNodeId" where
  "local_id i = \<lparr> enodeId = i, namespaceUri = None, serverIndex = 0 \<rparr>"

definition UA_ReferenceDescription_init :: referenceDescription where
  "UA_ReferenceDescription_init = \<lparr> rdReferenceTypeId = UA_NODEID_NULL, isForward = False,
     rdNodeId = local_id UA_NODEID_NULL, rdBrowseName = VStruct [V16 0, VStr None], rdDisplayName = VLoc None None,
     rdNodeClass = UA_NODECLASS_UNSPECIFIED, typeDefinition = local_id UA_NODEID_NULL \<rparr>"

text \<open>The target of the first reference whose type has the number of \<open>HasTypeDefinition\<close>.\<close>

fun first_typeDefinition :: "reference list \<Rightarrow> expandedNodeId option outcome" where
  "first_typeDefinition [] = Done None"
| "first_typeDefinition (r # rs) =
     bind (identifier_numeric (referenceTypeId r)) (\<lambda>n.
       if n = UA_NS0ID_HASTYPEDEFINITION then Done (Some (targetId r)) else first_typeDefinition rs)"

definition fillReferenceDescription :: "unode \<Rightarrow> reference \<Rightarrow> u32 \<Rightarrow> referenceDescription outcome" where
  "fillReferenceDescription cur ref rmask =
     (let wants = (\<lambda>b. rmask AND b \<noteq> 0);
          d0 = UA_ReferenceDescription_init\<lparr>rdNodeId := local_id (nodeId cur)\<rparr>;
          d1 = (if wants 1 then d0\<lparr>rdReferenceTypeId := referenceTypeId ref\<rparr> else d0);
          d2 = (if wants 2 then d1\<lparr>isForward := \<not> isInverse ref\<rparr> else d1);
          d3 = (if wants 4 then d2\<lparr>rdNodeClass := nodeClass cur\<rparr> else d2);
          d4 = (if wants 8 then d3\<lparr>rdBrowseName := browseName (nodeContent cur)\<rparr> else d3);
          d5 = (if wants 16 then d4\<lparr>rdDisplayName := displayName (nodeContent cur)\<rparr> else d4)
      in if wants 32 \<and> nodeClass cur \<in> {UA_NODECLASS_OBJECT, UA_NODECLASS_VARIABLE}
         then bind (first_typeDefinition (refs_of cur)) (\<lambda>t. case t of
                None \<Rightarrow> Done d5
              | Some t \<Rightarrow> Done (d5\<lparr>typeDefinition := t\<rparr>))
         else Done d5)"

text \<open>The node of a reference that the description asks for, or none.\<close>

definition returnRelevantNode ::
  "(nodeid \<Rightarrow> unode option outcome) \<Rightarrow> browseDescription \<Rightarrow> bool \<Rightarrow> nodeid list \<Rightarrow> reference \<Rightarrow> unode option outcome" where
  "returnRelevantNode get descr return_all relevant_types ref =
     (if isInverse ref \<and> browseDirection descr = UA_BROWSEDIRECTION_FORWARD then Done None
      else if \<not> isInverse ref \<and> browseDirection descr = UA_BROWSEDIRECTION_INVERSE then Done None
      else if \<not> return_all \<and> \<not> list_ex (UA_NodeId_equal (referenceTypeId ref)) relevant_types then Done None
      else bind (get (target ref)) (\<lambda>node. case node of
          None \<Rightarrow> Done None
        | Some n \<Rightarrow>
            if nodeClassMask descr \<noteq> 0 \<and> class_code (nodeClass n) AND nodeClassMask descr = 0 then Done None
            else Done (Some n)))"

section \<open>Browsing\<close>

definition removeCp :: "nat \<Rightarrow> browseSession \<Rightarrow> browseSession" where
  "removeCp k s = s\<lparr>continuationPoints := take k (continuationPoints s) @ drop (Suc k) (continuationPoints s),
     availableContinuationPoints := availableContinuationPoints s + 1\<rparr>"

text \<open>The loop over the references: where it stops, and the descriptions.\<close>

fun browse_references ::
  "(reference \<Rightarrow> unode option outcome) \<Rightarrow> (unode \<Rightarrow> reference \<Rightarrow> referenceDescription outcome) \<Rightarrow> nat \<Rightarrow> nat \<Rightarrow>
   reference list \<Rightarrow> nat \<Rightarrow> nat \<Rightarrow> referenceDescription list \<Rightarrow> (nat \<times> referenceDescription list) outcome" where
  "browse_references node_of fill real_maxrefs index0 [] idx skipped ds = Done (idx, ds)"
| "browse_references node_of fill real_maxrefs index0 (r # rs) idx skipped ds =
     (if real_maxrefs \<le> length ds then Done (idx, ds)
      else bind (node_of r) (\<lambda>current. case current of
          None \<Rightarrow> browse_references node_of fill real_maxrefs index0 rs (Suc idx) skipped ds
        | Some n \<Rightarrow>
            if skipped < index0 then browse_references node_of fill real_maxrefs index0 rs (Suc idx) (Suc skipped) ds
            else bind (fill n r) (\<lambda>d. browse_references node_of fill real_maxrefs index0 rs (Suc idx) skipped (ds @ [d]))))"

text \<open>The reference types that the description asks for; none given means all.\<close>

definition relevant_types ::
  "nat \<Rightarrow> (nodeid \<Rightarrow> unode option outcome) \<Rightarrow> nodeid \<Rightarrow> bool \<Rightarrow> (status + nodeid list) outcome" where
  "relevant_types fuel get refType subtypes =
     bind (get refType) (\<lambda>rootRef. case rootRef of
         None \<Rightarrow> Done (Inl BADREFERENCETYPEIDINVALID)
       | Some n \<Rightarrow>
           if nodeClass n \<noteq> UA_NODECLASS_REFERENCETYPE then Done (Inl BADREFERENCETYPEIDINVALID)
           else if subtypes then bind (getTypeHierarchy fuel get n False) (\<lambda>ts. Done (Inr ts))
           else Done (Inr [refType]))"

definition failed :: "status \<Rightarrow> browseResult" where
  "failed e = \<lparr> brStatus = e, continuationPoint = None, brReferences = [] \<rparr>"

text \<open>The continuation points after the references were collected, and the identifier that is returned.\<close>

definition update_continuationPoints ::
  "bool \<Rightarrow> guid \<Rightarrow> nat option \<Rightarrow> browseDescription \<Rightarrow> u32 \<Rightarrow> bool \<Rightarrow> referenceDescription list \<Rightarrow> browseSession \<Rightarrow>
   browseResult \<times> browseSession \<times> bool" where
  "update_continuationPoints mem g cp descr maxrefs finished ds s =
     (let r = \<lparr> brStatus = GOOD, continuationPoint = None, brReferences = ds \<rparr>
      in case cp of
           Some k \<Rightarrow>
             if finished then (r, removeCp k s, False)
             else let e = continuationPoints s ! k
                  in (r\<lparr>continuationPoint := cpIdentifier e\<rparr>,
                      s\<lparr>continuationPoints := (continuationPoints s)
                          [k := e\<lparr>continuationIndex := continuationIndex e + of_nat (length ds)\<rparr>]\<rparr>, False)
         | None \<Rightarrow>
             if maxrefs \<noteq> 0 \<and> unat maxrefs \<le> length ds then
               if availableContinuationPoints s = 0 \<or> \<not> mem then (r\<lparr>brStatus := BADNOCONTINUATIONPOINTS\<rparr>, s, False)
               else (r\<lparr>continuationPoint := Some (guid_bytes g)\<rparr>,
                     s\<lparr>continuationPoints := \<lparr> cpIdentifier = Some (guid_bytes g), cpDescription = descr,
                          continuationIndex = of_nat (length ds), maxReferences = maxrefs \<rparr> # continuationPoints s,
                       availableContinuationPoints := availableContinuationPoints s - 1\<rparr>, True)
             else (r, s, False))"

text \<open>
  \<open>cp\<close> is the continuation point to go on from.  The generator \<open>rng\<close> is used when one is created.
  A node without references and all failures leave the continuation points as they are.
\<close>

definition Service_Browse_single ::
  "nat \<Rightarrow> (nodeid \<Rightarrow> unode option outcome) \<Rightarrow> bool \<Rightarrow> ('g \<Rightarrow> u32 \<times> 'g) \<Rightarrow> nat option \<Rightarrow> browseDescription \<Rightarrow> u32 \<Rightarrow>
   browseSession \<times> 'g \<Rightarrow> (browseResult \<times> browseSession \<times> 'g) outcome" where
  "Service_Browse_single fuel get mem rng cp descr0 maxrefs0 sg =
     (case sg of (s, g) \<Rightarrow>
       let (descr, maxrefs, index0) = (case cp of
             None \<Rightarrow> (descr0, maxrefs0, 0)
           | Some k \<Rightarrow> let e = continuationPoints s ! k in (cpDescription e, maxReferences e, continuationIndex e));
           all_refs = UA_NodeId_isNull (bdReferenceTypeId descr)
       in if browseDirection descr \<notin> {UA_BROWSEDIRECTION_BOTH, UA_BROWSEDIRECTION_FORWARD, UA_BROWSEDIRECTION_INVERSE}
          then Done (failed BADBROWSEDIRECTIONINVALID, s, g)
          else bind (if all_refs then Done (Inr []) else relevant_types fuel get (bdReferenceTypeId descr) (includeSubtypes descr))
            (\<lambda>types. case types of
               Inl e \<Rightarrow> Done (failed e, s, g)
             | Inr ts \<Rightarrow>
                 bind (get (bdNodeId descr)) (\<lambda>node. case node of
                   None \<Rightarrow> Done (failed BADNODEIDUNKNOWN, s, g)
                 | Some n \<Rightarrow>
                     if refs_of n = [] then Done (failed GOOD, s, g)
                     else
                       let size = length (refs_of n);
                           real_maxrefs = (if maxrefs = 0 \<or> size < unat maxrefs then size else unat maxrefs)
                       in bind (browse_references (returnRelevantNode get descr all_refs ts)
                              (\<lambda>n r. fillReferenceDescription n r (resultMask descr)) real_maxrefs (unat index0)
                              (refs_of n) 0 0 []) (\<lambda>(idx, ds).
                            case UA_Guid_random rng g of (gid, g2) \<Rightarrow>
                            case update_continuationPoints mem gid cp descr maxrefs (idx = size) ds s of (r, s', created) \<Rightarrow>
                              Done (r, s', if created then g2 else g)))))"

fun browse_nodes ::
  "(browseDescription \<Rightarrow> browseSession \<times> 'g \<Rightarrow> (browseResult \<times> browseSession \<times> 'g) outcome) \<Rightarrow>
   browseDescription list \<Rightarrow> browseSession \<times> 'g \<Rightarrow> (browseResult list \<times> browseSession \<times> 'g) outcome" where
  "browse_nodes single [] sg = Done ([], sg)"
| "browse_nodes single (d # ds) sg =
     bind (single d sg) (\<lambda>(r, sg1). bind (browse_nodes single ds sg1) (\<lambda>(rs, sg2). Done (r # rs, sg2)))"

definition Service_Browse ::
  "nat \<Rightarrow> (nodeid \<Rightarrow> unode option outcome) \<Rightarrow> bool \<Rightarrow> ('g \<Rightarrow> u32 \<times> 'g) \<Rightarrow> nodeid \<Rightarrow> browseDescription list \<Rightarrow> u32 \<Rightarrow>
   browseSession \<times> 'g \<Rightarrow> (status \<times> browseResult list \<times> browseSession \<times> 'g) outcome" where
  "Service_Browse fuel get mem rng viewId nodesToBrowse requestedMaxReferencesPerNode sg =
     (if \<not> UA_NodeId_isNull viewId then Done (BADVIEWIDUNKNOWN, [], sg)
      else if nodesToBrowse = [] then Done (BADNOTHINGTODO, [], sg)
      else bind (browse_nodes (\<lambda>d. Service_Browse_single fuel get mem rng None d requestedMaxReferencesPerNode) nodesToBrowse sg)
             (\<lambda>(rs, sg1). Done (GOOD, rs, sg1)))"

text \<open>\<open>UA_Server_browse\<close> browses for the admin session.\<close>

definition UA_Server_browse ::
  "nat \<Rightarrow> (nodeid \<Rightarrow> unode option outcome) \<Rightarrow> bool \<Rightarrow> ('g \<Rightarrow> u32 \<times> 'g) \<Rightarrow> u32 \<Rightarrow> browseDescription \<Rightarrow>
   browseSession \<times> 'g \<Rightarrow> (browseResult \<times> browseSession \<times> 'g) outcome" where
  "UA_Server_browse fuel get mem rng maxrefs descr = Service_Browse_single fuel get mem rng None descr maxrefs"

fun find_cp :: "ustring \<Rightarrow> continuationPointEntry list \<Rightarrow> nat option" where
  "find_cp i [] = None"
| "find_cp i (e # es) = (if UA_String_equal (cpIdentifier e) i then Some 0 else map_option Suc (find_cp i es))"

definition browseNext_single ::
  "nat \<Rightarrow> (nodeid \<Rightarrow> unode option outcome) \<Rightarrow> bool \<Rightarrow> ('g \<Rightarrow> u32 \<times> 'g) \<Rightarrow> bool \<Rightarrow> ustring \<Rightarrow>
   browseSession \<times> 'g \<Rightarrow> (browseResult \<times> browseSession \<times> 'g) outcome" where
  "browseNext_single fuel get mem rng releaseContinuationPoint i sg =
     (case find_cp i (continuationPoints (fst sg)) of
        None \<Rightarrow> Done (failed BADCONTINUATIONPOINTINVALID, sg)
      | Some k \<Rightarrow>
          if \<not> releaseContinuationPoint then
            Service_Browse_single fuel get mem rng (Some k) (cpDescription (continuationPoints (fst sg) ! k)) 0 sg
          else Done (failed GOOD, removeCp k (fst sg), snd sg))"

fun browse_next_points ::
  "(ustring \<Rightarrow> browseSession \<times> 'g \<Rightarrow> (browseResult \<times> browseSession \<times> 'g) outcome) \<Rightarrow>
   ustring list \<Rightarrow> browseSession \<times> 'g \<Rightarrow> (browseResult list \<times> browseSession \<times> 'g) outcome" where
  "browse_next_points single [] sg = Done ([], sg)"
| "browse_next_points single (i # is) sg =
     bind (single i sg) (\<lambda>(r, sg1). bind (browse_next_points single is sg1) (\<lambda>(rs, sg2). Done (r # rs, sg2)))"

definition Service_BrowseNext ::
  "nat \<Rightarrow> (nodeid \<Rightarrow> unode option outcome) \<Rightarrow> bool \<Rightarrow> ('g \<Rightarrow> u32 \<times> 'g) \<Rightarrow> bool \<Rightarrow> ustring list \<Rightarrow>
   browseSession \<times> 'g \<Rightarrow> (status \<times> browseResult list \<times> browseSession \<times> 'g) outcome" where
  "Service_BrowseNext fuel get mem rng release points sg =
     (if points = [] then Done (BADNOTHINGTODO, [], sg)
      else bind (browse_next_points (browseNext_single fuel get mem rng release) points sg)
             (\<lambda>(rs, sg1). Done (GOOD, rs, sg1)))"

section \<open>Translating browse paths\<close>

record relativePathElement =
  peReferenceTypeId :: nodeid
  peIsInverse :: bool
  peIncludeSubtypes :: bool
  targetNamespace :: u16
  targetName :: ustring

definition UA_QualifiedName_isNull :: "relativePathElement \<Rightarrow> bool" where
  "UA_QualifiedName_isNull e \<longleftrightarrow> targetNamespace e = 0 \<and> length (ubytes (targetName e)) = 0"

definition has_name :: "relativePathElement \<Rightarrow> unode \<Rightarrow> bool outcome" where
  "has_name e n = (case browseName (nodeContent n) of
       VStruct [V16 ns, VStr s] \<Rightarrow> Done (targetNamespace e = ns \<and> UA_String_equal (targetName e) s)
     | _ \<Rightarrow> Undefined)"

text \<open>Without subtypes the type of the references is not looked up.\<close>

definition element_types ::
  "nat \<Rightarrow> (nodeid \<Rightarrow> unode option outcome) \<Rightarrow> relativePathElement \<Rightarrow> (status + nodeid list) outcome" where
  "element_types fuel get e =
     (if UA_NodeId_isNull (peReferenceTypeId e) then Done (Inr [])
      else if \<not> peIncludeSubtypes e then Done (Inr [peReferenceTypeId e])
      else relevant_types fuel get (peReferenceTypeId e) True)"

text \<open>If no type is given, references of both directions match.\<close>

definition element_match :: "relativePathElement \<Rightarrow> nodeid list \<Rightarrow> reference \<Rightarrow> bool" where
  "element_match e ts r \<longleftrightarrow> UA_NodeId_isNull (peReferenceTypeId e) \<or>
     list_ex (\<lambda>t. isInverse r = peIsInverse e \<and> UA_NodeId_equal (referenceTypeId r) t) ts"

text \<open>
  The targets lie in an array of ten.  When it is full, \<open>realloc\<close> is called with the address of the
  pointer to it.
\<close>

definition targets_size :: nat where
  "targets_size = 10"

fun walk_references ::
  "(nodeid \<Rightarrow> unode option outcome) \<Rightarrow> (unode \<Rightarrow> nodeid list \<Rightarrow> (status \<times> nodeid list) outcome) \<Rightarrow>
   relativePathElement \<Rightarrow> nodeid list \<Rightarrow> reference list \<Rightarrow> nodeid list \<Rightarrow> (status \<times> nodeid list) outcome" where
  "walk_references get found e ts [] targets = Done (GOOD, targets)"
| "walk_references get found e ts (r # rs) targets =
     (if \<not> element_match e ts r then walk_references get found e ts rs targets
      else bind (get (target r)) (\<lambda>node. case node of
          None \<Rightarrow> walk_references get found e ts rs targets
        | Some n \<Rightarrow> bind (has_name e n) (\<lambda>named.
            if \<not> named then walk_references get found e ts rs targets
            else bind (found n targets) (\<lambda>(retval, targets1).
              if retval \<noteq> GOOD then Done (retval, targets1) else walk_references get found e ts rs targets1))))"

definition add_target :: "unode \<Rightarrow> nodeid list \<Rightarrow> (status \<times> nodeid list) outcome" where
  "add_target n targets = (if targets_size \<le> length targets then Undefined else Done (GOOD, targets @ [nodeId n]))"

fun walkBrowsePath ::
  "nat \<Rightarrow> (nodeid \<Rightarrow> unode option outcome) \<Rightarrow> relativePathElement list \<Rightarrow> unode \<Rightarrow> nodeid list \<Rightarrow> (status \<times> nodeid list) outcome" where
  "walkBrowsePath fuel get [] n targets = Undefined"
| "walkBrowsePath fuel get (e # es) n targets =
     bind (element_types fuel get e) (\<lambda>types. case types of
         Inl err \<Rightarrow> Done (err, targets)
       | Inr ts \<Rightarrow>
           walk_references get (if es = [] then add_target else walkBrowsePath fuel get es) e ts (refs_of n) targets)"

definition Service_TranslateBrowsePathsToNodeIds_single ::
  "nat \<Rightarrow> (nodeid \<Rightarrow> unode option outcome) \<Rightarrow> nodeid \<Rightarrow> relativePathElement list \<Rightarrow> (status \<times> nodeid list) outcome" where
  "Service_TranslateBrowsePathsToNodeIds_single fuel get startingNode elements =
     (if elements = [] then Done (BADNOTHINGTODO, [])
      else if list_ex UA_QualifiedName_isNull elements then Done (BADBROWSENAMEINVALID, [])
      else bind (get startingNode) (\<lambda>node. case node of
          None \<Rightarrow> Done (BADNODEIDUNKNOWN, [])
        | Some n \<Rightarrow> bind (walkBrowsePath fuel get elements n []) (\<lambda>(retval, targets).
            let rv = (if targets = [] \<and> retval = GOOD then BADNOMATCH else retval)
            in Done (rv, if rv \<noteq> GOOD then [] else targets))))"

fun translate_paths ::
  "nat \<Rightarrow> (nodeid \<Rightarrow> unode option outcome) \<Rightarrow> (nodeid \<times> relativePathElement list) list \<Rightarrow> (status \<times> nodeid list) list outcome" where
  "translate_paths fuel get [] = Done []"
| "translate_paths fuel get ((start, es) # ps) =
     bind (Service_TranslateBrowsePathsToNodeIds_single fuel get start es) (\<lambda>r.
     bind (translate_paths fuel get ps) (\<lambda>rs. Done (r # rs)))"

definition Service_TranslateBrowsePathsToNodeIds ::
  "nat \<Rightarrow> (nodeid \<Rightarrow> unode option outcome) \<Rightarrow> (nodeid \<times> relativePathElement list) list \<Rightarrow>
   (status \<times> (status \<times> nodeid list) list) outcome" where
  "Service_TranslateBrowsePathsToNodeIds fuel get browsePaths =
     (if browsePaths = [] then Done (BADNOTHINGTODO, [])
      else bind (translate_paths fuel get browsePaths) (\<lambda>rs. Done (GOOD, rs)))"

section \<open>Registering nodes\<close>

definition Service_RegisterNodes :: "nodeid list \<Rightarrow> status \<times> nodeid list" where
  "Service_RegisterNodes nodesToRegister =
     (if nodesToRegister = [] then (BADNOTHINGTODO, []) else (GOOD, nodesToRegister))"

definition Service_UnregisterNodes :: "nodeid list \<Rightarrow> status" where
  "Service_UnregisterNodes nodesToUnregister = (if nodesToUnregister = [] then BADNOTHINGTODO else GOOD)"

end
