(* ===== verification/ViewProps.thy ===== *)
theory ViewProps
  imports View AttributeProps
begin

unbundle bit_operations_syntax

text \<open>
  What a client gets by browsing: following the continuation points gives every matching reference
  once and in order, and the session is as before.  And where continuation points are lost.
\<close>

section \<open>The loop over the references\<close>

text \<open>The node of a reference that the description asks for, and all these references with their nodes.\<close>

definition wanted ::
  "(nodeid \<Rightarrow> unode option) \<Rightarrow> browseDescription \<Rightarrow> nodeid list \<Rightarrow> reference \<Rightarrow> unode option" where
  "wanted lookup d ts r =
     (if browseDirection d = (if isInverse r then UA_BROWSEDIRECTION_FORWARD else UA_BROWSEDIRECTION_INVERSE) then None
      else if \<not> UA_NodeId_isNull (bdReferenceTypeId d) \<and> \<not> list_ex (UA_NodeId_equal (referenceTypeId r)) ts then None
      else case lookup (target r) of
          None \<Rightarrow> None
        | Some n \<Rightarrow> if nodeClassMask d = 0 \<or> class_code (nodeClass n) AND nodeClassMask d \<noteq> 0 then Some n else None)"

fun found_refs :: "('r \<Rightarrow> 'n option) \<Rightarrow> 'r list \<Rightarrow> ('r \<times> 'n) list" where
  "found_refs found [] = []"
| "found_refs found (r # rs) = (case found r of None \<Rightarrow> found_refs found rs | Some n \<Rightarrow> (r, n) # found_refs found rs)"

definition matching ::
  "(nodeid \<Rightarrow> unode option) \<Rightarrow> browseDescription \<Rightarrow> nodeid list \<Rightarrow> reference list \<Rightarrow> (reference \<times> unode) list" where
  "matching lookup d ts = found_refs (wanted lookup d ts)"

lemma relevant_wanted:
  "get (target r) = Done (lookup (target r)) \<Longrightarrow>
   returnRelevantNode get d (UA_NodeId_isNull (bdReferenceTypeId d)) ts r = Done (wanted lookup d ts r)"
  by (auto simp: returnRelevantNode_def wanted_def split: option.splits)

lemma matching_length: "length (matching lookup d ts rs) \<le> length rs"
  by (induction rs) (simp_all add: matching_def split: option.splits)

text \<open>All references were seen only if nothing is left, and otherwise the page is full.\<close>

lemma browse_references_page:
  assumes "\<And>r. r \<in> set rs \<Longrightarrow> node_of r = Done (found r)"
    and "\<And>r n. r \<in> set rs \<Longrightarrow> found r = Some n \<Longrightarrow> fill n r = Done (fl r n)"
    and "length ds \<le> full"
  shows "\<exists>j\<le>length rs. browse_references node_of fill full index0 rs idx sk ds =
      Done (idx + j, ds @ map (\<lambda>(r, n). fl r n) (take (full - length ds) (drop (index0 - sk) (found_refs found rs)))) \<and>
    (if j = length rs then length (found_refs found rs) - (index0 - sk) \<le> full - length ds
     else full - length ds \<le> length (found_refs found rs) - (index0 - sk))"
  using assms
proof (induction rs arbitrary: idx sk ds)
  case Nil
  then show ?case by (simp)
next
  case (Cons r rs)
  have x: "node_of r = Done (found r)" using Cons.prems(1)[of r] by simp
  have ih: "\<exists>j\<le>length rs. browse_references node_of fill full index0 rs idx' sk' ds' =
      Done (idx' + j, ds' @ map (\<lambda>(r, n). fl r n) (take (full - length ds') (drop (index0 - sk') (found_refs found rs)))) \<and>
    (if j = length rs then length (found_refs found rs) - (index0 - sk') \<le> full - length ds'
     else full - length ds' \<le> length (found_refs found rs) - (index0 - sk'))" if "length ds' \<le> full" for idx' sk' ds'
    by (rule Cons.IH) (use Cons.prems(1,2) that in auto)
  show ?case
  proof (cases "full \<le> length ds")
    case True
    then show ?thesis using Cons.prems(3) by (intro exI[of _ 0]) simp
  next
    case room: False
    show ?thesis
    proof (cases "found r")
      case None
      from ih[OF Cons.prems(3), of "Suc idx" sk] obtain j where "j \<le> length rs"
        "browse_references node_of fill full index0 rs (Suc idx) sk ds =
          Done (Suc idx + j, ds @ map (\<lambda>(r, n). fl r n) (take (full - length ds) (drop (index0 - sk) (found_refs found rs))))"
        "if j = length rs then length (found_refs found rs) - (index0 - sk) \<le> full - length ds
         else full - length ds \<le> length (found_refs found rs) - (index0 - sk)" by blast
      then show ?thesis using x None room by (intro exI[of _ "Suc j"]) (simp)
    next
      case (Some n)
      show ?thesis
      proof (cases "sk < index0")
        case True
        from ih[OF Cons.prems(3), of "Suc idx" "Suc sk"] obtain j where "j \<le> length rs"
          "browse_references node_of fill full index0 rs (Suc idx) (Suc sk) ds =
            Done (Suc idx + j, ds @ map (\<lambda>(r, n). fl r n) (take (full - length ds) (drop (index0 - Suc sk) (found_refs found rs))))"
          "if j = length rs then length (found_refs found rs) - (index0 - Suc sk) \<le> full - length ds
           else full - length ds \<le> length (found_refs found rs) - (index0 - Suc sk)" by blast
        moreover have "index0 - sk = Suc (index0 - Suc sk)" using True by simp
        ultimately show ?thesis using x Some room True by (intro exI[of _ "Suc j"]) (simp split: if_splits; arith)
      next
        case False
        have len: "length (ds @ [fl r n]) \<le> full" using room by simp
        from ih[OF len, of "Suc idx" sk] obtain j where "j \<le> length rs"
          "browse_references node_of fill full index0 rs (Suc idx) sk (ds @ [fl r n]) =
            Done (Suc idx + j, (ds @ [fl r n]) @ map (\<lambda>(r, n). fl r n) (take (full - Suc (length ds)) (drop (index0 - sk) (found_refs found rs))))"
          "if j = length rs then length (found_refs found rs) - (index0 - sk) \<le> full - Suc (length ds)
           else full - Suc (length ds) \<le> length (found_refs found rs) - (index0 - sk)" unfolding length_append_singleton by blast
        moreover have "full - length ds = Suc (full - Suc (length ds))" using room by simp
        moreover have "index0 - sk = 0" using False by simp
        moreover have "fill n r = Done (fl r n)" using Cons.prems(2)[of r n] Some by simp
        ultimately show ?thesis using x Some room False by (intro exI[of _ "Suc j"]) (simp split: if_splits)
      qed
    qed
  qed
qed


lemma in_found: "r \<in> set rs \<Longrightarrow> found r = Some n \<Longrightarrow> (r, n) \<in> set (found_refs found rs)"
  by (induction rs) (auto split: option.splits)

section \<open>One page\<close>

text \<open>
  The description is in order, \<open>ts\<close> are the types it asks for, its node is \<open>n\<close>, and \<open>ds\<close> describes the
  matching references.
\<close>

definition browsable ::
  "nat \<Rightarrow> attributes nodeStore \<Rightarrow> browseDescription \<Rightarrow> nodeid list \<Rightarrow> unode \<Rightarrow> referenceDescription list \<Rightarrow> bool" where
  "browsable fuel st d ts n ds \<longleftrightarrow>
     searchable st \<and> browseDirection d \<in> {UA_BROWSEDIRECTION_BOTH, UA_BROWSEDIRECTION_FORWARD, UA_BROWSEDIRECTION_INVERSE} \<and>
     (if UA_NodeId_isNull (bdReferenceTypeId d) then ts = []
      else relevant_types fuel (store_lookup st) (bdReferenceTypeId d) (includeSubtypes d) = Done (Inr ts)) \<and>
     store_map st (bdNodeId d) = Some n \<and> length (refs_of n) < 2 ^ 32 \<and>
     map (\<lambda>(r, m). fillReferenceDescription m r (resultMask d)) (matching (store_map st) d ts (refs_of n)) = map Done ds"

definition page_size :: "unode \<Rightarrow> u32 \<Rightarrow> nat" where
  "page_size n m = (if m = 0 \<or> length (refs_of n) < unat m then length (refs_of n) else unat m)"

lemma browse_page:
  assumes "browsable fuel st d ts n ds" "refs_of n \<noteq> []"
    and "case cp of None \<Rightarrow> d0 = d \<and> m0 = m \<and> c = 0
      | Some k \<Rightarrow> continuationPoints s ! k = \<lparr> cpIdentifier = i, cpDescription = d, continuationIndex = of_nat c, maxReferences = m \<rparr>"
    and "c < 2 ^ 32"
  obtains fin gid g2 where
    "Service_Browse_single fuel (store_lookup st) mem rng cp d0 m0 (s, g) =
       Done (case update_continuationPoints mem gid cp d m fin (take (page_size n m) (drop c ds)) s of
         (r, s', created) \<Rightarrow> (r, s', if created then g2 else g))"
    "if fin then length ds - c \<le> page_size n m else page_size n m \<le> length ds - c"
proof -
  let ?fill = "\<lambda>m r. fillReferenceDescription m r (resultMask d)" and ?refs = "refs_of n"
  define fl where "fl r m = (case ?fill m r of Done x \<Rightarrow> x | _ \<Rightarrow> UA_ReferenceDescription_init)" for r m
  let ?M = "matching (store_map st) d ts ?refs"
  have st: "store_lookup st x = Done (store_map st x)" for x
    by (rule store.get_lookup) (use assms(1) in \<open>simp add: browsable_def\<close>)
  have fills: "map (\<lambda>(r, m). ?fill m r) ?M = map Done ds" using assms(1) by (simp add: browsable_def)
  have fl: "?fill m r = Done (fl r m)" if "(r, m) \<in> set ?M" for r m
  proof -
    have "?fill m r \<in> set (map Done ds)" unfolding fills[symmetric] using that by force
    then show ?thesis by (auto simp: fl_def)
  qed
  have "map Done (map (\<lambda>(r, m). fl r m) ?M) = map Done ds"
    unfolding fills[symmetric] using fl by auto
  then have ds: "ds = map (\<lambda>(r, m). fl r m) ?M" by (metis list.inj_map_strong outcome.inject)
  obtain j where j: "j \<le> length ?refs"
    "browse_references (returnRelevantNode (store_lookup st) d (UA_NodeId_isNull (bdReferenceTypeId d)) ts) ?fill
        (page_size n m) c ?refs 0 0 [] = Done (j, take (page_size n m) (drop c ds))"
    "if j = length ?refs then length ds - c \<le> page_size n m else page_size n m \<le> length ds - c"
    using browse_references_page[of ?refs "returnRelevantNode (store_lookup st) d (UA_NodeId_isNull (bdReferenceTypeId d)) ts"
        "wanted (store_map st) d ts" ?fill fl "[]" "page_size n m" c 0 0]
      relevant_wanted[where get = "store_lookup st" and lookup = "store_map st", OF st] fl in_found[of _ ?refs "wanted (store_map st) d ts"]
    unfolding matching_def[symmetric] by (auto simp: ds drop_map take_map split: if_splits)
  obtain gid g2 where g: "UA_Guid_random rng g = (gid, g2)" by force
  have c: "unat (of_nat c :: u32) = c" using assms(4) by (simp add: unat_of_nat)
  show thesis
    by (rule that[where fin = "j = length ?refs" and gid = gid and ?g2.0 = g2])
      (use assms(1,2,3) st j c g in \<open>auto simp: Service_Browse_single_def browsable_def page_size_def
        split: option.splits if_splits prod.splits\<close>)
qed

section \<open>All pages\<close>

text \<open>A client that goes on as long as it is given a continuation point.\<close>

fun browse_rest ::
  "nat \<Rightarrow> (ustring \<Rightarrow> 'x \<Rightarrow> (browseResult \<times> 'x) outcome) \<Rightarrow> ustring \<Rightarrow> 'x \<Rightarrow> (browseResult list \<times> 'x) outcome" where
  "browse_rest 0 browseNext p x = (if p = None then Done ([], x) else OutOfFuel)"
| "browse_rest (Suc k) browseNext p x =
     (if p = None then Done ([], x)
      else bind (browseNext p x) (\<lambda>(r, x1).
           bind (browse_rest k browseNext (continuationPoint r) x1) (\<lambda>(rs, x2). Done (r # rs, x2))))"

definition browse_all ::
  "nat \<Rightarrow> ('x \<Rightarrow> (browseResult \<times> 'x) outcome) \<Rightarrow> (ustring \<Rightarrow> 'x \<Rightarrow> (browseResult \<times> 'x) outcome) \<Rightarrow> 'x \<Rightarrow>
   (browseResult list \<times> 'x) outcome" where
  "browse_all k browse browseNext x =
     bind (browse x) (\<lambda>(r, x1).
     bind (browse_rest k browseNext (continuationPoint r) x1) (\<lambda>(rs, x2). Done (r # rs, x2)))"

lemma page_size_bounds: "m \<noteq> 0 \<Longrightarrow> page_size n m \<le> unat m"
  "refs_of n \<noteq> [] \<Longrightarrow> 0 < page_size n m"
  by (auto simp: page_size_def unat_gt_0 word_neq_0_conv)

lemma browse_rest_complete:
  assumes b: "browsable fuel st d ts n ds" "refs_of n \<noteq> []" "m \<noteq> 0"
  shows "c \<le> length ds \<Longrightarrow> length ds - c < k \<Longrightarrow>
    \<exists>pages g'. browse_rest k (browseNext_single fuel (store_lookup st) mem rng False) (Some i)
      (\<lparr> continuationPoints = \<lparr> cpIdentifier = Some i, cpDescription = d, continuationIndex = of_nat c, maxReferences = m \<rparr> # es,
         availableContinuationPoints = a \<rparr>, g) =
      Done (pages, \<lparr> continuationPoints = es, availableContinuationPoints = a + 1 \<rparr>, g') \<and>
    concat (map brReferences pages) = drop c ds \<and>
    (\<forall>p\<in>set pages. brStatus p = GOOD \<and> length (brReferences p) \<le> unat m)"
proof (induction k arbitrary: c g)
  case 0
  then show ?case by simp
next
  case (Suc k)
  let ?e = "\<lambda>c. \<lparr> cpIdentifier = Some i, cpDescription = d, continuationIndex = of_nat c, maxReferences = m \<rparr>"
  let ?s = "\<lambda>c. \<lparr> continuationPoints = ?e c # es, availableContinuationPoints = a \<rparr>"
  let ?full = "page_size n m"
  have size: "length ds < 2 ^ 32"
  proof -
    have "length ds = length (matching (store_map st) d ts (refs_of n))"
      using b(1) by (metis browsable_def length_map)
    then show ?thesis using b(1) matching_length[of "store_map st" d ts "refs_of n"] by (simp add: browsable_def)
  qed
  obtain fin gid g2 where page:
    "Service_Browse_single fuel (store_lookup st) mem rng (Some 0) d 0 (?s c, g) =
       Done (case update_continuationPoints mem gid (Some 0) d m fin (take ?full (drop c ds)) (?s c) of
         (r, s', created) \<Rightarrow> (r, s', if created then g2 else g))"
    "if fin then length ds - c \<le> ?full else ?full \<le> length ds - c"
    by (rule browse_page[OF b(1,2), where cp = "Some 0" and s = "?s c" and m = m and c = c and i = "Some i" and ?d0.0 = d
          and ?m0.0 = 0 and mem = mem and rng = rng and g = g])
      (use size Suc.prems(1) in auto)
  have next_is: "browseNext_single fuel (store_lookup st) mem rng False (Some i) (?s c, g) =
      Service_Browse_single fuel (store_lookup st) mem rng (Some 0) d 0 (?s c, g)"
    by (simp add: browseNext_single_def UA_String_equal_bytes)
  note bounds = page_size_bounds(1)[OF b(3), of n] page_size_bounds(2)[OF b(2), of m]
  show ?case
  proof (cases fin)
    case True
    then have "take ?full (drop c ds) = drop c ds" using page(2) by simp
    moreover have "length (drop c ds) \<le> unat m" using page(2) True bounds(1) by simp
    ultimately show ?thesis using page(1) True next_is
      by (cases k) (auto simp: update_continuationPoints_def removeCp_def)
  next
    case False
    then have room: "?full \<le> length ds - c" using page(2) by simp
    have "c + ?full \<le> length ds" "length ds - (c + ?full) < k" using room bounds(2) Suc.prems by auto
    from Suc.IH[OF this, of g] obtain pages g' where ih:
      "browse_rest k (browseNext_single fuel (store_lookup st) mem rng False) (Some i) (?s (c + ?full), g) =
        Done (pages, \<lparr> continuationPoints = es, availableContinuationPoints = a + 1 \<rparr>, g')"
      "concat (map brReferences pages) = drop (c + ?full) ds"
      "\<forall>p\<in>set pages. brStatus p = GOOD \<and> length (brReferences p) \<le> unat m" by blast
    have "length (take ?full (drop c ds)) = ?full" using room by simp
    moreover have "take ?full (drop c ds) @ drop (c + ?full) ds = drop c ds"
      by (metis append_take_drop_id drop_drop add.commute)
    ultimately show ?thesis
      using page(1) False next_is ih bounds(1) by (auto simp: update_continuationPoints_def)
  qed
qed

text \<open>
  C9. Following the continuation points, a client gets the descriptions of all references that match
  its request, each once and in the order of the references, in pages of at most the number that it asked
  for, all with status \<open>GOOD\<close>; then the continuation points of the session are as before.
\<close>

theorem browse_complete:
  assumes "browsable fuel st d ts n ds" "m \<noteq> 0" "availableContinuationPoints s \<noteq> 0" "length ds < rounds"
  shows "\<exists>pages g'. browse_all rounds (Service_Browse_single fuel (store_lookup st) True rng None d m)
      (browseNext_single fuel (store_lookup st) mem rng False) (s, g) = Done (pages, s, g') \<and>
    concat (map brReferences pages) = ds \<and> (\<forall>p\<in>set pages. brStatus p = GOOD \<and> length (brReferences p) \<le> unat m)"
proof (cases "refs_of n = []")
  case True
  then have "ds = []" using assms(1) by (simp add: browsable_def matching_def)
  then show ?thesis using assms(1) True store.get_lookup[of st]
    by (cases rounds) (auto simp: browse_all_def Service_Browse_single_def browsable_def failed_def split: if_splits)
next
  case False
  obtain cps a where s: "s = \<lparr> continuationPoints = cps, availableContinuationPoints = a \<rparr>" by (cases s)
  let ?full = "page_size n m"
  obtain fin gid g2 where page:
    "Service_Browse_single fuel (store_lookup st) True rng None d m (s, g) =
       Done (case update_continuationPoints True gid None d m fin (take ?full (drop 0 ds)) s of
         (r, s', created) \<Rightarrow> (r, s', if created then g2 else g))"
    "if fin then length ds - 0 \<le> ?full else ?full \<le> length ds - 0"
    by (rule browse_page[OF assms(1) False, where cp = None and s = s and m = m and c = 0 and ?d0.0 = d
          and ?m0.0 = m and mem = True and rng = rng and g = g]) auto
  have len: "length ds \<le> length (refs_of n)"
    using assms(1) matching_length[of "store_map st" d ts "refs_of n"] by (metis browsable_def length_map)
  show ?thesis
  proof (cases "unat m \<le> length (take ?full ds)")
    case True
    then have full: "?full = unat m" using page_size_bounds(1)[OF assms(2), of n] by simp
    then have c: "unat m \<le> length ds" "length ds - unat m < rounds" using True assms(4) by simp_all
    from browse_rest_complete[OF assms(1) False assms(2) c, of mem rng "guid_bytes gid" cps "a - 1" g2]
    obtain pages g' where rest: "browse_rest rounds (browseNext_single fuel (store_lookup st) mem rng False) (Some (guid_bytes gid))
        (\<lparr> continuationPoints = \<lparr> cpIdentifier = Some (guid_bytes gid), cpDescription = d,
            continuationIndex = of_nat (unat m), maxReferences = m \<rparr> # cps, availableContinuationPoints = a - 1 \<rparr>, g2) =
        Done (pages, s, g')"
      "concat (map brReferences pages) = drop (unat m) ds"
      "\<forall>p\<in>set pages. brStatus p = GOOD \<and> length (brReferences p) \<le> unat m" unfolding s by auto
    have "length (take (unat m) ds) = unat m" using c(1) by simp
    then show ?thesis using page(1) rest full assms(2,3) s
      by (auto simp: browse_all_def update_continuationPoints_def)
  next
    case few: False
    have "take ?full ds = ds" using few len by (simp add: page_size_def split: if_splits)
    then show ?thesis using page(1) few assms(2)
      by (cases rounds) (auto simp: browse_all_def update_continuationPoints_def)
  qed
qed

text \<open>A folder with three references to itself, and its references in pages of two.\<close>

definition organizes :: "nodeid \<Rightarrow> reference" where
  "organizes i = \<lparr> referenceTypeId = UA_NODEID_NUMERIC 0 35, isInverse = False, targetId = local_id i \<rparr>"

definition demo_folder :: "attributes nodeEntry" where
  "demo_folder = \<lparr> orig = None, enode = \<lparr> nodeId = demo_nid 5, nodeClass = UA_NODECLASS_OBJECT,
     nodeContent = (demo_attributes (SourceData UA_DataValue_init None) UA_NODEID_NULL)
       \<lparr>references := replicate 3 (organizes (demo_nid 5)), browseName := VStruct [V16 1, VStr (Some (str ''box''))]\<rparr> \<rparr> \<rparr>"

lemma folder_facts [simp]:
  "nodeId (enode demo_folder) = demo_nid 5" "refs_of (enode demo_folder) = replicate 3 (organizes (demo_nid 5))"
  "target (organizes i) = i" "\<not> isInverse (organizes i)" "referenceTypeId (organizes i) = UA_NODEID_NUMERIC 0 35"
  by (simp_all add: demo_folder_def organizes_def local_id_def)

lemma folder_store:
  obtains st where "searchable st"
    "store_map st = (\<lambda>x. if UA_NodeId_equal (demo_nid 5) x then Some (enode demo_folder) else None)"
  using single_store[of demo_folder] by auto

definition demo_browse :: browseDescription where
  "demo_browse = \<lparr> bdNodeId = demo_nid 5, browseDirection = UA_BROWSEDIRECTION_FORWARD, bdReferenceTypeId = UA_NODEID_NULL,
     includeSubtypes = True, nodeClassMask = 0, resultMask = 1 \<rparr>"

definition demo_description :: referenceDescription where
  "demo_description = UA_ReferenceDescription_init\<lparr>rdNodeId := local_id (demo_nid 5),
     rdReferenceTypeId := UA_NODEID_NUMERIC 0 35\<rparr>"

theorem browse_complete_witness:
  "\<exists>st rng pages g'. browse_all 4 (Service_Browse_single 0 (store_lookup st) True rng None demo_browse 2)
      (browseNext_single 0 (store_lookup st) True rng False) (no_continuationPoints, ()) = Done (pages, no_continuationPoints, g') \<and>
    concat (map brReferences pages) = replicate 3 demo_description"
proof -
  obtain st where st: "searchable st"
    "store_map st = (\<lambda>x. if UA_NodeId_equal (demo_nid 5) x then Some (enode demo_folder) else None)"
    by (rule folder_store)
  have "browsable 0 st demo_browse [] (enode demo_folder) (replicate 3 demo_description)"
    unfolding browsable_def using st
    by (simp add: demo_browse_def UA_NodeId_isNull_def UA_NODEID_NULL_def matching_def wanted_def numeral_3_eq_3
        fillReferenceDescription_def demo_description_def)
  from browse_complete[OF this, of 2 no_continuationPoints 4 "\<lambda>x. (0, x)" True "()"]
  show ?thesis by (auto simp: no_continuationPoints_def)
qed

section \<open>Lost continuation points\<close>

text \<open>
  A continuation point stays when its node is gone, or has no references any more: the client is given no
  identifier to release it with.
\<close>

lemma continuation_point_stays:
  assumes "searchable st" "find_cp i (continuationPoints s) = Some k"
    and "e = continuationPoints s ! k" "d = cpDescription e"
    and "browseDirection d = UA_BROWSEDIRECTION_BOTH" "UA_NodeId_isNull (bdReferenceTypeId d)"
  shows "store_map st (bdNodeId d) = None \<Longrightarrow>
      browseNext_single fuel (store_lookup st) mem rng False i (s, g) = Done (failed BADNODEIDUNKNOWN, s, g)"
    and "store_map st (bdNodeId d) = Some n \<Longrightarrow> refs_of n = [] \<Longrightarrow>
      browseNext_single fuel (store_lookup st) mem rng False i (s, g) = Done (failed GOOD, s, g)"
  using assms store.get_lookup[of st] by (simp_all add: browseNext_single_def Service_Browse_single_def Let_def)

text \<open>
  When the last reference fills the page, a continuation point is taken although nothing is left, and
  without one the request fails although everything was found.
\<close>

lemma full_page_needs_point:
  assumes "browsable fuel st d ts n ds" "m \<noteq> 0" "length ds = unat m" "availableContinuationPoints s = 0"
  shows "\<exists>r g'. Service_Browse_single fuel (store_lookup st) mem rng None d m (s, g) = Done (r, s, g') \<and>
    brStatus r = BADNOCONTINUATIONPOINTS \<and> brReferences r = ds"
proof -
  have len: "length ds \<le> length (refs_of n)"
    using assms(1) matching_length[of "store_map st" d ts "refs_of n"] by (metis browsable_def length_map)
  have "refs_of n \<noteq> []" using len assms(2,3) by (auto simp: unat_eq_0)
  then obtain fin gid g2 where page:
    "Service_Browse_single fuel (store_lookup st) mem rng None d m (s, g) =
       Done (case update_continuationPoints mem gid None d m fin (take (page_size n m) (drop 0 ds)) s of
         (r, s', created) \<Rightarrow> (r, s', if created then g2 else g))"
    by (rule browse_page[OF assms(1), where cp = None and s = s and m = m and c = 0 and ?d0.0 = d
          and ?m0.0 = m and mem = mem and rng = rng and g = g]) auto
  have "page_size n m = length ds" using len assms(2,3) by (simp add: page_size_def)
  then show ?thesis using page assms(2-4) by (simp add: update_continuationPoints_def)
qed

section \<open>Browse paths\<close>

text \<open>All nodes at the end of a path, with the reference types of each element.\<close>

fun path_nodes ::
  "(nodeid \<Rightarrow> unode option) \<Rightarrow> (relativePathElement \<Rightarrow> nodeid list) \<Rightarrow> relativePathElement list \<Rightarrow> unode \<Rightarrow> nodeid list" where
  "path_nodes lookup types [] n = [nodeId n]"
| "path_nodes lookup types (e # es) n = concat (map (\<lambda>r. case lookup (target r) of
       None \<Rightarrow> []
     | Some m \<Rightarrow> if element_match e (types e) r \<and> has_name e m = Done True then path_nodes lookup types es m else [])
     (refs_of n))"

lemma walk_references_collects:
  fixes ts :: "nodeid list"
  assumes "\<And>r. r \<in> set rs \<Longrightarrow> get (target r) = Done (lookup (target r))"
    and "\<And>r m. r \<in> set rs \<Longrightarrow> lookup (target r) = Some m \<Longrightarrow> \<exists>b. has_name e m = Done b"
    and "\<And>m us. length us \<le> targets_size \<Longrightarrow>
      found m us = (if length us + length (P m) \<le> targets_size then Done (GOOD, us @ P m) else Undefined)"
    and "length us \<le> targets_size"
  defines "all \<equiv> (\<lambda>rs. concat (map (\<lambda>r. case lookup (target r) of
       None \<Rightarrow> []
     | Some m \<Rightarrow> if element_match e ts r \<and> has_name e m = Done True then P m else []) rs))"
  shows "walk_references get found e ts rs us =
    (if length us + length (all rs) \<le> targets_size then Done (GOOD, us @ all rs) else Undefined)"
  using assms(1-4)
proof (induction rs arbitrary: us)
  case Nil
  then show ?case by (simp add: all_def)
next
  case (Cons r rs)
  have ih: "walk_references get found e ts rs vs =
      (if length vs + length (all rs) \<le> targets_size then Done (GOOD, vs @ all rs) else Undefined)"
    if "length vs \<le> targets_size" for vs
    by (rule Cons.IH) (use Cons.prems that in auto)
  have get: "get (target r) = Done (lookup (target r))" using Cons.prems(1) by simp
  show ?case
  proof (cases "\<exists>m. lookup (target r) = Some m \<and> element_match e ts r \<and> has_name e m = Done True")
    case False
    have "all (r # rs) = all rs" using False by (auto simp: all_def split: option.splits)
    moreover have "walk_references get found e ts (r # rs) us = walk_references get found e ts rs us"
      using False get Cons.prems(2)[of r] by (auto split: option.splits)
    ultimately show ?thesis using ih[OF Cons.prems(4)] by simp
  next
    case True
    then obtain m where m: "lookup (target r) = Some m" "element_match e ts r" "has_name e m = Done True" by blast
    have "all (r # rs) = P m @ all rs" using m by (simp add: all_def)
    then show ?thesis using get m Cons.prems(3)[OF Cons.prems(4), of m] ih[of "us @ P m"] by auto
  qed
qed

lemma walk_collects:
  assumes "\<And>i. get i = Done (lookup i)"
    and "\<And>i m e. lookup i = Some m \<Longrightarrow> \<exists>b. has_name e m = Done b"
  shows "es \<noteq> [] \<Longrightarrow> (\<forall>e\<in>set es. element_types fuel get e = Done (Inr (types e))) \<Longrightarrow> length us \<le> targets_size \<Longrightarrow>
    walkBrowsePath fuel get es n us =
      (if length us + length (path_nodes lookup types es n) \<le> targets_size
       then Done (GOOD, us @ path_nodes lookup types es n) else Undefined)"
proof (induction es arbitrary: n us)
  case (Cons e es)
  let ?found = "if es = [] then add_target else walkBrowsePath fuel get es"
  have "?found m vs = (if length vs + length (path_nodes lookup types es m) \<le> targets_size
      then Done (GOOD, vs @ path_nodes lookup types es m) else Undefined)" if "length vs \<le> targets_size" for m vs
  proof (cases "es = []")
    case True
    then show ?thesis using that by (auto simp: add_target_def)
  next
    case False
    then show ?thesis using Cons.IH[OF False _ that] Cons.prems(2) by simp
  qed
  from walk_references_collects[of "refs_of n" get lookup e ?found "path_nodes lookup types es" us "types e", OF assms this]
    Cons.prems(2,3)
  show ?case by simp
qed simp

text \<open>
  C10. Translating a browse path gives exactly the nodes at its end, one for each way there: none is
  \<open>BADNOMATCH\<close>, and up to ten are returned.  With more than ten the array is grown by calling
  \<open>realloc\<close> with the address of a pointer, which is undefined.
\<close>

theorem browse_path_targets:
  assumes "searchable st" "\<forall>i m e. store_map st i = Some m \<longrightarrow> (\<exists>b. has_name e m = Done b)"
    and "\<forall>e\<in>set es. element_types fuel (store_lookup st) e = Done (Inr (types e)) \<and> \<not> UA_QualifiedName_isNull e"
    and "es \<noteq> []" "store_map st start = Some n"
  shows "Service_TranslateBrowsePathsToNodeIds_single fuel (store_lookup st) start es =
    (let targets = path_nodes (store_map st) types es n
     in if targets = [] then Done (BADNOMATCH, [])
        else if length targets \<le> 10 then Done (GOOD, targets)
        else Undefined)"
proof -
  have "walkBrowsePath fuel (store_lookup st) es n [] =
      (if length ([] :: nodeid list) + length (path_nodes (store_map st) types es n) \<le> targets_size
       then Done (GOOD, [] @ path_nodes (store_map st) types es n) else Undefined)"
    by (rule walk_collects) (use assms store.get_lookup[OF assms(1)] in auto)
  moreover have "\<not> list_ex UA_QualifiedName_isNull es" using assms(3) by (auto simp: list_ex_iff)
  ultimately show ?thesis
    using store.get_lookup[OF assms(1), of start] assms(4,5)
    by (simp add: Service_TranslateBrowsePathsToNodeIds_single_def targets_size_def Let_def)
qed

definition demo_element :: relativePathElement where
  "demo_element = \<lparr> peReferenceTypeId = UA_NODEID_NUMERIC 0 35, peIsInverse = False, peIncludeSubtypes = False,
     targetNamespace = 1, targetName = Some (str ''box'') \<rparr>"

theorem browse_path_targets_witness:
  "\<exists>st. Service_TranslateBrowsePathsToNodeIds_single 0 (store_lookup st) (demo_nid 5) (replicate 2 demo_element) =
      Done (GOOD, replicate 9 (demo_nid 5)) \<and>
    Service_TranslateBrowsePathsToNodeIds_single 0 (store_lookup st) (demo_nid 5) (replicate 3 demo_element) = Undefined"
proof -
  obtain st where st: "searchable st"
    "store_map st = (\<lambda>x. if UA_NodeId_equal (demo_nid 5) x then Some (enode demo_folder) else None)"
    by (rule folder_store)
  let ?types = "\<lambda>_. [UA_NODEID_NUMERIC 0 35]"
  have name: "has_name e (enode demo_folder) =
      Done (targetNamespace e = 1 \<and> UA_String_equal (targetName e) (Some (str ''box'')))" for e
    by (simp add: has_name_def demo_folder_def)
  have "\<forall>i m e. store_map st i = Some m \<longrightarrow> (\<exists>b. has_name e m = Done b)" using name by (simp add: st(2))
  moreover have "element_types 0 (store_lookup st) demo_element = Done (Inr (?types demo_element)) \<and>
      \<not> UA_QualifiedName_isNull demo_element"
    by (simp add: element_types_def demo_element_def UA_NodeId_isNull_def UA_NODEID_NUMERIC_def UA_QualifiedName_isNull_def)
  moreover have "path_nodes (store_map st) ?types (replicate k demo_element) (enode demo_folder) =
      replicate (3 ^ k) (demo_nid 5)" for k
  proof (induction k)
    case (Suc k)
    have m: "element_match demo_element [UA_NODEID_NUMERIC 0 35] (organizes (demo_nid 5))"
      "has_name demo_element (enode demo_folder) = Done True"
      by (simp_all add: name element_match_def demo_element_def UA_NODEID_NUMERIC_def UA_NodeId_equal_def UA_String_equal_bytes)
    show ?case using m Suc by (simp add: st(2) numeral_3_eq_3 replicate_add)
  qed simp
  ultimately show ?thesis
    using browse_path_targets[OF st(1), of "replicate 2 demo_element" 0 ?types "demo_nid 5" "enode demo_folder"]
      browse_path_targets[OF st(1), of "replicate 3 demo_element" 0 ?types "demo_nid 5" "enode demo_folder"]
    by (intro exI[of _ st]) (simp add: st(2))
qed

end
