(* ===== verification/Spec2Isabelle.thy ===== *)
theory Spec2Isabelle
  imports TaskTable UrlCode CodecProps ChunkTransfer ManagerProps ZkConfig TaskQueueProps DispatchProps EndpointUrl ClientProps NodeStoreLimits AttributeProps ViewProps
begin

text \<open>
  A verification library for UaRateThrottling, an OPC UA client and server that exchange their service
  requests through a task queue in ZooKeeper, so that a server takes them at its own rate.

  THE PROGRAM.  \<open>src/examples/zuthClient.c\<close> connects to a server over TCP (\<open>HEL\<close>, \<open>OPN\<close>, session) and
  puts the chunks of its later requests as sequential nodes \<open>task-\<close> into the queue of the server
  (\<open>ZUTH_SecureChannel_sendBinaryMessage\<close> in \<open>open62541.c\<close>); the responses come over TCP.
  \<open>src/examples/zuthServer.c\<close> runs the server of the bundled \<open>open62541.c\<close>, and reads the children of its
  queue, sorts them, and hands each chunk to its secure channel.  \<open>src/src/zk_cli.c\<close> reads the configuration
  file, makes the ZooKeeper paths and the task table (a hash table of \<open>src/src/hashtable\<close>);
  \<open>src/src/zk_urlEncode.c\<close> makes a URL one component of a path.

  HOW THE CODE IS MODELLED.  Operations take the state and give it back; a C integer is a word of its width; a
  C string is the list of its bytes before the NUL.  A status code is the value that the code
  returns, so that each early return is a branch.  What C leaves undefined (a NULL or dangling pointer, an
  index outside, a freed object that is used) is \<open>Undefined\<close>, and a loop or recursion that is not
  structural has fuel and may give \<open>OutOfFuel\<close> (type \<open>outcome\<close> in \<open>Prelude\<close>).  Code outside of the
  repository is an argument: ZooKeeper, Jansson and the Base64 functions of GLib are the fields of the record
  \<open>services\<close>; the clocks, \<open>malloc\<close> where it decides something, the random numbers, sockets
  and the callbacks of an application are functions.  What is relied on is stated where it is used: \<open>codec_laws\<close>
  (decoding what was encoded, parsing what was dumped), \<open>zookeeper_laws\<close> (each parent node counts its
  sequential children upwards, to 2147483647 at most, and a node keeps its data), \<open>segment_source\<close> (a socket gives its segments in time); each
  has an instance in the witnesses.

  THE THEORIES, each after the ones it needs.  The files of the code are under \<open>src/src\<close>; where no file is
  named it is \<open>open62541.c\<close>.
  \<^item> \<open>Prelude\<close>, \<open>CText\<close>: machine words, C strings, the number formats of the C library.
  \<^item> \<open>Hashtable\<close>, \<open>HashtableItr\<close>, \<open>TaskTable\<close> (\<open>hashtable/hashtable.c\<close>, \<open>hashtable/hashtable_itr.c\<close>,
    \<open>zk_cli.c\<close>): the table is the list of its chains with its limits; the iterator is a
    position in a chain.  The locale \<open>keyed_store\<close> says what a map promises, \<open>hash_key\<close> what the hash and
    the comparison of keys must promise; the task table is an interpretation for keys of eight bytes.
    Insertion, growth with its rounding, removal, iteration: invariant and the map that is represented.
  \<^item> \<open>UrlCode\<close>, \<open>ZkConfig\<close> (\<open>zk_urlEncode.c\<close>, \<open>zk_cli.c\<close>): the codec, its buffers and its
    round trip; the configuration file, and that client and server make the same paths.
  \<^item> \<open>UaTypes\<close>, \<open>UaTables\<close>: strings, GUIDs, node identifiers with comparison and hash; the generated tables of
    type descriptors, entry by entry.
  \<^item> \<open>BinPrim\<close>, \<open>BinCodec\<close> (the codec driven by the descriptors, with the exchange of a full buffer),
    \<open>BinLaws\<close> (locale \<open>codec\<close>, interpreted for each leaf type), \<open>BinSpec\<close> (the wire format as an inductive
    relation, which encoder, decoder and size computation implement), \<open>BinChunk\<close> (locale
    \<open>chunk_sink\<close>: the chunks together are the wire format), \<open>BinGuard\<close> (locale \<open>chunk_guard\<close>: the exchange
    callback keeps its invariant whatever is encoded), \<open>CodecTotal\<close> (decoding ends), \<open>CodecProps\<close>.
  \<^item> \<open>SecureChannel\<close>, \<open>ChunkSend\<close>, \<open>ChunkRecv\<close>, \<open>ChunkTransfer\<close>: channels with tokens and sequence numbers,
    sending a message in chunks (both locales above are interpreted on \<open>sendChunk\<close>), receiving and
    joining them, and both ends together.
  \<^item> \<open>Managers\<close>, \<open>ManagerInv\<close>, \<open>ManagerOps\<close>, \<open>ManagerProps\<close>: the managers of channels and sessions with the
    services that open, activate and close them.  Connections, channels and sessions are stores of
    objects by address, so that dangling pointers can be seen.  The inductive step relation has the steps of the
    services, of closed connections and of cleanup; it notes whether a channel was ever asked for on a connection that still had one.  Where
    that never happened the invariant that the pointers agree holds in all reachable states; where it
    happens, cleanups use a freed connection from then on (\<open>reissued_channel_dangles\<close>).
  \<^item> \<open>ServerChunks\<close>, \<open>Dispatch\<close>, \<open>DispatchProps\<close>: chunks processed in the server, and
    the dispatch of \<open>HEL\<close>, \<open>OPN\<close>, \<open>ERR\<close>, \<open>CLO\<close> and requests with the checks before a service.
  \<^item> \<open>TaskQueue\<close>, \<open>TaskQueueProps\<close> (with \<open>zuthServer.c\<close>): the queue from the client's message to the
    server's application.
  \<^item> \<open>Connection\<close>, \<open>ConnectionProps\<close>, \<open>EndpointUrl\<close>, \<open>Client\<close>, \<open>ClientProps\<close>: joining the segments of a
    stream into chunks, the jobs of an iteration, endpoint URLs, and the client's handshake, calls and
    responses.
  \<^item> \<open>NodeStore\<close>, \<open>NodeStoreSizes\<close>, \<open>NodeStoreProps\<close>, \<open>NodeStoreMap\<close>, \<open>NodeStoreLimits\<close>: the hash map of the
    address space with open addressing.  The table sizes are prime, so that a search visits all
    slots; a consistent store is a map, through growth and shrinking; and the tombstones that break it.
  \<^item> \<open>Ranges\<close>, \<open>RangeProps\<close>: index ranges of arrays, their text, copying and writing them.
  \<^item> \<open>InfoModel\<close>, \<open>InfoModelProps\<close>: searches along references (locale \<open>node_lookup\<close>, interpreted on the node
    store), the hierarchy of a type, the type of a node.
  \<^item> \<open>Attributes\<close>, \<open>AttributeService\<close>, \<open>AttributeProps\<close>: reading and writing all attributes of nodes,
    with the checks of type, rank, dimensions and range of values.
  \<^item> \<open>View\<close>, \<open>ViewProps\<close>: browsing the references of a node page by page with the continuation points of
    the session, and translating browse paths; an ordered specification of the references that match and an
    inductive relation for the targets of a path say what these give.

  WHAT THE PROPERTIES SAY TOGETHER.  A request that a client encodes is cut into chunks that together are
  its wire format (\<open>message_complete\<close>, \<open>message_terminated\<close>); the chunks become tasks, whose names sort into the order
  of sending (\<open>tasks_in_order\<close>); the server takes them in that order, accepts their sequence
  numbers, and calls its application once with the whole request (\<open>queue_delivers\<close>, \<open>message_delivered\<close>); the
  request is decoded to the value that was sent (\<open>codec_roundtrip\<close>), a service is only called for an activated
  session of the channel (\<open>service_needs_session\<close>), all this keeps the managers consistent as long as no
  client asks for a second channel on its connection (\<open>requests_keep_managers\<close>, \<open>managers_consistent\<close>), and the attribute services act on the node store as on a map
  (\<open>attribute_write_read\<close>, \<open>nodestore_insert\<close>); the response reaches the caller in whatever segments it
  arrives (\<open>response_received\<close>, \<open>stream_reassembled\<close>).
  Other properties state where the code does not do what it should: \<open>reissued_channel_dangles\<close>,
  \<open>late_response_fails_next\<close>, \<open>cycle_exhausts_stack\<close>, \<open>rights_ignored\<close>.  Runs of the node store on chosen
  identifiers, in which an insertion adds a node twice or a search for an absent node never ends, are computed in
  \<open>NodeStoreLimits\<close>.

  BOUNDS AND FUEL.  Decoding has two numbers of fuel.  Nesting: in the tables a structure contains only
  structures of smaller rank, and all ranks are below seven; the types that hold a value of any type read
  a byte first, so that seven times the length of the message and seven more is enough for all
  inputs (\<open>decode_total\<close>).  Encoding is bounded by the nesting of the value, and the exchanged buffers by
  the number of chunks of the message.  The loop over the chunks of a buffer needs one round for
  each chunk; only an \<open>OPN\<close> chunk of size zero makes it run for ever.  A search in the node store
  is bounded by the size of its table, at most 1048573 for stores of up to half a million
  nodes, which is the bound of the properties of the node store.  The search upwards needs
  as much stack as the longest way up; without a cycle there is a rank, with one the stack runs
  out (\<open>cycle_exhausts_stack\<close>).  The hierarchy of a type needs one round for each target of a reference at
  most.  Receiving a response needs one round for each segment within the client's timeout.

  ASSUMED OF THE PLATFORM.  64-bit, little endian, 8-byte pointers, signed \<open>char\<close>, IEEE floats; no threads
  (\<open>UA_ENABLE_MULTITHREADING\<close> is not set).  In the codec, in ranges and in the attribute services memory is granted;
  where an allocation that fails changes what the code does to its state, in the hash table, the managers,
  the connections and the node store, its outcome is an argument.

  NOT MODELLED.  The parts of \<open>open62541.c\<close> that a zuthServer does not need for its tasks, or that are
  generated: the nodeset with its initialisation, the services that add and delete nodes and
  references, method calls, subscriptions, discovery, repeated and delayed jobs, log output, the typed
  wrappers of the client's services, XML, and the variants for several threads.  Sockets and
  \<open>select\<close> are calls of the operating system: what they give is an argument.
  In \<open>zk_cli.c\<close> the completion functions, which print; in the examples \<open>main\<close> and the
  handling of signals; \<open>simple_parse.c\<close>, which prints a document.
\<close>

end
